(* ===== verification/Prelude.thy ===== *)
theory Prelude
  imports Main "HOL-Library.AList" "HOL-Library.Sublist" "HOL-Library.Word"
begin

text \<open>
  What every component of the development shares: the result type of the code that can
  throw (a sum, the thrown error on the left), its sequencing and guards with the
  rewrite rules that let \<open>simp\<close> read a chain of checks backwards, and the model of the
  JavaScript \<open>Map\<close> and \<open>Set\<close> as association and element lists in insertion order, with
  the interface the components use of them as a locale.
\<close>

type_synonym byte = "8 word"

section \<open>Results\<close>

text \<open>
  \<open>outcome_simps\<close> inverts a chain of guarded steps: a returned value means every guard
  held, a thrown error means one of them failed.
\<close>

named_theorems outcome_simps

text \<open>A computation that throws an \<open>'e\<close> or returns an \<open>'a\<close>.\<close>

type_synonym ('e, 'a) result = "'e + 'a"

abbreviation throw :: "'e \<Rightarrow> ('e, 'a) result" where
  "throw e \<equiv> Inl e"

abbreviation return :: "'a \<Rightarrow> ('e, 'a) result" where
  "return x \<equiv> Inr x"

definition and_then :: "('e, 'a) result \<Rightarrow> ('a \<Rightarrow> ('e, 'b) result) \<Rightarrow> ('e, 'b) result" where
  "and_then m f = (case m of Inl e \<Rightarrow> Inl e | Inr x \<Rightarrow> f x)"

text \<open>\<open>if (bad) throw e;\<close>\<close>

definition reject_if :: "bool \<Rightarrow> 'e \<Rightarrow> ('e, unit) result" where
  "reject_if b e = (if b then throw e else return ())"

lemma and_then_Inl [simp]: "and_then (Inl e) f = Inl e"
  by (simp add: and_then_def)

lemma and_then_Inr [simp]: "and_then (Inr x) f = f x"
  by (simp add: and_then_def)

lemma reject_if_True [simp]: "reject_if True e = Inl e"
  by (simp add: reject_if_def)

lemma reject_if_False [simp]: "reject_if False e = Inr ()"
  by (simp add: reject_if_def)

lemma and_then_eq_Inr [outcome_simps]:
  "and_then m f = Inr y \<longleftrightarrow> (\<exists>x. m = Inr x \<and> f x = Inr y)"
  by (cases m) simp_all

lemma and_then_eq_Inl [outcome_simps]:
  "and_then m f = Inl e \<longleftrightarrow> m = Inl e \<or> (\<exists>x. m = Inr x \<and> f x = Inl e)"
  by (cases m) simp_all

lemma reject_if_eq_Inr [outcome_simps]: "reject_if b e = Inr u \<longleftrightarrow> \<not> b"
  by (simp add: reject_if_def)

lemma reject_if_eq_Inl [outcome_simps]: "reject_if b e = Inl e' \<longleftrightarrow> b \<and> e' = e"
  by (auto simp add: reject_if_def)

lemma not_isl_Inr: "\<not> isl x \<longleftrightarrow> (\<exists>y. x = Inr y)"
  by (cases x) simp_all

lemma and_then_cong [fundef_cong]:
  "m = m' \<Longrightarrow> (\<And>x. m' = Inr x \<Longrightarrow> f x = f' x) \<Longrightarrow> and_then m f = and_then m' f'"
  by (cases m') simp_all

text \<open>\<open>xs.map(f)\<close> for a callback that may throw: stops at the first error.\<close>

fun map_result :: "('a \<Rightarrow> ('e, 'b) result) \<Rightarrow> 'a list \<Rightarrow> ('e, 'b list) result" where
  "map_result f [] = return []"
| "map_result f (x # xs) = and_then (f x) (\<lambda>y. and_then (map_result f xs) (\<lambda>ys. return (y # ys)))"

lemma map_result_cong [fundef_cong]:
  "xs = ys \<Longrightarrow> (\<And>x. x \<in> set ys \<Longrightarrow> f x = g x) \<Longrightarrow> map_result f xs = map_result g ys"
  by (induction ys arbitrary: xs) auto

lemma map_result_list_all2:
  "map_result f xs = Inr ys \<longleftrightarrow> list_all2 (\<lambda>x y. f x = Inr y) xs ys"
  by (induction xs arbitrary: ys) (auto simp: outcome_simps list_all2_Cons1)

lemma map_result_length: "map_result f xs = Inr ys \<Longrightarrow> length ys = length xs"
  by (auto simp: map_result_list_all2 dest: list_all2_lengthD)

lemma map_result_error:
  "map_result f xs = Inl e \<Longrightarrow> \<exists>x \<in> set xs. f x = Inl e"
  by (induction xs) (auto simp: outcome_simps)

lemma map_result_image:
  assumes "map_result f xs = Inr ys" and "\<And>x y. f x = Inr y \<Longrightarrow> g y = h x"
  shows "map g ys = map h xs"
  using assms(1) unfolding map_result_list_all2
  by (induction rule: list_all2_induct) (auto simp: assms(2))

text \<open>\<open>for (x of xs) f(x)\<close> for a callback that only checks.\<close>

fun each_result :: "('a \<Rightarrow> ('e, unit) result) \<Rightarrow> 'a list \<Rightarrow> ('e, unit) result" where
  "each_result f [] = return ()"
| "each_result f (x # xs) = and_then (f x) (\<lambda>_. each_result f xs)"

lemma each_result_Inr: "each_result f xs = Inr u \<longleftrightarrow> (\<forall>x \<in> set xs. f x = Inr ())"
  by (induction xs) (auto simp: outcome_simps)

section \<open>Maps and sets in insertion order\<close>

type_synonym ('k, 'v) jsmap = "('k \<times> 'v) list"

text \<open>
  A map is read through \<open>map_of\<close> alone; the library's rules that turn a lookup into membership
  of the entry list are taken out of the simplifier.
\<close>

declare map_of_eq_Some_iff [simp del] Some_eq_map_of_iff [simp del]

text \<open>
  What the components use of \<open>Map\<close>: reading, \<open>set\<close>, \<open>delete\<close> and \<open>size\<close>, with the laws
  their invariants rest on. The client lemmas are proved once, under the laws alone.
\<close>

locale keyed_store =
  fixes lookup :: "'m \<Rightarrow> 'k \<Rightarrow> 'v option"
    and store :: "'k \<Rightarrow> 'v \<Rightarrow> 'm \<Rightarrow> 'm"
    and remove :: "'k \<Rightarrow> 'm \<Rightarrow> 'm"
    and count :: "'m \<Rightarrow> nat"
    and wf :: "'m \<Rightarrow> bool"
  assumes lookup_store: "lookup (store k v m) k' = (if k' = k then Some v else lookup m k')"
    and lookup_remove: "lookup (remove k m) k' = (if k' = k then None else lookup m k')"
    and count_store: "wf m \<Longrightarrow> count (store k v m) = (if lookup m k = None then Suc (count m) else count m)"
    and count_remove: "wf m \<Longrightarrow> count (remove k m) = (if lookup m k = None then count m else count m - 1)"
    and count_pos: "lookup m k \<noteq> None \<Longrightarrow> 0 < count m"
    and wf_store: "wf m \<Longrightarrow> wf (store k v m)"
    and wf_remove: "wf m \<Longrightarrow> wf (remove k m)"
begin

lemma store_within:
  "wf m \<Longrightarrow> lookup m k = None \<longrightarrow> count m < cap \<Longrightarrow> count m \<le> cap \<Longrightarrow> count (store k v m) \<le> cap"
  by (auto simp: count_store)

lemma remove_within: "wf m \<Longrightarrow> count m \<le> cap \<Longrightarrow> count (remove k m) \<le> cap"
  by (auto simp: count_remove)

lemma remove_smaller:
  "wf m \<Longrightarrow> lookup m k \<noteq> None \<Longrightarrow> Suc (count (remove k m)) = count m"
  using count_pos [of m k] by (auto simp: count_remove)

lemma store_keeps:
  "lookup m k' = Some v' \<Longrightarrow> (k' = k \<Longrightarrow> v = v') \<Longrightarrow> lookup (store k v m) k' = Some v'"
  by (auto simp: lookup_store)

end

lemma length_alist_update:
  "length (AList.update k v m) = (if map_of m k = None then Suc (length m) else length m)"
  by (induction m) auto

lemma length_alist_delete:
  "distinct (map fst m) \<Longrightarrow>
   length (AList.delete k m) = (if map_of m k = None then length m else length m - 1)"
proof (induction m)
  case (Cons p m)
  show ?case
  proof (cases "fst p = k")
    case True
    with Cons.prems have "map_of m k = None"
      by (auto simp: map_of_eq_None_iff)
    with True Cons show ?thesis by (cases p) (simp add: AList.delete_eq)
  next
    case False
    have "0 < length m" if "map_of m k \<noteq> None"
      using that by (cases m) auto
    with False Cons show ?thesis by (auto simp: AList.delete_eq)
  qed
qed (simp add: AList.delete_eq)

lemma map_of_alist_delete:
  "map_of (AList.delete k m) k' = (if k' = k then None else map_of m k')"
  by (simp add: AList.delete_conv')

lemma map_of_alist_update:
  "map_of (AList.update k v m) k' = (if k' = k then Some v else map_of m k')"
  by (simp add: AList.update_conv')

interpretation jsmap: keyed_store map_of AList.update AList.delete length "\<lambda>m. distinct (map fst m)"
proof unfold_locales
  fix m :: "('a \<times> 'b) list" and k
  show "map_of m k \<noteq> None \<Longrightarrow> 0 < length m" by (cases m) auto
qed (auto simp: map_of_alist_update map_of_alist_delete length_alist_update length_alist_delete
      AList.distinct_update AList.distinct_delete)

lemma update_absent: "map_of m k = None \<Longrightarrow> AList.update k v m = m @ [(k, v)]"
  by (induction m) (auto split: if_splits)

lemma delete_absent: "map_of m k = None \<Longrightarrow> AList.delete k m = m"
  by (induction m) (auto simp: AList.delete_eq split: if_splits)

lemma delete_update_absent: "map_of m k = None \<Longrightarrow> AList.delete k (AList.update k v m) = m"
  by (induction m) (auto simp: AList.delete_eq delete_absent [unfolded AList.delete_eq] split: if_splits)

lemma update_present_twice: "AList.update k v (AList.update k w m) = AList.update k v m"
  by (induction m) auto

lemma update_same_value: "map_of m k = Some v \<Longrightarrow> AList.update k v m = m"
  by (induction m) auto

text \<open>How many entries satisfy a predicate, as entries come and go.\<close>

definition count_entries :: "('k \<Rightarrow> 'v \<Rightarrow> bool) \<Rightarrow> ('k, 'v) jsmap \<Rightarrow> nat" where
  "count_entries P m = length (filter (\<lambda>(k, v). P k v) m)"

lemma count_entries_Nil [simp]: "count_entries P [] = 0"
  by (simp add: count_entries_def)

lemma count_entries_insert:
  "map_of m k = None \<Longrightarrow>
   count_entries P (AList.update k v m) = count_entries P m + (if P k v then 1 else 0)"
  by (simp add: count_entries_def update_absent)

lemma count_entries_delete:
  "distinct (map fst m) \<Longrightarrow> map_of m k = Some v \<Longrightarrow>
   count_entries P m = count_entries P (AList.delete k m) + (if P k v then 1 else 0)"
proof (induction m)
  case (Cons p m)
  show ?case
  proof (cases "fst p = k")
    case True
    with Cons.prems have "map_of m k = None" by (auto simp: map_of_eq_None_iff)
    with True Cons.prems show ?thesis
      by (cases p) (simp add: count_entries_def delete_absent [unfolded AList.delete_eq] AList.delete_eq)
  next
    case False
    with Cons show ?thesis by (cases p) (auto simp: count_entries_def AList.delete_eq)
  qed
qed simp

lemma count_entries_pos:
  "map_of m k = Some v \<Longrightarrow> P k v \<Longrightarrow> 0 < count_entries P m"
  by (induction m) (auto simp: count_entries_def split: if_splits)

text \<open>A JavaScript \<open>Set\<close> of primitive values, in insertion order.\<close>

definition set_add :: "'a \<Rightarrow> 'a list \<Rightarrow> 'a list" where
  "set_add x xs = (if x \<in> set xs then xs else xs @ [x])"

lemma set_set_add [simp]: "set (set_add x xs) = insert x (set xs)"
  by (auto simp: set_add_def)

lemma distinct_set_add [simp]: "distinct (set_add x xs) \<longleftrightarrow> distinct xs"
  by (auto simp: set_add_def)

lemma length_set_add: "length (set_add x xs) = (if x \<in> set xs then length xs else Suc (length xs))"
  by (simp add: set_add_def)

section \<open>Sequences\<close>

text \<open>\<open>s.includes(t)\<close>\<close>

fun has_substring :: "'a list \<Rightarrow> 'a list \<Rightarrow> bool" where
  "has_substring [] t \<longleftrightarrow> t = []"
| "has_substring (c # s) t \<longleftrightarrow> prefix t (c # s) \<or> has_substring s t"

lemma has_substring_sublist: "has_substring s t \<longleftrightarrow> sublist t s"
  by (induction s) (auto simp: sublist_Cons_right)

lemma has_substring_trans:
  "has_substring s t \<Longrightarrow> has_substring r s \<Longrightarrow> has_substring r t"
  by (auto simp: has_substring_sublist intro: sublist_order.order.trans)

end
