(* ===== verification/Js_Value.thy ===== *)
theory Js_Value
  imports Prelude
begin

text \<open>
  JavaScript values as the bridge meets them: strings as sequences of UTF-16 code units,
  numbers, and the values that arrive as \<open>unknown\<close> and are probed with \<open>typeof\<close>,
  \<open>Array.isArray\<close> and property reads; with the decimal text of a number and the facts
  that make two such texts comparable.
\<close>

section \<open>Strings\<close>

text \<open>A string is a sequence of 16-bit code units; \<open>length\<close> counts them, as \<open>s.length\<close> does.\<close>

type_synonym code_unit = "16 word"
type_synonym jstr = "code_unit list"

text \<open>A string literal of the source.\<close>

definition js :: "string \<Rightarrow> jstr" where
  "js s = map of_char s"

lemma of_char_bound: "(of_char c :: nat) < 2 ^ 16"
  by (rule less_le_trans [OF nat_of_char_less_256]) simp

lemma of_char_code_unit_inject [simp]: "(of_char a :: code_unit) = of_char b \<longleftrightarrow> a = b"
proof
  assume "(of_char a :: code_unit) = of_char b"
  then have "unat (of_nat (of_char a) :: code_unit) = unat (of_nat (of_char b) :: code_unit)"
    by (simp add: of_nat_of_char)
  then have "(of_char a :: nat) = of_char b"
    using of_char_bound [of a] of_char_bound [of b] by (simp add: unat_of_nat)
  then show "a = b" by simp
qed simp

lemma js_inject [simp]: "js a = js b \<longleftrightarrow> a = b"
  unfolding js_def by (rule inj_map_eq_map) (simp add: inj_def)

lemma js_Nil [simp]: "js [] = []"
  by (simp add: js_def)

lemma js_eq_Nil [simp]: "js a = [] \<longleftrightarrow> a = []"
  by (simp add: js_def)

lemma length_js [simp]: "length (js s) = length s"
  by (simp add: js_def)

lemma js_append: "js (a @ b) = js a @ js b"
  by (simp add: js_def)

text \<open>Character classes of the patterns in the source.\<close>

definition is_digit_unit :: "code_unit \<Rightarrow> bool" where
  "is_digit_unit c \<longleftrightarrow> 48 \<le> c \<and> c \<le> 57"

definition is_lower_unit :: "code_unit \<Rightarrow> bool" where
  "is_lower_unit c \<longleftrightarrow> 97 \<le> c \<and> c \<le> 122"

definition is_upper_unit :: "code_unit \<Rightarrow> bool" where
  "is_upper_unit c \<longleftrightarrow> 65 \<le> c \<and> c \<le> 90"

definition is_alnum_unit :: "code_unit \<Rightarrow> bool" where
  "is_alnum_unit c \<longleftrightarrow> is_upper_unit c \<or> is_lower_unit c \<or> is_digit_unit c"

text \<open>\<open>[A-Za-z0-9_-]\<close>, the base64url alphabet.\<close>

definition is_base64url_unit :: "code_unit \<Rightarrow> bool" where
  "is_base64url_unit c \<longleftrightarrow> is_alnum_unit c \<or> c = 95 \<or> c = 45"

lemmas unit_class_defs =
  is_digit_unit_def is_lower_unit_def is_upper_unit_def is_alnum_unit_def is_base64url_unit_def

text \<open>
  \<open>String.prototype.trimStart\<close> drops ECMAScript white space and line terminators; no such
  character lies outside the Basic Multilingual Plane.
\<close>

definition is_js_space :: "code_unit \<Rightarrow> bool" where
  "is_js_space c \<longleftrightarrow>
     c \<in> {9, 10, 11, 12, 13, 32, 160, 5760, 8232, 8233, 8239, 8287, 12288, 65279}
     \<or> (8192 \<le> c \<and> c \<le> 8202)"

definition trim_start :: "jstr \<Rightarrow> jstr" where
  "trim_start s = dropWhile is_js_space s"

definition trim_both :: "jstr \<Rightarrow> jstr" where
  "trim_both s = rev (trim_start (rev (trim_start s)))"

section \<open>Numbers\<close>

text \<open>
  A Number is an integral value, negative zero, a finite non-integral value (named by the
  shortest decimal text that denotes it, which \<open>Number.prototype.toString\<close> prints), or
  one of the non-finite values.
\<close>

datatype jnum = NInt int | NNegZero | NFrac jstr | NInf bool | NNaN

abbreviation max_safe_integer :: int where
  "max_safe_integer \<equiv> 9007199254740991"

fun is_safe_integer :: "jnum \<Rightarrow> bool" where
  "is_safe_integer (NInt i) \<longleftrightarrow> \<bar>i\<bar> \<le> max_safe_integer"
| "is_safe_integer NNegZero \<longleftrightarrow> True"
| "is_safe_integer _ \<longleftrightarrow> False"

fun is_finite_number :: "jnum \<Rightarrow> bool" where
  "is_finite_number (NInf _) \<longleftrightarrow> False"
| "is_finite_number NNaN \<longleftrightarrow> False"
| "is_finite_number _ \<longleftrightarrow> True"

fun is_integer_number :: "jnum \<Rightarrow> bool" where
  "is_integer_number (NInt _) \<longleftrightarrow> True"
| "is_integer_number NNegZero \<longleftrightarrow> True"
| "is_integer_number _ \<longleftrightarrow> False"

section \<open>Values\<close>

text \<open>
  \<open>JObj\<close> is a plain object (prototype \<open>Object.prototype\<close> or none) with its own enumerable
  string keys in order; \<open>JExotic\<close> is any other non-array object, function or symbol.
\<close>

datatype jval =
    JUndef
  | JNull
  | JBool bool
  | JNum jnum
  | JStr jstr
  | JArr "jval list"
  | JObj "(jstr \<times> jval) list"
  | JExotic

type_synonym data_record = "(jstr, jval) jsmap"

text \<open>\<open>isDataRecord(value) ? value : undefined\<close>\<close>

fun read_data_record :: "jval \<Rightarrow> data_record option" where
  "read_data_record (JObj r) = Some r"
| "read_data_record _ = None"

text \<open>\<open>record[key]\<close>, and \<open>record?.[key]\<close> for a record that may be undefined.\<close>

definition field :: "data_record \<Rightarrow> string \<Rightarrow> jval" where
  "field r k = (case map_of r (js k) of None \<Rightarrow> JUndef | Some v \<Rightarrow> v)"

definition opt_field :: "data_record option \<Rightarrow> string \<Rightarrow> jval" where
  "opt_field r k = (case r of None \<Rightarrow> JUndef | Some r \<Rightarrow> field r k)"

definition set_field :: "string \<Rightarrow> jval \<Rightarrow> data_record \<Rightarrow> data_record" where
  "set_field k v r = AList.update (js k) v r"

definition delete_field :: "jstr \<Rightarrow> data_record \<Rightarrow> data_record" where
  "delete_field k r = AList.delete k r"

lemma opt_field_Some [simp]: "opt_field (Some r) k = field r k"
  by (simp add: opt_field_def)

lemma opt_field_None [simp]: "opt_field None k = JUndef"
  by (simp add: opt_field_def)

lemma field_set_field: "field (set_field k v r) k' = (if k' = k then v else field r k')"
  by (simp add: field_def set_field_def map_of_alist_update)

lemma field_set_same [simp]: "field (set_field k v r) k = v"
  by (simp add: field_set_field)

lemma keys_set_field [simp]: "fst ` set (set_field k v r) = insert (js k) (fst ` set r)"
  by (simp add: set_field_def dom_update)

lemma field_delete_field:
  "field (delete_field k r) k' = (if js k' = k then JUndef else field r k')"
  by (auto simp add: field_def delete_field_def map_of_alist_delete)

lemma keys_delete_field [simp]: "fst ` set (delete_field k r) = fst ` set r - {k}"
  by (auto simp add: delete_field_def AList.delete_eq)

abbreviation is_nullish :: "jval \<Rightarrow> bool" where
  "is_nullish v \<equiv> v = JUndef \<or> v = JNull"

text \<open>\<open>typeof value === "string"\<close>\<close>

fun is_string_value :: "jval \<Rightarrow> bool" where
  "is_string_value (JStr _) \<longleftrightarrow> True"
| "is_string_value _ \<longleftrightarrow> False"

lemma is_string_value_iff: "is_string_value v \<longleftrightarrow> (\<exists>s. v = JStr s)"
  by (cases v) auto

text \<open>Every string and key of a value, and the number of values the scan visits in it.\<close>

fun strings_of :: "jval \<Rightarrow> jstr list" where
  "strings_of (JStr s) = [s]"
| "strings_of (JArr vs) = concat (map strings_of vs)"
| "strings_of (JObj r) = map fst r @ concat (map (\<lambda>(k, v). strings_of v) r)"
| "strings_of _ = []"

fun node_count :: "jval \<Rightarrow> nat" where
  "node_count (JArr vs) = Suc (sum_list (map node_count vs))"
| "node_count (JObj r) = Suc (sum_list (map (\<lambda>(k, v). node_count v) r))"
| "node_count _ = 1"

lemma node_count_pos [simp]: "0 < node_count v"
  by (cases v) auto

lemma record_strings: "strings_of (JObj r) = map fst r @ concat (map strings_of (map snd r))"
  by (simp add: split_def comp_def)

lemma record_nodes: "node_count (JObj r) = Suc (sum_list (map node_count (map snd r)))"
  by (simp add: split_def comp_def)

lemma sum_nodes_rev [simp]: "sum_list (map node_count (rev vs)) = sum_list (map node_count vs)"
  by (simp add: rev_map [symmetric] sum_list_rev)

section \<open>Decimal text\<close>

text \<open>\<open>String(n)\<close> of a nonnegative integer below the exponent threshold of \<open>1e21\<close>.\<close>

fun nat_digits :: "nat \<Rightarrow> nat list" where
  "nat_digits n = (if n < 10 then [n] else nat_digits (n div 10) @ [n mod 10])"

declare nat_digits.simps [simp del]

definition nat_text :: "nat \<Rightarrow> jstr" where
  "nat_text n = map (\<lambda>d. of_nat (48 + d)) (nat_digits n)"

definition int_text :: "int \<Rightarrow> jstr" where
  "int_text i = (if i < 0 then 45 # nat_text (nat (- i)) else nat_text (nat i))"

definition digits_value :: "nat list \<Rightarrow> nat" where
  "digits_value ds = foldl (\<lambda>a d. 10 * a + d) 0 ds"

lemma nat_digits_small: "\<forall>d \<in> set (nat_digits n). d < 10"
proof (induction n rule: nat_digits.induct)
  case (1 n)
  then show ?case by (subst nat_digits.simps) auto
qed

lemma nat_digits_value: "digits_value (nat_digits n) = n"
proof (induction n rule: nat_digits.induct)
  case (1 n)
  then show ?case
    by (subst nat_digits.simps) (auto simp: digits_value_def)
qed

lemma nat_digits_nonempty: "nat_digits n \<noteq> []"
  by (subst nat_digits.simps) simp

lemma nat_digits_inject: "nat_digits m = nat_digits n \<longleftrightarrow> m = n"
  by (metis nat_digits_value)

lemma digit_unit_inject:
  assumes "a < 10" and "b < 10" and "(of_nat (48 + a) :: code_unit) = of_nat (48 + b)"
  shows "a = b"
proof -
  have "unat (of_nat (48 + a) :: code_unit) = unat (of_nat (48 + b) :: code_unit)"
    using assms(3) by (rule arg_cong)
  with assms(1,2) show ?thesis by (simp add: unat_of_nat del: of_nat_add)
qed

lemma nat_text_inject [simp]: "nat_text m = nat_text n \<longleftrightarrow> m = n"
proof
  assume eq: "nat_text m = nat_text n"
  have "inj_on (\<lambda>d. of_nat (48 + d) :: code_unit) (set (nat_digits m) \<union> set (nat_digits n))"
    using nat_digits_small [of m] nat_digits_small [of n]
    by (intro inj_onI) (blast intro: digit_unit_inject)
  with eq have "nat_digits m = nat_digits n"
    unfolding nat_text_def by (rule map_inj_on)
  then show "m = n" by (simp add: nat_digits_inject)
qed simp

lemma nat_text_digits: "c \<in> set (nat_text n) \<Longrightarrow> is_digit_unit c"
proof -
  have "is_digit_unit (of_nat (48 + d))" if "d < 10" for d :: nat
    using that by (simp add: is_digit_unit_def word_le_nat_alt unat_of_nat del: of_nat_add)
  then show "c \<in> set (nat_text n) \<Longrightarrow> is_digit_unit c"
    using nat_digits_small [of n] by (auto simp: nat_text_def simp del: of_nat_add)
qed

lemma nat_text_nonempty [simp]: "nat_text n \<noteq> []"
  by (simp add: nat_text_def nat_digits_nonempty)

lemma nat_text_no_minus: "nat_text n \<noteq> 45 # s"
  using nat_text_digits [of 45 n] by (auto simp: is_digit_unit_def)

lemma int_text_inject [simp]: "int_text i = int_text j \<longleftrightarrow> i = j"
  using nat_text_no_minus nat_text_no_minus [THEN not_sym] by (auto simp: int_text_def)

text \<open>Text that ends at the first separator is determined by what follows it.\<close>

lemma separated_inject:
  assumes "a @ c # x = b @ c # y" and "c \<notin> set a" and "c \<notin> set b"
  shows "a = b \<and> x = y"
proof -
  have "takeWhile (\<lambda>d. d \<noteq> c) (a @ c # x) = a" and "takeWhile (\<lambda>d. d \<noteq> c) (b @ c # y) = b"
    using assms(2,3) by (auto simp: takeWhile_append takeWhile_eq_all_conv)
  with assms(1) have "a = b" by simp
  with assms(1) show ?thesis by simp
qed

end
