(* ===== verification/Web_Namespace.thy ===== *)
theory Web_Namespace
  imports Js_Value
begin

text \<open>
  The reserved model namespace (\<open>packages/core/src/model-namespace.ts\<close>): which strings name
  a public Web model, which name a private provider route, and which are so close to the
  namespace that no native model may use them.
\<close>

definition WEB_MODEL_PUBLIC_PREFIX :: jstr where
  "WEB_MODEL_PUBLIC_PREFIX = js ''gptsessionbridge/web/''"

text \<open>The text after the prefix, when the string starts with it.\<close>

definition strip_text :: "jstr \<Rightarrow> jstr \<Rightarrow> jstr option" where
  "strip_text p s = (if prefix p s then Some (drop (length p) s) else None)"

text \<open>\<open>[a-z0-9](?:[a-z0-9._-]{0,62}[a-z0-9])?\<close>\<close>

definition is_public_key_edge :: "code_unit \<Rightarrow> bool" where
  "is_public_key_edge c \<longleftrightarrow> is_lower_unit c \<or> is_digit_unit c"

definition is_public_key_unit :: "code_unit \<Rightarrow> bool" where
  "is_public_key_unit c \<longleftrightarrow> is_public_key_edge c \<or> c = 46 \<or> c = 95 \<or> c = 45"

definition is_public_key :: "jstr \<Rightarrow> bool" where
  "is_public_key s \<longleftrightarrow>
     s \<noteq> [] \<and> length s \<le> 64 \<and> is_public_key_edge (hd s) \<and> is_public_key_edge (last s)
     \<and> list_all is_public_key_unit s"

definition matches_web_model :: "jstr \<Rightarrow> bool" where
  "matches_web_model s =
     (case strip_text WEB_MODEL_PUBLIC_PREFIX s of None \<Rightarrow> False | Some k \<Rightarrow> is_public_key k)"

definition matches_web_provider_model :: "jstr \<Rightarrow> bool" where
  "matches_web_provider_model s =
     (case strip_text (WEB_MODEL_PUBLIC_PREFIX @ js ''route-v1-'') s of
        None \<Rightarrow> False
      | Some k \<Rightarrow> length k = 43 \<and> list_all is_base64url_unit k)"

definition is_canonical_web_model_reference :: "jval \<Rightarrow> bool" where
  "is_canonical_web_model_reference v =
     (case v of JStr s \<Rightarrow> matches_web_model s \<and> \<not> matches_web_provider_model s | _ \<Rightarrow> False)"

definition is_canonical_web_provider_model_reference :: "jval \<Rightarrow> bool" where
  "is_canonical_web_provider_model_reference v =
     (case v of JStr s \<Rightarrow> matches_web_provider_model s | _ \<Rightarrow> False)"

text \<open>
  \<open>toLowerCase\<close>, compared with an ASCII text that has no letter \<open>k\<close>: besides A to Z, the only
  characters whose lower case starts with an ASCII letter are the Kelvin sign (giving \<open>k\<close>) and
  the dotted capital I (giving two code units, so the lengths differ), so lowering A to Z alone
  decides the comparison.
\<close>

definition to_lower_unit :: "code_unit \<Rightarrow> code_unit" where
  "to_lower_unit c = (if is_upper_unit c then c + 32 else c)"

definition is_reserved_web_model_reference :: "jval \<Rightarrow> bool" where
  "is_reserved_web_model_reference v =
     (case v of
        JStr s \<Rightarrow>
          map to_lower_unit (take (length WEB_MODEL_PUBLIC_PREFIX) (trim_start s))
            = WEB_MODEL_PUBLIC_PREFIX
      | _ \<Rightarrow> False)"

lemma strip_text_eq_Some: "strip_text p s = Some r \<longleftrightarrow> s = p @ r"
  by (auto simp: strip_text_def prefix_def)

lemma prefix_is_lower: "map to_lower_unit WEB_MODEL_PUBLIC_PREFIX = WEB_MODEL_PUBLIC_PREFIX"
  by (simp add: WEB_MODEL_PUBLIC_PREFIX_def js_def to_lower_unit_def is_upper_unit_def)

lemma prefix_not_space: "\<exists>c r. WEB_MODEL_PUBLIC_PREFIX = c # r \<and> \<not> is_js_space c"
  by (simp add: WEB_MODEL_PUBLIC_PREFIX_def js_def is_js_space_def)

text \<open>Every string in the namespace, public or private, is recognised as reserved.\<close>

lemma in_namespace_reserved: "is_reserved_web_model_reference (JStr (WEB_MODEL_PUBLIC_PREFIX @ r))"
proof -
  obtain c t where "WEB_MODEL_PUBLIC_PREFIX = c # t" and "\<not> is_js_space c"
    using prefix_not_space by blast
  then have "trim_start (WEB_MODEL_PUBLIC_PREFIX @ r) = WEB_MODEL_PUBLIC_PREFIX @ r"
    by (metis append_Cons dropWhile.simps(2) trim_start_def)
  then show ?thesis
    by (simp add: is_reserved_web_model_reference_def prefix_is_lower)
qed

lemma canonical_public_reserved:
  "is_canonical_web_model_reference v \<Longrightarrow> is_reserved_web_model_reference v"
  by (auto simp: is_canonical_web_model_reference_def matches_web_model_def strip_text_eq_Some
      in_namespace_reserved split: jval.splits option.splits)

lemma canonical_provider_reserved:
  "is_canonical_web_provider_model_reference v \<Longrightarrow> is_reserved_web_model_reference v"
  by (auto simp: is_canonical_web_provider_model_reference_def matches_web_provider_model_def
      strip_text_eq_Some in_namespace_reserved split: jval.splits option.splits)

lemma public_not_provider:
  "is_canonical_web_model_reference v \<Longrightarrow> \<not> is_canonical_web_provider_model_reference v"
  by (auto simp: is_canonical_web_model_reference_def is_canonical_web_provider_model_reference_def
      split: jval.splits)

lemma reserved_is_string: "is_reserved_web_model_reference v \<Longrightarrow> \<exists>s. v = JStr s"
  by (auto simp: is_reserved_web_model_reference_def split: jval.splits)

end
