(* ===== verification/Model_Registry.thy ===== *)
theory Model_Registry
  imports Web_Namespace
begin

text \<open>
  The registry that maps public Web model keys to their private routes
  (\<open>packages/core/src/routing/model-registry.ts\<close>) and the routing error codes
  (\<open>routing/errors.ts\<close>). A registry is fixed at construction or reads a source on every
  lookup; the source's present answer is part of the registry's state.
\<close>

datatype routing_error =
    Invalid_Configuration
  | Invalid_Params
  | Pending_Capacity
  | Pinned_Selection_Mismatch
  | Provider_Switch
  | Request_Id_Conflict
  | Route_Conflict
  | Thread_Capacity
  | Thread_Route_Blocked
  | Thread_Route_Pending
  | Thread_Route_Unknown
  | Web_Derived_Thread_Unsupported
  | Web_Method_Unsupported
  | Web_Model_Unavailable
  | Web_Realtime_Unsupported
  | Web_Review_Unsupported

text \<open>A definition as the caller hands it over, its fields not yet checked.\<close>

record raw_route_definition =
  raw_catalog_revision :: jval
  raw_default_effort :: jval
  raw_provider_model :: jval
  raw_public_model :: jval
  raw_supported_efforts :: jval

record route_definition =
  rd_catalog_revision :: jstr
  rd_default_effort :: jstr
  rd_provider_model :: jstr
  rd_public_model :: jstr
  rd_supported_efforts :: "jstr list"

type_synonym route_table = "(jstr, route_definition) jsmap"

definition read_identifier :: "jval \<Rightarrow> (routing_error, jstr) result" where
  "read_identifier v =
     (case v of
        JStr s \<Rightarrow> if length s < 1 \<or> 256 < length s then throw Invalid_Configuration else return s
      | _ \<Rightarrow> throw Invalid_Configuration)"

text \<open>\<open>/^[A-Za-z0-9][A-Za-z0-9._:/-]*$/u\<close>\<close>

definition is_provider_model_unit :: "code_unit \<Rightarrow> bool" where
  "is_provider_model_unit c \<longleftrightarrow> is_alnum_unit c \<or> c \<in> {46, 95, 58, 47, 45}"

definition matches_provider_pattern :: "jstr \<Rightarrow> bool" where
  "matches_provider_pattern s =
     (case s of [] \<Rightarrow> False | c # r \<Rightarrow> is_alnum_unit c \<and> list_all is_provider_model_unit r)"

definition read_provider_model :: "jval \<Rightarrow> (routing_error, jstr) result" where
  "read_provider_model v =
     and_then (read_identifier v) (\<lambda>model.
     if \<not> matches_provider_pattern model
        \<or> \<not> is_canonical_web_provider_model_reference (JStr model)
     then throw Invalid_Configuration
     else return model)"

definition read_reasoning_efforts :: "jval \<Rightarrow> (routing_error, jstr list) result" where
  "read_reasoning_efforts v =
     (case v of
        JArr vs \<Rightarrow>
          if length vs < 1 \<or> 16 < length vs then throw Invalid_Configuration
          else and_then (map_result read_identifier vs) (\<lambda>efforts.
               if distinct efforts then return efforts else throw Invalid_Configuration)
      | _ \<Rightarrow> throw Invalid_Configuration)"

definition normalize_definition ::
    "raw_route_definition \<Rightarrow> (routing_error, route_definition) result" where
  "normalize_definition d =
     and_then (read_identifier (raw_catalog_revision d)) (\<lambda>revision.
     and_then (read_identifier (raw_default_effort d)) (\<lambda>effort.
     and_then (read_provider_model (raw_provider_model d)) (\<lambda>provider.
     and_then (read_identifier (raw_public_model d)) (\<lambda>public.
     and_then (read_reasoning_efforts (raw_supported_efforts d)) (\<lambda>efforts.
     return \<lparr>rd_catalog_revision = revision, rd_default_effort = effort,
             rd_provider_model = provider, rd_public_model = public,
             rd_supported_efforts = efforts\<rparr>)))))"

fun normalize_loop ::
    "raw_route_definition list \<Rightarrow> route_table \<Rightarrow> (routing_error, route_table) result" where
  "normalize_loop [] models = return models"
| "normalize_loop (d # ds) models =
     and_then (normalize_definition d) (\<lambda>normalized.
     if rd_default_effort normalized \<notin> set (rd_supported_efforts normalized)
        \<or> \<not> is_canonical_web_model_reference (JStr (rd_public_model normalized))
        \<or> map_of models (rd_public_model normalized) \<noteq> None
     then throw Invalid_Configuration
     else normalize_loop ds (AList.update (rd_public_model normalized) normalized models))"

definition normalize_definitions ::
    "raw_route_definition list \<Rightarrow> nat \<Rightarrow> (routing_error, route_table) result" where
  "normalize_definitions ds max_entries =
     (if max_entries < length ds then throw Invalid_Configuration else normalize_loop ds [])"

text \<open>
  \<open>Live_Models\<close> holds what the source function answers now: \<open>None\<close> is an answer that is not
  an array.
\<close>

datatype model_registry =
    Fixed_Models route_table
  | Live_Models "raw_route_definition list option" nat

definition read_models :: "model_registry \<Rightarrow> (routing_error, route_table) result" where
  "read_models r =
     (case r of
        Fixed_Models models \<Rightarrow> return models
      | Live_Models None _ \<Rightarrow> throw Invalid_Configuration
      | Live_Models (Some ds) max_entries \<Rightarrow> normalize_definitions ds max_entries)"

definition new_fixed_registry ::
    "raw_route_definition list \<Rightarrow> jnum \<Rightarrow> (routing_error, model_registry) result" where
  "new_fixed_registry ds max_entries =
     (case max_entries of
        NInt n \<Rightarrow>
          if \<not> is_safe_integer (NInt n) \<or> n < 1 then throw Invalid_Configuration
          else and_then (normalize_definitions ds (nat n)) (\<lambda>models. return (Fixed_Models models))
      | _ \<Rightarrow> throw Invalid_Configuration)"

definition new_live_registry ::
    "raw_route_definition list option \<Rightarrow> jnum \<Rightarrow> (routing_error, model_registry) result" where
  "new_live_registry answer max_entries =
     (case max_entries of
        NInt n \<Rightarrow>
          if \<not> is_safe_integer (NInt n) \<or> n < 1 then throw Invalid_Configuration
          else and_then (read_models (Live_Models answer (nat n))) (\<lambda>_.
               return (Live_Models answer (nat n)))
      | _ \<Rightarrow> throw Invalid_Configuration)"

definition registry_get ::
    "model_registry \<Rightarrow> jstr \<Rightarrow> (routing_error, route_definition option) result" where
  "registry_get r public_model =
     and_then (read_models r) (\<lambda>models. return (map_of models public_model))"

definition registry_size :: "model_registry \<Rightarrow> (routing_error, nat) result" where
  "registry_size r = and_then (read_models r) (\<lambda>models. return (length models))"

section \<open>What a lookup may return\<close>

definition well_formed_route :: "route_definition \<Rightarrow> bool" where
  "well_formed_route d \<longleftrightarrow>
     is_canonical_web_model_reference (JStr (rd_public_model d))
     \<and> is_canonical_web_provider_model_reference (JStr (rd_provider_model d))
     \<and> rd_default_effort d \<in> set (rd_supported_efforts d)
     \<and> distinct (rd_supported_efforts d)
     \<and> rd_catalog_revision d \<noteq> []
     \<and> (\<forall>e \<in> set (rd_supported_efforts d). e \<noteq> [] \<and> length e \<le> 256)"

definition well_formed_table :: "route_table \<Rightarrow> bool" where
  "well_formed_table models \<longleftrightarrow>
     distinct (map fst models)
     \<and> (\<forall>k d. map_of models k = Some d \<longrightarrow> well_formed_route d \<and> rd_public_model d = k)"

fun well_formed_registry :: "model_registry \<Rightarrow> bool" where
  "well_formed_registry (Fixed_Models models) = well_formed_table models"
| "well_formed_registry (Live_Models _ _) = True"

lemma read_identifier_Inr:
  "read_identifier v = Inr s \<longleftrightarrow> v = JStr s \<and> s \<noteq> [] \<and> length s \<le> 256"
  by (auto simp: read_identifier_def Suc_le_eq split: jval.splits if_splits)

lemma read_provider_model_Inr:
  "read_provider_model v = Inr s \<Longrightarrow>
   v = JStr s \<and> is_canonical_web_provider_model_reference (JStr s)"
  by (auto simp: read_provider_model_def outcome_simps read_identifier_Inr split: if_splits)

lemma read_reasoning_efforts_Inr:
  assumes "read_reasoning_efforts v = Inr es"
  shows "distinct es" and "e \<in> set es \<Longrightarrow> e \<noteq> [] \<and> length e \<le> 256"
proof -
  from assms obtain vs where d: "distinct es" and all: "map_result read_identifier vs = Inr es"
    by (auto simp: read_reasoning_efforts_def outcome_simps split: jval.splits if_splits)
  show "distinct es" by (rule d)
  assume "e \<in> set es"
  with all show "e \<noteq> [] \<and> length e \<le> 256"
    by (auto simp: map_result_list_all2 read_identifier_Inr list_all2_conv_all_nth in_set_conv_nth)
qed

lemma normalize_definition_Inr:
  assumes "normalize_definition d = Inr n"
    and "rd_default_effort n \<in> set (rd_supported_efforts n)"
    and "is_canonical_web_model_reference (JStr (rd_public_model n))"
  shows "well_formed_route n"
  using assms
  by (auto simp: normalize_definition_def well_formed_route_def outcome_simps read_identifier_Inr
      dest: read_provider_model_Inr read_reasoning_efforts_Inr)

lemma normalize_loop_well_formed:
  "normalize_loop ds models = Inr result \<Longrightarrow> well_formed_table models \<Longrightarrow> well_formed_table result"
proof (induction ds arbitrary: models)
  case (Cons d ds)
  then obtain n where n: "normalize_definition d = Inr n"
    and ok: "rd_default_effort n \<in> set (rd_supported_efforts n)"
      "is_canonical_web_model_reference (JStr (rd_public_model n))"
    and rest: "normalize_loop ds (AList.update (rd_public_model n) n models) = Inr result"
    by (auto simp: outcome_simps split: if_splits)
  have "well_formed_table (AList.update (rd_public_model n) n models)"
    using Cons.prems(2) normalize_definition_Inr [OF n ok]
    by (simp add: well_formed_table_def distinct_update map_of_alist_update)
  with rest show ?case by (rule Cons.IH)
qed simp

lemma read_models_well_formed:
  "read_models r = Inr models \<Longrightarrow> well_formed_registry r \<Longrightarrow> well_formed_table models"
  by (auto simp: read_models_def normalize_definitions_def well_formed_table_def
      dest!: normalize_loop_well_formed split: model_registry.splits option.splits if_splits)

lemma new_fixed_registry_well_formed:
  "new_fixed_registry ds n = Inr r \<Longrightarrow> well_formed_registry r"
  by (auto simp: new_fixed_registry_def outcome_simps normalize_definitions_def
      well_formed_table_def dest!: normalize_loop_well_formed split: jnum.splits if_splits)

lemma new_live_registry_well_formed:
  "new_live_registry answer n = Inr r \<Longrightarrow> well_formed_registry r"
  by (auto simp: new_live_registry_def outcome_simps split: jnum.splits if_splits)

lemma registry_get_well_formed:
  "registry_get r k = Inr (Some d) \<Longrightarrow> well_formed_registry r \<Longrightarrow>
   well_formed_route d \<and> rd_public_model d = k"
  by (auto simp: registry_get_def outcome_simps well_formed_table_def
      dest!: read_models_well_formed)

text \<open>
  The interface the router relies on: a lookup by public key answers only with a complete
  route of exactly that key.
\<close>

locale model_directory =
  fixes find :: "'r \<Rightarrow> jstr \<Rightarrow> (routing_error, route_definition option) result"
    and sound :: "'r \<Rightarrow> bool"
  assumes find_route:
    "sound r \<Longrightarrow> find r k = Inr (Some d) \<Longrightarrow> well_formed_route d \<and> rd_public_model d = k"
begin

lemma found_key_reserved:
  "sound r \<Longrightarrow> find r k = Inr (Some d) \<Longrightarrow> is_reserved_web_model_reference (JStr k)"
  using find_route by (auto simp: well_formed_route_def intro: canonical_public_reserved)

lemma found_provider_differs:
  "sound r \<Longrightarrow> find r k = Inr (Some d) \<Longrightarrow> find r k' = Inr (Some d') \<Longrightarrow> k' \<noteq> rd_provider_model d"
proof
  assume r: "sound r" and d: "find r k = Inr (Some d)" and d': "find r k' = Inr (Some d')"
    and eq: "k' = rd_provider_model d"
  from find_route [OF r d'] eq have "is_canonical_web_model_reference (JStr (rd_provider_model d))"
    by (metis well_formed_route_def)
  with find_route [OF r d] show False
    by (simp add: well_formed_route_def public_not_provider)
qed

end

interpretation registry: model_directory registry_get well_formed_registry
  by unfold_locales (rule registry_get_well_formed)

end
