(* ===== verification/Capability_Token.thy ===== *)
theory Capability_Token
  imports Js_Value
begin

text \<open>
  The bearer capability of the local provider
  (\<open>packages/core/src/security/capability-token.ts\<close>), with the unpadded base64url text that
  Node's \<open>Buffer.toString("base64url")\<close> gives.
\<close>

section \<open>base64url\<close>

definition base64url_digit :: "nat \<Rightarrow> code_unit" where
  "base64url_digit n =
     (if n < 26 then of_nat (65 + n)
      else if n < 52 then of_nat (71 + n)
      else if n < 62 then of_nat (n - 4)
      else if n = 62 then 45 else 95)"

fun base64url :: "byte list \<Rightarrow> jstr" where
  "base64url [] = []"
| "base64url [a] =
     [base64url_digit (unat a div 4), base64url_digit (unat a mod 4 * 16)]"
| "base64url [a, b] =
     [base64url_digit (unat a div 4),
      base64url_digit (unat a mod 4 * 16 + unat b div 16),
      base64url_digit (unat b mod 16 * 4)]"
| "base64url (a # b # c # r) =
     base64url_digit (unat a div 4)
     # base64url_digit (unat a mod 4 * 16 + unat b div 16)
     # base64url_digit (unat b mod 16 * 4 + unat c div 64)
     # base64url_digit (unat c mod 64)
     # base64url r"

lemma unat_byte_bound: "unat (a :: byte) < 256"
  using unsigned_less [of a] by simp

lemma base64url_digit_alphabet: "is_base64url_unit (base64url_digit n)"
proof -
  consider "n < 26" | "26 \<le> n" "n < 52" | "52 \<le> n" "n < 62" | "62 \<le> n" by linarith
  then show ?thesis
  proof cases
    case 1
    then show ?thesis
      by (simp add: base64url_digit_def unit_class_defs word_le_nat_alt unat_of_nat
          del: of_nat_add)
  next
    case 2
    then show ?thesis
      by (simp add: base64url_digit_def unit_class_defs word_le_nat_alt unat_of_nat
          del: of_nat_add)
  next
    case 3
    then have "48 \<le> n - 4" and "n - 4 \<le> 57" by linarith+
    moreover have "is_digit_unit (of_nat k)" if "48 \<le> k" "k \<le> 57" for k
      using that by (simp add: is_digit_unit_def word_le_nat_alt unat_of_nat)
    ultimately have "is_digit_unit (of_nat (n - 4))" by blast
    with 3 show ?thesis
      by (simp add: base64url_digit_def is_base64url_unit_def is_alnum_unit_def del: of_nat_diff)
  next
    case 4
    then show ?thesis by (auto simp: base64url_digit_def unit_class_defs)
  qed
qed

lemma base64url_alphabet: "list_all is_base64url_unit (base64url bs)"
  by (induction bs rule: base64url.induct) (simp_all add: base64url_digit_alphabet)

lemma length_base64url: "length (base64url bs) = (4 * length bs + 2) div 3"
  by (induction bs rule: base64url.induct) auto

section \<open>Tokens\<close>

definition TOKEN_PREFIX :: jstr where
  "TOKEN_PREFIX = js ''gsb_''"

definition DUMMY_TOKEN :: jstr where
  "DUMMY_TOKEN = TOKEN_PREFIX @ replicate 43 65"

definition matches_token :: "jstr \<Rightarrow> bool" where
  "matches_token s \<longleftrightarrow>
     prefix TOKEN_PREFIX s \<and> length s = 47 \<and> list_all is_base64url_unit (drop 4 s)"

definition is_capability_token :: "jval \<Rightarrow> bool" where
  "is_capability_token v = (case v of JStr s \<Rightarrow> matches_token s | _ \<Rightarrow> False)"

text \<open>\<open>randomBytes(32)\<close> is the argument.\<close>

definition generate_capability_token :: "byte list \<Rightarrow> jstr" where
  "generate_capability_token random_bytes = TOKEN_PREFIX @ base64url random_bytes"

definition parse_capability_token :: "jval \<Rightarrow> jstr option" where
  "parse_capability_token v =
     (case v of JStr s \<Rightarrow> if matches_token s then Some s else None | _ \<Rightarrow> None)"

text \<open>
  \<open>sha256\<close> is the digest of Node's \<open>crypto\<close>, a parameter; \<open>timingSafeEqual\<close> is equality of two
  digests of the same length.
\<close>

definition verify_capability_token :: "(jstr \<Rightarrow> 'd) \<Rightarrow> jval \<Rightarrow> jval \<Rightarrow> bool" where
  "verify_capability_token sha256 presented expected =
     (let presented_value = (case parse_capability_token presented of Some s \<Rightarrow> s | None \<Rightarrow> DUMMY_TOKEN);
          expected_value = (case parse_capability_token expected of Some s \<Rightarrow> s | None \<Rightarrow> DUMMY_TOKEN);
          same = (sha256 presented_value = sha256 expected_value)
      in is_capability_token presented \<and> is_capability_token expected \<and> same)"

lemma TOKEN_PREFIX_length: "length TOKEN_PREFIX = 4"
  by (simp add: TOKEN_PREFIX_def)

lemma generated_token_valid:
  assumes "length random_bytes = 32"
  shows "matches_token (generate_capability_token random_bytes)"
  using assms base64url_alphabet [of random_bytes]
  by (simp add: matches_token_def generate_capability_token_def length_base64url
      TOKEN_PREFIX_length)

lemma dummy_token_valid: "matches_token DUMMY_TOKEN"
  by (simp add: matches_token_def DUMMY_TOKEN_def TOKEN_PREFIX_length list_all_iff unit_class_defs)

end
