(* ===== verification/Thread_Router.thy ===== *)
theory Thread_Router
  imports Model_Registry Capability_Token
begin

text \<open>
  The thread router (\<open>packages/core/src/routing/thread-router.ts\<close>): it decides whether a
  thread belongs to the native provider or to a Web route, rewrites the requests of Web
  threads, and keeps the decision pinned until the thread is forgotten. One definition per
  method and helper, in the order of the source; an operation that can throw after it has
  changed the state returns the outcome next to the state.
\<close>

section \<open>State\<close>

definition WEB_MODEL_PROVIDER_ID :: jstr where
  "WEB_MODEL_PROVIDER_ID = js ''gptsessionbridge_web''"

datatype direction = Client_To_Server | Server_To_Client
datatype lifecycle_method = Thread_Fork | Thread_Resume | Thread_Start
datatype route_kind = Native | Web

record pinned_route =
  pr_catalog_revision :: "jstr option"
  pr_kind :: route_kind
  pr_model :: "jstr option"
  pr_model_provider :: "jstr option"
  pr_provider_model :: "jstr option"
  pr_effort :: "jstr option"

record pending_decision =
  pd_expected_fork_source :: "jstr option"
  pd_expected_resume :: "jstr option"
  pd_quarantined :: "jstr option"
  pd_requires_new_thread :: bool
  pd_requires_fork_source :: bool
  pd_reserves_slot :: bool
  pd_route :: pinned_route

record provider_configuration =
  pc_base_url :: jstr
  pc_token :: jstr
  pc_max_pending :: nat
  pc_max_threads :: nat

record thread_router =
  tr_config :: provider_configuration
  tr_blocked :: "jstr list"
  tr_models :: model_registry
  tr_pending :: "(jstr, pending_decision) jsmap"
  tr_provisional :: "(jstr, nat) jsmap"
  tr_threads :: "(jstr, pinned_route) jsmap"
  tr_reservations :: int
  tr_compromised :: bool

definition MAX_REQUEST_ID_LENGTH :: nat where "MAX_REQUEST_ID_LENGTH = 256"
definition MAX_ROUTING_IDENTIFIER_LENGTH :: nat where "MAX_ROUTING_IDENTIFIER_LENGTH = 1024"
definition MAX_PRIVATE_MATERIAL_SCAN_NODES :: nat where "MAX_PRIVATE_MATERIAL_SCAN_NODES = 16384"

abbreviation "PROVIDER_CONFIG_PREFIX \<equiv> ''model_providers.gptsessionbridge_web''"
abbreviation "MODEL_REASONING_EFFORT_CONFIG \<equiv> ''model_reasoning_effort''"
abbreviation "RESPECT_SYSTEM_PROXY_CONFIG \<equiv> ''features.respect_system_proxy''"

section \<open>Reading request parameters\<close>

definition read_optional_string :: "jval \<Rightarrow> jstr option" where
  "read_optional_string v =
     (case v of
        JStr s \<Rightarrow> if 0 < length s \<and> length s \<le> MAX_ROUTING_IDENTIFIER_LENGTH then Some s else None
      | _ \<Rightarrow> None)"

definition read_optional_routing_string :: "jval \<Rightarrow> (routing_error, jstr option) result" where
  "read_optional_routing_string v =
     (if is_nullish v then return None
      else case read_optional_string v of None \<Rightarrow> throw Invalid_Params | Some s \<Rightarrow> return (Some s))"

text \<open>A \<open>string | null\<close> as a value, for \<open>===\<close> against an unchecked one.\<close>

definition nullable :: "jstr option \<Rightarrow> jval" where
  "nullable s = (case s of None \<Rightarrow> JNull | Some s \<Rightarrow> JStr s)"

definition is_request_id :: "jval \<Rightarrow> bool" where
  "is_request_id v = (case v of JStr _ \<Rightarrow> True | JNum n \<Rightarrow> is_safe_integer n | _ \<Rightarrow> False)"

fun direction_text :: "direction \<Rightarrow> jstr" where
  "direction_text Client_To_Server = js ''client-to-server''"
| "direction_text Server_To_Client = js ''server-to-client''"

definition serialize_directional_request_id ::
    "direction \<Rightarrow> jval \<Rightarrow> (routing_error, jstr) result" where
  "serialize_directional_request_id d v =
     (if \<not> is_request_id v then throw Invalid_Params
      else case v of
          JStr s \<Rightarrow>
            if MAX_REQUEST_ID_LENGTH < length s then throw Invalid_Params
            else return (direction_text d @ js '':string:'' @ nat_text (length s) @ js '':'' @ s)
        | JNum (NInt i) \<Rightarrow> return (direction_text d @ js '':number:'' @ int_text i)
        | _ \<Rightarrow> return (direction_text d @ js '':number:'' @ int_text 0))"

text \<open>
  \<open>cloneDataRecord\<close>: a deep copy that refuses whatever is not JSON data. Values are trees here,
  so the copy is the value itself and the cycle check never fires; what remains is the refusal.
\<close>

lemma size_record_value [termination_simp]:
  "(k, v) \<in> set r \<Longrightarrow> size v < Suc (size_list (size_prod (\<lambda>_. 0) size) r)"
  by (induction r) auto

fun clone_data_value :: "jval \<Rightarrow> (routing_error, jval) result" where
  "clone_data_value JNull = return JNull"
| "clone_data_value (JStr s) = return (JStr s)"
| "clone_data_value (JBool b) = return (JBool b)"
| "clone_data_value (JNum n) = (if is_finite_number n then return (JNum n) else throw Invalid_Params)"
| "clone_data_value (JArr vs) = and_then (map_result clone_data_value vs) (\<lambda>vs'. return (JArr vs'))"
| "clone_data_value (JObj r) =
     and_then (map_result (\<lambda>(k, v). and_then (clone_data_value v) (\<lambda>v'. return (k, v'))) r)
       (\<lambda>r'. return (JObj r'))"
| "clone_data_value JUndef = throw Invalid_Params"
| "clone_data_value JExotic = throw Invalid_Params"

definition clone_data_record :: "data_record \<Rightarrow> (routing_error, data_record) result" where
  "clone_data_record r =
     (case clone_data_value (JObj r) of Inl e \<Rightarrow> Inl e | Inr (JObj r') \<Rightarrow> Inr r' | Inr _ \<Rightarrow> Inl Invalid_Params)"

definition config_of :: "data_record option \<Rightarrow> data_record option" where
  "config_of params = read_data_record (opt_field params ''config'')"

definition reserved_provider_key :: "jstr \<Rightarrow> bool" where
  "reserved_provider_key k \<longleftrightarrow>
     k = js PROVIDER_CONFIG_PREFIX \<or> prefix (js ''model_providers.gptsessionbridge_web.'') k"

definition has_nested_reserved_provider :: "data_record \<Rightarrow> bool" where
  "has_nested_reserved_provider config =
     (case read_data_record (field config ''model_providers'') of
        None \<Rightarrow> False
      | Some nested \<Rightarrow> map_of nested WEB_MODEL_PROVIDER_ID \<noteq> None)"

definition assert_no_reserved_provider_definitions ::
    "data_record option \<Rightarrow> (routing_error, unit) result" where
  "assert_no_reserved_provider_definitions params =
     (case config_of params of
        None \<Rightarrow> return ()
      | Some config \<Rightarrow>
          reject_if (list_ex (\<lambda>(k, _). reserved_provider_key k) config
                     \<or> has_nested_reserved_provider config) Invalid_Params)"

definition ambiguous_web_config_key :: "jstr \<Rightarrow> bool" where
  "ambiguous_web_config_key k \<longleftrightarrow>
     k = js ''features'' \<or> k = js ''model_providers'' \<or> prefix (js ''model_providers.'') k"

definition assert_no_ambiguous_web_config_tables ::
    "data_record option \<Rightarrow> (routing_error, unit) result" where
  "assert_no_ambiguous_web_config_tables params =
     (case config_of params of
        None \<Rightarrow> return ()
      | Some config \<Rightarrow> reject_if (list_ex (\<lambda>(k, _). ambiguous_web_config_key k) config) Invalid_Params)"

text \<open>\<open>direct ?? configured\<close>, refused when both are given and differ.\<close>

definition agree :: "jstr option \<Rightarrow> jstr option \<Rightarrow> (routing_error, jstr option) result" where
  "agree direct configured =
     (if direct \<noteq> None \<and> configured \<noteq> None \<and> direct \<noteq> configured then throw Invalid_Params
      else return (if direct = None then configured else direct))"

definition read_selected_provider :: "data_record option \<Rightarrow> (routing_error, jstr option) result" where
  "read_selected_provider params =
     agree (read_optional_string (opt_field params ''modelProvider''))
       (read_optional_string (opt_field (config_of params) ''model_provider''))"

definition read_lifecycle_model :: "data_record option \<Rightarrow> (routing_error, jstr option) result" where
  "read_lifecycle_model params =
     and_then (read_optional_routing_string (opt_field params ''model'')) (\<lambda>direct.
     and_then (read_optional_routing_string (opt_field (config_of params) ''model'')) (\<lambda>configured.
     agree direct configured))"

definition read_lifecycle_reasoning_effort ::
    "data_record option \<Rightarrow> (routing_error, jstr option) result" where
  "read_lifecycle_reasoning_effort params =
     agree (read_optional_string (opt_field params ''effort''))
       (read_optional_string (opt_field (config_of params) MODEL_REASONING_EFFORT_CONFIG))"

definition path_given :: "jval \<Rightarrow> bool" where
  "path_given v \<longleftrightarrow> \<not> is_nullish v \<and> v \<noteq> JStr []"

definition assert_supported_web_lifecycle_identity ::
    "lifecycle_method \<Rightarrow> data_record option \<Rightarrow> (routing_error, unit) result" where
  "assert_supported_web_lifecycle_identity m params =
     (case params of
        None \<Rightarrow> return ()
      | Some r \<Rightarrow>
          and_then (reject_if (m = Thread_Resume \<and> \<not> is_nullish (field r ''history'')) Invalid_Params)
            (\<lambda>_. reject_if ((m = Thread_Resume \<or> m = Thread_Fork) \<and> path_given (field r ''path''))
                   Invalid_Params))"

definition lifecycle_identity_overrides_thread_id ::
    "lifecycle_method \<Rightarrow> data_record option \<Rightarrow> bool" where
  "lifecycle_identity_overrides_thread_id m params \<longleftrightarrow>
     (m = Thread_Resume \<and> \<not> is_nullish (opt_field params ''history''))
     \<or> ((m = Thread_Resume \<or> m = Thread_Fork)
        \<and> (case opt_field params ''path'' of JStr p \<Rightarrow> 0 < length p | _ \<Rightarrow> False))"

record collaboration_selection =
  cs_effort :: "jstr option"
  cs_model :: "jstr option"
  cs_model_value :: jval
  cs_present :: bool

definition read_collaboration_selection ::
    "data_record option \<Rightarrow> (routing_error, collaboration_selection) result" where
  "read_collaboration_selection params =
     (let v = opt_field params ''collaborationMode'' in
      if is_nullish v
      then return \<lparr>cs_effort = None, cs_model = None, cs_model_value = JUndef, cs_present = False\<rparr>
      else case read_data_record v of
          None \<Rightarrow> throw Invalid_Params
        | Some collaboration \<Rightarrow>
            (case read_data_record (field collaboration ''settings'') of
               None \<Rightarrow> throw Invalid_Params
             | Some settings \<Rightarrow>
                 and_then (read_optional_routing_string (field settings ''reasoning_effort'')) (\<lambda>effort.
                 and_then (read_optional_routing_string (field settings ''model'')) (\<lambda>model.
                 return \<lparr>cs_effort = effort, cs_model = model,
                         cs_model_value = field settings ''model'', cs_present = True\<rparr>))))"

definition read_optional_catalog_revision ::
    "jstr option \<Rightarrow> (routing_error, jstr option) result" where
  "read_optional_catalog_revision v = (if v = Some [] then throw Invalid_Params else return v)"

section \<open>Deciding a route\<close>

definition create_web_route ::
    "route_definition \<Rightarrow> jstr option \<Rightarrow> (routing_error, pinned_route) result" where
  "create_web_route selected selected_effort =
     (let effort = (case selected_effort of None \<Rightarrow> rd_default_effort selected | Some e \<Rightarrow> e) in
      if effort \<notin> set (rd_supported_efforts selected) then throw Invalid_Params
      else return
        \<lparr>pr_catalog_revision = Some (rd_catalog_revision selected), pr_kind = Web,
         pr_model = Some (rd_public_model selected), pr_model_provider = Some WEB_MODEL_PROVIDER_ID,
         pr_provider_model = Some (rd_provider_model selected), pr_effort = Some effort\<rparr>)"

definition create_native_route ::
    "jstr option \<Rightarrow> jstr option \<Rightarrow> jstr option \<Rightarrow> lifecycle_method \<Rightarrow> pinned_route option
     \<Rightarrow> pinned_route" where
  "create_native_route model effort revision m source =
     (case source of
        Some r \<Rightarrow>
          if m \<noteq> Thread_Start \<and> pr_kind r = Native then r
          else \<lparr>pr_catalog_revision = revision, pr_kind = Native, pr_model = model,
                pr_model_provider = None, pr_provider_model = model, pr_effort = effort\<rparr>
      | None \<Rightarrow>
          \<lparr>pr_catalog_revision = revision, pr_kind = Native, pr_model = model,
           pr_model_provider = None, pr_provider_model = model, pr_effort = effort\<rparr>)"

definition virtual_matches_pinned :: "route_definition \<Rightarrow> pinned_route \<Rightarrow> bool" where
  "virtual_matches_pinned selected pinned \<longleftrightarrow>
     pr_kind pinned = Web \<and> Some (rd_public_model selected) = pr_model pinned
     \<and> Some (rd_provider_model selected) = pr_provider_model pinned
     \<and> Some (rd_catalog_revision selected) = pr_catalog_revision pinned"

definition routes_equal :: "pinned_route \<Rightarrow> pinned_route \<Rightarrow> bool" where
  "routes_equal l r \<longleftrightarrow>
     pr_catalog_revision l = pr_catalog_revision r \<and> pr_kind l = pr_kind r
     \<and> pr_model l = pr_model r \<and> pr_model_provider l = pr_model_provider r
     \<and> pr_provider_model l = pr_provider_model r \<and> pr_effort l = pr_effort r"

definition assert_available_web_reference ::
    "jval \<Rightarrow> route_definition option \<Rightarrow> jstr option \<Rightarrow> (routing_error, unit) result" where
  "assert_available_web_reference model_value selected permitted =
     reject_if (selected = None \<and> model_value \<noteq> nullable permitted
                \<and> is_reserved_web_model_reference model_value) Web_Model_Unavailable"

definition assert_pinned_model_selection ::
    "jstr option \<Rightarrow> route_definition option \<Rightarrow> pinned_route \<Rightarrow> (routing_error, unit) result" where
  "assert_pinned_model_selection model virtual pinned =
     (if model = None \<or> model = pr_provider_model pinned then return ()
      else case virtual of
          None \<Rightarrow> throw Provider_Switch
        | Some v \<Rightarrow> reject_if (\<not> virtual_matches_pinned v pinned) Pinned_Selection_Mismatch)"

text \<open>\<open>model === null ? undefined : this.#models.get(model)\<close>\<close>

definition find_selected ::
    "(jstr \<Rightarrow> (routing_error, route_definition option) result) \<Rightarrow> jstr option
     \<Rightarrow> (routing_error, route_definition option) result" where
  "find_selected look model = (case model of None \<Rightarrow> return None | Some k \<Rightarrow> look k)"

definition permitted_provider_model :: "pinned_route option \<Rightarrow> jstr option" where
  "permitted_provider_model r =
     (case r of Some p \<Rightarrow> if pr_kind p = Web then pr_provider_model p else None | None \<Rightarrow> None)"

definition foreign_provider :: "jstr option \<Rightarrow> bool" where
  "foreign_provider p \<longleftrightarrow> p \<noteq> None \<and> p \<noteq> Some WEB_MODEL_PROVIDER_ID"

definition decide_lifecycle_route ::
    "(jstr \<Rightarrow> (routing_error, route_definition option) result) \<Rightarrow> lifecycle_method
     \<Rightarrow> data_record option \<Rightarrow> pinned_route option \<Rightarrow> jstr option
     \<Rightarrow> (routing_error, pinned_route) result" where
  "decide_lifecycle_route look m params source revision =
     and_then (read_lifecycle_model params) (\<lambda>model.
     and_then (read_selected_provider params) (\<lambda>provider.
     and_then (read_lifecycle_reasoning_effort params) (\<lambda>effort.
     and_then (find_selected look model) (\<lambda>virtual.
     and_then (assert_available_web_reference (nullable model) virtual
                 (permitted_provider_model source)) (\<lambda>_.
     case source of
       Some pinned \<Rightarrow>
         if pr_kind pinned = Web then
           and_then (reject_if (foreign_provider provider) Provider_Switch) (\<lambda>_.
           and_then (assert_pinned_model_selection model virtual pinned) (\<lambda>_.
           and_then (reject_if (effort \<noteq> None \<and> effort \<noteq> pr_effort pinned)
                       Pinned_Selection_Mismatch) (\<lambda>_. return pinned)))
         else
           and_then (reject_if (virtual \<noteq> None \<or> provider = Some WEB_MODEL_PROVIDER_ID)
                       Provider_Switch) (\<lambda>_.
           and_then (read_optional_catalog_revision revision) (\<lambda>rev.
           return (create_native_route model effort rev m source)))
     | None \<Rightarrow>
         (case virtual of
            Some selected \<Rightarrow>
              and_then (reject_if (foreign_provider provider) Provider_Switch) (\<lambda>_.
              and_then (reject_if (m \<noteq> Thread_Start) Thread_Route_Unknown) (\<lambda>_.
              create_web_route selected effort))
          | None \<Rightarrow>
              and_then (reject_if (provider = Some WEB_MODEL_PROVIDER_ID) Invalid_Params) (\<lambda>_.
              and_then (read_optional_catalog_revision revision) (\<lambda>rev.
              return (create_native_route model effort rev m source)))))))))"

text \<open>The reserved entries of a configuration table are dropped before ours are written.\<close>

definition remove_reserved_provider_configuration ::
    "data_record \<Rightarrow> (routing_error, data_record) result" where
  "remove_reserved_provider_configuration config =
     (let kept = filter (\<lambda>(k, _). \<not> reserved_provider_key k) config in
      case read_data_record (field kept ''model_providers'') of
        None \<Rightarrow> return kept
      | Some nested \<Rightarrow>
          if map_of nested WEB_MODEL_PROVIDER_ID \<noteq> None then
            and_then (clone_data_record nested) (\<lambda>sanitized.
            return (set_field ''model_providers''
                     (JObj (delete_field WEB_MODEL_PROVIDER_ID sanitized)) kept))
          else return kept)"

definition set_effort :: "string \<Rightarrow> jstr option \<Rightarrow> data_record \<Rightarrow> data_record" where
  "set_effort k e r = (case e of None \<Rightarrow> r | Some s \<Rightarrow> set_field k (JStr s) r)"

definition write_provider_config ::
    "provider_configuration \<Rightarrow> jstr \<Rightarrow> jstr option \<Rightarrow> data_record \<Rightarrow> data_record" where
  "write_provider_config pc provider_model effort config =
     set_effort MODEL_REASONING_EFFORT_CONFIG effort
     (set_field ''model_providers.gptsessionbridge_web.stream_max_retries'' (JNum (NInt 0))
     (set_field ''model_providers.gptsessionbridge_web.request_max_retries'' (JNum (NInt 0))
     (set_field ''model_providers.gptsessionbridge_web.requires_openai_auth'' (JBool False)
     (set_field ''model_providers.gptsessionbridge_web.wire_api'' (JStr (js ''responses''))
     (set_field ''model_providers.gptsessionbridge_web.experimental_bearer_token'' (JStr (pc_token pc))
     (set_field ''model_providers.gptsessionbridge_web.base_url'' (JStr (pc_base_url pc))
     (set_field ''model_providers.gptsessionbridge_web.name'' (JStr (js ''GPTSessionBridge Web''))
     (set_field RESPECT_SYSTEM_PROXY_CONFIG (JBool False)
     (set_field ''model_provider'' (JStr WEB_MODEL_PROVIDER_ID)
     (set_field ''model'' (JStr provider_model) config))))))))))"

definition inject_web_route ::
    "provider_configuration \<Rightarrow> data_record option \<Rightarrow> pinned_route
     \<Rightarrow> (routing_error, data_record) result" where
  "inject_web_route pc params route =
     (case (params, pr_provider_model route) of
        (Some r, Some provider_model) \<Rightarrow>
          and_then (clone_data_record r) (\<lambda>cloned.
          let original = field cloned ''config'' in
          and_then
            (if is_nullish original then return []
             else case read_data_record original of
                 None \<Rightarrow> throw Invalid_Params
               | Some c \<Rightarrow> clone_data_record c) (\<lambda>config0.
          and_then (remove_reserved_provider_configuration config0) (\<lambda>config.
          return
            (set_field ''allowProviderModelFallback'' (JBool False)
            (set_field ''modelProvider'' (JStr WEB_MODEL_PROVIDER_ID)
            (set_field ''model'' (JStr provider_model)
            (set_field ''config''
              (JObj (write_provider_config pc provider_model (pr_effort route) config))
              cloned)))))))
      | _ \<Rightarrow> throw Invalid_Params)"

section \<open>Blocking and quarantine\<close>

definition assert_routing_integrity :: "thread_router \<Rightarrow> (routing_error, unit) result" where
  "assert_routing_integrity s = reject_if (tr_compromised s) Thread_Route_Blocked"

definition assert_thread_available ::
    "thread_router \<Rightarrow> jstr option \<Rightarrow> (routing_error, unit) result" where
  "assert_thread_available s thread =
     (case thread of
        None \<Rightarrow> return ()
      | Some t \<Rightarrow>
          and_then (reject_if (t \<in> set (tr_blocked s)) Thread_Route_Blocked) (\<lambda>_.
          reject_if (map_of (tr_provisional s) t \<noteq> None) Thread_Route_Pending))"

definition block_thread :: "jstr option \<Rightarrow> thread_router \<Rightarrow> thread_router" where
  "block_thread thread s =
     (case thread of
        None \<Rightarrow> s
      | Some t \<Rightarrow>
          if t \<in> set (tr_blocked s) then s
          else if pc_max_threads (tr_config s) \<le> length (tr_blocked s)
          then s\<lparr>tr_compromised := True\<rparr>
          else s\<lparr>tr_blocked := set_add t (tr_blocked s)\<rparr>)"

definition quarantine_thread :: "jstr option \<Rightarrow> thread_router \<Rightarrow> thread_router" where
  "quarantine_thread thread s =
     (case thread of
        None \<Rightarrow> s
      | Some t \<Rightarrow>
          s\<lparr>tr_provisional :=
              AList.update t (Suc (case map_of (tr_provisional s) t of None \<Rightarrow> 0 | Some n \<Rightarrow> n))
                (tr_provisional s)\<rparr>)"

definition release_thread_quarantine :: "jstr option \<Rightarrow> thread_router \<Rightarrow> thread_router" where
  "release_thread_quarantine thread s =
     (case thread of
        None \<Rightarrow> s
      | Some t \<Rightarrow>
          (case map_of (tr_provisional s) t of
             None \<Rightarrow> s\<lparr>tr_provisional := AList.delete t (tr_provisional s)\<rparr>
           | Some n \<Rightarrow>
               if n \<le> 1 then s\<lparr>tr_provisional := AList.delete t (tr_provisional s)\<rparr>
               else s\<lparr>tr_provisional := AList.update t (n - 1) (tr_provisional s)\<rparr>))"

definition release_pending :: "jstr \<Rightarrow> pending_decision \<Rightarrow> thread_router \<Rightarrow> thread_router" where
  "release_pending key p s =
     (let s1 = s\<lparr>tr_pending := AList.delete key (tr_pending s)\<rparr>;
          s2 = release_thread_quarantine (pd_quarantined p) s1
      in if pd_reserves_slot p then s2\<lparr>tr_reservations := tr_reservations s2 - 1\<rparr> else s2)"

section \<open>Operations\<close>

record lifecycle_request =
  lr_catalog_revision :: "jstr option"
  lr_direction :: direction
  lr_id :: jval
  lr_method :: lifecycle_method
  lr_params :: jval

record prepared_lifecycle =
  pl_params :: jval
  pl_request_key :: jstr
  pl_route :: route_kind

definition reserves_thread_slot ::
    "lifecycle_method \<Rightarrow> jstr option \<Rightarrow> pinned_route option \<Rightarrow> bool" where
  "reserves_thread_slot m effective_source effective_route \<longleftrightarrow>
     m = Thread_Start \<or> m = Thread_Fork \<or> effective_source = None \<or> effective_route = None"

definition commit_pending :: "jstr \<Rightarrow> pending_decision \<Rightarrow> thread_router \<Rightarrow> thread_router" where
  "commit_pending key p s =
     (let s1 = s\<lparr>tr_pending := AList.update key p (tr_pending s)\<rparr>;
          s2 = quarantine_thread (pd_quarantined p) s1
      in if pd_reserves_slot p then s2\<lparr>tr_reservations := tr_reservations s2 + 1\<rparr> else s2)"

definition web_source :: "pinned_route option \<Rightarrow> bool" where
  "web_source r \<longleftrightarrow> (case r of None \<Rightarrow> False | Some p \<Rightarrow> pr_kind p = Web)"

definition thread_of :: "thread_router \<Rightarrow> jstr option \<Rightarrow> pinned_route option" where
  "thread_of s thread = (case thread of None \<Rightarrow> None | Some t \<Rightarrow> map_of (tr_threads s) t)"

text \<open>
  The parameters and the source thread of a request, the route the decision starts from, the
  source that stays in force once the route is decided, and the decision kept until the response.
\<close>

definition request_params :: "lifecycle_request \<Rightarrow> data_record option" where
  "request_params request = read_data_record (lr_params request)"

definition request_source :: "lifecycle_request \<Rightarrow> jstr option" where
  "request_source request = read_optional_string (opt_field (request_params request) ''threadId'')"

definition overrides_thread_id :: "lifecycle_request \<Rightarrow> bool" where
  "overrides_thread_id request =
     lifecycle_identity_overrides_thread_id (lr_method request) (request_params request)"

definition deciding_route :: "thread_router \<Rightarrow> lifecycle_request \<Rightarrow> pinned_route option" where
  "deciding_route s request =
     (let source_route = thread_of s (request_source request) in
      if overrides_thread_id request \<and> \<not> web_source source_route then None else source_route)"

definition effective_source :: "lifecycle_request \<Rightarrow> route_kind \<Rightarrow> jstr option" where
  "effective_source request k =
     (if overrides_thread_id request \<and> k = Native then None else request_source request)"

definition pending_of :: "thread_router \<Rightarrow> lifecycle_request \<Rightarrow> pinned_route \<Rightarrow> pending_decision" where
  "pending_of s request decision =
     (let m = lr_method request; source = effective_source request (pr_kind decision);
          route = (if source = None then None else thread_of s (request_source request)) in
      \<lparr>pd_expected_fork_source = (if m = Thread_Fork then source else None),
       pd_expected_resume = (if m = Thread_Resume then source else None),
       pd_quarantined = (if m = Thread_Resume \<or> m = Thread_Fork then source else None),
       pd_requires_new_thread = (m = Thread_Start \<or> m = Thread_Fork),
       pd_requires_fork_source = (m = Thread_Fork),
       pd_reserves_slot = reserves_thread_slot m source route,
       pd_route = decision\<rparr>)"

definition assert_source_available ::
    "thread_router \<Rightarrow> lifecycle_request \<Rightarrow> (routing_error, unit) result" where
  "assert_source_available s request =
     (if \<not> overrides_thread_id request \<or> web_source (thread_of s (request_source request))
      then assert_thread_available s (request_source request) else return ())"

definition assert_web_request ::
    "lifecycle_request \<Rightarrow> pinned_route \<Rightarrow> (routing_error, unit) result" where
  "assert_web_request request decision =
     (if pr_kind decision = Web
      then and_then (assert_supported_web_lifecycle_identity (lr_method request) (request_params request))
             (\<lambda>_. assert_no_ambiguous_web_config_tables (request_params request))
      else return ())"

definition prepare_params ::
    "thread_router \<Rightarrow> lifecycle_request \<Rightarrow> pinned_route \<Rightarrow> (routing_error, jval) result" where
  "prepare_params s request decision =
     (if pr_kind decision = Web
      then and_then (inject_web_route (tr_config s) (request_params request) decision)
             (\<lambda>r. return (JObj r))
      else return (lr_params request))"

text \<open>
  \<open>prepareThreadLifecycle\<close>. Every throw precedes the first change of state, so a thrown error
  leaves the router as it was; the new state comes with the prepared request.
\<close>

definition prepare_thread_lifecycle ::
    "thread_router \<Rightarrow> lifecycle_request
     \<Rightarrow> (routing_error, prepared_lifecycle \<times> thread_router) result" where
  "prepare_thread_lifecycle s request =
     and_then (assert_routing_integrity s) (\<lambda>_.
     and_then (serialize_directional_request_id (lr_direction request) (lr_id request)) (\<lambda>key.
     and_then (reject_if (map_of (tr_pending s) key \<noteq> None) Request_Id_Conflict) (\<lambda>_.
     and_then (reject_if (pc_max_pending (tr_config s) \<le> length (tr_pending s)) Pending_Capacity) (\<lambda>_.
     and_then (assert_no_reserved_provider_definitions (request_params request)) (\<lambda>_.
     and_then (reject_if (lr_method request \<noteq> Thread_Start \<and> request_source request = None)
                 Invalid_Params) (\<lambda>_.
     and_then (assert_source_available s request) (\<lambda>_.
     and_then (decide_lifecycle_route (registry_get (tr_models s)) (lr_method request)
                 (request_params request) (deciding_route s request)
                 (lr_catalog_revision request)) (\<lambda>decision.
     and_then (assert_web_request request decision) (\<lambda>_.
     and_then (reject_if (pd_reserves_slot (pending_of s request decision) \<and>
                 int (pc_max_threads (tr_config s)) \<le> int (length (tr_threads s)) + tr_reservations s)
                 Thread_Capacity) (\<lambda>_.
     and_then (prepare_params s request decision) (\<lambda>params.
     return (\<lparr>pl_params = params, pl_request_key = key, pl_route = pr_kind decision\<rparr>,
             commit_pending key (pending_of s request decision) s))))))))))))"

datatype settlement =
    Settled_Unknown
  | Settled_Failed route_kind
  | Settled_Invalid_Result route_kind
  | Settled_Committed pinned_route

definition response_thread :: "data_record \<Rightarrow> data_record option" where
  "response_thread response =
     read_data_record (opt_field (read_data_record (field response ''result'')) ''thread'')"

definition read_response_thread_id :: "data_record \<Rightarrow> pinned_route \<Rightarrow> jstr option" where
  "read_response_thread_id response route =
     (let result = read_data_record (field response ''result'');
          thread = response_thread response in
      case read_optional_string (opt_field thread ''id'') of
        None \<Rightarrow> None
      | Some thread_id \<Rightarrow>
          if pr_kind route = Web then
            (if opt_field result ''model'' \<noteq> nullable (pr_provider_model route)
                \<or> opt_field result ''modelProvider'' \<noteq> JStr WEB_MODEL_PROVIDER_ID
                \<or> opt_field result ''reasoningEffort'' \<noteq> nullable (pr_effort route)
                \<or> opt_field thread ''modelProvider'' \<noteq> JStr WEB_MODEL_PROVIDER_ID
             then None else Some thread_id)
          else
            (case (read_optional_string (opt_field result ''model''),
                   read_optional_string (opt_field result ''modelProvider''),
                   read_optional_string (opt_field thread ''modelProvider'')) of
               (Some model, Some provider, Some thread_provider) \<Rightarrow>
                 if provider \<noteq> thread_provider \<or> provider = WEB_MODEL_PROVIDER_ID
                    \<or> is_reserved_web_model_reference (JStr model)
                 then None else Some thread_id
             | _ \<Rightarrow> None))"

definition read_unverified_response_thread_id :: "data_record \<Rightarrow> jstr option" where
  "read_unverified_response_thread_id response =
     read_optional_string (opt_field (response_thread response) ''id'')"

definition read_unverified_response_fork_source :: "data_record \<Rightarrow> jstr option" where
  "read_unverified_response_fork_source response =
     read_optional_string (opt_field (response_thread response) ''forkedFromId'')"

text \<open>What \<open>settleThreadLifecycle\<close> does once the response has named a valid thread.\<close>

definition commit_route ::
    "thread_router \<Rightarrow> pending_decision \<Rightarrow> jstr \<Rightarrow> jstr option
     \<Rightarrow> (routing_error, settlement) result \<times> thread_router" where
  "commit_route s p thread fork_source =
     (case and_then (assert_thread_available s (Some thread))
             (\<lambda>_. if pd_requires_fork_source p then assert_thread_available s fork_source
                  else return ()) of
        Inl e \<Rightarrow> (throw e, s)
      | Inr _ \<Rightarrow>
          let existing = map_of (tr_threads s) thread;
              fork_route =
                (if pd_requires_fork_source p
                 then (case fork_source of None \<Rightarrow> None | Some t \<Rightarrow> map_of (tr_threads s) t)
                 else None);
              native = (pr_kind (pd_route p) = Native) in
          if native \<and> web_source fork_route
          then (return (Settled_Invalid_Result (pr_kind (pd_route p))), block_thread (Some thread) s)
          else
            let committed =
                  (case existing of
                     Some e \<Rightarrow> if native \<and> pr_kind e = Native then e
                               else (case fork_route of
                                       Some f \<Rightarrow> if native \<and> pr_kind f = Native then f else pd_route p
                                     | None \<Rightarrow> pd_route p)
                   | None \<Rightarrow> (case fork_route of
                                Some f \<Rightarrow> if native \<and> pr_kind f = Native then f else pd_route p
                              | None \<Rightarrow> pd_route p)) in
            if (case existing of Some e \<Rightarrow> \<not> routes_equal e committed | None \<Rightarrow> False)
            then (throw Route_Conflict, block_thread (Some thread) s)
            else if existing = None \<and> pc_max_threads (tr_config s) \<le> length (tr_threads s)
            then (throw Thread_Capacity, block_thread (Some thread) s)
            else (return (Settled_Committed committed),
                  s\<lparr>tr_threads := AList.update thread committed (tr_threads s)\<rparr>))"

definition invalid_fork_relation :: "pending_decision \<Rightarrow> jstr option \<Rightarrow> jstr option \<Rightarrow> bool" where
  "invalid_fork_relation p fork_source thread \<longleftrightarrow>
     pd_requires_fork_source p
     \<and> (fork_source = None \<or> fork_source = thread
        \<or> (pd_expected_fork_source p \<noteq> None \<and> fork_source \<noteq> pd_expected_fork_source p))"

definition settle_released ::
    "thread_router \<Rightarrow> pending_decision \<Rightarrow> data_record
     \<Rightarrow> (routing_error, settlement) result \<times> thread_router" where
  "settle_released s p response =
     (if map_of response (js ''error'') \<noteq> None
      then (return (Settled_Failed (pr_kind (pd_route p))), s)
      else
        let unverified = read_unverified_response_thread_id response;
            thread = read_response_thread_id response (pd_route p);
            fork_source = read_unverified_response_fork_source response in
        case thread of
          None \<Rightarrow> (return (Settled_Invalid_Result (pr_kind (pd_route p))), block_thread unverified s)
        | Some t \<Rightarrow>
            if (pd_expected_resume p \<noteq> None \<and> thread \<noteq> pd_expected_resume p)
               \<or> invalid_fork_relation p fork_source thread
               \<or> (pd_requires_new_thread p \<and> map_of (tr_threads s) t \<noteq> None)
            then (return (Settled_Invalid_Result (pr_kind (pd_route p))), block_thread unverified s)
            else commit_route s p t fork_source)"

definition settle_thread_lifecycle ::
    "thread_router \<Rightarrow> direction \<Rightarrow> jval
     \<Rightarrow> (routing_error, settlement) result \<times> thread_router" where
  "settle_thread_lifecycle s d response_value =
     (case read_data_record response_value of
        None \<Rightarrow> (return Settled_Unknown, s)
      | Some response \<Rightarrow>
          let id = field response ''id'' in
          if \<not> is_request_id id then (return Settled_Unknown, s)
          else case serialize_directional_request_id d id of
              Inl e \<Rightarrow> (throw e, s)
            | Inr key \<Rightarrow>
                (case map_of (tr_pending s) key of
                   None \<Rightarrow> (return Settled_Unknown, s)
                 | Some p \<Rightarrow> settle_released (release_pending key p s) p response))"

text \<open>
  \<open>pinCollaborationSelection\<close> writes into the nested settings of the cloned parameters.
\<close>

definition pin_collaboration_selection ::
    "data_record \<Rightarrow> pinned_route \<Rightarrow> (routing_error, data_record) result" where
  "pin_collaboration_selection params route =
     (case (read_data_record (field params ''collaborationMode''), pr_provider_model route) of
        (Some collaboration, Some provider_model) \<Rightarrow>
          (case read_data_record (field collaboration ''settings'') of
             None \<Rightarrow> throw Invalid_Params
           | Some settings \<Rightarrow>
               return (set_field ''collaborationMode''
                 (JObj (set_field ''settings''
                   (JObj (set_effort ''reasoning_effort'' (pr_effort route)
                     (set_field ''model'' (JStr provider_model) settings))) collaboration)) params))
      | _ \<Rightarrow> return params)"

definition validate_thread_bound ::
    "thread_router \<Rightarrow> jval \<Rightarrow> (routing_error, jval) result" where
  "validate_thread_bound s params_value =
     and_then (assert_routing_integrity s) (\<lambda>_.
     let params = read_data_record params_value; look = registry_get (tr_models s) in
     and_then (assert_no_reserved_provider_definitions params) (\<lambda>_.
     let thread = read_optional_string (opt_field params ''threadId'') in
     and_then (assert_thread_available s thread) (\<lambda>_.
     let pinned = thread_of s thread;
         model = read_optional_string (opt_field params ''model'') in
     and_then (read_selected_provider params) (\<lambda>provider.
     and_then (find_selected look model) (\<lambda>virtual.
     and_then (assert_available_web_reference (opt_field params ''model'') virtual
                 (permitted_provider_model pinned)) (\<lambda>_.
     and_then (read_collaboration_selection params) (\<lambda>collaboration.
     and_then (find_selected look (cs_model collaboration)) (\<lambda>collaboration_virtual.
     and_then (assert_available_web_reference (cs_model_value collaboration) collaboration_virtual
                 (permitted_provider_model pinned)) (\<lambda>_.
     case pinned of
       None \<Rightarrow>
         and_then (reject_if (virtual \<noteq> None \<or> collaboration_virtual \<noteq> None)
           (if thread = None then Invalid_Params else Thread_Route_Unknown))
           (\<lambda>_. return params_value)
     | Some p \<Rightarrow>
         if pr_kind p = Native then
           and_then (reject_if (virtual \<noteq> None \<or> collaboration_virtual \<noteq> None
                                \<or> provider = Some WEB_MODEL_PROVIDER_ID) Provider_Switch)
             (\<lambda>_. return params_value)
         else
           and_then (reject_if (foreign_provider provider) Provider_Switch) (\<lambda>_.
           and_then (assert_pinned_model_selection model virtual p) (\<lambda>_.
           and_then (assert_pinned_model_selection (cs_model collaboration) collaboration_virtual p) (\<lambda>_.
           let effort = read_optional_string (opt_field params ''effort'') in
           and_then (reject_if ((effort \<noteq> None \<and> effort \<noteq> pr_effort p)
                       \<or> (cs_effort collaboration \<noteq> None \<and> cs_effort collaboration \<noteq> pr_effort p))
                       Pinned_Selection_Mismatch) (\<lambda>_.
           case (params, pr_provider_model p) of
             (Some r, Some provider_model) \<Rightarrow>
               and_then (clone_data_record r) (\<lambda>cloned.
               and_then (pin_collaboration_selection
                           (set_effort ''effort'' (pr_effort p)
                             (set_field ''model'' (JStr provider_model) cloned)) p) (\<lambda>pinned_params.
               return (JObj pinned_params)))
           | _ \<Rightarrow> throw Invalid_Params)))))))))))))"

definition validate_review_start :: "thread_router \<Rightarrow> jval \<Rightarrow> (routing_error, jval) result" where
  "validate_review_start s params_value =
     and_then (assert_routing_integrity s) (\<lambda>_.
     let thread = read_optional_string (opt_field (read_data_record params_value) ''threadId'') in
     and_then (assert_thread_available s thread) (\<lambda>_.
     and_then (reject_if (web_source (thread_of s thread)) Web_Review_Unsupported) (\<lambda>_.
     return params_value)))"

definition validate_realtime_start :: "thread_router \<Rightarrow> jval \<Rightarrow> (routing_error, jval) result" where
  "validate_realtime_start s params_value =
     and_then (assert_routing_integrity s) (\<lambda>_.
     let params = read_data_record params_value;
         thread = read_optional_string (opt_field params ''threadId'') in
     and_then (assert_thread_available s thread) (\<lambda>_.
     let model = read_optional_string (opt_field params ''model'') in
     and_then (find_selected (registry_get (tr_models s)) model) (\<lambda>virtual.
     and_then (assert_available_web_reference (opt_field params ''model'') virtual None) (\<lambda>_.
     let pinned = thread_of s thread in
     and_then (reject_if (web_source pinned) Web_Realtime_Unsupported) (\<lambda>_.
     and_then (reject_if (virtual \<noteq> None)
                 (if thread = None then Invalid_Params
                  else if pinned = None then Thread_Route_Unknown else Provider_Switch)) (\<lambda>_.
     return params_value))))))"

text \<open>\<open>record?.["threadId"] ?? record?.["id"]\<close>\<close>

definition referenced_thread :: "jval \<Rightarrow> jstr option" where
  "referenced_thread v =
     (case v of
        JStr _ \<Rightarrow> read_optional_string v
      | _ \<Rightarrow>
          let r = read_data_record v; t = opt_field r ''threadId'' in
          read_optional_string (if is_nullish t then opt_field r ''id'' else t))"

definition assert_referenced_threads_available ::
    "thread_router \<Rightarrow> data_record option \<Rightarrow> (routing_error, unit) result" where
  "assert_referenced_threads_available s params =
     (case params of
        None \<Rightarrow> return ()
      | Some r \<Rightarrow>
          and_then (each_result (\<lambda>k. assert_thread_available s (read_optional_string (field r k)))
            [''ancestorThreadId'', ''beforeThreadId'', ''conversationId'', ''parentThreadId'',
             ''threadId'']) (\<lambda>_.
          case field r ''threads'' of
            JArr vs \<Rightarrow> each_result (\<lambda>v. assert_thread_available s (referenced_thread v)) vs
          | _ \<Rightarrow> return ()))"

definition validate_thread_identity :: "thread_router \<Rightarrow> jval \<Rightarrow> (routing_error, jval) result" where
  "validate_thread_identity s params_value =
     and_then (assert_routing_integrity s) (\<lambda>_.
     and_then (assert_referenced_threads_available s (read_data_record params_value)) (\<lambda>_.
     return params_value))"

definition validate_unsupported_web_operation ::
    "thread_router \<Rightarrow> jval \<Rightarrow> (routing_error, jval) result" where
  "validate_unsupported_web_operation s params_value =
     and_then (validate_thread_identity s params_value) (\<lambda>_.
     let thread = read_optional_string (opt_field (read_data_record params_value) ''threadId'') in
     and_then (reject_if (web_source (thread_of s thread)) Web_Method_Unsupported) (\<lambda>_.
     return params_value))"

definition validate_thread_relation ::
    "thread_router \<Rightarrow> jval \<Rightarrow> jval \<Rightarrow> jval \<Rightarrow> (routing_error, bool) result" where
  "validate_thread_relation s child_value model_provider parent_value =
     and_then (assert_routing_integrity s) (\<lambda>_.
     case (read_optional_string parent_value, read_optional_string child_value) of
       (Some parent_id, Some child_id) \<Rightarrow>
         and_then (assert_thread_available s (Some parent_id)) (\<lambda>_.
         and_then (assert_thread_available s (Some child_id)) (\<lambda>_.
         case map_of (tr_threads s) parent_id of
           None \<Rightarrow> return False
         | Some parent \<Rightarrow>
             and_then (reject_if (pr_kind parent = Web \<and> model_provider \<noteq> JStr WEB_MODEL_PROVIDER_ID)
                         Provider_Switch) (\<lambda>_.
             case map_of (tr_threads s) child_id of
               Some existing \<Rightarrow>
                 and_then (reject_if (\<not> routes_equal existing parent) Route_Conflict) (\<lambda>_. return True)
             | None \<Rightarrow>
                 and_then (reject_if (pr_kind parent = Web) Web_Derived_Thread_Unsupported)
                   (\<lambda>_. return False))))
     | _ \<Rightarrow> throw Invalid_Params)"

definition get_thread_route :: "thread_router \<Rightarrow> jstr \<Rightarrow> pinned_route option" where
  "get_thread_route s thread = map_of (tr_threads s) thread"

definition leaks_secret :: "provider_configuration \<Rightarrow> jstr \<Rightarrow> bool" where
  "leaks_secret pc text \<longleftrightarrow> has_substring text (pc_token pc) \<or> has_substring text (pc_base_url pc)"

text \<open>
  \<open>containsPrivateProviderMaterial\<close>: a depth-first scan with an explicit stack (its top is the
  head here), which answers true once more than the allowed number of nodes was looked at.
\<close>

function scan_private_material :: "provider_configuration \<Rightarrow> nat \<Rightarrow> jval list \<Rightarrow> bool" where
  "scan_private_material pc inspected [] = False"
| "scan_private_material pc inspected (current # stack) =
     (if MAX_PRIVATE_MATERIAL_SCAN_NODES < Suc inspected then True
      else case current of
          JStr text \<Rightarrow>
            if leaks_secret pc text then True
            else scan_private_material pc (Suc inspected) stack
        | JArr vs \<Rightarrow> scan_private_material pc (Suc inspected) (rev vs @ stack)
        | JObj r \<Rightarrow>
            if list_ex (\<lambda>(k, _). leaks_secret pc k) r then True
            else scan_private_material pc (Suc inspected) (rev (map snd r) @ stack)
        | _ \<Rightarrow> scan_private_material pc (Suc inspected) stack)"
  by pat_completeness auto
termination
  by (relation "measure (\<lambda>(pc, inspected, stack). MAX_PRIVATE_MATERIAL_SCAN_NODES - inspected)") auto

definition contains_private_provider_material :: "thread_router \<Rightarrow> jval \<Rightarrow> bool" where
  "contains_private_provider_material s v = scan_private_material (tr_config s) 0 [v]"

definition discard_pending ::
    "thread_router \<Rightarrow> direction \<Rightarrow> jval \<Rightarrow> (routing_error, bool \<times> thread_router) result" where
  "discard_pending s d request_id =
     and_then (serialize_directional_request_id d request_id) (\<lambda>key.
     case map_of (tr_pending s) key of
       None \<Rightarrow> return (False, s)
     | Some p \<Rightarrow> return (True, release_pending key p s))"

definition clear_pending :: "thread_router \<Rightarrow> nat \<times> thread_router" where
  "clear_pending s =
     (length (tr_pending s), s\<lparr>tr_pending := [], tr_provisional := [], tr_reservations := 0\<rparr>)"

definition forget_thread :: "jstr \<Rightarrow> thread_router \<Rightarrow> bool \<times> thread_router" where
  "forget_thread thread s =
     (map_of (tr_threads s) thread \<noteq> None,
      s\<lparr>tr_threads := AList.delete thread (tr_threads s)\<rparr>)"

definition validate_server_request :: "thread_router \<Rightarrow> (routing_error, unit) result" where
  "validate_server_request s =
     and_then (assert_routing_integrity s) (\<lambda>_.
     reject_if (0 < length (tr_provisional s)) Thread_Route_Pending)"

section \<open>Construction\<close>

text \<open>The parsed URL of the WHATWG \<open>URL\<close> class, which is a parameter of the constructor.\<close>

record url =
  url_protocol :: jstr
  url_hostname :: jstr
  url_port :: jstr
  url_username :: jstr
  url_password :: jstr
  url_search :: jstr
  url_hash :: jstr
  url_pathname :: jstr
  url_text :: jstr

definition drop_final_slash :: "jstr \<Rightarrow> jstr" where
  "drop_final_slash s = (if s \<noteq> [] \<and> last s = 47 then butlast s else s)"

definition validate_loopback_base_url ::
    "(jstr \<Rightarrow> url option) \<Rightarrow> jstr \<Rightarrow> (routing_error, jstr) result" where
  "validate_loopback_base_url parse_url value =
     (case parse_url value of
        None \<Rightarrow> throw Invalid_Configuration
      | Some u \<Rightarrow>
          if url_protocol u \<noteq> js ''http:'' \<or> url_hostname u \<noteq> js ''127.0.0.1'' \<or> url_port u = []
             \<or> url_username u \<noteq> [] \<or> url_password u \<noteq> [] \<or> url_search u \<noteq> [] \<or> url_hash u \<noteq> []
             \<or> (url_pathname u \<noteq> js ''/v1'' \<and> url_pathname u \<noteq> js ''/v1/'')
          then throw Invalid_Configuration
          else return (drop_final_slash (url_text u)))"

definition read_capacity :: "jnum option \<Rightarrow> nat \<Rightarrow> (routing_error, nat) result" where
  "read_capacity value fallback =
     (case value of
        None \<Rightarrow> return fallback
      | Some (NInt n) \<Rightarrow>
          if \<not> is_safe_integer (NInt n) \<or> n < 1 then throw Invalid_Configuration else return (nat n)
      | Some _ \<Rightarrow> throw Invalid_Configuration)"

definition new_thread_router ::
    "(jstr \<Rightarrow> url option) \<Rightarrow> jstr \<Rightarrow> jval \<Rightarrow> jnum option \<Rightarrow> jnum option \<Rightarrow> model_registry
     \<Rightarrow> (routing_error, thread_router) result" where
  "new_thread_router parse_url base_url token max_pending max_threads models =
     and_then (reject_if (\<not> is_capability_token token) Invalid_Configuration) (\<lambda>_.
     and_then (validate_loopback_base_url parse_url base_url) (\<lambda>base.
     and_then (read_capacity max_pending 256) (\<lambda>pending_cap.
     and_then (read_capacity max_threads 4096) (\<lambda>thread_cap.
     return
       \<lparr>tr_config = \<lparr>pc_base_url = base,
                     pc_token = (case token of JStr t \<Rightarrow> t | _ \<Rightarrow> []),
                     pc_max_pending = pending_cap, pc_max_threads = thread_cap\<rparr>,
        tr_blocked = [], tr_models = models, tr_pending = [], tr_provisional = [],
        tr_threads = [], tr_reservations = 0, tr_compromised = False\<rparr>))))"

end
