(* ===== verification/Thread_Router_Facts.thy ===== *)
theory Thread_Router_Facts
  imports Thread_Router
begin

text \<open>
  What the thread router guarantees: the invariant of its bookkeeping and its preservation by
  every operation, the steps of a router as a relation, and the facts about prepared requests,
  settlements and the private-material scan that the properties are read from.
\<close>

section \<open>The invariant\<close>

definition sound_route :: "pinned_route \<Rightarrow> bool" where
  "sound_route r \<longleftrightarrow>
     (case pr_kind r of
        Web \<Rightarrow>
          pr_model_provider r = Some WEB_MODEL_PROVIDER_ID \<and> pr_effort r \<noteq> None
          \<and> is_canonical_web_provider_model_reference (nullable (pr_provider_model r))
          \<and> is_canonical_web_model_reference (nullable (pr_model r))
      | Native \<Rightarrow>
          pr_model_provider r = None \<and> pr_provider_model r = pr_model r
          \<and> \<not> is_reserved_web_model_reference (nullable (pr_model r)))"

abbreviation quarantines :: "jstr \<Rightarrow> jstr \<Rightarrow> pending_decision \<Rightarrow> bool" where
  "quarantines t \<equiv> \<lambda>_ p. pd_quarantined p = Some t"

definition provisional_count :: "thread_router \<Rightarrow> jstr \<Rightarrow> nat" where
  "provisional_count s t = (case map_of (tr_provisional s) t of None \<Rightarrow> 0 | Some n \<Rightarrow> n)"

definition counts_ok :: "(jstr, nat) jsmap \<Rightarrow> bool" where
  "counts_ok m \<longleftrightarrow> distinct (map fst m) \<and> (\<forall>t. map_of m t \<noteq> Some 0)"

definition router_inv :: "thread_router \<Rightarrow> bool" where
  "router_inv s \<longleftrightarrow>
     distinct (map fst (tr_pending s)) \<and> counts_ok (tr_provisional s)
     \<and> distinct (map fst (tr_threads s)) \<and> distinct (tr_blocked s)
     \<and> length (tr_pending s) \<le> pc_max_pending (tr_config s)
     \<and> length (tr_threads s) \<le> pc_max_threads (tr_config s)
     \<and> length (tr_blocked s) \<le> pc_max_threads (tr_config s)
     \<and> tr_reservations s = int (count_entries (\<lambda>_. pd_reserves_slot) (tr_pending s))
     \<and> (\<forall>t. provisional_count s t = count_entries (quarantines t) (tr_pending s))
     \<and> (\<forall>t r. map_of (tr_threads s) t = Some r \<longrightarrow> sound_route r)
     \<and> (\<forall>k p. map_of (tr_pending s) k = Some p \<longrightarrow> sound_route (pd_route p))
     \<and> well_formed_registry (tr_models s)"

lemmas router_ops =
  block_thread_def quarantine_thread_def release_thread_quarantine_def

text \<open>Blocking and quarantine touch only their own part of the state.\<close>

lemma block_thread_frame [simp]:
  "tr_config (block_thread t s) = tr_config s"
  "tr_models (block_thread t s) = tr_models s"
  "tr_pending (block_thread t s) = tr_pending s"
  "tr_provisional (block_thread t s) = tr_provisional s"
  "tr_threads (block_thread t s) = tr_threads s"
  "tr_reservations (block_thread t s) = tr_reservations s"
  by (simp_all add: block_thread_def split: option.split)

lemma quarantine_frame [simp]:
  "tr_config (quarantine_thread t s) = tr_config s"
  "tr_models (quarantine_thread t s) = tr_models s"
  "tr_pending (quarantine_thread t s) = tr_pending s"
  "tr_blocked (quarantine_thread t s) = tr_blocked s"
  "tr_threads (quarantine_thread t s) = tr_threads s"
  "tr_reservations (quarantine_thread t s) = tr_reservations s"
  "tr_compromised (quarantine_thread t s) = tr_compromised s"
  by (simp_all add: quarantine_thread_def split: option.split)

lemma release_quarantine_frame [simp]:
  "tr_config (release_thread_quarantine t s) = tr_config s"
  "tr_models (release_thread_quarantine t s) = tr_models s"
  "tr_pending (release_thread_quarantine t s) = tr_pending s"
  "tr_blocked (release_thread_quarantine t s) = tr_blocked s"
  "tr_threads (release_thread_quarantine t s) = tr_threads s"
  "tr_reservations (release_thread_quarantine t s) = tr_reservations s"
  "tr_compromised (release_thread_quarantine t s) = tr_compromised s"
  by (simp_all add: release_thread_quarantine_def split: option.split)

lemma release_pending_frame [simp]:
  "tr_config (release_pending k p s) = tr_config s"
  "tr_models (release_pending k p s) = tr_models s"
  "tr_pending (release_pending k p s) = AList.delete k (tr_pending s)"
  "tr_blocked (release_pending k p s) = tr_blocked s"
  "tr_threads (release_pending k p s) = tr_threads s"
  "tr_compromised (release_pending k p s) = tr_compromised s"
  "tr_reservations (release_pending k p s) =
     tr_reservations s - (if pd_reserves_slot p then 1 else 0)"
  by (simp_all add: release_pending_def Let_def)

lemma commit_pending_frame [simp]:
  "tr_config (commit_pending k p s) = tr_config s"
  "tr_models (commit_pending k p s) = tr_models s"
  "tr_pending (commit_pending k p s) = AList.update k p (tr_pending s)"
  "tr_blocked (commit_pending k p s) = tr_blocked s"
  "tr_threads (commit_pending k p s) = tr_threads s"
  "tr_compromised (commit_pending k p s) = tr_compromised s"
  "tr_reservations (commit_pending k p s) =
     tr_reservations s + (if pd_reserves_slot p then 1 else 0)"
  by (simp_all add: commit_pending_def Let_def)

lemma provisional_quarantine:
  "provisional_count (quarantine_thread q s) t =
     provisional_count s t + (if q = Some t then 1 else 0)"
  by (auto simp: provisional_count_def quarantine_thread_def map_of_alist_update
      split: option.splits)

lemma provisional_release:
  "provisional_count (release_thread_quarantine q s) t =
     provisional_count s t - (if q = Some t then 1 else 0)"
  by (auto simp: provisional_count_def release_thread_quarantine_def map_of_alist_update
      map_of_alist_delete split: option.splits)

lemma provisional_commit:
  "provisional_count (commit_pending k p s) t =
     provisional_count s t + (if pd_quarantined p = Some t then 1 else 0)"
proof -
  have "provisional_count (commit_pending k p s) t =
      provisional_count (quarantine_thread (pd_quarantined p) (s\<lparr>tr_pending := AList.update k p (tr_pending s)\<rparr>)) t"
    by (simp add: commit_pending_def Let_def provisional_count_def)
  also have "\<dots> = provisional_count s t + (if pd_quarantined p = Some t then 1 else 0)"
    unfolding provisional_quarantine by (simp add: provisional_count_def)
  finally show ?thesis .
qed

lemma provisional_release_pending:
  "provisional_count (release_pending k p s) t =
     provisional_count s t - (if pd_quarantined p = Some t then 1 else 0)"
proof -
  have "provisional_count (release_pending k p s) t =
      provisional_count (release_thread_quarantine (pd_quarantined p) (s\<lparr>tr_pending := AList.delete k (tr_pending s)\<rparr>)) t"
    by (simp add: release_pending_def Let_def provisional_count_def)
  also have "\<dots> = provisional_count s t - (if pd_quarantined p = Some t then 1 else 0)"
    unfolding provisional_release by (simp add: provisional_count_def)
  finally show ?thesis .
qed

text \<open>The stored counts stay positive and the keys distinct.\<close>

lemma counts_ok_quarantine:
  "counts_ok (tr_provisional s) \<Longrightarrow> counts_ok (tr_provisional (quarantine_thread q s))"
  by (auto simp: counts_ok_def quarantine_thread_def map_of_alist_update distinct_update
      split: option.splits)

lemma counts_ok_release:
  "counts_ok (tr_provisional s) \<Longrightarrow> counts_ok (tr_provisional (release_thread_quarantine q s))"
  by (auto simp: counts_ok_def release_thread_quarantine_def map_of_alist_update
      map_of_alist_delete distinct_update distinct_delete split: option.splits)

lemma counts_ok_commit:
  "counts_ok (tr_provisional s) \<Longrightarrow> counts_ok (tr_provisional (commit_pending k p s))"
  using counts_ok_quarantine [of "s\<lparr>tr_pending := AList.update k p (tr_pending s)\<rparr>"]
  by (simp add: commit_pending_def Let_def)

lemma counts_ok_release_pending:
  "counts_ok (tr_provisional s) \<Longrightarrow> counts_ok (tr_provisional (release_pending k p s))"
  using counts_ok_release [of "s\<lparr>tr_pending := AList.delete k (tr_pending s)\<rparr>"]
  by (simp add: release_pending_def Let_def)

lemma commit_pending_inv:
  assumes inv: "router_inv s" and fresh: "map_of (tr_pending s) k = None"
    and room: "length (tr_pending s) < pc_max_pending (tr_config s)"
    and sound: "sound_route (pd_route p)"
  shows "router_inv (commit_pending k p s)"
  using inv fresh room sound
  by (auto simp: router_inv_def distinct_update length_alist_update provisional_commit
      count_entries_insert map_of_alist_update counts_ok_commit)

lemma release_pending_inv:
  assumes inv: "router_inv s" and p: "map_of (tr_pending s) k = Some p"
  shows "router_inv (release_pending k p s)"
proof -
  have d: "distinct (map fst (tr_pending s))" using inv by (simp add: router_inv_def)
  have prov: "provisional_count (release_pending k p s) t =
      count_entries (quarantines t) (AList.delete k (tr_pending s))" for t
    using inv count_entries_delete [OF d p, of "quarantines t"]
    by (simp add: router_inv_def provisional_release_pending)
  have res: "tr_reservations (release_pending k p s) =
      int (count_entries (\<lambda>_. pd_reserves_slot) (AList.delete k (tr_pending s)))"
    using inv count_entries_delete [OF d p, of "\<lambda>_. pd_reserves_slot"]
    by (simp add: router_inv_def)
  have "length (AList.delete k (tr_pending s)) \<le> pc_max_pending (tr_config s)"
    using inv d jsmap.remove_within [OF d] by (simp add: router_inv_def)
  with prov res inv show ?thesis
    by (auto simp: router_inv_def distinct_delete map_of_alist_delete counts_ok_release_pending)
qed

lemma block_thread_inv: "router_inv s \<Longrightarrow> router_inv (block_thread t s)"
  by (auto simp: router_inv_def block_thread_def provisional_count_def length_set_add
      split: option.splits)

section \<open>What a prepared request is\<close>

lemma pending_of_route [simp]: "pd_route (pending_of s request d) = d"
  by (simp add: pending_of_def Let_def)

text \<open>Everything a successful \<open>prepareThreadLifecycle\<close> has checked and done.\<close>

lemma prepare_Inr:
  assumes "prepare_thread_lifecycle s request = Inr (prepared, s')"
  obtains decision where
    "\<not> tr_compromised s"
    and "serialize_directional_request_id (lr_direction request) (lr_id request)
         = Inr (pl_request_key prepared)"
    and "map_of (tr_pending s) (pl_request_key prepared) = None"
    and "length (tr_pending s) < pc_max_pending (tr_config s)"
    and "assert_no_reserved_provider_definitions (request_params request) = Inr ()"
    and "decide_lifecycle_route (registry_get (tr_models s)) (lr_method request)
           (request_params request) (deciding_route s request) (lr_catalog_revision request)
         = Inr decision"
    and "pd_reserves_slot (pending_of s request decision) \<longrightarrow>
         int (length (tr_threads s)) + tr_reservations s < int (pc_max_threads (tr_config s))"
    and "pl_route prepared = pr_kind decision"
    and "assert_source_available s request = Inr ()"
    and "assert_web_request request decision = Inr ()"
    and "prepare_params s request decision = Inr (pl_params prepared)"
    and "s' = commit_pending (pl_request_key prepared) (pending_of s request decision) s"
  using assms
  by (auto simp: prepare_thread_lifecycle_def outcome_simps not_le assert_routing_integrity_def
      intro!: that split: if_splits)

section \<open>Decisions are sound\<close>

lemma nullable_simps [simp]: "nullable None = JNull" "nullable (Some s) = JStr s"
  by (simp_all add: nullable_def)

lemma JNull_not_reserved [simp]: "\<not> is_reserved_web_model_reference JNull"
  by (simp add: is_reserved_web_model_reference_def)

lemma find_selected_well_formed:
  "find_selected (registry_get reg) model = Inr (Some d) \<Longrightarrow> well_formed_registry reg \<Longrightarrow>
   well_formed_route d \<and> model = Some (rd_public_model d)"
  by (auto simp: find_selected_def dest: registry.find_route split: option.splits)

lemma create_web_route_sound:
  assumes "create_web_route d effort = Inr r" and "well_formed_route d"
  shows "sound_route r \<and> pr_kind r = Web \<and> pr_provider_model r = Some (rd_provider_model d)
    \<and> pr_model r = Some (rd_public_model d) \<and> pr_catalog_revision r = Some (rd_catalog_revision d)
    \<and> (\<forall>e. pr_effort r = Some e \<longrightarrow> e \<in> set (rd_supported_efforts d))"
  using assms
  by (auto simp: create_web_route_def sound_route_def well_formed_route_def Let_def
      split: option.splits if_splits)

lemma create_native_route_sound:
  assumes "\<not> is_reserved_web_model_reference (nullable model)"
    and "\<And>r. source = Some r \<Longrightarrow> sound_route r"
  shows "sound_route (create_native_route model effort revision m source)"
    and "pr_kind (create_native_route model effort revision m source) = Native"
  using assms by (auto simp: create_native_route_def sound_route_def split: option.splits)

text \<open>The four ways a decision is reached, with what each has checked.\<close>

lemma decide_cases:
  assumes d: "decide_lifecycle_route look m params source revision = Inr d"
  obtains
    (pinned) r model provider effort virtual where "source = Some r" and "pr_kind r = Web" and "d = r"
      and "read_lifecycle_model params = Inr model" and "find_selected look model = Inr virtual"
      and "assert_pinned_model_selection model virtual r = Inr ()"
      and "read_selected_provider params = Inr provider" and "\<not> foreign_provider provider"
      and "read_lifecycle_reasoning_effort params = Inr effort"
      and "effort = None \<or> effort = pr_effort r"
  | (selected) v model provider effort where "source = None" and "m = Thread_Start"
      and "read_lifecycle_model params = Inr model" and "find_selected look model = Inr (Some v)"
      and "read_selected_provider params = Inr provider" and "\<not> foreign_provider provider"
      and "read_lifecycle_reasoning_effort params = Inr effort"
      and "create_web_route v effort = Inr d"
  | (native) model provider effort rev' where "\<not> web_source source"
      and "read_lifecycle_model params = Inr model" and "find_selected look model = Inr None"
      and "\<not> is_reserved_web_model_reference (nullable model)"
      and "read_selected_provider params = Inr provider" and "provider \<noteq> Some WEB_MODEL_PROVIDER_ID"
      and "read_lifecycle_reasoning_effort params = Inr effort"
      and "d = create_native_route model effort rev' m source"
proof -
  from d obtain model provider effort virtual where
    reads: "read_lifecycle_model params = Inr model" "read_selected_provider params = Inr provider"
      "read_lifecycle_reasoning_effort params = Inr effort" "find_selected look model = Inr virtual"
    and a: "assert_available_web_reference (nullable model) virtual (permitted_provider_model source) = Inr ()"
    by (auto simp: decide_lifecycle_route_def outcome_simps)
  have unreserved: "\<not> is_reserved_web_model_reference (nullable model)"
    if "virtual = None" and "\<not> web_source source"
    using that a
    by (auto simp: assert_available_web_reference_def outcome_simps permitted_provider_model_def
        web_source_def split: option.splits)
  show ?thesis
  proof (cases source)
    case None
    show ?thesis
    proof (cases virtual)
      case (Some v)
      with d reads None have
        "\<not> foreign_provider provider \<and> m = Thread_Start \<and> create_web_route v effort = Inr d"
        by (simp add: decide_lifecycle_route_def outcome_simps)
      with reads None Some show ?thesis using selected by blast
    next
      case v: None
      with d reads None unreserved show ?thesis
        by (auto simp: decide_lifecycle_route_def outcome_simps web_source_def intro!: native)
    qed
  next
    case (Some r)
    show ?thesis
    proof (cases "pr_kind r")
      case Web
      with d reads Some show ?thesis
        by (intro pinned) (auto simp: decide_lifecycle_route_def outcome_simps)
    next
      case Native
      with d reads Some unreserved show ?thesis
        by (auto simp: decide_lifecycle_route_def outcome_simps web_source_def intro!: native)
    qed
  qed
qed

lemma decide_sound:
  assumes d: "decide_lifecycle_route (registry_get reg) m params source revision = Inr d"
    and reg: "well_formed_registry reg" and source: "\<And>r. source = Some r \<Longrightarrow> sound_route r"
  shows "sound_route d"
  using d
proof (cases rule: decide_cases)
  case (pinned r)
  with source show ?thesis by simp
next
  case (selected v model provider effort)
  then show ?thesis
    using find_selected_well_formed [OF _ reg] create_web_route_sound by blast
next
  case (native model provider effort rev')
  then show ?thesis using source create_native_route_sound(1) by blast
qed

lemma deciding_route_sound:
  "router_inv s \<Longrightarrow> deciding_route s request = Some r \<Longrightarrow> sound_route r"
  by (auto simp: deciding_route_def thread_of_def router_inv_def Let_def split: if_splits option.splits)

lemma prepare_inv:
  assumes inv: "router_inv s" and ok: "prepare_thread_lifecycle s request = Inr (prepared, s')"
  shows "router_inv s'"
proof -
  from ok obtain d where
    "map_of (tr_pending s) (pl_request_key prepared) = None"
    "length (tr_pending s) < pc_max_pending (tr_config s)"
    and d: "decide_lifecycle_route (registry_get (tr_models s)) (lr_method request)
           (request_params request) (deciding_route s request) (lr_catalog_revision request) = Inr d"
    and s': "s' = commit_pending (pl_request_key prepared) (pending_of s request d) s"
    by (rule prepare_Inr)
  moreover have "sound_route d"
    using decide_sound [OF d] inv deciding_route_sound [OF inv] by (simp add: router_inv_def)
  ultimately show ?thesis using commit_pending_inv [OF inv] by simp
qed

section \<open>Settlements\<close>

definition committed_route ::
    "pending_decision \<Rightarrow> pinned_route option \<Rightarrow> pinned_route option \<Rightarrow> pinned_route" where
  "committed_route p existing fork_route =
     (case existing of
        Some e \<Rightarrow> if pr_kind (pd_route p) = Native \<and> pr_kind e = Native then e
                  else (case fork_route of
                          Some f \<Rightarrow> if pr_kind (pd_route p) = Native \<and> pr_kind f = Native then f
                                    else pd_route p
                        | None \<Rightarrow> pd_route p)
      | None \<Rightarrow> (case fork_route of
                   Some f \<Rightarrow> if pr_kind (pd_route p) = Native \<and> pr_kind f = Native then f
                             else pd_route p
                 | None \<Rightarrow> pd_route p))"

definition fork_route_of :: "thread_router \<Rightarrow> pending_decision \<Rightarrow> jstr option \<Rightarrow> pinned_route option" where
  "fork_route_of s p fork_source =
     (if pd_requires_fork_source p then thread_of s fork_source else None)"

lemma routes_equal_eq: "routes_equal a b \<longleftrightarrow> a = b"
  by (cases a; cases b) (auto simp: routes_equal_def)

lemma if_chain_else:
  assumes "\<not> b" and "x = None \<or> x = Some c" and "x = None \<longrightarrow> n < (cap :: nat)"
  shows "(if b then a1 else if (case x of Some e \<Rightarrow> e \<noteq> c | None \<Rightarrow> False) then a2
     else if x = None \<and> cap \<le> n then a3 else a4) = a4"
  using assms by (cases x) auto

lemma commit_route_cases:
  assumes "commit_route s p t fork_source = (r, s')"
  obtains
    (refused) e where "r = Inl e" and "s' = s"
      and "t \<in> set (tr_blocked s) \<or> map_of (tr_provisional s) t \<noteq> None \<or> pd_requires_fork_source p"
  | (derived) "r = Inr (Settled_Invalid_Result (pr_kind (pd_route p)))" and "s' = block_thread (Some t) s"
  | (conflict) e where "r = Inl e" and "s' = block_thread (Some t) s"
  | (committed) c where "r = Inr (Settled_Committed c)"
      and "c = committed_route p (map_of (tr_threads s) t) (fork_route_of s p fork_source)"
      and "map_of (tr_threads s) t = None \<or> map_of (tr_threads s) t = Some c"
      and "map_of (tr_threads s) t = None \<longrightarrow> length (tr_threads s) < pc_max_threads (tr_config s)"
      and "t \<notin> set (tr_blocked s)" and "map_of (tr_provisional s) t = None"
      and "pr_kind (pd_route p) = Native \<longrightarrow> \<not> web_source (fork_route_of s p fork_source)"
      and "s' = s\<lparr>tr_threads := AList.update t c (tr_threads s)\<rparr>"
proof -
  have fork: "(if pd_requires_fork_source p
        then (case fork_source of None \<Rightarrow> None | Some x \<Rightarrow> map_of (tr_threads s) x) else None)
      = fork_route_of s p fork_source"
    by (simp add: fork_route_of_def thread_of_def)
  let ?avail = "and_then (assert_thread_available s (Some t))
             (\<lambda>_. if pd_requires_fork_source p then assert_thread_available s fork_source
                  else return ())"
  show ?thesis
  proof (cases ?avail)
    case (Inl e)
    with assms have "r = Inl e" and "s' = s" by (simp_all add: commit_route_def)
    moreover from Inl have
      "t \<in> set (tr_blocked s) \<or> map_of (tr_provisional s) t \<noteq> None \<or> pd_requires_fork_source p"
      by (auto simp: outcome_simps assert_thread_available_def split: if_splits)
    ultimately show ?thesis by (rule refused)
  next
    case (Inr u)
    then have avail: "t \<notin> set (tr_blocked s)" "map_of (tr_provisional s) t = None"
      by (auto simp: outcome_simps assert_thread_available_def)
    have eq: "commit_route s p t fork_source =
        (let existing = map_of (tr_threads s) t; f = fork_route_of s p fork_source;
             c = committed_route p existing f in
         if pr_kind (pd_route p) = Native \<and> web_source f
         then (Inr (Settled_Invalid_Result (pr_kind (pd_route p))), block_thread (Some t) s)
         else if (case existing of Some e \<Rightarrow> e \<noteq> c | None \<Rightarrow> False)
         then (Inl Route_Conflict, block_thread (Some t) s)
         else if existing = None \<and> pc_max_threads (tr_config s) \<le> length (tr_threads s)
         then (Inl Thread_Capacity, block_thread (Some t) s)
         else (Inr (Settled_Committed c), s\<lparr>tr_threads := AList.update t c (tr_threads s)\<rparr>))"
      using Inr unfolding commit_route_def Let_def fork routes_equal_eq
        committed_route_def [symmetric] by simp
    let ?f = "fork_route_of s p fork_source"
    let ?c = "committed_route p (map_of (tr_threads s) t) ?f"
    consider "pr_kind (pd_route p) = Native \<and> web_source ?f"
      | "\<not> (pr_kind (pd_route p) = Native \<and> web_source ?f)"
        "\<exists>e. map_of (tr_threads s) t = Some e \<and> e \<noteq> ?c"
      | "\<not> (pr_kind (pd_route p) = Native \<and> web_source ?f)"
        "map_of (tr_threads s) t = None" "pc_max_threads (tr_config s) \<le> length (tr_threads s)"
      | "\<not> (pr_kind (pd_route p) = Native \<and> web_source ?f)"
        "map_of (tr_threads s) t = None \<or> map_of (tr_threads s) t = Some ?c"
        "map_of (tr_threads s) t = None \<longrightarrow> length (tr_threads s) < pc_max_threads (tr_config s)"
      by (cases "map_of (tr_threads s) t";
          cases "pc_max_threads (tr_config s) \<le> length (tr_threads s)") (auto simp: not_le)
    then show ?thesis
    proof cases
      case 1
      with assms show ?thesis unfolding eq Let_def by (intro derived) simp_all
    next
      case 2
      with assms show ?thesis unfolding eq Let_def by (intro conflict) auto
    next
      case 3
      with assms show ?thesis unfolding eq Let_def by (intro conflict) auto
    next
      case 4
      have "commit_route s p t fork_source =
          (Inr (Settled_Committed ?c), s\<lparr>tr_threads := AList.update t ?c (tr_threads s)\<rparr>)"
        unfolding eq Let_def by (rule if_chain_else [OF 4])
      with assms have "r = Inr (Settled_Committed ?c)"
        and "s' = s\<lparr>tr_threads := AList.update t ?c (tr_threads s)\<rparr>" by simp_all
      with 4 avail show ?thesis by (intro committed [of ?c]) blast+
    qed
  qed
qed

lemma committed_route_sound:
  assumes "router_inv s" and "sound_route (pd_route p)"
  shows "sound_route (committed_route p (map_of (tr_threads s) t) (fork_route_of s p f))"
  using assms
  by (auto simp: committed_route_def fork_route_of_def thread_of_def router_inv_def
      split: option.splits)

lemma commit_route_inv:
  assumes inv: "router_inv s" and p: "sound_route (pd_route p)"
    and c: "commit_route s p t fork_source = (r, s')"
  shows "router_inv s'"
  using c
proof (cases rule: commit_route_cases)
  case (refused e)
  with inv show ?thesis by simp
next
  case derived
  with inv show ?thesis by (simp add: block_thread_inv)
next
  case (conflict e)
  with inv show ?thesis by (simp add: block_thread_inv)
next
  case (committed c)
  moreover have "sound_route c"
    unfolding committed(2) by (rule committed_route_sound [OF inv p])
  ultimately show ?thesis
    using inv
    by (auto simp: router_inv_def distinct_update length_alist_update map_of_alist_update
        provisional_count_def)
qed

text \<open>A response either leaves the map of threads alone or commits one thread.\<close>

lemma settle_cases:
  assumes "settle_thread_lifecycle s d v = (r, s')"
  obtains
    (ignored) "s' = s" and "\<forall>x. r = Inr x \<longrightarrow> x = Settled_Unknown"
  | (released) key p t where "serialize_directional_request_id d (opt_field (read_data_record v) ''id'') = Inr key"
      and "map_of (tr_pending s) key = Some p"
      and "s' = block_thread t (release_pending key p s)"
      and "r \<in> {Inr (Settled_Failed (pr_kind (pd_route p))), Inr (Settled_Invalid_Result (pr_kind (pd_route p)))}"
  | (commits) key p response t where "v = JObj response"
      and "serialize_directional_request_id d (field response ''id'') = Inr key"
      and "map_of (tr_pending s) key = Some p"
      and "map_of response (js ''error'') = None"
      and "read_response_thread_id response (pd_route p) = Some t"
      and "pd_expected_resume p = None \<or> pd_expected_resume p = Some t"
      and "\<not> invalid_fork_relation p (read_unverified_response_fork_source response) (Some t)"
      and "pd_requires_new_thread p \<longrightarrow> map_of (tr_threads s) t = None"
      and "commit_route (release_pending key p s) p t
             (read_unverified_response_fork_source response) = (r, s')"
proof -
  show ?thesis
  proof (cases v)
    case (JObj response)
    show ?thesis
    proof (cases "serialize_directional_request_id d (field response ''id'')")
      case (Inl e)
      with assms JObj show ?thesis
        by (intro ignored) (auto simp: settle_thread_lifecycle_def Let_def split: if_splits)
    next
      case key: (Inr key)
      then have id: "is_request_id (field response ''id'')"
        by (simp add: serialize_directional_request_id_def split: if_splits)
      show ?thesis
      proof (cases "map_of (tr_pending s) key")
        case None
        with assms JObj key id show ?thesis
          by (intro ignored) (auto simp: settle_thread_lifecycle_def Let_def)
      next
        case p: (Some p)
        let ?s = "release_pending key p s"
        have rel: "settle_released ?s p response = (r, s')"
          using assms JObj key id p by (simp add: settle_thread_lifecycle_def Let_def)
        consider (err) "map_of response (js ''error'') \<noteq> None"
          | (none) "map_of response (js ''error'') = None"
            "read_response_thread_id response (pd_route p) = None"
          | (some) t where "map_of response (js ''error'') = None"
            "read_response_thread_id response (pd_route p) = Some t"
          by (cases "read_response_thread_id response (pd_route p)") auto
        then show ?thesis
        proof cases
          case err
          with rel have "s' = block_thread None ?s"
            and "r = Inr (Settled_Failed (pr_kind (pd_route p)))"
            by (auto simp: settle_released_def block_thread_def)
          with JObj key p show ?thesis by (intro released) auto
        next
          case none
          with rel JObj key p show ?thesis
            by (intro released [of key p]) (auto simp: settle_released_def Let_def)
        next
          case some
          show ?thesis
          proof (cases "(pd_expected_resume p \<noteq> None \<and> Some t \<noteq> pd_expected_resume p)
               \<or> invalid_fork_relation p (read_unverified_response_fork_source response) (Some t)
               \<or> (pd_requires_new_thread p \<and> map_of (tr_threads s) t \<noteq> None)")
            case True
            with rel some JObj key p show ?thesis
              by (intro released [of key p]) (auto simp: settle_released_def Let_def)
          next
            case False
            with rel some JObj key p show ?thesis
              by (intro commits [of response key p t]) (auto simp: settle_released_def Let_def)
          qed
        qed
      qed
    qed
  qed (use assms in \<open>auto intro!: ignored simp: settle_thread_lifecycle_def\<close>)
qed

lemma pending_route_sound:
  "router_inv s \<Longrightarrow> map_of (tr_pending s) k = Some p \<Longrightarrow> sound_route (pd_route p)"
  by (auto simp: router_inv_def)

lemma settle_inv:
  assumes inv: "router_inv s" and c: "settle_thread_lifecycle s d v = (r, s')"
  shows "router_inv s'"
  using c
proof (cases rule: settle_cases)
  case ignored
  with inv show ?thesis by simp
next
  case (released key p t)
  with inv show ?thesis by (simp add: block_thread_inv release_pending_inv)
next
  case (commits key p response t)
  then show ?thesis
    using commit_route_inv [OF release_pending_inv [OF inv]] pending_route_sound [OF inv] by blast
qed

end
