(* ===== verification/Router_Steps.thy ===== *)
theory Router_Steps
  imports Thread_Router_Facts
begin

text \<open>
  The life of a thread router as a labelled step relation: one step per call of an operation
  that can change its state, and one for a change of what a live model source answers. The
  invariant of the bookkeeping, the permanence of pinned routes and the quarantine of blocked
  threads are proved over every history of calls.
\<close>

section \<open>Steps\<close>

datatype router_event =
    Prepare lifecycle_request
  | Settle direction jval
  | Discard direction jval
  | Clear
  | Forget jstr
  | Models_Change model_registry

inductive router_step :: "thread_router \<Rightarrow> router_event \<Rightarrow> thread_router \<Rightarrow> bool" where
  prepared: "prepare_thread_lifecycle s q = Inr (x, s') \<Longrightarrow> router_step s (Prepare q) s'"
| refused: "prepare_thread_lifecycle s q = Inl e \<Longrightarrow> router_step s (Prepare q) s"
| settled: "settle_thread_lifecycle s d v = (r, s') \<Longrightarrow> router_step s (Settle d v) s'"
| discarded: "discard_pending s d v = Inr (b, s') \<Longrightarrow> router_step s (Discard d v) s'"
| not_discarded: "discard_pending s d v = Inl e \<Longrightarrow> router_step s (Discard d v) s"
| cleared: "clear_pending s = (n, s') \<Longrightarrow> router_step s Clear s'"
| forgotten: "forget_thread t s = (b, s') \<Longrightarrow> router_step s (Forget t) s'"
| models: "well_formed_registry m \<Longrightarrow> router_step s (Models_Change m) (s\<lparr>tr_models := m\<rparr>)"

inductive_cases router_stepE: "router_step s e s'"
inductive_simps router_step_Prepare: "router_step s (Prepare q) s'"

inductive router_run :: "thread_router \<Rightarrow> router_event list \<Rightarrow> thread_router \<Rightarrow> bool" where
  stay: "router_run s [] s"
| step: "router_step s e s' \<Longrightarrow> router_run s' es s'' \<Longrightarrow> router_run s (e # es) s''"

inductive_simps router_run_Nil [simp]: "router_run s [] s'"
inductive_simps router_run_Cons: "router_run s (e # es) s'"

lemma discard_cases:
  assumes "discard_pending s d v = Inr (b, s')"
  obtains (absent) "s' = s"
    | (released) key p where "map_of (tr_pending s) key = Some p" and "s' = release_pending key p s"
  using assms by (auto simp: discard_pending_def outcome_simps split: option.splits)

section \<open>The invariant is kept\<close>

lemma clear_inv:
  assumes "router_inv s" and "clear_pending s = (n, s')"
  shows "router_inv s'"
  using assms by (auto simp: router_inv_def clear_pending_def provisional_count_def counts_ok_def)

lemma forget_inv:
  assumes "router_inv s" and "forget_thread t s = (b, s')"
  shows "router_inv s'"
  using assms jsmap.remove_within [of "tr_threads s" "pc_max_threads (tr_config s)" t]
  by (auto simp: router_inv_def forget_thread_def provisional_count_def counts_ok_def
      distinct_delete map_of_alist_delete split: if_splits)

lemma router_step_inv:
  assumes step: "router_step s e s'" and inv: "router_inv s"
  shows "router_inv s'"
  using step
proof cases
  case (prepared q x)
  then show ?thesis by (intro prepare_inv [OF inv])
next
  case (settled d v r)
  then show ?thesis by (intro settle_inv [OF inv])
next
  case (discarded d v b)
  from discarded(2) inv show ?thesis
    by (cases rule: discard_cases) (auto intro: release_pending_inv)
next
  case (cleared n)
  then show ?thesis by (intro clear_inv [OF inv])
next
  case (forgotten t b)
  then show ?thesis by (intro forget_inv [OF inv])
next
  case (models m)
  with inv show ?thesis by (simp add: router_inv_def provisional_count_def)
qed (use inv in simp_all)

lemma router_run_inv: "router_run s es s' \<Longrightarrow> router_inv s \<Longrightarrow> router_inv s'"
  by (induction rule: router_run.induct) (auto intro: router_step_inv)

lemma new_router_inv:
  assumes "new_thread_router parse_url base_url token max_pending max_threads m = Inr s"
    and "well_formed_registry m"
  shows "router_inv s"
  using assms
  by (auto simp: new_thread_router_def outcome_simps router_inv_def counts_ok_def
      provisional_count_def)

section \<open>Blocked threads and pinned routes\<close>

lemma blocked_monotone: "set (tr_blocked s) \<subseteq> set (tr_blocked (block_thread t s))"
  by (auto simp: block_thread_def split: option.splits)

lemma compromised_monotone: "tr_compromised s \<Longrightarrow> tr_compromised (block_thread t s)"
  by (auto simp: block_thread_def split: option.splits)

text \<open>What a settlement does to the pinned threads: nothing, or it pins one new thread.\<close>

lemma settle_threads:
  assumes "settle_thread_lifecycle s d v = (r, s')"
  obtains (kept) "tr_threads s' = tr_threads s"
    | (pinned) t c where "r = Inr (Settled_Committed c)"
        and "tr_threads s' = AList.update t c (tr_threads s)"
        and "map_of (tr_threads s) t = None \<or> map_of (tr_threads s) t = Some c"
        and "t \<notin> set (tr_blocked s)"
  using assms
proof (cases rule: settle_cases)
  case (commits key p response t)
  from commits(9) show ?thesis
  proof (cases rule: commit_route_cases)
    case (committed c)
    then show ?thesis by (intro pinned [of c t]) simp_all
  qed (simp_all add: kept)
qed (simp_all add: kept)

lemma settle_blocked:
  assumes "settle_thread_lifecycle s d v = (r, s')"
  shows "set (tr_blocked s) \<subseteq> set (tr_blocked s')"
  using assms
proof (cases rule: settle_cases)
  case (released key p t)
  then show ?thesis using blocked_monotone [of "release_pending key p s" t] by simp
next
  case (commits key p response t)
  from commits(9) show ?thesis
    using blocked_monotone [of "release_pending key p s" "Some t"]
    by (cases rule: commit_route_cases) simp_all
qed simp

lemma prepare_frame:
  assumes "prepare_thread_lifecycle s q = Inr (x, s')"
  shows "tr_threads s' = tr_threads s" and "tr_blocked s' = tr_blocked s"
    and "tr_config s' = tr_config s" and "tr_models s' = tr_models s"
    and "tr_compromised s' = tr_compromised s"
  by (rule prepare_Inr [OF assms]; simp)+

lemma discard_frame:
  assumes "discard_pending s d v = Inr (b, s')"
  shows "tr_threads s' = tr_threads s \<and> tr_blocked s' = tr_blocked s"
  using assms by (cases rule: discard_cases) simp_all

lemma step_blocked: "router_step s e s' \<Longrightarrow> set (tr_blocked s) \<subseteq> set (tr_blocked s')"
  by (erule router_stepE)
    (auto simp: prepare_frame discard_frame clear_pending_def forget_thread_def
      dest: settle_blocked)

lemma step_pinned:
  assumes step: "router_step s e s'" and r: "map_of (tr_threads s) t = Some r" and "e \<noteq> Forget t"
  shows "map_of (tr_threads s') t = Some r"
  using step
proof cases
  case (settled d v x)
  from settled(2) r show ?thesis
    by (cases rule: settle_threads) (auto simp: map_of_alist_update)
next
  case (forgotten u b)
  with assms show ?thesis by (auto simp: forget_thread_def map_of_alist_delete)
qed (use r in \<open>auto simp: prepare_frame discard_frame clear_pending_def\<close>)

lemma step_blocked_unpinned:
  assumes step: "router_step s e s'" and "t \<in> set (tr_blocked s)" and "map_of (tr_threads s) t = None"
  shows "map_of (tr_threads s') t = None"
  using step
proof cases
  case (settled d v x)
  from settled(2) assms(2,3) show ?thesis
    by (cases rule: settle_threads) (auto simp: map_of_alist_update)
next
  case (forgotten u b)
  with assms show ?thesis by (auto simp: forget_thread_def map_of_alist_delete)
qed (use assms in \<open>auto simp: prepare_frame discard_frame clear_pending_def\<close>)

lemma run_pinned:
  "router_run s es s' \<Longrightarrow> map_of (tr_threads s) t = Some r \<Longrightarrow> Forget t \<notin> set es \<Longrightarrow>
   map_of (tr_threads s') t = Some r"
  by (induction rule: router_run.induct) (auto intro: step_pinned)

lemma run_blocked:
  "router_run s es s' \<Longrightarrow> set (tr_blocked s) \<subseteq> set (tr_blocked s')"
  by (induction rule: router_run.induct) (auto dest: step_blocked)

lemma run_blocked_unpinned:
  "router_run s es s' \<Longrightarrow> t \<in> set (tr_blocked s) \<Longrightarrow> map_of (tr_threads s) t = None \<Longrightarrow>
   map_of (tr_threads s') t = None"
proof (induction rule: router_run.induct)
  case (step s e s' es s'')
  from step.prems step_blocked [OF step.hyps(1)] step_blocked_unpinned [OF step.hyps(1)]
  show ?case by (intro step.IH) auto
qed

end
