(* ===== verification/Router_Properties.thy ===== *)
theory Router_Properties
  imports Router_Steps
begin

text \<open>
  The properties of the thread router: what a prepared request carries, when a settlement pins
  a thread, what a request key identifies, and what the private-material scan decides; each
  with a witness on a router that was really constructed.
\<close>

section \<open>Request keys\<close>

text \<open>The two ids JavaScript prints alike are the two zeros.\<close>

definition same_request_id :: "jval \<Rightarrow> jval \<Rightarrow> bool" where
  "same_request_id v w \<longleftrightarrow>
     v = w \<or> {v, w} \<subseteq> {JNum NNegZero, JNum (NInt 0)}"

lemma string_key_split:
  "direction_text d @ js '':string:'' @ x = direction_text e @ js '':string:'' @ y \<Longrightarrow> d = e \<and> x = y"
  by (cases d; cases e) (auto simp: js_def)

lemma number_key_split:
  "direction_text d @ js '':number:'' @ x = direction_text e @ js '':number:'' @ y \<Longrightarrow> d = e \<and> x = y"
  by (cases d; cases e) (auto simp: js_def)

lemma direction_key_kind:
  "direction_text d @ js '':string:'' @ x \<noteq> direction_text e @ js '':number:'' @ y"
  by (cases d; cases e) (auto simp: js_def)

lemma length_prefixed_inject:
  assumes "nat_text (length a) @ js '':'' @ a = nat_text (length b) @ js '':'' @ b"
  shows "a = b"
proof -
  have "58 \<notin> set (nat_text n)" for n
    using nat_text_digits [of 58 n] by (auto simp: is_digit_unit_def)
  with assms show ?thesis
    using separated_inject [of "nat_text (length a)" 58 a "nat_text (length b)" b]
    by (simp add: js_def)
qed

lemma serialized_id_cases:
  assumes "serialize_directional_request_id d v = Inr k"
  obtains (is_text) s where "v = JStr s"
      and "k = direction_text d @ js '':string:'' @ nat_text (length s) @ js '':'' @ s"
    | (is_number) i where "v = JNum (NInt i) \<or> (v = JNum NNegZero \<and> i = 0)"
      and "k = direction_text d @ js '':number:'' @ int_text i"
proof -
  consider (s) s where "v = JStr s" | (n) n where "v = JNum n" and "is_safe_integer n"
    using assms
    by (auto simp: serialize_directional_request_id_def is_request_id_def split: jval.splits if_splits)
  then show ?thesis
  proof cases
    case s
    with assms that(1) show ?thesis
      by (auto simp: serialize_directional_request_id_def is_request_id_def split: if_splits)
  next
    case n
    with assms that(2) show ?thesis
      by (cases n) (auto simp: serialize_directional_request_id_def is_request_id_def)
  qed
qed

lemma request_key_shared:
  assumes "serialize_directional_request_id d v = Inr k"
    and "serialize_directional_request_id e w = Inr k"
  shows "d = e \<and> same_request_id v w"
  using assms(1)
proof (cases rule: serialized_id_cases)
  case v: (is_text s)
  from assms(2) show ?thesis
  proof (cases rule: serialized_id_cases)
    case (is_text t)
    have "d = e \<and> nat_text (length s) @ js '':'' @ s = nat_text (length t) @ js '':'' @ t"
      by (rule string_key_split) (use v(2) is_text(2) in simp)
    with v(1) is_text(1) length_prefixed_inject [of s t] show ?thesis
      by (simp add: same_request_id_def)
  next
    case (is_number i)
    with v(2) show ?thesis using direction_key_kind [THEN notE] by metis
  qed
next
  case v: (is_number i)
  from assms(2) show ?thesis
  proof (cases rule: serialized_id_cases)
    case (is_text t)
    with v(2) show ?thesis using direction_key_kind [THEN notE] by metis
  next
    case (is_number j)
    have "d = e \<and> int_text i = int_text j"
      by (rule number_key_split) (use v(2) is_number(2) in simp)
    with v(1) is_number(1) show ?thesis by (auto simp: same_request_id_def)
  qed
qed

section \<open>The scan for private material\<close>

lemma scan_exact:
  "scan_private_material pc n stack \<longleftrightarrow>
     MAX_PRIVATE_MATERIAL_SCAN_NODES < n + sum_list (map node_count stack)
     \<or> (\<exists>v \<in> set stack. \<exists>text \<in> set (strings_of v). leaks_secret pc text)"
  if "n \<le> MAX_PRIVATE_MATERIAL_SCAN_NODES"
  using that
proof (induction pc n stack rule: scan_private_material.induct)
  case (2 pc n current stack)
  show ?case
  proof (cases "MAX_PRIVATE_MATERIAL_SCAN_NODES < Suc n")
    case True
    moreover have "Suc n \<le> n + sum_list (map node_count (current # stack))"
      using node_count_pos [of current] by (simp del: node_count_pos)
    ultimately show ?thesis by simp
  next
    case False
    then have n: "Suc n \<le> MAX_PRIVATE_MATERIAL_SCAN_NODES" by simp
    show ?thesis
    proof (cases current)
      case (JObj r)
      show ?thesis
      proof (cases "list_ex (\<lambda>(k, _). leaks_secret pc k) r")
        case True
        then obtain k v where "(k, v) \<in> set r" and "leaks_secret pc k" by (auto simp: list_ex_iff)
        then have "\<exists>text \<in> set (strings_of current). leaks_secret pc text"
          using JObj by force
        with True JObj n show ?thesis by auto
      next
        case leak: False
        then have "\<not> (\<exists>k \<in> set (map fst r). leaks_secret pc k)"
          by (auto simp: list_ex_iff)
        with JObj False leak "2.IH"(7) [OF False JObj leak n] show ?thesis
          by (simp add: record_strings record_nodes bex_Un ac_simps del: strings_of.simps node_count.simps)
      qed
    qed (use False n "2.IH" in \<open>auto simp: ac_simps\<close>)
  qed
qed simp

section \<open>Copies\<close>

lemma clone_data_value_same: "clone_data_value v = Inr w \<Longrightarrow> w = v"
proof (induction v arbitrary: w rule: clone_data_value.induct)
  case (5 vs)
  then obtain ws where "w = JArr ws" and "list_all2 (\<lambda>v w. clone_data_value v = Inr w) vs ws"
    by (auto simp: outcome_simps map_result_list_all2)
  moreover from this(2) have "list_all2 (=) vs ws"
    by (rule list.rel_mono_strong) (use 5(1) in auto)
  ultimately show ?case by (simp add: list.rel_eq)
next
  case (6 r)
  then obtain r' where r': "w = JObj r'"
    and all: "list_all2 (\<lambda>(k, v) x. and_then (clone_data_value v) (\<lambda>v'. Inr (k, v')) = Inr x) r r'"
    by (auto simp: outcome_simps map_result_list_all2 split_def)
  have "list_all2 (=) r r'"
    using all
  proof (rule list.rel_mono_strong)
    fix x y
    assume x: "x \<in> set r" and y: "(\<lambda>(k, v) x. and_then (clone_data_value v) (\<lambda>v'. Inr (k, v')) = Inr x) x y"
    obtain k v where kv: "x = (k, v)" by (cases x)
    with y obtain v' where v': "clone_data_value v = Inr v'" and "y = (k, v')"
      by (auto simp: outcome_simps)
    moreover have "v' = v" by (rule 6(1) [OF x kv [symmetric] v'])
    ultimately show "x = y" using kv by simp
  qed
  with r' show ?case by (simp add: list.rel_eq)
qed (auto split: if_splits)

lemma clone_data_record_same: "clone_data_record r = Inr r' \<Longrightarrow> r' = r"
  using clone_data_value_same [of "JObj r"]
  by (auto simp: clone_data_record_def simp del: clone_data_value.simps split: sum.splits jval.splits)

section \<open>Prepared requests\<close>

definition provider_keys :: "jstr list" where
  "provider_keys = map js
     [''model_providers.gptsessionbridge_web.base_url'',
      ''model_providers.gptsessionbridge_web.experimental_bearer_token'',
      ''model_providers.gptsessionbridge_web.name'',
      ''model_providers.gptsessionbridge_web.request_max_retries'',
      ''model_providers.gptsessionbridge_web.requires_openai_auth'',
      ''model_providers.gptsessionbridge_web.stream_max_retries'',
      ''model_providers.gptsessionbridge_web.wire_api'']"

text \<open>
  The configuration table that reaches the app server: our provider under its own keys, and no
  other key that could define or shadow a provider or a feature table.
\<close>

definition isolated_config :: "provider_configuration \<Rightarrow> jstr \<Rightarrow> jstr \<Rightarrow> data_record \<Rightarrow> bool" where
  "isolated_config pc provider_model effort config \<longleftrightarrow>
     field config ''model'' = JStr provider_model
     \<and> field config ''model_provider'' = JStr WEB_MODEL_PROVIDER_ID
     \<and> field config ''model_reasoning_effort'' = JStr effort
     \<and> field config ''features.respect_system_proxy'' = JBool False
     \<and> field config ''model_providers.gptsessionbridge_web.base_url'' = JStr (pc_base_url pc)
     \<and> field config ''model_providers.gptsessionbridge_web.experimental_bearer_token'' = JStr (pc_token pc)
     \<and> field config ''model_providers.gptsessionbridge_web.wire_api'' = JStr (js ''responses'')
     \<and> field config ''model_providers.gptsessionbridge_web.requires_openai_auth'' = JBool False
     \<and> field config ''model_providers.gptsessionbridge_web.request_max_retries'' = JNum (NInt 0)
     \<and> field config ''model_providers.gptsessionbridge_web.stream_max_retries'' = JNum (NInt 0)
     \<and> (\<forall>k \<in> fst ` set config.
          k = js ''features'' \<or> k = js ''model_providers'' \<or> prefix (js ''model_providers.'') k
          \<longrightarrow> k \<in> set provider_keys)"

lemma remove_reserved_keys:
  assumes "remove_reserved_provider_configuration config = Inr config'"
  shows "fst ` set config' \<subseteq> fst ` set config"
proof -
  let ?kept = "filter (\<lambda>(k, _). \<not> reserved_provider_key k) config"
  have kept: "fst ` set ?kept \<subseteq> fst ` set config" by auto
  have "js ''model_providers'' \<in> fst ` set ?kept"
    if "read_data_record (field ?kept ''model_providers'') = Some nested" for nested
  proof (rule ccontr)
    assume "js ''model_providers'' \<notin> fst ` set ?kept"
    then have "map_of ?kept (js ''model_providers'') = None" by (simp add: map_of_eq_None_iff)
    with that show False by (simp add: field_def)
  qed
  then have present: "\<exists>nested. read_data_record (field ?kept ''model_providers'') = Some nested
      \<Longrightarrow> insert (js ''model_providers'') (fst ` set ?kept) \<subseteq> fst ` set config"
    using kept by blast
  from assms consider "config' = ?kept"
    | nested where "read_data_record (field ?kept ''model_providers'') = Some nested"
      "fst ` set config' = insert (js ''model_providers'') (fst ` set ?kept)"
    by (auto simp: remove_reserved_provider_configuration_def Let_def outcome_simps
        simp del: set_filter split: option.splits if_splits)
  then show ?thesis using kept present by cases auto
qed

lemma write_provider_config_fields:
  "isolated_config pc m e (write_provider_config pc m (Some e) config)
   \<longleftrightarrow> (\<forall>k \<in> fst ` set config. ambiguous_web_config_key k \<longrightarrow> k \<in> set provider_keys)"
proof -
  have keys: "fst ` set (write_provider_config pc m (Some e) config) =
      set provider_keys \<union> {js ''model'', js ''model_provider'', js ''features.respect_system_proxy'',
        js ''model_reasoning_effort''} \<union> fst ` set config"
    by (auto simp: write_provider_config_def set_effort_def provider_keys_def)
  have own: "\<not> ambiguous_web_config_key k"
    if "k \<in> {js ''model'', js ''model_provider'', js ''features.respect_system_proxy'',
        js ''model_reasoning_effort''}" for k
    using that by (auto simp: ambiguous_web_config_key_def js_def)
  have "(\<forall>k \<in> fst ` set (write_provider_config pc m (Some e) config).
      ambiguous_web_config_key k \<longrightarrow> k \<in> set provider_keys)
    \<longleftrightarrow> (\<forall>k \<in> fst ` set config. ambiguous_web_config_key k \<longrightarrow> k \<in> set provider_keys)"
    unfolding keys using own by blast
  then show ?thesis
    by (simp add: isolated_config_def ambiguous_web_config_key_def write_provider_config_def
        set_effort_def field_set_field)
qed

text \<open>What \<open>injectWebRoute\<close> writes when the request's own table passed the ambiguity check.\<close>

lemma inject_web_route_Inr:
  assumes inj: "inject_web_route pc params route = Inr r"
    and model: "pr_provider_model route = Some m" and effort: "pr_effort route = Some e"
    and clear: "assert_no_ambiguous_web_config_tables params = Inr ()"
  shows "\<exists>config. field r ''model'' = JStr m
    \<and> field r ''modelProvider'' = JStr WEB_MODEL_PROVIDER_ID
    \<and> field r ''allowProviderModelFallback'' = JBool False
    \<and> field r ''config'' = JObj config \<and> isolated_config pc m e config"
proof -
  from inj model obtain p where p: "params = Some p"
    by (cases params) (simp_all add: inject_web_route_def)
  let ?read = "\<lambda>cloned. if is_nullish (field cloned ''config'') then Inr []
    else case read_data_record (field cloned ''config'') of None \<Rightarrow> Inl Invalid_Params
      | Some c \<Rightarrow> clone_data_record c"
  from inj model p obtain cloned config0 config where cloned: "clone_data_record p = Inr cloned"
    and config0: "?read cloned = Inr config0"
    and config: "remove_reserved_provider_configuration config0 = Inr config"
    and r: "r = set_field ''allowProviderModelFallback'' (JBool False)
        (set_field ''modelProvider'' (JStr WEB_MODEL_PROVIDER_ID)
        (set_field ''model'' (JStr m)
        (set_field ''config'' (JObj (write_provider_config pc m (pr_effort route) config)) cloned)))"
    unfolding inject_web_route_def Let_def by (auto simp only: outcome_simps prod.case option.case sum.inject)
  have "cloned = p" by (rule clone_data_record_same [OF cloned])
  with config0 clear p have "\<not> list_ex (\<lambda>(k, _). ambiguous_web_config_key k) config0"
    by (auto simp: assert_no_ambiguous_web_config_tables_def config_of_def outcome_simps
        dest: clone_data_record_same split: if_splits option.splits)
  then have "\<forall>k \<in> fst ` set config0. \<not> ambiguous_web_config_key k"
    by (auto simp: list_ex_iff)
  then have "\<forall>k \<in> fst ` set config. \<not> ambiguous_web_config_key k"
    using remove_reserved_keys [OF config] by blast
  then show ?thesis
    using write_provider_config_fields [of pc m e config]
    by (auto simp: r effort field_set_field)
qed

lemma web_source_simps [simp]:
  "\<not> web_source None" "web_source (Some p) \<longleftrightarrow> pr_kind p = Web"
  by (simp_all add: web_source_def)

lemma deciding_route_web: "web_source (deciding_route s q) \<longleftrightarrow> web_source (thread_of s (request_source q))"
  by (auto simp: deciding_route_def Let_def)

text \<open>
  The Web routes a request can be decided for: the route its thread is pinned to, or, for a new
  thread that is not, the entry of the current catalog with the public model the request names.
  The effort is the requested one, or the pinned or default one when the request has none.
\<close>

definition decided_web_route :: "thread_router \<Rightarrow> lifecycle_request \<Rightarrow> pinned_route \<Rightarrow> bool" where
  "decided_web_route s q d \<longleftrightarrow> pr_kind d = Web
     \<and> (\<exists>effort. read_lifecycle_reasoning_effort (request_params q) = Inr effort
          \<and> (effort = None \<or> effort = pr_effort d)
          \<and> (thread_of s (request_source q) = Some d
             \<or> lr_method q = Thread_Start \<and> \<not> web_source (thread_of s (request_source q))
               \<and> (\<exists>v. read_lifecycle_model (request_params q) = Inr (Some (rd_public_model v))
                    \<and> registry_get (tr_models s) (rd_public_model v) = Inr (Some v)
                    \<and> pr_model d = Some (rd_public_model v)
                    \<and> pr_provider_model d = Some (rd_provider_model v)
                    \<and> pr_catalog_revision d = Some (rd_catalog_revision v)
                    \<and> (\<exists>e \<in> set (rd_supported_efforts v). pr_effort d = Some e)
                    \<and> (effort = None \<longrightarrow> pr_effort d = Some (rd_default_effort v)))))"

lemma decided_web:
  assumes inv: "router_inv s" and kind: "pr_kind d = Web"
    and d: "decide_lifecycle_route (registry_get (tr_models s)) (lr_method q) (request_params q)
      (deciding_route s q) (lr_catalog_revision q) = Inr d"
  shows "decided_web_route s q d"
  using d
proof (cases rule: decide_cases)
  case (pinned r model provider effort virtual)
  then have "thread_of s (request_source q) = Some d"
    by (auto simp: deciding_route_def Let_def split: if_splits)
  with pinned kind show ?thesis by (auto simp: decided_web_route_def)
next
  case (selected v model provider effort)
  have v: "well_formed_route v \<and> model = Some (rd_public_model v)"
    using find_selected_well_formed [OF selected(4)] inv by (simp add: router_inv_def)
  have "\<not> web_source (thread_of s (request_source q))"
    using selected(1) deciding_route_web [of s q] by simp
  then show ?thesis
    using selected v kind create_web_route_sound [OF selected(8)]
    by (auto simp: decided_web_route_def find_selected_def create_web_route_def Let_def
        split: option.splits if_splits)
next
  case (native model provider effort rev')
  then show ?thesis
    using kind create_native_route_sound(2) [of model "deciding_route s q" effort rev' "lr_method q"]
      deciding_route_sound [OF inv] by auto
qed

lemma prepared_web_facts:
  assumes inv: "router_inv s" and ok: "prepare_thread_lifecycle s q = Inr (x, s')"
    and web: "pl_route x = Web"
  shows "\<exists>p r m e config. pl_params x = JObj r
    \<and> map_of (tr_pending s') (pl_request_key x) = Some p
    \<and> pr_provider_model (pd_route p) = Some m \<and> pr_effort (pd_route p) = Some e
    \<and> decided_web_route s q (pd_route p)
    \<and> is_canonical_web_provider_model_reference (JStr m)
    \<and> field r ''model'' = JStr m
    \<and> field r ''modelProvider'' = JStr WEB_MODEL_PROVIDER_ID
    \<and> field r ''allowProviderModelFallback'' = JBool False
    \<and> field r ''config'' = JObj config \<and> isolated_config (tr_config s) m e config"
proof (rule prepare_Inr [OF ok])
  fix d
  assume d: "decide_lifecycle_route (registry_get (tr_models s)) (lr_method q) (request_params q)
      (deciding_route s q) (lr_catalog_revision q) = Inr d"
    and kind: "pl_route x = pr_kind d" and req: "assert_web_request q d = Inr ()"
    and params: "prepare_params s q d = Inr (pl_params x)"
    and s': "s' = commit_pending (pl_request_key x) (pending_of s q d) s"
  have "sound_route d"
    using decide_sound [OF d] inv deciding_route_sound [OF inv] by (simp add: router_inv_def)
  with web kind obtain m e where m: "pr_provider_model d = Some m" and e: "pr_effort d = Some e"
    and canon: "is_canonical_web_provider_model_reference (JStr m)"
    by (cases "pr_provider_model d")
      (auto simp: sound_route_def is_canonical_web_provider_model_reference_def)
  from params web kind obtain r where r: "JObj r = pl_params x"
    and inj: "inject_web_route (tr_config s) (request_params q) d = Inr r"
    by (auto simp: prepare_params_def outcome_simps)
  have clear: "assert_no_ambiguous_web_config_tables (request_params q) = Inr ()"
    using req web kind by (auto simp: assert_web_request_def outcome_simps)
  have "map_of (tr_pending s') (pl_request_key x) = Some (pending_of s q d)"
    by (simp add: s' map_of_alist_update)
  moreover have "decided_web_route s q d" using decided_web [OF inv _ d] web kind by simp
  ultimately show ?thesis
    using inject_web_route_Inr [OF inj m e clear] canon r [symmetric] m e
    by (intro exI [of _ "pending_of s q d"]) auto
qed

lemma prepared_native_facts:
  assumes ok: "prepare_thread_lifecycle s q = Inr (x, s')" and native: "pl_route x = Native"
  shows "pl_params x = lr_params q
    \<and> \<not> web_source (thread_of s (request_source q))
    \<and> assert_no_reserved_provider_definitions (request_params q) = Inr ()
    \<and> (\<exists>m p. read_lifecycle_model (request_params q) = Inr m
         \<and> \<not> is_reserved_web_model_reference (nullable m)
         \<and> read_selected_provider (request_params q) = Inr p \<and> p \<noteq> Some WEB_MODEL_PROVIDER_ID)"
proof (rule prepare_Inr [OF ok])
  fix d
  assume d: "decide_lifecycle_route (registry_get (tr_models s)) (lr_method q) (request_params q)
      (deciding_route s q) (lr_catalog_revision q) = Inr d"
    and kind: "pl_route x = pr_kind d" and clean: "assert_no_reserved_provider_definitions (request_params q) = Inr ()"
    and params: "prepare_params s q d = Inr (pl_params x)"
  have p: "pl_params x = lr_params q"
    using params kind native by (simp add: prepare_params_def)
  from d show ?thesis
  proof (cases rule: decide_cases)
    case (selected v m p e)
    then show ?thesis using kind native
      by (auto simp: create_web_route_def Let_def split: if_splits)
  next
    case native: (native m pr e rev')
    then show ?thesis using p clean by (auto simp: deciding_route_web)
  qed (use kind native in simp)
qed

section \<open>Settlements\<close>

lemma response_identity:
  assumes "read_response_thread_id response route = Some t"
  shows "opt_field (response_thread response) ''id'' = JStr t"
    and "pr_kind route = Web \<Longrightarrow>
      opt_field (read_data_record (field response ''result'')) ''model'' = nullable (pr_provider_model route)
      \<and> opt_field (read_data_record (field response ''result'')) ''modelProvider'' = JStr WEB_MODEL_PROVIDER_ID
      \<and> opt_field (response_thread response) ''modelProvider'' = JStr WEB_MODEL_PROVIDER_ID"
    and "pr_kind route = Native \<Longrightarrow>
      opt_field (read_data_record (field response ''result'')) ''modelProvider'' \<noteq> JStr WEB_MODEL_PROVIDER_ID
      \<and> \<not> is_reserved_web_model_reference (opt_field (read_data_record (field response ''result'')) ''model'')"
  using assms
  by (auto simp: read_response_thread_id_def Let_def read_optional_string_def
      split: option.splits jval.splits if_splits)

lemma committed_route_kind:
  "pr_kind (pd_route p) = Web \<Longrightarrow> committed_route p e f = pd_route p"
  "pr_kind (committed_route p e f) = pr_kind (pd_route p)"
  by (auto simp: committed_route_def split: option.splits)

lemma settlement_facts:
  assumes inv: "router_inv s" and set: "settle_thread_lifecycle s d v = (Inr (Settled_Committed c), s')"
  shows "\<exists>key p response t. v = JObj response
    \<and> serialize_directional_request_id d (field response ''id'') = Inr key
    \<and> map_of (tr_pending s) key = Some p \<and> map_of (tr_pending s') key = None
    \<and> read_response_thread_id response (pd_route p) = Some t
    \<and> (pd_expected_resume p = None \<or> pd_expected_resume p = Some t)
    \<and> t \<notin> set (tr_blocked s')
    \<and> (\<forall>u. map_of (tr_threads s') u = (if u = t then Some c else map_of (tr_threads s) u))
    \<and> sound_route c \<and> pr_kind c = pr_kind (pd_route p)
    \<and> (pr_kind c = Web \<longrightarrow> c = pd_route p)"
  using set
proof (cases rule: settle_cases)
  case (commits key p response t)
  from commits(9) show ?thesis
  proof (cases rule: commit_route_cases)
    case (committed c')
    have "sound_route c"
      using committed(1,2) committed_route_sound [OF release_pending_inv [OF inv commits(3)]
          pending_route_sound [OF inv commits(3)]] by simp
    moreover have "map_of (tr_pending s') key = None" and "t \<notin> set (tr_blocked s')"
      and "\<forall>u. map_of (tr_threads s') u = (if u = t then Some c else map_of (tr_threads s) u)"
      using committed(1,5,8) by (simp_all add: map_of_alist_update map_of_alist_delete)
    moreover have "pr_kind c = pr_kind (pd_route p)" and "pr_kind c = Web \<longrightarrow> c = pd_route p"
      using committed(1,2) committed_route_kind [of p] by auto
    ultimately show ?thesis using commits(1-3,5,6) by blast
  qed simp_all
qed auto

section \<open>Requests on a pinned thread\<close>

definition pinned_settings :: "jstr \<Rightarrow> jstr \<Rightarrow> data_record \<Rightarrow> bool" where
  "pinned_settings m e r \<longleftrightarrow>
     (case read_data_record (field r ''collaborationMode'') of
        None \<Rightarrow> True
      | Some c \<Rightarrow>
          (case read_data_record (field c ''settings'') of
             None \<Rightarrow> False
           | Some st \<Rightarrow> field st ''model'' = JStr m \<and> field st ''reasoning_effort'' = JStr e))"

lemma pin_collaboration_Inr:
  assumes "pin_collaboration_selection r p = Inr r'"
    and "pr_provider_model p = Some m" and "pr_effort p = Some e"
  shows "pinned_settings m e r' \<and> field r' ''model'' = field r ''model'' \<and> field r' ''effort'' = field r ''effort''"
  using assms
  by (auto simp: pin_collaboration_selection_def pinned_settings_def set_effort_def field_set_field
      split: option.splits)

lemma bound_web_facts:
  assumes inv: "router_inv s" and ok: "validate_thread_bound s v = Inr w"
    and t: "read_optional_string (opt_field (read_data_record v) ''threadId'') = Some t"
    and p: "map_of (tr_threads s) t = Some p" and web: "pr_kind p = Web"
  shows "\<exists>r m e. w = JObj r \<and> pr_provider_model p = Some m \<and> pr_effort p = Some e
    \<and> field r ''model'' = JStr m \<and> field r ''effort'' = JStr e \<and> pinned_settings m e r"
proof -
  have "sound_route p" using inv p by (simp add: router_inv_def)
  with web obtain m e where m: "pr_provider_model p = Some m" and e: "pr_effort p = Some e"
    by (cases "pr_provider_model p")
      (auto simp: sound_route_def is_canonical_web_provider_model_reference_def)
  have thread: "thread_of s (Some t) = Some p" using p by (simp add: thread_of_def)
  from ok obtain r r' where
    "pin_collaboration_selection (set_effort ''effort'' (pr_effort p) (set_field ''model'' (JStr m) r)) p = Inr r'"
    and "w = JObj r'"
    unfolding validate_thread_bound_def Let_def t thread option.case
    by (auto simp: outcome_simps web m split: option.splits)
  with pin_collaboration_Inr [OF this(1) m e] m e show ?thesis
    by (auto simp: set_effort_def field_set_field)
qed

text \<open>
  The threads the parameters of a request name: \<open>threadId\<close>, and for the operations that check
  every reference also the other four identity fields and the elements of \<open>threads\<close>.
\<close>

definition named_thread :: "jval \<Rightarrow> jstr option" where
  "named_thread v = read_optional_string (opt_field (read_data_record v) ''threadId'')"

definition references_thread :: "jval \<Rightarrow> jstr \<Rightarrow> bool" where
  "references_thread v t \<longleftrightarrow>
     list_ex (\<lambda>k. read_optional_string (opt_field (read_data_record v) k) = Some t)
       [''ancestorThreadId'', ''beforeThreadId'', ''conversationId'', ''parentThreadId'', ''threadId'']
     \<or> (case opt_field (read_data_record v) ''threads'' of
          JArr vs \<Rightarrow> list_ex (\<lambda>x. referenced_thread x = Some t) vs | _ \<Rightarrow> False)"

definition refused :: "(routing_error, 'a) result \<Rightarrow> bool" where
  "refused r \<longleftrightarrow> (case r of Inl _ \<Rightarrow> True | Inr _ \<Rightarrow> False)"

lemma refusedI: "(\<And>x. r \<noteq> Inr x) \<Longrightarrow> refused r"
  by (cases r) (auto simp: refused_def)

lemma assert_available_blocked [simp]:
  "t \<in> set (tr_blocked s) \<Longrightarrow> assert_thread_available s (Some t) \<noteq> Inr x"
  by (auto simp: assert_thread_available_def outcome_simps)

lemma bound_blocked:
  assumes "named_thread v = Some t" and "t \<in> set (tr_blocked s)"
  shows "refused (validate_thread_bound s v)" and "refused (validate_review_start s v)"
    and "refused (validate_realtime_start s v)"
  using assms
  by (auto simp: validate_thread_bound_def validate_review_start_def validate_realtime_start_def
      Let_def named_thread_def outcome_simps intro!: refusedI)

lemma identity_blocked:
  assumes v: "references_thread v t" and b: "t \<in> set (tr_blocked s)"
  shows "refused (validate_thread_identity s v)" and "refused (validate_unsupported_web_operation s v)"
proof -
  have no: "assert_referenced_threads_available s (read_data_record v) \<noteq> Inr u" for u
  proof (cases "read_data_record v")
    case (Some r)
    with v assert_available_blocked [OF b] show ?thesis
      by (auto simp: references_thread_def assert_referenced_threads_available_def outcome_simps
          each_result_Inr list_ex_iff split: jval.splits) metis+
  qed (use v in \<open>simp add: references_thread_def read_optional_string_def\<close>)
  then show "refused (validate_thread_identity s v)"
    by (auto simp: validate_thread_identity_def outcome_simps intro!: refusedI)
  with no show "refused (validate_unsupported_web_operation s v)"
    by (auto simp: validate_unsupported_web_operation_def validate_thread_identity_def outcome_simps
        intro!: refusedI)
qed

lemma relation_blocked:
  assumes "read_optional_string a = Some t \<or> read_optional_string b = Some t"
    and "t \<in> set (tr_blocked s)"
  shows "refused (validate_thread_relation s a p b)"
  using assms
  by (auto simp: validate_thread_relation_def outcome_simps intro!: refusedI split: option.splits)

lemma prepare_blocked:
  assumes "request_source q = Some t" and "t \<in> set (tr_blocked s)"
    and "\<not> overrides_thread_id q \<or> web_source (thread_of s (Some t))"
  shows "refused (prepare_thread_lifecycle s q)"
proof (rule refusedI)
  fix x
  show "prepare_thread_lifecycle s q \<noteq> Inr x"
  proof
    assume "prepare_thread_lifecycle s q = Inr x"
    then obtain y s' where "prepare_thread_lifecycle s q = Inr (y, s')" by (cases x) simp
    then show False
      by (rule prepare_Inr) (use assms in \<open>auto simp: assert_source_available_def\<close>)
  qed
qed

text \<open>A blocked thread keeps the pin it has, or loses it by being forgotten; it never gains one.\<close>

lemma run_blocked_route:
  "router_run s es s' \<Longrightarrow> t \<in> set (tr_blocked s) \<Longrightarrow>
   map_of (tr_threads s') t = None \<or> map_of (tr_threads s') t = map_of (tr_threads s) t"
proof (induction rule: router_run.induct)
  case (step s e s' es s'')
  have b: "t \<in> set (tr_blocked s')" using step_blocked [OF step.hyps(1)] step.prems by blast
  have "map_of (tr_threads s') t = None \<or> map_of (tr_threads s') t = map_of (tr_threads s) t"
  proof (cases "map_of (tr_threads s) t")
    case None
    then show ?thesis using step_blocked_unpinned [OF step.hyps(1) step.prems] by simp
  next
    case (Some r)
    then show ?thesis
      using step_pinned [OF step.hyps(1) Some] step.hyps(1)
      by (cases "e = Forget t") (auto elim!: router_stepE simp: forget_thread_def map_of_alist_delete)
  qed
  with step.IH [OF b] show ?case by auto
qed simp

section \<open>Undoing a prepared request\<close>

lemma quarantine_undone:
  assumes "counts_ok (tr_provisional s)"
  shows "release_thread_quarantine q (quarantine_thread q s) = s"
proof (cases q)
  case (Some t)
  show ?thesis
  proof (cases "map_of (tr_provisional s) t")
    case None
    with Some show ?thesis
      by (simp add: quarantine_thread_def release_thread_quarantine_def map_of_alist_update
          delete_update_absent)
  next
    case n: (Some n)
    with assms have "0 < n" by (cases n) (auto simp: counts_ok_def)
    with Some n show ?thesis
      by (simp add: quarantine_thread_def release_thread_quarantine_def map_of_alist_update
          update_present_twice update_same_value)
  qed
qed (simp add: quarantine_thread_def release_thread_quarantine_def)

lemma pending_undone:
  assumes inv: "counts_ok (tr_provisional s)" and fresh: "map_of (tr_pending s) k = None"
  shows "release_pending k p (commit_pending k p s) = s"
proof -
  have del: "AList.delete k (AList.update k p (tr_pending s)) = tr_pending s"
    using fresh by (rule delete_update_absent)
  have prov: "tr_provisional (release_pending k p (commit_pending k p s)) =
      tr_provisional (release_thread_quarantine (pd_quarantined p) (quarantine_thread (pd_quarantined p) s))"
    by (simp add: release_pending_def commit_pending_def Let_def release_thread_quarantine_def
        quarantine_thread_def split: option.split)
  show ?thesis
    using del prov quarantine_undone [OF inv]
    by (intro thread_router.equality) simp_all
qed

section \<open>A router with one Web thread\<close>

text \<open>The concrete router, requests and response the witnesses below are evaluated on.\<close>

definition sample_public :: jstr where "sample_public = js ''gptsessionbridge/web/gpt-5''"

definition sample_provider :: jstr where
  "sample_provider = js ''gptsessionbridge/web/route-v1-'' @ replicate 43 65"

definition sample_definition :: raw_route_definition where
  "sample_definition =
     \<lparr>raw_catalog_revision = JStr (js ''rev-1''), raw_default_effort = JStr (js ''medium''),
      raw_provider_model = JStr sample_provider, raw_public_model = JStr sample_public,
      raw_supported_efforts = JArr [JStr (js ''low''), JStr (js ''medium'')]\<rparr>"

definition sample_url :: url where
  "sample_url =
     \<lparr>url_protocol = js ''http:'', url_hostname = js ''127.0.0.1'', url_port = js ''4141'',
      url_username = [], url_password = [], url_search = [], url_hash = [],
      url_pathname = js ''/v1'', url_text = js ''http://127.0.0.1:4141/v1''\<rparr>"

definition sample_registry :: model_registry where
  "sample_registry = Fixed_Models
     [(sample_public,
       \<lparr>rd_catalog_revision = js ''rev-1'', rd_default_effort = js ''medium'',
        rd_provider_model = sample_provider, rd_public_model = sample_public,
        rd_supported_efforts = [js ''low'', js ''medium'']\<rparr>)]"

definition sample_parse :: "jstr \<Rightarrow> url option" where
  "sample_parse _ = Some sample_url"

definition sample_router :: thread_router where
  "sample_router =
     \<lparr>tr_config = \<lparr>pc_base_url = js ''http://127.0.0.1:4141/v1'', pc_token = DUMMY_TOKEN,
                   pc_max_pending = 256, pc_max_threads = 8\<rparr>,
      tr_blocked = [], tr_models = sample_registry, tr_pending = [], tr_provisional = [],
      tr_threads = [], tr_reservations = 0, tr_compromised = False\<rparr>"

definition sample_route :: pinned_route where
  "sample_route =
     \<lparr>pr_catalog_revision = Some (js ''rev-1''), pr_kind = Web, pr_model = Some sample_public,
      pr_model_provider = Some WEB_MODEL_PROVIDER_ID, pr_provider_model = Some sample_provider,
      pr_effort = Some (js ''medium'')\<rparr>"

definition sample_pending :: thread_router where
  "sample_pending = sample_router
     \<lparr>tr_pending := [(js ''client-to-server:number:7'',
        \<lparr>pd_expected_fork_source = None, pd_expected_resume = None, pd_quarantined = None,
         pd_requires_new_thread = True, pd_requires_fork_source = False,
         pd_reserves_slot = True, pd_route = sample_route\<rparr>)],
      tr_reservations := 1\<rparr>"

definition sample_pinned :: thread_router where
  "sample_pinned = sample_router\<lparr>tr_threads := [(js ''t1'', sample_route)]\<rparr>"

definition sample_start :: lifecycle_request where
  "sample_start =
     \<lparr>lr_catalog_revision = None, lr_direction = Client_To_Server, lr_id = JNum (NInt 7),
      lr_method = Thread_Start,
      lr_params = JObj [(js ''model'', JStr sample_public),
                        (js ''config'', JObj [(js ''sandbox_mode'', JStr (js ''read-only''))])]\<rparr>"

definition sample_native_start :: lifecycle_request where
  "sample_native_start =
     \<lparr>lr_catalog_revision = None, lr_direction = Client_To_Server, lr_id = JStr (js ''n1''),
      lr_method = Thread_Start, lr_params = JObj [(js ''model'', JStr (js ''gpt-5-codex''))]\<rparr>"

definition sample_response :: jval where
  "sample_response = JObj
     [(js ''id'', JNum (NInt 7)),
      (js ''result'', JObj
         [(js ''model'', JStr sample_provider),
          (js ''modelProvider'', JStr WEB_MODEL_PROVIDER_ID),
          (js ''reasoningEffort'', JStr (js ''medium'')),
          (js ''thread'', JObj [(js ''id'', JStr (js ''t1'')), (js ''modelProvider'', JStr WEB_MODEL_PROVIDER_ID)])])]"

definition sample_turn :: jval where
  "sample_turn = JObj
     [(js ''threadId'', JStr (js ''t1'')), (js ''model'', JStr sample_public),
      (js ''collaborationMode'', JObj [(js ''settings'', JObj [(js ''model'', JNull)])])]"

lemma sample_built:
  "new_thread_router sample_parse (js ''http://127.0.0.1:4141/v1'') (JStr DUMMY_TOKEN)
     None (Some (NInt 8)) sample_registry = Inr sample_router"
  by code_simp

lemma sample_registry_ok: "well_formed_registry sample_registry"
proof -
  have "new_fixed_registry [sample_definition] (NInt 64) = Inr sample_registry" by code_simp
  then show ?thesis by (rule new_fixed_registry_well_formed)
qed

lemma sample_router_inv: "router_inv sample_router"
  using new_router_inv [OF sample_built sample_registry_ok] .

lemma sample_prepared:
  "\<exists>x. prepare_thread_lifecycle sample_router sample_start = Inr (x, sample_pending) \<and> pl_route x = Web"
proof -
  have "(case prepare_thread_lifecycle sample_router sample_start of
      Inr (x, s) \<Rightarrow> s = sample_pending \<and> pl_route x = Web | Inl _ \<Rightarrow> False)"
    by code_simp
  then show ?thesis by (auto split: sum.splits)
qed

lemma sample_settled:
  "settle_thread_lifecycle sample_pending Client_To_Server sample_response =
     (Inr (Settled_Committed sample_route), sample_pinned)"
  by code_simp

lemma sample_run:
  "router_run sample_router [Prepare sample_start, Settle Client_To_Server sample_response] sample_pinned"
proof -
  have "router_step sample_router (Prepare sample_start) sample_pending"
    using sample_prepared by (auto intro: prepared)
  moreover have "router_step sample_pending (Settle Client_To_Server sample_response) sample_pinned"
    by (rule settled [OF sample_settled])
  ultimately show ?thesis by (auto intro: router_run.intros)
qed

lemma sample_pinned_inv: "router_inv sample_pinned"
  by (rule router_run_inv [OF sample_run sample_router_inv])

lemma sample_pinned_route: "map_of (tr_threads sample_pinned) (js ''t1'') = Some sample_route"
  by (simp add: sample_pinned_def)

section \<open>Properties\<close>

text \<open>
  C1. Whatever sequence of requests, responses, discards, clears, forgets and catalog changes a
  freshly built router sees, its bookkeeping stays exact: pending requests, pinned threads and
  blocked threads stay within their capacities, the reservation counter is the number of pending
  requests that reserve a slot, every quarantine count is the number of pending requests that
  hold the thread, and every pinned or pending route is a complete Web or native route.
\<close>

theorem router_bookkeeping_exact:
  assumes "new_thread_router parse_url base_url token max_pending max_threads m = Inr s0"
    and "well_formed_registry m" and "router_run s0 es s"
  shows "router_inv s"
  using new_router_inv [OF assms(1,2)] assms(3) by (rule router_run_inv [rotated])

theorem router_bookkeeping_exact_witness:
  "router_inv sample_pinned \<and> map_of (tr_threads sample_pinned) (js ''t1'') = Some sample_route"
proof -
  show ?thesis
    using router_bookkeeping_exact [OF sample_built sample_registry_ok sample_run] sample_pinned_route
    by simp
qed

text \<open>
  C2. A pinned route is permanent: once a thread is pinned, no sequence of operations changes or
  drops its route, except forgetting that very thread.
\<close>

theorem pinned_route_permanent:
  assumes "router_run s es s'" and "get_thread_route s t = Some r" and "Forget t \<notin> set es"
  shows "get_thread_route s' t = Some r"
  using run_pinned [OF assms(1)] assms(2,3) by (simp add: get_thread_route_def)

theorem pinned_route_permanent_witness:
  "get_thread_route (snd (clear_pending sample_pinned)) (js ''t1'') = Some sample_route"
proof -
  have "router_run sample_pinned [Clear] (snd (clear_pending sample_pinned))"
    by (rule router_run.step [OF cleared router_run.stay]) (simp add: clear_pending_def)
  from pinned_route_permanent [OF this, of "js ''t1''" sample_route] show ?thesis
    by (simp add: get_thread_route_def sample_pinned_route)
qed

text \<open>
  C3. A blocked thread stays out: no sequence of operations unblocks it, and none gives it a
  route it did not have when it was blocked (its route stays or is forgotten). Pinned or not, every
  operation that is asked about it refuses: turns, reviews and realtime sessions that name it, the
  identity and unsupported-method checks of any request that refers to it (as ancestor, parent,
  conversation, page boundary or list element), thread relations it is an end of, and the start,
  resumption or fork of a thread that has it as its source. The one exception is the code's own: a
  resumption or fork whose history or path overrides the thread id is not about the
  thread, unless that is pinned to the Web.
\<close>

theorem blocked_thread_excluded:
  assumes "router_run s es s'" and "t \<in> set (tr_blocked s)"
  shows "t \<in> set (tr_blocked s')
    \<and> (get_thread_route s' t = None \<or> get_thread_route s' t = get_thread_route s t)
    \<and> (named_thread v = Some t \<longrightarrow>
         refused (validate_thread_bound s' v) \<and> refused (validate_review_start s' v)
         \<and> refused (validate_realtime_start s' v))
    \<and> (references_thread v t \<longrightarrow>
         refused (validate_thread_identity s' v) \<and> refused (validate_unsupported_web_operation s' v))
    \<and> (read_optional_string child = Some t \<or> read_optional_string parent = Some t \<longrightarrow>
         refused (validate_thread_relation s' child provider parent))
    \<and> (request_source q = Some t
         \<and> (\<not> overrides_thread_id q \<or> web_source (thread_of s' (Some t))) \<longrightarrow>
         refused (prepare_thread_lifecycle s' q))"
proof -
  have "t \<in> set (tr_blocked s')" using run_blocked [OF assms(1)] assms(2) by blast
  then show ?thesis
    using run_blocked_route [OF assms] bound_blocked identity_blocked relation_blocked prepare_blocked
    by (auto simp: get_thread_route_def)
qed

text \<open>The thread a failed resumption left blocked, and the refusal of the next turn on it.\<close>

definition sample_blocked :: thread_router where
  "sample_blocked = block_thread (Some (js ''t9'')) sample_router"

theorem blocked_thread_excluded_witness:
  "js ''t9'' \<in> set (tr_blocked (snd (clear_pending sample_blocked)))
   \<and> refused (validate_thread_bound (snd (clear_pending sample_blocked))
                (JObj [(js ''threadId'', JStr (js ''t9''))]))
   \<and> refused (validate_thread_identity (snd (clear_pending sample_blocked))
                (JObj [(js ''threadId'', JStr (js ''t9''))]))"
proof -
  have run: "router_run sample_blocked [Clear] (snd (clear_pending sample_blocked))"
    by (rule router_run.step [OF cleared router_run.stay]) (simp add: clear_pending_def)
  have b: "js ''t9'' \<in> set (tr_blocked sample_blocked)" by code_simp
  have "named_thread (JObj [(js ''threadId'', JStr (js ''t9''))]) = Some (js ''t9'')"
    and "references_thread (JObj [(js ''threadId'', JStr (js ''t9''))]) (js ''t9'')" by code_simp+
  with blocked_thread_excluded [OF run b] show ?thesis by blast
qed

text \<open>
  C4. Every prepared Web request is isolated. The decision kept for its response is a Web route:
  the one the request's thread is pinned to, or, for a new thread, the current catalog entry of
  the public model the request names, with the requested effort or the default. The rewritten
  parameters select the private provider model and the effort of exactly that decision, the local
  provider with this router's own base URL and token, no fallback, no proxy and no retries, and
  their configuration table has no other key that could define, shadow or reconfigure a model
  provider.
\<close>

theorem prepared_web_request_isolated:
  assumes "router_inv s" and "prepare_thread_lifecycle s q = Inr (x, s')" and "pl_route x = Web"
  shows "\<exists>p r m e config. pl_params x = JObj r
    \<and> map_of (tr_pending s') (pl_request_key x) = Some p
    \<and> pr_provider_model (pd_route p) = Some m \<and> pr_effort (pd_route p) = Some e
    \<and> decided_web_route s q (pd_route p)
    \<and> is_canonical_web_provider_model_reference (JStr m)
    \<and> field r ''model'' = JStr m
    \<and> field r ''modelProvider'' = JStr WEB_MODEL_PROVIDER_ID
    \<and> field r ''allowProviderModelFallback'' = JBool False
    \<and> field r ''config'' = JObj config \<and> isolated_config (tr_config s) m e config"
  using assms by (rule prepared_web_facts)

theorem prepared_web_request_isolated_witness:
  "\<exists>x r config. prepare_thread_lifecycle sample_router sample_start = Inr (x, sample_pending)
     \<and> pl_params x = JObj r \<and> field r ''config'' = JObj config
     \<and> field config ''model_providers.gptsessionbridge_web.experimental_bearer_token'' = JStr DUMMY_TOKEN"
proof -
  obtain x where x: "prepare_thread_lifecycle sample_router sample_start = Inr (x, sample_pending)"
    and web: "pl_route x = Web"
    using sample_prepared by blast
  have "pc_token (tr_config sample_router) = DUMMY_TOKEN" by (simp add: sample_router_def)
  with prepared_web_request_isolated [OF sample_router_inv x web] x show ?thesis
    by (auto simp: isolated_config_def)
qed

text \<open>
  C5. A request that is passed on as native never reaches the Web provider: its parameters are
  unchanged, they define no entry of the reserved provider and do not select it, the model they
  name is outside the reserved namespace (in any casing, after leading white space), and the
  thread they name is not pinned to the Web.
\<close>

theorem prepared_native_request_closed:
  assumes "prepare_thread_lifecycle s q = Inr (x, s')" and "pl_route x = Native"
  shows "pl_params x = lr_params q
    \<and> \<not> web_source (thread_of s (request_source q))
    \<and> assert_no_reserved_provider_definitions (request_params q) = Inr ()
    \<and> (\<exists>m p. read_lifecycle_model (request_params q) = Inr m
         \<and> \<not> is_reserved_web_model_reference (nullable m)
         \<and> read_selected_provider (request_params q) = Inr p \<and> p \<noteq> Some WEB_MODEL_PROVIDER_ID)"
  using assms by (rule prepared_native_facts)

theorem prepared_native_request_closed_witness:
  "\<exists>x s. prepare_thread_lifecycle sample_router sample_native_start = Inr (x, s)
     \<and> pl_params x = lr_params sample_native_start"
proof -
  have "(case prepare_thread_lifecycle sample_router sample_native_start of
      Inr (x, s) \<Rightarrow> pl_route x = Native | Inl _ \<Rightarrow> False)"
    by code_simp
  then obtain x s where "prepare_thread_lifecycle sample_router sample_native_start = Inr (x, s)"
    and "pl_route x = Native"
    by (auto split: sum.splits)
  with prepared_native_request_closed [OF this] show ?thesis by blast
qed

text \<open>
  A settlement pins a thread only on matching evidence: the response answers a pending request
  of the same direction and id, names a valid thread (for a Web decision under the pinned model
  and provider), is the resumed thread when one was asked for, and is neither blocked nor pinned
  to another route; then exactly that thread is pinned, to a sound route of the decided kind
  (for a Web decision the decided route itself), and the pending entry is gone.
\<close>

theorem settlement_pins_only_matching:
  assumes "router_inv s" and "settle_thread_lifecycle s d v = (Inr (Settled_Committed c), s')"
  shows "\<exists>key p response t. v = JObj response
    \<and> serialize_directional_request_id d (field response ''id'') = Inr key
    \<and> map_of (tr_pending s) key = Some p \<and> map_of (tr_pending s') key = None
    \<and> read_response_thread_id response (pd_route p) = Some t
    \<and> (pd_expected_resume p = None \<or> pd_expected_resume p = Some t)
    \<and> t \<notin> set (tr_blocked s')
    \<and> (\<forall>u. map_of (tr_threads s') u = (if u = t then Some c else map_of (tr_threads s) u))
    \<and> sound_route c \<and> pr_kind c = pr_kind (pd_route p)
    \<and> (pr_kind c = Web \<longrightarrow> c = pd_route p)"
  using assms by (rule settlement_facts)

theorem settlement_pins_only_matching_witness:
  "settle_thread_lifecycle sample_pending Client_To_Server sample_response =
     (Inr (Settled_Committed sample_route), sample_pinned) \<and> sound_route sample_route"
proof -
  obtain x where "prepare_thread_lifecycle sample_router sample_start = Inr (x, sample_pending)"
    using sample_prepared by blast
  from prepare_inv [OF sample_router_inv this] show ?thesis
    using settlement_pins_only_matching [OF _ sample_settled] sample_settled by blast
qed

text \<open>
  The key of a pending request identifies it: two requests share a key only when they have the
  same direction and the same id (the number zero having two spellings, 0 and -0). A string
  id can never pass for a number, nor one with separators in it for another.
\<close>

theorem request_key_identifies:
  assumes "serialize_directional_request_id d v = Inr k"
    and "serialize_directional_request_id e w = Inr k"
  shows "d = e \<and> same_request_id v w"
  using assms by (rule request_key_shared)

theorem request_key_identifies_witness:
  "\<exists>k. serialize_directional_request_id Client_To_Server (JStr (js ''1:a'')) = Inr k
     \<and> same_request_id (JStr (js ''1:a'')) (JStr (js ''1:a''))"
proof -
  have "serialize_directional_request_id Client_To_Server (JStr (js ''1:a''))
      = Inr (js ''client-to-server:string:3:1:a'')" by code_simp
  with request_key_identifies [OF this this] show ?thesis by blast
qed

text \<open>
  C6. Discarding a request undoes its preparation completely: the router is again in the very
  state it had before, reservations and quarantine included.
\<close>

theorem discard_undoes_prepare:
  assumes "router_inv s" and "prepare_thread_lifecycle s q = Inr (x, s')"
  shows "discard_pending s' (lr_direction q) (lr_id q) = Inr (True, s)"
proof (rule prepare_Inr [OF assms(2)])
  fix d
  assume key: "serialize_directional_request_id (lr_direction q) (lr_id q) = Inr (pl_request_key x)"
    and fresh: "map_of (tr_pending s) (pl_request_key x) = None"
    and s': "s' = commit_pending (pl_request_key x) (pending_of s q d) s"
  have "counts_ok (tr_provisional s)" using assms(1) by (simp add: router_inv_def)
  with pending_undone [OF this fresh] key show ?thesis
    by (simp add: s' discard_pending_def map_of_alist_update)
qed

theorem discard_undoes_prepare_witness:
  "discard_pending sample_pending Client_To_Server (JNum (NInt 7)) = Inr (True, sample_router)"
proof -
  obtain x where "prepare_thread_lifecycle sample_router sample_start = Inr (x, sample_pending)"
    using sample_prepared by blast
  from discard_undoes_prepare [OF sample_router_inv this] show ?thesis
    by (simp add: sample_start_def)
qed

text \<open>
  C7. The scan for private material is exact: it clears a value precisely when the value has at
  most 16384 nodes and neither the capability token nor the base URL occurs inside any string or
  key anywhere in it; anything larger is treated as a leak.
\<close>

theorem private_material_scan_exact:
  "\<not> contains_private_provider_material s v \<longleftrightarrow>
     node_count v \<le> MAX_PRIVATE_MATERIAL_SCAN_NODES
     \<and> \<not> (\<exists>str. str \<in> set (strings_of v)
             \<and> (has_substring str (pc_token (tr_config s)) \<or> has_substring str (pc_base_url (tr_config s))))"
  using scan_exact [of 0 "tr_config s" "[v]"]
  by (auto simp: contains_private_provider_material_def leaks_secret_def)

text \<open>
  A request bound to a Web thread is rewritten to the pinned selection: whatever model and
  effort it named, what is forwarded names the pinned private model and effort, in its own fields
  and in the nested collaboration settings when there are any.
\<close>

theorem bound_web_request_pinned:
  assumes "router_inv s" and "validate_thread_bound s v = Inr w"
    and "read_optional_string (opt_field (read_data_record v) ''threadId'') = Some t"
    and "map_of (tr_threads s) t = Some p" and "pr_kind p = Web"
  shows "\<exists>r m e. w = JObj r \<and> pr_provider_model p = Some m \<and> pr_effort p = Some e
    \<and> field r ''model'' = JStr m \<and> field r ''effort'' = JStr e \<and> pinned_settings m e r"
  using assms by (rule bound_web_facts)

theorem bound_web_request_pinned_witness:
  "\<exists>r. validate_thread_bound sample_pinned sample_turn = Inr (JObj r)
     \<and> field r ''effort'' = JStr (js ''medium'')"
proof -
  have "(case validate_thread_bound sample_pinned sample_turn of Inr _ \<Rightarrow> True | Inl _ \<Rightarrow> False)"
    by code_simp
  then obtain w where w: "validate_thread_bound sample_pinned sample_turn = Inr w"
    by (auto split: sum.splits)
  have t: "read_optional_string (opt_field (read_data_record sample_turn) ''threadId'') = Some (js ''t1'')"
    by code_simp
  have "pr_kind sample_route = Web" and "pr_effort sample_route = Some (js ''medium'')"
    by (simp_all add: sample_route_def)
  with bound_web_request_pinned [OF sample_pinned_inv w t sample_pinned_route] w show ?thesis by auto
qed

end
