(* ===== verification/Cursor_Store.thy ===== *)
theory Cursor_Store
  imports Web_Namespace
begin

text \<open>
  The store of opaque catalog cursors (\<open>packages/core/src/catalog/opaque-cursor-store.ts\<close>) and
  the error codes of the catalog (\<open>catalog/errors.ts\<close>). The injected clock and entropy source
  are arguments of each call: the clock's answer, and the entropy source's answer to each
  attempt. An operation that can throw after it has changed the store returns both.
\<close>

datatype catalog_error =
    Cursor_Expired
  | Cursor_Generation_Failed
  | Catalog_Invalid_Configuration
  | Invalid_Cursor
  | Invalid_Limit
  | Invalid_Model
  | Invalid_Model_Page
  | Model_Collision

definition MAX_CURSOR_GENERATION_ATTEMPTS :: nat where "MAX_CURSOR_GENERATION_ATTEMPTS = 8"
definition DEFAULT_CURSOR_PREFIX :: jstr where "DEFAULT_CURSOR_PREFIX = js ''gptsb:model-catalog:v1:''"

record 'a stored_cursor =
  sc_expires :: int
  sc_value :: 'a

record 'a cursor_store =
  ck_entries :: "(jstr, 'a stored_cursor) jsmap"
  ck_max :: nat
  ck_prefix :: jstr
  ck_ttl :: int

section \<open>Operations\<close>

text \<open>\<open>assertPositiveSafeInteger\<close>, answering the integer it accepts.\<close>

definition positive_safe_integer :: "jnum \<Rightarrow> (catalog_error, int) result" where
  "positive_safe_integer n =
     (case n of
        NInt i \<Rightarrow> if is_safe_integer n \<and> 0 < i then return i else throw Catalog_Invalid_Configuration
      | _ \<Rightarrow> throw Catalog_Invalid_Configuration)"

definition new_cursor_store ::
    "jnum \<Rightarrow> jnum \<Rightarrow> jstr option \<Rightarrow> (catalog_error, 'a cursor_store) result" where
  "new_cursor_store max_entries ttl_ms prefix_option =
     and_then (positive_safe_integer max_entries) (\<lambda>m.
     and_then (positive_safe_integer ttl_ms) (\<lambda>ttl.
     let p = (case prefix_option of None \<Rightarrow> DEFAULT_CURSOR_PREFIX | Some p \<Rightarrow> p) in
     and_then (reject_if (length p = 0 \<or> 128 < length p) Catalog_Invalid_Configuration) (\<lambda>_.
     return \<lparr>ck_entries = [], ck_max = nat m, ck_prefix = p, ck_ttl = ttl\<rparr>)))"

definition valid_entropy :: "jval \<Rightarrow> jstr option" where
  "valid_entropy v =
     (case v of
        JStr s \<Rightarrow>
          if 16 \<le> length s \<and> length s \<le> 256 \<and> list_all is_base64url_unit s then Some s else None
      | _ \<Rightarrow> None)"

definition safe_expiry :: "int \<Rightarrow> int \<Rightarrow> (catalog_error, int) result" where
  "safe_expiry now ttl =
     (if max_safe_integer < now + ttl then throw Catalog_Invalid_Configuration else return (now + ttl))"

definition read_now :: "jnum \<Rightarrow> (catalog_error, int) result" where
  "read_now n =
     (case n of
        NInt i \<Rightarrow> if is_safe_integer n \<and> 0 \<le> i then return i else throw Catalog_Invalid_Configuration
      | NNegZero \<Rightarrow> return 0
      | _ \<Rightarrow> throw Catalog_Invalid_Configuration)"

definition prune_expired :: "int \<Rightarrow> jstr option \<Rightarrow> 'a cursor_store \<Rightarrow> 'a cursor_store" where
  "prune_expired now except s =
     s\<lparr>ck_entries := filter (\<lambda>(c, e). \<not> (Some c \<noteq> except \<and> sc_expires e \<le> now)) (ck_entries s)\<rparr>"

definition evict_oldest_if_full :: "'a cursor_store \<Rightarrow> 'a cursor_store" where
  "evict_oldest_if_full s =
     (if length (ck_entries s) < ck_max s then s
      else case ck_entries s of
          [] \<Rightarrow> s
        | (oldest, _) # _ \<Rightarrow> s\<lparr>ck_entries := AList.delete oldest (ck_entries s)\<rparr>)"

fun create_attempts ::
    "nat \<Rightarrow> nat \<Rightarrow> (nat \<Rightarrow> jval) \<Rightarrow> int \<Rightarrow> 'a \<Rightarrow> 'a cursor_store
     \<Rightarrow> (catalog_error, jstr) result \<times> 'a cursor_store" where
  "create_attempts 0 attempt random now v s = (throw Cursor_Generation_Failed, s)"
| "create_attempts (Suc left) attempt random now v s =
     (case valid_entropy (random attempt) of
        None \<Rightarrow> (throw Cursor_Generation_Failed, s)
      | Some entropy \<Rightarrow>
          let cursor = ck_prefix s @ entropy in
          if map_of (ck_entries s) cursor \<noteq> None
          then create_attempts left (Suc attempt) random now v s
          else
            let s' = evict_oldest_if_full s in
            case safe_expiry now (ck_ttl s) of
              Inl e \<Rightarrow> (throw e, s')
            | Inr expiry \<Rightarrow>
                (return cursor,
                 s'\<lparr>ck_entries := AList.update cursor \<lparr>sc_expires = expiry, sc_value = v\<rparr> (ck_entries s')\<rparr>))"

definition create_cursor ::
    "jnum \<Rightarrow> (nat \<Rightarrow> jval) \<Rightarrow> 'a \<Rightarrow> 'a cursor_store
     \<Rightarrow> (catalog_error, jstr) result \<times> 'a cursor_store" where
  "create_cursor clock random v s =
     (case read_now clock of
        Inl e \<Rightarrow> (throw e, s)
      | Inr now \<Rightarrow>
          create_attempts MAX_CURSOR_GENERATION_ATTEMPTS 0 random now v (prune_expired now None s))"

definition owns_cursor :: "'a cursor_store \<Rightarrow> jval \<Rightarrow> bool" where
  "owns_cursor s v = (case v of JStr c \<Rightarrow> prefix (ck_prefix s) c | _ \<Rightarrow> False)"

definition read_cursor ::
    "jnum \<Rightarrow> jstr \<Rightarrow> 'a cursor_store \<Rightarrow> (catalog_error, 'a) result \<times> 'a cursor_store" where
  "read_cursor clock cursor s =
     (if \<not> owns_cursor s (JStr cursor) then (throw Invalid_Cursor, s)
      else case read_now clock of
          Inl e \<Rightarrow> (throw e, s)
        | Inr now \<Rightarrow>
            (case map_of (ck_entries s) cursor of
               None \<Rightarrow> (throw Invalid_Cursor, prune_expired now None s)
             | Some stored \<Rightarrow>
                 if sc_expires stored \<le> now
                 then (throw Cursor_Expired,
                       prune_expired now None (s\<lparr>ck_entries := AList.delete cursor (ck_entries s)\<rparr>))
                 else (return (sc_value stored), prune_expired now (Some cursor) s)))"

definition active_size :: "jnum \<Rightarrow> 'a cursor_store \<Rightarrow> (catalog_error, nat) result \<times> 'a cursor_store" where
  "active_size clock s =
     (case read_now clock of
        Inl e \<Rightarrow> (throw e, s)
      | Inr now \<Rightarrow> let s' = prune_expired now None s in (return (length (ck_entries s')), s'))"

section \<open>The invariant\<close>

definition store_inv :: "'a cursor_store \<Rightarrow> bool" where
  "store_inv s \<longleftrightarrow>
     distinct (map fst (ck_entries s)) \<and> 0 < ck_max s \<and> length (ck_entries s) \<le> ck_max s
     \<and> 0 < ck_ttl s \<and> 0 < length (ck_prefix s) \<and> length (ck_prefix s) \<le> 128 \<and> (\<forall>c \<in> fst ` set (ck_entries s). prefix (ck_prefix s) c)"

lemma new_cursor_store_inv: "new_cursor_store m t p = Inr s \<Longrightarrow> store_inv s"
  by (auto simp: new_cursor_store_def positive_safe_integer_def store_inv_def outcome_simps Let_def
      split: jnum.splits if_splits)

text \<open>Only the entries change; what prunes or evicts keeps a part of them.\<close>

lemma store_frame [simp]:
  "ck_max (prune_expired now except s) = ck_max s"
  "ck_prefix (prune_expired now except s) = ck_prefix s"
  "ck_ttl (prune_expired now except s) = ck_ttl s"
  "ck_max (evict_oldest_if_full s) = ck_max s"
  "ck_prefix (evict_oldest_if_full s) = ck_prefix s"
  "ck_ttl (evict_oldest_if_full s) = ck_ttl s"
  by (simp_all add: prune_expired_def evict_oldest_if_full_def split: list.split)

lemma distinct_fst_filter: "distinct (map fst m) \<Longrightarrow> distinct (map fst (filter P m))"
  by (induction m) auto

lemma map_of_filter_key:
  "distinct (map fst m) \<Longrightarrow>
   map_of (filter (\<lambda>(k, v). P k v) m) k = (case map_of m k of None \<Rightarrow> None | Some v \<Rightarrow> if P k v then Some v else None)"
proof (induction m)
  case (Cons x m)
  obtain a b where x: "x = (a, b)" by (cases x)
  have "map_of m a = None" using Cons.prems by (auto simp: x map_of_eq_None_iff)
  with Cons show ?case by (auto simp: x split: option.splits)
qed simp

lemma prune_inv: "store_inv s \<Longrightarrow> store_inv (prune_expired now except s)"
  unfolding store_inv_def
  by (auto simp: prune_expired_def distinct_fst_filter intro: order.trans [OF length_filter_le])

lemma delete_entry_inv:
  assumes "store_inv s"
  shows "store_inv (s\<lparr>ck_entries := AList.delete c (ck_entries s)\<rparr>)"
proof -
  have "\<forall>x \<in> set (AList.delete c (ck_entries s)). x \<in> set (ck_entries s)"
    by (simp add: AList.delete_eq)
  then show ?thesis
    using assms jsmap.remove_within [of "ck_entries s" "ck_max s" c]
    by (auto simp: store_inv_def distinct_delete)
qed

lemma evict_inv:
  assumes "store_inv s"
  shows "store_inv (evict_oldest_if_full s)" and "length (ck_entries (evict_oldest_if_full s)) < ck_max s"
proof -
  show "store_inv (evict_oldest_if_full s)"
  proof (cases "ck_entries s")
    case (Cons x xs)
    with assms delete_entry_inv [OF assms, of "fst x"] show ?thesis
      by (cases x) (simp add: evict_oldest_if_full_def)
  qed (use assms in \<open>simp add: evict_oldest_if_full_def\<close>)
  show "length (ck_entries (evict_oldest_if_full s)) < ck_max s"
    using assms length_alist_delete [of "ck_entries s"]
    by (auto simp: store_inv_def evict_oldest_if_full_def split: list.splits)
qed

text \<open>A store after a cursor was put into it.\<close>

definition stored_after :: "int \<Rightarrow> 'a \<Rightarrow> jstr \<Rightarrow> 'a cursor_store \<Rightarrow> 'a cursor_store" where
  "stored_after now v c s =
     (let s' = evict_oldest_if_full s in
      s'\<lparr>ck_entries := AList.update c \<lparr>sc_expires = now + ck_ttl s, sc_value = v\<rparr> (ck_entries s')\<rparr>)"

lemma create_attempts_result:
  "create_attempts left attempt random now v s = (r, s') \<Longrightarrow>
   ((\<exists>e. r = Inl e) \<and> (s' = s \<or> s' = evict_oldest_if_full s))
   \<or> (\<exists>k entropy. valid_entropy (random k) = Some entropy \<and> k < attempt + left
        \<and> r = Inr (ck_prefix s @ entropy) \<and> map_of (ck_entries s) (ck_prefix s @ entropy) = None
        \<and> now + ck_ttl s \<le> max_safe_integer \<and> s' = stored_after now v (ck_prefix s @ entropy) s)"
proof (induction left arbitrary: attempt)
  case (Suc left)
  show ?case
  proof (cases "valid_entropy (random attempt)")
    case None
    with Suc.prems show ?thesis by auto
  next
    case entropy: (Some entropy)
    show ?thesis
    proof (cases "map_of (ck_entries s) (ck_prefix s @ entropy)")
      case None
      show ?thesis
      proof (cases "max_safe_integer < now + ck_ttl s")
        case True
        with entropy None Suc.prems show ?thesis by (auto simp: safe_expiry_def Let_def)
      next
        case False
        with entropy None Suc.prems
        have "r = Inr (ck_prefix s @ entropy)" and "s' = stored_after now v (ck_prefix s @ entropy) s"
          by (auto simp: safe_expiry_def stored_after_def Let_def)
        moreover have "attempt < attempt + Suc left" and "now + ck_ttl s \<le> max_safe_integer"
          using False by simp_all
        ultimately show ?thesis using entropy None by blast
      qed
    next
      case (Some x)
      with entropy Suc.prems have "create_attempts left (Suc attempt) random now v s = (r, s')"
        by (simp add: Let_def)
      from Suc.IH [OF this] show ?thesis by (simp add: add_Suc_shift)
    qed
  qed
qed auto

lemma stored_after_inv:
  assumes "store_inv s" and "prefix (ck_prefix s) c"
  shows "store_inv (stored_after now v c s)"
  using evict_inv [OF assms(1)] assms(2)
  by (auto simp: store_inv_def stored_after_def Let_def distinct_update length_alist_update dom_update)

lemma stored_after_lookup:
  "map_of (ck_entries (stored_after now v c s)) c = Some \<lparr>sc_expires = now + ck_ttl s, sc_value = v\<rparr>"
  by (simp add: stored_after_def Let_def map_of_alist_update)

lemma stored_after_frame [simp]:
  "ck_max (stored_after now v c s) = ck_max s"
  "ck_prefix (stored_after now v c s) = ck_prefix s"
  "ck_ttl (stored_after now v c s) = ck_ttl s"
  by (simp_all add: stored_after_def Let_def)

text \<open>The three outcomes of \<open>create\<close>.\<close>

lemma create_cursor_cases:
  assumes "create_cursor clock random v s = (r, s')"
  obtains (no_clock) e where "read_now clock = Inl e" and "r = Inl e" and "s' = s"
    | (failed) now where "read_now clock = Inr now" and "\<exists>e. r = Inl e"
        and "s' = prune_expired now None s \<or> s' = evict_oldest_if_full (prune_expired now None s)"
    | (created) now k entropy where "read_now clock = Inr now"
        and "valid_entropy (random k) = Some entropy" and "k < MAX_CURSOR_GENERATION_ATTEMPTS"
        and "r = Inr (ck_prefix s @ entropy)"
        and "map_of (ck_entries (prune_expired now None s)) (ck_prefix s @ entropy) = None"
        and "now + ck_ttl s \<le> max_safe_integer"
        and "s' = stored_after now v (ck_prefix s @ entropy) (prune_expired now None s)"
proof (cases "read_now clock")
  case (Inl e)
  with assms no_clock show ?thesis by (simp add: create_cursor_def)
next
  case (Inr now)
  with assms have "create_attempts MAX_CURSOR_GENERATION_ATTEMPTS 0 random now v (prune_expired now None s) = (r, s')"
    by (simp add: create_cursor_def)
  from create_attempts_result [OF this] show ?thesis
    using failed [OF Inr] created [OF Inr] by auto
qed

lemma create_cursor_inv:
  assumes "store_inv s" and "create_cursor clock random v s = (r, s')"
  shows "store_inv s'"
  using assms(2)
proof (cases rule: create_cursor_cases)
  case (failed now)
  then show ?thesis using prune_inv [OF assms(1)] evict_inv(1) by blast
next
  case (created now k entropy)
  then show ?thesis using stored_after_inv [OF prune_inv [OF assms(1)]] by simp
qed (use assms in simp)

lemma read_cursor_inv:
  assumes "store_inv s" and "read_cursor clock c s = (r, s')"
  shows "store_inv s'"
  using assms delete_entry_inv [OF assms(1), of c]
  by (auto simp: read_cursor_def prune_inv split: if_splits sum.splits option.splits)

lemma active_size_inv: "store_inv s \<Longrightarrow> active_size clock s = (r, s') \<Longrightarrow> store_inv s'"
  by (auto simp: active_size_def prune_inv Let_def split: sum.splits)

text \<open>A first attempt with fresh entropy succeeds.\<close>

lemma create_cursor_fresh:
  assumes "read_now clock = Inr now" and "valid_entropy (random 0) = Some entropy"
    and "ck_prefix s @ entropy \<notin> fst ` set (ck_entries s)" and "now + ck_ttl s \<le> max_safe_integer"
  shows "create_cursor clock random v s =
     (Inr (ck_prefix s @ entropy), stored_after now v (ck_prefix s @ entropy) (prune_expired now None s))"
proof -
  have attempts: "MAX_CURSOR_GENERATION_ATTEMPTS = Suc 7"
    by (simp add: MAX_CURSOR_GENERATION_ATTEMPTS_def)
  have "map_of (ck_entries (prune_expired now None s)) (ck_prefix s @ entropy) = None"
    using assms(3) by (auto simp: map_of_eq_None_iff prune_expired_def)
  with assms show ?thesis
    unfolding create_cursor_def attempts create_attempts.simps(2)
    by (simp add: safe_expiry_def stored_after_def Let_def)
qed

lemma keys_prune: "fst ` set (ck_entries (prune_expired now except s)) \<subseteq> fst ` set (ck_entries s)"
  by (auto simp: prune_expired_def)

lemma keys_evict: "fst ` set (ck_entries (evict_oldest_if_full s)) \<subseteq> fst ` set (ck_entries s)"
  by (auto simp: evict_oldest_if_full_def AList.delete_eq split: list.splits if_splits)

lemma keys_stored_after:
  "fst ` set (ck_entries (stored_after now v c s)) \<subseteq> insert c (fst ` set (ck_entries s))"
  using keys_evict [of s] by (auto simp: stored_after_def Let_def dom_update)

section \<open>The values behind the cursors\<close>

definition map_store :: "('a \<Rightarrow> 'b) \<Rightarrow> 'a cursor_store \<Rightarrow> 'b cursor_store" where
  "map_store f s =
     \<lparr>ck_entries = map (\<lambda>(c, e). (c, \<lparr>sc_expires = sc_expires e, sc_value = f (sc_value e)\<rparr>)) (ck_entries s),
      ck_max = ck_max s, ck_prefix = ck_prefix s, ck_ttl = ck_ttl s\<rparr>"

abbreviation map_stored :: "('a \<Rightarrow> 'b) \<Rightarrow> 'a stored_cursor \<Rightarrow> 'b stored_cursor" where
  "map_stored f e \<equiv> \<lparr>sc_expires = sc_expires e, sc_value = f (sc_value e)\<rparr>"

lemma map_store_frame [simp]:
  "ck_max (map_store f s) = ck_max s" "ck_prefix (map_store f s) = ck_prefix s"
  "ck_ttl (map_store f s) = ck_ttl s"
  "ck_entries (map_store f s) = map (\<lambda>(c, e). (c, map_stored f e)) (ck_entries s)"
  by (simp_all add: map_store_def)

lemma map_of_map_stored:
  "map_of (map (\<lambda>(c, e). (c, map_stored f e)) m) c = map_option (map_stored f) (map_of m c)"
  by (induction m) auto

lemma update_map_stored:
  "map (\<lambda>(c, e). (c, map_stored f e)) (AList.update c e m)
     = AList.update c (map_stored f e) (map (\<lambda>(c, e). (c, map_stored f e)) m)"
  by (induction m) auto

lemma delete_map_stored:
  "map (\<lambda>(c, e). (c, map_stored f e)) (AList.delete c m)
     = AList.delete c (map (\<lambda>(c, e). (c, map_stored f e)) m)"
  by (induction m) (auto simp: AList.delete_eq)

lemma map_store_eqI:
  "ck_entries t = ck_entries (map_store f s) \<Longrightarrow> ck_max t = ck_max s \<Longrightarrow> ck_prefix t = ck_prefix s \<Longrightarrow>
   ck_ttl t = ck_ttl s \<Longrightarrow> t = map_store f s"
  by (intro cursor_store.equality) simp_all

lemma prune_map_store: "prune_expired now except (map_store f s) = map_store f (prune_expired now except s)"
  by (rule map_store_eqI) (auto simp: prune_expired_def filter_map comp_def split_def)

lemma evict_map_store: "evict_oldest_if_full (map_store f s) = map_store f (evict_oldest_if_full s)"
  by (rule map_store_eqI)
    (auto simp: evict_oldest_if_full_def delete_map_stored split: list.splits)

lemma attempts_map_store:
  "create_attempts left attempt random now (f v) (map_store f s)
     = apsnd (map_store f) (create_attempts left attempt random now v s)"
proof (induction left arbitrary: attempt)
  case (Suc left)
  have "(map_store f t)\<lparr>ck_entries := AList.update c \<lparr>sc_expires = x, sc_value = f v\<rparr> (ck_entries (map_store f t))\<rparr>
      = map_store f (t\<lparr>ck_entries := AList.update c \<lparr>sc_expires = x, sc_value = v\<rparr> (ck_entries t)\<rparr>)" for t c x
    by (rule map_store_eqI) (simp_all add: update_map_stored)
  then have upd: "(map_store f t)\<lparr>ck_entries := AList.update c \<lparr>sc_expires = x, sc_value = f v\<rparr>
        (map (\<lambda>(c, e). (c, map_stored f e)) (ck_entries t))\<rparr>
      = map_store f (t\<lparr>ck_entries := AList.update c \<lparr>sc_expires = x, sc_value = v\<rparr> (ck_entries t)\<rparr>)" for t c x
    by simp
  have mem: "map_of (ck_entries (map_store f s)) c = None \<longleftrightarrow> map_of (ck_entries s) c = None" for c
    by (simp add: map_of_map_stored)
  show ?case
  proof (cases "valid_entropy (random attempt)")
    case (Some en)
    then show ?thesis
      using mem [of "ck_prefix s @ en"] Suc
      by (cases "map_of (ck_entries s) (ck_prefix s @ en) = None"; cases "safe_expiry now (ck_ttl s)")
        (simp_all add: Let_def evict_map_store upd)
  qed simp
qed simp

inductive store_reachable :: "'a cursor_store \<Rightarrow> 'a cursor_store \<Rightarrow> bool" for s0 where
  fresh: "store_reachable s0 s0"
| create: "store_reachable s0 s \<Longrightarrow> create_cursor clock random v s = (r, s') \<Longrightarrow> store_reachable s0 s'"
| read: "store_reachable s0 s \<Longrightarrow> read_cursor clock c s = (x, s') \<Longrightarrow> store_reachable s0 s'"
| size: "store_reachable s0 s \<Longrightarrow> active_size clock s = (n, s') \<Longrightarrow> store_reachable s0 s'"

lemma store_reachable_inv: "store_reachable s0 s \<Longrightarrow> store_inv s0 \<Longrightarrow> store_inv s"
  by (induction rule: store_reachable.induct)
    (auto intro: create_cursor_inv read_cursor_inv active_size_inv)

lemma read_stored:
  assumes "map_of (ck_entries s) c = Some e" and "prefix (ck_prefix s) c" and "read_now clock = Inr t"
  shows "fst (read_cursor clock c s) = (if t < sc_expires e then Inr (sc_value e) else Inl Cursor_Expired)"
  using assms by (simp add: read_cursor_def owns_cursor_def)

section \<open>Properties\<close>

text \<open>
  A cursor is a faithful, time-limited handle: a cursor that was created belongs to the store,
  and reading it later gives back exactly the value it was created for until its time to live is
  over, and the expiry error from then on.
\<close>

theorem cursor_round_trip:
  assumes "create_cursor clock random v s = (Inr c, s')"
    and "read_now clock = Inr now" and "read_now clock' = Inr later"
  shows "owns_cursor s' (JStr c)
    \<and> fst (read_cursor clock' c s') = (if later < now + ck_ttl s then Inr v else Inl Cursor_Expired)"
  using assms(1)
proof (cases rule: create_cursor_cases)
  case (created now' k entropy)
  with assms(2) have c: "c = ck_prefix s @ entropy"
    and s': "s' = stored_after now v c (prune_expired now None s)" by auto
  have "map_of (ck_entries s') c = Some \<lparr>sc_expires = now + ck_ttl s, sc_value = v\<rparr>"
    by (simp add: s' stored_after_lookup)
  moreover have "prefix (ck_prefix s') c" by (simp add: s' c)
  ultimately show ?thesis
    using read_stored [of s' c _ clock' later] assms(3) by (simp add: owns_cursor_def)
qed auto

definition sample_entropy :: "nat \<Rightarrow> jval" where
  "sample_entropy k = JStr (replicate 16 (of_nat (97 + k)))"

definition sample_store :: "nat cursor_store" where
  "sample_store = \<lparr>ck_entries = [], ck_max = 2, ck_prefix = js ''p:'', ck_ttl = 100\<rparr>"

theorem cursor_round_trip_witness:
  "\<exists>c s'. create_cursor (NInt 5) sample_entropy 42 sample_store = (Inr c, s')
     \<and> fst (read_cursor (NInt 104) c s') = Inr 42 \<and> fst (read_cursor (NInt 105) c s') = Inl Cursor_Expired"
proof -
  have "(case create_cursor (NInt 5) sample_entropy 42 sample_store of (Inr c, s') \<Rightarrow> True | _ \<Rightarrow> False)"
    by code_simp
  then obtain c s' where c: "create_cursor (NInt 5) sample_entropy 42 sample_store = (Inr c, s')"
    by (auto split: prod.splits sum.splits)
  have "read_now (NInt 5) = Inr 5" and "read_now (NInt 104) = Inr 104" and "read_now (NInt 105) = Inr 105"
    by (simp_all add: read_now_def)
  moreover have "ck_ttl sample_store = 100" by (simp add: sample_store_def)
  ultimately show ?thesis
    using cursor_round_trip [OF c, of 5 "NInt 104" 104] cursor_round_trip [OF c, of 5 "NInt 105" 105] c
    by auto
qed

text \<open>
  The store stays bounded: whatever sequence of creations, reads and size queries it sees, it
  never holds more entries than its capacity, its cursors are distinct, and each starts with the
  store's prefix.
\<close>

theorem cursor_store_bounded:
  assumes "new_cursor_store max_entries ttl_ms prefix_option = Inr s0" and "store_reachable s0 s"
  shows "length (ck_entries s) \<le> ck_max s \<and> distinct (map fst (ck_entries s))
    \<and> (\<forall>c \<in> fst ` set (ck_entries s). owns_cursor s (JStr c))"
  using store_reachable_inv [OF assms(2) new_cursor_store_inv [OF assms(1)]]
  by (auto simp: store_inv_def owns_cursor_def)

theorem cursor_store_bounded_witness:
  "length (ck_entries (snd (create_cursor (NInt 5) sample_entropy (7 :: nat) sample_store))) \<le> 2"
proof -
  have new: "new_cursor_store (NInt 2) (NInt 100) (Some (js ''p:'')) = Inr sample_store" by code_simp
  have "store_reachable sample_store (snd (create_cursor (NInt 5) sample_entropy 7 sample_store))"
    by (rule store_reachable.create [OF store_reachable.fresh prod.collapse [symmetric]])
  from cursor_store_bounded [OF new this]
  have "length (ck_entries (snd (create_cursor (NInt 5) sample_entropy (7 :: nat) sample_store)))
      \<le> ck_max (snd (create_cursor (NInt 5) sample_entropy (7 :: nat) sample_store))" by blast
  also have "\<dots> = 2" by code_simp
  finally show ?thesis .
qed

text \<open>
  A cursor reveals nothing of the state behind it: replacing every value in the store, and the
  value to be stored, by any function of it changes neither the cursor that is handed out nor the
  error that is thrown.
\<close>

theorem cursor_independent_of_value:
  "create_cursor clock random (f v) (map_store f s) = apsnd (map_store f) (create_cursor clock random v s)"
  by (simp add: create_cursor_def prune_map_store attempts_map_store split: sum.split)

end
