(* ===== verification/Virtual_Model.thy ===== *)
theory Virtual_Model
  imports Cursor_Store
begin

text \<open>
  Public entries of Web models (\<open>packages/core/src/catalog/virtual-model.ts\<close>): the definition a
  caller configures, its validation and the catalog entry made of it.
\<close>

record reasoning_effort_option =
  ro_effort :: jstr
  ro_description :: jstr

record virtual_definition =
  vd_public_key :: jstr
  vd_display_name :: jstr
  vd_description :: jstr
  vd_efforts :: "reasoning_effort_option list"
  vd_default_effort :: jstr

text \<open>The fields of \<open>VirtualModelEntry\<close> that vary; \<open>entry_value\<close> adds the fixed ones.\<close>

record virtual_entry =
  ve_id :: jstr
  ve_model :: jstr
  ve_display_name :: jstr
  ve_description :: jstr
  ve_efforts :: "reasoning_effort_option list"
  ve_default_effort :: jstr

definition SYNTHETIC_WEB_MODEL_DEFINITION :: virtual_definition where
  "SYNTHETIC_WEB_MODEL_DEFINITION =
     \<lparr>vd_public_key = js ''gptsessionbridge/web/example-model'',
      vd_display_name = js ''Web '' @ 183 # js '' Example Model'',
      vd_description = js ''Synthetic Web route for validating the local bridge.'',
      vd_efforts =
        [\<lparr>ro_effort = js ''low'', ro_description = js ''Light reasoning''\<rparr>,
         \<lparr>ro_effort = js ''medium'', ro_description = js ''Balanced reasoning''\<rparr>,
         \<lparr>ro_effort = js ''high'', ro_description = js ''Deeper reasoning''\<rparr>],
      vd_default_effort = js ''medium''\<rparr>"

text \<open>\<open>/^[a-z][a-z0-9_-]{0,31}$/u\<close>\<close>

definition matches_effort_id :: "jstr \<Rightarrow> bool" where
  "matches_effort_id s =
     (case s of
        [] \<Rightarrow> False
      | c # r \<Rightarrow>
          is_lower_unit c \<and> length r \<le> 31
          \<and> list_all (\<lambda>d. is_lower_unit d \<or> is_digit_unit d \<or> d = 95 \<or> d = 45) r)"

definition assert_text :: "jstr \<Rightarrow> nat \<Rightarrow> nat \<Rightarrow> (catalog_error, unit) result" where
  "assert_text s lo hi = reject_if (length s < lo \<or> hi < length s \<or> trim_both s \<noteq> s) Invalid_Model"

fun validate_efforts ::
    "reasoning_effort_option list \<Rightarrow> jstr list \<Rightarrow> (catalog_error, jstr list) result" where
  "validate_efforts [] effort_ids = return effort_ids"
| "validate_efforts (e # es) effort_ids =
     and_then (reject_if (\<not> matches_effort_id (ro_effort e)) Invalid_Model) (\<lambda>_.
     and_then (assert_text (ro_description e) 1 256) (\<lambda>_.
     and_then (reject_if (ro_effort e \<in> set effort_ids) Invalid_Model) (\<lambda>_.
     validate_efforts es (set_add (ro_effort e) effort_ids))))"

definition validate_definition :: "virtual_definition \<Rightarrow> (catalog_error, unit) result" where
  "validate_definition d =
     and_then (reject_if (\<not> is_canonical_web_model_reference (JStr (vd_public_key d))) Invalid_Model) (\<lambda>_.
     and_then (assert_text (vd_display_name d) 1 128) (\<lambda>_.
     and_then (assert_text (vd_description d) 1 512) (\<lambda>_.
     and_then (reject_if (length (vd_efforts d) = 0 \<or> 16 < length (vd_efforts d)) Invalid_Model) (\<lambda>_.
     and_then (validate_efforts (vd_efforts d) []) (\<lambda>effort_ids.
     reject_if (vd_default_effort d \<notin> set effort_ids) Invalid_Model)))))"

definition create_virtual_model_entry :: "virtual_definition \<Rightarrow> (catalog_error, virtual_entry) result" where
  "create_virtual_model_entry d =
     and_then (validate_definition d) (\<lambda>_.
     return \<lparr>ve_id = vd_public_key d, ve_model = vd_public_key d,
             ve_display_name = vd_display_name d, ve_description = vd_description d,
             ve_efforts = vd_efforts d, ve_default_effort = vd_default_effort d\<rparr>)"

text \<open>The entry as the object that goes into a page, keys in the order of the source.\<close>

definition effort_value :: "reasoning_effort_option \<Rightarrow> jval" where
  "effort_value e =
     JObj [(js ''description'', JStr (ro_description e)), (js ''reasoningEffort'', JStr (ro_effort e))]"

definition entry_value :: "virtual_entry \<Rightarrow> jval" where
  "entry_value e =
     JObj
       [(js ''additionalSpeedTiers'', JArr []), (js ''availabilityNux'', JNull),
        (js ''defaultReasoningEffort'', JStr (ve_default_effort e)), (js ''defaultServiceTier'', JNull),
        (js ''description'', JStr (ve_description e)), (js ''displayName'', JStr (ve_display_name e)),
        (js ''hidden'', JBool False), (js ''id'', JStr (ve_id e)),
        (js ''inputModalities'', JArr [JStr (js ''text'')]), (js ''isDefault'', JBool False),
        (js ''model'', JStr (ve_model e)), (js ''modelSpecialty'', JNull),
        (js ''multiAgentVersion'', JNull), (js ''serviceTiers'', JArr []),
        (js ''supportedReasoningEfforts'', JArr (map effort_value (ve_efforts e))),
        (js ''supportsPersonality'', JBool False), (js ''upgrade'', JNull), (js ''upgradeInfo'', JNull)]"

section \<open>What an entry satisfies\<close>

definition well_formed_entry :: "virtual_entry \<Rightarrow> bool" where
  "well_formed_entry e \<longleftrightarrow>
     is_canonical_web_model_reference (JStr (ve_id e)) \<and> ve_model e = ve_id e
     \<and> ve_efforts e \<noteq> [] \<and> length (ve_efforts e) \<le> 16
     \<and> distinct (map ro_effort (ve_efforts e))
     \<and> (\<forall>o' \<in> set (ve_efforts e). matches_effort_id (ro_effort o'))
     \<and> ve_default_effort e \<in> set (map ro_effort (ve_efforts e))"

lemma validate_efforts_Inr:
  "validate_efforts es ids = Inr ids' \<Longrightarrow> distinct ids \<Longrightarrow>
   distinct (map ro_effort es) \<and> set (map ro_effort es) \<inter> set ids = {}
   \<and> set ids' = set ids \<union> set (map ro_effort es) \<and> (\<forall>e \<in> set es. matches_effort_id (ro_effort e))"
proof (induction es arbitrary: ids)
  case (Cons e es)
  then have "ro_effort e \<notin> set ids" and "matches_effort_id (ro_effort e)"
    and "validate_efforts es (set_add (ro_effort e) ids) = Inr ids'"
    by (auto simp: outcome_simps assert_text_def)
  with Cons.IH [of "set_add (ro_effort e) ids"] Cons.prems(2) show ?case by auto
qed simp

lemma create_entry_well_formed:
  assumes "create_virtual_model_entry d = Inr e"
  shows "well_formed_entry e"
proof -
  from assms obtain ids where "validate_efforts (vd_efforts d) [] = Inr ids"
    and "vd_default_effort d \<in> set ids"
    and "is_canonical_web_model_reference (JStr (vd_public_key d))"
    and "vd_efforts d \<noteq> []" "length (vd_efforts d) \<le> 16"
    and e: "e = \<lparr>ve_id = vd_public_key d, ve_model = vd_public_key d, ve_display_name = vd_display_name d,
       ve_description = vd_description d, ve_efforts = vd_efforts d, ve_default_effort = vd_default_effort d\<rparr>"
    by (auto simp: create_virtual_model_entry_def validate_definition_def outcome_simps not_less)
  with validate_efforts_Inr [of "vd_efforts d" "[]" ids] show ?thesis
    by (simp add: well_formed_entry_def)
qed

end
