(* ===== verification/Model_Catalog.thy ===== *)
theory Model_Catalog
  imports Virtual_Model
begin

text \<open>
  The model catalog (\<open>packages/core/src/catalog/model-catalog.ts\<close>): it forwards the pages of the
  native catalog, refuses collisions with the reserved namespace, and appends the Web models
  once the native catalog is exhausted, paging through opaque cursors. The clock and the entropy
  of the cursor store are arguments of the calls that use them.
\<close>

definition MAX_CATALOG_CURSOR_LENGTH :: nat where "MAX_CATALOG_CURSOR_LENGTH = 4096"
definition MAX_MODEL_IDENTIFIER_LENGTH :: nat where "MAX_MODEL_IDENTIFIER_LENGTH = 512"
definition MAX_NATIVE_MODELS_PER_PAGE :: nat where "MAX_NATIVE_MODELS_PER_PAGE = 4096"
definition MAX_OBSERVED_NATIVE_MODELS :: nat where "MAX_OBSERVED_NATIVE_MODELS = 4096"
definition MAX_MODEL_LIST_LIMIT :: int where "MAX_MODEL_LIST_LIMIT = 4294967295"
definition MAX_VIRTUAL_MODELS :: nat where "MAX_VIRTUAL_MODELS = 128"

record model_list_request =
  lq_cursor :: "jstr option"
  lq_include_hidden :: "bool option"
  lq_limit :: "jnum option"

record native_continuation =
  nc_complete :: bool
  nc_include_hidden :: bool
  nc_ids :: "jstr list"
  nc_models :: "jstr list"
  nc_native_cursor :: jstr
  nc_virtual_models :: "virtual_entry list"

record virtual_cursor =
  vs_include_hidden :: bool
  vs_models :: "virtual_entry list"

datatype cursor_state = Native_State native_continuation | Virtual_State virtual_cursor

record list_context =
  lc_complete_coverage :: bool
  lc_include_hidden :: bool
  lc_limit :: nat
  lc_native_cursor :: "jstr option"
  lc_observed_ids :: "jstr list"
  lc_observed_models :: "jstr list"
  lc_virtual_models :: "virtual_entry list"

text \<open>A page that is not native data: the entries and the next cursor.\<close>

record virtual_page =
  vp_data :: "virtual_entry list"
  vp_next_cursor :: "jstr option"

datatype prepared_list =
    Forward_Native list_context "jstr option"
  | Return_Virtual virtual_page

text \<open>\<open>Live_Virtual\<close> holds what the source answers now, \<open>None\<close> being no array.\<close>

datatype virtual_source =
    Fixed_Virtual "virtual_entry list"
  | Live_Virtual "virtual_definition list option"

record model_catalog =
  mc_store :: "cursor_state cursor_store"
  mc_default_limit :: nat
  mc_source :: virtual_source

section \<open>Helpers\<close>

definition normalize_limit :: "jnum \<Rightarrow> (catalog_error, nat) result" where
  "normalize_limit n =
     (case n of
        NInt i \<Rightarrow>
          if \<not> is_safe_integer n \<or> i < 0 \<or> MAX_MODEL_LIST_LIMIT < i then throw Invalid_Limit
          else return (nat (max 1 i))
      | NNegZero \<Rightarrow> return 1
      | _ \<Rightarrow> throw Invalid_Limit)"

definition normalize_cursor :: "jstr option \<Rightarrow> (catalog_error, jstr option) result" where
  "normalize_cursor c =
     (case c of
        None \<Rightarrow> return None
      | Some s \<Rightarrow>
          if length s = 0 \<or> MAX_CATALOG_CURSOR_LENGTH < length s then throw Invalid_Cursor
          else return (Some s))"

definition bounded_identifier :: "jval \<Rightarrow> bool" where
  "bounded_identifier v =
     (case v of JStr s \<Rightarrow> 0 < length s \<and> length s \<le> MAX_MODEL_IDENTIFIER_LENGTH | _ \<Rightarrow> False)"

definition valid_native_entry :: "jval \<Rightarrow> bool" where
  "valid_native_entry v =
     (case read_data_record v of
        None \<Rightarrow> False
      | Some r \<Rightarrow>
          bounded_identifier (field r ''id'') \<and> bounded_identifier (field r ''model'')
          \<and> (case field r ''isDefault'' of JBool _ \<Rightarrow> True | _ \<Rightarrow> False))"

text \<open>
  The page after the checks: its own fields with an array of entries as \<open>data\<close> and a string or
  null as \<open>nextCursor\<close>.
\<close>

definition normalize_native_page :: "jval \<Rightarrow> (catalog_error, data_record) result" where
  "normalize_native_page page =
     (case read_data_record page of
        None \<Rightarrow> throw Invalid_Model_Page
      | Some r \<Rightarrow>
          (case field r ''data'' of
             JArr vs \<Rightarrow>
               let next_cursor = field r ''nextCursor'' in
               if MAX_NATIVE_MODELS_PER_PAGE < length vs
                  \<or> \<not> (is_nullish next_cursor \<or> is_string_value next_cursor)
               then throw Invalid_Model_Page
               else if (case next_cursor of
                          JStr c \<Rightarrow> length c = 0 \<or> MAX_CATALOG_CURSOR_LENGTH < length c
                        | _ \<Rightarrow> False)
               then throw Invalid_Model_Page
               else if \<not> list_all valid_native_entry vs then throw Invalid_Model_Page
               else if next_cursor \<noteq> JUndef then return r
               else return (set_field ''nextCursor'' JNull (set_field ''data'' (JArr vs) r))
           | _ \<Rightarrow> throw Invalid_Model_Page))"

fun unique_loop :: "virtual_entry list \<Rightarrow> jstr list \<Rightarrow> jstr list \<Rightarrow> (catalog_error, unit) result" where
  "unique_loop [] ids models = return ()"
| "unique_loop (e # es) ids models =
     and_then (reject_if (ve_id e \<in> set ids \<or> ve_model e \<in> set models) Model_Collision) (\<lambda>_.
     unique_loop es (set_add (ve_id e) ids) (set_add (ve_model e) models))"

definition assert_unique_virtual_models :: "virtual_entry list \<Rightarrow> (catalog_error, unit) result" where
  "assert_unique_virtual_models es = unique_loop es [] []"

definition assert_no_native_collision ::
    "jstr list \<Rightarrow> jstr list \<Rightarrow> virtual_entry list \<Rightarrow> (catalog_error, unit) result" where
  "assert_no_native_collision ids models virtual_models =
     and_then (each_result (\<lambda>e. reject_if (ve_id e \<in> set ids \<or> ve_model e \<in> set models) Model_Collision)
                 virtual_models) (\<lambda>_.
     and_then (each_result (\<lambda>i. reject_if (is_reserved_web_model_reference (JStr i)) Model_Collision) ids) (\<lambda>_.
     each_result (\<lambda>m. reject_if (is_reserved_web_model_reference (JStr m)) Model_Collision) models))"

section \<open>Operations\<close>

definition entries_of :: "virtual_definition list \<Rightarrow> (catalog_error, virtual_entry list) result" where
  "entries_of ds =
     and_then (map_result create_virtual_model_entry ds) (\<lambda>es.
     and_then (assert_unique_virtual_models es) (\<lambda>_. return es))"

definition read_virtual_models :: "virtual_source \<Rightarrow> (catalog_error, virtual_entry list) result" where
  "read_virtual_models src =
     (case src of
        Fixed_Virtual es \<Rightarrow> return es
      | Live_Virtual None \<Rightarrow> throw Catalog_Invalid_Configuration
      | Live_Virtual (Some ds) \<Rightarrow>
          if MAX_VIRTUAL_MODELS < length ds then throw Catalog_Invalid_Configuration
          else entries_of ds)"

text \<open>
  The constructor: the cursor store's options, the default limit, the fixed definitions and the
  answer of the source, each when given.
\<close>

definition new_model_catalog ::
    "jnum \<Rightarrow> jnum \<Rightarrow> jstr option \<Rightarrow> jnum option \<Rightarrow> virtual_definition list option
     \<Rightarrow> virtual_definition list option option \<Rightarrow> (catalog_error, model_catalog) result" where
  "new_model_catalog max_entries ttl_ms prefix_option default_limit fixed source =
     and_then (normalize_limit (case default_limit of None \<Rightarrow> NInt 100 | Some l \<Rightarrow> l)) (\<lambda>limit.
     and_then (positive_safe_integer max_entries) (\<lambda>_.
     and_then (positive_safe_integer ttl_ms) (\<lambda>_.
     and_then (new_cursor_store max_entries ttl_ms prefix_option) (\<lambda>store.
     and_then (reject_if (fixed \<noteq> None \<and> source \<noteq> None) Catalog_Invalid_Configuration) (\<lambda>_.
     case source of
       None \<Rightarrow>
         and_then (entries_of (case fixed of None \<Rightarrow> [SYNTHETIC_WEB_MODEL_DEFINITION] | Some ds \<Rightarrow> ds)) (\<lambda>es.
         return \<lparr>mc_store = store, mc_default_limit = limit, mc_source = Fixed_Virtual es\<rparr>)
     | Some answer \<Rightarrow>
         and_then (read_virtual_models (Live_Virtual answer)) (\<lambda>_.
         return \<lparr>mc_store = store, mc_default_limit = limit, mc_source = Live_Virtual answer\<rparr>))))))"

text \<open>\<open>null\<close> when nothing remains, otherwise a fresh cursor for the rest.\<close>

definition cursor_for_rest ::
    "jnum \<Rightarrow> (nat \<Rightarrow> jval) \<Rightarrow> bool \<Rightarrow> virtual_entry list \<Rightarrow> cursor_state cursor_store
     \<Rightarrow> (catalog_error, jstr option) result \<times> cursor_state cursor_store" where
  "cursor_for_rest clock random include_hidden remaining store =
     (if remaining = [] then (return None, store)
      else case create_cursor clock random
              (Virtual_State \<lparr>vs_include_hidden = include_hidden, vs_models = remaining\<rparr>) store of
          (Inl e, store') \<Rightarrow> (throw e, store')
        | (Inr c, store') \<Rightarrow> (return (Some c), store'))"

definition paginate_virtual_models ::
    "jnum \<Rightarrow> (nat \<Rightarrow> jval) \<Rightarrow> virtual_entry list \<Rightarrow> nat \<Rightarrow> bool \<Rightarrow> cursor_state cursor_store
     \<Rightarrow> (catalog_error, virtual_page) result \<times> cursor_state cursor_store" where
  "paginate_virtual_models clock random models limit include_hidden store =
     (let page = take limit models in
      case cursor_for_rest clock random include_hidden (drop (length page) models) store of
        (Inl e, store') \<Rightarrow> (throw e, store')
      | (Inr next_cursor, store') \<Rightarrow>
          (return \<lparr>vp_data = page, vp_next_cursor = next_cursor\<rparr>, store'))"

definition state_include_hidden :: "cursor_state \<Rightarrow> bool" where
  "state_include_hidden st =
     (case st of Native_State n \<Rightarrow> nc_include_hidden n | Virtual_State v \<Rightarrow> vs_include_hidden v)"

text \<open>The read of the cursor and the creation of the next one each look at the clock.\<close>

definition prepare_owned ::
    "jnum \<Rightarrow> jnum \<Rightarrow> (nat \<Rightarrow> jval) \<Rightarrow> jstr \<Rightarrow> bool \<Rightarrow> nat \<Rightarrow> model_catalog
     \<Rightarrow> (catalog_error, prepared_list) result \<times> model_catalog" where
  "prepare_owned read_clock create_clock random cursor include_hidden limit c =
     (case read_cursor read_clock cursor (mc_store c) of
        (Inl e, store) \<Rightarrow> (throw e, c\<lparr>mc_store := store\<rparr>)
      | (Inr st, store) \<Rightarrow>
          if state_include_hidden st \<noteq> include_hidden
          then (throw Invalid_Cursor, c\<lparr>mc_store := store\<rparr>)
          else
            (case st of
               Virtual_State v \<Rightarrow>
                 (case paginate_virtual_models create_clock random (vs_models v) limit include_hidden store of
                    (Inl e, store') \<Rightarrow> (throw e, c\<lparr>mc_store := store'\<rparr>)
                  | (Inr page, store') \<Rightarrow> (return (Return_Virtual page), c\<lparr>mc_store := store'\<rparr>))
             | Native_State n \<Rightarrow>
                 (return (Forward_Native
                    \<lparr>lc_complete_coverage = nc_complete n, lc_include_hidden = include_hidden,
                     lc_limit = limit, lc_native_cursor = Some (nc_native_cursor n),
                     lc_observed_ids = nc_ids n, lc_observed_models = nc_models n,
                     lc_virtual_models = nc_virtual_models n\<rparr> (Some (nc_native_cursor n))),
                  c\<lparr>mc_store := store\<rparr>)))"

definition prepare_list ::
    "jnum \<Rightarrow> jnum \<Rightarrow> (nat \<Rightarrow> jval) \<Rightarrow> model_list_request \<Rightarrow> model_catalog
     \<Rightarrow> (catalog_error, prepared_list) result \<times> model_catalog" where
  "prepare_list read_clock create_clock random request c =
     (case and_then (normalize_limit (case lq_limit request of
                       None \<Rightarrow> NInt (int (mc_default_limit c)) | Some l \<Rightarrow> l)) (\<lambda>limit.
           and_then (normalize_cursor (lq_cursor request)) (\<lambda>cursor. return (limit, cursor))) of
        Inl e \<Rightarrow> (throw e, c)
      | Inr (limit, cursor) \<Rightarrow>
          let include_hidden = (case lq_include_hidden request of None \<Rightarrow> False | Some b \<Rightarrow> b) in
          if cursor \<noteq> None \<and> owns_cursor (mc_store c) (JStr (the cursor))
          then prepare_owned read_clock create_clock random (the cursor) include_hidden limit c
          else
            (case read_virtual_models (mc_source c) of
               Inl e \<Rightarrow> (throw e, c)
             | Inr models \<Rightarrow>
                 (return (Forward_Native
                    \<lparr>lc_complete_coverage = (cursor = None), lc_include_hidden = include_hidden,
                     lc_limit = limit, lc_native_cursor = cursor, lc_observed_ids = [],
                     lc_observed_models = [], lc_virtual_models = models\<rparr> cursor), c)))"

text \<open>The strings of a checked entry, and the observed sets extended by a page.\<close>

definition entry_text :: "string \<Rightarrow> jval \<Rightarrow> jstr" where
  "entry_text k v =
     (case read_data_record v of
        None \<Rightarrow> []
      | Some r \<Rightarrow> (case field r k of JStr s \<Rightarrow> s | _ \<Rightarrow> []))"

definition page_entries :: "data_record \<Rightarrow> jval list" where
  "page_entries page = (case field page ''data'' of JArr vs \<Rightarrow> vs | _ \<Rightarrow> [])"

definition observe :: "string \<Rightarrow> data_record \<Rightarrow> jstr list \<Rightarrow> jstr list" where
  "observe k page seen = foldl (\<lambda>acc v. set_add (entry_text k v) acc) seen (page_entries page)"

text \<open>\<open>{ ...page, nextCursor }\<close> and the page with Web models appended.\<close>

definition with_next_cursor :: "jstr option \<Rightarrow> data_record \<Rightarrow> data_record" where
  "with_next_cursor c page = set_field ''nextCursor'' (case c of None \<Rightarrow> JNull | Some s \<Rightarrow> JStr s) page"

definition with_virtual_models :: "virtual_entry list \<Rightarrow> data_record \<Rightarrow> data_record" where
  "with_virtual_models es page = set_field ''data'' (JArr (page_entries page @ map entry_value es)) page"

definition merge_checked_page ::
    "jnum \<Rightarrow> (nat \<Rightarrow> jval) \<Rightarrow> list_context \<Rightarrow> data_record \<Rightarrow> jstr list \<Rightarrow> jstr list \<Rightarrow> model_catalog
     \<Rightarrow> (catalog_error, data_record) result \<times> model_catalog" where
  "merge_checked_page clock random ctx page ids models c =
     (case field page ''nextCursor'' of
        JStr native_cursor \<Rightarrow>
          (case create_cursor clock random
                  (Native_State \<lparr>nc_complete = lc_complete_coverage ctx,
                     nc_include_hidden = lc_include_hidden ctx, nc_ids = ids, nc_models = models,
                     nc_native_cursor = native_cursor, nc_virtual_models = lc_virtual_models ctx\<rparr>)
                  (mc_store c) of
             (Inl e, store) \<Rightarrow> (throw e, c\<lparr>mc_store := store\<rparr>)
           | (Inr cursor, store) \<Rightarrow> (return (with_next_cursor (Some cursor) page), c\<lparr>mc_store := store\<rparr>))
      | _ \<Rightarrow>
          if \<not> lc_complete_coverage ctx \<or> lc_virtual_models ctx = [] then (return page, c)
          else
            let slots = lc_limit ctx - length (page_entries page);
                appended = take slots (lc_virtual_models ctx);
                remaining = drop (length appended) (lc_virtual_models ctx) in
            case cursor_for_rest clock random (lc_include_hidden ctx) remaining (mc_store c) of
              (Inl e, store) \<Rightarrow> (throw e, c\<lparr>mc_store := store\<rparr>)
            | (Inr cursor, store) \<Rightarrow>
                (return (with_next_cursor cursor (with_virtual_models appended page)),
                 c\<lparr>mc_store := store\<rparr>))"

definition merge_native_page ::
    "jnum \<Rightarrow> (nat \<Rightarrow> jval) \<Rightarrow> list_context \<Rightarrow> jval \<Rightarrow> model_catalog
     \<Rightarrow> (catalog_error, data_record) result \<times> model_catalog" where
  "merge_native_page clock random ctx native_page c =
     (case normalize_native_page native_page of
        Inl e \<Rightarrow> (throw e, c)
      | Inr page \<Rightarrow>
          let ids = observe ''id'' page (lc_observed_ids ctx);
              models = observe ''model'' page (lc_observed_models ctx) in
          if MAX_OBSERVED_NATIVE_MODELS < length ids \<or> MAX_OBSERVED_NATIVE_MODELS < length models
          then (throw Invalid_Model_Page, c)
          else case assert_no_native_collision ids models (lc_virtual_models ctx) of
              Inl e \<Rightarrow> (throw e, c)
            | Inr _ \<Rightarrow> merge_checked_page clock random ctx page ids models c)"

definition has_public_key :: "model_catalog \<Rightarrow> jstr \<Rightarrow> (catalog_error, bool) result" where
  "has_public_key c k =
     and_then (read_virtual_models (mc_source c)) (\<lambda>es. return (list_ex (\<lambda>e. ve_id e = k) es))"

definition list_virtual_models :: "model_catalog \<Rightarrow> (catalog_error, virtual_entry list) result" where
  "list_virtual_models c = read_virtual_models (mc_source c)"

section \<open>Collisions\<close>

lemma set_observe: "set (observe k page seen) = set seen \<union> entry_text k ` set (page_entries page)"
proof -
  have "set (foldl (\<lambda>acc v. set_add (entry_text k v) acc) seen vs) = set seen \<union> entry_text k ` set vs" for vs
    by (induction vs arbitrary: seen) auto
  then show ?thesis by (simp add: observe_def)
qed

lemma no_native_collision_Inr:
  "assert_no_native_collision ids models es = Inr u \<longleftrightarrow>
   (\<forall>e \<in> set es. ve_id e \<notin> set ids \<and> ve_model e \<notin> set models)
   \<and> (\<forall>s \<in> set ids \<union> set models. \<not> is_reserved_web_model_reference (JStr s))"
  by (auto simp: assert_no_native_collision_def outcome_simps each_result_Inr)

lemma normalize_native_page_Inr:
  assumes "normalize_native_page page = Inr r"
  shows "\<exists>p vs. page = JObj p \<and> field p ''data'' = JArr vs \<and> page_entries r = vs
    \<and> (\<forall>v \<in> set vs. valid_native_entry v)
    \<and> field r ''nextCursor'' = (if field p ''nextCursor'' = JUndef then JNull else field p ''nextCursor'')
    \<and> (field r ''nextCursor'' = JNull \<or> (\<exists>c. field r ''nextCursor'' = JStr c))"
proof (cases page)
  case (JObj p)
  with assms show ?thesis
    by (auto simp: normalize_native_page_def Let_def page_entries_def field_set_field list_all_iff
        is_string_value_iff split: jval.splits if_splits)
qed (use assms in \<open>simp_all add: normalize_native_page_def\<close>)

section \<open>What a merge returns\<close>

lemma cursor_for_rest_cases:
  assumes "cursor_for_rest clock random ih rest store = (Inr n, store')"
  obtains (nothing) "rest = []" and "n = None" and "store' = store"
    | (cursor) c where "rest \<noteq> []" and "n = Some c"
        and "create_cursor clock random (Virtual_State \<lparr>vs_include_hidden = ih, vs_models = rest\<rparr>) store = (Inr c, store')"
  using assms by (auto simp: cursor_for_rest_def split: if_splits prod.splits sum.splits)

lemma merge_checked_cases:
  assumes "merge_checked_page clock random ctx page ids models c = (Inr r, c')"
    and next_cursor: "field page ''nextCursor'' = JNull \<or> (\<exists>s. field page ''nextCursor'' = JStr s)"
  obtains
    (continued) native cursor store where "field page ''nextCursor'' = JStr native"
      and "r = with_next_cursor (Some cursor) page" and "c' = c\<lparr>mc_store := store\<rparr>"
      and "create_cursor clock random
             (Native_State \<lparr>nc_complete = lc_complete_coverage ctx,
                nc_include_hidden = lc_include_hidden ctx, nc_ids = ids, nc_models = models,
                nc_native_cursor = native, nc_virtual_models = lc_virtual_models ctx\<rparr>)
             (mc_store c) = (Inr cursor, store)"
  | (bare) "field page ''nextCursor'' = JNull" and "r = page" and "c' = c"
      and "\<not> lc_complete_coverage ctx \<or> lc_virtual_models ctx = []"
  | (appended) slots cursor store where "field page ''nextCursor'' = JNull" and "lc_complete_coverage ctx"
      and "slots = lc_limit ctx - length (page_entries page)"
      and "cursor_for_rest clock random (lc_include_hidden ctx) (drop slots (lc_virtual_models ctx)) (mc_store c)
             = (Inr cursor, store)"
      and "r = with_next_cursor cursor (with_virtual_models (take slots (lc_virtual_models ctx)) page)"
      and "c' = c\<lparr>mc_store := store\<rparr>"
proof -
  have drop_take: "drop (min (length xs) n) xs = drop n xs" for n and xs :: "virtual_entry list"
    by (cases "n \<le> length xs") (simp_all add: min_def)
  from next_cursor show ?thesis
  proof
    assume n: "field page ''nextCursor'' = JNull"
    show ?thesis
    proof (cases "\<not> lc_complete_coverage ctx \<or> lc_virtual_models ctx = []")
      case True
      with assms(1) n bare show ?thesis by (simp add: merge_checked_page_def)
    next
      case False
      with assms(1) n show ?thesis
        by (auto simp: merge_checked_page_def Let_def drop_take split: prod.splits sum.splits
            intro!: appended)
    qed
  next
    assume "\<exists>s. field page ''nextCursor'' = JStr s"
    then obtain native where "field page ''nextCursor'' = JStr native" ..
    with assms(1) show ?thesis
      by (auto simp: merge_checked_page_def split: prod.splits sum.splits intro!: continued)
  qed
qed

lemma merge_Inr:
  assumes "merge_native_page clock random ctx native_page c = (Inr r, c')"
  obtains page where "normalize_native_page native_page = Inr page"
    and "assert_no_native_collision (observe ''id'' page (lc_observed_ids ctx))
           (observe ''model'' page (lc_observed_models ctx)) (lc_virtual_models ctx) = Inr ()"
    and "merge_checked_page clock random ctx page (observe ''id'' page (lc_observed_ids ctx))
           (observe ''model'' page (lc_observed_models ctx)) c = (Inr r, c')"
  using assms by (auto simp: merge_native_page_def Let_def split: sum.splits if_splits)

lemma page_entries_simps [simp]:
  "page_entries (with_next_cursor n page) = page_entries page"
  "page_entries (with_virtual_models es page) = page_entries page @ map entry_value es"
  "field (with_next_cursor n page) ''nextCursor'' = (case n of None \<Rightarrow> JNull | Some s \<Rightarrow> JStr s)"
  by (simp_all add: with_next_cursor_def with_virtual_models_def page_entries_def field_set_field)

lemma created_owned: "create_cursor clock random v s = (Inr c, s') \<Longrightarrow> owns_cursor s' (JStr c)"
  by (erule create_cursor_cases) (auto simp: owns_cursor_def)

lemma rest_owned:
  "cursor_for_rest clock random ih rest store = (Inr (Some c), store') \<Longrightarrow> owns_cursor store' (JStr c)"
  by (erule cursor_for_rest_cases) (auto dest: created_owned)

end
