(* ===== verification/Catalog_Properties.thy ===== *)
theory Catalog_Properties
  imports Model_Catalog
begin

text \<open>
  The properties of the model catalog: no native page can smuggle in a reserved or public Web
  model, what a merged page contains, and a client that follows the cursors sees every Web model
  exactly once.
\<close>

section \<open>Following the cursors\<close>

text \<open>
  A client that asks for the next page until there is no cursor, at most \<open>fuel\<close> requests long. The
  times at which a request reads its cursor and creates the next one, and its entropy, are those of
  its remaining fuel. \<open>None\<close> stands for anything but a page.
\<close>

fun follow_cursors ::
    "nat \<Rightarrow> (nat \<Rightarrow> jnum) \<Rightarrow> (nat \<Rightarrow> jnum) \<Rightarrow> (nat \<Rightarrow> nat \<Rightarrow> jval) \<Rightarrow> jnum option \<Rightarrow> bool \<Rightarrow> jstr option
     \<Rightarrow> model_catalog \<Rightarrow> virtual_entry list option" where
  "follow_cursors fuel reads creates random limit ih None c = Some []"
| "follow_cursors 0 reads creates random limit ih (Some cursor) c = None"
| "follow_cursors (Suc fuel) reads creates random limit ih (Some cursor) c =
     (case prepare_list (reads fuel) (creates fuel) (random fuel)
             \<lparr>lq_cursor = Some cursor, lq_include_hidden = Some ih, lq_limit = limit\<rparr> c of
        (Inr (Return_Virtual page), c') \<Rightarrow>
          map_option (\<lambda>rest. vp_data page @ rest)
            (follow_cursors fuel reads creates random limit ih (vp_next_cursor page) c')
      | _ \<Rightarrow> None)"

text \<open>
  What the client's cursor stands for and how long it lives; the entropy that is still to come being
  fresh; and a client in time, which reads every cursor before it expires: the first one was created
  at \<open>start\<close>, each later one by the request before.
\<close>

definition stands_for :: "model_catalog \<Rightarrow> int \<Rightarrow> bool \<Rightarrow> jstr option \<Rightarrow> virtual_entry list \<Rightarrow> bool" where
  "stands_for c expiry ih cursor models \<longleftrightarrow>
     (case cursor of
        None \<Rightarrow> models = []
      | Some s \<Rightarrow>
          models \<noteq> [] \<and> prefix (ck_prefix (mc_store c)) s \<and> length s \<le> 384
          \<and> map_of (ck_entries (mc_store c)) s
              = Some \<lparr>sc_expires = expiry,
                      sc_value = Virtual_State \<lparr>vs_include_hidden = ih, vs_models = models\<rparr>\<rparr>)"

definition in_time :: "nat \<Rightarrow> int \<Rightarrow> int \<Rightarrow> (nat \<Rightarrow> jnum) \<Rightarrow> (nat \<Rightarrow> jnum) \<Rightarrow> bool" where
  "in_time fuel ttl start reads creates \<longleftrightarrow>
     (\<forall>k < fuel. \<exists>r w. read_now (reads k) = Inr r \<and> read_now (creates k) = Inr w
        \<and> w + ttl \<le> max_safe_integer
        \<and> (if Suc k = fuel then r < start + ttl
           else \<exists>w'. read_now (creates (Suc k)) = Inr w' \<and> r < w' + ttl))"

definition fresh_entropy :: "nat \<Rightarrow> (nat \<Rightarrow> nat \<Rightarrow> jval) \<Rightarrow> model_catalog \<Rightarrow> bool" where
  "fresh_entropy fuel random c \<longleftrightarrow>
     (\<exists>entropy. inj_on entropy {..<fuel}
        \<and> (\<forall>k < fuel. valid_entropy (random k 0) = Some (entropy k)
             \<and> ck_prefix (mc_store c) @ entropy k \<notin> fst ` set (ck_entries (mc_store c))))"

lemma valid_entropy_length: "valid_entropy v = Some e \<Longrightarrow> length e \<le> 256"
  by (auto simp: valid_entropy_def split: jval.splits if_splits)

lemma cursor_for_rest_stands:
  assumes inv: "store_inv store" and clock: "read_now clock = Inr now"
    and expiry: "now + ck_ttl store \<le> max_safe_integer"
    and entropy: "valid_entropy (random 0) = Some e" "ck_prefix store @ e \<notin> fst ` set (ck_entries store)"
  shows "\<exists>cursor store'. cursor_for_rest clock random ih rest store = (Inr cursor, store')
    \<and> stands_for (c\<lparr>mc_store := store'\<rparr>) (now + ck_ttl store) ih cursor rest \<and> store_inv store'
    \<and> ck_prefix store' = ck_prefix store \<and> ck_ttl store' = ck_ttl store
    \<and> fst ` set (ck_entries store') \<subseteq> insert (ck_prefix store @ e) (fst ` set (ck_entries store))"
proof (cases "rest = []")
  case True
  with inv show ?thesis by (auto simp: cursor_for_rest_def stands_for_def)
next
  case False
  let ?c = "ck_prefix store @ e"
  let ?v = "Virtual_State \<lparr>vs_include_hidden = ih, vs_models = rest\<rparr>"
  let ?store' = "stored_after now ?v ?c (prune_expired now None store)"
  have create: "create_cursor clock random ?v store = (Inr ?c, ?store')"
    by (rule create_cursor_fresh) (use clock entropy expiry in auto)
  have "cursor_for_rest clock random ih rest store = (Inr (Some ?c), ?store')"
    using False create by (simp add: cursor_for_rest_def)
  moreover have "store_inv ?store'" by (rule create_cursor_inv [OF inv create])
  moreover have "stands_for (c\<lparr>mc_store := ?store'\<rparr>) (now + ck_ttl store) ih (Some ?c) rest"
    using False inv valid_entropy_length [OF entropy(1)]
    by (simp add: stands_for_def stored_after_lookup store_inv_def)
  moreover have "fst ` set (ck_entries ?store') \<subseteq> insert ?c (fst ` set (ck_entries store))"
    using keys_stored_after [of now ?v ?c "prune_expired now None store"] keys_prune [of now None store]
    by blast
  ultimately show ?thesis by (intro exI [of _ "Some ?c"] exI [of _ ?store']) simp
qed

text \<open>One request with a virtual cursor.\<close>

lemma prepare_virtual_step:
  assumes inv: "store_inv (mc_store c)"
    and reading: "read_now read_clock = Inr time" and early: "time < expires"
    and clock: "read_now clock = Inr now"
    and expiry: "now + ck_ttl (mc_store c) \<le> max_safe_integer"
    and limit: "normalize_limit (case limit of None \<Rightarrow> NInt (int (mc_default_limit c)) | Some l \<Rightarrow> l) = Inr n"
    and stands: "stands_for c expires ih (Some cursor) models"
    and fresh: "valid_entropy (random 0) = Some e"
      "ck_prefix (mc_store c) @ e \<notin> fst ` set (ck_entries (mc_store c))"
  shows "\<exists>page c'. prepare_list read_clock clock random
        \<lparr>lq_cursor = Some cursor, lq_include_hidden = Some ih, lq_limit = limit\<rparr> c = (Inr (Return_Virtual page), c')
    \<and> vp_data page = take n models \<and> stands_for c' (now + ck_ttl (mc_store c)) ih (vp_next_cursor page) (drop n models)
    \<and> store_inv (mc_store c') \<and> mc_default_limit c' = mc_default_limit c
    \<and> ck_prefix (mc_store c') = ck_prefix (mc_store c) \<and> ck_ttl (mc_store c') = ck_ttl (mc_store c)
    \<and> fst ` set (ck_entries (mc_store c'))
        \<subseteq> insert (ck_prefix (mc_store c) @ e) (fst ` set (ck_entries (mc_store c)))"
proof -
  let ?st = "Virtual_State \<lparr>vs_include_hidden = ih, vs_models = models\<rparr>"
  let ?store = "prune_expired time (Some cursor) (mc_store c)"
  from stands have owns: "owns_cursor (mc_store c) (JStr cursor)"
    by (simp add: stands_for_def owns_cursor_def)
  have "0 < length cursor" and "length cursor \<le> MAX_CATALOG_CURSOR_LENGTH"
    using stands inv by (auto simp: stands_for_def store_inv_def MAX_CATALOG_CURSOR_LENGTH_def prefix_def)
  then have cursor: "normalize_cursor (Some cursor) = Inr (Some cursor)"
    by (simp add: normalize_cursor_def)
  have read: "read_cursor read_clock cursor (mc_store c) = (Inr ?st, ?store)"
    using stands owns reading early by (auto simp: stands_for_def read_cursor_def)
  have keys: "fst ` set (ck_entries ?store) \<subseteq> fst ` set (ck_entries (mc_store c))"
    by (rule keys_prune)
  have drop_page: "drop (length (take n models)) models = drop n models"
    by (cases "n \<le> length models") simp_all
  from fresh(2) keys have e: "ck_prefix ?store @ e \<notin> fst ` set (ck_entries ?store)" by auto
  have exp: "now + ck_ttl ?store \<le> max_safe_integer" using expiry by simp
  obtain next_cursor store' where rest: "cursor_for_rest clock random ih (drop n models) ?store = (Inr next_cursor, store')"
    and next_stands: "stands_for (c\<lparr>mc_store := store'\<rparr>) (now + ck_ttl (mc_store c)) ih next_cursor (drop n models)"
    and frame: "store_inv store'" "ck_prefix store' = ck_prefix (mc_store c)" "ck_ttl store' = ck_ttl (mc_store c)"
    and keys': "fst ` set (ck_entries store') \<subseteq> insert (ck_prefix (mc_store c) @ e) (fst ` set (ck_entries ?store))"
    using cursor_for_rest_stands [where store = ?store and clock = clock and now = now and random = random
        and e = e and ih = ih and rest = "drop n models" and c = c] prune_inv [OF inv] clock exp fresh(1) e
    by auto
  have page: "paginate_virtual_models clock random models n ih ?store =
      (Inr \<lparr>vp_data = take n models, vp_next_cursor = next_cursor\<rparr>, store')"
    unfolding paginate_virtual_models_def Let_def drop_page rest by simp
  have prep: "prepare_list read_clock clock random
        \<lparr>lq_cursor = Some cursor, lq_include_hidden = Some ih, lq_limit = limit\<rparr> c
      = (Inr (Return_Virtual \<lparr>vp_data = take n models, vp_next_cursor = next_cursor\<rparr>), c\<lparr>mc_store := store'\<rparr>)"
    by (simp add: prepare_list_def limit cursor owns prepare_owned_def read state_include_hidden_def page)
  show ?thesis
    by (intro exI [of _ "\<lparr>vp_data = take n models, vp_next_cursor = next_cursor\<rparr>"]
        exI [of _ "c\<lparr>mc_store := store'\<rparr>"])
      (use prep next_stands frame keys' keys in auto)
qed

lemma normalize_limit_pos: "normalize_limit l = Inr n \<Longrightarrow> 0 < n"
  by (auto simp: normalize_limit_def split: jnum.splits if_splits)

lemma follow_cursors_complete:
  assumes "store_inv (mc_store c)"
    and "in_time fuel (ck_ttl (mc_store c)) start reads creates"
    and "normalize_limit (case limit of None \<Rightarrow> NInt (int (mc_default_limit c)) | Some l \<Rightarrow> l) = Inr n"
    and "stands_for c (start + ck_ttl (mc_store c)) ih cursor models"
    and "fresh_entropy fuel random c" and "length models \<le> fuel"
  shows "follow_cursors fuel reads creates random limit ih cursor c = Some models"
  using assms
proof (induction fuel arbitrary: c cursor models start)
  case 0
  then show ?case by (cases cursor) (auto simp: stands_for_def)
next
  case (Suc fuel)
  show ?case
  proof (cases cursor)
    case None
    with Suc.prems show ?thesis by (simp add: stands_for_def)
  next
    case (Some s)
    from Suc.prems(5) obtain entropy where inj: "inj_on entropy {..<Suc fuel}"
      and en: "\<And>k. k < Suc fuel \<Longrightarrow> valid_entropy (random k 0) = Some (entropy k)
        \<and> ck_prefix (mc_store c) @ entropy k \<notin> fst ` set (ck_entries (mc_store c))"
      by (auto simp: fresh_entropy_def)
    from Suc.prems(2) obtain time now where clocks: "read_now (reads fuel) = Inr time"
        "time < start + ck_ttl (mc_store c)" "read_now (creates fuel) = Inr now"
        "now + ck_ttl (mc_store c) \<le> max_safe_integer"
      by (fastforce simp: in_time_def)
    have later: "in_time fuel (ck_ttl (mc_store c)) now reads creates"
      unfolding in_time_def
    proof (intro allI impI)
      fix k assume "k < fuel"
      with spec [OF Suc.prems(2) [unfolded in_time_def], of k] obtain r w w' where "read_now (reads k) = Inr r" "read_now (creates k) = Inr w"
          "w + ck_ttl (mc_store c) \<le> max_safe_integer" "read_now (creates (Suc k)) = Inr w'"
          "r < w' + ck_ttl (mc_store c)"
        by auto
      with clocks(3) show "\<exists>r w. read_now (reads k) = Inr r \<and> read_now (creates k) = Inr w
          \<and> w + ck_ttl (mc_store c) \<le> max_safe_integer
          \<and> (if Suc k = fuel then r < now + ck_ttl (mc_store c)
             else \<exists>w'. read_now (creates (Suc k)) = Inr w' \<and> r < w' + ck_ttl (mc_store c))"
        by auto
    qed
    obtain page c' where prep: "prepare_list (reads fuel) (creates fuel) (random fuel)
        \<lparr>lq_cursor = Some s, lq_include_hidden = Some ih, lq_limit = limit\<rparr> c = (Inr (Return_Virtual page), c')"
      and page: "vp_data page = take n models"
      and stands': "stands_for c' (now + ck_ttl (mc_store c)) ih (vp_next_cursor page) (drop n models)"
      and frame: "store_inv (mc_store c')" "mc_default_limit c' = mc_default_limit c"
        "ck_prefix (mc_store c') = ck_prefix (mc_store c)" "ck_ttl (mc_store c') = ck_ttl (mc_store c)"
      and keys: "fst ` set (ck_entries (mc_store c'))
        \<subseteq> insert (ck_prefix (mc_store c) @ entropy fuel) (fst ` set (ck_entries (mc_store c)))"
      using prepare_virtual_step [OF Suc.prems(1) clocks Suc.prems(3), of ih s models "random fuel" "entropy fuel"]
        Suc.prems(4) Some en [of fuel] by auto
    have "fresh_entropy fuel random c'"
      unfolding fresh_entropy_def
    proof (intro exI [of _ entropy] conjI allI impI)
      show "inj_on entropy {..<fuel}" using inj by (rule inj_on_subset) auto
      fix k assume k: "k < fuel"
      then show "valid_entropy (random k 0) = Some (entropy k)" using en by simp
      have "entropy k \<noteq> entropy fuel"
        using inj k by (auto simp: inj_on_def)
      with keys en [of k] k
      show "ck_prefix (mc_store c') @ entropy k \<notin> fst ` set (ck_entries (mc_store c'))"
        by (auto simp: frame(3))
    qed
    moreover have "length (drop n models) \<le> fuel"
      using normalize_limit_pos [OF Suc.prems(3)] Suc.prems(6) by simp
    ultimately have "follow_cursors fuel reads creates random limit ih (vp_next_cursor page) c' = Some (drop n models)"
      using Suc.prems(3) later frame stands' by (intro Suc.IH [where start = now]) (simp_all cong: option.case_cong)
    with prep page Some show ?thesis by simp
  qed
qed

lemma rest_stands:
  assumes "cursor_for_rest clock random ih rest store = (Inr cursor, store')"
    and "store_inv store" and "read_now clock = Inr now"
  shows "stands_for (c\<lparr>mc_store := store'\<rparr>) (now + ck_ttl store) ih cursor rest \<and> store_inv store' \<and> ck_ttl store' = ck_ttl store"
  using assms(1)
proof (cases rule: cursor_for_rest_cases)
  case nothing
  with assms show ?thesis by (simp add: stands_for_def)
next
  case (cursor s)
  from cursor(3) show ?thesis
  proof (cases rule: create_cursor_cases)
    case (created now' k entropy)
    with cursor assms create_cursor_inv [OF assms(2) cursor(3)] valid_entropy_length [OF created(2)]
    show ?thesis by (auto simp: stands_for_def stored_after_lookup store_inv_def)
  qed auto
qed

definition next_cursor_of :: "data_record \<Rightarrow> jstr option" where
  "next_cursor_of r = (case field r ''nextCursor'' of JStr s \<Rightarrow> Some s | _ \<Rightarrow> None)"

section \<open>The listings a catalog hands out\<close>

text \<open>
  A catalog at work: built by the constructor, then asked for pages and given native pages to merge
  in any order, the pages for any of the contexts it has handed out so far, while a live source
  changes what it answers.
\<close>

inductive catalog_run :: "model_catalog \<Rightarrow> list_context list \<Rightarrow> bool" where
  built: "new_model_catalog max_entries ttl prefix_option limit fixed source = Inr c \<Longrightarrow> catalog_run c []"
| forwarded: "catalog_run c ctxs \<Longrightarrow>
    prepare_list read_clock create_clock random request c = (Inr (Forward_Native ctx cursor), c') \<Longrightarrow>
    catalog_run c' (ctx # ctxs)"
| answered: "catalog_run c ctxs \<Longrightarrow>
    prepare_list read_clock create_clock random request c = (x, c') \<Longrightarrow> catalog_run c' ctxs"
| merged: "catalog_run c ctxs \<Longrightarrow> ctx \<in> set ctxs \<Longrightarrow>
    merge_native_page clock random ctx page c = (y, c') \<Longrightarrow> catalog_run c' ctxs"
| resourced: "catalog_run c ctxs \<Longrightarrow> mc_source c = Live_Virtual old \<Longrightarrow>
    catalog_run (c\<lparr>mc_source := Live_Virtual answer\<rparr>) ctxs"

definition unique_entries :: "virtual_entry list \<Rightarrow> bool" where
  "unique_entries es \<longleftrightarrow> distinct (map ve_id es) \<and> distinct (map ve_model es)"

definition state_entries :: "cursor_state \<Rightarrow> virtual_entry list" where
  "state_entries st =
     (case st of Native_State n \<Rightarrow> nc_virtual_models n | Virtual_State v \<Rightarrow> vs_models v)"

definition store_values :: "'a cursor_store \<Rightarrow> 'a set" where
  "store_values s = (\<lambda>(k, e). sc_value e) ` set (ck_entries s)"

definition unique_catalog :: "model_catalog \<Rightarrow> bool" where
  "unique_catalog c \<longleftrightarrow> (\<forall>st \<in> store_values (mc_store c). unique_entries (state_entries st))
     \<and> (case mc_source c of Fixed_Virtual es \<Rightarrow> unique_entries es | Live_Virtual _ \<Rightarrow> True)"

lemma unique_entries_simps [simp]:
  "unique_entries []" "unique_entries es \<Longrightarrow> unique_entries (drop n es)"
  by (simp_all add: unique_entries_def drop_map [symmetric])

lemma unique_loop_Inr:
  "unique_loop es ids models = Inr u \<Longrightarrow>
   unique_entries es \<and> ve_id ` set es \<inter> set ids = {} \<and> ve_model ` set es \<inter> set models = {}"
proof (induction es arbitrary: ids models)
  case (Cons e es)
  then have "unique_loop es (set_add (ve_id e) ids) (set_add (ve_model e) models) = Inr u"
    and "ve_id e \<notin> set ids" and "ve_model e \<notin> set models" by (auto simp: outcome_simps)
  with Cons.IH [OF this(1)] show ?case by (auto simp: unique_entries_def)
qed simp

lemma entries_of_unique: "entries_of ds = Inr es \<Longrightarrow> unique_entries es"
  by (auto simp: entries_of_def assert_unique_virtual_models_def outcome_simps dest: unique_loop_Inr)

lemma read_virtual_unique:
  "unique_catalog c \<Longrightarrow> read_virtual_models (mc_source c) = Inr es \<Longrightarrow> unique_entries es"
  by (auto simp: unique_catalog_def read_virtual_models_def
      split: virtual_source.splits option.splits if_splits dest: entries_of_unique)

text \<open>What the store's operations do to the values in it.\<close>

lemma values_prune: "store_values (prune_expired now except s) \<subseteq> store_values s"
  by (auto simp: store_values_def prune_expired_def)

lemma values_evict: "store_values (evict_oldest_if_full s) \<subseteq> store_values s"
  by (auto simp: store_values_def evict_oldest_if_full_def AList.delete_eq split: list.splits if_splits)

lemma set_alist_update: "set (AList.update k v m) \<subseteq> insert (k, v) (set m)"
  by (induction m) auto

lemma values_stored: "store_values (stored_after now v c s) \<subseteq> insert v (store_values s)"
  using values_evict [of s] set_alist_update
  by (fastforce simp: store_values_def stored_after_def Let_def)

lemma values_create:
  assumes "create_cursor clock random v s = (x, s')"
  shows "store_values s' \<subseteq> insert v (store_values s)"
  using assms
proof (cases rule: create_cursor_cases)
  case (failed now)
  then show ?thesis
    using values_prune [of now None s] values_evict [of "prune_expired now None s"] by blast
next
  case (created now k entropy)
  then show ?thesis
    using values_prune [of now None s] values_stored [of now v _ "prune_expired now None s"] by blast
qed auto

lemma values_read:
  assumes "read_cursor clock cursor s = (x, s')"
  shows "store_values s' \<subseteq> store_values s" and "x = Inr st \<Longrightarrow> st \<in> store_values s"
proof -
  have del: "store_values (s\<lparr>ck_entries := AList.delete cursor (ck_entries s)\<rparr>) \<subseteq> store_values s"
    by (auto simp: store_values_def AList.delete_eq)
  show "store_values s' \<subseteq> store_values s"
    using assms del
    by (auto simp: read_cursor_def split: if_splits sum.splits option.splits
        dest!: subsetD [OF values_prune])
  show "st \<in> store_values s" if "x = Inr st"
    using assms that
    by (force simp: read_cursor_def store_values_def split: if_splits sum.splits option.splits
        dest: map_of_SomeD)
qed

lemma values_rest:
  "cursor_for_rest clock random ih rest s = (x, s') \<Longrightarrow>
   store_values s' \<subseteq> insert (Virtual_State \<lparr>vs_include_hidden = ih, vs_models = rest\<rparr>) (store_values s)"
  by (auto simp: cursor_for_rest_def split: if_splits prod.splits sum.splits dest!: values_create)

lemma unique_catalog_store:
  "unique_catalog c \<Longrightarrow> store_values store \<subseteq> store_values (mc_store c) \<Longrightarrow>
   unique_catalog (c\<lparr>mc_store := store\<rparr>)"
  by (auto simp: unique_catalog_def)

lemma unique_catalog_insert:
  "unique_catalog c \<Longrightarrow> unique_entries (state_entries st) \<Longrightarrow>
   store_values store \<subseteq> insert st (store_values (mc_store c)) \<Longrightarrow>
   unique_catalog (c\<lparr>mc_store := store\<rparr>)"
  by (auto simp: unique_catalog_def)

lemma state_entries_simps [simp]:
  "state_entries (Virtual_State \<lparr>vs_include_hidden = ih, vs_models = es\<rparr>) = es"
  "state_entries (Native_State \<lparr>nc_complete = b, nc_include_hidden = ih, nc_ids = is, nc_models = ms,
     nc_native_cursor = n, nc_virtual_models = es\<rparr>) = es"
  by (simp_all add: state_entries_def)

lemma prepare_owned_unique:
  assumes u: "unique_catalog c"
    and run: "prepare_owned read_clock create_clock random cursor ih limit c = (x, c')"
  shows "unique_catalog c' \<and> (\<forall>ctx n. x = Inr (Forward_Native ctx n) \<longrightarrow> unique_entries (lc_virtual_models ctx))"
proof (cases "read_cursor read_clock cursor (mc_store c)")
  case (Pair y store)
  note kept = values_read(1) [OF Pair]
  show ?thesis
  proof (cases y)
    case (Inl e)
    with u run Pair kept show ?thesis by (auto simp: prepare_owned_def intro!: unique_catalog_store)
  next
    case (Inr st)
    with values_read(2) [OF Pair, of st] u have st: "unique_entries (state_entries st)"
      by (simp add: unique_catalog_def)
    show ?thesis
    proof (cases "state_include_hidden st = ih")
      case False
      with u run Pair Inr kept show ?thesis by (auto simp: prepare_owned_def intro!: unique_catalog_store)
    next
      case True
      show ?thesis
      proof (cases st)
        case (Native_State n)
        with u run Pair Inr True kept st show ?thesis
          by (auto simp: prepare_owned_def state_entries_def intro!: unique_catalog_store)
      next
        case (Virtual_State v)
        obtain z store' where rest: "cursor_for_rest create_clock random ih
            (drop (length (take limit (vs_models v))) (vs_models v)) store = (z, store')"
          by (cases "cursor_for_rest create_clock random ih
            (drop (length (take limit (vs_models v))) (vs_models v)) store")
        have "unique_catalog (c\<lparr>mc_store := store'\<rparr>)"
          using unique_catalog_insert [OF u _ subset_trans [OF values_rest [OF rest] insert_mono [OF kept]]] st
          by (simp add: Virtual_State state_entries_def)
        with run Pair Inr True Virtual_State rest show ?thesis
          by (auto simp: prepare_owned_def paginate_virtual_models_def Let_def split: sum.splits)
      qed
    qed
  qed
qed

lemma prepare_list_unique:
  assumes "unique_catalog c"
    and "prepare_list read_clock create_clock random request c = (x, c')"
  shows "unique_catalog c' \<and> (\<forall>ctx n. x = Inr (Forward_Native ctx n) \<longrightarrow> unique_entries (lc_virtual_models ctx))"
  using assms prepare_owned_unique [OF assms(1)] read_virtual_unique [OF assms(1)]
  by (auto simp: prepare_list_def Let_def split: sum.splits if_splits)

lemma merge_unique:
  assumes "unique_catalog c" and "unique_entries (lc_virtual_models ctx)"
    and "merge_native_page clock random ctx page c = (x, c')"
  shows "unique_catalog c'"
proof -
  have "unique_catalog d" if d: "merge_checked_page clock random ctx page ids models c = (y, d)"
    for page ids models y d
  proof (cases "\<exists>n. field page ''nextCursor'' = JStr n")
    case True
    then obtain n where n: "field page ''nextCursor'' = JStr n" ..
    show ?thesis
      using d assms(1,2) n
      by (auto simp: merge_checked_page_def split: prod.splits sum.splits dest!: values_create
          intro!: unique_catalog_insert [OF assms(1)])
  next
    case False
    then have "merge_checked_page clock random ctx page ids models c =
        (if \<not> lc_complete_coverage ctx \<or> lc_virtual_models ctx = [] then (return page, c)
         else
           let slots = lc_limit ctx - length (page_entries page);
               appended = take slots (lc_virtual_models ctx);
               remaining = drop (length appended) (lc_virtual_models ctx) in
           case cursor_for_rest clock random (lc_include_hidden ctx) remaining (mc_store c) of
             (Inl e, store) \<Rightarrow> (throw e, c\<lparr>mc_store := store\<rparr>)
           | (Inr cursor, store) \<Rightarrow>
               (return (with_next_cursor cursor (with_virtual_models appended page)),
                c\<lparr>mc_store := store\<rparr>))"
      unfolding merge_checked_page_def by (cases "field page ''nextCursor''") simp_all
    with d assms(1,2) show ?thesis
      by (auto simp: Let_def split: if_splits prod.splits sum.splits dest!: values_rest
          intro!: unique_catalog_insert [OF assms(1)])
  qed
  note checked = this
  show ?thesis
    using assms(1,3)
    by (auto simp: merge_native_page_def Let_def split: sum.splits if_splits elim: checked)
qed

lemma new_catalog_unique:
  assumes "new_model_catalog max_entries ttl prefix_option limit fixed source = Inr c"
  shows "unique_catalog c"
proof -
  have empty: "store_values store = {}" if "new_cursor_store max_entries ttl prefix_option = Inr store"
    for store :: "cursor_state cursor_store"
    using that by (auto simp: new_cursor_store_def store_values_def Let_def outcome_simps)
  show ?thesis
  proof (cases source)
    case None
    with assms empty show ?thesis
      by (auto simp: new_model_catalog_def outcome_simps unique_catalog_def dest!: entries_of_unique)
  next
    case (Some answer)
    with assms empty show ?thesis
      by (auto simp: new_model_catalog_def outcome_simps unique_catalog_def)
  qed
qed

lemma catalog_run_unique:
  "catalog_run c ctxs \<Longrightarrow> unique_catalog c \<and> (\<forall>ctx \<in> set ctxs. unique_entries (lc_virtual_models ctx))"
proof (induction rule: catalog_run.induct)
  case built
  then show ?case using new_catalog_unique by simp
next
  case resourced
  then show ?case by (simp add: unique_catalog_def)
next
  case (forwarded c ctxs read_clock create_clock random request ctx cursor c')
  then show ?case using prepare_list_unique [OF _ forwarded.hyps(2)] by auto
next
  case (answered c ctxs read_clock create_clock random request x c')
  then show ?case using prepare_list_unique [OF _ answered.hyps(2)] by blast
next
  case (merged c ctxs ctx clock random page y c')
  then show ?case using merge_unique [OF _ _ merged.hyps(3)] by blast
qed

text \<open>Counting the entries of a page that carry a given text.\<close>

definition times_named :: "string \<Rightarrow> jstr \<Rightarrow> data_record \<Rightarrow> nat" where
  "times_named k s page = length (filter (\<lambda>v. entry_text k v = s) (page_entries page))"

lemma entry_text_value [simp]:
  "entry_text ''id'' (entry_value e) = ve_id e" "entry_text ''model'' (entry_value e) = ve_model e"
  by (simp_all add: entry_text_def entry_value_def field_def)

lemma named_once:
  assumes "distinct (map f (as @ bs))" and "w \<in> set (as @ bs)"
  shows "length (filter (\<lambda>v. f v = f w) as) = (if w \<in> set as then 1 else 0)"
proof -
  have "inj_on f (set (as @ bs))" using assms(1) by (simp only: distinct_map)
  then have "f v = f w \<longleftrightarrow> v = w" if "v \<in> set as" for v
    using inj_on_eq_iff [of f "set (as @ bs)" v w] that assms(2) by simp
  then have "filter (\<lambda>v. f v = f w) as = filter (\<lambda>v. v = w) as" by (rule filter_cong [OF refl])
  moreover have "distinct as" using assms(1) by (auto simp: distinct_map)
  then have "length (filter (\<lambda>v. v = w) as) = (if w \<in> set as then 1 else 0)"
    by (induction as) auto
  ultimately show ?thesis by simp
qed

text \<open>A cursor just handed out leads to the state it was made for.\<close>

lemma created_lookup:
  "create_cursor clock random v s = (Inr k, s') \<Longrightarrow> \<exists>e. map_of (ck_entries s') k = Some e \<and> sc_value e = v"
  by (erule create_cursor_cases) (auto simp: stored_after_lookup)

lemma merged_page_split:
  assumes merge: "merge_native_page clock random ctx (JObj p) c = (Inr r, c')"
  shows "\<exists>shown rest. lc_virtual_models ctx = shown @ rest
    \<and> page_entries r = page_entries p @ map entry_value shown
    \<and> (shown \<noteq> [] \<longrightarrow> lc_complete_coverage ctx \<and> is_nullish (field p ''nextCursor'')
         \<and> length (page_entries r) \<le> lc_limit ctx)
    \<and> (lc_complete_coverage ctx \<longrightarrow>
         rest = [] \<and> field r ''nextCursor'' = JNull
         \<or> (\<exists>s e. field r ''nextCursor'' = JStr s \<and> map_of (ck_entries (mc_store c')) s = Some e
                \<and> state_entries (sc_value e) = rest))"
proof (rule merge_Inr [OF merge])
  fix page
  assume page: "normalize_native_page (JObj p) = Inr page"
    and merge: "merge_checked_page clock random ctx page (observe ''id'' page (lc_observed_ids ctx))
        (observe ''model'' page (lc_observed_models ctx)) c = (Inr r, c')"
  from normalize_native_page_Inr [OF page] have entries: "page_entries page = page_entries p"
    by (auto simp: page_entries_def)
  from normalize_native_page_Inr [OF page]
  have cursor: "field page ''nextCursor'' = JNull \<or> (\<exists>s. field page ''nextCursor'' = JStr s)" by blast
  have null: "field page ''nextCursor'' = JNull \<longrightarrow> is_nullish (field p ''nextCursor'')"
    using normalize_native_page_Inr [OF page] by (auto split: if_splits)
  from merge cursor show ?thesis
  proof (cases rule: merge_checked_cases)
    case (continued native cursor store)
    then show ?thesis
      using created_lookup [OF continued(4)]
      by (intro exI [of _ "[]"] exI [of _ "lc_virtual_models ctx"]) (auto simp: entries)
  next
    case bare
    then show ?thesis
      by (intro exI [of _ "[]"] exI [of _ "lc_virtual_models ctx"]) (auto simp: entries)
  next
    case (appended slots cursor store)
    let ?shown = "take slots (lc_virtual_models ctx)" and ?rest = "drop slots (lc_virtual_models ctx)"
    have next_cursor: "?rest = [] \<and> field r ''nextCursor'' = JNull
        \<or> (\<exists>s e. field r ''nextCursor'' = JStr s \<and> map_of (ck_entries (mc_store c')) s = Some e
               \<and> state_entries (sc_value e) = ?rest)"
      using appended(4)
    proof (cases rule: cursor_for_rest_cases)
      case (cursor k)
      from created_lookup [OF cursor(3)] show ?thesis
        using appended(5,6) cursor(2) by auto
    qed (use appended(5) in simp)
    have "length (page_entries p @ map entry_value ?shown) \<le> lc_limit ctx" if "?shown \<noteq> []"
      using that appended(3) by (auto simp: entries)
    with appended next_cursor null show ?thesis
      by (intro exI [of _ ?shown] exI [of _ ?rest]) (simp add: entries)
  qed
qed

lemma merged_page_free:
  assumes "merge_native_page clock random ctx (JObj p) c = (Inr r, c')"
  shows "\<forall>s \<in> entry_text ''id'' ` set (page_entries p) \<union> entry_text ''model'' ` set (page_entries p)
             \<union> set (lc_observed_ids ctx) \<union> set (lc_observed_models ctx).
         \<not> is_reserved_web_model_reference (JStr s)"
    and "\<forall>w \<in> set (lc_virtual_models ctx).
         ve_id w \<notin> entry_text ''id'' ` set (page_entries p) \<union> set (lc_observed_ids ctx)
         \<and> ve_model w \<notin> entry_text ''model'' ` set (page_entries p) \<union> set (lc_observed_models ctx)"
proof -
  obtain page where page: "normalize_native_page (JObj p) = Inr page"
    and free: "assert_no_native_collision (observe ''id'' page (lc_observed_ids ctx))
        (observe ''model'' page (lc_observed_models ctx)) (lc_virtual_models ctx) = Inr ()"
    using merge_Inr [OF assms] by blast
  from normalize_native_page_Inr [OF page] have "page_entries page = page_entries p"
    by (auto simp: page_entries_def)
  with free show "\<forall>s \<in> entry_text ''id'' ` set (page_entries p) \<union> entry_text ''model'' ` set (page_entries p)
             \<union> set (lc_observed_ids ctx) \<union> set (lc_observed_models ctx).
         \<not> is_reserved_web_model_reference (JStr s)"
    and "\<forall>w \<in> set (lc_virtual_models ctx).
         ve_id w \<notin> entry_text ''id'' ` set (page_entries p) \<union> set (lc_observed_ids ctx)
         \<and> ve_model w \<notin> entry_text ''model'' ` set (page_entries p) \<union> set (lc_observed_models ctx)"
    by (simp_all add: no_native_collision_Inr set_observe ball_Un)
qed

lemma shown_named_once:
  assumes "unique_entries (shown @ rest)" and "w \<in> set (shown @ rest)"
    and "page_entries r = natives @ map entry_value shown"
    and "ve_id w \<notin> entry_text ''id'' ` set natives" and "ve_model w \<notin> entry_text ''model'' ` set natives"
  shows "times_named ''id'' (ve_id w) r = (if w \<in> set shown then 1 else 0)"
    and "times_named ''model'' (ve_model w) r = (if w \<in> set shown then 1 else 0)"
proof -
  have none: "filter (\<lambda>v. f v = y) natives = []" if "y \<notin> f ` set natives" for f :: "jval \<Rightarrow> jstr" and y
    using that by (auto simp: filter_empty_conv)
  show "times_named ''id'' (ve_id w) r = (if w \<in> set shown then 1 else 0)"
    using named_once [of ve_id shown rest w] assms none [OF assms(4)]
    by (simp add: times_named_def unique_entries_def filter_map comp_def)
  show "times_named ''model'' (ve_model w) r = (if w \<in> set shown then 1 else 0)"
    using named_once [of ve_model shown rest w] assms none [OF assms(5)]
    by (simp add: times_named_def unique_entries_def filter_map comp_def)
qed

section \<open>Properties\<close>

definition sample_entry :: virtual_entry where
  "sample_entry = projr (create_virtual_model_entry SYNTHETIC_WEB_MODEL_DEFINITION)"

definition sample_catalog :: model_catalog where
  "sample_catalog =
     \<lparr>mc_store = \<lparr>ck_entries = [], ck_max = 4, ck_prefix = js ''p:'', ck_ttl = 100\<rparr>,
      mc_default_limit = 2, mc_source = Fixed_Virtual [sample_entry]\<rparr>"

definition sample_native_entry :: "string \<Rightarrow> jval" where
  "sample_native_entry k =
     JObj [(js ''id'', JStr (js k)), (js ''model'', JStr (js k)), (js ''isDefault'', JBool False)]"

definition sample_page :: data_record where
  "sample_page = [(js ''data'', JArr [sample_native_entry ''gpt-a'', sample_native_entry ''gpt-b'']),
                  (js ''nextCursor'', JNull)]"

definition sample_context :: list_context where
  "sample_context =
     \<lparr>lc_complete_coverage = True, lc_include_hidden = False, lc_limit = 2, lc_native_cursor = None,
      lc_observed_ids = [], lc_observed_models = [], lc_virtual_models = [sample_entry]\<rparr>"

definition sample_random :: "nat \<Rightarrow> nat \<Rightarrow> jval" where
  "sample_random k attempt = JStr (replicate 20 (of_nat (97 + k)))"

definition sample_merged :: "(catalog_error, data_record) result \<times> model_catalog" where
  "sample_merged = merge_native_page (NInt 5) (sample_random 9) sample_context (JObj sample_page) sample_catalog"

lemma sample_merged_Inr:
  "merge_native_page (NInt 5) (sample_random 9) sample_context (JObj sample_page) sample_catalog
     = (Inr (projr (fst sample_merged)), snd sample_merged)"
proof -
  have "(case fst sample_merged of Inr _ \<Rightarrow> True | Inl _ \<Rightarrow> False)" by code_simp
  then have "fst sample_merged = Inr (projr (fst sample_merged))" by (auto split: sum.splits)
  then show ?thesis by (metis prod.collapse sample_merged_def)
qed

text \<open>
  C8. No merged page names a Web model twice, and none lets a native model pass for one. For every
  context the catalog has handed out, a successful merge returns the native entries followed by the
  first of the listing's Web models (none unless the native catalog is exhausted and was read from
  its start, and no more than the limit leaves room for). Each of these is named exactly once on the
  page, by its id and by its model key, and each of the others not at all; the ids and model keys of
  the native entries, and those observed on earlier pages, lie outside the reserved namespace and
  belong to no Web model of the listing. The Web models not on the page are exactly those behind the
  cursor it ends with, when the listing was read from its start.
\<close>

theorem merged_page_collision_free:
  assumes "catalog_run c ctxs" and "ctx \<in> set ctxs"
    and "merge_native_page clock random ctx (JObj p) c = (Inr r, c')"
  shows "\<exists>shown rest. lc_virtual_models ctx = shown @ rest
    \<and> page_entries r = page_entries p @ map entry_value shown
    \<and> (shown \<noteq> [] \<longrightarrow> lc_complete_coverage ctx \<and> is_nullish (field p ''nextCursor'')
         \<and> length (page_entries r) \<le> lc_limit ctx)
    \<and> (\<forall>w \<in> set (lc_virtual_models ctx).
         times_named ''id'' (ve_id w) r = (if w \<in> set shown then 1 else 0)
         \<and> times_named ''model'' (ve_model w) r = (if w \<in> set shown then 1 else 0))
    \<and> (\<forall>s \<in> entry_text ''id'' ` set (page_entries p) \<union> entry_text ''model'' ` set (page_entries p)
             \<union> set (lc_observed_ids ctx) \<union> set (lc_observed_models ctx).
         \<not> is_reserved_web_model_reference (JStr s))
    \<and> (\<forall>w \<in> set (lc_virtual_models ctx).
         ve_id w \<notin> entry_text ''id'' ` set (page_entries p) \<union> set (lc_observed_ids ctx)
         \<and> ve_model w \<notin> entry_text ''model'' ` set (page_entries p) \<union> set (lc_observed_models ctx))
    \<and> (lc_complete_coverage ctx \<longrightarrow>
         rest = [] \<and> field r ''nextCursor'' = JNull
         \<or> (\<exists>s e. field r ''nextCursor'' = JStr s \<and> map_of (ck_entries (mc_store c')) s = Some e
                \<and> state_entries (sc_value e) = rest))"
proof -
  have unique: "unique_entries (lc_virtual_models ctx)" using catalog_run_unique [OF assms(1)] assms(2) by blast
  from merged_page_split [OF assms(3)] obtain shown rest where
    models: "lc_virtual_models ctx = shown @ rest"
    and page: "page_entries r = page_entries p @ map entry_value shown"
    and room: "shown \<noteq> [] \<longrightarrow> lc_complete_coverage ctx \<and> is_nullish (field p ''nextCursor'')
         \<and> length (page_entries r) \<le> lc_limit ctx"
    and cursor: "lc_complete_coverage ctx \<longrightarrow>
         rest = [] \<and> field r ''nextCursor'' = JNull
         \<or> (\<exists>s e. field r ''nextCursor'' = JStr s \<and> map_of (ck_entries (mc_store c')) s = Some e
                \<and> state_entries (sc_value e) = rest)" by blast
  note free = merged_page_free [OF assms(3)]
  have "\<forall>w \<in> set (lc_virtual_models ctx).
         times_named ''id'' (ve_id w) r = (if w \<in> set shown then 1 else 0)
         \<and> times_named ''model'' (ve_model w) r = (if w \<in> set shown then 1 else 0)"
    using shown_named_once [OF unique [unfolded models] _ page] free(2) by (simp add: models)
  then show ?thesis using models page room cursor free by blast
qed

lemma sample_catalog_run: "catalog_run sample_catalog [sample_context]"
proof -
  have "new_model_catalog (NInt 4) (NInt 100) (Some (js ''p:'')) (Some (NInt 2)) None None
      = Inr sample_catalog" by code_simp
  moreover have "prepare_list (NInt 5) (NInt 5) (sample_random 8)
      \<lparr>lq_cursor = None, lq_include_hidden = None, lq_limit = None\<rparr> sample_catalog
    = (Inr (Forward_Native sample_context None), sample_catalog)" by code_simp
  ultimately show ?thesis by (blast intro: catalog_run.intros)
qed

theorem merged_page_collision_free_witness:
  "\<exists>shown rest. [sample_entry] = shown @ rest
    \<and> page_entries (projr (fst sample_merged)) = page_entries sample_page @ map entry_value shown
    \<and> times_named ''id'' (ve_id sample_entry) (projr (fst sample_merged)) \<le> 1"
proof -
  have "sample_context \<in> set [sample_context]" by simp
  from merged_page_collision_free [OF sample_catalog_run this sample_merged_Inr] show ?thesis
  proof (elim exE conjE)
    fix shown rest
    assume models: "lc_virtual_models sample_context = shown @ rest"
      and page: "page_entries (projr (fst sample_merged)) = page_entries sample_page @ map entry_value shown"
      and named: "\<forall>w \<in> set (lc_virtual_models sample_context).
        times_named ''id'' (ve_id w) (projr (fst sample_merged)) = (if w \<in> set shown then 1 else 0)
        \<and> times_named ''model'' (ve_model w) (projr (fst sample_merged)) = (if w \<in> set shown then 1 else 0)"
    have eq: "lc_virtual_models sample_context = [sample_entry]" by (simp add: sample_context_def)
    have "times_named ''id'' (ve_id sample_entry) (projr (fst sample_merged)) \<le> 1"
      using bspec [OF named, of sample_entry] by (simp add: eq)
    then show ?thesis using models [unfolded eq] page by blast
  qed
qed

text \<open>
  A merged page is the native page, and only at the end of the catalog more: the native entries
  come first and unchanged, Web models follow only when the native catalog is exhausted and was
  read from its start, as many as the limit leaves room for, and the cursor handed out is either
  none or one of the catalog's own, never the native one.
\<close>

theorem merged_page_contents:
  assumes "merge_native_page clock random ctx (JObj p) c = (Inr r, c')"
  shows "\<exists>n. page_entries r = page_entries p @ map entry_value (take n (lc_virtual_models ctx))
    \<and> (0 < n \<longrightarrow> lc_complete_coverage ctx \<and> is_nullish (field p ''nextCursor'')
              \<and> n + length (page_entries p) = lc_limit ctx)
    \<and> (field r ''nextCursor'' = JNull
        \<or> (\<exists>s. field r ''nextCursor'' = JStr s \<and> owns_cursor (mc_store c') (JStr s)))"
proof (rule merge_Inr [OF assms])
  fix page
  assume page: "normalize_native_page (JObj p) = Inr page"
    and merge: "merge_checked_page clock random ctx page (observe ''id'' page (lc_observed_ids ctx))
        (observe ''model'' page (lc_observed_models ctx)) c = (Inr r, c')"
  from normalize_native_page_Inr [OF page] have entries: "page_entries page = page_entries p"
    by (auto simp: page_entries_def)
  from normalize_native_page_Inr [OF page]
  have cursor: "field page ''nextCursor'' = JNull \<or> (\<exists>s. field page ''nextCursor'' = JStr s)" by blast
  have null: "field page ''nextCursor'' = JNull \<longrightarrow> is_nullish (field p ''nextCursor'')"
    using normalize_native_page_Inr [OF page] by (auto split: if_splits)
  from merge cursor show ?thesis
  proof (cases rule: merge_checked_cases)
    case (continued native cursor store)
    then show ?thesis
      using created_owned by (intro exI [of _ 0]) (auto simp: entries)
  next
    case bare
    then show ?thesis by (intro exI [of _ 0]) (auto simp: entries)
  next
    case (appended slots cursor store)
    then show ?thesis
      using null rest_owned
      by (intro exI [of _ slots]) (auto simp: entries split: option.split)
  qed
qed

theorem merged_page_contents_witness:
  "\<exists>n. page_entries (projr (fst sample_merged)) = page_entries sample_page @ map entry_value (take n [sample_entry])"
  using merged_page_contents [OF sample_merged_Inr] by (auto simp: sample_context_def)

text \<open>
  C9. Every Web model is listed exactly once, in order: once the native catalog is exhausted, the
  Web models on the merged page followed by those on the pages reached through the cursors are
  the Web models of the listing, for a client that reads each cursor, at whatever time, before it
  expires and an entropy source that does not repeat itself; and the client is done after at most
  one request per Web model.
\<close>

theorem web_models_listed_once:
  assumes "merge_native_page clock random0 ctx (JObj p) c = (Inr r, c')"
    and "lc_complete_coverage ctx" and "is_nullish (field p ''nextCursor'')"
    and "store_inv (mc_store c)" and "read_now clock = Inr now"
    and "in_time (length (lc_virtual_models ctx)) (ck_ttl (mc_store c)) now reads creates"
    and "normalize_limit (case limit of None \<Rightarrow> NInt (int (mc_default_limit c)) | Some l \<Rightarrow> l) = Inr n"
    and "fresh_entropy (length (lc_virtual_models ctx)) random c'"
  shows "\<exists>shown rest. page_entries r = page_entries p @ map entry_value shown
    \<and> follow_cursors (length (lc_virtual_models ctx)) reads creates random limit (lc_include_hidden ctx)
         (next_cursor_of r) c' = Some rest
    \<and> shown @ rest = lc_virtual_models ctx"
proof (rule merge_Inr [OF assms(1)])
  fix page
  assume page: "normalize_native_page (JObj p) = Inr page"
    and merge: "merge_checked_page clock random0 ctx page (observe ''id'' page (lc_observed_ids ctx))
        (observe ''model'' page (lc_observed_models ctx)) c = (Inr r, c')"
  from normalize_native_page_Inr [OF page] have entries: "page_entries page = page_entries p"
    by (auto simp: page_entries_def)
  have null: "field page ''nextCursor'' = JNull"
    using normalize_native_page_Inr [OF page] assms(3) by (auto split: if_splits)
  then have cursor: "field page ''nextCursor'' = JNull \<or> (\<exists>s. field page ''nextCursor'' = JStr s)" ..
  from merge cursor show ?thesis
  proof (cases rule: merge_checked_cases)
    case bare
    then show ?thesis using assms(2) null entries by (auto simp: next_cursor_of_def)
  next
    case (appended slots cursor store)
    have frame: "ck_ttl store = ck_ttl (mc_store c)" "store_inv store"
      and stands: "stands_for c' (now + ck_ttl (mc_store c)) (lc_include_hidden ctx) cursor (drop slots (lc_virtual_models ctx))"
      using rest_stands [OF appended(4) assms(4,5)] appended(6) by simp_all
    have "follow_cursors (length (lc_virtual_models ctx)) reads creates random limit (lc_include_hidden ctx) cursor c'
        = Some (drop slots (lc_virtual_models ctx))"
      by (rule follow_cursors_complete [where start = now and n = n])
        (use frame stands assms(5-8) appended(6) in \<open>simp_all cong: option.case_cong\<close>)
    moreover have "next_cursor_of r = cursor"
      by (simp add: appended(5) next_cursor_of_def split: option.split)
    moreover have "page_entries r = page_entries p @ map entry_value (take slots (lc_virtual_models ctx))"
      by (simp add: appended(5) entries)
    ultimately show ?thesis by (metis append_take_drop_id)
  qed (use null in simp)
qed

theorem web_models_listed_once_witness:
  "follow_cursors 1 (\<lambda>_. NInt 40) (\<lambda>_. NInt 41) sample_random None False
     (next_cursor_of (projr (fst sample_merged))) (snd sample_merged) = Some [sample_entry]"
proof -
  let ?c' = "snd sample_merged"
  have inv: "store_inv (mc_store sample_catalog)"
    by (simp add: store_inv_def sample_catalog_def)
  have clock: "read_now (NInt 5) = Inr 5" by (simp add: read_now_def)
  have limit: "normalize_limit (case None of None \<Rightarrow> NInt (int (mc_default_limit sample_catalog)) | Some l \<Rightarrow> l) = Inr 2"
    by code_simp
  have "ck_ttl (mc_store sample_catalog) = 100" by (simp add: sample_catalog_def)
  then have ttl: "in_time (length (lc_virtual_models sample_context)) (ck_ttl (mc_store sample_catalog)) 5
      (\<lambda>_. NInt 40) (\<lambda>_. NInt 41)"
    by (simp add: in_time_def read_now_def sample_context_def)
  have "valid_entropy (sample_random 0 0) = Some (replicate 20 97)" by code_simp
  moreover have "ck_prefix (mc_store ?c') @ replicate 20 97 \<notin> fst ` set (ck_entries (mc_store ?c'))"
  proof -
    have "map_of (ck_entries (mc_store ?c')) (ck_prefix (mc_store ?c') @ replicate 20 97) = None" by code_simp
    then show ?thesis by (simp add: map_of_eq_None_iff)
  qed
  ultimately have fresh: "fresh_entropy (length (lc_virtual_models sample_context)) sample_random ?c'"
    by (auto simp: fresh_entropy_def sample_context_def intro!: exI [of _ "\<lambda>_. replicate 20 97"] inj_onI)
  have only_native: "page_entries (projr (fst sample_merged)) = page_entries sample_page" by code_simp
  have nullish: "is_nullish (field sample_page ''nextCursor'')" by code_simp
  have complete: "lc_complete_coverage sample_context" by (simp add: sample_context_def)
  from web_models_listed_once [OF sample_merged_Inr complete nullish inv clock ttl limit fresh] only_native
  show ?thesis by (auto simp: sample_context_def)
qed

end
