(* ===== verification/Bridge_Frames.thy ===== *)
theory Bridge_Frames
  imports Js_Value
begin

text \<open>
  The frames of the Native Messaging protocol (\<open>packages/protocol/src/native-messaging.ts\<close>,
  \<open>errors.ts\<close>, \<open>safe-text.ts\<close>): one reader per schema, which gives the typed value of what the
  schema accepts and nothing otherwise, and the writer of a typed frame. A schema object is
  strict, so every reader of an object refuses unknown keys.
\<close>

section \<open>Schema combinators\<close>

text \<open>\<open>z.string().min(lo).max(hi)\<close> with a pattern or refinement.\<close>

definition read_text :: "nat \<Rightarrow> nat \<Rightarrow> (jstr \<Rightarrow> bool) \<Rightarrow> jval \<Rightarrow> jstr option" where
  "read_text lo hi ok v =
     (case v of JStr s \<Rightarrow> if lo \<le> length s \<and> length s \<le> hi \<and> ok s then Some s else None | _ \<Rightarrow> None)"

definition read_bool :: "jval \<Rightarrow> bool option" where
  "read_bool v = (case v of JBool b \<Rightarrow> Some b | _ \<Rightarrow> None)"

text \<open>\<open>z.literal(value)\<close> and \<open>z.enum\<close> over a table of texts.\<close>

definition expect :: "jval \<Rightarrow> jval \<Rightarrow> unit option" where
  "expect w v = (if v = w then Some () else None)"

fun lookup_text :: "(string \<times> 'a) list \<Rightarrow> jstr \<Rightarrow> 'a option" where
  "lookup_text [] s = None"
| "lookup_text ((k, x) # table) s = (if s = js k then Some x else lookup_text table s)"

definition read_enum :: "(string \<times> 'a) list \<Rightarrow> jval \<Rightarrow> 'a option" where
  "read_enum table v = (case v of JStr s \<Rightarrow> lookup_text table s | _ \<Rightarrow> None)"

text \<open>\<open>z.number().int().nonnegative().max(Number.MAX_SAFE_INTEGER)\<close>; \<open>-0\<close> is zero.\<close>

definition read_sequence :: "jval \<Rightarrow> nat option" where
  "read_sequence v =
     (case v of
        JNum (NInt i) \<Rightarrow> if 0 \<le> i \<and> i \<le> max_safe_integer then Some (nat i) else None
      | JNum NNegZero \<Rightarrow> Some 0
      | _ \<Rightarrow> None)"

definition read_positive :: "jval \<Rightarrow> nat option" where
  "read_positive v =
     (case v of
        JNum (NInt i) \<Rightarrow> if 0 < i \<and> i \<le> max_safe_integer then Some (nat i) else None
      | _ \<Rightarrow> None)"

text \<open>\<open>z.array(element).min(lo).max(hi)\<close>\<close>

fun read_each :: "(jval \<Rightarrow> 'a option) \<Rightarrow> jval list \<Rightarrow> 'a list option" where
  "read_each f [] = Some []"
| "read_each f (v # vs) = Option.bind (f v) (\<lambda>x. Option.bind (read_each f vs) (\<lambda>xs. Some (x # xs)))"

definition read_array :: "nat \<Rightarrow> nat \<Rightarrow> (jval \<Rightarrow> 'a option) \<Rightarrow> jval \<Rightarrow> 'a list option" where
  "read_array lo hi f v =
     (case v of JArr vs \<Rightarrow> if lo \<le> length vs \<and> length vs \<le> hi then read_each f vs else None | _ \<Rightarrow> None)"

text \<open>\<open>z.object(shape).strict()\<close>: a record whose keys are all in the shape.\<close>

definition strict_object :: "string list \<Rightarrow> jval \<Rightarrow> data_record option" where
  "strict_object shape v =
     (case v of
        JObj r \<Rightarrow> if list_all (\<lambda>(k, _). k \<in> set (map js shape)) r then Some r else None
      | _ \<Rightarrow> None)"

text \<open>\<open>.refine(p)\<close>\<close>

definition require :: "bool \<Rightarrow> unit option" where
  "require b = (if b then Some () else None)"

abbreviation num :: "nat \<Rightarrow> jval" where
  "num n \<equiv> JNum (NInt (int n))"

section \<open>Text schemas\<close>

definition is_safe_single_line_text :: "jstr \<Rightarrow> bool" where
  "is_safe_single_line_text s \<longleftrightarrow>
     \<not> list_ex (\<lambda>c. c \<le> 31 \<or> (127 \<le> c \<and> c \<le> 159)) s
     \<and> \<not> list_ex (\<lambda>c. (8234 \<le> c \<and> c \<le> 8238) \<or> (8294 \<le> c \<and> c \<le> 8297)) s"

definition opaque_id_pattern :: "jstr \<Rightarrow> bool" where
  "opaque_id_pattern s =
     (case s of [] \<Rightarrow> False | c # r \<Rightarrow> is_alnum_unit c \<and> list_all (\<lambda>d. is_alnum_unit d \<or> d \<in> {46, 95, 58, 45}) r)"

definition model_id_pattern :: "jstr \<Rightarrow> bool" where
  "model_id_pattern s =
     (case s of [] \<Rightarrow> False | c # r \<Rightarrow> is_alnum_unit c \<and> list_all (\<lambda>d. is_alnum_unit d \<or> d \<in> {46, 95, 58, 47, 45}) r)"

definition request_id_schema :: "jval \<Rightarrow> jstr option" where
  "request_id_schema = read_text 1 128 opaque_id_pattern"

definition catalog_revision_schema :: "jval \<Rightarrow> jstr option" where
  "catalog_revision_schema = read_text 1 128 opaque_id_pattern"

definition session_id_schema :: "jval \<Rightarrow> jstr option" where
  "session_id_schema = read_text 1 128 opaque_id_pattern"

definition turn_id_schema :: "jval \<Rightarrow> jstr option" where
  "turn_id_schema = read_text 1 128 opaque_id_pattern"

definition model_id_schema :: "jval \<Rightarrow> jstr option" where
  "model_id_schema = read_text 1 256 model_id_pattern"

definition conversation_ownership_id_schema :: "jval \<Rightarrow> jstr option" where
  "conversation_ownership_id_schema = read_text 1 128 opaque_id_pattern"

definition document_id_schema :: "jval \<Rightarrow> jstr option" where
  "document_id_schema = read_text 1 256 opaque_id_pattern"

definition lease_id_schema :: "jval \<Rightarrow> jstr option" where
  "lease_id_schema = read_text 1 128 opaque_id_pattern"

definition implementation_version_schema :: "jval \<Rightarrow> jstr option" where
  "implementation_version_schema = read_text 1 64 opaque_id_pattern"

definition display_name_schema :: "jval \<Rightarrow> jstr option" where
  "display_name_schema = read_text 1 128 is_safe_single_line_text"

definition reasoning_effort_schema :: "jval \<Rightarrow> jstr option" where
  "reasoning_effort_schema = read_text 1 64 opaque_id_pattern"

lemmas text_schema_defs =
  request_id_schema_def catalog_revision_schema_def session_id_schema_def turn_id_schema_def
  model_id_schema_def conversation_ownership_id_schema_def document_id_schema_def
  lease_id_schema_def implementation_version_schema_def display_name_schema_def
  reasoning_effort_schema_def

section \<open>Enumerations\<close>

datatype peer_role = Peer_Bridge | Peer_Native_Host | Peer_Extension
datatype close_reason = By_User | Shutdown | Replaced | Transport_Lost | Page_Unavailable
datatype finish_reason = Stop | Length_Limit
datatype delta_channel = Output_Text | Reasoning | Commentary

datatype bridge_error_code =
    Protocol_Invalid_Message | Protocol_Unsupported_Version | Protocol_Sequence_Violation
  | Transport_Unavailable | Transport_Timeout
  | Session_Not_Connected | Session_Already_Connected | Session_Closed
  | Capability_Unsupported | Model_Unavailable
  | Turn_Not_Found | Turn_Already_Active | Turn_Was_Cancelled
  | Browser_Unavailable | Browser_State_Changed | Internal_Error

definition peer_roles :: "(string \<times> peer_role) list" where
  "peer_roles = [(''bridge'', Peer_Bridge), (''nativeHost'', Peer_Native_Host), (''extension'', Peer_Extension)]"

definition close_reasons :: "(string \<times> close_reason) list" where
  "close_reasons =
     [(''user'', By_User), (''shutdown'', Shutdown), (''replaced'', Replaced),
      (''transportLost'', Transport_Lost), (''pageUnavailable'', Page_Unavailable)]"

definition finish_reasons :: "(string \<times> finish_reason) list" where
  "finish_reasons = [(''stop'', Stop), (''length'', Length_Limit)]"

definition delta_channels :: "(string \<times> delta_channel) list" where
  "delta_channels = [(''outputText'', Output_Text), (''reasoning'', Reasoning), (''commentary'', Commentary)]"

definition bridge_error_codes :: "(string \<times> bridge_error_code) list" where
  "bridge_error_codes =
     [(''protocol.invalid_message'', Protocol_Invalid_Message),
      (''protocol.unsupported_version'', Protocol_Unsupported_Version),
      (''protocol.sequence_violation'', Protocol_Sequence_Violation),
      (''transport.unavailable'', Transport_Unavailable), (''transport.timeout'', Transport_Timeout),
      (''session.not_connected'', Session_Not_Connected),
      (''session.already_connected'', Session_Already_Connected), (''session.closed'', Session_Closed),
      (''capability.unsupported'', Capability_Unsupported), (''model.unavailable'', Model_Unavailable),
      (''turn.not_found'', Turn_Not_Found), (''turn.already_active'', Turn_Already_Active),
      (''turn.cancelled'', Turn_Was_Cancelled), (''browser.unavailable'', Browser_Unavailable),
      (''browser.state_changed'', Browser_State_Changed), (''internal.error'', Internal_Error)]"

text \<open>The text of a value, the first of its table.\<close>

fun text_of :: "(string \<times> 'a) list \<Rightarrow> 'a \<Rightarrow> jstr" where
  "text_of [] x = []"
| "text_of ((k, y) # table) x = (if y = x then js k else text_of table x)"

definition enum_value :: "(string \<times> 'a) list \<Rightarrow> 'a \<Rightarrow> jval" where
  "enum_value table x = JStr (text_of table x)"

text \<open>A table that lists every value once under distinct texts is read back.\<close>

lemma text_of_listed: "x \<in> set (map snd table) \<Longrightarrow> \<exists>k. k \<in> set (map fst table) \<and> text_of table x = js k"
proof (induction table)
  case (Cons entry table)
  obtain k y where entry: "entry = (k, y)" by (cases entry)
  show ?case
  proof (cases "y = x")
    case True
    then show ?thesis by (auto simp: entry)
  next
    case False
    with Cons obtain k' where "k' \<in> set (map fst table)" and "text_of table x = js k'"
      by (auto simp only: entry list.map list.set snd_conv)
    with False show ?thesis by (intro exI [of _ k']) (simp add: entry)
  qed
qed simp

lemma lookup_text_of:
  "distinct (map fst table) \<Longrightarrow> x \<in> set (map snd table) \<Longrightarrow> lookup_text table (text_of table x) = Some x"
proof (induction table)
  case (Cons entry table)
  obtain k y where entry: "entry = (k, y)" by (cases entry)
  show ?case
  proof (cases "y = x")
    case True
    then show ?thesis by (simp add: entry)
  next
    case False
    with Cons.prems(2) have listed: "x \<in> set (map snd table)" by (simp add: entry)
    from text_of_listed [OF listed]
    obtain k' where k': "k' \<in> set (map fst table)" "text_of table x = js k'"
      by (elim exE conjE)
    have "k \<notin> set (map fst table)" using Cons.prems(1) by (simp add: entry)
    with k'(1) have "k' \<noteq> k" by metis
    moreover have "lookup_text table (text_of table x) = Some x"
      using Cons.prems(1) listed by (intro Cons.IH) (simp_all add: entry)
    ultimately show ?thesis using False k'(2) by (simp add: entry)
  qed
qed simp

lemma read_enum_value:
  "distinct (map fst table) \<Longrightarrow> x \<in> set (map snd table) \<Longrightarrow> read_enum table (enum_value table x) = Some x"
  by (simp add: read_enum_def enum_value_def lookup_text_of)

lemma read_enums [simp]:
  "read_enum peer_roles (enum_value peer_roles p) = Some p"
  "read_enum close_reasons (enum_value close_reasons c) = Some c"
  "read_enum finish_reasons (enum_value finish_reasons f) = Some f"
  "read_enum delta_channels (enum_value delta_channels d) = Some d"
  "read_enum bridge_error_codes (enum_value bridge_error_codes e) = Some e"
proof -
  show "read_enum peer_roles (enum_value peer_roles p) = Some p"
    by (rule read_enum_value; cases p) (simp_all add: peer_roles_def)
  show "read_enum close_reasons (enum_value close_reasons c) = Some c"
    by (rule read_enum_value; cases c) (simp_all add: close_reasons_def)
  show "read_enum finish_reasons (enum_value finish_reasons f) = Some f"
    by (rule read_enum_value; cases f) (simp_all add: finish_reasons_def)
  show "read_enum delta_channels (enum_value delta_channels d) = Some d"
    by (rule read_enum_value; cases d) (simp_all add: delta_channels_def)
  show "read_enum bridge_error_codes (enum_value bridge_error_codes e) = Some e"
    by (rule read_enum_value; cases e) (simp_all add: bridge_error_codes_def)
qed

section \<open>Payload data\<close>

record effort_option =
  eo_effort :: jstr
  eo_description :: jstr

record model_descriptor =
  md_id :: jstr
  md_display_name :: jstr
  md_efforts :: "effort_option list"
  md_default_effort :: jstr

record browser_capabilities =
  bc_catalog_revision :: jstr
  bc_model_discovery :: bool
  bc_streaming :: bool
  bc_cancellation :: bool
  bc_temporary_chat :: bool
  bc_models :: "model_descriptor list"

record document_binding =
  db_document_id :: jstr
  db_generation :: nat
  db_tab_id :: nat

record active_status =
  as_binding :: document_binding
  as_ownership_id :: jstr
  as_expires :: nat
  as_issued :: nat
  as_last_activity :: nat
  as_lease_id :: jstr
  as_revision :: nat

datatype agent_status = Active_Status active_status | Inactive_Status nat

record bridge_error =
  be_code :: bridge_error_code
  be_message :: jstr
  be_retryable :: bool

definition AGENT_ACTIVATION_INACTIVITY_TIMEOUT_MS :: nat where
  "AGENT_ACTIVATION_INACTIVITY_TIMEOUT_MS = 15 * 60 * 1000"

definition MAX_TURN_INPUT_ITEMS :: nat where "MAX_TURN_INPUT_ITEMS = 16"
definition MAX_TURN_INPUT_TEXT_CHARACTERS :: nat where "MAX_TURN_INPUT_TEXT_CHARACTERS = 65536"
definition MAX_TURN_INPUT_TOTAL_CHARACTERS :: nat where "MAX_TURN_INPUT_TOTAL_CHARACTERS = 262144"
definition MAX_TURN_DELTA_CHARACTERS :: nat where "MAX_TURN_DELTA_CHARACTERS = 16384"

section \<open>Payload schemas\<close>

definition reasoning_effort_option_schema :: "jval \<Rightarrow> effort_option option" where
  "reasoning_effort_option_schema v =
     Option.bind (strict_object [''reasoningEffort'', ''description''] v) (\<lambda>r.
     Option.bind (reasoning_effort_schema (field r ''reasoningEffort'')) (\<lambda>effort.
     Option.bind (read_text 1 256 is_safe_single_line_text (field r ''description'')) (\<lambda>description.
     Some \<lparr>eo_effort = effort, eo_description = description\<rparr>)))"

text \<open>\<open>z.tuple([z.literal("text")])\<close>\<close>

definition text_modality :: "jval \<Rightarrow> unit option" where
  "text_modality v = expect (JArr [JStr (js ''text'')]) v"

definition web_model_descriptor_schema :: "jval \<Rightarrow> model_descriptor option" where
  "web_model_descriptor_schema v =
     Option.bind (strict_object [''id'', ''displayName'', ''inputModalities'',
                    ''supportedReasoningEfforts'', ''defaultReasoningEffort''] v) (\<lambda>r.
     Option.bind (model_id_schema (field r ''id'')) (\<lambda>model.
     Option.bind (display_name_schema (field r ''displayName'')) (\<lambda>name.
     Option.bind (text_modality (field r ''inputModalities'')) (\<lambda>_.
     Option.bind (read_array 1 16 reasoning_effort_option_schema (field r ''supportedReasoningEfforts'')) (\<lambda>efforts.
     Option.bind (reasoning_effort_schema (field r ''defaultReasoningEffort'')) (\<lambda>default_effort.
     Option.bind (require (distinct (map eo_effort efforts))) (\<lambda>_.
     Option.bind (require (default_effort \<in> set (map eo_effort efforts))) (\<lambda>_.
     Some \<lparr>md_id = model, md_display_name = name, md_efforts = efforts,
           md_default_effort = default_effort\<rparr>))))))))"

definition browser_capabilities_schema :: "jval \<Rightarrow> browser_capabilities option" where
  "browser_capabilities_schema v =
     Option.bind (strict_object [''catalogRevision'', ''modelDiscovery'', ''streaming'', ''cancellation'',
                    ''temporaryChat'', ''imageInput'', ''toolCalls'', ''models''] v) (\<lambda>r.
     Option.bind (catalog_revision_schema (field r ''catalogRevision'')) (\<lambda>revision.
     Option.bind (read_bool (field r ''modelDiscovery'')) (\<lambda>discovery.
     Option.bind (read_bool (field r ''streaming'')) (\<lambda>streaming.
     Option.bind (read_bool (field r ''cancellation'')) (\<lambda>cancellation.
     Option.bind (read_bool (field r ''temporaryChat'')) (\<lambda>temporary.
     Option.bind (expect (JBool False) (field r ''imageInput'')) (\<lambda>_.
     Option.bind (expect (JBool False) (field r ''toolCalls'')) (\<lambda>_.
     Option.bind (read_array 0 128 web_model_descriptor_schema (field r ''models'')) (\<lambda>models.
     Option.bind (require (distinct (map md_id models))) (\<lambda>_.
     Option.bind (require (discovery \<or> models = [])) (\<lambda>_.
     Some \<lparr>bc_catalog_revision = revision, bc_model_discovery = discovery, bc_streaming = streaming,
           bc_cancellation = cancellation, bc_temporary_chat = temporary, bc_models = models\<rparr>)))))))))))"

definition document_binding_schema :: "jval \<Rightarrow> document_binding option" where
  "document_binding_schema v =
     Option.bind (strict_object [''documentId'', ''generation'', ''tabId''] v) (\<lambda>r.
     Option.bind (document_id_schema (field r ''documentId'')) (\<lambda>doc.
     Option.bind (read_sequence (field r ''generation'')) (\<lambda>gen.
     Option.bind (read_sequence (field r ''tabId'')) (\<lambda>tab.
     Some \<lparr>db_document_id = doc, db_generation = gen, db_tab_id = tab\<rparr>))))"

text \<open>The timestamps of an active status agree: subtraction is on integers, as in the source.\<close>

definition consistent_timestamps :: "active_status \<Rightarrow> bool" where
  "consistent_timestamps a \<longleftrightarrow>
     \<not> (as_last_activity a < as_issued a
        \<or> max_safe_integer - int AGENT_ACTIVATION_INACTIVITY_TIMEOUT_MS < int (as_last_activity a)
        \<or> as_expires a \<noteq> as_last_activity a + AGENT_ACTIVATION_INACTIVITY_TIMEOUT_MS)"

definition active_status_schema :: "jval \<Rightarrow> active_status option" where
  "active_status_schema v =
     Option.bind (strict_object [''binding'', ''conversationOwnershipId'', ''expiresAtMs'', ''issuedAtMs'',
                    ''lastActivityAtMs'', ''leaseId'', ''revision'', ''state''] v) (\<lambda>r.
     Option.bind (document_binding_schema (field r ''binding'')) (\<lambda>binding.
     Option.bind (conversation_ownership_id_schema (field r ''conversationOwnershipId'')) (\<lambda>owner.
     Option.bind (read_sequence (field r ''expiresAtMs'')) (\<lambda>expires.
     Option.bind (read_sequence (field r ''issuedAtMs'')) (\<lambda>issued.
     Option.bind (read_sequence (field r ''lastActivityAtMs'')) (\<lambda>last_activity.
     Option.bind (lease_id_schema (field r ''leaseId'')) (\<lambda>lease.
     Option.bind (read_sequence (field r ''revision'')) (\<lambda>revision.
     Option.bind (expect (JStr (js ''active'')) (field r ''state'')) (\<lambda>_.
     let a = \<lparr>as_binding = binding, as_ownership_id = owner, as_expires = expires, as_issued = issued,
              as_last_activity = last_activity, as_lease_id = lease, as_revision = revision\<rparr> in
     Option.bind (require (consistent_timestamps a)) (\<lambda>_. Some a))))))))))"

definition inactive_status_schema :: "jval \<Rightarrow> nat option" where
  "inactive_status_schema v =
     Option.bind (strict_object [''revision'', ''state''] v) (\<lambda>r.
     Option.bind (read_sequence (field r ''revision'')) (\<lambda>revision.
     Option.bind (expect (JStr (js ''inactive'')) (field r ''state'')) (\<lambda>_. Some revision)))"

text \<open>\<open>z.discriminatedUnion("state", ...)\<close>: the discriminator picks the one schema that applies.\<close>

definition agent_status_schema :: "jval \<Rightarrow> agent_status option" where
  "agent_status_schema v =
     (case read_data_record v of
        None \<Rightarrow> None
      | Some r \<Rightarrow>
          if field r ''state'' = JStr (js ''active'')
          then map_option Active_Status (active_status_schema v)
          else if field r ''state'' = JStr (js ''inactive'')
          then map_option Inactive_Status (inactive_status_schema v)
          else None)"

definition text_input_schema :: "jval \<Rightarrow> jstr option" where
  "text_input_schema v =
     Option.bind (strict_object [''type'', ''text''] v) (\<lambda>r.
     Option.bind (expect (JStr (js ''text'')) (field r ''type'')) (\<lambda>_.
     read_text 1 MAX_TURN_INPUT_TEXT_CHARACTERS (\<lambda>_. True) (field r ''text'')))"

definition turn_input_schema :: "jval \<Rightarrow> jstr list option" where
  "turn_input_schema v =
     Option.bind (read_array 1 MAX_TURN_INPUT_ITEMS text_input_schema v) (\<lambda>items.
     Option.bind (require (sum_list (map length items) \<le> MAX_TURN_INPUT_TOTAL_CHARACTERS)) (\<lambda>_.
     Some items))"

definition agent_turn_input_schema :: "jval \<Rightarrow> jstr option" where
  "agent_turn_input_schema v =
     Option.bind (read_array 1 1 text_input_schema v) (\<lambda>items.
     case items of [item] \<Rightarrow> Some item | _ \<Rightarrow> None)"

definition bridge_error_schema :: "jval \<Rightarrow> bridge_error option" where
  "bridge_error_schema v =
     Option.bind (strict_object [''code'', ''message'', ''retryable''] v) (\<lambda>r.
     Option.bind (read_enum bridge_error_codes (field r ''code'')) (\<lambda>code.
     Option.bind (read_text 1 512 is_safe_single_line_text (field r ''message'')) (\<lambda>message.
     Option.bind (read_bool (field r ''retryable'')) (\<lambda>retryable.
     Some \<lparr>be_code = code, be_message = message, be_retryable = retryable\<rparr>))))"

definition NATIVE_MESSAGING_PROTOCOL_VERSION :: nat where "NATIVE_MESSAGING_PROTOCOL_VERSION = 2"
definition AGENT_WORKFLOW_PROTOCOL_VERSION :: nat where "AGENT_WORKFLOW_PROTOCOL_VERSION = 2"

definition supported_protocol_versions_schema :: "jval \<Rightarrow> nat list option" where
  "supported_protocol_versions_schema v =
     Option.bind (read_array 1 16 read_positive v) (\<lambda>versions.
     Option.bind (require (distinct versions)) (\<lambda>_.
     Option.bind (require (NATIVE_MESSAGING_PROTOCOL_VERSION \<in> set versions)) (\<lambda>_. Some versions)))"

end
