(* ===== verification/Frame_Schema.thy ===== *)
theory Frame_Schema
  imports Bridge_Frames
begin

text \<open>
  The 25 frames of the protocol (\<open>packages/protocol/src/native-messaging.ts\<close>): the typed frame,
  one reader per payload schema, the schema of a whole frame and the writer of a typed frame.
\<close>

datatype frame_type =
    T_Hello | T_Hello_Acknowledged | T_Heartbeat | T_Ack
  | T_Session_Connect | T_Session_Connected | T_Session_Disconnect | T_Session_Disconnected
  | T_Capabilities_Read | T_Capabilities_Result | T_Capabilities_Changed
  | T_Agent_Status_Read | T_Agent_Status_Result | T_Agent_Status_Changed
  | T_Agent_Activity_Note | T_Agent_Activity_Result | T_Agent_Turn_Start
  | T_Turn_Start | T_Turn_Started | T_Turn_Delta | T_Turn_Completed
  | T_Turn_Cancel | T_Turn_Cancelled | T_Turn_Failed | T_Error

definition frame_types :: "(string \<times> frame_type) list" where
  "frame_types =
     [(''hello'', T_Hello), (''hello/acknowledged'', T_Hello_Acknowledged), (''heartbeat'', T_Heartbeat),
      (''ack'', T_Ack), (''session/connect'', T_Session_Connect), (''session/connected'', T_Session_Connected),
      (''session/disconnect'', T_Session_Disconnect), (''session/disconnected'', T_Session_Disconnected),
      (''capabilities/read'', T_Capabilities_Read), (''capabilities/result'', T_Capabilities_Result),
      (''capabilities/changed'', T_Capabilities_Changed), (''agent/status/read'', T_Agent_Status_Read),
      (''agent/status/result'', T_Agent_Status_Result), (''agent/status/changed'', T_Agent_Status_Changed),
      (''agent/activity/note'', T_Agent_Activity_Note), (''agent/activity/result'', T_Agent_Activity_Result),
      (''agent/turn/start'', T_Agent_Turn_Start), (''turn/start'', T_Turn_Start),
      (''turn/started'', T_Turn_Started), (''turn/delta'', T_Turn_Delta),
      (''turn/completed'', T_Turn_Completed), (''turn/cancel'', T_Turn_Cancel),
      (''turn/cancelled'', T_Turn_Cancelled), (''turn/failed'', T_Turn_Failed), (''error'', T_Error)]"

record agent_turn =
  at_catalog_revision :: jstr
  at_expected :: active_status
  at_input :: jstr
  at_model :: jstr
  at_effort :: jstr
  at_session :: jstr
  at_turn :: jstr

record browser_turn =
  bt_session :: jstr
  bt_turn :: jstr
  bt_catalog_revision :: jstr
  bt_model :: jstr
  bt_effort :: jstr
  bt_input :: "jstr list"
  bt_temporary :: bool

datatype frame_body =
    Hello peer_role jstr "nat list"
  | Hello_Acknowledged peer_role jstr
  | Heartbeat
  | Ack nat
  | Session_Connect jstr
  | Session_Connected jstr
  | Session_Disconnect jstr "close_reason option"
  | Session_Disconnected jstr close_reason
  | Capabilities_Read jstr
  | Capabilities_Result jstr browser_capabilities
  | Capabilities_Changed jstr browser_capabilities
  | Agent_Status_Read jstr
  | Agent_Status_Result jstr agent_status
  | Agent_Status_Changed jstr agent_status
  | Agent_Activity_Note active_status jstr
  | Agent_Activity_Result jstr active_status
  | Agent_Turn_Start agent_turn
  | Turn_Start browser_turn
  | Turn_Started jstr jstr
  | Turn_Delta jstr jstr delta_channel jstr
  | Turn_Completed jstr jstr finish_reason
  | Turn_Cancel jstr jstr
  | Turn_Cancelled jstr jstr
  | Turn_Failed jstr jstr bridge_error
  | Error_Frame bridge_error

record frame =
  nf_request_id :: jstr
  nf_sequence :: nat
  nf_body :: frame_body

fun type_of_body :: "frame_body \<Rightarrow> frame_type" where
  "type_of_body (Hello _ _ _) = T_Hello"
| "type_of_body (Hello_Acknowledged _ _) = T_Hello_Acknowledged"
| "type_of_body Heartbeat = T_Heartbeat"
| "type_of_body (Ack _) = T_Ack"
| "type_of_body (Session_Connect _) = T_Session_Connect"
| "type_of_body (Session_Connected _) = T_Session_Connected"
| "type_of_body (Session_Disconnect _ _) = T_Session_Disconnect"
| "type_of_body (Session_Disconnected _ _) = T_Session_Disconnected"
| "type_of_body (Capabilities_Read _) = T_Capabilities_Read"
| "type_of_body (Capabilities_Result _ _) = T_Capabilities_Result"
| "type_of_body (Capabilities_Changed _ _) = T_Capabilities_Changed"
| "type_of_body (Agent_Status_Read _) = T_Agent_Status_Read"
| "type_of_body (Agent_Status_Result _ _) = T_Agent_Status_Result"
| "type_of_body (Agent_Status_Changed _ _) = T_Agent_Status_Changed"
| "type_of_body (Agent_Activity_Note _ _) = T_Agent_Activity_Note"
| "type_of_body (Agent_Activity_Result _ _) = T_Agent_Activity_Result"
| "type_of_body (Agent_Turn_Start _) = T_Agent_Turn_Start"
| "type_of_body (Turn_Start _) = T_Turn_Start"
| "type_of_body (Turn_Started _ _) = T_Turn_Started"
| "type_of_body (Turn_Delta _ _ _ _) = T_Turn_Delta"
| "type_of_body (Turn_Completed _ _ _) = T_Turn_Completed"
| "type_of_body (Turn_Cancel _ _) = T_Turn_Cancel"
| "type_of_body (Turn_Cancelled _ _) = T_Turn_Cancelled"
| "type_of_body (Turn_Failed _ _ _) = T_Turn_Failed"
| "type_of_body (Error_Frame _) = T_Error"

section \<open>Payload readers\<close>

definition session_payload_schema :: "jval \<Rightarrow> jstr option" where
  "session_payload_schema v =
     Option.bind (strict_object [''sessionId''] v) (\<lambda>r. session_id_schema (field r ''sessionId''))"

definition turn_payload_schema :: "jval \<Rightarrow> (jstr \<times> jstr) option" where
  "turn_payload_schema v =
     Option.bind (strict_object [''sessionId'', ''turnId''] v) (\<lambda>r.
     Option.bind (session_id_schema (field r ''sessionId'')) (\<lambda>session.
     Option.bind (turn_id_schema (field r ''turnId'')) (\<lambda>turn. Some (session, turn))))"

definition agent_status_payload_schema :: "jval \<Rightarrow> (jstr \<times> agent_status) option" where
  "agent_status_payload_schema v =
     Option.bind (strict_object [''agentProtocolVersion'', ''sessionId'', ''status''] v) (\<lambda>r.
     Option.bind (expect (num AGENT_WORKFLOW_PROTOCOL_VERSION) (field r ''agentProtocolVersion'')) (\<lambda>_.
     Option.bind (session_id_schema (field r ''sessionId'')) (\<lambda>session.
     Option.bind (agent_status_schema (field r ''status'')) (\<lambda>status. Some (session, status)))))"

definition hello_schema :: "jval \<Rightarrow> frame_body option" where
  "hello_schema v =
     Option.bind (strict_object [''peer'', ''implementationVersion'', ''supportedProtocolVersions''] v) (\<lambda>r.
     Option.bind (read_enum peer_roles (field r ''peer'')) (\<lambda>peer.
     Option.bind (implementation_version_schema (field r ''implementationVersion'')) (\<lambda>version.
     Option.bind (supported_protocol_versions_schema (field r ''supportedProtocolVersions'')) (\<lambda>versions.
     Some (Hello peer version versions)))))"

definition hello_acknowledged_schema :: "jval \<Rightarrow> frame_body option" where
  "hello_acknowledged_schema v =
     Option.bind (strict_object [''peer'', ''implementationVersion''] v) (\<lambda>r.
     Option.bind (read_enum peer_roles (field r ''peer'')) (\<lambda>peer.
     Option.bind (implementation_version_schema (field r ''implementationVersion'')) (\<lambda>version.
     Some (Hello_Acknowledged peer version))))"

definition heartbeat_schema :: "jval \<Rightarrow> frame_body option" where
  "heartbeat_schema v = map_option (\<lambda>_. Heartbeat) (strict_object [] v)"

definition ack_schema :: "jval \<Rightarrow> frame_body option" where
  "ack_schema v =
     Option.bind (strict_object [''acknowledgedSequence''] v) (\<lambda>r.
     map_option Ack (read_sequence (field r ''acknowledgedSequence'')))"

definition session_disconnect_schema :: "jval \<Rightarrow> frame_body option" where
  "session_disconnect_schema v =
     Option.bind (strict_object [''sessionId'', ''reason''] v) (\<lambda>r.
     Option.bind (session_id_schema (field r ''sessionId'')) (\<lambda>session.
     if field r ''reason'' = JUndef then Some (Session_Disconnect session None)
     else map_option (\<lambda>reason. Session_Disconnect session (Some reason))
            (read_enum close_reasons (field r ''reason''))))"

definition session_disconnected_schema :: "jval \<Rightarrow> frame_body option" where
  "session_disconnected_schema v =
     Option.bind (strict_object [''sessionId'', ''reason''] v) (\<lambda>r.
     Option.bind (session_id_schema (field r ''sessionId'')) (\<lambda>session.
     map_option (Session_Disconnected session) (read_enum close_reasons (field r ''reason''))))"

definition capabilities_payload_schema :: "jval \<Rightarrow> (jstr \<times> browser_capabilities) option" where
  "capabilities_payload_schema v =
     Option.bind (strict_object [''sessionId'', ''capabilities''] v) (\<lambda>r.
     Option.bind (session_id_schema (field r ''sessionId'')) (\<lambda>session.
     map_option (Pair session) (browser_capabilities_schema (field r ''capabilities''))))"

definition agent_activity_note_schema :: "jval \<Rightarrow> frame_body option" where
  "agent_activity_note_schema v =
     Option.bind (strict_object [''expected'', ''sessionId''] v) (\<lambda>r.
     Option.bind (active_status_schema (field r ''expected'')) (\<lambda>expected.
     map_option (Agent_Activity_Note expected) (session_id_schema (field r ''sessionId''))))"

definition agent_activity_result_schema :: "jval \<Rightarrow> frame_body option" where
  "agent_activity_result_schema v =
     Option.bind (strict_object [''agentProtocolVersion'', ''sessionId'', ''status''] v) (\<lambda>r.
     Option.bind (expect (num AGENT_WORKFLOW_PROTOCOL_VERSION) (field r ''agentProtocolVersion'')) (\<lambda>_.
     Option.bind (session_id_schema (field r ''sessionId'')) (\<lambda>session.
     map_option (Agent_Activity_Result session) (active_status_schema (field r ''status'')))))"

definition agent_turn_start_schema :: "jval \<Rightarrow> frame_body option" where
  "agent_turn_start_schema v =
     Option.bind (strict_object [''agentProtocolVersion'', ''catalogRevision'', ''expected'', ''input'',
                    ''modelId'', ''reasoningEffort'', ''sessionId'', ''temporary'', ''turnId''] v) (\<lambda>r.
     Option.bind (expect (num AGENT_WORKFLOW_PROTOCOL_VERSION) (field r ''agentProtocolVersion'')) (\<lambda>_.
     Option.bind (catalog_revision_schema (field r ''catalogRevision'')) (\<lambda>revision.
     Option.bind (active_status_schema (field r ''expected'')) (\<lambda>expected.
     Option.bind (agent_turn_input_schema (field r ''input'')) (\<lambda>input.
     Option.bind (model_id_schema (field r ''modelId'')) (\<lambda>model.
     Option.bind (reasoning_effort_schema (field r ''reasoningEffort'')) (\<lambda>effort.
     Option.bind (session_id_schema (field r ''sessionId'')) (\<lambda>session.
     Option.bind (expect (JBool False) (field r ''temporary'')) (\<lambda>_.
     Option.bind (turn_id_schema (field r ''turnId'')) (\<lambda>turn.
     Some (Agent_Turn_Start \<lparr>at_catalog_revision = revision, at_expected = expected, at_input = input,
             at_model = model, at_effort = effort, at_session = session, at_turn = turn\<rparr>)))))))))))"

definition turn_start_schema :: "jval \<Rightarrow> frame_body option" where
  "turn_start_schema v =
     Option.bind (strict_object [''sessionId'', ''turnId'', ''catalogRevision'', ''modelId'',
                    ''reasoningEffort'', ''input'', ''temporary''] v) (\<lambda>r.
     Option.bind (session_id_schema (field r ''sessionId'')) (\<lambda>session.
     Option.bind (turn_id_schema (field r ''turnId'')) (\<lambda>turn.
     Option.bind (catalog_revision_schema (field r ''catalogRevision'')) (\<lambda>revision.
     Option.bind (model_id_schema (field r ''modelId'')) (\<lambda>model.
     Option.bind (reasoning_effort_schema (field r ''reasoningEffort'')) (\<lambda>effort.
     Option.bind (turn_input_schema (field r ''input'')) (\<lambda>input.
     Option.bind (read_bool (field r ''temporary'')) (\<lambda>temporary.
     Some (Turn_Start \<lparr>bt_session = session, bt_turn = turn, bt_catalog_revision = revision,
             bt_model = model, bt_effort = effort, bt_input = input, bt_temporary = temporary\<rparr>)))))))))"

definition turn_delta_schema :: "jval \<Rightarrow> frame_body option" where
  "turn_delta_schema v =
     Option.bind (strict_object [''sessionId'', ''turnId'', ''channel'', ''delta''] v) (\<lambda>r.
     Option.bind (session_id_schema (field r ''sessionId'')) (\<lambda>session.
     Option.bind (turn_id_schema (field r ''turnId'')) (\<lambda>turn.
     Option.bind (read_enum delta_channels (field r ''channel'')) (\<lambda>channel.
     map_option (Turn_Delta session turn channel)
       (read_text 1 MAX_TURN_DELTA_CHARACTERS (\<lambda>_. True) (field r ''delta''))))))"

definition turn_completed_schema :: "jval \<Rightarrow> frame_body option" where
  "turn_completed_schema v =
     Option.bind (strict_object [''sessionId'', ''turnId'', ''finishReason''] v) (\<lambda>r.
     Option.bind (session_id_schema (field r ''sessionId'')) (\<lambda>session.
     Option.bind (turn_id_schema (field r ''turnId'')) (\<lambda>turn.
     map_option (Turn_Completed session turn) (read_enum finish_reasons (field r ''finishReason'')))))"

definition turn_failed_schema :: "jval \<Rightarrow> frame_body option" where
  "turn_failed_schema v =
     Option.bind (strict_object [''sessionId'', ''turnId'', ''error''] v) (\<lambda>r.
     Option.bind (session_id_schema (field r ''sessionId'')) (\<lambda>session.
     Option.bind (turn_id_schema (field r ''turnId'')) (\<lambda>turn.
     map_option (Turn_Failed session turn) (bridge_error_schema (field r ''error'')))))"

definition error_schema :: "jval \<Rightarrow> frame_body option" where
  "error_schema v =
     Option.bind (strict_object [''error''] v) (\<lambda>r.
     map_option Error_Frame (bridge_error_schema (field r ''error'')))"

section \<open>Frames\<close>

fun payload_schema :: "frame_type \<Rightarrow> jval \<Rightarrow> frame_body option" where
  "payload_schema T_Hello = hello_schema"
| "payload_schema T_Hello_Acknowledged = hello_acknowledged_schema"
| "payload_schema T_Heartbeat = heartbeat_schema"
| "payload_schema T_Ack = ack_schema"
| "payload_schema T_Session_Connect = (\<lambda>v. map_option Session_Connect (session_payload_schema v))"
| "payload_schema T_Session_Connected = (\<lambda>v. map_option Session_Connected (session_payload_schema v))"
| "payload_schema T_Session_Disconnect = session_disconnect_schema"
| "payload_schema T_Session_Disconnected = session_disconnected_schema"
| "payload_schema T_Capabilities_Read = (\<lambda>v. map_option Capabilities_Read (session_payload_schema v))"
| "payload_schema T_Capabilities_Result =
     (\<lambda>v. map_option (case_prod Capabilities_Result) (capabilities_payload_schema v))"
| "payload_schema T_Capabilities_Changed =
     (\<lambda>v. map_option (case_prod Capabilities_Changed) (capabilities_payload_schema v))"
| "payload_schema T_Agent_Status_Read = (\<lambda>v. map_option Agent_Status_Read (session_payload_schema v))"
| "payload_schema T_Agent_Status_Result =
     (\<lambda>v. map_option (case_prod Agent_Status_Result) (agent_status_payload_schema v))"
| "payload_schema T_Agent_Status_Changed =
     (\<lambda>v. map_option (case_prod Agent_Status_Changed) (agent_status_payload_schema v))"
| "payload_schema T_Agent_Activity_Note = agent_activity_note_schema"
| "payload_schema T_Agent_Activity_Result = agent_activity_result_schema"
| "payload_schema T_Agent_Turn_Start = agent_turn_start_schema"
| "payload_schema T_Turn_Start = turn_start_schema"
| "payload_schema T_Turn_Started = (\<lambda>v. map_option (case_prod Turn_Started) (turn_payload_schema v))"
| "payload_schema T_Turn_Delta = turn_delta_schema"
| "payload_schema T_Turn_Completed = turn_completed_schema"
| "payload_schema T_Turn_Cancel = (\<lambda>v. map_option (case_prod Turn_Cancel) (turn_payload_schema v))"
| "payload_schema T_Turn_Cancelled = (\<lambda>v. map_option (case_prod Turn_Cancelled) (turn_payload_schema v))"
| "payload_schema T_Turn_Failed = turn_failed_schema"
| "payload_schema T_Error = error_schema"

text \<open>\<open>z.discriminatedUnion("type", ...)\<close> over the strict frame objects.\<close>

definition frame_schema :: "jval \<Rightarrow> frame option" where
  "frame_schema v =
     Option.bind (strict_object [''protocolVersion'', ''requestId'', ''sequence'', ''type'', ''payload''] v) (\<lambda>r.
     Option.bind (read_enum frame_types (field r ''type'')) (\<lambda>t.
     Option.bind (expect (num NATIVE_MESSAGING_PROTOCOL_VERSION) (field r ''protocolVersion'')) (\<lambda>_.
     Option.bind (request_id_schema (field r ''requestId'')) (\<lambda>request_id.
     Option.bind (read_sequence (field r ''sequence'')) (\<lambda>sequence.
     Option.bind (payload_schema t (field r ''payload'')) (\<lambda>body.
     Some \<lparr>nf_request_id = request_id, nf_sequence = sequence, nf_body = body\<rparr>))))))"

section \<open>Writing frames\<close>

definition effort_option_value :: "effort_option \<Rightarrow> jval" where
  "effort_option_value e =
     JObj [(js ''reasoningEffort'', JStr (eo_effort e)), (js ''description'', JStr (eo_description e))]"

definition descriptor_value :: "model_descriptor \<Rightarrow> jval" where
  "descriptor_value m =
     JObj [(js ''id'', JStr (md_id m)), (js ''displayName'', JStr (md_display_name m)),
           (js ''inputModalities'', JArr [JStr (js ''text'')]),
           (js ''supportedReasoningEfforts'', JArr (map effort_option_value (md_efforts m))),
           (js ''defaultReasoningEffort'', JStr (md_default_effort m))]"

definition capabilities_value :: "browser_capabilities \<Rightarrow> jval" where
  "capabilities_value c =
     JObj [(js ''catalogRevision'', JStr (bc_catalog_revision c)),
           (js ''modelDiscovery'', JBool (bc_model_discovery c)), (js ''streaming'', JBool (bc_streaming c)),
           (js ''cancellation'', JBool (bc_cancellation c)), (js ''temporaryChat'', JBool (bc_temporary_chat c)),
           (js ''imageInput'', JBool False), (js ''toolCalls'', JBool False),
           (js ''models'', JArr (map descriptor_value (bc_models c)))]"

definition active_status_value :: "active_status \<Rightarrow> jval" where
  "active_status_value a =
     JObj [(js ''binding'', JObj
              [(js ''documentId'', JStr (db_document_id (as_binding a))),
               (js ''generation'', num (db_generation (as_binding a))),
               (js ''tabId'', num (db_tab_id (as_binding a)))]),
           (js ''conversationOwnershipId'', JStr (as_ownership_id a)),
           (js ''expiresAtMs'', num (as_expires a)), (js ''issuedAtMs'', num (as_issued a)),
           (js ''lastActivityAtMs'', num (as_last_activity a)), (js ''leaseId'', JStr (as_lease_id a)),
           (js ''revision'', num (as_revision a)), (js ''state'', JStr (js ''active''))]"

fun agent_status_value :: "agent_status \<Rightarrow> jval" where
  "agent_status_value (Active_Status a) = active_status_value a"
| "agent_status_value (Inactive_Status revision) =
     JObj [(js ''revision'', num revision), (js ''state'', JStr (js ''inactive''))]"

definition text_input_value :: "jstr \<Rightarrow> jval" where
  "text_input_value s = JObj [(js ''type'', JStr (js ''text'')), (js ''text'', JStr s)]"

definition bridge_error_value :: "bridge_error \<Rightarrow> jval" where
  "bridge_error_value e =
     JObj [(js ''code'', enum_value bridge_error_codes (be_code e)), (js ''message'', JStr (be_message e)),
           (js ''retryable'', JBool (be_retryable e))]"

abbreviation session_entry :: "jstr \<Rightarrow> jstr \<times> jval" where
  "session_entry s \<equiv> (js ''sessionId'', JStr s)"

abbreviation turn_entry :: "jstr \<Rightarrow> jstr \<times> jval" where
  "turn_entry t \<equiv> (js ''turnId'', JStr t)"

fun body_value :: "frame_body \<Rightarrow> jval" where
  "body_value (Hello p v ns) = JObj [(js ''peer'', enum_value peer_roles p),
     (js ''implementationVersion'', JStr v), (js ''supportedProtocolVersions'', JArr (map num ns))]"
| "body_value (Hello_Acknowledged p v) =
     JObj [(js ''peer'', enum_value peer_roles p), (js ''implementationVersion'', JStr v)]"
| "body_value Heartbeat = JObj []"
| "body_value (Ack n) = JObj [(js ''acknowledgedSequence'', num n)]"
| "body_value (Session_Connect s) = JObj [session_entry s]"
| "body_value (Session_Connected s) = JObj [session_entry s]"
| "body_value (Session_Disconnect s None) = JObj [session_entry s]"
| "body_value (Session_Disconnect s (Some c)) =
     JObj [session_entry s, (js ''reason'', enum_value close_reasons c)]"
| "body_value (Session_Disconnected s c) =
     JObj [session_entry s, (js ''reason'', enum_value close_reasons c)]"
| "body_value (Capabilities_Read s) = JObj [session_entry s]"
| "body_value (Capabilities_Result s c) = JObj [session_entry s, (js ''capabilities'', capabilities_value c)]"
| "body_value (Capabilities_Changed s c) = JObj [session_entry s, (js ''capabilities'', capabilities_value c)]"
| "body_value (Agent_Status_Read s) = JObj [session_entry s]"
| "body_value (Agent_Status_Result s a) =
     JObj [(js ''agentProtocolVersion'', num 2), session_entry s, (js ''status'', agent_status_value a)]"
| "body_value (Agent_Status_Changed s a) =
     JObj [(js ''agentProtocolVersion'', num 2), session_entry s, (js ''status'', agent_status_value a)]"
| "body_value (Agent_Activity_Note a s) = JObj [(js ''expected'', active_status_value a), session_entry s]"
| "body_value (Agent_Activity_Result s a) =
     JObj [(js ''agentProtocolVersion'', num 2), session_entry s, (js ''status'', active_status_value a)]"
| "body_value (Agent_Turn_Start a) =
     JObj [(js ''agentProtocolVersion'', num 2), (js ''catalogRevision'', JStr (at_catalog_revision a)),
           (js ''expected'', active_status_value (at_expected a)),
           (js ''input'', JArr [text_input_value (at_input a)]), (js ''modelId'', JStr (at_model a)),
           (js ''reasoningEffort'', JStr (at_effort a)), session_entry (at_session a),
           (js ''temporary'', JBool False), turn_entry (at_turn a)]"
| "body_value (Turn_Start b) =
     JObj [session_entry (bt_session b), turn_entry (bt_turn b),
           (js ''catalogRevision'', JStr (bt_catalog_revision b)), (js ''modelId'', JStr (bt_model b)),
           (js ''reasoningEffort'', JStr (bt_effort b)),
           (js ''input'', JArr (map text_input_value (bt_input b))), (js ''temporary'', JBool (bt_temporary b))]"
| "body_value (Turn_Started s t) = JObj [session_entry s, turn_entry t]"
| "body_value (Turn_Delta s t c d) =
     JObj [session_entry s, turn_entry t, (js ''channel'', enum_value delta_channels c), (js ''delta'', JStr d)]"
| "body_value (Turn_Completed s t f) =
     JObj [session_entry s, turn_entry t, (js ''finishReason'', enum_value finish_reasons f)]"
| "body_value (Turn_Cancel s t) = JObj [session_entry s, turn_entry t]"
| "body_value (Turn_Cancelled s t) = JObj [session_entry s, turn_entry t]"
| "body_value (Turn_Failed s t e) = JObj [session_entry s, turn_entry t, (js ''error'', bridge_error_value e)]"
| "body_value (Error_Frame e) = JObj [(js ''error'', bridge_error_value e)]"

definition frame_value :: "frame \<Rightarrow> jval" where
  "frame_value f =
     JObj [(js ''protocolVersion'', num NATIVE_MESSAGING_PROTOCOL_VERSION),
           (js ''requestId'', JStr (nf_request_id f)), (js ''sequence'', num (nf_sequence f)),
           (js ''type'', enum_value frame_types (type_of_body (nf_body f))),
           (js ''payload'', body_value (nf_body f))]"

end
