(* ===== verification/Frame_Facts.thy ===== *)
theory Frame_Facts
  imports Frame_Schema
begin

text \<open>
  What the frame schemas accept, as predicates on typed frames, and the round trip between typed
  frames and their values: a well-formed frame that is written is read back, and whatever is read
  is well formed. Which values are accepted exactly is shown in \<open>Frame_Acceptance\<close>.
\<close>

section \<open>Well-formed data\<close>

definition bounded_text :: "nat \<Rightarrow> nat \<Rightarrow> (jstr \<Rightarrow> bool) \<Rightarrow> jstr \<Rightarrow> bool" where
  "bounded_text lo hi ok s \<longleftrightarrow> lo \<le> length s \<and> length s \<le> hi \<and> ok s"

abbreviation "opaque_text n \<equiv> bounded_text 1 n opaque_id_pattern"
abbreviation "model_text \<equiv> bounded_text 1 256 model_id_pattern"
abbreviation "safe_nat n \<equiv> int n \<le> max_safe_integer"

definition effort_option_ok :: "effort_option \<Rightarrow> bool" where
  "effort_option_ok e \<longleftrightarrow>
     opaque_text 64 (eo_effort e) \<and> bounded_text 1 256 is_safe_single_line_text (eo_description e)"

definition descriptor_ok :: "model_descriptor \<Rightarrow> bool" where
  "descriptor_ok m \<longleftrightarrow>
     model_text (md_id m) \<and> bounded_text 1 128 is_safe_single_line_text (md_display_name m)
     \<and> 1 \<le> length (md_efforts m) \<and> length (md_efforts m) \<le> 16
     \<and> list_all effort_option_ok (md_efforts m) \<and> opaque_text 64 (md_default_effort m)
     \<and> distinct (map eo_effort (md_efforts m)) \<and> md_default_effort m \<in> set (map eo_effort (md_efforts m))"

definition capabilities_ok :: "browser_capabilities \<Rightarrow> bool" where
  "capabilities_ok c \<longleftrightarrow>
     opaque_text 128 (bc_catalog_revision c) \<and> length (bc_models c) \<le> 128
     \<and> list_all descriptor_ok (bc_models c) \<and> distinct (map md_id (bc_models c))
     \<and> (bc_model_discovery c \<or> bc_models c = [])"

definition binding_ok :: "document_binding \<Rightarrow> bool" where
  "binding_ok b \<longleftrightarrow> opaque_text 256 (db_document_id b) \<and> safe_nat (db_generation b) \<and> safe_nat (db_tab_id b)"

definition active_ok :: "active_status \<Rightarrow> bool" where
  "active_ok a \<longleftrightarrow>
     binding_ok (as_binding a) \<and> opaque_text 128 (as_ownership_id a) \<and> opaque_text 128 (as_lease_id a)
     \<and> safe_nat (as_expires a) \<and> safe_nat (as_issued a) \<and> safe_nat (as_last_activity a)
     \<and> safe_nat (as_revision a) \<and> consistent_timestamps a"

fun status_ok :: "agent_status \<Rightarrow> bool" where
  "status_ok (Active_Status a) \<longleftrightarrow> active_ok a"
| "status_ok (Inactive_Status revision) \<longleftrightarrow> safe_nat revision"

definition error_ok :: "bridge_error \<Rightarrow> bool" where
  "error_ok e \<longleftrightarrow> bounded_text 1 512 is_safe_single_line_text (be_message e)"

abbreviation "any_text n \<equiv> bounded_text 1 n (\<lambda>_. True)"

definition agent_turn_ok :: "agent_turn \<Rightarrow> bool" where
  "agent_turn_ok a \<longleftrightarrow>
     opaque_text 128 (at_catalog_revision a) \<and> active_ok (at_expected a) \<and> any_text 65536 (at_input a)
     \<and> model_text (at_model a) \<and> opaque_text 64 (at_effort a) \<and> opaque_text 128 (at_session a)
     \<and> opaque_text 128 (at_turn a)"

definition browser_turn_ok :: "browser_turn \<Rightarrow> bool" where
  "browser_turn_ok b \<longleftrightarrow>
     opaque_text 128 (bt_session b) \<and> opaque_text 128 (bt_turn b) \<and> opaque_text 128 (bt_catalog_revision b)
     \<and> model_text (bt_model b) \<and> opaque_text 64 (bt_effort b)
     \<and> 1 \<le> length (bt_input b) \<and> length (bt_input b) \<le> 16 \<and> list_all (any_text 65536) (bt_input b)
     \<and> sum_list (map length (bt_input b)) \<le> 262144"

fun body_ok :: "frame_body \<Rightarrow> bool" where
  "body_ok (Hello p v ns) \<longleftrightarrow> opaque_text 64 v \<and> 1 \<le> length ns \<and> length ns \<le> 16
     \<and> list_all (\<lambda>n. 0 < n \<and> safe_nat n) ns \<and> distinct ns \<and> 2 \<in> set ns"
| "body_ok (Hello_Acknowledged p v) \<longleftrightarrow> opaque_text 64 v"
| "body_ok Heartbeat \<longleftrightarrow> True"
| "body_ok (Ack n) \<longleftrightarrow> safe_nat n"
| "body_ok (Session_Connect s) \<longleftrightarrow> opaque_text 128 s"
| "body_ok (Session_Connected s) \<longleftrightarrow> opaque_text 128 s"
| "body_ok (Session_Disconnect s c) \<longleftrightarrow> opaque_text 128 s"
| "body_ok (Session_Disconnected s c) \<longleftrightarrow> opaque_text 128 s"
| "body_ok (Capabilities_Read s) \<longleftrightarrow> opaque_text 128 s"
| "body_ok (Capabilities_Result s c) \<longleftrightarrow> opaque_text 128 s \<and> capabilities_ok c"
| "body_ok (Capabilities_Changed s c) \<longleftrightarrow> opaque_text 128 s \<and> capabilities_ok c"
| "body_ok (Agent_Status_Read s) \<longleftrightarrow> opaque_text 128 s"
| "body_ok (Agent_Status_Result s a) \<longleftrightarrow> opaque_text 128 s \<and> status_ok a"
| "body_ok (Agent_Status_Changed s a) \<longleftrightarrow> opaque_text 128 s \<and> status_ok a"
| "body_ok (Agent_Activity_Note a s) \<longleftrightarrow> opaque_text 128 s \<and> active_ok a"
| "body_ok (Agent_Activity_Result s a) \<longleftrightarrow> opaque_text 128 s \<and> active_ok a"
| "body_ok (Agent_Turn_Start a) \<longleftrightarrow> agent_turn_ok a"
| "body_ok (Turn_Start b) \<longleftrightarrow> browser_turn_ok b"
| "body_ok (Turn_Started s t) \<longleftrightarrow> opaque_text 128 s \<and> opaque_text 128 t"
| "body_ok (Turn_Delta s t c d) \<longleftrightarrow> opaque_text 128 s \<and> opaque_text 128 t \<and> any_text 16384 d"
| "body_ok (Turn_Completed s t f) \<longleftrightarrow> opaque_text 128 s \<and> opaque_text 128 t"
| "body_ok (Turn_Cancel s t) \<longleftrightarrow> opaque_text 128 s \<and> opaque_text 128 t"
| "body_ok (Turn_Cancelled s t) \<longleftrightarrow> opaque_text 128 s \<and> opaque_text 128 t"
| "body_ok (Turn_Failed s t e) \<longleftrightarrow> opaque_text 128 s \<and> opaque_text 128 t \<and> error_ok e"
| "body_ok (Error_Frame e) \<longleftrightarrow> error_ok e"

definition frame_ok :: "frame \<Rightarrow> bool" where
  "frame_ok f \<longleftrightarrow> opaque_text 128 (nf_request_id f) \<and> safe_nat (nf_sequence f) \<and> body_ok (nf_body f)"

section \<open>Readers of simple values\<close>

named_theorems schema_simps

lemma bind_Some_iff [schema_simps]: "Option.bind m f = Some y \<longleftrightarrow> (\<exists>x. m = Some x \<and> f x = Some y)"
  by (cases m) simp_all

lemma read_text_iff [schema_simps]:
  "read_text lo hi ok v = Some s \<longleftrightarrow> v = JStr s \<and> bounded_text lo hi ok s"
  by (auto simp: read_text_def bounded_text_def split: jval.splits)

lemma read_text_value: "bounded_text lo hi ok s \<Longrightarrow> read_text lo hi ok (JStr s) = Some s"
  by (simp add: schema_simps)

lemma expect_iff [schema_simps]: "expect w v = Some u \<longleftrightarrow> v = w"
  by (simp add: expect_def)

lemma expect_same [simp]: "expect w w = Some ()"
  by (simp add: expect_def)

lemma require_iff [schema_simps]: "require b = Some u \<longleftrightarrow> b"
  by (simp add: require_def)

lemma require_True [simp]: "require True = Some ()"
  by (simp add: require_def)

lemma read_bool_iff [schema_simps]: "read_bool v = Some b \<longleftrightarrow> v = JBool b"
  by (auto simp: read_bool_def split: jval.splits)

lemma read_bool_value [simp]: "read_bool (JBool b) = Some b"
  by (simp add: read_bool_def)

lemma read_sequence_num [simp]: "read_sequence (num n) = (if safe_nat n then Some n else None)"
  by (simp add: read_sequence_def)

lemma read_sequence_safe: "read_sequence v = Some n \<Longrightarrow> safe_nat n"
  by (auto simp: read_sequence_def split: jval.splits jnum.splits if_splits)

lemma read_positive_num [simp]:
  "read_positive (num n) = (if 0 < n \<and> safe_nat n then Some n else None)"
  by (simp add: read_positive_def)

lemma read_positive_safe: "read_positive v = Some n \<Longrightarrow> 0 < n \<and> safe_nat n"
  by (auto simp: read_positive_def split: jval.splits jnum.splits if_splits)

lemma read_each_map: "list_all (\<lambda>x. f (w x) = Some x) xs \<Longrightarrow> read_each f (map w xs) = Some xs"
  by (induction xs) auto

lemma read_each_all: "read_each f vs = Some xs \<Longrightarrow> (\<And>v x. f v = Some x \<Longrightarrow> P x) \<Longrightarrow> list_all P xs"
  by (induction vs arbitrary: xs) (auto simp: schema_simps)

lemma read_each_length: "read_each f vs = Some xs \<Longrightarrow> length xs = length vs"
  by (induction vs arbitrary: xs) (auto simp: schema_simps)

lemma read_array_map:
  "lo \<le> length xs \<Longrightarrow> length xs \<le> hi \<Longrightarrow> list_all (\<lambda>x. f (w x) = Some x) xs \<Longrightarrow>
   read_array lo hi f (JArr (map w xs)) = Some xs"
  by (simp add: read_array_def read_each_map)

lemma read_array_all:
  assumes "read_array lo hi f v = Some xs" and "\<And>v x. f v = Some x \<Longrightarrow> P x"
  shows "lo \<le> length xs \<and> length xs \<le> hi \<and> list_all P xs"
  using assms
  by (auto simp: read_array_def read_each_length intro: read_each_all split: jval.splits if_splits)

lemma strict_object_value [simp]:
  "strict_object shape (JObj r) = (if list_all (\<lambda>(k, _). k \<in> set (map js shape)) r then Some r else None)"
  by (simp add: strict_object_def)

lemma field_Cons [simp]: "field ((js k, v) # r) k' = (if k' = k then v else field r k')"
  by (simp add: field_def)

lemma field_Nil [simp]: "field [] k = JUndef"
  by (simp add: field_def)

section \<open>Round trips of the payload data\<close>

lemma effort_option_value_read: "effort_option_ok e \<Longrightarrow> reasoning_effort_option_schema (effort_option_value e) = Some e"
  by (simp add: effort_option_ok_def reasoning_effort_option_schema_def effort_option_value_def
      text_schema_defs read_text_value)

lemma effort_option_read_ok: "reasoning_effort_option_schema v = Some e \<Longrightarrow> effort_option_ok e"
  by (auto simp: effort_option_ok_def reasoning_effort_option_schema_def text_schema_defs schema_simps)

lemma descriptor_value_read:
  assumes "descriptor_ok m"
  shows "web_model_descriptor_schema (descriptor_value m) = Some m"
proof -
  have "list_all (\<lambda>e. reasoning_effort_option_schema (effort_option_value e) = Some e) (md_efforts m)"
    using assms by (auto simp: descriptor_ok_def list_all_iff effort_option_value_read)
  with assms show ?thesis
    by (simp add: descriptor_ok_def web_model_descriptor_schema_def descriptor_value_def text_schema_defs
        read_text_value text_modality_def read_array_map)
qed

lemma descriptor_read_ok: "web_model_descriptor_schema v = Some m \<Longrightarrow> descriptor_ok m"
  by (auto simp: descriptor_ok_def web_model_descriptor_schema_def text_schema_defs schema_simps
      dest!: read_array_all [OF _ effort_option_read_ok])

lemma capabilities_value_read:
  assumes "capabilities_ok c"
  shows "browser_capabilities_schema (capabilities_value c) = Some c"
proof -
  have "list_all (\<lambda>m. web_model_descriptor_schema (descriptor_value m) = Some m) (bc_models c)"
    using assms by (auto simp: capabilities_ok_def list_all_iff descriptor_value_read)
  with assms show ?thesis
    by (simp add: capabilities_ok_def browser_capabilities_schema_def capabilities_value_def
        text_schema_defs read_text_value read_array_map)
qed

lemma capabilities_read_ok: "browser_capabilities_schema v = Some c \<Longrightarrow> capabilities_ok c"
  by (auto simp: capabilities_ok_def browser_capabilities_schema_def text_schema_defs schema_simps
      dest!: read_array_all [OF _ descriptor_read_ok])

lemma active_value_read: "active_ok a \<Longrightarrow> active_status_schema (active_status_value a) = Some a"
  by (cases a; cases "as_binding a") (simp add: active_ok_def binding_ok_def active_status_schema_def active_status_value_def
      document_binding_schema_def text_schema_defs read_text_value Let_def)

lemma active_read_ok: "active_status_schema v = Some a \<Longrightarrow> active_ok a"
  by (auto simp: active_ok_def binding_ok_def active_status_schema_def document_binding_schema_def
      text_schema_defs schema_simps Let_def dest: read_sequence_safe)

lemma status_value_read: "status_ok a \<Longrightarrow> agent_status_schema (agent_status_value a) = Some a"
proof (cases a)
  case (Active_Status x)
  then show "status_ok a \<Longrightarrow> ?thesis"
    using active_value_read [of x]
    by (simp add: agent_status_schema_def active_status_value_def)
next
  case (Inactive_Status n)
  then show "status_ok a \<Longrightarrow> ?thesis"
    by (simp add: agent_status_schema_def inactive_status_schema_def)
qed

lemma status_read_ok: "agent_status_schema v = Some a \<Longrightarrow> status_ok a"
  by (auto simp: agent_status_schema_def inactive_status_schema_def schema_simps
      dest: active_read_ok read_sequence_safe split: option.splits if_splits)

lemma error_value_read: "error_ok e \<Longrightarrow> bridge_error_schema (bridge_error_value e) = Some e"
  by (simp add: error_ok_def bridge_error_schema_def bridge_error_value_def read_text_value)

lemma error_read_ok: "bridge_error_schema v = Some e \<Longrightarrow> error_ok e"
  by (auto simp: error_ok_def bridge_error_schema_def schema_simps)

lemma text_input_value_read: "any_text 65536 s \<Longrightarrow> text_input_schema (text_input_value s) = Some s"
  by (simp add: text_input_schema_def text_input_value_def read_text_value MAX_TURN_INPUT_TEXT_CHARACTERS_def)

lemma text_input_read_ok: "text_input_schema v = Some s \<Longrightarrow> any_text 65536 s"
  by (auto simp: text_input_schema_def schema_simps MAX_TURN_INPUT_TEXT_CHARACTERS_def)

lemma turn_input_value_read:
  assumes "1 \<le> length xs" "length xs \<le> 16" "list_all (any_text 65536) xs" "sum_list (map length xs) \<le> 262144"
  shows "turn_input_schema (JArr (map text_input_value xs)) = Some xs"
proof -
  have "list_all (\<lambda>s. text_input_schema (text_input_value s) = Some s) xs"
    using assms(3) by (auto simp: list_all_iff text_input_value_read)
  with assms show ?thesis
    by (simp add: turn_input_schema_def read_array_map MAX_TURN_INPUT_ITEMS_def MAX_TURN_INPUT_TOTAL_CHARACTERS_def)
qed

lemma turn_input_read_ok:
  "turn_input_schema v = Some xs \<Longrightarrow>
   1 \<le> length xs \<and> length xs \<le> 16 \<and> list_all (any_text 65536) xs \<and> sum_list (map length xs) \<le> 262144"
  by (auto simp: turn_input_schema_def schema_simps MAX_TURN_INPUT_ITEMS_def MAX_TURN_INPUT_TOTAL_CHARACTERS_def
      dest!: read_array_all [OF _ text_input_read_ok])

lemma agent_input_value_read: "any_text 65536 s \<Longrightarrow> agent_turn_input_schema (JArr [text_input_value s]) = Some s"
  using read_array_map [of 1 "[s]" 1 text_input_schema text_input_value]
  by (simp add: agent_turn_input_schema_def text_input_value_read)

lemma agent_input_read_ok: "agent_turn_input_schema v = Some s \<Longrightarrow> any_text 65536 s"
proof -
  assume "agent_turn_input_schema v = Some s"
  then obtain items where items: "read_array 1 1 text_input_schema v = Some items"
    and s: "(case items of [item] \<Rightarrow> Some item | _ \<Rightarrow> None) = Some s"
    unfolding agent_turn_input_schema_def bind_Some_iff by blast
  from s have "items = [s]" by (auto split: list.splits)
  with read_array_all [OF items text_input_read_ok] show ?thesis by simp
qed

section \<open>Frames\<close>

lemmas value_reads =
  read_text_value effort_option_value_read capabilities_value_read active_value_read status_value_read
  error_value_read turn_input_value_read agent_input_value_read

lemma hello_value_read:
  assumes "body_ok (Hello p v ns)"
  shows "hello_schema (body_value (Hello p v ns)) = Some (Hello p v ns)"
proof -
  have "read_array 1 16 read_positive (JArr (map num ns)) = Some ns"
    using assms by (intro read_array_map) (auto simp: list_all_iff)
  with assms show ?thesis
    by (simp add: hello_schema_def text_schema_defs read_text_value supported_protocol_versions_schema_def
        NATIVE_MESSAGING_PROTOCOL_VERSION_def)
qed

lemmas payload_defs =
  session_payload_schema_def turn_payload_schema_def agent_status_payload_schema_def
  hello_acknowledged_schema_def heartbeat_schema_def ack_schema_def session_disconnect_schema_def
  session_disconnected_schema_def capabilities_payload_schema_def agent_activity_note_schema_def
  agent_activity_result_schema_def agent_turn_start_schema_def turn_start_schema_def turn_delta_schema_def
  turn_completed_schema_def turn_failed_schema_def error_schema_def AGENT_WORKFLOW_PROTOCOL_VERSION_def
  MAX_TURN_DELTA_CHARACTERS_def

lemma enum_value_defined [simp]: "enum_value table x \<noteq> JUndef"
  by (simp add: enum_value_def)

lemma body_value_read: "body_ok b \<Longrightarrow> payload_schema (type_of_body b) (body_value b) = Some b"
proof (cases b)
  case (Hello p v ns)
  then show "body_ok b \<Longrightarrow> ?thesis" using hello_value_read by simp
next
  case (Session_Disconnect s c)
  then show "body_ok b \<Longrightarrow> ?thesis"
    by (cases c) (simp_all add: payload_defs text_schema_defs read_text_value)
qed (simp_all add: payload_defs text_schema_defs value_reads agent_turn_ok_def browser_turn_ok_def)

lemma read_frame_types [simp]: "read_enum frame_types (enum_value frame_types t) = Some t"
  by (rule read_enum_value; cases t) (simp_all add: frame_types_def)

lemma frame_value_read: "frame_ok f \<Longrightarrow> frame_schema (frame_value f) = Some f"
  by (simp add: frame_ok_def frame_schema_def frame_value_def request_id_schema_def read_text_value
      body_value_read)

lemmas read_oks =
  read_sequence_safe capabilities_read_ok active_read_ok status_read_ok error_read_ok
  turn_input_read_ok agent_input_read_ok

lemma hello_read_ok: "hello_schema v = Some b \<Longrightarrow> type_of_body b = T_Hello \<and> body_ok b"
  by (auto simp: hello_schema_def text_schema_defs schema_simps supported_protocol_versions_schema_def
      NATIVE_MESSAGING_PROTOCOL_VERSION_def dest!: read_array_all [OF _ read_positive_safe])

lemma body_read_ok: "payload_schema t v = Some b \<Longrightarrow> type_of_body b = t \<and> body_ok b"
proof (cases t)
  case T_Hello
  then show "payload_schema t v = Some b \<Longrightarrow> ?thesis" using hello_read_ok by simp
next
  case T_Agent_Turn_Start
  then show "payload_schema t v = Some b \<Longrightarrow> ?thesis"
    by (auto simp: payload_defs text_schema_defs schema_simps agent_turn_ok_def
        dest!: active_read_ok agent_input_read_ok)
qed (auto simp: payload_defs text_schema_defs schema_simps agent_turn_ok_def browser_turn_ok_def
      dest: read_oks split: if_splits)

lemma frame_read_ok: "frame_schema v = Some f \<Longrightarrow> frame_ok f"
  by (auto simp: frame_ok_def frame_schema_def request_id_schema_def schema_simps
      dest: read_sequence_safe body_read_ok)

section \<open>Closed objects\<close>

lemma strict_object_iff:
  "strict_object shape v = Some r \<longleftrightarrow> v = JObj r \<and> fst ` set r \<subseteq> set (map js shape)"
  by (auto simp: strict_object_def list_all_iff split: jval.splits)

lemma strict_objectD:
  "strict_object shape v = Some r \<Longrightarrow> \<exists>r. v = JObj r \<and> fst ` set r \<subseteq> set (map js shape)"
  by (simp add: strict_object_iff)

text \<open>The keys a payload of each type may have.\<close>

fun payload_keys :: "frame_type \<Rightarrow> string list" where
  "payload_keys T_Hello = [''peer'', ''implementationVersion'', ''supportedProtocolVersions'']"
| "payload_keys T_Hello_Acknowledged = [''peer'', ''implementationVersion'']"
| "payload_keys T_Heartbeat = []"
| "payload_keys T_Ack = [''acknowledgedSequence'']"
| "payload_keys T_Session_Disconnect = [''sessionId'', ''reason'']"
| "payload_keys T_Session_Disconnected = [''sessionId'', ''reason'']"
| "payload_keys T_Capabilities_Result = [''sessionId'', ''capabilities'']"
| "payload_keys T_Capabilities_Changed = [''sessionId'', ''capabilities'']"
| "payload_keys T_Agent_Status_Result = [''agentProtocolVersion'', ''sessionId'', ''status'']"
| "payload_keys T_Agent_Status_Changed = [''agentProtocolVersion'', ''sessionId'', ''status'']"
| "payload_keys T_Agent_Activity_Note = [''expected'', ''sessionId'']"
| "payload_keys T_Agent_Activity_Result = [''agentProtocolVersion'', ''sessionId'', ''status'']"
| "payload_keys T_Agent_Turn_Start = [''agentProtocolVersion'', ''catalogRevision'', ''expected'',
     ''input'', ''modelId'', ''reasoningEffort'', ''sessionId'', ''temporary'', ''turnId'']"
| "payload_keys T_Turn_Start = [''sessionId'', ''turnId'', ''catalogRevision'', ''modelId'',
     ''reasoningEffort'', ''input'', ''temporary'']"
| "payload_keys T_Turn_Delta = [''sessionId'', ''turnId'', ''channel'', ''delta'']"
| "payload_keys T_Turn_Completed = [''sessionId'', ''turnId'', ''finishReason'']"
| "payload_keys T_Turn_Failed = [''sessionId'', ''turnId'', ''error'']"
| "payload_keys T_Error = [''error'']"
| "payload_keys T_Turn_Started = [''sessionId'', ''turnId'']"
| "payload_keys T_Turn_Cancel = [''sessionId'', ''turnId'']"
| "payload_keys T_Turn_Cancelled = [''sessionId'', ''turnId'']"
| "payload_keys _ = [''sessionId'']"

lemma payload_closed:
  assumes "payload_schema t v = Some b"
  shows "\<exists>p. v = JObj p \<and> fst ` set p \<subseteq> set (map js (payload_keys t))"
proof -
  have "\<exists>r. strict_object (payload_keys t) v = Some r"
    using assms by (cases t) (auto simp: hello_schema_def payload_defs bind_Some_iff)
  then show ?thesis by (auto simp only: strict_object_iff)
qed

section \<open>Properties\<close>

definition sample_frame :: frame where
  "sample_frame = \<lparr>nf_request_id = js ''r1'', nf_sequence = 3, nf_body = Ack 2\<rparr>"

text \<open>
  Frames are closed: an accepted value is an object with no key besides the five of a frame,
  and its payload an object with no key besides those of its frame type; a field nobody declared
  makes the frame invalid.
\<close>

theorem frame_schema_closed:
  assumes "frame_schema v = Some f"
  shows "\<exists>r p. v = JObj r
    \<and> fst ` set r \<subseteq> set (map js [''protocolVersion'', ''requestId'', ''sequence'', ''type'', ''payload''])
    \<and> field r ''payload'' = JObj p
    \<and> fst ` set p \<subseteq> set (map js (payload_keys (type_of_body (nf_body f))))"
proof -
  from assms obtain r t where
    r: "strict_object [''protocolVersion'', ''requestId'', ''sequence'', ''type'', ''payload''] v = Some r"
    and b: "payload_schema t (field r ''payload'') = Some (nf_body f)"
    by (auto simp: frame_schema_def bind_Some_iff)
  from body_read_ok [OF b] have t: "type_of_body (nf_body f) = t" ..
  from payload_closed [OF b] obtain p where p: "field r ''payload'' = JObj p"
    "fst ` set p \<subseteq> set (map js (payload_keys t))" by blast
  from r have "v = JObj r"
    and "fst ` set r \<subseteq> set (map js [''protocolVersion'', ''requestId'', ''sequence'', ''type'', ''payload''])"
    unfolding strict_object_iff by blast+
  with p show ?thesis unfolding t by blast
qed

theorem frame_schema_closed_witness:
  "\<exists>r. frame_value sample_frame = JObj r \<and> js ''extra'' \<notin> fst ` set r"
proof -
  have "frame_schema (frame_value sample_frame) = Some sample_frame" by code_simp
  from frame_schema_closed [OF this] obtain r where r: "frame_value sample_frame = JObj r"
    and sub: "fst ` set r \<subseteq> set (map js [''protocolVersion'', ''requestId'', ''sequence'', ''type'', ''payload''])"
    by blast
  have "js ''extra'' \<notin> set (map js [''protocolVersion'', ''requestId'', ''sequence'', ''type'', ''payload''])"
    by simp
  with sub r show ?thesis by blast
qed

end
