(* ===== verification/Link_Session.thy ===== *)
theory Link_Session
  imports Frame_Facts
begin

text \<open>
  One end of a Native Messaging link (\<open>packages/native-messaging/src/link/link-session.ts\<close>,
  \<open>errors.ts\<close>, \<open>relay-policy.ts\<close>): handshake, sequence numbers, heartbeats and the direction of
  application frames. Every operation returns its outcome next to the new state, since a
  rejection closes the session.
\<close>

datatype link_error =
    Correlation_Violation | Destination_Unavailable | Direction_Violation | Invalid_Frame
  | Invalid_State | Sequence_Exhausted | Sequence_Violation | Unexpected_Peer

text \<open>What an operation can throw: a link error, or the schema's error for a frame of its own.\<close>

datatype link_failure = Link_Failure link_error | Schema_Failure

datatype link_mode = Initiator | Responder
datatype link_state = Idle | Awaiting_Hello | Awaiting_Acknowledgement | Ready | Closed

record link =
  ln_version :: jstr
  ln_incoming :: "frame_type list"
  ln_local :: peer_role
  ln_mode :: link_mode
  ln_outgoing :: "frame_type list"
  ln_remote :: peer_role
  ln_expected :: nat
  ln_handshake :: "jstr option"
  ln_next :: nat
  ln_heartbeats :: "(nat, jstr) jsmap"
  ln_state :: link_state

record received =
  rx_application :: "frame option"
  rx_response :: "frame option"

abbreviation nothing_received :: received where
  "nothing_received \<equiv> \<lparr>rx_application = None, rx_response = None\<rparr>"

definition TRANSPORT_FRAME_TYPES :: "frame_type list" where
  "TRANSPORT_FRAME_TYPES = [T_Ack, T_Heartbeat, T_Hello, T_Hello_Acknowledged]"

definition APPLICATION_FRAME_TYPES :: "frame_type list" where
  "APPLICATION_FRAME_TYPES =
     [T_Session_Connect, T_Session_Connected, T_Session_Disconnect, T_Session_Disconnected,
      T_Agent_Status_Read, T_Agent_Status_Result, T_Agent_Status_Changed, T_Agent_Activity_Note,
      T_Agent_Activity_Result, T_Agent_Turn_Start, T_Capabilities_Read, T_Capabilities_Result,
      T_Capabilities_Changed, T_Turn_Start, T_Turn_Started, T_Turn_Delta, T_Turn_Completed,
      T_Turn_Cancel, T_Turn_Cancelled, T_Turn_Failed, T_Error]"

definition BRIDGE_TO_EXTENSION_APPLICATION_TYPES :: "frame_type list" where
  "BRIDGE_TO_EXTENSION_APPLICATION_TYPES =
     [T_Session_Connect, T_Session_Disconnect, T_Agent_Status_Read, T_Agent_Activity_Note,
      T_Agent_Turn_Start, T_Capabilities_Read, T_Turn_Start, T_Turn_Cancel, T_Error]"

definition EXTENSION_TO_BRIDGE_APPLICATION_TYPES :: "frame_type list" where
  "EXTENSION_TO_BRIDGE_APPLICATION_TYPES =
     [T_Session_Connected, T_Session_Disconnected, T_Agent_Status_Result, T_Agent_Status_Changed,
      T_Agent_Activity_Result, T_Capabilities_Result, T_Capabilities_Changed, T_Turn_Started,
      T_Turn_Delta, T_Turn_Completed, T_Turn_Cancelled, T_Turn_Failed, T_Error]"

section \<open>Operations\<close>

text \<open>\<open>/^[A-Za-z0-9][A-Za-z0-9._:-]{0,63}$/u\<close>\<close>

definition is_implementation_version :: "jstr \<Rightarrow> bool" where
  "is_implementation_version s \<longleftrightarrow> opaque_id_pattern s \<and> length s \<le> 64"

definition is_application_type_set :: "frame_type list \<Rightarrow> bool" where
  "is_application_type_set types \<longleftrightarrow>
     distinct types
     \<and> list_all (\<lambda>t. t \<in> set APPLICATION_FRAME_TYPES \<and> t \<notin> set TRANSPORT_FRAME_TYPES) types"

text \<open>The constructor; \<open>None\<close> is its \<open>RangeError\<close>.\<close>

definition new_link ::
    "jstr \<Rightarrow> frame_type list \<Rightarrow> peer_role \<Rightarrow> link_mode \<Rightarrow> frame_type list \<Rightarrow> peer_role \<Rightarrow> link option" where
  "new_link version incoming local_peer mode outgoing remote_peer =
     (if local_peer = remote_peer \<or> \<not> is_implementation_version version
         \<or> \<not> is_application_type_set incoming \<or> \<not> is_application_type_set outgoing
      then None
      else Some
        \<lparr>ln_version = version, ln_incoming = incoming, ln_local = local_peer, ln_mode = mode,
         ln_outgoing = outgoing, ln_remote = remote_peer, ln_expected = 0, ln_handshake = None,
         ln_next = 0, ln_heartbeats = [],
         ln_state = (if mode = Initiator then Idle else Awaiting_Hello)\<rparr>)"

definition close_link :: "link \<Rightarrow> link" where
  "close_link s = s\<lparr>ln_state := Closed, ln_handshake := None, ln_heartbeats := []\<rparr>"

definition reject_link :: "link_error \<Rightarrow> link \<Rightarrow> (link_failure, 'a) result \<times> link" where
  "reject_link e s = (throw (Link_Failure e), close_link s)"

text \<open>\<open>#takeOutboundSequence\<close>\<close>

definition take_sequence :: "link \<Rightarrow> (link_failure, nat) result \<times> link" where
  "take_sequence s =
     (if max_safe_integer < int (ln_next s) then reject_link Sequence_Exhausted s
      else (return (ln_next s), s\<lparr>ln_next := Suc (ln_next s)\<rparr>))"

text \<open>A frame of our own: it takes the next sequence number and passes the schema.\<close>

definition own_frame ::
    "jstr \<Rightarrow> frame_body \<Rightarrow> link \<Rightarrow> (link_failure, frame) result \<times> link" where
  "own_frame request_id body s =
     (case take_sequence s of
        (Inl e, s') \<Rightarrow> (throw e, s')
      | (Inr n, s') \<Rightarrow>
          (case frame_schema (frame_value
                  \<lparr>nf_request_id = request_id, nf_sequence = n, nf_body = body\<rparr>) of
             None \<Rightarrow> (throw Schema_Failure, s')
           | Some f \<Rightarrow> (return f, s')))"

text \<open>A failure of the schema inside a \<open>try\<close> whose handler rejects the frame.\<close>

definition reject_schema_failure ::
    "(link_failure, 'a) result \<times> link \<Rightarrow> (link_failure, 'a) result \<times> link" where
  "reject_schema_failure outcome =
     (case outcome of
        (Inl Schema_Failure, s) \<Rightarrow> reject_link Invalid_Frame s
      | _ \<Rightarrow> outcome)"

definition start_link :: "jstr \<Rightarrow> link \<Rightarrow> (link_failure, frame) result \<times> link" where
  "start_link request_id s =
     (if ln_mode s \<noteq> Initiator \<or> ln_state s \<noteq> Idle then reject_link Invalid_State s
      else reject_schema_failure
        (if request_id_schema (JStr request_id) = None then (throw Schema_Failure, s)
         else case own_frame request_id
                 (Hello (ln_local s) (ln_version s) [NATIVE_MESSAGING_PROTOCOL_VERSION]) s of
             (Inl e, s') \<Rightarrow> (throw e, s')
           | (Inr f, s') \<Rightarrow>
               (return f, s'\<lparr>ln_handshake := Some request_id, ln_state := Awaiting_Acknowledgement\<rparr>)))"

text \<open>The result of a step that answers with a frame of our own.\<close>

definition respond :: "jstr \<Rightarrow> frame_body \<Rightarrow> link \<Rightarrow> (link_failure, received) result \<times> link" where
  "respond request_id body s =
     (case own_frame request_id body s of
        (Inl e, s') \<Rightarrow> (throw e, s')
      | (Inr f, s') \<Rightarrow> (return \<lparr>rx_application = None, rx_response = Some f\<rparr>, s'))"

definition accept_hello :: "frame \<Rightarrow> link \<Rightarrow> (link_failure, received) result \<times> link" where
  "accept_hello f s =
     (case nf_body f of
        Hello peer _ _ \<Rightarrow>
          if peer \<noteq> ln_remote s then reject_link Unexpected_Peer s
          else respond (nf_request_id f) (Hello_Acknowledged (ln_local s) (ln_version s))
                 (s\<lparr>ln_expected := 1, ln_state := Ready\<rparr>)
      | _ \<Rightarrow> reject_link Invalid_State s)"

definition accept_hello_acknowledgement ::
    "frame \<Rightarrow> link \<Rightarrow> (link_failure, received) result \<times> link" where
  "accept_hello_acknowledgement f s =
     (case nf_body f of
        Hello_Acknowledged peer _ \<Rightarrow>
          if peer \<noteq> ln_remote s then reject_link Unexpected_Peer s
          else if Some (nf_request_id f) \<noteq> ln_handshake s then reject_link Correlation_Violation s
          else (return nothing_received,
                s\<lparr>ln_expected := 1, ln_handshake := None, ln_state := Ready\<rparr>)
      | _ \<Rightarrow> reject_link Invalid_State s)"

definition receive_ready :: "frame \<Rightarrow> link \<Rightarrow> (link_failure, received) result \<times> link" where
  "receive_ready f s0 =
     (let s = s0\<lparr>ln_expected := Suc (ln_expected s0)\<rparr> in
      case nf_body f of
        Heartbeat \<Rightarrow> respond (nf_request_id f) (Ack (nf_sequence f)) s
      | Ack n \<Rightarrow>
          if map_of (ln_heartbeats s) n \<noteq> Some (nf_request_id f)
          then reject_link Correlation_Violation s
          else (return nothing_received, s\<lparr>ln_heartbeats := AList.delete n (ln_heartbeats s)\<rparr>)
      | Hello _ _ _ \<Rightarrow> reject_link Invalid_State s
      | Hello_Acknowledged _ _ \<Rightarrow> reject_link Invalid_State s
      | _ \<Rightarrow>
          if type_of_body (nf_body f) \<notin> set (ln_incoming s) then reject_link Direction_Violation s
          else (return \<lparr>rx_application = Some f, rx_response = None\<rparr>, s))"

definition receive_link :: "jval \<Rightarrow> link \<Rightarrow> (link_failure, received) result \<times> link" where
  "receive_link v s =
     (if ln_state s = Closed then (throw (Link_Failure Invalid_State), s)
      else case frame_schema v of
          None \<Rightarrow> reject_link Invalid_Frame s
        | Some f \<Rightarrow>
            if nf_sequence f \<noteq> ln_expected s then reject_link Sequence_Violation s
            else case ln_state s of
                Awaiting_Hello \<Rightarrow> accept_hello f s
              | Awaiting_Acknowledgement \<Rightarrow> accept_hello_acknowledgement f s
              | Ready \<Rightarrow> receive_ready f s
              | _ \<Rightarrow> reject_link Invalid_State s)"

definition send_application :: "jval \<Rightarrow> link \<Rightarrow> (link_failure, frame) result \<times> link" where
  "send_application v s =
     (if ln_state s \<noteq> Ready then reject_link Invalid_State s
      else case frame_schema v of
          None \<Rightarrow> reject_link Invalid_Frame s
        | Some f \<Rightarrow>
            if type_of_body (nf_body f) \<notin> set (ln_outgoing s) then reject_link Direction_Violation s
            else own_frame (nf_request_id f) (nf_body f) s)"

definition send_heartbeat :: "jstr \<Rightarrow> link \<Rightarrow> (link_failure, frame) result \<times> link" where
  "send_heartbeat request_id s =
     (if ln_state s \<noteq> Ready then reject_link Invalid_State s
      else if 0 < length (ln_heartbeats s) then reject_link Invalid_State s
      else reject_schema_failure
        (if request_id_schema (JStr request_id) = None then (throw Schema_Failure, s)
         else case own_frame request_id Heartbeat s of
             (Inl e, s') \<Rightarrow> (throw e, s')
           | (Inr f, s') \<Rightarrow>
               (return f, s'\<lparr>ln_heartbeats :=
                  AList.update (nf_sequence f) request_id (ln_heartbeats s')\<rparr>)))"

section \<open>Facts about single steps\<close>

definition link_ok :: "link \<Rightarrow> bool" where
  "link_ok s \<longleftrightarrow> is_implementation_version (ln_version s)
     \<and> is_application_type_set (ln_incoming s) \<and> is_application_type_set (ln_outgoing s)
     \<and> ln_local s \<noteq> ln_remote s"

lemma version_ok: "is_implementation_version s \<longleftrightarrow> opaque_text 64 s"
  by (auto simp: is_implementation_version_def bounded_text_def opaque_id_pattern_def Suc_le_eq
      split: list.splits)

lemma request_id_ok: "request_id_schema (JStr s) = None \<longleftrightarrow> \<not> opaque_text 128 s"
  using read_text_iff [of 1 128 opaque_id_pattern "JStr s" s]
  by (auto simp: request_id_schema_def read_text_def bounded_text_def)

text \<open>An own frame made of checked parts always passes the schema.\<close>

lemma own_frame_ok:
  assumes "opaque_text 128 request_id" and "body_ok body"
  shows "own_frame request_id body s =
     (if max_safe_integer < int (ln_next s) then reject_link Sequence_Exhausted s
      else (Inr \<lparr>nf_request_id = request_id, nf_sequence = ln_next s, nf_body = body\<rparr>,
            s\<lparr>ln_next := Suc (ln_next s)\<rparr>))"
proof (cases "max_safe_integer < int (ln_next s)")
  case False
  then have "frame_ok \<lparr>nf_request_id = request_id, nf_sequence = ln_next s, nf_body = body\<rparr>"
    using assms by (simp add: frame_ok_def)
  from frame_value_read [OF this] False show ?thesis
    by (simp add: own_frame_def take_sequence_def)
qed (simp add: own_frame_def take_sequence_def reject_link_def)

lemma frame_schema_parts:
  "frame_schema v = Some f \<Longrightarrow> opaque_text 128 (nf_request_id f) \<and> body_ok (nf_body f) \<and> safe_nat (nf_sequence f)"
  using frame_read_ok by (auto simp: frame_ok_def)

lemma new_link_ok: "new_link v i l m out r = Some s \<Longrightarrow> link_ok s"
  by (auto simp: new_link_def link_ok_def split: if_splits)

end
