(* ===== verification/Link_Pair.thy ===== *)
theory Link_Pair
  imports Link_Session
begin

text \<open>
  Two ends of a link joined by ordered channels: the initiator and the responder of the protocol
  run against each other. The invariant of the pair shows that honest peers never violate each
  other's sequence, correlation or direction checks, and that every application frame arrives
  once and in order.
\<close>

section \<open>One direction\<close>

definition heartbeats_in :: "frame list \<Rightarrow> (nat \<times> jstr) list" where
  "heartbeats_in fs = concat (map (\<lambda>f. if nf_body f = Heartbeat then [(nf_sequence f, nf_request_id f)] else []) fs)"

definition acks_in :: "frame list \<Rightarrow> (nat \<times> jstr) list" where
  "acks_in fs = concat (map (\<lambda>f. case nf_body f of Ack n \<Rightarrow> [(n, nf_request_id f)] | _ \<Rightarrow> []) fs)"

lemma heartbeats_in_simps [simp]:
  "heartbeats_in [] = []" "heartbeats_in (f # fs) =
     (if nf_body f = Heartbeat then [(nf_sequence f, nf_request_id f)] else []) @ heartbeats_in fs"
  "heartbeats_in (fs @ gs) = heartbeats_in fs @ heartbeats_in gs"
  by (simp_all add: heartbeats_in_def)

lemma acks_in_simps [simp]:
  "acks_in [] = []" "acks_in (f # fs) = (case nf_body f of Ack n \<Rightarrow> [(n, nf_request_id f)] | _ \<Rightarrow> []) @ acks_in fs"
  "acks_in (fs @ gs) = acks_in fs @ acks_in gs"
  by (simp_all add: acks_in_def)

definition is_application :: "frame \<Rightarrow> bool" where
  "is_application f \<longleftrightarrow> type_of_body (nf_body f) \<in> set APPLICATION_FRAME_TYPES"

lemma is_application_simps [simp]:
  "is_application f \<longleftrightarrow> (case nf_body f of
     Hello _ _ _ \<Rightarrow> False | Hello_Acknowledged _ _ \<Rightarrow> False | Heartbeat \<Rightarrow> False | Ack _ \<Rightarrow> False | _ \<Rightarrow> True)"
  by (cases "nf_body f") (simp_all add: is_application_def APPLICATION_FRAME_TYPES_def)

text \<open>A frame that end \<open>s\<close> may put on the channel once the handshake is done.\<close>

definition steady_frame :: "link \<Rightarrow> frame \<Rightarrow> bool" where
  "steady_frame s f \<longleftrightarrow> frame_ok f
     \<and> (nf_body f = Heartbeat \<or> (\<exists>n. nf_body f = Ack n)
        \<or> (is_application f \<and> type_of_body (nf_body f) \<in> set (ln_outgoing s)))"

text \<open>
  The frames on the way from \<open>a\<close> to \<open>b\<close> carry the sequence numbers \<open>b\<close> expects next, and the one
  heartbeat \<open>a\<close> may have pending is on its way there or its answer on the way back.
\<close>

definition lane :: "link \<Rightarrow> frame list \<Rightarrow> link \<Rightarrow> frame list \<Rightarrow> bool" where
  "lane a ab b ba \<longleftrightarrow>
     ln_expected b \<le> ln_next a \<and> map nf_sequence ab = [ln_expected b..<ln_next a]
     \<and> (\<forall>f \<in> set ab. steady_frame a f)
     \<and> heartbeats_in ab @ acks_in ba = ln_heartbeats a \<and> length (ln_heartbeats a) \<le> 1"

definition compatible :: "link \<Rightarrow> link \<Rightarrow> bool" where
  "compatible a b \<longleftrightarrow>
     link_ok a \<and> link_ok b \<and> ln_remote a = ln_local b \<and> ln_remote b = ln_local a
     \<and> set (ln_outgoing a) \<subseteq> set (ln_incoming b) \<and> set (ln_outgoing b) \<subseteq> set (ln_incoming a)"

definition steady :: "link \<Rightarrow> frame list \<Rightarrow> link \<Rightarrow> frame list \<Rightarrow> bool" where
  "steady a ab b ba \<longleftrightarrow>
     compatible a b \<and> ln_state a = Ready \<and> ln_state b = Ready \<and> lane a ab b ba \<and> lane b ba a ab"

lemma steady_swap: "steady a ab b ba \<longleftrightarrow> steady b ba a ab"
  by (auto simp: steady_def compatible_def)

text \<open>What does not change when a session only counts and keeps its heartbeats.\<close>

lemma compatible_update [simp]:
  "compatible (a\<lparr>ln_next := n\<rparr>) b = compatible a b"
  "compatible (a\<lparr>ln_expected := n\<rparr>) b = compatible a b"
  "compatible (a\<lparr>ln_heartbeats := h\<rparr>) b = compatible a b"
  "compatible (a\<lparr>ln_state := st\<rparr>) b = compatible a b"
  "compatible (a\<lparr>ln_handshake := hs\<rparr>) b = compatible a b"
  "compatible a (b\<lparr>ln_next := n\<rparr>) = compatible a b"
  "compatible a (b\<lparr>ln_expected := n\<rparr>) = compatible a b"
  "compatible a (b\<lparr>ln_heartbeats := h\<rparr>) = compatible a b"
  "compatible a (b\<lparr>ln_state := st\<rparr>) = compatible a b"
  by (simp_all add: compatible_def link_ok_def)

lemma steady_frame_update [simp]:
  "steady_frame (a\<lparr>ln_next := n\<rparr>) f = steady_frame a f"
  "steady_frame (a\<lparr>ln_expected := n\<rparr>) f = steady_frame a f"
  "steady_frame (a\<lparr>ln_heartbeats := h\<rparr>) f = steady_frame a f"
  by (simp_all add: steady_frame_def)

section \<open>Sending\<close>

lemma send_application_Inr:
  assumes "send_application v a = (Inr f, a')"
  shows "ln_state a = Ready \<and> ln_next a \<le> nat max_safe_integer
    \<and> type_of_body (nf_body f) \<in> set (ln_outgoing a) \<and> frame_ok f
    \<and> nf_sequence f = ln_next a \<and> a' = a\<lparr>ln_next := Suc (ln_next a)\<rparr>
    \<and> (\<exists>g. frame_schema v = Some g \<and> nf_body f = nf_body g \<and> nf_request_id f = nf_request_id g)"
proof -
  from assms obtain g where g: "frame_schema v = Some g" and ready: "ln_state a = Ready"
    and out: "type_of_body (nf_body g) \<in> set (ln_outgoing a)"
    and own: "own_frame (nf_request_id g) (nf_body g) a = (Inr f, a')"
    by (auto simp: send_application_def reject_link_def split: option.splits if_splits)
  with own_frame_ok [of "nf_request_id g" "nf_body g" a] frame_schema_parts [OF g] show ?thesis
    by (auto simp: reject_link_def frame_ok_def split: if_splits)
qed

lemma send_heartbeat_Inr:
  assumes "send_heartbeat request_id a = (Inr f, a')"
  shows "ln_state a = Ready \<and> ln_next a \<le> nat max_safe_integer \<and> ln_heartbeats a = [] \<and> frame_ok f
    \<and> f = \<lparr>nf_request_id = request_id, nf_sequence = ln_next a, nf_body = Heartbeat\<rparr>
    \<and> a' = a\<lparr>ln_next := Suc (ln_next a), ln_heartbeats := [(ln_next a, request_id)]\<rparr>"
proof -
  have inner: "\<exists>x y. m = (Inr x, y) \<and> (x, y) = (f, a')" if "reject_schema_failure m = (Inr f, a')" for m
    using that by (auto simp: reject_schema_failure_def reject_link_def split: prod.splits sum.splits link_failure.splits)
  from assms have ready: "ln_state a = Ready" and none: "ln_heartbeats a = []"
    and id: "opaque_text 128 request_id"
    by (auto simp: send_heartbeat_def reject_link_def reject_schema_failure_def request_id_ok split: if_splits)
  with assms have "(case own_frame request_id Heartbeat a of
      (Inl e, s') \<Rightarrow> (Inl e, s')
    | (Inr f, s') \<Rightarrow> (Inr f, s'\<lparr>ln_heartbeats := AList.update (nf_sequence f) request_id (ln_heartbeats s')\<rparr>))
      = (Inr f, a')"
    using inner by (auto simp: send_heartbeat_def request_id_ok)
  with own_frame_ok [OF id, of Heartbeat a] ready none id show ?thesis
    by (auto simp: reject_link_def frame_ok_def split: if_splits)
qed

lemma steady_send_application:
  assumes "steady a ab b ba" and "send_application v a = (Inr f, a')"
  shows "steady a' (ab @ [f]) b ba \<and> is_application f"
proof -
  from assms(1) have types: "is_application_type_set (ln_outgoing a)"
    by (simp add: steady_def compatible_def link_ok_def)
  from send_application_Inr [OF assms(2)] types have app: "is_application f"
    by (auto simp: is_application_def is_application_type_set_def list_all_iff simp del: is_application_simps)
  then have "nf_body f \<noteq> Heartbeat" and "acks_in [f] = []"
    by (auto split: frame_body.splits)
  with assms(1) send_application_Inr [OF assms(2)] app show ?thesis
    by (auto simp: steady_def lane_def compatible_update steady_frame_def)
qed

lemma steady_send_heartbeat:
  assumes "steady a ab b ba" and "send_heartbeat r a = (Inr f, a')"
  shows "steady a' (ab @ [f]) b ba"
  using assms(1) send_heartbeat_Inr [OF assms(2)]
  by (auto simp: steady_def lane_def compatible_update steady_frame_def)

section \<open>Receiving\<close>

text \<open>The end that is about to number its own frames past the largest safe integer.\<close>

definition exhausted :: "link \<Rightarrow> bool" where
  "exhausted s \<longleftrightarrow> max_safe_integer < int (ln_next s)"

lemma receive_steady_frame:
  assumes "frame_ok f" and "nf_sequence f = ln_expected b" and "ln_state b = Ready"
  shows "receive_link (frame_value f) b = receive_ready f b"
  using assms by (simp add: receive_link_def frame_value_read)

lemma lane_head:
  assumes "lane a (f # ab) b ba"
  shows "nf_sequence f = ln_expected b" and "map nf_sequence ab = [Suc (ln_expected b)..<ln_next a]"
    and "Suc (ln_expected b) \<le> ln_next a" and "steady_frame a f"
proof -
  from assms have eq: "nf_sequence f # map nf_sequence ab = [ln_expected b..<ln_next a]"
    by (simp add: lane_def)
  then have less: "ln_expected b < ln_next a" by (cases "ln_expected b < ln_next a") simp_all
  with eq have "nf_sequence f # map nf_sequence ab = ln_expected b # [Suc (ln_expected b)..<ln_next a]"
    by (simp add: upt_conv_Cons)
  with less show "nf_sequence f = ln_expected b" and "map nf_sequence ab = [Suc (ln_expected b)..<ln_next a]"
    and "Suc (ln_expected b) \<le> ln_next a" by simp_all
  show "steady_frame a f" using assms by (simp add: lane_def)
qed

lemma short_list: "x # xs @ ys = zs \<Longrightarrow> length zs \<le> 1 \<Longrightarrow> xs = [] \<and> ys = [] \<and> zs = [x]"
  by auto

lemma steady_deliver_heartbeat:
  assumes s: "steady a (f # ab) b ba" and h: "nf_body f = Heartbeat" and "\<not> exhausted b"
  shows "\<exists>g b'. receive_link (frame_value f) b = (Inr \<lparr>rx_application = None, rx_response = Some g\<rparr>, b')
    \<and> \<not> is_application g \<and> steady a ab b' (ba @ [g])"
proof -
  let ?g = "\<lparr>nf_request_id = nf_request_id f, nf_sequence = ln_next b, nf_body = Ack (nf_sequence f)\<rparr>"
  let ?b = "b\<lparr>ln_expected := Suc (ln_expected b), ln_next := Suc (ln_next b)\<rparr>"
  from s have lanes: "lane a (f # ab) b ba" "lane b ba a (f # ab)" "ln_state b = Ready"
    by (simp_all add: steady_def)
  have f: "frame_ok f" using lane_head(4) [OF lanes(1)] by (simp add: steady_frame_def)
  then have ids: "opaque_text 128 (nf_request_id f)" "body_ok (Ack (nf_sequence f))"
    by (simp_all add: frame_ok_def)
  have "receive_link (frame_value f) b = (Inr \<lparr>rx_application = None, rx_response = Some ?g\<rparr>, ?b)"
    using receive_steady_frame [OF f lane_head(1) [OF lanes(1)] lanes(3)] assms(3)
      own_frame_ok [OF ids, of "b\<lparr>ln_expected := Suc (ln_expected b)\<rparr>"]
    by (simp add: receive_ready_def respond_def h exhausted_def)
  moreover have "steady a ab ?b (ba @ [?g])"
  proof -
    have g: "steady_frame b ?g"
      using f assms(3) by (simp add: steady_frame_def frame_ok_def exhausted_def)
    from lanes(1) h have "(nf_sequence f, nf_request_id f) # heartbeats_in ab @ acks_in ba = ln_heartbeats a"
      and "length (ln_heartbeats a) \<le> 1"
      by (simp_all add: lane_def)
    from short_list [OF this] have "heartbeats_in ab = []" and "acks_in ba = []"
      and "ln_heartbeats a = [(nf_sequence f, nf_request_id f)]" by simp_all
    with s lanes lane_head [OF lanes(1)] g h show ?thesis
      by (auto simp: steady_def lane_def compatible_update)
  qed
  ultimately show ?thesis by (intro exI conjI) (assumption | simp)+
qed

lemma steady_deliver_ack:
  assumes s: "steady a (f # ab) b ba" and h: "nf_body f = Ack n"
  shows "\<exists>b'. receive_link (frame_value f) b = (Inr nothing_received, b') \<and> steady a ab b' ba"
proof -
  let ?b = "b\<lparr>ln_expected := Suc (ln_expected b), ln_heartbeats := []\<rparr>"
  from s have lanes: "lane a (f # ab) b ba" "lane b ba a (f # ab)" "ln_state b = Ready"
    by (simp_all add: steady_def)
  have f: "frame_ok f" using lane_head(4) [OF lanes(1)] by (simp add: steady_frame_def)
  have one: "ln_heartbeats b = [(n, nf_request_id f)]" "heartbeats_in ba = []" "acks_in ab = []"
  proof -
    have "heartbeats_in ba @ (n, nf_request_id f) # acks_in ab = ln_heartbeats b"
      and "length (ln_heartbeats b) \<le> 1"
      using lanes(2) h by (simp_all add: lane_def)
    then show "ln_heartbeats b = [(n, nf_request_id f)]" "heartbeats_in ba = []" "acks_in ab = []"
      by (auto simp: Cons_eq_append_conv append_eq_Cons_conv length_Suc_conv le_Suc_eq)
  qed
  then have "receive_link (frame_value f) b = (Inr nothing_received, ?b)"
    using receive_steady_frame [OF f lane_head(1) [OF lanes(1)] lanes(3)]
    by (simp add: receive_ready_def h Let_def)
  moreover have "steady a ab ?b ba"
    using s lanes lane_head [OF lanes(1)] h one
    by (auto simp: steady_def lane_def compatible_update)
  ultimately show ?thesis by blast
qed

lemma steady_deliver_application:
  assumes s: "steady a (f # ab) b ba" and h: "is_application f"
  shows "\<exists>b'. receive_link (frame_value f) b = (Inr \<lparr>rx_application = Some f, rx_response = None\<rparr>, b')
    \<and> steady a ab b' ba"
proof -
  let ?b = "b\<lparr>ln_expected := Suc (ln_expected b)\<rparr>"
  from s have lanes: "lane a (f # ab) b ba" "lane b ba a (f # ab)" "ln_state b = Ready"
    and sub: "set (ln_outgoing a) \<subseteq> set (ln_incoming b)"
    by (simp_all add: steady_def compatible_def)
  have f: "frame_ok f" using lane_head(4) [OF lanes(1)] by (simp add: steady_frame_def)
  from h have plain: "nf_body f \<noteq> Heartbeat" "acks_in [f] = []" by (auto split: frame_body.splits)
  have "type_of_body (nf_body f) \<in> set (ln_incoming b)"
    using lane_head(4) [OF lanes(1)] h sub by (auto simp: steady_frame_def)
  then have "receive_ready f b = (Inr \<lparr>rx_application = Some f, rx_response = None\<rparr>, ?b)"
    using h by (simp add: receive_ready_def Let_def split: frame_body.splits)
  then have "receive_link (frame_value f) b = (Inr \<lparr>rx_application = Some f, rx_response = None\<rparr>, ?b)"
    using receive_steady_frame [OF f lane_head(1) [OF lanes(1)] lanes(3)] by simp
  moreover have "steady a ab ?b ba"
    using s lanes lane_head [OF lanes(1)] plain
    by (auto simp: steady_def lane_def compatible_update)
  ultimately show ?thesis by blast
qed

end
