(* ===== verification/Link_Properties.thy ===== *)
theory Link_Properties
  imports Link_Pair
begin

text \<open>
  The link as a system of two ends and two channels: its steps, its invariant through handshake
  and steady state, and the properties of the link.
\<close>

section \<open>The system\<close>

record link_pair =
  lp_a :: link
  lp_b :: link
  lp_ab :: "frame list"
  lp_ba :: "frame list"
  lp_sent_a :: "frame list"
  lp_got_b :: "frame list"
  lp_sent_b :: "frame list"
  lp_got_a :: "frame list"

abbreviation listed :: "'a option \<Rightarrow> 'a list" where
  "listed x \<equiv> (case x of None \<Rightarrow> [] | Some y \<Rightarrow> [y])"

inductive pair_step :: "link_pair \<Rightarrow> link_pair \<Rightarrow> bool" where
  start: "start_link r (lp_a p) = (Inr f, a') \<Longrightarrow>
     pair_step p (p\<lparr>lp_a := a', lp_ab := lp_ab p @ [f]\<rparr>)"
| send_a: "send_application v (lp_a p) = (Inr f, a') \<Longrightarrow>
     pair_step p (p\<lparr>lp_a := a', lp_ab := lp_ab p @ [f], lp_sent_a := lp_sent_a p @ [f]\<rparr>)"
| send_b: "send_application v (lp_b p) = (Inr f, b') \<Longrightarrow>
     pair_step p (p\<lparr>lp_b := b', lp_ba := lp_ba p @ [f], lp_sent_b := lp_sent_b p @ [f]\<rparr>)"
| beat_a: "send_heartbeat r (lp_a p) = (Inr f, a') \<Longrightarrow>
     pair_step p (p\<lparr>lp_a := a', lp_ab := lp_ab p @ [f]\<rparr>)"
| beat_b: "send_heartbeat r (lp_b p) = (Inr f, b') \<Longrightarrow>
     pair_step p (p\<lparr>lp_b := b', lp_ba := lp_ba p @ [f]\<rparr>)"
| deliver_b: "lp_ab p = f # rest \<Longrightarrow> receive_link (frame_value f) (lp_b p) = (Inr rx, b') \<Longrightarrow>
     pair_step p (p\<lparr>lp_b := b', lp_ab := rest, lp_ba := lp_ba p @ listed (rx_response rx),
                    lp_got_b := lp_got_b p @ listed (rx_application rx)\<rparr>)"
| deliver_a: "lp_ba p = f # rest \<Longrightarrow> receive_link (frame_value f) (lp_a p) = (Inr rx, a') \<Longrightarrow>
     pair_step p (p\<lparr>lp_a := a', lp_ba := rest, lp_ab := lp_ab p @ listed (rx_response rx),
                    lp_got_a := lp_got_a p @ listed (rx_application rx)\<rparr>)"

inductive_cases pair_stepE: "pair_step p p'"

inductive pair_reachable :: "link_pair \<Rightarrow> link_pair \<Rightarrow> bool" for p0 where
  initial: "pair_reachable p0 p0"
| move: "pair_reachable p0 p \<Longrightarrow> pair_step p p' \<Longrightarrow> pair_reachable p0 p'"

definition joined :: "link \<Rightarrow> link \<Rightarrow> link_pair" where
  "joined a b = \<lparr>lp_a = a, lp_b = b, lp_ab = [], lp_ba = [], lp_sent_a = [], lp_got_b = [],
     lp_sent_b = [], lp_got_a = []\<rparr>"

section \<open>The invariant\<close>

definition untouched :: "link \<Rightarrow> bool" where
  "untouched s \<longleftrightarrow> ln_next s = 0 \<and> ln_expected s = 0 \<and> ln_heartbeats s = [] \<and> ln_handshake s = None"

definition resumed :: "link \<Rightarrow> link" where
  "resumed a = a\<lparr>ln_expected := 1, ln_handshake := None, ln_state := Ready\<rparr>"

definition hello_of :: "link \<Rightarrow> jstr \<Rightarrow> frame" where
  "hello_of a r = \<lparr>nf_request_id = r, nf_sequence = 0, nf_body = Hello (ln_local a) (ln_version a) [2]\<rparr>"

definition hello_reply :: "link \<Rightarrow> jstr \<Rightarrow> frame" where
  "hello_reply b r = \<lparr>nf_request_id = r, nf_sequence = 0, nf_body = Hello_Acknowledged (ln_local b) (ln_version b)\<rparr>"

datatype phase = Unstarted | Hello_Sent jstr | Hello_Answered jstr | Steady

text \<open>What holds in each phase of the handshake.\<close>

fun in_phase :: "phase \<Rightarrow> link \<Rightarrow> frame list \<Rightarrow> link \<Rightarrow> frame list \<Rightarrow> bool" where
  "in_phase Unstarted a ab b ba \<longleftrightarrow>
     compatible a b \<and> untouched a \<and> untouched b \<and> ln_state a = Idle \<and> ln_state b = Awaiting_Hello
     \<and> ab = [] \<and> ba = []"
| "in_phase (Hello_Sent r) a ab b ba \<longleftrightarrow>
     compatible a b \<and> untouched b \<and> ln_state b = Awaiting_Hello \<and> opaque_text 128 r
     \<and> ln_state a = Awaiting_Acknowledgement \<and> ln_handshake a = Some r \<and> ln_next a = 1
     \<and> ln_expected a = 0 \<and> ln_heartbeats a = [] \<and> ab = [hello_of a r] \<and> ba = []"
| "in_phase (Hello_Answered r) a ab b ba \<longleftrightarrow>
     ln_state a = Awaiting_Acknowledgement \<and> ln_handshake a = Some r \<and> ln_expected a = 0 \<and> ab = []
     \<and> opaque_text 128 r \<and> (\<exists>rest. ba = hello_reply b r # rest \<and> steady (resumed a) ab b rest)"
| "in_phase Steady a ab b ba \<longleftrightarrow> steady a ab b ba"

definition pair_inv :: "link_pair \<Rightarrow> bool" where
  "pair_inv p \<longleftrightarrow>
     (\<exists>ph. in_phase ph (lp_a p) (lp_ab p) (lp_b p) (lp_ba p))
     \<and> lp_sent_a p = lp_got_b p @ filter is_application (lp_ab p)
     \<and> lp_sent_b p = lp_got_a p @ filter is_application (lp_ba p)"

lemma hello_frames_ok:
  "link_ok a \<Longrightarrow> opaque_text 128 r \<Longrightarrow> frame_ok (hello_of a r) \<and> frame_ok (hello_reply a r)"
  by (simp add: hello_of_def hello_reply_def frame_ok_def link_ok_def version_ok)

lemma start_link_Inr:
  assumes "start_link r a = (Inr f, a')" and "link_ok a" and "untouched a"
  shows "ln_state a = Idle \<and> opaque_text 128 r \<and> f = hello_of a r
    \<and> a' = a\<lparr>ln_next := 1, ln_handshake := Some r, ln_state := Awaiting_Acknowledgement\<rparr>"
proof -
  from assms(1) have mode: "ln_mode a = Initiator" "ln_state a = Idle" and r: "opaque_text 128 r"
    by (auto simp: start_link_def reject_link_def reject_schema_failure_def request_id_ok split: if_splits)
  have "body_ok (Hello (ln_local a) (ln_version a) [2])"
    using assms(2) by (simp add: link_ok_def version_ok)
  from own_frame_ok [OF r this, of a] assms(1,3) mode r show ?thesis
    by (auto simp: start_link_def reject_schema_failure_def request_id_ok untouched_def
        NATIVE_MESSAGING_PROTOCOL_VERSION_def hello_of_def)
qed

lemma receive_hello:
  assumes "in_phase (Hello_Sent r) a [f] b ba"
  shows "\<exists>b'. receive_link (frame_value f) b = (Inr \<lparr>rx_application = None, rx_response = Some (hello_reply b r)\<rparr>, b')
    \<and> in_phase (Hello_Answered r) a [] b' [hello_reply b r]"
proof -
  let ?b = "b\<lparr>ln_expected := 1, ln_state := Ready, ln_next := 1\<rparr>"
  from assms have ph: "compatible a b" "untouched b" "ln_state b = Awaiting_Hello" "opaque_text 128 r"
    and f: "f = hello_of a r" by auto
  from ph have ok: "link_ok a" "link_ok b" "ln_remote b = ln_local a" by (simp_all add: compatible_def)
  have reply: "body_ok (Hello_Acknowledged (ln_local b) (ln_version b))"
    using ok(2) by (simp add: link_ok_def version_ok)
  have "receive_link (frame_value f) b = accept_hello f b"
    using frame_value_read [of f] hello_frames_ok [OF ok(1) ph(4)] ph(2,3)
    by (simp add: receive_link_def f untouched_def hello_of_def)
  also have "\<dots> = (Inr \<lparr>rx_application = None, rx_response = Some (hello_reply b r)\<rparr>, ?b)"
    using ph(2) ok(3) own_frame_ok [OF ph(4) reply, of "b\<lparr>ln_expected := 1, ln_state := Ready\<rparr>"]
    by (simp add: accept_hello_def f hello_of_def respond_def hello_reply_def untouched_def)
  moreover have "in_phase (Hello_Answered r) a [] ?b [hello_reply b r]"
    using assms by (auto simp: hello_reply_def steady_def lane_def resumed_def untouched_def)
  ultimately show ?thesis by auto
qed

lemma receive_hello_reply:
  assumes "in_phase (Hello_Answered r) a ab b (f # rest)"
  shows "receive_link (frame_value f) a = (Inr nothing_received, resumed a) \<and> steady (resumed a) ab b rest"
proof -
  from assms have ph: "ln_state a = Awaiting_Acknowledgement" "ln_handshake a = Some r" "ln_expected a = 0"
      "opaque_text 128 r" "f = hello_reply b r" "steady (resumed a) ab b rest" by auto
  then have ok: "link_ok b" "ln_remote a = ln_local b" 
    by (auto simp: steady_def compatible_def resumed_def)
  have "receive_link (frame_value f) a = accept_hello_acknowledgement f a"
    using frame_value_read [of f] hello_frames_ok [OF ok(1) ph(4)] ph(1,3,5)
    by (simp add: receive_link_def hello_reply_def)
  with ph ok show ?thesis
    by (simp add: accept_hello_acknowledgement_def hello_reply_def resumed_def)
qed

text \<open>An exhausted end rejects the heartbeat it would have to answer.\<close>

lemma exhausted_heartbeat:
  assumes "steady a (f # ab) b ba" and "nf_body f = Heartbeat" and "exhausted b"
  shows "\<exists>e b'. receive_link (frame_value f) b = (Inl e, b')"
proof -
  from assms(1) have l: "lane a (f # ab) b ba" "ln_state b = Ready" by (simp_all add: steady_def)
  have f: "frame_ok f" using lane_head(4) [OF l(1)] by (simp add: steady_frame_def)
  then have ids: "opaque_text 128 (nf_request_id f)" "body_ok (Ack (nf_sequence f))"
    by (simp_all add: frame_ok_def)
  with assms(2,3) receive_steady_frame [OF f lane_head(1) [OF l(1)] l(2)]
    own_frame_ok [OF ids, of "b\<lparr>ln_expected := Suc (ln_expected b)\<rparr>"]
  show ?thesis by (simp add: receive_ready_def respond_def exhausted_def reject_link_def)
qed

text \<open>Delivery of the first frame on the way from \<open>a\<close> to \<open>b\<close>, in any phase.\<close>

lemma steady_deliver:
  assumes "steady a (f # ab) b ba"
  obtains (exhausted) e b' where "exhausted b" and "receive_link (frame_value f) b = (Inl e, b')"
    | (received) rx b' where "receive_link (frame_value f) b = (Inr rx, b')"
        and "listed (rx_application rx) = filter is_application [f]"
        and "filter is_application (listed (rx_response rx)) = []"
        and "steady a ab b' (ba @ listed (rx_response rx))"
proof -
  from assms have "steady_frame a f" by (simp add: steady_def lane_def)
  then consider (h) "nf_body f = Heartbeat" | (k) n where "nf_body f = Ack n" | (p) "is_application f"
    by (auto simp: steady_frame_def)
  then show ?thesis
  proof cases
    case h
    show ?thesis
    proof (cases "exhausted b")
      case True
      with exhausted_heartbeat [OF assms h] show ?thesis using exhausted by blast
    next
      case False
      with steady_deliver_heartbeat [OF assms h] show ?thesis using h received by fastforce
    qed
  next
    case k
    with steady_deliver_ack [OF assms k] show ?thesis using received by fastforce
  next
    case p
    with steady_deliver_application [OF assms p] show ?thesis using received by fastforce
  qed
qed

lemma deliver_to_b:
  assumes "in_phase ph a (f # ab) b ba"
  obtains (exhausted) e b' where "exhausted b" and "receive_link (frame_value f) b = (Inl e, b')"
    | (received) rx b' ph' where "receive_link (frame_value f) b = (Inr rx, b')"
        and "listed (rx_application rx) = filter is_application [f]"
        and "filter is_application (listed (rx_response rx)) = []"
        and "in_phase ph' a ab b' (ba @ listed (rx_response rx))"
proof (cases ph)
  case (Hello_Sent r)
  with assms have ab: "ab = []" "ba = []" "f = hello_of a r" and ph': "in_phase (Hello_Sent r) a [f] b ba" by auto
  from receive_hello [OF ph'] obtain b' where
    "receive_link (frame_value f) b = (Inr \<lparr>rx_application = None, rx_response = Some (hello_reply b r)\<rparr>, b')"
    and "in_phase (Hello_Answered r) a [] b' [hello_reply b r]" by blast
  with ab show ?thesis
    by (intro received) (auto simp: hello_of_def hello_reply_def simp del: in_phase.simps)
next
  case Steady
  with assms have "steady a (f # ab) b ba" by simp
  then show ?thesis
  proof (cases rule: steady_deliver)
    case exhausted
    then show ?thesis by (intro that(1))
  next
    case (received rx b')
    then show ?thesis by (intro that(2) [of rx b' Steady]) simp_all
  qed
qed (use assms in auto)

lemma deliver_to_a:
  assumes "in_phase ph a ab b (f # ba)"
  obtains (exhausted) e a' where "exhausted a" and "receive_link (frame_value f) a = (Inl e, a')"
    | (received) rx a' ph' where "receive_link (frame_value f) a = (Inr rx, a')"
        and "listed (rx_application rx) = filter is_application [f]"
        and "filter is_application (listed (rx_response rx)) = []"
        and "in_phase ph' a' (ab @ listed (rx_response rx)) b ba"
proof (cases ph)
  case (Hello_Answered r)
  with assms have ph': "in_phase (Hello_Answered r) a ab b (f # ba)" and "f = hello_reply b r" by auto
  with receive_hello_reply [OF ph'] show ?thesis
    by (intro received [of nothing_received "resumed a" Steady]) (auto simp: hello_reply_def)
next
  case Steady
  with assms have "steady b (f # ba) a ab" by (simp add: steady_swap)
  then show ?thesis
  proof (cases rule: steady_deliver)
    case exhausted
    then show ?thesis by (intro that(1))
  next
    case (received rx b')
    then show ?thesis by (intro that(2) [of rx b' Steady]) (simp_all add: steady_swap)
  qed
qed (use assms in auto)

section \<open>The invariant is kept\<close>

lemma start_phase:
  assumes "in_phase ph a ab b ba" and "start_link r a = (Inr f, a')"
  shows "in_phase (Hello_Sent r) a' (ab @ [f]) b ba \<and> \<not> is_application f"
proof -
  have idle: "ln_state a = Idle"
    using assms(2) by (auto simp: start_link_def reject_link_def split: if_splits)
  with assms(1) have "ph = Unstarted" by (cases ph) (auto simp: steady_def)
  with assms(1) have ph: "in_phase Unstarted a ab b ba" by simp
  then have "link_ok a" "untouched a" by (simp_all add: compatible_def)
  from start_link_Inr [OF assms(2) this] ph show ?thesis
    by (auto simp: hello_of_def untouched_def)
qed

lemma ready_phase:
  assumes "in_phase ph a ab b ba" and "ln_state a = Ready"
  shows "ph = Steady"
  using assms by (cases ph) auto

text \<open>The responder may already send while its answer to the hello is on its way.\<close>

lemma ready_phase_b:
  assumes "in_phase ph a ab b ba" and "ln_state b = Ready"
  obtains (answered) r rest where "ph = Hello_Answered r" and "ab = []" and "ba = hello_reply b r # rest"
      and "steady b rest (resumed a) []"
    | (steady) "ph = Steady"
  using assms by (cases ph) (auto simp: steady_swap)

lemma send_application_phase_b:
  assumes "in_phase ph a ab b ba" and "send_application v b = (Inr f, b')"
  shows "in_phase ph a ab b' (ba @ [f]) \<and> is_application f"
proof -
  have "ln_state b = Ready" using send_application_Inr [OF assms(2)] by simp
  from assms(1) this show ?thesis
  proof (cases rule: ready_phase_b)
    case (answered r rest)
    moreover from steady_send_application [OF answered(4) assms(2)]
    have "steady (resumed a) [] b' (rest @ [f])" and "is_application f" by (simp_all add: steady_swap)
    moreover have "hello_reply b' r = hello_reply b r"
      using send_application_Inr [OF assms(2)] by (simp add: hello_reply_def)
    ultimately show ?thesis using assms(1) by auto
  next
    case steady
    with assms(1) have "steady b ba a ab" by (simp add: steady_swap)
    from steady_send_application [OF this assms(2)] steady show ?thesis by (simp add: steady_swap)
  qed
qed

lemma send_heartbeat_phase_b:
  assumes "in_phase ph a ab b ba" and "send_heartbeat r' b = (Inr f, b')"
  shows "in_phase ph a ab b' (ba @ [f]) \<and> \<not> is_application f"
proof -
  have ready: "ln_state b = Ready" and f: "nf_body f = Heartbeat"
    using send_heartbeat_Inr [OF assms(2)] by simp_all
  from assms(1) ready show ?thesis
  proof (cases rule: ready_phase_b)
    case (answered r rest)
    moreover from steady_send_heartbeat [OF answered(4) assms(2)]
    have "steady (resumed a) [] b' (rest @ [f])" by (simp add: steady_swap)
    moreover have "hello_reply b' r = hello_reply b r"
      using send_heartbeat_Inr [OF assms(2)] by (simp add: hello_reply_def)
    ultimately show ?thesis using assms(1) f by auto
  next
    case steady
    with assms(1) have "steady b ba a ab" by (simp add: steady_swap)
    from steady_send_heartbeat [OF this assms(2)] steady f show ?thesis by (simp add: steady_swap)
  qed
qed

lemma send_phase_a:
  assumes "in_phase ph a ab b ba"
  shows "send_application v a = (Inr f, a') \<Longrightarrow> in_phase ph a' (ab @ [f]) b ba \<and> is_application f"
    and "send_heartbeat r a = (Inr f, a') \<Longrightarrow> in_phase ph a' (ab @ [f]) b ba \<and> \<not> is_application f"
proof -
  assume s: "send_application v a = (Inr f, a')"
  then have "ph = Steady" using ready_phase [OF assms] send_application_Inr [OF s] by simp
  with assms steady_send_application [OF _ s] show "in_phase ph a' (ab @ [f]) b ba \<and> is_application f" by simp
next
  assume s: "send_heartbeat r a = (Inr f, a')"
  then have "ph = Steady" using ready_phase [OF assms] send_heartbeat_Inr [OF s] by simp
  with assms steady_send_heartbeat [OF _ s] send_heartbeat_Inr [OF s]
  show "in_phase ph a' (ab @ [f]) b ba \<and> \<not> is_application f" by simp
qed

lemma pair_step_inv:
  assumes "pair_step p p'" and "pair_inv p"
  shows "pair_inv p'"
proof -
  from assms(2) obtain ph where ph: "in_phase ph (lp_a p) (lp_ab p) (lp_b p) (lp_ba p)"
    and logs: "lp_sent_a p = lp_got_b p @ filter is_application (lp_ab p)"
      "lp_sent_b p = lp_got_a p @ filter is_application (lp_ba p)"
    by (auto simp: pair_inv_def)
  note [simp del] = is_application_simps in_phase.simps
  from assms(1) show ?thesis
  proof cases
    case (start r f a')
    with start_phase [OF ph start(2)] logs show ?thesis by (auto simp: pair_inv_def)
  next
    case (send_a v f a')
    with send_phase_a(1) [OF ph send_a(2)] logs show ?thesis by (auto simp: pair_inv_def)
  next
    case (send_b v f b')
    with send_application_phase_b [OF ph send_b(2)] logs show ?thesis by (auto simp: pair_inv_def)
  next
    case (beat_a r f a')
    with send_phase_a(2) [OF ph beat_a(2)] logs show ?thesis by (auto simp: pair_inv_def)
  next
    case (beat_b r f b')
    with send_heartbeat_phase_b [OF ph beat_b(2)] logs show ?thesis by (auto simp: pair_inv_def)
  next
    case (deliver_b f rest rx b')
    from ph have "in_phase ph (lp_a p) (f # rest) (lp_b p) (lp_ba p)" by (simp add: deliver_b(2))
    then show ?thesis
    proof (cases rule: deliver_to_b)
      case (received rx' b'' ph')
      with deliver_b logs show ?thesis by (auto simp: pair_inv_def)
    qed (use deliver_b in simp)
  next
    case (deliver_a f rest rx a')
    from ph have "in_phase ph (lp_a p) (lp_ab p) (lp_b p) (f # rest)" by (simp add: deliver_a(2))
    then show ?thesis
    proof (cases rule: deliver_to_a)
      case (received rx' a'' ph')
      with deliver_a logs show ?thesis by (auto simp: pair_inv_def)
    qed (use deliver_a in simp)
  qed
qed

lemma pair_reachable_inv: "pair_reachable p0 p \<Longrightarrow> pair_inv p0 \<Longrightarrow> pair_inv p"
  by (induction rule: pair_reachable.induct) (auto intro: pair_step_inv)

text \<open>A pair of constructed ends whose options match.\<close>

definition matching_ends :: "link \<Rightarrow> link \<Rightarrow> bool" where
  "matching_ends a b \<longleftrightarrow>
     (\<exists>va ia la oa ra vb ib lb ob rb.
        new_link va ia la Initiator oa ra = Some a \<and> new_link vb ib lb Responder ob rb = Some b)
     \<and> ln_remote a = ln_local b \<and> ln_remote b = ln_local a
     \<and> set (ln_outgoing a) \<subseteq> set (ln_incoming b) \<and> set (ln_outgoing b) \<subseteq> set (ln_incoming a)"

lemma joined_inv: "matching_ends a b \<Longrightarrow> pair_inv (joined a b)"
proof -
  assume m: "matching_ends a b"
  then have "link_ok a" and "link_ok b" using new_link_ok by (auto simp: matching_ends_def)
  moreover have "untouched a" "untouched b" "ln_state a = Idle" "ln_state b = Awaiting_Hello"
    using m by (auto simp: matching_ends_def new_link_def untouched_def split: if_splits)
  ultimately have "in_phase Unstarted a [] b []"
    using m by (auto simp: matching_ends_def compatible_def)
  then show ?thesis by (auto simp: pair_inv_def joined_def intro: exI [of _ Unstarted])
qed

section \<open>Closed sessions\<close>

lemma reject_closed: "reject_link e s = (r, s') \<Longrightarrow> ln_state s' = Closed"
  by (auto simp: reject_link_def close_link_def)

lemma own_frame_rejected:
  assumes "own_frame r b s = (Inl (Link_Failure e), s')"
  shows "ln_state s' = Closed"
  using assms
  by (auto simp: own_frame_def take_sequence_def reject_link_def close_link_def
      split: option.splits if_splits)

lemma receive_rejected:
  assumes "receive_link v s = (Inl (Link_Failure e), s')"
  shows "ln_state s' = Closed"
proof (cases "ln_state s = Closed")
  case True
  with assms show ?thesis by (simp add: receive_link_def)
next
  case open_session: False
  show ?thesis
  proof (cases "frame_schema v")
    case None
    with assms open_session show ?thesis by (auto simp: receive_link_def dest: reject_closed)
  next
    case (Some f)
    have hello: "accept_hello f s = (Inl (Link_Failure e), s') \<Longrightarrow> ?thesis"
      by (auto simp: accept_hello_def respond_def dest: reject_closed own_frame_rejected
          split: frame_body.splits if_splits prod.splits sum.splits)
    have acknowledged: "accept_hello_acknowledgement f s = (Inl (Link_Failure e), s') \<Longrightarrow> ?thesis"
      by (auto simp: accept_hello_acknowledgement_def dest: reject_closed
          split: frame_body.splits if_splits)
    have ready: "receive_ready f s = (Inl (Link_Failure e), s') \<Longrightarrow> ?thesis"
      by (cases "nf_body f")
        (auto simp: receive_ready_def respond_def Let_def dest: reject_closed own_frame_rejected
          split: if_splits prod.splits sum.splits)
    from assms open_session Some hello acknowledged ready show ?thesis
      by (auto simp: receive_link_def dest: reject_closed split: if_splits link_state.splits)
  qed
qed

text \<open>When an application frame is handed on.\<close>

lemma receive_application:
  assumes "receive_link v s = (Inr rx, s')" and app: "rx_application rx = Some f"
  shows "ln_state s = Ready \<and> frame_schema v = Some f \<and> nf_sequence f = ln_expected s
    \<and> type_of_body (nf_body f) \<in> set (ln_incoming s) \<and> ln_expected s' = Suc (ln_expected s)"
proof -
  from assms obtain g where g: "frame_schema v = Some g" "nf_sequence g = ln_expected s"
    by (auto simp: receive_link_def reject_link_def split: option.splits if_splits)
  have ready: "ln_state s = Ready \<and> receive_ready g s = (Inr rx, s')"
    using assms g
    by (auto simp: receive_link_def reject_link_def accept_hello_def accept_hello_acknowledgement_def
        respond_def split: link_state.splits frame_body.splits if_splits prod.splits sum.splits)
  then have "f = g \<and> type_of_body (nf_body g) \<in> set (ln_incoming s) \<and> ln_expected s' = Suc (ln_expected s)"
    using app
    by (cases "nf_body g") (auto simp: receive_ready_def respond_def reject_link_def Let_def
        split: if_splits prod.splits sum.splits)
  with ready g show ?thesis by simp
qed

text \<open>In a state of the invariant the next frame on either channel is accepted.\<close>

lemma inv_never_rejects:
  assumes "pair_inv p"
  shows "(\<forall>f rest. lp_ab p = f # rest \<longrightarrow>
      exhausted (lp_b p) \<or> (\<exists>rx b'. receive_link (frame_value f) (lp_b p) = (Inr rx, b')))
    \<and> (\<forall>f rest. lp_ba p = f # rest \<longrightarrow>
      exhausted (lp_a p) \<or> (\<exists>rx a'. receive_link (frame_value f) (lp_a p) = (Inr rx, a')))"
proof -
  from assms
  obtain ph where ph: "in_phase ph (lp_a p) (lp_ab p) (lp_b p) (lp_ba p)"
    by (auto simp: pair_inv_def)
  have b: "exhausted (lp_b p) \<or> (\<exists>rx b'. receive_link (frame_value f) (lp_b p) = (Inr rx, b'))"
    if "lp_ab p = f # rest" for f rest
  proof -
    from ph that have "in_phase ph (lp_a p) (f # rest) (lp_b p) (lp_ba p)" by simp
    then show ?thesis by (cases rule: deliver_to_b) blast+
  qed
  have a: "exhausted (lp_a p) \<or> (\<exists>rx a'. receive_link (frame_value f) (lp_a p) = (Inr rx, a'))"
    if "lp_ba p = f # rest" for f rest
  proof -
    from ph that have "in_phase ph (lp_a p) (lp_ab p) (lp_b p) (f # rest)" by simp
    then show ?thesis by (cases rule: deliver_to_a) blast+
  qed
  from a b show ?thesis by blast
qed

section \<open>Properties\<close>

text \<open>
  C11. Honest peers never break the link: in every state two matching ends can reach, the next frame
  on either channel is accepted. The only way it is not is an end that has used up all its
  sequence numbers and would have to answer a heartbeat.
\<close>

theorem honest_link_never_rejects:
  assumes "matching_ends a b" and "pair_reachable (joined a b) p"
  shows "(\<forall>f rest. lp_ab p = f # rest \<longrightarrow>
      exhausted (lp_b p) \<or> (\<exists>rx b'. receive_link (frame_value f) (lp_b p) = (Inr rx, b')))
    \<and> (\<forall>f rest. lp_ba p = f # rest \<longrightarrow>
      exhausted (lp_a p) \<or> (\<exists>rx a'. receive_link (frame_value f) (lp_a p) = (Inr rx, a')))"
  using inv_never_rejects [OF pair_reachable_inv [OF assms(2) joined_inv [OF assms(1)]]] .

text \<open>The bridge and the extension, and the state in which the hello is on its way.\<close>

definition sample_bridge :: link where
  "sample_bridge = the (new_link (js ''0.1.0'') EXTENSION_TO_BRIDGE_APPLICATION_TYPES Peer_Bridge Initiator
     BRIDGE_TO_EXTENSION_APPLICATION_TYPES Peer_Extension)"

definition sample_extension :: link where
  "sample_extension = the (new_link (js ''0.1.0'') BRIDGE_TO_EXTENSION_APPLICATION_TYPES Peer_Extension Responder
     EXTENSION_TO_BRIDGE_APPLICATION_TYPES Peer_Bridge)"

definition sample_hello :: "(link_failure, frame) result \<times> link" where
  "sample_hello = start_link (js ''r1'') sample_bridge"

lemma sample_ends: "matching_ends sample_bridge sample_extension"
proof -
  have a: "new_link (js ''0.1.0'') EXTENSION_TO_BRIDGE_APPLICATION_TYPES Peer_Bridge Initiator
      BRIDGE_TO_EXTENSION_APPLICATION_TYPES Peer_Extension = Some sample_bridge" by code_simp
  have b: "new_link (js ''0.1.0'') BRIDGE_TO_EXTENSION_APPLICATION_TYPES Peer_Extension Responder
      EXTENSION_TO_BRIDGE_APPLICATION_TYPES Peer_Bridge = Some sample_extension" by code_simp
  have "ln_remote sample_bridge = ln_local sample_extension \<and> ln_remote sample_extension = ln_local sample_bridge"
    by code_simp
  moreover have "set (ln_outgoing sample_bridge) \<subseteq> set (ln_incoming sample_extension)
      \<and> set (ln_outgoing sample_extension) \<subseteq> set (ln_incoming sample_bridge)"
    by code_simp
  ultimately show ?thesis using a b unfolding matching_ends_def by blast
qed

lemma sample_reachable:
  "\<exists>p f. pair_reachable (joined sample_bridge sample_extension) p \<and> lp_ab p = [f] \<and> lp_ba p = []
     \<and> lp_b p = sample_extension \<and> lp_sent_a p = [] \<and> lp_got_b p = []"
proof -
  have "(case fst sample_hello of Inr _ \<Rightarrow> True | Inl _ \<Rightarrow> False)" by code_simp
  then obtain f where "fst sample_hello = Inr f" by (auto split: sum.splits)
  then have "start_link (js ''r1'') (lp_a (joined sample_bridge sample_extension)) = (Inr f, snd sample_hello)"
    by (simp add: joined_def sample_hello_def prod_eq_iff)
  from pair_reachable.move [OF pair_reachable.initial pair_step.start [OF this]] show ?thesis
    by (intro exI conjI) (assumption | simp add: joined_def)+
qed

theorem honest_link_never_rejects_witness:
  "\<exists>f rx s. receive_link (frame_value f) sample_extension = (Inr rx, s)"
proof -
  from sample_reachable obtain p f where p: "pair_reachable (joined sample_bridge sample_extension) p"
    "lp_ab p = [f]" "lp_b p = sample_extension" by blast
  have "\<not> exhausted sample_extension" by code_simp
  with honest_link_never_rejects [OF sample_ends p(1)] p show ?thesis by auto
qed

text \<open>
  C12. The link delivers exactly once and in order: in every state two matching ends can reach, the
  application frames one end has sent are those the other has received followed by those still
  on the channel.
\<close>

theorem link_delivers_in_order:
  assumes "matching_ends a b" and "pair_reachable (joined a b) p"
  shows "lp_sent_a p = lp_got_b p @ filter is_application (lp_ab p)
    \<and> lp_sent_b p = lp_got_a p @ filter is_application (lp_ba p)"
  using pair_reachable_inv [OF assms(2) joined_inv [OF assms(1)]] by (simp add: pair_inv_def)

theorem link_delivers_in_order_witness:
  "\<exists>(p :: link_pair) f. lp_ab p = [f] \<and> lp_b p = sample_extension \<and> \<not> is_application f"
proof -
  from sample_reachable obtain p f where p: "pair_reachable (joined sample_bridge sample_extension) p"
    "lp_ab p = [f]" "lp_b p = sample_extension" "lp_sent_a p = []" "lp_got_b p = []" by blast
  from link_delivers_in_order [OF sample_ends p(1)] p(2,4,5) have "filter is_application [f] = []"
    by (simp del: is_application_simps)
  then have "\<not> is_application f" by (auto simp del: is_application_simps split: if_splits)
  with p(2,3) show ?thesis by blast
qed

text \<open>
  C13. An application frame is handed on only in the ready state, with the expected sequence number,
  in a permitted direction, and exactly as the schema read it; and a rejected frame closes the
  session for good.
\<close>

theorem receive_hands_on_only_valid:
  assumes "receive_link v s = (r, s')"
  shows "(\<forall>rx f. r = Inr rx \<and> rx_application rx = Some f \<longrightarrow>
      ln_state s = Ready \<and> frame_schema v = Some f \<and> nf_sequence f = ln_expected s
      \<and> type_of_body (nf_body f) \<in> set (ln_incoming s) \<and> ln_expected s' = Suc (ln_expected s))
    \<and> (\<forall>e. r = Inl (Link_Failure e) \<longrightarrow>
        ln_state s' = Closed \<and> (\<forall>w. fst (receive_link w s') = Inl (Link_Failure Invalid_State)))"
proof -
  have "ln_state s' = Closed" if "r = Inl (Link_Failure e)" for e
    using assms that receive_rejected by simp
  moreover have "fst (receive_link w s') = Inl (Link_Failure Invalid_State)" if "ln_state s' = Closed" for w
    using that by (simp add: receive_link_def)
  moreover have "ln_state s = Ready \<and> frame_schema v = Some f \<and> nf_sequence f = ln_expected s
      \<and> type_of_body (nf_body f) \<in> set (ln_incoming s) \<and> ln_expected s' = Suc (ln_expected s)"
    if "r = Inr rx \<and> rx_application rx = Some f" for rx f
  proof -
    from that have rx: "r = Inr rx" and f: "rx_application rx = Some f" by blast+
    from receive_application [OF assms [unfolded rx] f] show ?thesis .
  qed
  ultimately show ?thesis by blast
qed

theorem receive_hands_on_only_valid_witness:
  "ln_state (snd (receive_link JNull sample_extension)) = Closed"
proof -
  have "receive_link JNull sample_extension
      = (Inl (Link_Failure Invalid_Frame), snd (receive_link JNull sample_extension))"
  proof -
    have "fst (receive_link JNull sample_extension) = Inl (Link_Failure Invalid_Frame)" by code_simp
    then show ?thesis by (simp add: prod_eq_iff)
  qed
  from receive_hands_on_only_valid [OF this] show ?thesis by blast
qed

end
