(* ===== verification/Native_Host_Relay.thy ===== *)
theory Native_Host_Relay
  imports Link_Properties
begin

text \<open>
  The relay of the native host (\<open>apps/native-host/src/protocol/native-host-relay.ts\<close>): it ends the
  link to the bridge and the link to the extension and passes application frames between them.
  Any failure closes both links.
\<close>

record relay =
  nr_bridge :: link
  nr_extension :: link

record relay_result =
  rr_to_bridge :: "frame option"
  rr_to_extension :: "frame option"

definition new_relay :: "jstr \<Rightarrow> relay option" where
  "new_relay version =
     (case (new_link version BRIDGE_TO_EXTENSION_APPLICATION_TYPES Peer_Native_Host Responder
              EXTENSION_TO_BRIDGE_APPLICATION_TYPES Peer_Bridge,
            new_link version EXTENSION_TO_BRIDGE_APPLICATION_TYPES Peer_Native_Host Responder
              BRIDGE_TO_EXTENSION_APPLICATION_TYPES Peer_Extension) of
        (Some b, Some e) \<Rightarrow> Some \<lparr>nr_bridge = b, nr_extension = e\<rparr>
      | _ \<Rightarrow> None)"

definition close_relay :: "relay \<Rightarrow> relay" where
  "close_relay r = \<lparr>nr_bridge = close_link (nr_bridge r), nr_extension = close_link (nr_extension r)\<rparr>"

text \<open>\<open>#guard\<close>\<close>

definition guard_relay ::
    "(link_failure, relay_result) result \<times> relay \<Rightarrow> (link_failure, relay_result) result \<times> relay" where
  "guard_relay outcome =
     (case outcome of
        (Inl e, r) \<Rightarrow> (throw e, close_relay r)
      | (Inr x, r) \<Rightarrow> (return x, r))"

definition receive_from_bridge :: "jval \<Rightarrow> relay \<Rightarrow> (link_failure, relay_result) result \<times> relay" where
  "receive_from_bridge v r = guard_relay
     (if ln_state (nr_bridge r) = Awaiting_Hello \<and> ln_state (nr_extension r) \<noteq> Ready
      then (throw (Link_Failure Destination_Unavailable), r)
      else case receive_link v (nr_bridge r) of
          (Inl e, b) \<Rightarrow> (throw e, r\<lparr>nr_bridge := b\<rparr>)
        | (Inr rx, b) \<Rightarrow>
            let r' = r\<lparr>nr_bridge := b\<rparr> in
            (case rx_response rx of
               Some f \<Rightarrow> (return \<lparr>rr_to_bridge = Some f, rr_to_extension = None\<rparr>, r')
             | None \<Rightarrow>
                 (case rx_application rx of
                    None \<Rightarrow> (return \<lparr>rr_to_bridge = None, rr_to_extension = None\<rparr>, r')
                  | Some f \<Rightarrow>
                      if ln_state (nr_extension r') \<noteq> Ready
                      then (throw (Link_Failure Destination_Unavailable), r')
                      else case send_application (frame_value f) (nr_extension r') of
                          (Inl e, x) \<Rightarrow> (throw e, r'\<lparr>nr_extension := x\<rparr>)
                        | (Inr g, x) \<Rightarrow>
                            (return \<lparr>rr_to_bridge = None, rr_to_extension = Some g\<rparr>,
                             r'\<lparr>nr_extension := x\<rparr>))))"

definition receive_from_extension :: "jval \<Rightarrow> relay \<Rightarrow> (link_failure, relay_result) result \<times> relay" where
  "receive_from_extension v r = guard_relay
     (case receive_link v (nr_extension r) of
        (Inl e, x) \<Rightarrow> (throw e, r\<lparr>nr_extension := x\<rparr>)
      | (Inr rx, x) \<Rightarrow>
          let r' = r\<lparr>nr_extension := x\<rparr> in
          (case rx_response rx of
             Some f \<Rightarrow> (return \<lparr>rr_to_bridge = None, rr_to_extension = Some f\<rparr>, r')
           | None \<Rightarrow>
               (case rx_application rx of
                  None \<Rightarrow> (return \<lparr>rr_to_bridge = None, rr_to_extension = None\<rparr>, r')
                | Some f \<Rightarrow>
                    if ln_state (nr_bridge r') \<noteq> Ready
                    then (throw (Link_Failure Destination_Unavailable), r')
                    else case send_application (frame_value f) (nr_bridge r') of
                        (Inl e, b) \<Rightarrow> (throw e, r'\<lparr>nr_bridge := b\<rparr>)
                      | (Inr g, b) \<Rightarrow>
                          (return \<lparr>rr_to_bridge = Some g, rr_to_extension = None\<rparr>,
                           r'\<lparr>nr_bridge := b\<rparr>))))"

section \<open>The two links\<close>

text \<open>What an operation leaves alone in a link, and when it leaves a link ready.\<close>

definition same_options :: "link \<Rightarrow> link \<Rightarrow> bool" where
  "same_options s s' \<longleftrightarrow>
     ln_incoming s' = ln_incoming s \<and> ln_outgoing s' = ln_outgoing s \<and> ln_mode s' = ln_mode s"

lemma own_frame_frame:
  "own_frame q b s = (r, s') \<Longrightarrow> same_options s s' \<and> (\<forall>x. r = Inr x \<longrightarrow> ln_state s' = ln_state s)"
  by (auto simp: own_frame_def take_sequence_def reject_link_def close_link_def same_options_def
      split: if_splits option.splits)

lemma own_frame_state:
  "own_frame q b s = (r, s') \<Longrightarrow> ln_state s' = ln_state s \<or> ln_state s' = Closed"
  by (auto simp: own_frame_def take_sequence_def reject_link_def close_link_def
      split: if_splits option.splits)

lemma send_application_frame:
  "send_application v s = (r, s') \<Longrightarrow> same_options s s' \<and> (\<forall>x. r = Inr x \<longrightarrow> ln_state s' = ln_state s)"
  by (auto simp: send_application_def reject_link_def close_link_def same_options_def
      dest: own_frame_frame split: if_splits option.splits)

lemma receive_link_frame:
  assumes "receive_link v s = (r, s')"
  shows "same_options s s'"
proof -
  have respond: "same_options s s'" if "respond q b (s\<lparr>ln_expected := n, ln_state := st\<rparr>) = (r, s')" for q b n st
    using that own_frame_frame
    by (fastforce simp: respond_def same_options_def split: prod.splits sum.splits)
  have respond': "same_options s s'" if "respond q b (s\<lparr>ln_expected := n\<rparr>) = (r, s')" for q b n
    using that own_frame_frame
    by (fastforce simp: respond_def same_options_def split: prod.splits sum.splits)
  have hello: "accept_hello f s = (r, s') \<Longrightarrow> same_options s s'" for f
    using respond
    by (auto simp: accept_hello_def reject_link_def close_link_def same_options_def
        split: frame_body.splits if_splits)
  have acknowledged: "accept_hello_acknowledgement f s = (r, s') \<Longrightarrow> same_options s s'" for f
    by (auto simp: accept_hello_acknowledgement_def reject_link_def close_link_def same_options_def
        split: frame_body.splits if_splits)
  have ready: "receive_ready f s = (r, s') \<Longrightarrow> same_options s s'" for f
    using respond'
    by (cases "nf_body f") (auto simp: receive_ready_def reject_link_def close_link_def same_options_def Let_def
        split: if_splits)
  from assms hello acknowledged ready show ?thesis
    by (auto simp: receive_link_def reject_link_def close_link_def same_options_def
        split: option.splits if_splits link_state.splits)
qed

lemma receive_success:
  assumes "receive_link v s = (Inr rx, s')" and "ln_mode s = Responder"
  shows "ln_state s' = Ready \<and> ln_state s \<noteq> Closed \<and> ln_state s \<noteq> Idle"
proof -
  have responded: "ln_state s' = ln_state t" if "respond q b t = (Inr rx, s')" for q b and t :: link
    using that own_frame_frame by (auto simp: respond_def split: prod.splits sum.splits)
  have hello: "accept_hello f s = (Inr rx, s') \<Longrightarrow> ln_state s' = Ready" for f
    by (auto simp: accept_hello_def reject_link_def dest!: responded split: frame_body.splits if_splits)
  have acknowledged: "accept_hello_acknowledgement f s = (Inr rx, s') \<Longrightarrow> ln_state s' = Ready" for f
    by (auto simp: accept_hello_acknowledgement_def reject_link_def split: frame_body.splits if_splits)
  have ready: "receive_ready f s = (Inr rx, s') \<Longrightarrow> ln_state s' = ln_state s" for f
    by (cases "nf_body f")
      (auto simp: receive_ready_def reject_link_def Let_def dest!: responded split: if_splits)
  from assms hello acknowledged ready show ?thesis
    by (auto simp: receive_link_def reject_link_def split: option.splits if_splits link_state.splits)
qed

definition relay_inv :: "relay \<Rightarrow> bool" where
  "relay_inv r \<longleftrightarrow>
     (ln_state (nr_bridge r) = Ready \<longrightarrow> ln_state (nr_extension r) = Ready)
     \<and> ln_mode (nr_bridge r) = Responder \<and> ln_mode (nr_extension r) = Responder
     \<and> ln_state (nr_bridge r) \<in> {Awaiting_Hello, Ready, Closed}
     \<and> ln_incoming (nr_bridge r) = BRIDGE_TO_EXTENSION_APPLICATION_TYPES
     \<and> ln_outgoing (nr_bridge r) = EXTENSION_TO_BRIDGE_APPLICATION_TYPES
     \<and> ln_incoming (nr_extension r) = EXTENSION_TO_BRIDGE_APPLICATION_TYPES
     \<and> ln_outgoing (nr_extension r) = BRIDGE_TO_EXTENSION_APPLICATION_TYPES"

lemma new_relay_inv: "new_relay version = Some r \<Longrightarrow> relay_inv r"
  by (auto simp: new_relay_def new_link_def relay_inv_def split: option.splits if_splits)

lemma close_relay_inv: "relay_inv r \<Longrightarrow> relay_inv (close_relay r)"
  by (auto simp: relay_inv_def close_relay_def close_link_def)

text \<open>What a receipt from the bridge leaves: both links closed, or the outcome of each branch.\<close>

lemma from_bridge_cases:
  assumes "receive_from_bridge v r = (out, r')"
  obtains (failed) e where "out = Inl e" and "\<exists>t. r' = close_relay t"
    | (quiet) rx b where "receive_link v (nr_bridge r) = (Inr rx, b)"
        and "rx_application rx = None \<or> rx_response rx \<noteq> None"
        and "ln_state (nr_bridge r) = Awaiting_Hello \<longrightarrow> ln_state (nr_extension r) = Ready"
        and "out = Inr \<lparr>rr_to_bridge = rx_response rx, rr_to_extension = None\<rparr>"
        and "r' = r\<lparr>nr_bridge := b\<rparr>"
    | (relayed) rx b f g x where "receive_link v (nr_bridge r) = (Inr rx, b)"
        and "rx_response rx = None" and "rx_application rx = Some f"
        and "ln_state (nr_extension r) = Ready"
        and "send_application (frame_value f) (nr_extension r) = (Inr g, x)"
        and "out = Inr \<lparr>rr_to_bridge = None, rr_to_extension = Some g\<rparr>"
        and "r' = \<lparr>nr_bridge = b, nr_extension = x\<rparr>"
proof (cases "ln_state (nr_bridge r) = Awaiting_Hello \<and> ln_state (nr_extension r) \<noteq> Ready")
  case True
  with assms show ?thesis
    by (intro failed) (auto simp: receive_from_bridge_def guard_relay_def)
next
  case False
  then have early: "ln_state (nr_bridge r) = Awaiting_Hello \<longrightarrow> ln_state (nr_extension r) = Ready" by blast
  obtain y b where y: "receive_link v (nr_bridge r) = (y, b)" by (cases "receive_link v (nr_bridge r)")
  show ?thesis
  proof (cases y)
    case (Inl e)
    with assms False y show ?thesis
      by (intro failed [of e]) (auto simp: receive_from_bridge_def guard_relay_def)
  next
    case (Inr rx)
    consider (r) f where "rx_response rx = Some f" | (n) "rx_response rx = None" "rx_application rx = None"
      | (a) f where "rx_response rx = None" "rx_application rx = Some f"
      by (cases "rx_response rx"; cases "rx_application rx") auto
    then show ?thesis
    proof cases
      case r
      with assms False y Inr early show ?thesis
        by (intro quiet) (auto simp: receive_from_bridge_def guard_relay_def Let_def)
    next
      case n
      with assms False y Inr early show ?thesis
        by (intro quiet) (auto simp: receive_from_bridge_def guard_relay_def Let_def)
    next
      case a
      obtain z x where z: "send_application (frame_value f) (nr_extension r) = (z, x)"
        by (cases "send_application (frame_value f) (nr_extension r)")
      show ?thesis
      proof (cases "ln_state (nr_extension r) = Ready \<and> (\<exists>g. z = Inr g)")
        case True
        then obtain g where g: "z = Inr g" by blast
        with assms False y Inr a z True
        have "out = Inr \<lparr>rr_to_bridge = None, rr_to_extension = Some g\<rparr>"
          and "r' = \<lparr>nr_bridge = b, nr_extension = x\<rparr>"
          by (cases r; auto simp: receive_from_bridge_def guard_relay_def Let_def)+
        with y Inr a z g True show ?thesis by (intro relayed) simp_all
      next
        case closed: False
        have "(\<exists>e. out = Inl e) \<and> (\<exists>t. r' = close_relay t)"
          using assms False y Inr a z closed
          by (cases z; cases "ln_state (nr_extension r) = Ready")
            (auto simp: receive_from_bridge_def guard_relay_def Let_def)
        with failed show ?thesis by blast
      qed
    qed
  qed
qed

lemma from_extension_cases:
  assumes "receive_from_extension v r = (out, r')"
  obtains (failed) e where "out = Inl e" and "\<exists>t. r' = close_relay t"
    | (quiet) rx x where "receive_link v (nr_extension r) = (Inr rx, x)"
        and "rx_application rx = None \<or> rx_response rx \<noteq> None"
        and "out = Inr \<lparr>rr_to_bridge = None, rr_to_extension = rx_response rx\<rparr>"
        and "r' = r\<lparr>nr_extension := x\<rparr>"
    | (relayed) rx x f g b where "receive_link v (nr_extension r) = (Inr rx, x)"
        and "rx_response rx = None" and "rx_application rx = Some f"
        and "ln_state (nr_bridge r) = Ready"
        and "send_application (frame_value f) (nr_bridge r) = (Inr g, b)"
        and "out = Inr \<lparr>rr_to_bridge = Some g, rr_to_extension = None\<rparr>"
        and "r' = \<lparr>nr_bridge = b, nr_extension = x\<rparr>"
proof -
  obtain y x where y: "receive_link v (nr_extension r) = (y, x)" by (cases "receive_link v (nr_extension r)")
  show ?thesis
  proof (cases y)
    case (Inl e)
    with assms y show ?thesis
      by (intro failed [of e]) (auto simp: receive_from_extension_def guard_relay_def)
  next
    case (Inr rx)
    consider (r) f where "rx_response rx = Some f" | (n) "rx_response rx = None" "rx_application rx = None"
      | (a) f where "rx_response rx = None" "rx_application rx = Some f"
      by (cases "rx_response rx"; cases "rx_application rx") auto
    then show ?thesis
    proof cases
      case r
      with assms y Inr show ?thesis
        by (intro quiet) (auto simp: receive_from_extension_def guard_relay_def Let_def)
    next
      case n
      with assms y Inr show ?thesis
        by (intro quiet) (auto simp: receive_from_extension_def guard_relay_def Let_def)
    next
      case a
      obtain z b where z: "send_application (frame_value f) (nr_bridge r) = (z, b)"
        by (cases "send_application (frame_value f) (nr_bridge r)")
      show ?thesis
      proof (cases "ln_state (nr_bridge r) = Ready \<and> (\<exists>g. z = Inr g)")
        case True
        then obtain g where g: "z = Inr g" by blast
        with assms y Inr a z True
        have "out = Inr \<lparr>rr_to_bridge = Some g, rr_to_extension = None\<rparr>"
          and "r' = \<lparr>nr_bridge = b, nr_extension = x\<rparr>"
          by (cases r; auto simp: receive_from_extension_def guard_relay_def Let_def)+
        with y Inr a z g True show ?thesis by (intro relayed) simp_all
      next
        case closed: False
        have "(\<exists>e. out = Inl e) \<and> (\<exists>t. r' = close_relay t)"
          using assms y Inr a z closed
          by (cases z; cases "ln_state (nr_bridge r) = Ready")
            (auto simp: receive_from_extension_def guard_relay_def Let_def)
        with failed show ?thesis by blast
      qed
    qed
  qed
qed

section \<open>Histories\<close>

inductive relay_reachable :: "relay \<Rightarrow> relay \<Rightarrow> bool" for r0 where
  built: "relay_reachable r0 r0"
| bridge: "relay_reachable r0 r \<Longrightarrow> receive_from_bridge v r = (out, r') \<Longrightarrow> relay_reachable r0 r'"
| extension: "relay_reachable r0 r \<Longrightarrow> receive_from_extension v r = (out, r') \<Longrightarrow> relay_reachable r0 r'"
| closed: "relay_reachable r0 r \<Longrightarrow> relay_reachable r0 (close_relay r)"

text \<open>Closing forgets what the links were, so a failure closes the relay it started from, too.\<close>

definition relay_closed :: "relay \<Rightarrow> bool" where
  "relay_closed r \<longleftrightarrow> ln_state (nr_bridge r) = Closed \<and> ln_state (nr_extension r) = Closed"

lemma close_relay_closed [simp]: "relay_closed (close_relay r)"
  by (simp add: relay_closed_def close_relay_def close_link_def)

definition relay_state_ok :: "relay \<Rightarrow> bool" where
  "relay_state_ok r \<longleftrightarrow> relay_closed r \<or> relay_inv r"

lemma from_bridge_ok:
  assumes "relay_state_ok r" and "receive_from_bridge v r = (out, r')"
  shows "relay_state_ok r'"
  using assms(2)
proof (cases rule: from_bridge_cases)
  case failed
  then show ?thesis by (auto simp: relay_state_ok_def)
next
  case (quiet rx b)
  then have inv: "relay_inv r" using assms(1) by (auto simp: relay_state_ok_def relay_closed_def receive_link_def)
  then have "ln_mode (nr_bridge r) = Responder" by (simp add: relay_inv_def)
  from receive_success [OF quiet(1) this] receive_link_frame [OF quiet(1)] inv quiet(3) show ?thesis
    by (auto simp: relay_state_ok_def relay_inv_def quiet(5) same_options_def)
next
  case (relayed rx b f g x)
  then have inv: "relay_inv r" using assms(1) by (auto simp: relay_state_ok_def relay_closed_def)
  then have "ln_mode (nr_bridge r) = Responder" by (simp add: relay_inv_def)
  from receive_success [OF relayed(1) this] receive_link_frame [OF relayed(1)]
    send_application_frame [OF relayed(5)] inv relayed(4) show ?thesis
    by (auto simp: relay_state_ok_def relay_inv_def relayed(7) same_options_def)
qed

lemma from_extension_ok:
  assumes "relay_state_ok r" and "receive_from_extension v r = (out, r')"
  shows "relay_state_ok r'"
  using assms(2)
proof (cases rule: from_extension_cases)
  case failed
  then show ?thesis by (auto simp: relay_state_ok_def)
next
  case (quiet rx x)
  then have inv: "relay_inv r" using assms(1) by (auto simp: relay_state_ok_def relay_closed_def receive_link_def)
  then have "ln_mode (nr_extension r) = Responder" by (simp add: relay_inv_def)
  from receive_success [OF quiet(1) this] receive_link_frame [OF quiet(1)] inv show ?thesis
    by (auto simp: relay_state_ok_def relay_inv_def quiet(4) same_options_def)
next
  case (relayed rx x f g b)
  then have inv: "relay_inv r" using assms(1) by (auto simp: relay_state_ok_def relay_closed_def)
  then have "ln_mode (nr_extension r) = Responder" by (simp add: relay_inv_def)
  from receive_success [OF relayed(1) this] receive_link_frame [OF relayed(1)]
    send_application_frame [OF relayed(5)] inv relayed(4) show ?thesis
    by (auto simp: relay_state_ok_def relay_inv_def relayed(7) same_options_def)
qed

lemma relay_reachable_ok: "relay_reachable r0 r \<Longrightarrow> relay_state_ok r0 \<Longrightarrow> relay_state_ok r"
proof (induction rule: relay_reachable.induct)
  case (bridge r v out r')
  show ?case by (rule from_bridge_ok [OF bridge.IH [OF bridge.prems] bridge.hyps(2)])
next
  case (extension r v out r')
  show ?case by (rule from_extension_ok [OF extension.IH [OF extension.prems] extension.hyps(2)])
next
  case (closed r)
  then show ?case by (simp add: relay_state_ok_def)
qed

text \<open>A relay with both handshakes done, and a cancellation from the bridge.\<close>

definition sample_greeting :: "peer_role \<Rightarrow> jval" where
  "sample_greeting p = frame_value \<lparr>nf_request_id = js ''h'', nf_sequence = 0, nf_body = Hello p (js ''0.1.0'') [2]\<rparr>"

definition sample_cancel :: jval where
  "sample_cancel = frame_value \<lparr>nf_request_id = js ''c1'', nf_sequence = 1, nf_body = Turn_Cancel (js ''s'') (js ''t'')\<rparr>"

definition sample_relay :: relay where
  "sample_relay = the (new_relay (js ''0.1.0''))"

definition sample_open_relay :: relay where
  "sample_open_relay =
     snd (receive_from_bridge (sample_greeting Peer_Bridge)
       (snd (receive_from_extension (sample_greeting Peer_Extension) sample_relay)))"

lemma sample_relay_built: "new_relay (js ''0.1.0'') = Some sample_relay"
  by code_simp

lemma sample_relay_reachable: "relay_reachable sample_relay sample_open_relay"
  unfolding sample_open_relay_def
  by (rule relay_reachable.bridge [OF relay_reachable.extension [OF relay_reachable.built
        prod.collapse [symmetric]] prod.collapse [symmetric]])

section \<open>Properties\<close>

text \<open>
  The bridge's link is never ready without the extension's: in every state a constructed relay
  can reach, a ready bridge link comes with a ready extension link, so an application frame from the
  bridge always has somewhere to go.
\<close>

theorem relay_bridge_needs_extension:
  assumes "new_relay version = Some r0" and "relay_reachable r0 r"
    and "ln_state (nr_bridge r) = Ready"
  shows "ln_state (nr_extension r) = Ready"
  using relay_reachable_ok [OF assms(2)] new_relay_inv [OF assms(1)] assms(3)
  by (auto simp: relay_state_ok_def relay_closed_def relay_inv_def)

theorem relay_bridge_needs_extension_witness:
  "ln_state (nr_bridge sample_open_relay) = Ready \<and> ln_state (nr_extension sample_open_relay) = Ready"
proof -
  have "ln_state (nr_bridge sample_open_relay) = Ready" by code_simp
  with relay_bridge_needs_extension [OF sample_relay_built sample_relay_reachable] show ?thesis by simp
qed

text \<open>
  The relay forwards faithfully or not at all: what reaches the extension is a frame the bridge
  sent in its ready state, with the same request id and payload, of a type the bridge may send,
  renumbered for the extension's link; and any failure leaves both links closed.
\<close>

theorem relay_forwards_faithfully:
  assumes "new_relay version = Some r0" and "relay_reachable r0 r"
    and "receive_from_bridge v r = (out, r')"
  shows "(\<forall>e. out = Inl e \<longrightarrow> relay_closed r')
    \<and> (\<forall>x g. out = Inr x \<and> rr_to_extension x = Some g \<longrightarrow>
        (\<exists>f. frame_schema v = Some f \<and> nf_body g = nf_body f \<and> nf_request_id g = nf_request_id f
           \<and> type_of_body (nf_body f) \<in> set BRIDGE_TO_EXTENSION_APPLICATION_TYPES
           \<and> nf_sequence g = ln_next (nr_extension r)
           \<and> ln_state (nr_bridge r) = Ready \<and> ln_state (nr_extension r) = Ready
           \<and> rr_to_bridge x = None))"
  using assms(3)
proof (cases rule: from_bridge_cases)
  case failed
  then show ?thesis by auto
next
  case (quiet rx b)
  then show ?thesis by simp
next
  case (relayed rx b f g x)
  have inv: "relay_inv r"
    using relay_reachable_ok [OF assms(2)] new_relay_inv [OF assms(1)] relayed(4)
    by (auto simp: relay_state_ok_def relay_closed_def)
  from receive_application [OF relayed(1,3)] have f: "ln_state (nr_bridge r) = Ready" "frame_schema v = Some f"
    "type_of_body (nf_body f) \<in> set (ln_incoming (nr_bridge r))" by simp_all
  have "frame_schema (frame_value f) = Some f"
    by (rule frame_value_read [OF frame_read_ok [OF f(2)]])
  with send_application_Inr [OF relayed(5)] f inv relayed(4,6) show ?thesis
    by (auto simp: relay_inv_def)
qed

theorem relay_forwards_faithfully_witness:
  "\<exists>x g. fst (receive_from_bridge sample_cancel sample_open_relay) = Inr x \<and> rr_to_extension x = Some g
     \<and> nf_body g = Turn_Cancel (js ''s'') (js ''t'')"
proof -
  let ?o = "receive_from_bridge sample_cancel sample_open_relay"
  have "(case fst ?o of Inr x \<Rightarrow> rr_to_extension x \<noteq> None | Inl _ \<Rightarrow> False)" by code_simp
  then obtain x g where o': "fst ?o = Inr x" "rr_to_extension x = Some g"
    by (auto split: sum.splits)
  have "receive_from_bridge sample_cancel sample_open_relay = (fst ?o, snd ?o)" by simp
  from relay_forwards_faithfully [OF sample_relay_built sample_relay_reachable this] o'
  obtain f where f: "frame_schema sample_cancel = Some f" "nf_body g = nf_body f" by blast
  have "map_option nf_body (frame_schema sample_cancel) = Some (Turn_Cancel (js ''s'') (js ''t''))" by code_simp
  with f o' show ?thesis by auto
qed

end
