(* ===== verification/Chunk_Scanner.thy ===== *)
theory Chunk_Scanner
  imports Prelude
begin

text \<open>
  The contract the two stream decoders of the program share: a scanner takes what can be read
  from the front of a buffer and leaves the rest. When it works through later input as if the
  input had been there from the start, the boundaries of the chunks that deliver a stream do not
  matter. The length-prefixed decoder and the line decoder provide it.
\<close>

type_synonym ('e, 'f, 'b) scanner = "'b list \<Rightarrow> ('e, 'f list \<times> 'b list) result"

text \<open>Bytes that arrive later extend the scan of what was there.\<close>

definition continue_scan :: "('e, 'f, 'b) scanner \<Rightarrow> 'b list \<Rightarrow> ('e, 'f list \<times> 'b list) result \<Rightarrow> ('e, 'f list \<times> 'b list) result" where
  "continue_scan scan later r =
     and_then r (\<lambda>(fs, rest).
     and_then (scan (rest @ later)) (\<lambda>(gs, rest'). return (fs @ gs, rest')))"

lemma continue_scan_simps [simp]:
  "continue_scan scan later (Inl e) = Inl e"
  "continue_scan scan later (Inr (fs, rest)) = and_then (scan (rest @ later)) (\<lambda>(gs, rest'). Inr (fs @ gs, rest'))"
  by (simp_all add: continue_scan_def)

text \<open>The chunks of a stream in turn, up to the first error.\<close>

fun feed :: "('e, 'f, 'b) scanner \<Rightarrow> 'b list list \<Rightarrow> 'b list \<Rightarrow> ('e, 'f list \<times> 'b list) result" where
  "feed scan [] buffer = return ([], buffer)"
| "feed scan (c # cs) buffer =
     and_then (scan (buffer @ c)) (\<lambda>(fs, rest).
     and_then (feed scan cs rest) (\<lambda>(gs, rest'). return (fs @ gs, rest')))"

locale chunk_scanner =
  fixes scan :: "('e, 'f, 'b) scanner"
  assumes append: "scan (bs @ later) = continue_scan scan later (scan bs)"
    and settled: "scan bs = Inr (fs, rest) \<Longrightarrow> scan rest = Inr ([], rest)"
begin

lemma feed_concat: "scan buffer = Inr ([], buffer) \<Longrightarrow> feed scan cs buffer = scan (buffer @ concat cs)"
proof (induction cs arbitrary: buffer)
  case (Cons c cs)
  have whole: "scan (buffer @ c @ concat cs) = continue_scan scan (concat cs) (scan (buffer @ c))"
    using append [of "buffer @ c" "concat cs"] by simp
  show ?case
  proof (cases "scan (buffer @ c)")
    case (Inr r)
    then obtain fs rest where r: "scan (buffer @ c) = Inr (fs, rest)" by (cases r) simp
    with Cons.IH [OF settled [OF r]] whole show ?thesis by simp
  qed (use whole in simp)
qed simp

lemma feed_settled:
  assumes "scan buffer = Inr ([], buffer)" and "feed scan cs buffer = Inr (fs, rest)"
  shows "scan rest = Inr ([], rest)"
  using assms feed_concat settled by simp

lemma feed_chunking:
  assumes "scan buffer = Inr ([], buffer)" and "concat cs = concat cs'"
  shows "feed scan cs buffer = feed scan cs' buffer"
  using assms by (simp add: feed_concat)

end

end
