(* ===== verification/Frame_Decoder.thy ===== *)
theory Frame_Decoder
  imports Frame_Facts Capability_Token Chunk_Scanner
begin

text \<open>
  The length-prefixed byte stream of Native Messaging
  (\<open>packages/native-messaging/src/transport/native-message-decoder.ts\<close>, \<open>constants.ts\<close>,
  \<open>errors.ts\<close>, and the encoding step of \<open>native-message-writer.ts\<close>). The text of a payload is
  turned into a value by \<open>JSON.parse\<close> after \<open>TextDecoder.decode\<close>, and back by \<open>JSON.stringify\<close>
  in UTF-8: both are parameters (\<open>None\<close> where they throw).
\<close>

datatype transport_error =
    Buffer_Overflow | Frame_Too_Large | Invalid_Transport_Frame | Queue_Overflow
  | Transport_Closed | Truncated_Frame | Write_Failed

definition NATIVE_MESSAGE_HEADER_BYTES :: nat where "NATIVE_MESSAGE_HEADER_BYTES = 4"
definition DEFAULT_NATIVE_MESSAGE_MAX_FRAME_BYTES :: nat where
  "DEFAULT_NATIVE_MESSAGE_MAX_FRAME_BYTES = 1048576"
definition DEFAULT_NATIVE_MESSAGE_MAX_BUFFERED_BYTES :: nat where
  "DEFAULT_NATIVE_MESSAGE_MAX_BUFFERED_BYTES = 2097160"
definition DEFAULT_NATIVE_MESSAGE_MAX_QUEUED_BYTES :: nat where
  "DEFAULT_NATIVE_MESSAGE_MAX_QUEUED_BYTES = 2097160"
definition DEFAULT_NATIVE_MESSAGE_MAX_QUEUED_MESSAGES :: nat where
  "DEFAULT_NATIVE_MESSAGE_MAX_QUEUED_MESSAGES = 32"

record decoder =
  dc_max_buffered :: nat
  dc_max_frame :: nat
  dc_buffer :: "byte list"
  dc_closed :: bool

text \<open>The constructor; \<open>None\<close> is its \<open>RangeError\<close>.\<close>

definition new_decoder :: "jnum \<Rightarrow> jnum \<Rightarrow> decoder option" where
  "new_decoder max_buffered max_frame =
     (case (max_buffered, max_frame) of
        (NInt b, NInt f) \<Rightarrow>
          if \<not> is_safe_integer (NInt f) \<or> f < 1 \<or> int DEFAULT_NATIVE_MESSAGE_MAX_FRAME_BYTES < f
             \<or> \<not> is_safe_integer (NInt b) \<or> b < f + int NATIVE_MESSAGE_HEADER_BYTES
             \<or> int DEFAULT_NATIVE_MESSAGE_MAX_BUFFERED_BYTES < b
          then None
          else Some \<lparr>dc_max_buffered = nat b, dc_max_frame = nat f, dc_buffer = [], dc_closed = False\<rparr>
      | _ \<Rightarrow> None)"

text \<open>\<open>readUInt32LE\<close> at the start of the bytes, and \<open>writeUInt32LE\<close>.\<close>

definition read_u32le :: "byte list \<Rightarrow> nat" where
  "read_u32le bs = unat (bs ! 0) + 256 * unat (bs ! 1) + 65536 * unat (bs ! 2) + 16777216 * unat (bs ! 3)"

definition u32le :: "nat \<Rightarrow> byte list" where
  "u32le n = [of_nat (n mod 256), of_nat (n div 256 mod 256), of_nat (n div 65536 mod 256),
              of_nat (n div 16777216 mod 256)]"

text \<open>
  The loop over the buffered bytes: \<open>offset\<close> is how many bytes the frames so far have taken, here
  the bytes that are left. \<open>parse\<close> is the decoding of a payload's text as a value.
\<close>

function scan_frames ::
    "(byte list \<Rightarrow> jval option) \<Rightarrow> nat \<Rightarrow> byte list \<Rightarrow> (transport_error, frame list \<times> byte list) result" where
  "scan_frames parse max_frame bs =
     (if length bs < NATIVE_MESSAGE_HEADER_BYTES then return ([], bs)
      else
        let payload_bytes = read_u32le bs in
        if payload_bytes = 0 then throw Invalid_Transport_Frame
        else if max_frame < payload_bytes then throw Frame_Too_Large
        else if length bs < NATIVE_MESSAGE_HEADER_BYTES + payload_bytes then return ([], bs)
        else
          case Option.bind (parse (take payload_bytes (drop NATIVE_MESSAGE_HEADER_BYTES bs))) frame_schema of
            None \<Rightarrow> throw Invalid_Transport_Frame
          | Some f \<Rightarrow>
              and_then (scan_frames parse max_frame (drop (NATIVE_MESSAGE_HEADER_BYTES + payload_bytes) bs))
                (\<lambda>(fs, rest). return (f # fs, rest)))"
  by pat_completeness auto
termination
  by (relation "measure (\<lambda>(_, _, bs). length bs)") (auto simp: NATIVE_MESSAGE_HEADER_BYTES_def)

declare scan_frames.simps [simp del]

definition fail_decoder :: "decoder \<Rightarrow> decoder" where
  "fail_decoder d = d\<lparr>dc_closed := True, dc_buffer := []\<rparr>"

definition push_chunk ::
    "(byte list \<Rightarrow> jval option) \<Rightarrow> byte list \<Rightarrow> decoder \<Rightarrow> (transport_error, frame list) result \<times> decoder" where
  "push_chunk parse chunk d =
     (if dc_closed d then (throw Transport_Closed, d)
      else if int (dc_max_buffered d) - int (length (dc_buffer d)) < int (length chunk)
      then (throw Buffer_Overflow, fail_decoder d)
      else case scan_frames parse (dc_max_frame d) (dc_buffer d @ chunk) of
          Inl e \<Rightarrow> (throw e, fail_decoder d)
        | Inr (fs, rest) \<Rightarrow> (return fs, d\<lparr>dc_buffer := rest\<rparr>))"

definition finish_decoder :: "decoder \<Rightarrow> (transport_error, unit) result \<times> decoder" where
  "finish_decoder d =
     (if dc_closed d then (throw Transport_Closed, d)
      else if 0 < length (dc_buffer d)
      then (throw Truncated_Frame, d\<lparr>dc_closed := True, dc_buffer := []\<rparr>)
      else (return (), d\<lparr>dc_closed := True\<rparr>))"

text \<open>The writer's encoding of a frame.\<close>

definition encode_frame ::
    "(jval \<Rightarrow> byte list) \<Rightarrow> nat \<Rightarrow> jval \<Rightarrow> (transport_error, byte list) result" where
  "encode_frame stringify max_frame v =
     (case frame_schema v of
        None \<Rightarrow> throw Invalid_Transport_Frame
      | Some f \<Rightarrow>
          let payload = stringify (frame_value f) in
          if max_frame < length payload then throw Frame_Too_Large
          else return (u32le (length payload) @ payload))"

section \<open>The header\<close>

lemma length_u32le [simp]: "length (u32le n) = NATIVE_MESSAGE_HEADER_BYTES"
  by (simp add: u32le_def NATIVE_MESSAGE_HEADER_BYTES_def)

lemma read_u32le_inverse:
  assumes "n < 2 ^ 32"
  shows "read_u32le (u32le n @ bs) = n"
proof -
  have "n mod 256 + 256 * (n div 256 mod 256) + 65536 * (n div 65536 mod 256)
      + 16777216 * (n div 16777216 mod 256) = n"
  proof -
    have "n div 16777216 mod 256 = n div 16777216" using assms by simp
    moreover have "n = n mod 256 + 256 * (n div 256)" by simp
    moreover have "n div 256 = n div 256 mod 256 + 256 * (n div 65536)"
      using mod_mult_div_eq [of "n div 256" 256] by (simp add: div_mult2_eq [symmetric])
    moreover have "n div 65536 = n div 65536 mod 256 + 256 * (n div 16777216)"
      using mod_mult_div_eq [of "n div 65536" 256] by (simp add: div_mult2_eq [symmetric])
    ultimately show ?thesis by linarith
  qed
  moreover have "read_u32le (u32le n @ bs)
      = n mod 256 + 256 * (n div 256 mod 256) + 65536 * (n div 65536 mod 256) + 16777216 * (n div 16777216 mod 256)"
    unfolding read_u32le_def u32le_def
    by (simp only: unat_of_nat nth_Cons' append_Cons append_Nil) (simp add: unat_of_nat)
  ultimately show ?thesis by (simp only:)
qed

lemma read_u32le_append: "4 \<le> length bs \<Longrightarrow> read_u32le (bs @ cs) = read_u32le bs"
  by (cases bs) (auto simp: read_u32le_def nth_append)

section \<open>Chunks do not matter\<close>

lemma scan_append:
  "scan_frames parse max_frame (bs @ later)
    = continue_scan (scan_frames parse max_frame) later (scan_frames parse max_frame bs)"
proof (induction parse max_frame bs rule: scan_frames.induct)
  case (1 parse max_frame bs)
  let ?n = "read_u32le bs"
  have wait: ?case if "scan_frames parse max_frame bs = Inr ([], bs)"
    using that by (cases "scan_frames parse max_frame (bs @ later)")
      (auto simp: continue_scan_def split: prod.splits)
  show ?case
  proof (cases "length bs < NATIVE_MESSAGE_HEADER_BYTES")
    case True
    then show ?thesis by (intro wait) (simp add: scan_frames.simps)
  next
    case header: False
    then have n: "read_u32le (bs @ later) = ?n"
      by (simp add: read_u32le_append NATIVE_MESSAGE_HEADER_BYTES_def)
    have long: "\<not> length (bs @ later) < NATIVE_MESSAGE_HEADER_BYTES" using header by simp
    consider (zero) "?n = 0" | (large) "?n \<noteq> 0" "max_frame < ?n"
      | (short) "?n \<noteq> 0" "\<not> max_frame < ?n" "length bs < NATIVE_MESSAGE_HEADER_BYTES + ?n"
      | (full) "?n \<noteq> 0" "\<not> max_frame < ?n" "\<not> length bs < NATIVE_MESSAGE_HEADER_BYTES + ?n"
      by blast
    then show ?thesis
    proof cases
      case zero
      with header long n show ?thesis by (simp add: scan_frames.simps continue_scan_def)
    next
      case large
      with header long n show ?thesis by (simp add: scan_frames.simps continue_scan_def)
    next
      case short
      with header show ?thesis by (intro wait) (simp add: scan_frames.simps)
    next
      case full
      let ?parsed = "Option.bind (parse (take ?n (drop NATIVE_MESSAGE_HEADER_BYTES bs))) frame_schema"
      have same: "take ?n (drop NATIVE_MESSAGE_HEADER_BYTES (bs @ later)) = take ?n (drop NATIVE_MESSAGE_HEADER_BYTES bs)"
        "drop (NATIVE_MESSAGE_HEADER_BYTES + ?n) (bs @ later) = drop (NATIVE_MESSAGE_HEADER_BYTES + ?n) bs @ later"
        "\<not> length (bs @ later) < NATIVE_MESSAGE_HEADER_BYTES + ?n"
        using full by simp_all
      show ?thesis
      proof (cases ?parsed)
        case None
        then show ?thesis
          unfolding scan_frames.simps [of parse max_frame bs] scan_frames.simps [of parse max_frame "bs @ later"]
          using header long n full same by (simp add: continue_scan_def del: length_append)
      next
        case (Some f)
        let ?rest = "drop (NATIVE_MESSAGE_HEADER_BYTES + ?n) bs"
        have "scan_frames parse max_frame (?rest @ later)
            = continue_scan (scan_frames parse max_frame) later (scan_frames parse max_frame ?rest)"
          using "1.IH" [OF header refl] full Some by simp
        moreover have "scan_frames parse max_frame bs
            = and_then (scan_frames parse max_frame ?rest) (\<lambda>(fs, rest). Inr (f # fs, rest))"
          unfolding scan_frames.simps [of parse max_frame bs] using header full Some by simp
        moreover have "scan_frames parse max_frame (bs @ later)
            = and_then (scan_frames parse max_frame (?rest @ later)) (\<lambda>(fs, rest). Inr (f # fs, rest))"
          unfolding scan_frames.simps [of parse max_frame "bs @ later"]
          using long n full Some same by (simp del: length_append drop_append take_append)
        ultimately show ?thesis
          by (cases "scan_frames parse max_frame ?rest")
            (auto simp: continue_scan_def and_then_def split: sum.splits prod.splits)
      qed
    qed
  qed
qed

lemma scan_rest_bound:
  "scan_frames parse max_frame bs = Inr (fs, rest) \<Longrightarrow> length rest < NATIVE_MESSAGE_HEADER_BYTES + max_frame"
proof (induction parse max_frame bs arbitrary: fs rest rule: scan_frames.induct)
  case (1 parse max_frame bs)
  let ?n = "read_u32le bs"
  let ?tail = "scan_frames parse max_frame (drop (NATIVE_MESSAGE_HEADER_BYTES + ?n) bs)"
  consider (ends) "rest = bs" "length bs < NATIVE_MESSAGE_HEADER_BYTES"
    | (waits) "rest = bs" "length bs < NATIVE_MESSAGE_HEADER_BYTES + ?n" "?n \<le> max_frame"
    | (reads) f gs where "\<not> length bs < NATIVE_MESSAGE_HEADER_BYTES" "?n \<noteq> 0" "\<not> max_frame < ?n"
        "\<not> length bs < NATIVE_MESSAGE_HEADER_BYTES + ?n"
        "Option.bind (parse (take ?n (drop NATIVE_MESSAGE_HEADER_BYTES bs))) frame_schema = Some f"
        "?tail = Inr (gs, rest)"
    using "1.prems" by (subst (asm) scan_frames.simps)
      (auto simp: Let_def and_then_eq_Inr not_less split: if_splits option.splits prod.splits)
  then show ?case
  proof cases
    case reads
    show ?thesis using "1.IH" [OF reads(1) refl reads(2-5)] reads(6) .
  qed simp_all
qed

lemma scan_no_overflow: "scan_frames parse max_frame bs \<noteq> Inl Buffer_Overflow"
proof (induction parse max_frame bs rule: scan_frames.induct)
  case (1 parse max_frame bs)
  then show ?case
    by (subst scan_frames.simps) (auto simp: Let_def and_then_eq_Inl split: option.splits)
qed

section \<open>A stream in chunks\<close>

text \<open>The chunks of a stream pushed in turn, up to the first error.\<close>

fun push_chunks ::
    "(byte list \<Rightarrow> jval option) \<Rightarrow> byte list list \<Rightarrow> decoder \<Rightarrow> (transport_error, frame list) result \<times> decoder" where
  "push_chunks parse [] d = (return [], d)"
| "push_chunks parse (c # cs) d =
     (case push_chunk parse c d of
        (Inl e, d') \<Rightarrow> (throw e, d')
      | (Inr fs, d') \<Rightarrow>
          (case push_chunks parse cs d' of
             (Inl e, d'') \<Rightarrow> (throw e, d'')
           | (Inr gs, d'') \<Rightarrow> (return (fs @ gs), d'')))"

text \<open>What the decoder does with all the bytes it has got.\<close>

definition settle_scan ::
    "decoder \<Rightarrow> (transport_error, frame list \<times> byte list) result \<Rightarrow> (transport_error, frame list) result \<times> decoder" where
  "settle_scan d r =
     (case r of Inl e \<Rightarrow> (throw e, fail_decoder d) | Inr (fs, rest) \<Rightarrow> (return fs, d\<lparr>dc_buffer := rest\<rparr>))"

lemma push_chunk_cases:
  assumes "\<not> dc_closed d"
  shows "push_chunk parse chunk d =
    (if dc_max_buffered d < length (dc_buffer d) + length chunk then (throw Buffer_Overflow, fail_decoder d)
     else settle_scan d (scan_frames parse (dc_max_frame d) (dc_buffer d @ chunk)))"
  using assms by (auto simp: push_chunk_def settle_scan_def)

lemma settle_scan_simps [simp]:
  "settle_scan d (Inl e) = (Inl e, fail_decoder d)"
  "settle_scan d (Inr (fs, rest)) = (Inr fs, d\<lparr>dc_buffer := rest\<rparr>)"
  by (simp_all add: settle_scan_def)

lemma fail_decoder_buffer [simp]: "fail_decoder (d\<lparr>dc_buffer := b\<rparr>) = fail_decoder d"
  by (simp add: fail_decoder_def)

text \<open>A buffer that the last push has left: nothing in it can be read yet.\<close>

definition settled_decoder :: "(byte list \<Rightarrow> jval option) \<Rightarrow> decoder \<Rightarrow> bool" where
  "settled_decoder parse d \<longleftrightarrow>
     \<not> dc_closed d \<and> scan_frames parse (dc_max_frame d) (dc_buffer d) = return ([], dc_buffer d)"

lemma scan_settled: "scan_frames parse m bs = Inr (fs, rest) \<Longrightarrow> scan_frames parse m rest = Inr ([], rest)"
proof (induction parse m bs arbitrary: fs rest rule: scan_frames.induct)
  case (1 parse max_frame bs)
  let ?n = "read_u32le bs"
  let ?tail = "scan_frames parse max_frame (drop (NATIVE_MESSAGE_HEADER_BYTES + ?n) bs)"
  consider (stays) "rest = bs" "fs = []"
    | (reads) f gs where "\<not> length bs < NATIVE_MESSAGE_HEADER_BYTES" "?n \<noteq> 0" "\<not> max_frame < ?n"
        "\<not> length bs < NATIVE_MESSAGE_HEADER_BYTES + ?n"
        "Option.bind (parse (take ?n (drop NATIVE_MESSAGE_HEADER_BYTES bs))) frame_schema = Some f"
        "?tail = Inr (gs, rest)"
    using "1.prems" by (subst (asm) scan_frames.simps)
      (auto simp: Let_def and_then_eq_Inr not_less split: if_splits option.splits prod.splits)
  then show ?case
  proof cases
    case stays
    with "1.prems" show ?thesis by simp
  next
    case reads
    show ?thesis using "1.IH" [OF reads(1) refl reads(2-5)] reads(6) .
  qed
qed

interpretation frames: chunk_scanner "scan_frames parse max_frame" for parse max_frame
  by unfold_locales (rule scan_append, rule scan_settled)

text \<open>As long as the buffer does not overflow, pushing is feeding the scanner.\<close>

lemma push_chunks_feed:
  assumes "settled_decoder parse d" and "fst (push_chunks parse cs d) \<noteq> Inl Buffer_Overflow"
  shows "push_chunks parse cs d = settle_scan d (feed (scan_frames parse (dc_max_frame d)) cs (dc_buffer d))"
  using assms
proof (induction cs arbitrary: d)
  case Nil
  then show ?case by simp
next
  case (Cons c cs)
  let ?scan = "scan_frames parse (dc_max_frame d) (dc_buffer d @ c)"
  from Cons.prems(1) have opened: "\<not> dc_closed d" by (simp add: settled_decoder_def)
  from Cons.prems(2) push_chunk_cases [OF opened] have
    fits: "push_chunk parse c d = settle_scan d ?scan" by (auto split: if_splits)
  show ?case
  proof (cases ?scan)
    case (Inr r)
    then obtain fs rest where r: "?scan = Inr (fs, rest)" by (cases r) simp
    let ?d = "d\<lparr>dc_buffer := rest\<rparr>"
    have "settled_decoder parse ?d" using opened scan_settled [OF r] by (simp add: settled_decoder_def)
    moreover have "fst (push_chunks parse cs ?d) \<noteq> Inl Buffer_Overflow"
      using Cons.prems(2) fits r by (auto split: prod.splits sum.splits)
    ultimately have "push_chunks parse cs ?d
        = settle_scan ?d (feed (scan_frames parse (dc_max_frame d)) cs rest)"
      using Cons.IH [of ?d] by simp
    with fits r show ?thesis
      by (auto simp: and_then_def settle_scan_def split: sum.splits prod.splits)
  qed (use fits in simp)
qed

lemma push_chunks_scan:
  assumes "settled_decoder parse d" and "fst (push_chunks parse cs d) \<noteq> Inl Buffer_Overflow"
  shows "push_chunks parse cs d = settle_scan d (scan_frames parse (dc_max_frame d) (dc_buffer d @ concat cs))"
  using push_chunks_feed [OF assms] assms(1) by (simp add: frames.feed_concat settled_decoder_def)

end
