(* ===== verification/Write_Queue.thy ===== *)
theory Write_Queue
  imports Prelude
begin

text \<open>
  The queue both stream writers of the program keep in front of a Node stream: pending writes, the
  async pump that gives one frame at a time to the stream, and the failure that settles everything.
  Promises are numbered in the order of the \<open>write\<close> calls, and \<open>wr_outcomes\<close> lists how each of
  them was settled; a pending write's \<open>settled\<close> flag is that its number is in that list.
  \<open>wr_output\<close> lists the chunks given to \<open>stream.write\<close>, and what the stream answers (whether it
  accepted more, the callback, the \<open>drain\<close>, \<open>error\<close> and \<open>close\<close> events) comes as the events of the
  step function. \<open>#pump\<close> is an async loop: the points where it is suspended are the constructors of
  \<open>pump_phase\<close>, and \<open>W_Continue\<close> is the job that resumes it.
\<close>

record pending_write =
  pw_id :: nat
  pw_bytes :: nat
  pw_frame :: "byte list"

text \<open>
  \<open>Pump_Writing p callback drain\<close> awaits \<open>#writeFrame\<close> (so \<open>#activeReject\<close> is set);
  \<open>Pump_Written\<close> and \<open>Pump_Failed\<close> are after its promise settled and before the loop resumes.
\<close>

datatype pump_phase =
    Pump_Idle
  | Pump_Writing pending_write bool bool
  | Pump_Written pending_write
  | Pump_Failed

record ('e, 'm) writer =
  wr_max_frame :: nat
  wr_max_queued_bytes :: nat
  wr_max_queued_messages :: nat
  wr_failed :: "'e option"
  wr_phase :: pump_phase
  wr_queue :: "pending_write list"
  wr_queued_bytes :: int
  wr_next_id :: nat
  wr_outcomes :: "(nat \<times> ('e, unit) result) list"
  wr_output :: "byte list list"
  wr_accepted :: "(nat \<times> 'm \<times> byte list) list"

text \<open>The last field is history: the frames \<open>write\<close> took into the queue, each with
  the number of its promise and its bytes.\<close>

definition pending_settled :: "pending_write \<Rightarrow> ('e, 'm) writer \<Rightarrow> bool" where
  "pending_settled p w \<longleftrightarrow> pw_id p \<in> fst ` set (wr_outcomes w)"

text \<open>\<open>#settleSuccess\<close> and \<open>#settleFailure\<close>.\<close>

definition settle_pending :: "('e, unit) result \<Rightarrow> pending_write \<Rightarrow> ('e, 'm) writer \<Rightarrow> ('e, 'm) writer" where
  "settle_pending outcome p w =
     (if pending_settled p w then w
      else w\<lparr>wr_queued_bytes := wr_queued_bytes w - int (pw_bytes p),
             wr_outcomes := wr_outcomes w @ [(pw_id p, outcome)]\<rparr>)"

text \<open>\<open>#activeReject?.(error)\<close>: the promise of the write under way is rejected.\<close>

definition reject_active :: "pump_phase \<Rightarrow> pump_phase" where
  "reject_active phase = (case phase of Pump_Writing _ _ _ \<Rightarrow> Pump_Failed | other \<Rightarrow> other)"

text \<open>\<open>#poison\<close>: the first failure is kept and returned from then on.\<close>

definition poison_writer :: "'e \<Rightarrow> ('e, 'm) writer \<Rightarrow> 'e \<times> ('e, 'm) writer" where
  "poison_writer code w =
     (case wr_failed w of
        Some e \<Rightarrow> (e, w)
      | None \<Rightarrow>
          (code,
           (foldl (\<lambda>w p. settle_pending (throw code) p w)
              (w\<lparr>wr_failed := Some code, wr_phase := reject_active (wr_phase w)\<rparr>) (wr_queue w))
           \<lparr>wr_queue := []\<rparr>))"

text \<open>\<open>#writeFrame\<close> up to its await; \<open>accepted\<close> is what \<open>stream.write\<close> returned.\<close>

definition start_write_frame :: "bool \<Rightarrow> pending_write \<Rightarrow> ('e, 'm) writer \<Rightarrow> ('e, 'm) writer" where
  "start_write_frame accepted p w =
     w\<lparr>wr_output := wr_output w @ [pw_frame p], wr_phase := Pump_Writing p False accepted\<rparr>"

text \<open>The head of the loop of \<open>#pump\<close>, and the \<open>finally\<close> when it ends.\<close>

definition pump_loop :: "bool \<Rightarrow> ('e, 'm) writer \<Rightarrow> ('e, 'm) writer" where
  "pump_loop accepted w =
     (case wr_queue w of
        [] \<Rightarrow> w\<lparr>wr_phase := Pump_Idle\<rparr>
      | p # _ \<Rightarrow> start_write_frame accepted p w)"

definition pump_writer :: "bool \<Rightarrow> ('e, 'm) writer \<Rightarrow> ('e, 'm) writer" where
  "pump_writer accepted w =
     (if wr_phase w \<noteq> Pump_Idle \<or> wr_failed w \<noteq> None then w else pump_loop accepted w)"

text \<open>A promise that is rejected when \<open>write\<close> returns it.\<close>

definition reject_write :: "'e \<Rightarrow> ('e, 'm) writer \<Rightarrow> ('e, 'm) writer" where
  "reject_write e w = w\<lparr>wr_next_id := Suc (wr_next_id w), wr_outcomes := wr_outcomes w @ [(wr_next_id w, throw e)]\<rparr>"

definition poison_and_reject :: "'e \<Rightarrow> ('e, 'm) writer \<Rightarrow> ('e, 'm) writer" where
  "poison_and_reject code w = (case poison_writer code w of (e, w') \<Rightarrow> reject_write e w')"

text \<open>The queue's bound, and the pushed entry.\<close>

definition enqueue_frame :: "'m \<Rightarrow> byte list \<Rightarrow> ('e, 'm) writer \<Rightarrow> ('e, 'm) writer" where
  "enqueue_frame f encoded w =
     w\<lparr>wr_queue := wr_queue w @ [\<lparr>pw_id = wr_next_id w, pw_bytes = length encoded, pw_frame = encoded\<rparr>],
       wr_queued_bytes := wr_queued_bytes w + int (length encoded),
       wr_next_id := Suc (wr_next_id w),
       wr_accepted := wr_accepted w @ [(wr_next_id w, f, encoded)]\<rparr>"

text \<open>\<open>complete\<close> in \<open>#writeFrame\<close>, run after each of the two flags is set.\<close>

definition complete_write :: "pump_phase \<Rightarrow> pump_phase" where
  "complete_write phase =
     (case phase of Pump_Writing p True True \<Rightarrow> Pump_Written p | other \<Rightarrow> other)"

datatype 'v writer_event =
    W_Write bool bool 'v
  | W_Callback bool
  | W_Drain
  | W_Continue bool
  | W_Error_Event
  | W_Close

text \<open>
  The calls and events of a writer whose class has the given \<open>write\<close> and error codes.
\<close>

fun queue_step ::
    "'e \<Rightarrow> 'e \<Rightarrow> (bool \<Rightarrow> bool \<Rightarrow> 'v \<Rightarrow> ('e, 'm) writer \<Rightarrow> ('e, 'm) writer) \<Rightarrow> 'v writer_event
     \<Rightarrow> ('e, 'm) writer \<Rightarrow> ('e, 'm) writer" where
  "queue_step write_failed closed write_call (W_Write destroyed accepted v) w = write_call destroyed accepted v w"
| "queue_step write_failed closed write_call (W_Callback failed) w =
     (case wr_phase w of
        Pump_Writing p _ drain \<Rightarrow>
          w\<lparr>wr_phase := if failed then Pump_Failed else complete_write (Pump_Writing p True drain)\<rparr>
      | _ \<Rightarrow> w)"
| "queue_step write_failed closed write_call W_Drain w =
     (case wr_phase w of
        Pump_Writing p callback _ \<Rightarrow> w\<lparr>wr_phase := complete_write (Pump_Writing p callback True)\<rparr>
      | _ \<Rightarrow> w)"
| "queue_step write_failed closed write_call (W_Continue accepted) w =
     (case wr_phase w of
        Pump_Written p \<Rightarrow>
          (let w' = settle_pending (return ()) p w
           in pump_loop accepted (w'\<lparr>wr_queue := tl (wr_queue w')\<rparr>))
      | Pump_Failed \<Rightarrow> (snd (poison_writer write_failed w))\<lparr>wr_phase := Pump_Idle\<rparr>
      | _ \<Rightarrow> w)"
| "queue_step write_failed closed write_call W_Error_Event w = snd (poison_writer write_failed w)"
| "queue_step write_failed closed write_call W_Close w = snd (poison_writer closed w)"

definition queue_run ::
    "'e \<Rightarrow> 'e \<Rightarrow> (bool \<Rightarrow> bool \<Rightarrow> 'v \<Rightarrow> ('e, 'm) writer \<Rightarrow> ('e, 'm) writer) \<Rightarrow> 'v writer_event list
     \<Rightarrow> ('e, 'm) writer \<Rightarrow> ('e, 'm) writer" where
  "queue_run write_failed closed write_call es w =
     foldl (\<lambda>w e. queue_step write_failed closed write_call e w) w es"

section \<open>Accounting\<close>

text \<open>The entries of the queue whose frame has not been given to the stream.\<close>

definition unstarted :: "('e, 'm) writer \<Rightarrow> pending_write list" where
  "unstarted w = (case wr_phase w of Pump_Idle \<Rightarrow> wr_queue w | _ \<Rightarrow> tl (wr_queue w))"

text \<open>The accepted writes whose frame has been given to the stream.\<close>

definition started_ids :: "('e, 'm) writer \<Rightarrow> nat set" where
  "started_ids w = fst ` set (take (length (wr_output w)) (wr_accepted w))"

fun phase_ok :: "('e, 'm) writer \<Rightarrow> pump_phase \<Rightarrow> bool" where
  "phase_ok w Pump_Idle \<longleftrightarrow> wr_queue w = []"
| "phase_ok w (Pump_Writing p callback drain) \<longleftrightarrow>
     wr_failed w = None \<and> wr_queue w \<noteq> [] \<and> hd (wr_queue w) = p \<and> pw_id p \<in> started_ids w"
| "phase_ok w (Pump_Written p) \<longleftrightarrow>
     (if wr_failed w = None then wr_queue w \<noteq> [] \<and> hd (wr_queue w) = p \<and> pw_id p \<in> started_ids w
      else pw_id p \<in> fst ` set (wr_outcomes w))"
| "phase_ok w Pump_Failed \<longleftrightarrow> (wr_failed w = None \<longrightarrow> wr_queue w \<noteq> [])"

definition queue_inv :: "('e, 'm) writer \<Rightarrow> bool" where
  "queue_inv w \<longleftrightarrow>
     phase_ok w (wr_phase w)
     \<and> (wr_failed w \<noteq> None \<longrightarrow> wr_queue w = [])
     \<and> wr_queued_bytes w = int (sum_list (map pw_bytes (wr_queue w)))
     \<and> wr_queued_bytes w \<le> int (wr_max_queued_bytes w)
     \<and> length (wr_queue w) \<le> wr_max_queued_messages w"

definition promise_ids :: "('e, 'm) writer \<Rightarrow> nat list" where
  "promise_ids w = map fst (wr_outcomes w) @ map pw_id (wr_queue w)"

definition promise_inv :: "('e, 'm) writer \<Rightarrow> bool" where
  "promise_inv w \<longleftrightarrow> distinct (promise_ids w) \<and> set (promise_ids w) = {..<wr_next_id w}"

definition output_inv :: "('m \<Rightarrow> byte list \<Rightarrow> bool) \<Rightarrow> ('e, 'm) writer \<Rightarrow> bool" where
  "output_inv encodes w \<longleftrightarrow>
     prefix (wr_output w) (map (\<lambda>(_, _, bs). bs) (wr_accepted w))
     \<and> (wr_failed w = None \<longrightarrow>
          drop (length (wr_output w)) (map (\<lambda>(i, _, bs). (i, bs)) (wr_accepted w))
          = map (\<lambda>p. (pw_id p, pw_frame p)) (unstarted w))
     \<and> (\<forall>(i, f, bs) \<in> set (wr_accepted w). encodes f bs)
     \<and> (\<forall>(i, r) \<in> set (wr_outcomes w). r = return () \<longrightarrow> i \<in> started_ids w)"

definition writer_inv :: "('m \<Rightarrow> byte list \<Rightarrow> bool) \<Rightarrow> ('e, 'm) writer \<Rightarrow> bool" where
  "writer_inv encodes w \<longleftrightarrow> queue_inv w \<and> promise_inv w \<and> output_inv encodes w"

lemma settle_all:
  assumes "distinct (map fst (wr_outcomes w) @ map pw_id ps)"
  shows "foldl (\<lambda>w p. settle_pending r p w) w ps
    = w\<lparr>wr_queued_bytes := wr_queued_bytes w - int (sum_list (map pw_bytes ps)),
        wr_outcomes := wr_outcomes w @ map (\<lambda>p. (pw_id p, r)) ps\<rparr>"
  using assms
proof (induction ps arbitrary: w)
  case (Cons p ps)
  then have "pw_id p \<notin> fst ` set (wr_outcomes w)" by auto
  then have "settle_pending r p w
      = w\<lparr>wr_queued_bytes := wr_queued_bytes w - int (pw_bytes p), wr_outcomes := wr_outcomes w @ [(pw_id p, r)]\<rparr>"
    by (simp add: settle_pending_def pending_settled_def)
  with Cons show ?case by auto
qed simp

lemma poison_healthy:
  assumes "queue_inv w" "promise_inv w" "wr_failed w = None"
  shows "poison_writer code w =
    (code, w\<lparr>wr_failed := Some code, wr_phase := reject_active (wr_phase w), wr_queued_bytes := 0,
             wr_outcomes := wr_outcomes w @ map (\<lambda>p. (pw_id p, throw code)) (wr_queue w), wr_queue := []\<rparr>)"
  using assms settle_all [of "w\<lparr>wr_failed := Some code, wr_phase := reject_active (wr_phase w)\<rparr>" "wr_queue w" "throw code"]
  by (simp add: poison_writer_def promise_inv_def promise_ids_def queue_inv_def)

lemma poison_failed: "wr_failed w = Some e \<Longrightarrow> poison_writer code w = (e, w)"
  by (simp add: poison_writer_def)

lemma started_ids_simps [simp]:
  "started_ids (w\<lparr>wr_failed := a\<rparr>) = started_ids w"
  "started_ids (w\<lparr>wr_phase := b\<rparr>) = started_ids w"
  "started_ids (w\<lparr>wr_queue := c\<rparr>) = started_ids w"
  "started_ids (w\<lparr>wr_queued_bytes := d\<rparr>) = started_ids w"
  "started_ids (w\<lparr>wr_outcomes := e\<rparr>) = started_ids w"
  "started_ids (w\<lparr>wr_next_id := n\<rparr>) = started_ids w"
  by (simp_all add: started_ids_def)

lemma promise_inv_cong:
  "promise_ids w' = promise_ids w \<Longrightarrow> wr_next_id w' = wr_next_id w \<Longrightarrow> promise_inv w \<Longrightarrow> promise_inv w'"
  by (simp add: promise_inv_def)

lemma poison_inv:
  assumes "writer_inv encodes w"
  shows "writer_inv encodes (snd (poison_writer code w))"
proof (cases "wr_failed w")
  case None
  let ?w = "snd (poison_writer code w)"
  have w: "?w = w\<lparr>wr_failed := Some code, wr_phase := reject_active (wr_phase w), wr_queued_bytes := 0,
             wr_outcomes := wr_outcomes w @ map (\<lambda>p. (pw_id p, throw code)) (wr_queue w), wr_queue := []\<rparr>"
    using assms None poison_healthy [of w code] by (simp add: writer_inv_def)
  have "phase_ok w (wr_phase w)" using assms by (simp add: writer_inv_def queue_inv_def)
  then have "queue_inv ?w"
    unfolding w using None by (cases "wr_phase w") (auto simp: queue_inv_def reject_active_def image_image neq_Nil_conv)
  moreover have "promise_inv w" using assms by (simp add: writer_inv_def)
  then have "promise_inv ?w"
    by (rule promise_inv_cong [rotated 2]) (simp_all add: w promise_ids_def comp_def)
  moreover have "output_inv encodes ?w"
    using assms unfolding w by (auto simp: writer_inv_def output_inv_def)
  ultimately show ?thesis by (simp add: writer_inv_def)
qed (use assms in \<open>simp add: poison_failed\<close>)

lemma poison_result: "wr_failed (snd (poison_writer code w)) = Some (fst (poison_writer code w))" if "writer_inv s w"
  using that poison_healthy [of w code] by (cases "wr_failed w") (auto simp: poison_failed writer_inv_def)

lemma reject_write_inv:
  assumes "writer_inv encodes w"
  shows "writer_inv encodes (reject_write e w)"
proof -
  have "queue_inv (reject_write e w)"
    using assms by (cases "wr_phase w") (auto simp: writer_inv_def queue_inv_def reject_write_def)
  moreover have "promise_inv (reject_write e w)"
    using assms
    by (auto simp: writer_inv_def promise_inv_def promise_ids_def reject_write_def lessThan_Suc)
  moreover have "output_inv encodes (reject_write e w)"
    using assms by (cases "wr_phase w") (auto simp: writer_inv_def output_inv_def reject_write_def unstarted_def)
  ultimately show ?thesis by (simp add: writer_inv_def)
qed

lemma poison_and_reject_inv:
  "writer_inv encodes w \<Longrightarrow> writer_inv encodes (poison_and_reject code w)"
  using poison_inv [of encodes w code] reject_write_inv
  by (auto simp: poison_and_reject_def split: prod.split)

text \<open>The state at the head of the pump's loop: no frame of the queue is with the stream.\<close>

definition loop_inv :: "('m \<Rightarrow> byte list \<Rightarrow> bool) \<Rightarrow> ('e, 'm) writer \<Rightarrow> bool" where
  "loop_inv encodes w \<longleftrightarrow>
     (wr_failed w \<noteq> None \<longrightarrow> wr_queue w = [])
     \<and> wr_queued_bytes w = int (sum_list (map pw_bytes (wr_queue w)))
     \<and> wr_queued_bytes w \<le> int (wr_max_queued_bytes w)
     \<and> length (wr_queue w) \<le> wr_max_queued_messages w
     \<and> promise_inv w
     \<and> output_inv encodes (w\<lparr>wr_phase := Pump_Idle\<rparr>)"

lemma drop_map_Cons:
  assumes out: "prefix out (map (\<lambda>(_, _, bs). bs) xs)"
    and next_one: "drop (length out) (map (\<lambda>(i, _, bs). (i, bs)) xs) = (k, b) # rest"
  shows "prefix (out @ [b]) (map (\<lambda>(_, _, bs). bs) xs)"
    and "drop (Suc (length out)) (map (\<lambda>(i, _, bs). (i, bs)) xs) = rest"
    and "k \<in> fst ` set (take (Suc (length out)) xs)"
proof -
  let ?n = "length out"
  have n: "?n < length xs" using next_one by (cases "?n < length xs") simp_all
  have at: "(case xs ! ?n of (i, _, bs) \<Rightarrow> (i, bs)) = (k, b)"
    and rest: "drop (Suc ?n) (map (\<lambda>(i, _, bs). (i, bs)) xs) = rest"
    using next_one n Cons_nth_drop_Suc [of ?n "map (\<lambda>(i, _, bs). (i, bs)) xs"] by simp_all
  obtain f where xn: "xs ! ?n = (k, f, b)" using at by (cases "xs ! ?n") simp
  show "drop (Suc ?n) (map (\<lambda>(i, _, bs). (i, bs)) xs) = rest" by (rule rest)
  have "take ?n (map (\<lambda>(_, _, bs). bs) xs) = out" using out by (auto simp: prefix_def)
  then have "take (Suc ?n) (map (\<lambda>(_, _, bs). bs) xs) = out @ [b]"
    using n xn by (simp add: take_Suc_conv_app_nth)
  then show "prefix (out @ [b]) (map (\<lambda>(_, _, bs). bs) xs)" using take_is_prefix by metis
  show "k \<in> fst ` set (take (Suc ?n) xs)" using n xn by (simp add: take_Suc_conv_app_nth)
qed

lemma started_ids_grow: "n \<le> m \<Longrightarrow> fst ` set (take n xs) \<subseteq> fst ` set (take m xs)"
  by (rule image_mono) (simp add: set_take_subset_set_take)

lemma pump_loop_inv:
  assumes "loop_inv encodes w"
  shows "writer_inv encodes (pump_loop accepted w)"
proof (cases "wr_queue w")
  case Nil
  with assms show ?thesis
    by (auto simp: loop_inv_def writer_inv_def queue_inv_def pump_loop_def output_inv_def
        promise_inv_def promise_ids_def unstarted_def)
next
  case (Cons p ps)
  let ?w = "start_write_frame accepted p w"
  have healthy: "wr_failed w = None" using assms Cons by (auto simp: loop_inv_def)
  have rest: "drop (length (wr_output w)) (map (\<lambda>(i, _, bs). (i, bs)) (wr_accepted w))
      = (pw_id p, pw_frame p) # map (\<lambda>p. (pw_id p, pw_frame p)) ps"
    using assms Cons healthy by (simp add: loop_inv_def output_inv_def unstarted_def)
  have out: "prefix (wr_output w) (map (\<lambda>(_, _, bs). bs) (wr_accepted w))"
    using assms by (simp add: loop_inv_def output_inv_def)
  note moved = drop_map_Cons [OF out rest]
  have "queue_inv ?w"
    using assms Cons healthy moved(3) by (simp add: loop_inv_def queue_inv_def start_write_frame_def started_ids_def)
  moreover have "promise_inv ?w"
    using assms by (simp add: loop_inv_def promise_inv_def promise_ids_def start_write_frame_def)
  moreover have "output_inv encodes ?w"
    using assms moved(1,2) Cons healthy
      started_ids_grow [of "length (wr_output w)" "Suc (length (wr_output w))" "wr_accepted w"]
    by (auto simp: loop_inv_def output_inv_def start_write_frame_def unstarted_def started_ids_def)
  ultimately show ?thesis using Cons by (simp add: writer_inv_def pump_loop_def)
qed

lemma enqueue_inv:
  assumes inv: "writer_inv encodes w" and healthy: "wr_failed w = None"
    and again: "encodes f bs"
    and room: "length (wr_queue w) < wr_max_queued_messages w"
      "wr_queued_bytes w + int (length bs) \<le> int (wr_max_queued_bytes w)"
  shows "writer_inv encodes (pump_writer accepted (enqueue_frame f bs w))"
proof -
  let ?w = "enqueue_frame f bs w"
  have short: "length (wr_output w) \<le> length (wr_accepted w)"
    using inv by (auto simp: writer_inv_def output_inv_def dest: prefix_length_le)
  have fresh: "wr_next_id w \<notin> set (promise_ids w)" using inv by (simp add: writer_inv_def promise_inv_def)
  have promise: "promise_inv ?w"
    using inv fresh by (auto simp: writer_inv_def promise_inv_def promise_ids_def enqueue_frame_def lessThan_Suc)
  have same: "started_ids ?w = started_ids w" using short by (simp add: started_ids_def enqueue_frame_def)
  show ?thesis
  proof (cases "wr_phase w")
    case Pump_Idle
    have "output_inv encodes ?w"
      using inv healthy again short same Pump_Idle
      by (auto simp: writer_inv_def output_inv_def enqueue_frame_def unstarted_def)
    moreover have "?w\<lparr>wr_phase := Pump_Idle\<rparr> = ?w" using Pump_Idle by (simp add: enqueue_frame_def)
    ultimately have "output_inv encodes (?w\<lparr>wr_phase := Pump_Idle\<rparr>)" by simp
    then have "loop_inv encodes ?w"
      unfolding loop_inv_def using inv healthy room Pump_Idle promise
      by (auto simp: writer_inv_def queue_inv_def enqueue_frame_def)
    from pump_loop_inv [OF this] show ?thesis
      using Pump_Idle healthy by (simp add: pump_writer_def enqueue_frame_def)
  next
    case (Pump_Writing p c d)
    have "output_inv encodes ?w"
      using inv healthy again short same Pump_Writing
      by (auto simp: writer_inv_def output_inv_def queue_inv_def enqueue_frame_def unstarted_def)
    moreover have "queue_inv ?w"
      using inv healthy room same Pump_Writing by (simp add: writer_inv_def queue_inv_def enqueue_frame_def)
    ultimately show ?thesis using promise Pump_Writing by (simp add: writer_inv_def pump_writer_def enqueue_frame_def)
  next
    case (Pump_Written p)
    have "output_inv encodes ?w"
      using inv healthy again short same Pump_Written
      by (auto simp: writer_inv_def output_inv_def queue_inv_def enqueue_frame_def unstarted_def)
    moreover have "queue_inv ?w"
      using inv healthy room same Pump_Written by (simp add: writer_inv_def queue_inv_def enqueue_frame_def)
    ultimately show ?thesis using promise Pump_Written by (simp add: writer_inv_def pump_writer_def enqueue_frame_def)
  next
    case Pump_Failed
    have "output_inv encodes ?w"
      using inv healthy again short same Pump_Failed
      by (auto simp: writer_inv_def output_inv_def queue_inv_def enqueue_frame_def unstarted_def)
    moreover have "queue_inv ?w"
      using inv healthy room same Pump_Failed by (simp add: writer_inv_def queue_inv_def enqueue_frame_def)
    ultimately show ?thesis using promise Pump_Failed by (simp add: writer_inv_def pump_writer_def enqueue_frame_def)
  qed
qed

lemma complete_write_inv:
  assumes inv: "writer_inv encodes w" and phase: "wr_phase w = Pump_Writing p c d"
  shows "writer_inv encodes (w\<lparr>wr_phase := complete_write (Pump_Writing p c' d')\<rparr>)"
    and "writer_inv encodes (w\<lparr>wr_phase := Pump_Failed\<rparr>)"
proof -
  have unstarted: "unstarted w = tl (wr_queue w)" using phase by (simp add: unstarted_def)
  show "writer_inv encodes (w\<lparr>wr_phase := complete_write (Pump_Writing p c' d')\<rparr>)"
    using inv phase unstarted
    by (cases c'; cases d')
      (auto simp: writer_inv_def queue_inv_def promise_inv_def promise_ids_def output_inv_def complete_write_def
        unstarted_def)
  show "writer_inv encodes (w\<lparr>wr_phase := Pump_Failed\<rparr>)"
    using inv phase unstarted
    by (auto simp: writer_inv_def queue_inv_def promise_inv_def promise_ids_def output_inv_def unstarted_def)
qed

lemma settled_head_loop:
  assumes inv: "writer_inv encodes w" and phase: "wr_phase w = Pump_Written p"
  shows "loop_inv encodes ((settle_pending (return ()) p w)\<lparr>wr_queue := tl (wr_queue (settle_pending (return ()) p w))\<rparr>)"
proof (cases "wr_failed w")
  case None
  then obtain ps where q: "wr_queue w = p # ps" and started: "pw_id p \<in> started_ids w"
    using inv phase by (cases "wr_queue w") (auto simp: writer_inv_def queue_inv_def)
  have "pw_id p \<notin> fst ` set (wr_outcomes w)"
    using inv q by (auto simp: writer_inv_def promise_inv_def promise_ids_def)
  then have settled: "settle_pending (return ()) p w
      = w\<lparr>wr_queued_bytes := wr_queued_bytes w - int (pw_bytes p), wr_outcomes := wr_outcomes w @ [(pw_id p, return ())]\<rparr>"
    by (simp add: settle_pending_def pending_settled_def)
  let ?w = "w\<lparr>wr_queued_bytes := wr_queued_bytes w - int (pw_bytes p),
      wr_outcomes := wr_outcomes w @ [(pw_id p, return ())], wr_queue := ps\<rparr>"
  have "promise_inv w" using inv by (simp add: writer_inv_def)
  then have "promise_inv ?w" by (rule promise_inv_cong [rotated 2]) (simp_all add: promise_ids_def q)
  moreover have "output_inv encodes (?w\<lparr>wr_phase := Pump_Idle\<rparr>)"
    using inv phase q started by (auto simp: writer_inv_def output_inv_def unstarted_def)
  ultimately show ?thesis
    using inv q None unfolding settled by (simp add: writer_inv_def queue_inv_def loop_inv_def)
next
  case (Some e)
  then have "pending_settled p w" "wr_queue w = []"
    using inv phase by (auto simp: writer_inv_def queue_inv_def pending_settled_def)
  then show ?thesis
    using inv Some
    by (simp add: settle_pending_def writer_inv_def queue_inv_def loop_inv_def output_inv_def
        promise_inv_def promise_ids_def)
qed

lemma failed_pump_inv:
  assumes inv: "writer_inv encodes w"
  shows "writer_inv encodes ((snd (poison_writer code w))\<lparr>wr_phase := Pump_Idle\<rparr>)"
proof -
  note poisoned = poison_inv [OF inv, of code] poison_result [OF inv, of code]
  then have "wr_queue (snd (poison_writer code w)) = []" by (auto simp: writer_inv_def queue_inv_def)
  with poisoned show ?thesis
    by (auto simp: writer_inv_def queue_inv_def output_inv_def promise_inv_def promise_ids_def)
qed

section \<open>The limits do not change\<close>

definition same_limits :: "('e, 'm) writer \<Rightarrow> ('e, 'm) writer \<Rightarrow> bool" where
  "same_limits w' w \<longleftrightarrow>
     wr_max_queued_bytes w' = wr_max_queued_bytes w \<and> wr_max_queued_messages w' = wr_max_queued_messages w
     \<and> wr_max_frame w' = wr_max_frame w"

lemma same_limits_trans: "same_limits w'' w' \<Longrightarrow> same_limits w' w \<Longrightarrow> same_limits w'' w"
  by (simp add: same_limits_def)

lemma settle_limits: "same_limits (settle_pending r p w) w"
  by (simp add: settle_pending_def same_limits_def)

lemma settle_list_limits: "same_limits (foldl (\<lambda>w p. settle_pending r p w) w ps) w"
  by (induction ps arbitrary: w) (simp add: same_limits_def, simp, rule same_limits_trans, assumption, rule settle_limits)

lemma poison_limits: "same_limits (snd (poison_writer code w)) w"
  using settle_list_limits [of "Inl code" "w\<lparr>wr_failed := Some code, wr_phase := reject_active (wr_phase w)\<rparr>" "wr_queue w"]
  by (auto simp: poison_writer_def same_limits_def split: option.split)

lemma pump_loop_limits: "same_limits (pump_loop accepted w) w"
  by (simp add: pump_loop_def start_write_frame_def same_limits_def split: list.split)

lemma poison_and_reject_limits: "same_limits (poison_and_reject code w) w"
  using poison_limits [of code w] by (cases "poison_writer code w") (simp add: poison_and_reject_def reject_write_def same_limits_def)

lemma pump_enqueued_limits: "same_limits (pump_writer accepted (enqueue_frame f bs w)) w"
  using pump_loop_limits [of accepted "enqueue_frame f bs w"]
  by (simp add: pump_writer_def enqueue_frame_def same_limits_def)

section \<open>The contract of a writer\<close>

text \<open>
  A class that puts its own \<open>write\<close> in front of the queue has to keep the accounting and the limits
  there; every call and event then does.
\<close>

locale queued_writer =
  fixes encodes :: "'m \<Rightarrow> byte list \<Rightarrow> bool"
    and limits :: "('e, 'm) writer \<Rightarrow> bool"
    and write_call :: "bool \<Rightarrow> bool \<Rightarrow> 'v \<Rightarrow> ('e, 'm) writer \<Rightarrow> ('e, 'm) writer"
    and write_failed closed :: 'e
  assumes write_inv: "limits w \<Longrightarrow> writer_inv encodes w \<Longrightarrow> writer_inv encodes (write_call destroyed accepted v w)"
    and write_limits: "same_limits (write_call destroyed accepted v w) w"
    and limits_kept: "same_limits w' w \<Longrightarrow> limits w \<Longrightarrow> limits w'"
begin

lemma step_inv:
  assumes lim: "limits w" and inv: "writer_inv encodes w"
  shows "writer_inv encodes (queue_step write_failed closed write_call e w)"
proof (cases e)
  case (W_Write destroyed accepted v)
  with write_inv [OF lim inv] show ?thesis by simp
next
  case (W_Callback failed)
  with inv complete_write_inv [OF inv] show ?thesis by (cases "wr_phase w") auto
next
  case W_Drain
  with inv complete_write_inv [OF inv] show ?thesis by (cases "wr_phase w") auto
next
  case (W_Continue accepted)
  from W_Continue inv failed_pump_inv [OF inv] pump_loop_inv [OF settled_head_loop [OF inv]] show ?thesis
    by (cases "wr_phase w") (simp_all add: Let_def)
qed (use poison_inv [OF inv] in simp_all)

lemma step_limits: "same_limits (queue_step write_failed closed write_call e w) w"
proof (cases e)
  case (W_Continue accepted)
  show ?thesis
  proof (cases "wr_phase w")
    case (Pump_Written p)
    let ?w = "settle_pending (return ()) p w"
    have "same_limits (pump_loop accepted (?w\<lparr>wr_queue := tl (wr_queue ?w)\<rparr>)) w"
      using pump_loop_limits [of accepted "?w\<lparr>wr_queue := tl (wr_queue ?w)\<rparr>"] settle_limits [of "return ()" p w]
      by (simp add: same_limits_def)
    with W_Continue Pump_Written show ?thesis by (simp add: Let_def)
  qed (use W_Continue poison_limits [of write_failed w] in \<open>simp_all add: same_limits_def\<close>)
qed (use write_limits poison_limits [of write_failed w] poison_limits [of closed w] in \<open>auto simp: same_limits_def split: pump_phase.split\<close>)

lemma run_inv:
  "limits w \<Longrightarrow> writer_inv encodes w \<Longrightarrow>
    writer_inv encodes (queue_run write_failed closed write_call es w)
    \<and> same_limits (queue_run write_failed closed write_call es w) w"
proof (induction es arbitrary: w)
  case (Cons e es)
  from Cons.IH [OF limits_kept [OF step_limits] step_inv, of w e] Cons.prems
  show ?case using same_limits_trans [OF _ step_limits] by (auto simp: queue_run_def)
qed (simp add: queue_run_def same_limits_def)

end

end
