(* ===== verification/Frame_Writer.thy ===== *)
theory Frame_Writer
  imports Frame_Decoder Write_Queue
begin

text \<open>
  The writer of length-prefixed frames
  (\<open>packages/native-messaging/src/transport/native-message-writer.ts\<close>): its limits and its \<open>write\<close>
  over the shared queue. A write that cannot be taken poisons the writer.
\<close>

type_synonym frame_writer = "(transport_error, frame) writer"

definition new_writer :: "jnum \<Rightarrow> jnum \<Rightarrow> jnum \<Rightarrow> frame_writer option" where
  "new_writer max_frame max_bytes max_messages =
     (case (max_frame, max_bytes, max_messages) of
        (NInt f, NInt b, NInt m) \<Rightarrow>
          if \<not> is_safe_integer (NInt f) \<or> f < 1 \<or> int DEFAULT_NATIVE_MESSAGE_MAX_FRAME_BYTES < f
             \<or> \<not> is_safe_integer (NInt b) \<or> b \<le> f + int NATIVE_MESSAGE_HEADER_BYTES
             \<or> int DEFAULT_NATIVE_MESSAGE_MAX_QUEUED_BYTES < b
             \<or> \<not> is_safe_integer (NInt m) \<or> m < 1 \<or> int DEFAULT_NATIVE_MESSAGE_MAX_QUEUED_MESSAGES < m
          then None
          else Some \<lparr>wr_max_frame = nat f, wr_max_queued_bytes = nat b, wr_max_queued_messages = nat m,
                     wr_failed = None, wr_phase = Pump_Idle, wr_queue = [], wr_queued_bytes = 0,
                     wr_next_id = 0, wr_outcomes = [], wr_output = [], wr_accepted = []\<rparr>
      | _ \<Rightarrow> None)"

definition write_frame ::
    "(jval \<Rightarrow> byte list) \<Rightarrow> bool \<Rightarrow> bool \<Rightarrow> jval \<Rightarrow> frame_writer \<Rightarrow> frame_writer" where
  "write_frame stringify destroyed accepted v w =
     (case wr_failed w of
        Some e \<Rightarrow> reject_write e w
      | None \<Rightarrow>
        if destroyed then reject_write Transport_Closed w
        else case (frame_schema v, encode_frame stringify (wr_max_frame w) v) of
            (Some f, Inr encoded) \<Rightarrow>
              if wr_max_queued_messages w \<le> length (wr_queue w)
                 \<or> int (wr_max_queued_bytes w) < wr_queued_bytes w + int (length encoded)
              then poison_and_reject Queue_Overflow w
              else pump_writer accepted (enqueue_frame f encoded w)
          | (_, Inl e) \<Rightarrow> poison_and_reject e w
          | (None, Inr _) \<Rightarrow> poison_and_reject Invalid_Transport_Frame w)"

definition writer_run :: "(jval \<Rightarrow> byte list) \<Rightarrow> jval writer_event list \<Rightarrow> frame_writer \<Rightarrow> frame_writer" where
  "writer_run stringify es w = queue_run Write_Failed Transport_Closed (write_frame stringify) es w"

section \<open>Accounting\<close>

text \<open>What the queue holds for a frame.\<close>

definition frame_bytes :: "(jval \<Rightarrow> byte list) \<Rightarrow> nat \<Rightarrow> frame \<Rightarrow> byte list \<Rightarrow> bool" where
  "frame_bytes stringify m f bs \<longleftrightarrow> frame_ok f \<and> encode_frame stringify m (frame_value f) = return bs"

lemma write_frame_inv:
  assumes inv: "writer_inv (frame_bytes stringify (wr_max_frame w)) w"
  shows "writer_inv (frame_bytes stringify (wr_max_frame w)) (write_frame stringify destroyed accepted v w)"
proof (cases "wr_failed w = None \<and> \<not> destroyed \<and> frame_schema v \<noteq> None
    \<and> (\<exists>bs. encode_frame stringify (wr_max_frame w) v = return bs)")
  case True
  then obtain f bs where f: "frame_schema v = Some f" "encode_frame stringify (wr_max_frame w) v = return bs" by blast
  then have again: "frame_bytes stringify (wr_max_frame w) f bs"
    using frame_read_ok [OF f(1)] frame_value_read [OF frame_read_ok [OF f(1)]]
    by (simp add: frame_bytes_def encode_frame_def)
  show ?thesis
  proof (cases "wr_max_queued_messages w \<le> length (wr_queue w)
      \<or> int (wr_max_queued_bytes w) < wr_queued_bytes w + int (length bs)")
    case full: True
    with True f poison_and_reject_inv [OF inv] show ?thesis by (simp add: write_frame_def)
  next
    case False
    then have room: "length (wr_queue w) < wr_max_queued_messages w"
      "wr_queued_bytes w + int (length bs) \<le> int (wr_max_queued_bytes w)" by linarith+
    from True have "wr_failed w = None" ..
    from enqueue_inv [OF inv this again room, of accepted] show ?thesis
      using True f False by (simp add: write_frame_def)
  qed
next
  case False
  then show ?thesis
    using inv reject_write_inv [OF inv] poison_and_reject_inv [OF inv]
    by (auto simp: write_frame_def split: option.splits sum.splits)
qed

lemma write_frame_limits: "same_limits (write_frame stringify destroyed accepted v w) w"
  by (auto simp: write_frame_def intro: poison_and_reject_limits pump_enqueued_limits split: option.split sum.split)
    (simp_all add: reject_write_def same_limits_def)

interpretation native: queued_writer "frame_bytes stringify m" "\<lambda>w. wr_max_frame w = m" "write_frame stringify"
    Write_Failed Transport_Closed for stringify m
proof unfold_locales
  show "same_limits (write_frame stringify destroyed accepted v w) w" for destroyed accepted v w
    by (rule write_frame_limits)
qed (auto intro: write_frame_inv simp: same_limits_def)

lemma new_writer_inv: "new_writer f b m = Some w \<Longrightarrow> writer_inv P w"
  by (auto simp: new_writer_def writer_inv_def queue_inv_def promise_inv_def promise_ids_def output_inv_def unstarted_def
      split: jnum.splits if_splits)

end
