(* ===== verification/Transport_Properties.thy ===== *)
theory Transport_Properties
  imports Frame_Writer
begin

text \<open>
  The properties of the byte transport: chunk boundaries do not matter, errors are final, every
  write is accounted for, and what one end writes the other end reads.
\<close>

section \<open>The decoder\<close>

lemma new_decoder_fields:
  assumes "new_decoder (NInt b) (NInt f) = Some d"
  shows "settled_decoder parse d" "dc_max_buffered d = nat b" "dc_max_frame d = nat f" "dc_buffer d = []"
    "1 \<le> f" "f \<le> 1048576"
  using assms
  by (auto simp: new_decoder_def settled_decoder_def scan_frames.simps NATIVE_MESSAGE_HEADER_BYTES_def
      DEFAULT_NATIVE_MESSAGE_MAX_FRAME_BYTES_def split: if_splits)

lemma settled_buffer: "settled_decoder parse d \<Longrightarrow> length (dc_buffer d) < 4 + dc_max_frame d"
  unfolding settled_decoder_def using scan_rest_bound by (fastforce simp: NATIVE_MESSAGE_HEADER_BYTES_def)

lemma push_settles:
  assumes "settled_decoder parse d" "push_chunk parse c d = (Inr fs, d')"
  shows "settled_decoder parse d' \<and> dc_max_frame d' = dc_max_frame d \<and> dc_max_buffered d' = dc_max_buffered d"
  using assms push_chunk_cases [of d parse c]
  by (auto simp: settled_decoder_def settle_scan_def dest: scan_settled split: if_splits sum.splits prod.splits)

lemma small_chunks_fit:
  assumes "settled_decoder parse d"
    and "\<forall>c \<in> set cs. length c + dc_max_frame d + 3 \<le> dc_max_buffered d"
  shows "fst (push_chunks parse cs d) \<noteq> Inl Buffer_Overflow"
  using assms
proof (induction cs arbitrary: d)
  case (Cons c cs)
  then have opened: "\<not> dc_closed d" by (simp add: settled_decoder_def)
  have pushed: "push_chunk parse c d = settle_scan d (scan_frames parse (dc_max_frame d) (dc_buffer d @ c))"
    using push_chunk_cases [OF opened, of parse c] settled_buffer [OF Cons.prems(1)] Cons.prems(2) by auto
  show ?case
  proof (cases "scan_frames parse (dc_max_frame d) (dc_buffer d @ c)")
    case (Inl e)
    with pushed scan_no_overflow [of parse "dc_max_frame d" "dc_buffer d @ c"] show ?thesis by simp
  next
    case (Inr r)
    then obtain fs d' where p: "push_chunk parse c d = (Inr fs, d')" using pushed by (cases r) simp
    from push_settles [OF Cons.prems(1) p] Cons.prems(2) have "fst (push_chunks parse cs d') \<noteq> Inl Buffer_Overflow"
      by (intro Cons.IH) simp_all
    with p show ?thesis by (auto split: prod.splits sum.splits)
  qed
qed simp

text \<open>A run that overflows has read a part of the stream before the chunk that did not fit.\<close>

lemma overflow_split:
  assumes "settled_decoder parse d" and "fst (push_chunks parse cs d) = Inl Buffer_Overflow"
  shows "\<exists>before c after fs d'. cs = before @ c # after \<and> push_chunks parse before d = (Inr fs, d')
    \<and> push_chunk parse c d' = (Inl Buffer_Overflow, fail_decoder d')
    \<and> dc_max_buffered d < length c + dc_max_frame d + 4"
  using assms
proof (induction cs arbitrary: d)
  case (Cons c cs)
  then have opened: "\<not> dc_closed d" by (simp add: settled_decoder_def)
  show ?case
  proof (cases "dc_max_buffered d < length (dc_buffer d) + length c")
    case True
    then show ?thesis
      using settled_buffer [OF Cons.prems(1)] push_chunk_cases [OF opened, of parse c]
      by (intro exI [of _ "[]"] exI [of _ c] exI [of _ cs]) simp
  next
    case False
    then have pushed: "push_chunk parse c d = settle_scan d (scan_frames parse (dc_max_frame d) (dc_buffer d @ c))"
      using push_chunk_cases [OF opened, of parse c] by simp
    show ?thesis
    proof (cases "scan_frames parse (dc_max_frame d) (dc_buffer d @ c)")
      case (Inl e)
      with pushed Cons.prems(2) scan_no_overflow [of parse "dc_max_frame d" "dc_buffer d @ c"]
      show ?thesis by simp
    next
      case (Inr r)
      then obtain fs d1 where p: "push_chunk parse c d = (Inr fs, d1)" using pushed by (cases r) simp
      from push_settles [OF Cons.prems(1) p] have d1: "settled_decoder parse d1"
        "dc_max_frame d1 = dc_max_frame d" "dc_max_buffered d1 = dc_max_buffered d" by simp_all
      have "fst (push_chunks parse cs d1) = Inl Buffer_Overflow"
        using Cons.prems(2) p by (auto split: prod.splits sum.splits)
      from Cons.IH [OF d1(1) this] obtain before x after gs d' where
        "cs = before @ x # after" "push_chunks parse before d1 = (Inr gs, d')"
        "push_chunk parse x d' = (Inl Buffer_Overflow, fail_decoder d')"
        "dc_max_buffered d < length x + dc_max_frame d + 4"
        by (auto simp: d1)
      with p show ?thesis
        by (intro exI [of _ "c # before"] exI [of _ x] exI [of _ after] exI [of _ "fs @ gs"] exI [of _ d']) simp
    qed
  qed
qed simp

lemma partial_push_prefix:
  assumes "settled_decoder parse d" and "push_chunks parse before d = (Inr fs, d')"
    and "scan_frames parse (dc_max_frame d) (dc_buffer d @ concat before @ later) = Inr (frames, rest)"
  shows "prefix fs frames"
proof -
  have "fst (push_chunks parse before d) \<noteq> Inl Buffer_Overflow" using assms(2) by simp
  from push_chunks_scan [OF assms(1) this] assms(2) obtain left where
    "scan_frames parse (dc_max_frame d) (dc_buffer d @ concat before) = Inr (fs, left)"
    by (cases "scan_frames parse (dc_max_frame d) (dc_buffer d @ concat before)") auto
  then have "scan_frames parse (dc_max_frame d) (dc_buffer d @ concat before @ later)
      = and_then (scan_frames parse (dc_max_frame d) (left @ later)) (\<lambda>(gs, rest'). Inr (fs @ gs, rest'))"
    using scan_append [of parse "dc_max_frame d" "dc_buffer d @ concat before" later] by simp
  with assms(3) show ?thesis
    by (cases "scan_frames parse (dc_max_frame d) (left @ later)") auto
qed

lemma push_chunks_error:
  assumes "settled_decoder parse d" "push_chunks parse cs d = (Inl e, d')"
  shows "dc_closed d' \<and> dc_buffer d' = []"
  using assms
proof (induction cs arbitrary: d)
  case (Cons c cs)
  then have opened: "\<not> dc_closed d" by (simp add: settled_decoder_def)
  show ?case
  proof (cases "push_chunk parse c d")
    case (Pair r d1)
    show ?thesis
    proof (cases r)
      case (Inl e')
      with Pair Cons.prems push_chunk_cases [OF opened, of parse c] show ?thesis
        by (auto simp: fail_decoder_def settle_scan_def split: if_splits sum.splits)
    next
      case (Inr fs)
      from push_settles [OF Cons.prems(1)] Pair Inr have "settled_decoder parse d1" by blast
      with Cons Pair Inr show ?thesis by (auto split: prod.splits sum.splits)
    qed
  qed
qed simp

text \<open>
  How a byte stream is cut into chunks does not matter: a decoder fed two chunkings of the
  same bytes, in chunks that leave room for one incomplete frame, gives the same frames or the same
  error and ends in the same state, and neither run overflows its buffer.
\<close>

theorem chunk_boundaries_irrelevant:
  assumes "new_decoder (NInt b) (NInt f) = Some d"
    and "\<forall>c \<in> set cs \<union> set cs'. int (length c) + f + 3 \<le> b" and "concat cs = concat cs'"
  shows "push_chunks parse cs d = push_chunks parse cs' d \<and> fst (push_chunks parse cs d) \<noteq> Inl Buffer_Overflow"
proof -
  note fields = new_decoder_fields [OF assms(1)]
  have "\<forall>c \<in> set cs \<union> set cs'. length c + dc_max_frame d + 3 \<le> dc_max_buffered d"
    unfolding fields(2,3) using assms(2) fields(5) by (intro ballI) (drule (1) bspec, linarith)
  then have "fst (push_chunks parse cs d) \<noteq> Inl Buffer_Overflow" "fst (push_chunks parse cs' d) \<noteq> Inl Buffer_Overflow"
    using small_chunks_fit [OF fields(1)] by simp_all
  then show ?thesis
    using push_chunks_scan [OF fields(1), of parse cs] push_chunks_scan [OF fields(1), of parse cs'] assms(3) by simp
qed

definition sample_decoder :: decoder where
  "sample_decoder = \<lparr>dc_max_buffered = 256, dc_max_frame = 64, dc_buffer = [], dc_closed = False\<rparr>"

definition sample_parse :: "byte list \<Rightarrow> jval option" where
  "sample_parse bs = (if bs = [7] then Some (frame_value sample_frame) else None)"

definition sample_stringify :: "jval \<Rightarrow> byte list" where
  "sample_stringify v = (if v = frame_value sample_frame then [7] else [])"

theorem chunk_boundaries_irrelevant_witness:
  "push_chunks sample_parse [[1, 0], [0, 0, 7, 1]] sample_decoder
   = push_chunks sample_parse [[1, 0, 0, 0], [7], [1]] sample_decoder"
proof -
  have "new_decoder (NInt 256) (NInt 64) = Some sample_decoder"
    by (simp add: new_decoder_def sample_decoder_def NATIVE_MESSAGE_HEADER_BYTES_def
        DEFAULT_NATIVE_MESSAGE_MAX_FRAME_BYTES_def DEFAULT_NATIVE_MESSAGE_MAX_BUFFERED_BYTES_def)
  moreover have "\<forall>c \<in> set [[1, 0], [0, 0, 7, 1]] \<union> set [[1, 0, 0, 0], [7], [1 :: byte]]. int (length c) + 64 + 3 \<le> 256"
    by simp
  moreover have "concat [[1, 0], [0, 0, 7, 1]] = concat [[1, 0, 0, 0], [7], [1 :: byte]]" by simp
  ultimately show ?thesis by (rule chunk_boundaries_irrelevant [THEN conjunct1])
qed

text \<open>
  A framing error is final: when a run of pushes fails, the decoder has dropped its buffer and
  closed, and every later push or finish reports the closed transport and changes nothing.
\<close>

theorem decoder_error_is_final:
  assumes "new_decoder b f = Some d" and "push_chunks parse cs d = (Inl e, d')"
  shows "dc_buffer d' = [] \<and> push_chunk parse c d' = (Inl Transport_Closed, d')
    \<and> finish_decoder d' = (Inl Transport_Closed, d')"
proof -
  from assms(1) obtain i j where "b = NInt i" "f = NInt j" by (auto simp: new_decoder_def split: jnum.splits)
  with assms(1) new_decoder_fields(1) have "settled_decoder parse d" by blast
  from push_chunks_error [OF this assms(2)] show ?thesis by (simp add: push_chunk_def finish_decoder_def)
qed

theorem decoder_error_is_final_witness:
  "\<exists>d. push_chunks sample_parse [[0, 0], [0, 0]] sample_decoder = (Inl Invalid_Transport_Frame, d)
     \<and> push_chunk sample_parse [7] d = (Inl Transport_Closed, d)"
proof -
  have "new_decoder (NInt 256) (NInt 64) = Some sample_decoder"
    by (simp add: new_decoder_def sample_decoder_def NATIVE_MESSAGE_HEADER_BYTES_def
        DEFAULT_NATIVE_MESSAGE_MAX_FRAME_BYTES_def DEFAULT_NATIVE_MESSAGE_MAX_BUFFERED_BYTES_def)
  moreover have failed: "push_chunks sample_parse [[0, 0], [0, 0]] sample_decoder
      = (Inl Invalid_Transport_Frame, sample_decoder\<lparr>dc_closed := True\<rparr>)"
    by (simp add: push_chunk_def sample_decoder_def scan_frames.simps NATIVE_MESSAGE_HEADER_BYTES_def
        read_u32le_def fail_decoder_def)
  ultimately have "push_chunk sample_parse [7] (sample_decoder\<lparr>dc_closed := True\<rparr>)
      = (Inl Transport_Closed, sample_decoder\<lparr>dc_closed := True\<rparr>)"
    using decoder_error_is_final [THEN conjunct2, THEN conjunct1] by metis
  with failed show ?thesis by (intro exI conjI)
qed

section \<open>The writer\<close>

text \<open>
  C15. Every write is accounted for: in any reachable state of a writer its promises are exactly
  those settled, each once, and those of the queue; the queue respects its two bounds; a promise
  that resolved belongs to a frame given to the stream; and once the writer has failed no promise
  is left pending.
\<close>

theorem writer_accounts_every_write:
  assumes "new_writer f (NInt b) (NInt m) = Some w0" and "w = writer_run stringify es w0"
  shows "distinct (promise_ids w) \<and> set (promise_ids w) = {..<wr_next_id w}
    \<and> wr_queued_bytes w = int (sum_list (map pw_bytes (wr_queue w))) \<and> wr_queued_bytes w \<le> b
    \<and> int (length (wr_queue w)) \<le> m
    \<and> (\<forall>i. (i, return ()) \<in> set (wr_outcomes w) \<longrightarrow> i \<in> started_ids w)
    \<and> (wr_failed w \<noteq> None \<longrightarrow> fst ` set (wr_outcomes w) = {..<wr_next_id w})"
proof -
  note run = native.run_inv [OF refl new_writer_inv [OF assms(1)], of stringify es]
  have inv: "writer_inv (frame_bytes stringify (wr_max_frame w0)) w" using run by (simp add: assms(2) writer_run_def)
  have limits: "int (wr_max_queued_bytes w) = b \<and> int (wr_max_queued_messages w) = m"
  proof -
    have "int (wr_max_queued_bytes w0) = b \<and> int (wr_max_queued_messages w0) = m"
      using assms(1) by (auto simp: new_writer_def split: jnum.splits if_splits)
    moreover have "wr_max_queued_bytes w = wr_max_queued_bytes w0 \<and> wr_max_queued_messages w = wr_max_queued_messages w0"
      using run by (simp add: assms(2) writer_run_def same_limits_def)
    ultimately show ?thesis by simp
  qed
  show ?thesis
    using inv limits
    by (auto simp: writer_inv_def queue_inv_def promise_inv_def output_inv_def promise_ids_def)
qed

definition sample_writer :: frame_writer where
  "sample_writer = \<lparr>wr_max_frame = 64, wr_max_queued_bytes = 256, wr_max_queued_messages = 2,
     wr_failed = None, wr_phase = Pump_Idle, wr_queue = [], wr_queued_bytes = 0, wr_next_id = 0,
     wr_outcomes = [], wr_output = [], wr_accepted = []\<rparr>"

definition sample_write :: "jval writer_event" where
  "sample_write = W_Write False True (frame_value sample_frame)"

lemma sample_writer_new: "new_writer (NInt 64) (NInt 256) (NInt 2) = Some sample_writer"
  by (simp add: new_writer_def sample_writer_def NATIVE_MESSAGE_HEADER_BYTES_def
      DEFAULT_NATIVE_MESSAGE_MAX_FRAME_BYTES_def DEFAULT_NATIVE_MESSAGE_MAX_QUEUED_BYTES_def
      DEFAULT_NATIVE_MESSAGE_MAX_QUEUED_MESSAGES_def)

lemma sample_frame_ok: "frame_ok sample_frame"
  by code_simp

lemma sample_encoded: "encode_frame sample_stringify 64 (frame_value sample_frame) = Inr (u32le 1 @ [7])"
  using frame_value_read [OF sample_frame_ok] by (simp add: encode_frame_def sample_stringify_def)

text \<open>A write, a second one while the first is with the stream, and a stream error.\<close>

lemma sample_write_run:
  "wr_next_id (writer_run sample_stringify [sample_write, sample_write, W_Error_Event] sample_writer) = 2"
  "wr_failed (writer_run sample_stringify [sample_write, sample_write, W_Error_Event] sample_writer) = Some Write_Failed"
  using frame_value_read [OF sample_frame_ok] sample_encoded
  by (simp_all add: writer_run_def queue_run_def sample_write_def write_frame_def sample_writer_def pump_writer_def
      enqueue_frame_def pump_loop_def start_write_frame_def poison_writer_def settle_pending_def
      pending_settled_def NATIVE_MESSAGE_HEADER_BYTES_def)

theorem writer_accounts_every_write_witness:
  "fst ` set (wr_outcomes (writer_run sample_stringify [sample_write, sample_write, W_Error_Event] sample_writer)) = {..<2}"
  using writer_accounts_every_write [OF sample_writer_new refl,
      of sample_stringify "[sample_write, sample_write, W_Error_Event]"] sample_write_run by simp

section \<open>End to end\<close>

text \<open>What \<open>JSON.stringify\<close> writes for a frame, \<open>JSON.parse\<close> reads back.\<close>

definition json_round_trip :: "(jval \<Rightarrow> byte list) \<Rightarrow> (byte list \<Rightarrow> jval option) \<Rightarrow> frame \<Rightarrow> bool" where
  "json_round_trip stringify parse f \<longleftrightarrow>
     stringify (frame_value f) \<noteq> [] \<and> parse (stringify (frame_value f)) = Some (frame_value f)"

lemma scan_encoded_frame:
  assumes "frame_ok f" "encode_frame stringify m (frame_value f) = Inr bs" "json_round_trip stringify parse f"
    and "m \<le> max_frame" "max_frame < 2 ^ 32"
  shows "scan_frames parse max_frame (bs @ rest)
    = and_then (scan_frames parse max_frame rest) (\<lambda>(fs, rest'). Inr (f # fs, rest'))"
proof -
  let ?payload = "stringify (frame_value f)"
  have payload: "length ?payload \<le> m" "bs = u32le (length ?payload) @ ?payload"
    using assms(1,2) by (auto simp: encode_frame_def frame_value_read Let_def split: if_splits)
  then have "length ?payload < 2 ^ 32" using assms(4,5) by linarith
  then have n: "read_u32le (bs @ rest) = length ?payload" using payload by (simp add: read_u32le_inverse)
  show ?thesis
    unfolding scan_frames.simps [of parse max_frame "bs @ rest"] n
    using payload assms(1,3,4) by (simp add: json_round_trip_def frame_value_read)
qed

lemma scan_encoded_frames:
  assumes "\<forall>(i, f, bs) \<in> set xs. frame_ok f \<and> encode_frame stringify m (frame_value f) = Inr bs
      \<and> json_round_trip stringify parse f"
    and "m \<le> max_frame" "max_frame < 2 ^ 32"
  shows "scan_frames parse max_frame (concat (map (\<lambda>(_, _, bs). bs) xs)) = Inr (map (\<lambda>(_, f, _). f) xs, [])"
  using assms(1)
proof (induction xs)
  case Nil
  then show ?case by (simp add: scan_frames.simps NATIVE_MESSAGE_HEADER_BYTES_def)
next
  case (Cons x xs)
  obtain i f bs where x: "x = (i, f, bs)" by (cases x)
  with Cons scan_encoded_frame [OF _ _ _ assms(2,3), of f stringify bs parse] show ?case by simp
qed

text \<open>
  C14. What one end writes the other end reads: after any sequence of writes, callbacks, failures
  and closes, a decoder that gets the bytes the writer has given to its stream, cut anyhow, returns
  exactly the frames of those writes in order and keeps nothing back, provided it admits frames as
  large and the text of each frame parses back. The one thing that can go wrong is a chunk too
  large for the buffer: then the chunks before it have given a first part of the frames, the run
  ends with the overflow error, and the chunk was larger than the buffer less one incomplete frame.
  So chunks that leave room for one incomplete frame deliver everything.
\<close>

theorem transport_delivers_in_order:
  assumes "new_writer (NInt mw) mb mm = Some w0" and "w = writer_run stringify es w0"
    and "new_decoder (NInt b) (NInt f) = Some d" and "mw \<le> f"
    and "\<forall>(i, fr, bs) \<in> set (wr_accepted w). json_round_trip stringify parse fr"
    and "concat cs = concat (wr_output w)"
    and "frames = map (\<lambda>(_, fr, _). fr) (take (length (wr_output w)) (wr_accepted w))"
  shows "(push_chunks parse cs d = (return frames, d)
      \<or> fst (push_chunks parse cs d) = throw Buffer_Overflow
        \<and> (\<exists>before c after fs d'. cs = before @ c # after
             \<and> push_chunks parse before d = (return fs, d') \<and> prefix fs frames
             \<and> push_chunk parse c d' = (throw Buffer_Overflow, fail_decoder d')
             \<and> b < int (length c) + f + 4))
    \<and> ((\<forall>c \<in> set cs. int (length c) + f + 3 \<le> b) \<longrightarrow> push_chunks parse cs d = (return frames, d))"
proof -
  note fields = new_decoder_fields [OF assms(3)]
  let ?xs = "take (length (wr_output w)) (wr_accepted w)"
  have limit: "wr_max_frame w0 = nat mw" using assms(1) by (auto simp: new_writer_def split: jnum.splits if_splits)
  have inv: "output_inv (frame_bytes stringify (nat mw)) w"
    using native.run_inv [OF refl new_writer_inv [OF assms(1)], of stringify es]
    by (simp add: writer_inv_def assms(2) writer_run_def limit)
  have written: "wr_output w = map (\<lambda>(_, _, bs). bs) ?xs"
    using inv by (auto simp: output_inv_def prefix_def take_map [symmetric])
  have each: "\<forall>(i, fr, bs) \<in> set ?xs. frame_ok fr \<and> encode_frame stringify (nat mw) (frame_value fr) = Inr bs
      \<and> json_round_trip stringify parse fr"
    using inv assms(5) by (fastforce simp: output_inv_def frame_bytes_def dest: in_set_takeD)
  have small: "nat mw \<le> dc_max_frame d" "dc_max_frame d < 2 ^ 32" using fields assms(4) by (simp_all add: nat_mono)
  have scan: "scan_frames parse (dc_max_frame d) (dc_buffer d @ concat cs) = Inr (frames, [])"
    using scan_encoded_frames [OF each small] by (simp add: fields(4) assms(6,7) written [symmetric])
  have all: "push_chunks parse cs d = (return frames, d)" if "fst (push_chunks parse cs d) \<noteq> Inl Buffer_Overflow"
    using push_chunks_scan [OF fields(1) that] scan fields(4) by simp
  have "push_chunks parse cs d = (return frames, d)
      \<or> fst (push_chunks parse cs d) = throw Buffer_Overflow
        \<and> (\<exists>before c after fs d'. cs = before @ c # after
             \<and> push_chunks parse before d = (return fs, d') \<and> prefix fs frames
             \<and> push_chunk parse c d' = (throw Buffer_Overflow, fail_decoder d')
             \<and> b < int (length c) + f + 4)"
  proof (cases "fst (push_chunks parse cs d) = Inl Buffer_Overflow")
    case True
    from overflow_split [OF fields(1) True] obtain before c after fs d' where
      split: "cs = before @ c # after" "push_chunks parse before d = (Inr fs, d')"
      "push_chunk parse c d' = (Inl Buffer_Overflow, fail_decoder d')"
      and large: "dc_max_buffered d < length c + dc_max_frame d + 4" by blast
    have "prefix fs frames"
      by (rule partial_push_prefix [OF fields(1) split(2), of "c @ concat after"]) (use scan split(1) in simp)
    moreover have "b < int (length c) + f + 4" using large fields(2,3,5) by linarith
    ultimately show ?thesis using True split by blast
  qed (use all in simp)
  moreover have "push_chunks parse cs d = (return frames, d)"
    if room: "\<forall>c \<in> set cs. int (length c) + f + 3 \<le> b"
  proof -
    have "\<forall>c \<in> set cs. length c + dc_max_frame d + 3 \<le> dc_max_buffered d"
      unfolding fields(2,3) using room fields(5) by (intro ballI) (drule (1) bspec, linarith)
    from all [OF small_chunks_fit [OF fields(1) this]] show ?thesis .
  qed
  ultimately show ?thesis by blast
qed

theorem transport_delivers_in_order_witness:
  "push_chunks sample_parse [[1], [0, 0, 0, 7]] sample_decoder = (return [sample_frame], sample_decoder)"
proof -
  let ?w = "writer_run sample_stringify [sample_write, sample_write, W_Error_Event] sample_writer"
  have run: "wr_output ?w = [[1, 0, 0, 0, 7]]"
      "wr_accepted ?w = [(0, sample_frame, [1, 0, 0, 0, 7]), (1, sample_frame, [1, 0, 0, 0, 7])]"
    using frame_value_read [OF sample_frame_ok] sample_encoded
    by (simp_all add: writer_run_def queue_run_def sample_write_def write_frame_def sample_writer_def pump_writer_def
        enqueue_frame_def pump_loop_def start_write_frame_def poison_writer_def settle_pending_def
        pending_settled_def NATIVE_MESSAGE_HEADER_BYTES_def u32le_def)
  have decoder: "new_decoder (NInt 256) (NInt 64) = Some sample_decoder"
    by (simp add: new_decoder_def sample_decoder_def NATIVE_MESSAGE_HEADER_BYTES_def
        DEFAULT_NATIVE_MESSAGE_MAX_FRAME_BYTES_def DEFAULT_NATIVE_MESSAGE_MAX_BUFFERED_BYTES_def)
  have json: "\<forall>(i, fr, bs) \<in> set (wr_accepted ?w). json_round_trip sample_stringify sample_parse fr"
    unfolding run by (simp add: json_round_trip_def sample_stringify_def sample_parse_def)
  have "\<forall>c \<in> set [[1], [0, 0, 0, 7 :: byte]]. int (length c) + 64 + 3 \<le> 256"
    and "concat [[1], [0, 0, 0, 7 :: byte]] = concat (wr_output ?w)" unfolding run by simp_all
  from transport_delivers_in_order [OF sample_writer_new refl decoder _ json this(2) refl] this(1) show ?thesis
    unfolding run by simp
qed

end
