(* ===== verification/App_Server_Envelope.thy ===== *)
theory App_Server_Envelope
  imports Bridge_Frames
begin

text \<open>
  JSON values and the message envelope of the Codex app-server protocol
  (\<open>packages/protocol/src/json.ts\<close>, \<open>app-server.ts\<close>). The four message shapes are objects that admit
  any further field with a JSON value, so a parsed envelope is the record itself; the schema
  decides whether it is one.
\<close>

section \<open>JSON values\<close>

fun is_json_value :: "jval \<Rightarrow> bool" where
  "is_json_value (JStr s) \<longleftrightarrow> True"
| "is_json_value (JNum n) \<longleftrightarrow> is_finite_number n"
| "is_json_value (JBool b) \<longleftrightarrow> True"
| "is_json_value JNull \<longleftrightarrow> True"
| "is_json_value (JArr vs) \<longleftrightarrow> list_all is_json_value vs"
| "is_json_value (JObj r) \<longleftrightarrow> list_all (\<lambda>kv. is_json_value (snd kv)) r"
| "is_json_value JUndef \<longleftrightarrow> False"
| "is_json_value JExotic \<longleftrightarrow> False"

section \<open>Envelopes\<close>

type_synonym envelope = data_record

text \<open>\<open>"key" in envelope\<close>\<close>

definition has_key :: "string \<Rightarrow> data_record \<Rightarrow> bool" where
  "has_key k r \<longleftrightarrow> map_of r (js k) \<noteq> None"

text \<open>\<open>z.never().optional()\<close> and \<open>jsonValueSchema.optional()\<close> on a field.\<close>

definition absent_field :: "data_record \<Rightarrow> string \<Rightarrow> bool" where
  "absent_field r k \<longleftrightarrow> field r k = JUndef"

definition optional_json_field :: "data_record \<Rightarrow> string \<Rightarrow> bool" where
  "optional_json_field r k \<longleftrightarrow> field r k = JUndef \<or> is_json_value (field r k)"

text \<open>\<open>.catchall(jsonValueSchema)\<close>: the fields outside the shape.\<close>

definition json_catchall :: "string list \<Rightarrow> data_record \<Rightarrow> bool" where
  "json_catchall shape r \<longleftrightarrow> list_all (\<lambda>(k, v). k \<in> set (map js shape) \<or> is_json_value v) r"

definition app_server_message_id :: "jval \<Rightarrow> bool" where
  "app_server_message_id v =
     (case v of JStr _ \<Rightarrow> True | JNum n \<Rightarrow> is_integer_number n \<and> is_safe_integer n | _ \<Rightarrow> False)"

definition app_server_method :: "jval \<Rightarrow> bool" where
  "app_server_method v = (case v of JStr s \<Rightarrow> 1 \<le> length s | _ \<Rightarrow> False)"

definition app_server_error_object :: "jval \<Rightarrow> bool" where
  "app_server_error_object v =
     (case read_data_record v of
        None \<Rightarrow> False
      | Some r \<Rightarrow>
          (case field r ''code'' of JNum n \<Rightarrow> is_integer_number n \<and> is_safe_integer n | _ \<Rightarrow> False)
          \<and> is_string_value (field r ''message'') \<and> optional_json_field r ''data''
          \<and> json_catchall [''code'', ''message'', ''data''] r)"

definition app_server_request :: "data_record \<Rightarrow> bool" where
  "app_server_request r \<longleftrightarrow>
     app_server_message_id (field r ''id'') \<and> app_server_method (field r ''method'')
     \<and> optional_json_field r ''params'' \<and> absent_field r ''result'' \<and> absent_field r ''error''
     \<and> json_catchall [''id'', ''method'', ''params'', ''result'', ''error''] r"

definition app_server_notification :: "data_record \<Rightarrow> bool" where
  "app_server_notification r \<longleftrightarrow>
     absent_field r ''id'' \<and> app_server_method (field r ''method'')
     \<and> optional_json_field r ''params'' \<and> absent_field r ''result'' \<and> absent_field r ''error''
     \<and> json_catchall [''id'', ''method'', ''params'', ''result'', ''error''] r"

definition app_server_success_response :: "data_record \<Rightarrow> bool" where
  "app_server_success_response r \<longleftrightarrow>
     app_server_message_id (field r ''id'') \<and> absent_field r ''method'' \<and> absent_field r ''params''
     \<and> is_json_value (field r ''result'') \<and> absent_field r ''error''
     \<and> json_catchall [''id'', ''method'', ''params'', ''result'', ''error''] r"

definition app_server_error_response :: "data_record \<Rightarrow> bool" where
  "app_server_error_response r \<longleftrightarrow>
     app_server_message_id (field r ''id'') \<and> absent_field r ''method'' \<and> absent_field r ''params''
     \<and> absent_field r ''result'' \<and> app_server_error_object (field r ''error'')
     \<and> json_catchall [''id'', ''method'', ''params'', ''result'', ''error''] r"

definition app_server_envelope :: "data_record \<Rightarrow> bool" where
  "app_server_envelope r \<longleftrightarrow>
     app_server_request r \<or> app_server_notification r \<or> app_server_success_response r
     \<or> app_server_error_response r"

text \<open>\<open>appServerEnvelopeSchema.parse(value)\<close>\<close>

definition read_envelope :: "jval \<Rightarrow> envelope option" where
  "read_envelope v =
     Option.bind (read_data_record v) (\<lambda>r. if app_server_envelope r then Some r else None)"

section \<open>The shapes exclude each other\<close>

text \<open>A parsed value has no field that is present and undefined.\<close>

definition defined_fields :: "data_record \<Rightarrow> bool" where
  "defined_fields r \<longleftrightarrow> list_all (\<lambda>(k, v). v \<noteq> JUndef) r"

lemma has_key_field: "defined_fields r \<Longrightarrow> has_key k r \<longleftrightarrow> field r k \<noteq> JUndef"
  by (auto simp: has_key_def field_def defined_fields_def list_all_iff dest: map_of_SomeD split: option.splits)

lemma message_id_defined: "app_server_message_id v \<Longrightarrow> v \<noteq> JUndef"
  by (cases v) (simp_all add: app_server_message_id_def)

lemma method_defined: "app_server_method v \<Longrightarrow> v \<noteq> JUndef"
  by (cases v) (simp_all add: app_server_method_def)

lemma json_defined: "is_json_value v \<Longrightarrow> v \<noteq> JUndef"
  by (cases v) simp_all

lemma message_id_request_id: "app_server_message_id v \<longleftrightarrow> (case v of JStr _ \<Rightarrow> True | JNum n \<Rightarrow> is_safe_integer n | _ \<Rightarrow> False)"
proof -
  have "is_safe_integer n \<Longrightarrow> is_integer_number n" for n by (cases n) simp_all
  then show ?thesis by (auto simp: app_server_message_id_def split: jval.splits)
qed

lemma envelope_shapes:
  assumes "app_server_envelope r"
  shows "app_server_request r \<longleftrightarrow> field r ''id'' \<noteq> JUndef \<and> field r ''method'' \<noteq> JUndef"
    and "app_server_notification r \<longleftrightarrow> field r ''id'' = JUndef"
    and "app_server_success_response r \<longleftrightarrow> field r ''result'' \<noteq> JUndef"
    and "app_server_error_response r \<longleftrightarrow> field r ''error'' \<noteq> JUndef"
  using assms message_id_defined method_defined json_defined
  by (auto simp: app_server_envelope_def app_server_request_def app_server_notification_def
      app_server_success_response_def app_server_error_response_def absent_field_def
      app_server_error_object_def)

end
