(* ===== verification/Line_Decoder.thy ===== *)
theory Line_Decoder
  imports App_Server_Envelope Capability_Token Chunk_Scanner
begin

text \<open>
  The newline-delimited JSON stream of the app server
  (\<open>apps/bridge/src/transport/jsonl-decoder.ts\<close>, \<open>errors.ts\<close>). The list of pending segments is
  their concatenation. \<open>parse\<close> stands for \<open>TextDecoder.decode\<close> followed by \<open>JSON.parse\<close>
  (\<open>None\<close> where either throws).
\<close>

datatype line_error =
    Line_Buffer_Overflow | Line_Too_Large | Invalid_Line | Line_Queue_Overflow
  | Line_Transport_Closed | Line_Write_Failed

definition LINE_FEED :: byte where "LINE_FEED = 10"
definition CARRIAGE_RETURN :: byte where "CARRIAGE_RETURN = 13"

record line_decoder =
  ld_max_buffered :: nat
  ld_max_frame :: nat
  ld_failed :: bool
  ld_pending :: "byte list"

definition new_line_decoder :: "jnum \<Rightarrow> jnum \<Rightarrow> line_decoder option" where
  "new_line_decoder max_buffered max_frame =
     (case (max_buffered, max_frame) of
        (NInt b, NInt f) \<Rightarrow>
          if \<not> is_safe_integer (NInt f) \<or> f < 1 \<or> \<not> is_safe_integer (NInt b) \<or> b < f then None
          else Some \<lparr>ld_max_buffered = nat b, ld_max_frame = nat f, ld_failed = False, ld_pending = []\<rparr>
      | _ \<Rightarrow> None)"

text \<open>\<open>#append\<close> and \<open>#consumeLine\<close> on the pending bytes.\<close>

definition append_segment :: "nat \<Rightarrow> nat \<Rightarrow> byte list \<Rightarrow> byte list \<Rightarrow> (line_error, byte list) result" where
  "append_segment max_buffered max_frame pending segment =
     (if length segment = 0 then return pending
      else let next_bytes = length pending + length segment in
        if max_frame < next_bytes then throw Line_Too_Large
        else if max_buffered < next_bytes then throw Line_Buffer_Overflow
        else return (pending @ segment))"

definition consume_line ::
    "(byte list \<Rightarrow> jval option) \<Rightarrow> byte list \<Rightarrow> (line_error, envelope list) result" where
  "consume_line parse pending =
     (let line = (if pending \<noteq> [] \<and> last pending = CARRIAGE_RETURN then butlast pending else pending) in
      if length line = 0 then return []
      else case Option.bind (parse line) read_envelope of
          None \<Rightarrow> throw Invalid_Line
        | Some e \<Rightarrow> return [e])"

text \<open>The loop over the bytes of a chunk, split at each line feed.\<close>

function push_lines ::
    "(byte list \<Rightarrow> jval option) \<Rightarrow> nat \<Rightarrow> nat \<Rightarrow> byte list \<Rightarrow> byte list
     \<Rightarrow> (line_error, envelope list \<times> byte list) result" where
  "push_lines parse max_buffered max_frame pending input =
     (if LINE_FEED \<notin> set input then
        and_then (append_segment max_buffered max_frame pending input) (\<lambda>pending'. return ([], pending'))
      else
        and_then (append_segment max_buffered max_frame pending (takeWhile (\<lambda>b. b \<noteq> LINE_FEED) input)) (\<lambda>line.
        and_then (consume_line parse line) (\<lambda>es.
        and_then (push_lines parse max_buffered max_frame [] (tl (dropWhile (\<lambda>b. b \<noteq> LINE_FEED) input)))
          (\<lambda>(fs, pending'). return (es @ fs, pending')))))"
  by pat_completeness auto
termination
proof (relation "measure (\<lambda>(_, _, _, _, input). length input)", simp, clarsimp)
  fix input :: "byte list"
  assume "LINE_FEED \<in> set input"
  then have "dropWhile (\<lambda>b. b \<noteq> LINE_FEED) input \<noteq> []" by simp
  then have "length (tl (dropWhile (\<lambda>b. b \<noteq> LINE_FEED) input)) < length (dropWhile (\<lambda>b. b \<noteq> LINE_FEED) input)"
    by (cases "dropWhile (\<lambda>b. b \<noteq> LINE_FEED) input") simp_all
  also have "\<dots> \<le> length input" by (rule length_dropWhile_le)
  finally show "length (dropWhile (\<lambda>b. b \<noteq> LINE_FEED) input) - Suc 0 < length input" by simp
qed

declare push_lines.simps [simp del]

definition fail_line_decoder :: "line_decoder \<Rightarrow> line_decoder" where
  "fail_line_decoder d = d\<lparr>ld_failed := True, ld_pending := []\<rparr>"

definition push_line_chunk ::
    "(byte list \<Rightarrow> jval option) \<Rightarrow> byte list \<Rightarrow> line_decoder \<Rightarrow> (line_error, envelope list) result \<times> line_decoder" where
  "push_line_chunk parse chunk d =
     (if ld_failed d then (throw Line_Transport_Closed, d)
      else case push_lines parse (ld_max_buffered d) (ld_max_frame d) (ld_pending d) chunk of
          Inl e \<Rightarrow> (throw e, fail_line_decoder d)
        | Inr (es, pending) \<Rightarrow> (return es, d\<lparr>ld_pending := pending\<rparr>))"

definition finish_line_decoder ::
    "(byte list \<Rightarrow> jval option) \<Rightarrow> line_decoder \<Rightarrow> (line_error, envelope list) result \<times> line_decoder" where
  "finish_line_decoder parse d =
     (if ld_failed d then (throw Line_Transport_Closed, d)
      else if length (ld_pending d) = 0 then (return [], d)
      else case consume_line parse (ld_pending d) of
          Inl e \<Rightarrow> (throw e, fail_line_decoder d)
        | Inr es \<Rightarrow> (return es, d\<lparr>ld_pending := []\<rparr>))"

section \<open>The scan of a whole buffer\<close>

definition scan_lines ::
    "(byte list \<Rightarrow> jval option) \<Rightarrow> nat \<Rightarrow> nat \<Rightarrow> byte list \<Rightarrow> (line_error, envelope list \<times> byte list) result" where
  "scan_lines parse max_buffered max_frame bs = push_lines parse max_buffered max_frame [] bs"

lemma append_segment_le:
  assumes "max_frame \<le> max_buffered" "length pending \<le> max_frame"
  shows "append_segment max_buffered max_frame pending segment
    = (if max_frame < length pending + length segment then throw Line_Too_Large else return (pending @ segment))"
  using assms by (auto simp: append_segment_def Let_def)

lemma push_lines_no_feed:
  assumes "LINE_FEED \<notin> set input"
  shows "push_lines parse b m pending input = and_then (append_segment b m pending input) (\<lambda>p. return ([], p))"
  using assms by (simp add: push_lines.simps)

lemma first_line:
  assumes "x \<notin> set line"
  shows "takeWhile (\<lambda>b. b \<noteq> x) (line @ x # rest) = line" "tl (dropWhile (\<lambda>b. b \<noteq> x) (line @ x # rest)) = rest"
  using assms by (induction line) auto

lemma push_lines_line:
  assumes "LINE_FEED \<notin> set line"
  shows "push_lines parse b m pending (line @ LINE_FEED # rest)
    = and_then (append_segment b m pending line) (\<lambda>line'.
      and_then (consume_line parse line') (\<lambda>es.
      and_then (push_lines parse b m [] rest) (\<lambda>(fs, p). return (es @ fs, p))))"
  by (subst push_lines.simps) (simp add: first_line [OF assms])

lemma push_lines_too_large:
  assumes "m \<le> b" "length pending \<le> m" "LINE_FEED \<notin> set input" "m < length pending + length input"
  shows "push_lines parse b m pending (input @ later) = throw Line_Too_Large"
proof (cases "LINE_FEED \<in> set later")
  case True
  then obtain line rest where "later = line @ LINE_FEED # rest" "LINE_FEED \<notin> set line"
    by (meson split_list_first)
  with assms push_lines_line [of "input @ line" parse b m pending rest] show ?thesis
    by (simp add: append_segment_le)
next
  case False
  with assms show ?thesis by (simp add: push_lines_no_feed append_segment_le)
qed

text \<open>Pending bytes are as good as bytes at the front of the chunk.\<close>

lemma push_lines_pending:
  assumes "m \<le> b" "length pending \<le> m" "LINE_FEED \<notin> set pending"
  shows "push_lines parse b m pending input = scan_lines parse b m (pending @ input)"
proof -
  have seg: "append_segment b m pending s = append_segment b m [] (pending @ s)" for s
    using assms by (simp add: append_segment_le)
  show ?thesis
  proof (cases "LINE_FEED \<in> set input")
    case True
    then obtain line rest where "input = line @ LINE_FEED # rest" "LINE_FEED \<notin> set line"
      by (meson split_list_first)
    with assms(3) push_lines_line [of line parse b m pending rest] push_lines_line [of "pending @ line" parse b m "[]" rest]
    show ?thesis by (simp add: scan_lines_def seg)
  next
    case False
    with assms(3) show ?thesis by (simp add: scan_lines_def push_lines_no_feed seg)
  qed
qed

lemma push_lines_append:
  assumes "m \<le> b"
  shows "length pending \<le> m \<Longrightarrow> LINE_FEED \<notin> set pending \<Longrightarrow>
    push_lines parse b m pending (input @ later)
    = continue_scan (scan_lines parse b m) later (push_lines parse b m pending input)"
proof (induction "length input" arbitrary: pending input rule: less_induct)
  case less
  show ?case
  proof (cases "LINE_FEED \<in> set input")
    case True
    then obtain line rest where input: "input = line @ LINE_FEED # rest" "LINE_FEED \<notin> set line"
      by (meson split_list_first)
    note lines = push_lines_line [OF input(2), of parse b m pending]
    show ?thesis
    proof (cases "and_then (append_segment b m pending line) (consume_line parse)")
      case (Inl e)
      then show ?thesis using input(1) lines by (auto simp: and_then_def split: sum.splits)
    next
      case (Inr es)
      then obtain line' where line': "append_segment b m pending line = Inr line'" "consume_line parse line' = Inr es"
        by (auto simp: and_then_eq_Inr)
      have "push_lines parse b m [] (rest @ later)
          = continue_scan (scan_lines parse b m) later (push_lines parse b m [] rest)"
        by (rule less.hyps) (simp_all add: input(1))
      then show ?thesis
        using input(1) line' lines
        by (cases "push_lines parse b m [] rest") (auto simp: and_then_def split: sum.splits prod.splits)
    qed
  next
    case False
    show ?thesis
    proof (cases "m < length pending + length input")
      case True
      with less.prems False assms show ?thesis
        by (simp add: push_lines_too_large push_lines_no_feed append_segment_le)
    next
      case fits: False
      have "push_lines parse b m pending (input @ later) = scan_lines parse b m (pending @ input @ later)"
        using less.prems assms by (simp add: push_lines_pending)
      moreover have "push_lines parse b m pending input = Inr ([], pending @ input)"
        using less.prems False fits assms by (simp add: push_lines_no_feed append_segment_le)
      ultimately show ?thesis by (cases "scan_lines parse b m (pending @ input @ later)") auto
    qed
  qed
qed

text \<open>What a push leaves pending is less than a line.\<close>

lemma push_lines_rest:
  assumes "m \<le> b"
  shows "length pending \<le> m \<Longrightarrow> LINE_FEED \<notin> set pending \<Longrightarrow>
    push_lines parse b m pending input = Inr (es, rest) \<Longrightarrow> length rest \<le> m \<and> LINE_FEED \<notin> set rest"
proof (induction "length input" arbitrary: pending input es rule: less_induct)
  case less
  show ?case
  proof (cases "LINE_FEED \<in> set input")
    case True
    then obtain line input' where input: "input = line @ LINE_FEED # input'" "LINE_FEED \<notin> set line"
      by (meson split_list_first)
    from less.prems(3) obtain fs where "push_lines parse b m [] input' = Inr (fs, rest)"
      unfolding input(1) push_lines_line [OF input(2)] by (auto simp: and_then_eq_Inr)
    then show ?thesis by (rule less.hyps [rotated 3]) (simp_all add: input(1))
  next
    case False
    with less.prems assms show ?thesis
      by (auto simp: push_lines_no_feed append_segment_le and_then_eq_Inr split: if_splits)
  qed
qed

lemma scan_lines_settled:
  assumes "m \<le> b" "scan_lines parse b m bs = Inr (es, rest)"
  shows "scan_lines parse b m rest = Inr ([], rest)"
  using push_lines_rest [OF assms(1), of "[]" parse bs es rest] assms
  by (simp add: scan_lines_def push_lines_no_feed append_segment_le)

text \<open>The scanner of a decoder with sound limits.\<close>

definition line_scan :: "(byte list \<Rightarrow> jval option) \<Rightarrow> nat \<Rightarrow> nat \<Rightarrow> byte list \<Rightarrow> (line_error, envelope list \<times> byte list) result" where
  "line_scan parse m extra = scan_lines parse (m + extra) m"

interpretation lines: chunk_scanner "line_scan parse m extra" for parse m extra
proof unfold_locales
  show "line_scan parse m extra (bs @ later) = continue_scan (line_scan parse m extra) later (line_scan parse m extra bs)"
    for bs later
    using push_lines_append [of m "m + extra" "[]" parse bs later] by (simp add: line_scan_def scan_lines_def)
  show "line_scan parse m extra bs = Inr (fs, rest) \<Longrightarrow> line_scan parse m extra rest = Inr ([], rest)"
    for bs fs rest
    using scan_lines_settled [of m "m + extra"] by (simp add: line_scan_def)
qed

section \<open>The decoder\<close>

text \<open>The pending bytes of an open decoder are part of a line, within the limit.\<close>

definition line_decoder_ok :: "line_decoder \<Rightarrow> bool" where
  "line_decoder_ok d \<longleftrightarrow>
     \<not> ld_failed d \<and> ld_max_frame d \<le> ld_max_buffered d \<and> length (ld_pending d) \<le> ld_max_frame d
     \<and> LINE_FEED \<notin> set (ld_pending d)"

fun push_line_chunks ::
    "(byte list \<Rightarrow> jval option) \<Rightarrow> byte list list \<Rightarrow> line_decoder \<Rightarrow> (line_error, envelope list) result \<times> line_decoder" where
  "push_line_chunks parse [] d = (return [], d)"
| "push_line_chunks parse (c # cs) d =
     (case push_line_chunk parse c d of
        (Inl e, d') \<Rightarrow> (throw e, d')
      | (Inr es, d') \<Rightarrow>
          (case push_line_chunks parse cs d' of
             (Inl e, d'') \<Rightarrow> (throw e, d'')
           | (Inr fs, d'') \<Rightarrow> (return (es @ fs), d'')))"

definition settle_lines ::
    "line_decoder \<Rightarrow> (line_error, envelope list \<times> byte list) result \<Rightarrow> (line_error, envelope list) result \<times> line_decoder" where
  "settle_lines d r =
     (case r of Inl e \<Rightarrow> (throw e, fail_line_decoder d) | Inr (es, rest) \<Rightarrow> (return es, d\<lparr>ld_pending := rest\<rparr>))"

abbreviation scan_of :: "(byte list \<Rightarrow> jval option) \<Rightarrow> line_decoder \<Rightarrow> byte list \<Rightarrow> (line_error, envelope list \<times> byte list) result" where
  "scan_of parse d \<equiv> line_scan parse (ld_max_frame d) (ld_max_buffered d - ld_max_frame d)"

lemma push_line_chunk_scan:
  assumes "line_decoder_ok d"
  shows "push_line_chunk parse c d = settle_lines d (scan_of parse d (ld_pending d @ c))"
  using assms push_lines_pending [of "ld_max_frame d" "ld_max_buffered d" "ld_pending d" parse c]
  by (simp add: push_line_chunk_def settle_lines_def line_decoder_ok_def line_scan_def)

lemma pushed_line_ok:
  assumes "line_decoder_ok d" "scan_of parse d (ld_pending d @ c) = Inr (es, rest)"
  shows "line_decoder_ok (d\<lparr>ld_pending := rest\<rparr>)"
  using assms push_lines_rest [of "ld_max_frame d" "ld_max_buffered d" "[]" parse "ld_pending d @ c" es rest]
  by (simp add: line_decoder_ok_def line_scan_def scan_lines_def)

lemma push_line_chunks_feed:
  assumes "line_decoder_ok d"
  shows "push_line_chunks parse cs d = settle_lines d (feed (scan_of parse d) cs (ld_pending d))"
  using assms
proof (induction cs arbitrary: d)
  case (Cons c cs)
  note push = push_line_chunk_scan [OF Cons.prems, of parse c]
  show ?case
  proof (cases "scan_of parse d (ld_pending d @ c)")
    case (Inr r)
    then obtain es rest where r: "scan_of parse d (ld_pending d @ c) = Inr (es, rest)" by (cases r) simp
    from Cons.IH [OF pushed_line_ok [OF Cons.prems r]] r push show ?thesis
      by (auto simp: settle_lines_def fail_line_decoder_def and_then_def split: sum.splits prod.splits)
  qed (use push in \<open>simp add: settle_lines_def\<close>)
qed (simp add: settle_lines_def)

lemma line_decoder_settled: "line_decoder_ok d \<Longrightarrow> scan_of parse d (ld_pending d) = Inr ([], ld_pending d)"
  by (simp add: line_decoder_ok_def line_scan_def scan_lines_def push_lines_no_feed append_segment_le)

lemma push_line_chunks_scan:
  assumes "line_decoder_ok d"
  shows "push_line_chunks parse cs d = settle_lines d (scan_of parse d (ld_pending d @ concat cs))"
  using push_line_chunks_feed [OF assms, of parse cs] lines.feed_concat [OF line_decoder_settled [OF assms], where cs = cs]
  by simp

lemma new_line_decoder_ok: "new_line_decoder b f = Some d \<Longrightarrow> line_decoder_ok d \<and> ld_pending d = []"
  by (auto simp: new_line_decoder_def line_decoder_ok_def split: jnum.splits if_splits)

end
