(* ===== verification/Line_Writer.thy ===== *)
theory Line_Writer
  imports Line_Decoder Write_Queue
begin

text \<open>
  The writer of newline-delimited JSON (\<open>apps/bridge/src/transport/jsonl-writer.ts\<close>): its limits
  and its \<open>write\<close> over the shared queue. Unlike the frame writer, a message that cannot be taken
  is rejected without harm to the writer. \<open>stringify\<close> stands for \<open>JSON.stringify\<close> and the UTF-8
  encoding.
\<close>

type_synonym line_writer = "(line_error, envelope) writer"

definition new_line_writer :: "jnum \<Rightarrow> jnum \<Rightarrow> jnum \<Rightarrow> line_writer option" where
  "new_line_writer max_frame max_bytes max_messages =
     (case (max_frame, max_bytes, max_messages) of
        (NInt f, NInt b, NInt m) \<Rightarrow>
          if \<not> is_safe_integer (NInt f) \<or> f < 1 \<or> \<not> is_safe_integer (NInt b) \<or> b \<le> f
             \<or> \<not> is_safe_integer (NInt m) \<or> m < 1
          then None
          else Some \<lparr>wr_max_frame = nat f, wr_max_queued_bytes = nat b, wr_max_queued_messages = nat m,
                     wr_failed = None, wr_phase = Pump_Idle, wr_queue = [], wr_queued_bytes = 0,
                     wr_next_id = 0, wr_outcomes = [], wr_output = [], wr_accepted = []\<rparr>
      | _ \<Rightarrow> None)"

text \<open>The parsed message and its line.\<close>

definition encode_line ::
    "(jval \<Rightarrow> byte list) \<Rightarrow> nat \<Rightarrow> jval \<Rightarrow> (line_error, envelope \<times> byte list) result" where
  "encode_line stringify max_frame v =
     (case read_envelope v of
        None \<Rightarrow> throw Invalid_Line
      | Some r \<Rightarrow>
          let frame = stringify (JObj r) @ [LINE_FEED] in
          if int max_frame < int (length frame) - 1 then throw Line_Too_Large
          else return (r, frame))"

definition write_line ::
    "(jval \<Rightarrow> byte list) \<Rightarrow> bool \<Rightarrow> bool \<Rightarrow> jval \<Rightarrow> line_writer \<Rightarrow> line_writer" where
  "write_line stringify destroyed accepted v w =
     (case wr_failed w of
        Some e \<Rightarrow> reject_write e w
      | None \<Rightarrow>
        if destroyed then reject_write Line_Transport_Closed w
        else case encode_line stringify (wr_max_frame w) v of
            Inl e \<Rightarrow> reject_write e w
          | Inr (r, frame) \<Rightarrow>
              if wr_max_queued_messages w \<le> length (wr_queue w)
                 \<or> int (wr_max_queued_bytes w) < wr_queued_bytes w + int (length frame)
              then reject_write Line_Queue_Overflow w
              else pump_writer accepted (enqueue_frame r frame w))"

definition line_run :: "(jval \<Rightarrow> byte list) \<Rightarrow> jval writer_event list \<Rightarrow> line_writer \<Rightarrow> line_writer" where
  "line_run stringify es w = queue_run Line_Write_Failed Line_Transport_Closed (write_line stringify) es w"

section \<open>Accounting\<close>

text \<open>What the queue holds for a message.\<close>

definition line_bytes :: "(jval \<Rightarrow> byte list) \<Rightarrow> nat \<Rightarrow> envelope \<Rightarrow> byte list \<Rightarrow> bool" where
  "line_bytes stringify m r bs \<longleftrightarrow>
     app_server_envelope r \<and> bs = stringify (JObj r) @ [LINE_FEED] \<and> length (stringify (JObj r)) \<le> m"

lemma encode_line_bytes: "encode_line stringify m v = Inr (r, bs) \<Longrightarrow> line_bytes stringify m r bs"
  by (auto simp: encode_line_def line_bytes_def read_envelope_def Let_def bind_eq_Some_conv
      split: option.splits if_splits)

lemma write_line_inv:
  assumes inv: "writer_inv (line_bytes stringify (wr_max_frame w)) w"
  shows "writer_inv (line_bytes stringify (wr_max_frame w)) (write_line stringify destroyed accepted v w)"
proof (cases "wr_failed w = None \<and> \<not> destroyed")
  case True
  show ?thesis
  proof (cases "encode_line stringify (wr_max_frame w) v")
    case (Inl e)
    with True reject_write_inv [OF inv] show ?thesis by (simp add: write_line_def)
  next
    case (Inr x)
    then obtain r bs where x: "encode_line stringify (wr_max_frame w) v = Inr (r, bs)" by (cases x) simp
    show ?thesis
    proof (cases "wr_max_queued_messages w \<le> length (wr_queue w)
        \<or> int (wr_max_queued_bytes w) < wr_queued_bytes w + int (length bs)")
      case full: True
      with True x reject_write_inv [OF inv] show ?thesis by (simp add: write_line_def)
    next
      case False
      then have room: "length (wr_queue w) < wr_max_queued_messages w"
        "wr_queued_bytes w + int (length bs) \<le> int (wr_max_queued_bytes w)" by linarith+
      from True have "wr_failed w = None" ..
      from enqueue_inv [OF inv this encode_line_bytes [OF x] room, of accepted] show ?thesis
        using True x False by (simp add: write_line_def)
    qed
  qed
next
  case False
  with reject_write_inv [OF inv] show ?thesis by (auto simp: write_line_def split: option.splits)
qed

lemma write_line_limits: "same_limits (write_line stringify destroyed accepted v w) w"
  by (auto simp: write_line_def intro: pump_enqueued_limits split: option.split sum.split)
    (simp_all add: reject_write_def same_limits_def)

interpretation line: queued_writer "line_bytes stringify m" "\<lambda>w. wr_max_frame w = m" "write_line stringify"
    Line_Write_Failed Line_Transport_Closed for stringify m
proof unfold_locales
  show "same_limits (write_line stringify destroyed accepted v w) w" for destroyed accepted v w
    by (rule write_line_limits)
qed (auto intro: write_line_inv simp: same_limits_def)

lemma new_line_writer_inv: "new_line_writer f b m = Some w \<Longrightarrow> writer_inv P w"
  by (auto simp: new_line_writer_def writer_inv_def queue_inv_def promise_inv_def promise_ids_def output_inv_def
      unstarted_def split: jnum.splits if_splits)

end
