(* ===== verification/Line_Properties.thy ===== *)
theory Line_Properties
  imports Line_Writer
begin

text \<open>
  The properties of the newline-delimited stream: chunk boundaries do not matter, and what one end
  writes the other end reads.
\<close>

lemma push_lines_no_overflow:
  assumes "m \<le> b"
  shows "length pending \<le> m \<Longrightarrow> push_lines parse b m pending input \<noteq> Inl Line_Buffer_Overflow"
proof (induction "length input" arbitrary: pending input rule: less_induct)
  case less
  show ?case
  proof (cases "LINE_FEED \<in> set input")
    case True
    then obtain line rest where input: "input = line @ LINE_FEED # rest" "LINE_FEED \<notin> set line"
      by (meson split_list_first)
    have "push_lines parse b m [] rest \<noteq> Inl Line_Buffer_Overflow" by (rule less.hyps) (simp_all add: input)
    moreover have "consume_line parse p \<noteq> Inl Line_Buffer_Overflow" for p
      by (simp add: consume_line_def Let_def split: option.split)
    ultimately show ?thesis
      using less.prems assms unfolding input(1) push_lines_line [OF input(2)]
      by (auto simp: and_then_eq_Inl append_segment_le split: if_splits)
  next
    case False
    with less.prems assms show ?thesis by (simp add: push_lines_no_feed append_segment_le)
  qed
qed

text \<open>
  How the line stream is cut into chunks does not matter: two chunkings of the same bytes give
  a new line decoder the same messages or the same error and the same state, and since the buffer
  limit is at least the line limit the buffer-overflow error is never the outcome.
\<close>

theorem line_chunks_irrelevant:
  assumes "new_line_decoder b f = Some d" and "concat cs = concat cs'"
  shows "push_line_chunks parse cs d = push_line_chunks parse cs' d
    \<and> fst (push_line_chunks parse cs d) \<noteq> Inl Line_Buffer_Overflow"
proof -
  have ok: "line_decoder_ok d" using new_line_decoder_ok [OF assms(1)] ..
  have "scan_of parse d bs \<noteq> Inl Line_Buffer_Overflow" for bs
    using ok push_lines_no_overflow [of "ld_max_frame d" "ld_max_buffered d" "[]" parse bs]
    by (simp add: line_decoder_ok_def line_scan_def scan_lines_def)
  then show ?thesis
    using assms(2) by (auto simp: push_line_chunks_scan [OF ok] settle_lines_def split: sum.split)
qed

definition sample_message :: envelope where
  "sample_message = [(js ''method'', JStr (js ''initialized''))]"

definition sample_text :: "jval \<Rightarrow> byte list" where
  "sample_text v = (if v = JObj sample_message then [123, 125] else [])"

definition sample_read :: "byte list \<Rightarrow> jval option" where
  "sample_read bs = (if bs = [123, 125] then Some (JObj sample_message) else None)"

definition sample_lines :: line_decoder where
  "sample_lines = \<lparr>ld_max_buffered = 8, ld_max_frame = 4, ld_failed = False, ld_pending = []\<rparr>"

lemma sample_lines_new: "new_line_decoder (NInt 8) (NInt 4) = Some sample_lines"
  by (simp add: new_line_decoder_def sample_lines_def)

lemma sample_message_ok: "app_server_envelope sample_message"
  by code_simp

theorem line_chunks_irrelevant_witness:
  "push_line_chunks sample_read [[123], [125, 10, 123]] sample_lines
   = push_line_chunks sample_read [[123, 125, 10], [], [123]] sample_lines"
proof -
  have "concat [[123], [125, 10, 123]] = concat [[123, 125, 10], [], [123 :: byte]]" by simp
  from line_chunks_irrelevant [OF sample_lines_new this] show ?thesis ..
qed

section \<open>End to end\<close>

text \<open>
  What \<open>JSON.stringify\<close> writes for a message is a nonempty text without a line feed or a final
  carriage return, and \<open>JSON.parse\<close> reads it back.
\<close>

definition json_line :: "(jval \<Rightarrow> byte list) \<Rightarrow> (byte list \<Rightarrow> jval option) \<Rightarrow> envelope \<Rightarrow> bool" where
  "json_line stringify parse r \<longleftrightarrow>
     stringify (JObj r) \<noteq> [] \<and> LINE_FEED \<notin> set (stringify (JObj r))
     \<and> last (stringify (JObj r)) \<noteq> CARRIAGE_RETURN \<and> parse (stringify (JObj r)) = Some (JObj r)"

lemma scan_written_lines:
  assumes "m' \<le> m" "\<forall>(i, r, bs) \<in> set xs. line_bytes stringify m' r bs \<and> json_line stringify parse r"
  shows "line_scan parse m extra (concat (map (\<lambda>(_, _, bs). bs) xs)) = Inr (map (\<lambda>(_, r, _). r) xs, [])"
  using assms(2)
proof (induction xs)
  case Nil
  show ?case by (simp add: line_scan_def scan_lines_def push_lines_no_feed append_segment_le)
next
  case (Cons x xs)
  obtain i r bs where x: "x = (i, r, bs)" by (cases x)
  let ?text = "stringify (JObj r)"
  from Cons.prems x have
    line: "bs = ?text @ [LINE_FEED]" "length ?text \<le> m'" "app_server_envelope r" "json_line stringify parse r"
    by (auto simp: line_bytes_def)
  then have plain: "LINE_FEED \<notin> set ?text" "?text \<noteq> []" by (simp_all add: json_line_def)
  have "consume_line parse ?text = Inr [r]"
    using line(3,4) by (simp add: consume_line_def json_line_def read_envelope_def)
  with Cons line(1,2) assms(1) push_lines_line [OF plain(1), of parse "m + extra" m "[]"] x show ?case
    by (simp add: line_scan_def scan_lines_def append_segment_le)
qed

text \<open>
  What the line writer writes the line decoder reads: after any sequence of writes, refused
  messages, callbacks, failures and closes, a decoder with no smaller line limit that gets the bytes
  the writer has given to its stream, cut anyhow, returns exactly the messages of the writes taken,
  in order, and keeps nothing back, provided the text of each message is a JSON line that parses
  back.
\<close>

theorem line_transport_delivers:
  assumes "new_line_writer (NInt mw) mb mm = Some w0" and "w = line_run stringify es w0"
    and "new_line_decoder b (NInt f) = Some d" and "mw \<le> f"
    and "\<forall>(i, r, bs) \<in> set (wr_accepted w). json_line stringify parse r"
    and "concat cs = concat (wr_output w)"
  shows "push_line_chunks parse cs d
    = (return (map (\<lambda>(_, r, _). r) (take (length (wr_output w)) (wr_accepted w))), d)"
proof -
  note ok = new_line_decoder_ok [OF assms(3)]
  let ?xs = "take (length (wr_output w)) (wr_accepted w)"
  have limit: "wr_max_frame w0 = nat mw" using assms(1) by (auto simp: new_line_writer_def split: jnum.splits if_splits)
  have inv: "output_inv (line_bytes stringify (nat mw)) w"
    using line.run_inv [OF refl new_line_writer_inv [OF assms(1)], of stringify es]
    by (simp add: writer_inv_def assms(2) line_run_def limit)
  have written: "wr_output w = map (\<lambda>(_, _, bs). bs) ?xs"
    using inv by (auto simp: output_inv_def prefix_def take_map [symmetric])
  have messages: "\<forall>(i, r, bs) \<in> set ?xs. line_bytes stringify (nat mw) r bs \<and> json_line stringify parse r"
    using inv assms(5) by (fastforce simp: output_inv_def dest: in_set_takeD)
  have "nat mw \<le> ld_max_frame d"
    using assms(3,4) by (auto simp: new_line_decoder_def nat_mono split: jnum.splits if_splits)
  from scan_written_lines [OF this messages]
  have "scan_of parse d (concat (wr_output w)) = Inr (map (\<lambda>(_, r, _). r) ?xs, [])"
    by (simp only: written [symmetric])
  with push_line_chunks_scan [of d parse cs] ok assms(6) show ?thesis by (simp add: settle_lines_def)
qed

definition sample_line_writer :: line_writer where
  "sample_line_writer = \<lparr>wr_max_frame = 4, wr_max_queued_bytes = 16, wr_max_queued_messages = 2,
     wr_failed = None, wr_phase = Pump_Idle, wr_queue = [], wr_queued_bytes = 0, wr_next_id = 0,
     wr_outcomes = [], wr_output = [], wr_accepted = []\<rparr>"

theorem line_transport_delivers_witness:
  "push_line_chunks sample_read [[123], [125, 10]] sample_lines = (return [sample_message], sample_lines)"
proof -
  let ?es = "[W_Write False True JNull, W_Write False True (JObj sample_message)]"
  let ?w = "line_run sample_text ?es sample_line_writer"
  have writer: "new_line_writer (NInt 4) (NInt 16) (NInt 2) = Some sample_line_writer"
    by (simp add: new_line_writer_def sample_line_writer_def)
  have run: "wr_output ?w = [[123, 125, 10]]" "wr_accepted ?w = [(1, sample_message, [123, 125, 10])]"
    using sample_message_ok
    by (simp_all add: line_run_def queue_run_def write_line_def sample_line_writer_def encode_line_def
        read_envelope_def sample_text_def LINE_FEED_def reject_write_def pump_writer_def enqueue_frame_def
        pump_loop_def start_write_frame_def)
  have json: "\<forall>(i, r, bs) \<in> set (wr_accepted ?w). json_line sample_text sample_read r"
    unfolding run by (simp add: json_line_def sample_text_def sample_read_def LINE_FEED_def CARRIAGE_RETURN_def)
  have "concat [[123], [125, 10 :: byte]] = concat (wr_output ?w)" unfolding run by simp
  from line_transport_delivers [OF writer refl sample_lines_new _ json this] show ?thesis
    unfolding run by simp
qed

end
