(* ===== verification/Facade_Router.thy ===== *)
theory Facade_Router
  imports App_Server_Envelope Thread_Router Model_Catalog
begin

text \<open>
  The facade between the Codex client and the app server
  (\<open>apps/bridge/src/facade/app-server-router.ts\<close>): it owns the client's requests until they are
  answered and lets the model catalog and the thread router decide what each message becomes.
  Messages are envelopes the transport has parsed. What the clock and the entropy source of the
  catalog answer during a call is an argument of the call; \<open>onInitializeComplete\<close> is counted.
\<close>

section \<open>State\<close>

datatype dispatch = Forward envelope | Reply envelope | Drop

datatype owned_request =
    Owned_Initialize
  | Owned_Model_List list_context
  | Owned_Passthrough
  | Owned_Lifecycle

record facade =
  fa_catalog :: model_catalog
  fa_max_owned :: nat
  fa_owned :: "(jstr, owned_request) jsmap"
  fa_router :: thread_router
  fa_initialized :: nat

record catalog_inputs =
  ci_read_clock :: jnum
  ci_create_clock :: jnum
  ci_random :: "nat \<Rightarrow> jval"

definition DEFAULT_MAX_OWNED_REQUESTS :: nat where "DEFAULT_MAX_OWNED_REQUESTS = 512"
definition MAX_ROUTER_SCAN_NODES :: nat where "MAX_ROUTER_SCAN_NODES = 16384"

definition CONFIG_MUTATION_METHODS :: "jstr list" where
  "CONFIG_MUTATION_METHODS = [js ''config/batchWrite'', js ''config/value/write'']"

definition UNSUPPORTED_WEB_METHODS :: "jstr list" where
  "UNSUPPORTED_WEB_METHODS = [js ''turn/steer'']"

definition REQUEST_ONLY_METHODS :: "jstr list" where
  "REQUEST_ONLY_METHODS =
     [js ''initialize'', js ''model/list'', js ''thread/fork'', js ''thread/resume'', js ''thread/start'']"

text \<open>The constructor; \<open>None\<close> is its \<open>RangeError\<close>.\<close>

definition new_facade :: "jnum option \<Rightarrow> model_catalog \<Rightarrow> thread_router \<Rightarrow> facade option" where
  "new_facade max_owned catalog router =
     (let cap = (case max_owned of None \<Rightarrow> NInt (int DEFAULT_MAX_OWNED_REQUESTS) | Some n \<Rightarrow> n) in
      case cap of
        NInt n \<Rightarrow>
          if \<not> is_safe_integer cap \<or> n < 1 then None
          else Some \<lparr>fa_catalog = catalog, fa_max_owned = nat n, fa_owned = [], fa_router = router,
                     fa_initialized = 0\<rparr>
      | _ \<Rightarrow> None)"

section \<open>Errors\<close>

text \<open>What is thrown inside the facade; \<open>Schema_Error\<close> is any error of another class.\<close>

datatype facade_error =
    Thread_Error routing_error
  | Catalog_Error catalog_error
  | Facade_Error jstr
  | Schema_Error

fun routing_error_code :: "routing_error \<Rightarrow> string" where
  "routing_error_code Invalid_Configuration = ''routing.invalid_configuration''"
| "routing_error_code Invalid_Params = ''routing.invalid_params''"
| "routing_error_code Pending_Capacity = ''routing.pending_capacity''"
| "routing_error_code Pinned_Selection_Mismatch = ''routing.pinned_selection_mismatch''"
| "routing_error_code Provider_Switch = ''routing.provider_switch''"
| "routing_error_code Request_Id_Conflict = ''routing.request_id_conflict''"
| "routing_error_code Route_Conflict = ''routing.route_conflict''"
| "routing_error_code Thread_Capacity = ''routing.thread_capacity''"
| "routing_error_code Thread_Route_Blocked = ''routing.thread_route_blocked''"
| "routing_error_code Thread_Route_Pending = ''routing.thread_route_pending''"
| "routing_error_code Thread_Route_Unknown = ''routing.thread_route_unknown''"
| "routing_error_code Web_Derived_Thread_Unsupported = ''routing.web_derived_thread_unsupported''"
| "routing_error_code Web_Method_Unsupported = ''routing.web_method_unsupported''"
| "routing_error_code Web_Model_Unavailable = ''routing.web_model_unavailable''"
| "routing_error_code Web_Realtime_Unsupported = ''routing.web_realtime_unsupported''"
| "routing_error_code Web_Review_Unsupported = ''routing.web_review_unsupported''"

fun routing_error_message :: "routing_error \<Rightarrow> string" where
  "routing_error_message Invalid_Configuration = ''The routing configuration is invalid.''"
| "routing_error_message Invalid_Params = ''The routing request parameters are invalid.''"
| "routing_error_message Pending_Capacity = ''The pending routing request capacity has been reached.''"
| "routing_error_message Pinned_Selection_Mismatch =
     ''The selected model or reasoning effort differs from the thread's pinned selection. Start a new thread to change it.''"
| "routing_error_message Provider_Switch =
     ''The selected model uses a different provider than the thread. Start a new thread to switch providers.''"
| "routing_error_message Request_Id_Conflict =
     ''A pending routing request already uses this identifier and direction.''"
| "routing_error_message Route_Conflict = ''The completed thread conflicts with an existing pinned route.''"
| "routing_error_message Thread_Capacity = ''The pinned thread route capacity has been reached.''"
| "routing_error_message Thread_Route_Blocked =
     ''The thread route was blocked after an upstream identity check failed.''"
| "routing_error_message Thread_Route_Pending =
     ''The thread route is awaiting lifecycle identity validation.''"
| "routing_error_message Thread_Route_Unknown =
     ''The thread does not have a pinned provider route. Start a new thread to use a Web model.''"
| "routing_error_message Web_Derived_Thread_Unsupported =
     ''Derived threads are not supported for Web-backed threads in this release.''"
| "routing_error_message Web_Method_Unsupported =
     ''This operation is not supported for Web-backed threads in this release.''"
| "routing_error_message Web_Model_Unavailable =
     ''The selected Web model is not available. Refresh the model catalog and select an available Web model.''"
| "routing_error_message Web_Realtime_Unsupported =
     ''Realtime sessions are not supported for Web-backed threads in this release.''"
| "routing_error_message Web_Review_Unsupported =
     ''Reviews are not supported for Web-backed threads in this release.''"

fun catalog_error_code :: "catalog_error \<Rightarrow> string" where
  "catalog_error_code Cursor_Expired = ''cursor_expired''"
| "catalog_error_code Cursor_Generation_Failed = ''cursor_generation_failed''"
| "catalog_error_code Catalog_Invalid_Configuration = ''invalid_configuration''"
| "catalog_error_code Invalid_Cursor = ''invalid_cursor''"
| "catalog_error_code Invalid_Limit = ''invalid_limit''"
| "catalog_error_code Invalid_Model = ''invalid_model''"
| "catalog_error_code Invalid_Model_Page = ''invalid_model_page''"
| "catalog_error_code Model_Collision = ''model_collision''"

fun error_code :: "facade_error \<Rightarrow> jstr" where
  "error_code (Thread_Error e) = js (routing_error_code e)"
| "error_code (Catalog_Error e) = js (catalog_error_code e)"
| "error_code (Facade_Error code) = code"
| "error_code Schema_Error = js ''bridge.internal''"

definition failure_response :: "int \<Rightarrow> jstr \<Rightarrow> jstr \<Rightarrow> jval \<Rightarrow> envelope" where
  "failure_response rpc_code bridge_code message request_id =
     [(js ''error'', JObj
        [(js ''code'', JNum (NInt rpc_code)),
         (js ''data'', JObj [(js ''bridgeCode'', JStr bridge_code)]),
         (js ''message'', JStr message)]),
      (js ''id'', request_id)]"

definition routing_failure :: "jval \<Rightarrow> facade_error \<Rightarrow> envelope" where
  "routing_failure request_id e =
     failure_response (-32602) (error_code e)
       (case e of
          Thread_Error r \<Rightarrow> js (routing_error_message r)
        | _ \<Rightarrow> js ''GPTSessionBridge rejected the request parameters.'') request_id"

definition internal_failure :: "jval \<Rightarrow> jstr \<Rightarrow> envelope" where
  "internal_failure request_id code =
     failure_response (-32603) code (js ''GPTSessionBridge could not validate the upstream response.'') request_id"

text \<open>The throws of the components, as throws of the facade.\<close>

definition lift_error :: "('e \<Rightarrow> 'f) \<Rightarrow> ('e, 'a) result \<Rightarrow> ('f, 'a) result" where
  "lift_error f r = (case r of Inl e \<Rightarrow> Inl (f e) | Inr x \<Rightarrow> Inr x)"

lemma lift_error_simps [simp]:
  "lift_error f (Inl e) = Inl (f e)"
  "lift_error f (Inr x) = Inr x"
  by (simp_all add: lift_error_def)

lemma lift_error_Inr [outcome_simps]: "lift_error f r = Inr x \<longleftrightarrow> r = Inr x"
  by (cases r) simp_all

section \<open>Reading messages\<close>

definition is_request :: "envelope \<Rightarrow> bool" where
  "is_request e \<longleftrightarrow> has_key ''method'' e \<and> has_key ''id'' e"

definition is_notification :: "envelope \<Rightarrow> bool" where
  "is_notification e \<longleftrightarrow> has_key ''method'' e \<and> \<not> has_key ''id'' e"

definition is_response :: "envelope \<Rightarrow> bool" where
  "is_response e \<longleftrightarrow> \<not> has_key ''method'' e \<and> has_key ''id'' e"

text \<open>\<open>envelope.method\<close>, which the schema has found to be a string.\<close>

definition method_of :: "envelope \<Rightarrow> jstr" where
  "method_of e = (case field e ''method'' of JStr m \<Rightarrow> m | _ \<Rightarrow> [])"

definition lifecycle_method_of :: "jstr \<Rightarrow> lifecycle_method option" where
  "lifecycle_method_of m =
     (if m = js ''thread/fork'' then Some Thread_Fork
      else if m = js ''thread/resume'' then Some Thread_Resume
      else if m = js ''thread/start'' then Some Thread_Start
      else None)"

definition is_thread_bound_method :: "jstr \<Rightarrow> bool" where
  "is_thread_bound_method m \<longleftrightarrow> m = js ''thread/settings/update'' \<or> m = js ''turn/start''"

definition request_key :: "jval \<Rightarrow> (facade_error, jstr) result" where
  "request_key request_id = lift_error Thread_Error (serialize_directional_request_id Client_To_Server request_id)"

text \<open>\<open>withParams\<close> and \<open>withNotificationParams\<close>: the message with other parameters, parsed again.\<close>

definition with_params_as :: "(data_record \<Rightarrow> bool) \<Rightarrow> envelope \<Rightarrow> jval \<Rightarrow> (facade_error, envelope) result" where
  "with_params_as schema e params =
     (if params = JUndef then
        (let candidate = delete_field (js ''params'') e
         in if schema candidate then return candidate else throw Schema_Error)
      else if \<not> is_json_value params then throw Schema_Error
      else let candidate = set_field ''params'' params e
        in if schema candidate then return candidate else throw Schema_Error)"

definition with_params :: "envelope \<Rightarrow> jval \<Rightarrow> (facade_error, envelope) result" where
  "with_params = with_params_as app_server_request"

definition with_notification_params :: "envelope \<Rightarrow> jval \<Rightarrow> (facade_error, envelope) result" where
  "with_notification_params = with_params_as app_server_notification"

definition read_model_list_request :: "jval \<Rightarrow> (facade_error, model_list_request) result" where
  "read_model_list_request v =
     (if is_nullish v then return \<lparr>lq_cursor = None, lq_include_hidden = None, lq_limit = None\<rparr>
      else case read_data_record v of
          None \<Rightarrow> throw (Facade_Error (js ''catalog.invalid_params''))
        | Some r \<Rightarrow>
            let cursor = field r ''cursor''; include_hidden = field r ''includeHidden'';
                limit = field r ''limit'' in
            and_then (reject_if (\<not> is_nullish cursor \<and> \<not> is_string_value cursor)
                        (Facade_Error (js ''catalog.invalid_cursor''))) (\<lambda>_.
            and_then (reject_if (\<not> is_nullish limit \<and> (case limit of JNum _ \<Rightarrow> False | _ \<Rightarrow> True))
                        (Facade_Error (js ''catalog.invalid_limit''))) (\<lambda>_.
            and_then (reject_if (\<not> is_nullish include_hidden \<and> (case include_hidden of JBool _ \<Rightarrow> False | _ \<Rightarrow> True))
                        (Facade_Error (js ''catalog.invalid_params''))) (\<lambda>_.
            return
              \<lparr>lq_cursor = (case cursor of JStr c \<Rightarrow> Some c | _ \<Rightarrow> None),
               lq_include_hidden = (case include_hidden of JBool b \<Rightarrow> Some b | _ \<Rightarrow> None),
               lq_limit = (case limit of JNum n \<Rightarrow> Some n | _ \<Rightarrow> None)\<rparr>))))"

section \<open>Scans\<close>

text \<open>
  The stack scan of \<open>containsPrivateRoute\<close> and \<open>assertNoReservedConfigMutation\<close> over every string
  and key of a value, the top of the stack first; \<open>None\<close> once more than the allowed number of
  values was looked at.
\<close>

function scan_texts :: "(jstr \<Rightarrow> bool) \<Rightarrow> nat \<Rightarrow> jval list \<Rightarrow> bool option" where
  "scan_texts bad inspected [] = Some False"
| "scan_texts bad inspected (current # stack) =
     (if MAX_ROUTER_SCAN_NODES < Suc inspected then None
      else case current of
          JStr str \<Rightarrow> if bad str then Some True else scan_texts bad (Suc inspected) stack
        | JArr vs \<Rightarrow> scan_texts bad (Suc inspected) (rev vs @ stack)
        | JObj r \<Rightarrow>
            if list_ex (\<lambda>(k, _). bad k) r then Some True
            else scan_texts bad (Suc inspected) (rev (map snd r) @ stack)
        | _ \<Rightarrow> scan_texts bad (Suc inspected) stack)"
  by pat_completeness auto
termination
  by (relation "measure (\<lambda>(bad, inspected, stack). MAX_ROUTER_SCAN_NODES - inspected)") auto

text \<open>\<open>value.replace(/\\([\s\S])/gu, "$1")\<close>\<close>

fun unescape :: "jstr \<Rightarrow> jstr" where
  "unescape (c # d # s) = (if c = 92 then d # unescape s else c # unescape (d # s))"
| "unescape s = s"

definition is_reserved_configuration_reference :: "jstr \<Rightarrow> bool" where
  "is_reserved_configuration_reference s \<longleftrightarrow>
     is_reserved_web_model_reference (JStr (unescape s))
     \<or> has_substring (map to_lower_unit (unescape s)) WEB_MODEL_PROVIDER_ID"

definition assert_no_reserved_config_mutation :: "jval \<Rightarrow> (facade_error, unit) result" where
  "assert_no_reserved_config_mutation v =
     reject_if (scan_texts is_reserved_configuration_reference 0 [v] \<noteq> Some False)
       (Facade_Error (js ''routing.reserved_configuration''))"

text \<open>\<open>containsPrivateRoute\<close>; \<open>None\<close> is its \<open>FacadeIntegrityError\<close>.\<close>

definition contains_private_route :: "jval \<Rightarrow> jstr \<Rightarrow> bool option" where
  "contains_private_route v provider_model = scan_texts (\<lambda>str. has_substring str provider_model) 0 [v]"

section \<open>Requests of the client\<close>

definition reserve_owned :: "jstr \<Rightarrow> owned_request \<Rightarrow> facade \<Rightarrow> (facade_error, facade) result" where
  "reserve_owned key value s =
     (if map_of (fa_owned s) key \<noteq> None then throw (Facade_Error (js ''routing.request_id_conflict''))
      else if fa_max_owned s \<le> length (fa_owned s) then throw (Facade_Error (js ''routing.pending_capacity''))
      else return (s\<lparr>fa_owned := AList.update key value (fa_owned s)\<rparr>))"

text \<open>The page of Web models as a value.\<close>

definition virtual_page_value :: "virtual_page \<Rightarrow> jval" where
  "virtual_page_value p =
     JObj [(js ''data'', JArr (map entry_value (vp_data p))), (js ''nextCursor'', nullable (vp_next_cursor p))]"

definition success_response :: "jval \<Rightarrow> jval \<Rightarrow> (facade_error, envelope) result" where
  "success_response request_id result =
     (if \<not> is_json_value result then throw Schema_Error
      else let candidate = [(js ''id'', request_id), (js ''result'', result)] in
        if app_server_success_response candidate then return candidate else throw Schema_Error)"

definition handle_model_list ::
    "catalog_inputs \<Rightarrow> envelope \<Rightarrow> jstr \<Rightarrow> facade \<Rightarrow> (facade_error, dispatch) result \<times> facade" where
  "handle_model_list inp request key s =
     (case read_model_list_request (field request ''params'') of
        Inl e \<Rightarrow> (throw e, s)
      | Inr q \<Rightarrow>
          (case prepare_list (ci_read_clock inp) (ci_create_clock inp) (ci_random inp) q (fa_catalog s) of
             (Inl e, c) \<Rightarrow> (throw (Catalog_Error e), s\<lparr>fa_catalog := c\<rparr>)
           | (Inr (Return_Virtual page), c) \<Rightarrow>
               (and_then (success_response (field request ''id'') (virtual_page_value page)) (\<lambda>e. return (Reply e)),
                s\<lparr>fa_catalog := c\<rparr>)
           | (Inr (Forward_Native context upstream), c) \<Rightarrow>
               (case reserve_owned key (Owned_Model_List context) (s\<lparr>fa_catalog := c\<rparr>) of
                  Inl e \<Rightarrow> (throw e, s\<lparr>fa_catalog := c\<rparr>)
                | Inr s' \<Rightarrow>
                    if upstream = lq_cursor q then (return (Forward request), s')
                    else
                      (let params = (case read_data_record (field request ''params'') of None \<Rightarrow> [] | Some r \<Rightarrow> r) in
                       (and_then (with_params request (JObj (set_field ''cursor'' (nullable upstream) params)))
                          (\<lambda>e. return (Forward e)), s')))))"

text \<open>The lifecycle branch, with the \<open>catch\<close> that takes everything back.\<close>

definition take_back :: "jstr \<Rightarrow> jval \<Rightarrow> facade \<Rightarrow> facade_error \<Rightarrow> (facade_error, dispatch) result \<times> facade" where
  "take_back key request_id s e =
     (let s' = s\<lparr>fa_owned := AList.delete key (fa_owned s)\<rparr> in
      case discard_pending (fa_router s) Client_To_Server request_id of
        Inl e' \<Rightarrow> (throw (Thread_Error e'), s')
      | Inr (_, r) \<Rightarrow> (throw e, s'\<lparr>fa_router := r\<rparr>))"

definition lifecycle_request_of :: "lifecycle_method \<Rightarrow> envelope \<Rightarrow> lifecycle_request" where
  "lifecycle_request_of m request =
     \<lparr>lr_catalog_revision = None, lr_direction = Client_To_Server, lr_id = field request ''id'',
      lr_method = m, lr_params = field request ''params''\<rparr>"

definition handle_lifecycle ::
    "lifecycle_method \<Rightarrow> envelope \<Rightarrow> jstr \<Rightarrow> facade \<Rightarrow> (facade_error, dispatch) result \<times> facade" where
  "handle_lifecycle m request key s =
     (let request_id = field request ''id'' in
      case prepare_thread_lifecycle (fa_router s) (lifecycle_request_of m request) of
        Inl e \<Rightarrow> take_back key request_id s (Thread_Error e)
      | Inr (prepared, r) \<Rightarrow>
          let s1 = s\<lparr>fa_router := r\<rparr> in
          (case reserve_owned key Owned_Lifecycle s1 of
             Inl e \<Rightarrow> take_back key request_id s1 e
           | Inr s2 \<Rightarrow>
               (case with_params request (pl_params prepared) of
                  Inl e \<Rightarrow> take_back key request_id s2 e
                | Inr e \<Rightarrow> (return (Forward e), s2))))"

text \<open>The branches that forward the request with parameters the thread router has checked.\<close>

definition handle_checked ::
    "(routing_error, jval) result \<Rightarrow> envelope \<Rightarrow> jstr \<Rightarrow> facade \<Rightarrow> (facade_error, dispatch) result \<times> facade" where
  "handle_checked params request key s =
     (case params of
        Inl e \<Rightarrow> (throw (Thread_Error e), s)
      | Inr p \<Rightarrow>
          (case reserve_owned key Owned_Passthrough s of
             Inl e \<Rightarrow> (throw e, s)
           | Inr s' \<Rightarrow>
               (case with_params request p of
                  Inl e \<Rightarrow> (throw e, s'\<lparr>fa_owned := AList.delete key (fa_owned s')\<rparr>)
                | Inr e \<Rightarrow> (return (Forward e), s'))))"

text \<open>What is asked of every other message before it passes.\<close>

definition check_other :: "thread_router \<Rightarrow> jstr \<Rightarrow> jval \<Rightarrow> (facade_error, unit) result" where
  "check_other r m params =
     and_then (if m \<in> set CONFIG_MUTATION_METHODS then assert_no_reserved_config_mutation params
               else return ()) (\<lambda>_.
     and_then (lift_error Thread_Error
                (if m \<in> set UNSUPPORTED_WEB_METHODS then validate_unsupported_web_operation r params
                 else validate_thread_identity r params)) (\<lambda>_. return ()))"

definition handle_other :: "envelope \<Rightarrow> jstr \<Rightarrow> facade \<Rightarrow> (facade_error, dispatch) result \<times> facade" where
  "handle_other request key s =
     (case and_then (check_other (fa_router s) (method_of request) (field request ''params''))
             (\<lambda>_. reserve_owned key Owned_Passthrough s) of
        Inl e \<Rightarrow> (throw e, s)
      | Inr s' \<Rightarrow> (return (Forward request), s'))"

definition handle_request ::
    "catalog_inputs \<Rightarrow> envelope \<Rightarrow> facade \<Rightarrow> (facade_error, dispatch) result \<times> facade" where
  "handle_request inp request s =
     (case and_then (request_key (field request ''id'')) (\<lambda>key.
           and_then (reject_if (map_of (fa_owned s) key \<noteq> None)
                       (Facade_Error (js ''routing.request_id_conflict''))) (\<lambda>_. return key)) of
        Inl e \<Rightarrow> (throw e, s)
      | Inr key \<Rightarrow>
          let m = method_of request; params = field request ''params''; r = fa_router s in
          if m = js ''initialize'' then
            (case reserve_owned key Owned_Initialize s of
               Inl e \<Rightarrow> (throw e, s)
             | Inr s' \<Rightarrow> (return (Forward request), s'))
          else if m = js ''model/list'' then handle_model_list inp request key s
          else case lifecycle_method_of m of
              Some lm \<Rightarrow> handle_lifecycle lm request key s
            | None \<Rightarrow>
                if is_thread_bound_method m then handle_checked (validate_thread_bound r params) request key s
                else if m = js ''review/start'' then handle_checked (validate_review_start r params) request key s
                else if m = js ''thread/realtime/start''
                then handle_checked (validate_realtime_start r params) request key s
                else handle_other request key s)"

text \<open>Notifications of the client: what cannot pass is dropped.\<close>

definition handle_client_notification :: "envelope \<Rightarrow> facade \<Rightarrow> dispatch" where
  "handle_client_notification n s =
     (let m = method_of n; params = field n ''params''; r = fa_router s;
          checked = (\<lambda>result.
            case and_then (lift_error Thread_Error result) (with_notification_params n) of
              Inl e \<Rightarrow> Drop
            | Inr e \<Rightarrow> Forward e) in
      if m \<in> set REQUEST_ONLY_METHODS then Drop
      else if is_thread_bound_method m then checked (validate_thread_bound r params)
      else if m = js ''review/start'' then checked (validate_review_start r params)
      else if m = js ''thread/realtime/start'' then checked (validate_realtime_start r params)
      else (case check_other r m params of Inl e \<Rightarrow> Drop | Inr _ \<Rightarrow> Forward n))"

definition handle_client :: "catalog_inputs \<Rightarrow> envelope \<Rightarrow> facade \<Rightarrow> dispatch \<times> facade" where
  "handle_client inp e s =
     (if is_request e then
        (case handle_request inp e s of
           (Inl err, s') \<Rightarrow> (Reply (routing_failure (field e ''id'') err), s')
         | (Inr d, s') \<Rightarrow> (d, s'))
      else if is_notification e then (handle_client_notification e s, s)
      else if has_key ''id'' e \<and> validate_server_request (fa_router s) \<noteq> Inr () then (Drop, s)
      else (Forward e, s))"

section \<open>Messages of the app server\<close>

text \<open>Errors that leave \<open>handleServer\<close>: an integrity failure or a routing error of a notification.\<close>

datatype server_failure = Integrity_Failure jstr | Relation_Failure routing_error

definition sanitize_web_lifecycle_response ::
    "envelope \<Rightarrow> pinned_route \<Rightarrow> (facade_error + server_failure, envelope) result" where
  "sanitize_web_lifecycle_response response route =
     (let invalid = Inr (Integrity_Failure (js ''routing.invalid_upstream_result'')) in
      case (pr_model route, pr_provider_model route, read_data_record (field response ''result'')) of
        (Some model, Some provider_model, Some result) \<Rightarrow>
          if pr_kind route \<noteq> Web \<or> \<not> has_key ''result'' response \<or> field result ''model'' \<noteq> JStr provider_model
          then throw invalid
          else
            let result' = JObj (set_field ''model'' (JStr model) result);
                sanitized = set_field ''result'' result' response in
            if \<not> is_json_value result' \<or> \<not> app_server_success_response sanitized then throw (Inl Schema_Error)
            else if contains_private_route (JObj sanitized) provider_model \<noteq> Some False then throw invalid
            else return sanitized
      | _ \<Rightarrow> throw invalid)"

text \<open>The answer to a lifecycle request, once the thread router has settled it.\<close>

definition settled_response ::
    "envelope \<Rightarrow> settlement \<Rightarrow> thread_router \<Rightarrow> (facade_error + server_failure, envelope) result" where
  "settled_response response st r =
     (case st of
        Settled_Committed route \<Rightarrow>
          if pr_kind route = Web then
            and_then (sanitize_web_lifecycle_response response route) (\<lambda>sanitized.
            and_then (reject_if (contains_private_provider_material r (JObj sanitized))
                        (Inr (Integrity_Failure (js ''routing.invalid_upstream_result'')))) (\<lambda>_.
            return sanitized))
          else return response
      | Settled_Failed k \<Rightarrow>
          if k = Web then return (internal_failure (field response ''id'') (js ''routing.web_lifecycle_failed''))
          else return response
      | _ \<Rightarrow> throw (Inr (Integrity_Failure (js ''routing.invalid_upstream_result''))))"

definition merged_response :: "envelope \<Rightarrow> data_record \<Rightarrow> (facade_error + server_failure, envelope) result" where
  "merged_response response page =
     (let candidate = set_field ''result'' (JObj page) response in
      if is_json_value (JObj page) \<and> app_server_success_response candidate then return candidate
      else throw (Inl Schema_Error))"

definition answer_owned ::
    "catalog_inputs \<Rightarrow> owned_request \<Rightarrow> envelope \<Rightarrow> facade
     \<Rightarrow> (facade_error + server_failure, envelope) result \<times> facade" where
  "answer_owned inp owned response s =
     (case owned of
        Owned_Initialize \<Rightarrow>
          (return response,
           if has_key ''result'' response then s\<lparr>fa_initialized := Suc (fa_initialized s)\<rparr> else s)
      | Owned_Passthrough \<Rightarrow> (return response, s)
      | Owned_Model_List context \<Rightarrow>
          if has_key ''error'' response then (return response, s)
          else
            (case merge_native_page (ci_create_clock inp) (ci_random inp) context (field response ''result'')
                    (fa_catalog s) of
               (Inl e, c) \<Rightarrow> (throw (Inl (Catalog_Error e)), s\<lparr>fa_catalog := c\<rparr>)
             | (Inr page, c) \<Rightarrow> (merged_response response page, s\<lparr>fa_catalog := c\<rparr>))
      | Owned_Lifecycle \<Rightarrow>
          (case settle_thread_lifecycle (fa_router s) Client_To_Server (JObj response) of
             (Inl e, r) \<Rightarrow> (throw (Inr (Integrity_Failure (error_code (Thread_Error e)))), s\<lparr>fa_router := r\<rparr>)
           | (Inr st, r) \<Rightarrow> (settled_response response st r, s\<lparr>fa_router := r\<rparr>)))"

definition handle_server_response ::
    "catalog_inputs \<Rightarrow> envelope \<Rightarrow> facade \<Rightarrow> (server_failure, dispatch) result \<times> facade" where
  "handle_server_response inp response s =
     (case request_key (field response ''id'') of
        Inl _ \<Rightarrow> (return (Forward response), s)
      | Inr key \<Rightarrow>
          (case map_of (fa_owned s) key of
             None \<Rightarrow> (return (Forward response), s)
           | Some owned \<Rightarrow>
               (case answer_owned inp owned response (s\<lparr>fa_owned := AList.delete key (fa_owned s)\<rparr>) of
                  (Inr e, s') \<Rightarrow> (return (Forward e), s')
                | (Inl (Inr failure), s') \<Rightarrow> (throw failure, s')
                | (Inl (Inl err), s') \<Rightarrow>
                    (return (Forward (internal_failure (field response ''id'') (error_code err))), s'))))"

definition content_free_web_turn_error :: jval where
  "content_free_web_turn_error =
     JObj [(js ''additionalDetails'', JNull), (js ''codexErrorInfo'', JStr (js ''other'')),
           (js ''message'', JStr (js ''GPTSessionBridge Web turn failed.''))]"

text \<open>\<open>None\<close> is an error of the schema, which leaves \<open>handleServer\<close> as it is.\<close>

definition sanitize_web_turn_failure :: "envelope \<Rightarrow> (facade_error, envelope) result" where
  "sanitize_web_turn_failure n =
     (case read_data_record (field n ''params'') of
        None \<Rightarrow> return n
      | Some params \<Rightarrow>
          if method_of n = js ''error''
          then with_notification_params n (JObj (set_field ''error'' content_free_web_turn_error params))
          else if method_of n \<noteq> js ''turn/completed'' then return n
          else case read_data_record (field params ''turn'') of
              None \<Rightarrow> return n
            | Some turn \<Rightarrow>
                if field turn ''status'' \<noteq> JStr (js ''failed'') then return n
                else with_notification_params n
                  (JObj (set_field ''turn'' (JObj (set_field ''error'' content_free_web_turn_error turn)) params)))"

definition read_notification_thread_id :: "jval \<Rightarrow> jstr option" where
  "read_notification_thread_id v =
     (case read_data_record v of
        None \<Rightarrow> None
      | Some r \<Rightarrow>
          (case field r ''threadId'' of
             JStr t \<Rightarrow> Some t
           | _ \<Rightarrow>
               (case read_data_record (field r ''thread'') of
                  None \<Rightarrow> None
                | Some thread \<Rightarrow> (case field thread ''id'' of JStr t \<Rightarrow> Some t | _ \<Rightarrow> None))))"

text \<open>The child, the provider (undefined when not a string) and the parent of a started thread.\<close>

definition read_started_thread_relation :: "jval \<Rightarrow> (jval \<times> jval \<times> jval) option" where
  "read_started_thread_relation v =
     (case read_data_record (opt_field (read_data_record v) ''thread'') of
        None \<Rightarrow> None
      | Some thread \<Rightarrow>
          let child = field thread ''id''; direct = field thread ''parentThreadId'';
              parent = (if is_nullish direct then field thread ''forkedFromId'' else direct);
              provider = field thread ''modelProvider'' in
          if is_string_value child \<and> is_string_value parent
          then Some (child, if is_string_value provider then provider else JUndef, parent)
          else None)"

definition private_warning :: "jstr \<Rightarrow> envelope" where
  "private_warning thread =
     [(js ''message'', JStr (js ''GPTSessionBridge is using compatibility metadata for the selected Web model.'')),
      (js ''threadId'', JStr thread)]"

text \<open>
  A notification about a Web thread: a warning that names the route is replaced, failures lose their
  content, and what still names the route or the provider is dropped. \<open>None\<close> inside a scan is the
  integrity failure that a value too large to scan raises; a \<open>withNotificationParams\<close> that fails
  throws a schema error, which leaves \<open>handleServer\<close> too.
\<close>

definition web_notification ::
    "thread_router \<Rightarrow> envelope \<Rightarrow> jstr \<Rightarrow> jstr \<Rightarrow> (facade_error + server_failure, dispatch) result" where
  "web_notification r n thread provider_model =
     (let invalid = Inr (Integrity_Failure (js ''routing.invalid_upstream_result'')) in
      and_then (lift_error Inl (sanitize_web_turn_failure n)) (\<lambda>cleaned.
      and_then
        (if method_of n = js ''warning'' then
           (case contains_private_route (JObj n) provider_model of
              None \<Rightarrow> throw invalid
            | Some found \<Rightarrow>
                if found \<or> contains_private_provider_material r (JObj n)
                then lift_error Inl (with_notification_params n (JObj (private_warning thread)))
                else return cleaned)
         else return cleaned) (\<lambda>sanitized.
      case contains_private_route (JObj sanitized) provider_model of
        None \<Rightarrow> throw invalid
      | Some found \<Rightarrow>
          if found \<or> contains_private_provider_material r (JObj sanitized) then return Drop
          else return (Forward sanitized))))"

definition handle_server_notification ::
    "envelope \<Rightarrow> facade \<Rightarrow> (facade_error + server_failure, dispatch) result \<times> facade" where
  "handle_server_notification n s =
     (let r = fa_router s; params = field n ''params'' in
      case (if method_of n = js ''thread/started'' then
              (case read_started_thread_relation params of
                 None \<Rightarrow> return True
               | Some (child, provider, parent) \<Rightarrow> validate_thread_relation r child provider parent)
            else return True) of
        Inl e \<Rightarrow> (throw (Inr (Relation_Failure e)), s)
      | Inr _ \<Rightarrow>
          let thread = read_notification_thread_id params;
              route = (case thread of None \<Rightarrow> None | Some t \<Rightarrow> get_thread_route r t);
              r' = (case thread of
                      Some t \<Rightarrow> if method_of n = js ''thread/deleted'' then snd (forget_thread t r) else r
                    | None \<Rightarrow> r);
              s' = s\<lparr>fa_router := r'\<rparr> in
          (case (thread, route) of
             (Some t, Some p) \<Rightarrow>
               (case pr_provider_model p of
                  Some provider_model \<Rightarrow>
                    if pr_kind p = Web then (web_notification r' n t provider_model, s') else (return (Forward n), s')
                | None \<Rightarrow> (return (Forward n), s'))
           | _ \<Rightarrow> (return (Forward n), s')))"

definition handle_server ::
    "catalog_inputs \<Rightarrow> envelope \<Rightarrow> facade \<Rightarrow> (facade_error + server_failure, dispatch) result \<times> facade" where
  "handle_server inp e s =
     (if is_request e then
        (case validate_server_request (fa_router s) of
           Inl err \<Rightarrow> (return (Reply (routing_failure (field e ''id'') (Thread_Error err))), s)
         | Inr _ \<Rightarrow> (return (Forward e), s))
      else if is_response e then
        (case handle_server_response inp e s of
           (Inl failure, s') \<Rightarrow> (throw (Inr failure), s')
         | (Inr d, s') \<Rightarrow> (return d, s'))
      else handle_server_notification e s)"

definition clear_facade :: "facade \<Rightarrow> facade" where
  "clear_facade s = s\<lparr>fa_owned := [], fa_router := snd (clear_pending (fa_router s))\<rparr>"

end
