(* ===== verification/Facade_Facts.thy ===== *)
theory Facade_Facts
  imports Facade_Router Router_Properties
begin

text \<open>
  The bookkeeping of the facade: the thread router's pending decisions are exactly the lifecycle
  requests the facade owns, and a refused request leaves both as they were.
\<close>

section \<open>The thread router under the facade\<close>

lemma settle_pending_gone:
  assumes "serialize_directional_request_id d (field response ''id'') = Inr key"
    and "settle_thread_lifecycle s d (JObj response) = (r, s')"
  shows "tr_pending s' = AList.delete key (tr_pending s)"
proof -
  have commit: "tr_pending s2 = tr_pending s1" if "commit_route s1 p t f = (x, s2)" for s1 p t f x s2
    using that by (cases rule: commit_route_cases) simp_all
  have released: "tr_pending s2 = tr_pending s1" if "settle_released s1 p response = (x, s2)" for s1 p x s2
    using that commit by (auto simp: settle_released_def Let_def split: if_splits option.splits)
  have "is_request_id (field response ''id'')"
    using assms(1) by (simp add: serialize_directional_request_id_def split: if_splits)
  with assms released show ?thesis
    by (auto simp: settle_thread_lifecycle_def Let_def delete_absent split: option.splits)
qed

lemma settle_config:
  assumes "settle_thread_lifecycle s d v = (r, s')"
  shows "tr_config s' = tr_config s"
  using assms
proof (cases rule: settle_cases)
  case (commits key p response t)
  from commits(9) show ?thesis by (cases rule: commit_route_cases) simp_all
qed simp_all

text \<open>\<open>discardPending\<close> takes a prepared request back, and does nothing when there is none.\<close>

lemma discard_prepared:
  assumes "router_inv s" and "prepare_thread_lifecycle s q = Inr (x, s')"
  shows "discard_pending s' (lr_direction q) (lr_id q) = Inr (True, s)"
proof (rule prepare_Inr [OF assms(2)])
  fix d
  assume key: "serialize_directional_request_id (lr_direction q) (lr_id q) = Inr (pl_request_key x)"
    and fresh: "map_of (tr_pending s) (pl_request_key x) = None"
    and s': "s' = commit_pending (pl_request_key x) (pending_of s q d) s"
  have "counts_ok (tr_provisional s)" using assms(1) by (simp add: router_inv_def)
  with pending_undone [OF this fresh] key show ?thesis
    by (simp add: s' discard_pending_def map_of_alist_update)
qed

lemma discard_absent:
  "serialize_directional_request_id d v = Inr key \<Longrightarrow> map_of (tr_pending s) key = None \<Longrightarrow>
    discard_pending s d v = Inr (False, s)"
  by (simp add: discard_pending_def)

section \<open>The invariant\<close>

definition facade_inv :: "facade \<Rightarrow> bool" where
  "facade_inv s \<longleftrightarrow>
     router_inv (fa_router s) \<and> distinct (map fst (fa_owned s)) \<and> length (fa_owned s) \<le> fa_max_owned s
     \<and> (\<forall>k. map_of (tr_pending (fa_router s)) k \<noteq> None \<longleftrightarrow> map_of (fa_owned s) k = Some Owned_Lifecycle)"

lemma request_key_Inr [outcome_simps]:
  "request_key v = Inr key \<longleftrightarrow> serialize_directional_request_id Client_To_Server v = Inr key"
  by (simp add: request_key_def outcome_simps)

lemma reserve_owned_Inr:
  assumes "reserve_owned key value s = Inr s'"
  shows "s' = s\<lparr>fa_owned := AList.update key value (fa_owned s)\<rparr>" "map_of (fa_owned s) key = None"
    "length (fa_owned s) < fa_max_owned s"
  using assms by (auto simp: reserve_owned_def split: if_splits)

lemma reserve_owned_inv:
  assumes "facade_inv s" "reserve_owned key value s = Inr s'" "value \<noteq> Owned_Lifecycle"
  shows "facade_inv s'"
  using assms reserve_owned_Inr [OF assms(2)]
  by (auto simp: facade_inv_def distinct_update length_alist_update map_of_alist_update)

text \<open>The outcome of a request: it is owned afterwards and forwarded, or nothing is left of it.\<close>

definition request_outcome :: "envelope \<Rightarrow> facade \<Rightarrow> (facade_error, dispatch) result \<Rightarrow> facade \<Rightarrow> bool" where
  "request_outcome e s r s' \<longleftrightarrow>
     (case r of
        Inr (Forward x) \<Rightarrow>
          field x ''id'' = field e ''id''
          \<and> (\<exists>key owned. request_key (field e ''id'') = return key \<and> map_of (fa_owned s) key = None
               \<and> fa_owned s' = AList.update key owned (fa_owned s))
      | Inr (Reply x) \<Rightarrow>
          field x ''id'' = field e ''id'' \<and> fa_owned s' = fa_owned s \<and> fa_router s' = fa_router s
      | Inr Drop \<Rightarrow> False
      | Inl _ \<Rightarrow> fa_owned s' = fa_owned s \<and> fa_router s' = fa_router s)"

lemma with_params_id:
  "with_params e p = Inr x \<Longrightarrow> field x ''id'' = field e ''id''"
  by (auto simp: with_params_def with_params_as_def field_set_field field_delete_field Let_def split: if_splits)

lemma delete_fresh: "map_of m k = None \<Longrightarrow> AList.delete k (AList.update k v m) = m"
  by (rule delete_update_absent)

lemma facade_catalog_inv: "facade_inv s \<Longrightarrow> facade_inv (s\<lparr>fa_catalog := c\<rparr>)"
  by (simp add: facade_inv_def)

lemma handle_checked_outcome:
  assumes "facade_inv s" "request_key (field e ''id'') = Inr key" "map_of (fa_owned s) key = None"
    and "handle_checked p e key s = (r, s')"
  shows "request_outcome e s r s' \<and> facade_inv s'"
proof (cases p)
  case (Inl err)
  with assms show ?thesis by (auto simp: handle_checked_def request_outcome_def)
next
  case (Inr v)
  show ?thesis
  proof (cases "reserve_owned key Owned_Passthrough s")
    case (Inl err)
    with Inr assms show ?thesis by (auto simp: handle_checked_def request_outcome_def)
  next
    case reserved: (Inr s1)
    note s1 = reserve_owned_Inr [OF reserved]
    have inv: "facade_inv s1" by (rule reserve_owned_inv [OF assms(1) reserved]) simp
    show ?thesis
    proof (cases "with_params e v")
      case (Inl err)
      have "fa_owned (s1\<lparr>fa_owned := AList.delete key (fa_owned s1)\<rparr>) = fa_owned s"
        by (simp add: s1(1) delete_fresh assms(3))
      then have "s1\<lparr>fa_owned := AList.delete key (fa_owned s1)\<rparr> = s" by (simp add: s1(1))
      with Inl Inr reserved assms show ?thesis by (auto simp: handle_checked_def request_outcome_def)
    next
      case sent: (Inr x)
      with Inr reserved assms inv with_params_id [OF sent] show ?thesis
        by (auto simp: handle_checked_def request_outcome_def s1)
    qed
  qed
qed

lemma handle_other_outcome:
  assumes "facade_inv s" "request_key (field e ''id'') = Inr key" "map_of (fa_owned s) key = None"
    and "handle_other e key s = (r, s')"
  shows "request_outcome e s r s' \<and> facade_inv s'"
proof (cases "and_then (check_other (fa_router s) (method_of e) (field e ''params''))
    (\<lambda>_. reserve_owned key Owned_Passthrough s)")
  case (Inl err)
  with assms show ?thesis by (auto simp: handle_other_def request_outcome_def)
next
  case (Inr s1)
  then have reserved: "reserve_owned key Owned_Passthrough s = Inr s1" by (auto simp: and_then_eq_Inr)
  note s1 = reserve_owned_Inr [OF reserved]
  have "facade_inv s1" by (rule reserve_owned_inv [OF assms(1) reserved]) simp
  with Inr assms s1 show ?thesis by (auto simp: handle_other_def request_outcome_def)
qed

lemma take_back_absent:
  assumes "serialize_directional_request_id Client_To_Server v = Inr key" "map_of (fa_owned s) key = None"
    "map_of (tr_pending (fa_router s)) key = None"
  shows "take_back key v s e = (throw e, s)"
  using assms discard_absent [OF assms(1,3)] by (simp add: take_back_def delete_absent)

lemma handle_lifecycle_outcome:
  assumes inv: "facade_inv s" and key: "request_key (field e ''id'') = Inr key"
    and fresh: "map_of (fa_owned s) key = None" and handled: "handle_lifecycle m e key s = (r, s')"
  shows "request_outcome e s r s' \<and> facade_inv s'"
proof -
  let ?q = "lifecycle_request_of m e"
  have serialized: "serialize_directional_request_id Client_To_Server (field e ''id'') = Inr key"
    using key by (simp add: request_key_Inr)
  have pending: "map_of (tr_pending (fa_router s)) key = None" using inv fresh unfolding facade_inv_def by (metis option.distinct(1))
  show ?thesis
  proof (cases "prepare_thread_lifecycle (fa_router s) ?q")
    case (Inl err)
    with handled inv take_back_absent [OF serialized fresh pending] show ?thesis
      by (auto simp: handle_lifecycle_def request_outcome_def)
  next
    case (Inr y)
    then obtain prepared ro where prep: "prepare_thread_lifecycle (fa_router s) ?q = Inr (prepared, ro)" by (cases y) simp
    let ?s1 = "s\<lparr>fa_router := ro\<rparr>"
    have undone: "discard_pending ro Client_To_Server (field e ''id'') = Inr (True, fa_router s)"
      using discard_prepared [OF _ prep] inv by (simp add: facade_inv_def lifecycle_request_of_def)
    have taken: "take_back key (field e ''id'') s2 err = (throw err, s)"
      if "s2 = ?s1 \<or> s2 = ?s1\<lparr>fa_owned := AList.update key Owned_Lifecycle (fa_owned s)\<rparr>" for s2 err
      using that undone fresh by (auto simp: take_back_def delete_absent delete_fresh)
    show ?thesis
    proof (cases "reserve_owned key Owned_Lifecycle ?s1")
      case (Inl err)
      with prep handled inv taken [of ?s1 err] show ?thesis by (auto simp: handle_lifecycle_def request_outcome_def Let_def)
    next
      case reserved: (Inr s2)
      note s2 = reserve_owned_Inr [OF reserved]
      show ?thesis
      proof (cases "with_params e (pl_params prepared)")
        case (Inl err)
        with prep handled inv reserved taken [of s2 err] s2(1) show ?thesis
          by (auto simp: handle_lifecycle_def request_outcome_def Let_def)
      next
        case sent: (Inr x)
        obtain p where "tr_pending ro = AList.update key p (tr_pending (fa_router s))"
          by (rule prepare_Inr [OF prep]) (use serialized in \<open>simp add: lifecycle_request_of_def\<close>)
        moreover have "router_inv ro" using prepare_inv [OF _ prep] inv by (simp add: facade_inv_def)
        ultimately have "facade_inv s2"
          using inv s2(2,3) unfolding s2(1)
          by (auto simp: facade_inv_def distinct_update length_alist_update map_of_alist_update)
        with prep handled reserved sent with_params_id [OF sent] key fresh s2(1) show ?thesis
          by (auto simp: handle_lifecycle_def request_outcome_def Let_def)
      qed
    qed
  qed
qed

text \<open>A list request: the catalog may change, the router does not.\<close>

lemma set_update_subset: "set (AList.update k v r) \<subseteq> insert (k, v) (set r)"
  by (induction r) auto

lemma json_set_field:
  "list_all (\<lambda>kv. is_json_value (snd kv)) r \<Longrightarrow> is_json_value v \<Longrightarrow>
    is_json_value (JObj (set_field k v r))"
  using set_update_subset [of "js k" v r] by (auto simp: list_all_iff set_field_def)

lemma with_params_total:
  assumes "app_server_request e" "is_json_value p"
  shows "\<exists>x. with_params e p = Inr x"
proof -
  have "json_catchall shape (set_field ''params'' p e)" if "json_catchall shape e" for shape
    using that assms(2) set_update_subset [of "js ''params''" p e]
    by (fastforce simp: json_catchall_def list_all_iff set_field_def)
  then have "app_server_request (set_field ''params'' p e)"
    using assms by (simp add: app_server_request_def field_set_field optional_json_field_def absent_field_def)
  with assms(2) show ?thesis
    by (auto simp: with_params_def with_params_as_def dest: json_defined)
qed

lemma nullable_json: "is_json_value (nullable x)"
  by (cases x) simp_all

lemma handle_model_list_inv:
  assumes "facade_inv s" "handle_model_list inp e key s = (r, s')"
  shows "facade_inv s'"
proof -
  have "facade_inv s1"
    if "reserve_owned key (Owned_Model_List x) (s\<lparr>fa_catalog := c\<rparr>) = Inr s1" for x c s1
    by (rule reserve_owned_inv [OF facade_catalog_inv [OF assms(1)] that]) simp
  with assms facade_catalog_inv [OF assms(1)] show ?thesis
    by (auto simp: handle_model_list_def Let_def split: sum.splits prod.splits prepared_list.splits if_splits)
qed

lemma success_response_id:
  "success_response v result = Inr x \<Longrightarrow> field x ''id'' = v"
  by (auto simp: success_response_def Let_def field_def split: if_splits)

lemma handle_model_list_outcome:
  assumes "app_server_request e" "request_key (field e ''id'') = Inr key" "map_of (fa_owned s) key = None"
    and handled: "handle_model_list inp e key s = (r, s')"
  shows "request_outcome e s r s'"
proof -
  let ?params = "case read_data_record (field e ''params'') of None \<Rightarrow> [] | Some r \<Rightarrow> r"
  have "is_json_value (JObj (set_field ''cursor'' (nullable u) ?params))" for u
    using assms(1) json_set_field [OF _ nullable_json]
    by (cases "field e ''params''") (auto simp: app_server_request_def optional_json_field_def)
  then have total: "\<exists>x. with_params e (JObj (set_field ''cursor'' (nullable u) ?params)) = Inr x" for u
    by (rule with_params_total [OF assms(1)])
  show ?thesis
  proof (cases "read_model_list_request (field e ''params'')")
    case (Inl err)
    with handled show ?thesis by (auto simp: handle_model_list_def request_outcome_def)
  next
    case (Inr q)
    obtain d c where prepared: "prepare_list (ci_read_clock inp) (ci_create_clock inp) (ci_random inp) q (fa_catalog s) = (d, c)"
      by fastforce
    note call = handled Inr prepared
    show ?thesis
    proof (cases "\<exists>page. d = Inr (Return_Virtual page)")
      case True
      with call show ?thesis
        by (auto simp: handle_model_list_def request_outcome_def and_then_eq_Inr
            dest!: success_response_id split: sum.splits)
    next
      case False
      show ?thesis
      proof (cases d)
        case (Inl err)
        with call show ?thesis by (auto simp: handle_model_list_def request_outcome_def)
      next
        case chosen: (Inr p)
        with False obtain ctx u where d: "d = Inr (Forward_Native ctx u)" by (cases p) auto
        obtain x where x: "with_params e (JObj (set_field ''cursor'' (nullable u) ?params)) = Inr x"
          using total by blast
        show ?thesis
        proof (cases "reserve_owned key (Owned_Model_List ctx) (s\<lparr>fa_catalog := c\<rparr>)")
          case (Inl err)
          with call d show ?thesis by (auto simp: handle_model_list_def request_outcome_def)
        next
          case reserved: (Inr s1)
          from call d reserved x with_params_id [OF x] reserve_owned_Inr(1) [OF reserved] assms(2,3) show ?thesis
            by (cases "u = lq_cursor q") (auto simp: handle_model_list_def request_outcome_def Let_def)
        qed
      qed
    qed
  qed
qed

section \<open>Every call\<close>

text \<open>What \<open>handleRequest\<close> calls once the identifier is known to be free.\<close>

lemma handle_request_cases:
  assumes "handle_request inp e s = (r, s')"
  obtains (refused) err where "r = Inl err" "s' = s"
    | (initialize) key s1 where "request_key (field e ''id'') = Inr key" "map_of (fa_owned s) key = None"
        "reserve_owned key Owned_Initialize s = Inr s1" "r = Inr (Forward e)" "s' = s1"
    | (listing) key where "request_key (field e ''id'') = Inr key" "map_of (fa_owned s) key = None"
        "handle_model_list inp e key s = (r, s')"
    | (lifecycle) key m where "request_key (field e ''id'') = Inr key" "map_of (fa_owned s) key = None"
        "handle_lifecycle m e key s = (r, s')"
    | (checked) key p where "request_key (field e ''id'') = Inr key" "map_of (fa_owned s) key = None"
        "handle_checked p e key s = (r, s')"
    | (passed) key where "request_key (field e ''id'') = Inr key" "map_of (fa_owned s) key = None"
        "handle_other e key s = (r, s')"
proof (cases "request_key (field e ''id'')")
  case (Inl err)
  with assms refused show ?thesis by (auto simp: handle_request_def)
next
  case (Inr key)
  show ?thesis
  proof (cases "map_of (fa_owned s) key = None")
    case False
    with Inr assms refused show ?thesis by (auto simp: handle_request_def reject_if_def)
  next
    case True
    have start: "handle_request inp e s =
        (let m = method_of e; params = field e ''params''; r = fa_router s in
          if m = js ''initialize'' then
            (case reserve_owned key Owned_Initialize s of
               Inl e \<Rightarrow> (throw e, s) | Inr s' \<Rightarrow> (return (Forward e), s'))
          else if m = js ''model/list'' then handle_model_list inp e key s
          else case lifecycle_method_of m of
              Some lm \<Rightarrow> handle_lifecycle lm e key s
            | None \<Rightarrow>
                if is_thread_bound_method m then handle_checked (validate_thread_bound r params) e key s
                else if m = js ''review/start'' then handle_checked (validate_review_start r params) e key s
                else if m = js ''thread/realtime/start''
                then handle_checked (validate_realtime_start r params) e key s
                else handle_other e key s)"
      by (simp add: handle_request_def Inr True reject_if_def)
    show ?thesis
    proof (cases "method_of e = js ''initialize''")
      case first: True
      with start assms show ?thesis
        by (cases "reserve_owned key Owned_Initialize s") (auto intro: refused initialize [OF Inr True])
    next
      case False
      show ?thesis
      proof (cases "method_of e = js ''model/list''")
        case True
        with False start assms show ?thesis by (intro listing [OF Inr \<open>map_of (fa_owned s) key = None\<close>]) simp
      next
        case other: False
        show ?thesis
        proof (cases "lifecycle_method_of (method_of e)")
          case (Some m)
          with False other start assms show ?thesis by (intro lifecycle [OF Inr True]) simp
        next
          case None
          with False other start assms checked [OF Inr True] passed [OF Inr True] show ?thesis
            by (auto simp: Let_def split: if_splits)
        qed
      qed
    qed
  qed
qed

lemma handle_request_inv:
  assumes "facade_inv s" "handle_request inp e s = (r, s')"
  shows "facade_inv s'"
  using assms(2)
proof (cases rule: handle_request_cases)
  case (refused err)
  with assms(1) show ?thesis by simp
next
  case (initialize key s1)
  with reserve_owned_inv [OF assms(1)] show ?thesis by simp
next
  case (listing key)
  with handle_model_list_inv [OF assms(1)] show ?thesis by blast
next
  case (lifecycle key m)
  with handle_lifecycle_outcome [OF assms(1)] show ?thesis by blast
next
  case (checked key p)
  with handle_checked_outcome [OF assms(1)] show ?thesis by blast
next
  case (passed key)
  with handle_other_outcome [OF assms(1)] show ?thesis by blast
qed

lemma handle_request_outcome:
  assumes "facade_inv s" "app_server_request e" "handle_request inp e s = (r, s')"
  shows "request_outcome e s r s'"
  using assms(3)
proof (cases rule: handle_request_cases)
  case (refused err)
  then show ?thesis by (simp add: request_outcome_def)
next
  case (initialize key s1)
  with reserve_owned_Inr(1) [OF initialize(3)] show ?thesis by (auto simp: request_outcome_def)
next
  case (listing key)
  with handle_model_list_outcome [OF assms(2)] show ?thesis by blast
next
  case (lifecycle key m)
  with handle_lifecycle_outcome [OF assms(1)] show ?thesis by blast
next
  case (checked key p)
  with handle_checked_outcome [OF assms(1)] show ?thesis by blast
next
  case (passed key)
  with handle_other_outcome [OF assms(1)] show ?thesis by blast
qed

lemma handle_client_inv:
  assumes "facade_inv s" "handle_client inp e s = (d, s')"
  shows "facade_inv s'"
proof -
  obtain y s1 where request: "handle_request inp e s = (y, s1)" by fastforce
  then have "facade_inv s1" by (rule handle_request_inv [OF assms(1)])
  moreover have "s' = s \<or> s' = s1"
    using assms(2) request unfolding handle_client_def by (simp split: if_splits sum.splits)
  ultimately show ?thesis using assms(1) by blast
qed

lemma clear_facade_inv: "facade_inv s \<Longrightarrow> facade_inv (clear_facade s)"
  using clear_inv [of "fa_router s"]
  by (auto simp: facade_inv_def clear_facade_def clear_pending_def)

text \<open>An answered request is gone from both sides.\<close>

lemma answered_inv:
  assumes inv: "facade_inv s" and owned: "map_of (fa_owned s) key = Some w"
    and same: "router_inv r"
    and pending: "tr_pending r = (if w = Owned_Lifecycle then AList.delete key (tr_pending (fa_router s))
                                  else tr_pending (fa_router s))"
  shows "facade_inv (s\<lparr>fa_owned := AList.delete key (fa_owned s), fa_catalog := c, fa_router := r,
                         fa_initialized := n\<rparr>)"
proof -
  have "length (AList.delete key (fa_owned s)) \<le> length (fa_owned s)" by (rule length_delete_le)
  with assms show ?thesis
    by (cases "w = Owned_Lifecycle") (auto simp: facade_inv_def distinct_delete map_of_alist_delete)
qed

lemma answer_owned_frame:
  assumes "answer_owned inp w response s = (x, s')"
    and "request_key (field response ''id'') = Inr key" and "router_inv (fa_router s)"
  obtains c r n where "s' = s\<lparr>fa_catalog := c, fa_router := r, fa_initialized := n\<rparr>" and "router_inv r"
    and "tr_pending r = (if w = Owned_Lifecycle then AList.delete key (tr_pending (fa_router s))
                         else tr_pending (fa_router s))"
proof (cases w)
  case Owned_Lifecycle
  obtain y r where settled: "settle_thread_lifecycle (fa_router s) Client_To_Server (JObj response) = (y, r)"
    by fastforce
  have "tr_pending r = AList.delete key (tr_pending (fa_router s))"
    using settle_pending_gone [OF _ settled] assms(2) by (simp add: request_key_Inr)
  with assms(1) settled settle_inv [OF assms(3) settled] Owned_Lifecycle show ?thesis
    by (intro that [of "fa_initialized s" r "fa_catalog s"]) (auto simp: answer_owned_def split: sum.splits)
next
  case Owned_Initialize
  with assms(1,3) show ?thesis
    by (intro that [of "fa_initialized s'" "fa_router s" "fa_catalog s"]) (auto simp: answer_owned_def)
next
  case Owned_Passthrough
  with assms(1,3) show ?thesis
    by (intro that [of "fa_initialized s" "fa_router s" "fa_catalog s"]) (auto simp: answer_owned_def)
next
  case (Owned_Model_List ctx)
  with assms(1,3) show ?thesis
    by (intro that [of "fa_initialized s" "fa_router s" "fa_catalog s'"])
      (auto simp: answer_owned_def split: if_splits prod.splits sum.splits)
qed

lemma handle_server_response_inv:
  assumes inv: "facade_inv s" and handled: "handle_server_response inp e s = (x, s')"
  shows "facade_inv s'"
proof (cases "\<exists>key w. request_key (field e ''id'') = Inr key \<and> map_of (fa_owned s) key = Some w")
  case False
  with assms show ?thesis
    by (auto simp: handle_server_response_def split: sum.splits option.splits)
next
  case True
  then obtain key w where key: "request_key (field e ''id'') = Inr key" "map_of (fa_owned s) key = Some w"
    by blast
  let ?s = "s\<lparr>fa_owned := AList.delete key (fa_owned s)\<rparr>"
  obtain y s1 where answer: "answer_owned inp w e ?s = (y, s1)" by fastforce
  have "s' = s1"
    using handled key answer by (auto simp: handle_server_response_def split: sum.splits)
  moreover have "router_inv (fa_router ?s)" using inv by (simp add: facade_inv_def)
  moreover have "facade_inv s1" if "router_inv (fa_router ?s)"
  proof (rule answer_owned_frame [OF answer key(1) that])
    fix c r n
    assume "s1 = ?s\<lparr>fa_catalog := c, fa_router := r, fa_initialized := n\<rparr>" "router_inv r"
      "tr_pending r = (if w = Owned_Lifecycle then AList.delete key (tr_pending (fa_router ?s))
                       else tr_pending (fa_router ?s))"
    with answered_inv [OF inv key(2), of r n c] show "facade_inv s1" by simp
  qed
  ultimately show ?thesis by simp
qed

text \<open>A notification makes the thread router forget a thread or leaves the state as it is.\<close>

lemma handle_server_notification_state:
  assumes "handle_server_notification e s = (x, s')"
  shows "s' = s \<or> (\<exists>t. s' = s\<lparr>fa_router := snd (forget_thread t (fa_router s))\<rparr>)"
proof -
  define next_router where "next_router =
    (case read_notification_thread_id (field e ''params'') of
       Some t \<Rightarrow> if method_of e = js ''thread/deleted'' then snd (forget_thread t (fa_router s)) else fa_router s
     | None \<Rightarrow> fa_router s)"
  have "s' = s \<or> s' = s\<lparr>fa_router := next_router\<rparr>"
    using assms unfolding handle_server_notification_def Let_def next_router_def [symmetric]
    by (simp split: sum.splits option.splits if_splits)
  moreover have "next_router = fa_router s \<or> (\<exists>t. next_router = snd (forget_thread t (fa_router s)))"
    unfolding next_router_def by (cases "read_notification_thread_id (field e ''params'')") auto
  ultimately show ?thesis by auto
qed

lemma handle_server_notification_inv:
  assumes "facade_inv s" "handle_server_notification e s = (x, s')"
  shows "facade_inv s'"
proof -
  have "facade_inv (s\<lparr>fa_router := snd (forget_thread t (fa_router s))\<rparr>)" for t
    using assms(1) forget_inv [of "fa_router s" t]
    by (auto simp: facade_inv_def forget_thread_def)
  moreover have "s' = s \<or> (\<exists>t. s' = s\<lparr>fa_router := snd (forget_thread t (fa_router s))\<rparr>)"
    using assms(2) by (rule handle_server_notification_state)
  ultimately show ?thesis using assms(1) by auto
qed

lemma handle_server_inv:
  assumes "facade_inv s" "handle_server inp e s = (x, s')"
  shows "facade_inv s'"
proof -
  obtain y s1 where response: "handle_server_response inp e s = (y, s1)" by fastforce
  then have "facade_inv s1" by (rule handle_server_response_inv [OF assms(1)])
  moreover have "s' = s \<or> s' = s1 \<or> handle_server_notification e s = (x, s')"
    using assms(2) response unfolding handle_server_def by (simp split: if_splits sum.splits)
  ultimately show ?thesis
    using assms(1) handle_server_notification_inv [OF assms(1), of e x s'] by blast
qed

section \<open>Histories\<close>

text \<open>
  The facade in use: messages of both sides, a clear, and whatever the model source and the
  catalog source answer next.
\<close>

inductive facade_step :: "facade \<Rightarrow> facade \<Rightarrow> bool" where
  from_client: "handle_client inp e s = (d, s') \<Longrightarrow> facade_step s s'"
| from_server: "handle_server inp e s = (x, s') \<Longrightarrow> facade_step s s'"
| cleared: "facade_step s (clear_facade s)"
| sources: "well_formed_registry m \<Longrightarrow>
    facade_step s (s\<lparr>fa_router := fa_router s\<lparr>tr_models := m\<rparr>, fa_catalog := c\<rparr>)"

inductive_cases facade_stepE: "facade_step s s'"

lemma facade_step_inv: "facade_step s s' \<Longrightarrow> facade_inv s \<Longrightarrow> facade_inv s'"
proof (erule facade_stepE)
  fix m c
  assume "facade_inv s" "well_formed_registry m" "s' = s\<lparr>fa_router := fa_router s\<lparr>tr_models := m\<rparr>, fa_catalog := c\<rparr>"
  then show "facade_inv s'" by (simp add: facade_inv_def router_inv_def provisional_count_def)
qed (blast intro: handle_client_inv handle_server_inv clear_facade_inv)+

lemma facade_steps_inv: "facade_step\<^sup>*\<^sup>* s s' \<Longrightarrow> facade_inv s \<Longrightarrow> facade_inv s'"
  by (induction rule: rtranclp_induct) (auto intro: facade_step_inv)

lemma new_facade_inv:
  assumes "new_facade cap c r = Some s" "router_inv r" "tr_pending r = []"
  shows "facade_inv s"
  using assms
  by (auto simp: new_facade_def facade_inv_def Let_def split: option.splits if_splits jnum.splits)

end
