(* ===== verification/Facade_Properties.thy ===== *)
theory Facade_Properties
  imports Facade_Facts
begin

text \<open>
  What the facade promises to both sides: its bookkeeping agrees with the thread router in every
  reachable state, a request is owned or answered, an answer releases what it answers, and nothing
  that leaves towards the client about a Web thread names the private route, the token or the
  base URL.
\<close>

section \<open>What a scan clears\<close>

lemma scan_texts_clean:
  "scan_texts bad n stack = Some False \<Longrightarrow> v \<in> set stack \<Longrightarrow> str \<in> set (strings_of v) \<Longrightarrow> \<not> bad str"
proof (induction bad n stack arbitrary: v rule: scan_texts.induct)
  case (2 bad n current stack)
  have n: "\<not> MAX_ROUTER_SCAN_NODES < Suc n" using "2.prems"(1) by (auto split: if_splits)
  show ?case
  proof (cases current)
    case (JObj r)
    have keys: "\<not> list_ex (\<lambda>(k, _). bad k) r" using "2.prems"(1) JObj n by (auto split: if_splits)
    have rest: "scan_texts bad (Suc n) (rev (map snd r) @ stack) = Some False"
      using "2.prems"(1) JObj n keys by simp
    show ?thesis
    proof (cases "v \<in> set stack")
      case True
      with "2.IH"(7) [OF n JObj keys rest _ "2.prems"(3)] show ?thesis by simp
    next
      case False
      with "2.prems"(2,3) JObj have "str \<in> fst ` set r \<or> (\<exists>w \<in> snd ` set r. str \<in> set (strings_of w))"
        by (auto simp: record_strings simp del: strings_of.simps)
      with "2.IH"(7) [OF n JObj keys rest] keys show ?thesis by (force simp: list_ex_iff)
    qed
  next
    case (JArr vs)
    then have rest: "scan_texts bad (Suc n) (rev vs @ stack) = Some False" using "2.prems"(1) n by simp
    from "2.prems"(2,3) JArr "2.IH"(6) [OF n JArr rest] show ?thesis by auto blast
  next
    case (JStr t)
    then have "\<not> bad t" "scan_texts bad (Suc n) stack = Some False"
      using "2.prems"(1) n by (auto split: if_splits)
    with "2.prems"(2,3) JStr "2.IH"(5) [OF n JStr] show ?thesis by auto
  qed (use "2.prems" "2.IH" n in auto)
qed simp

text \<open>No string and no key of the value holds the private model, the token or the base URL.\<close>

definition keeps_private :: "thread_router \<Rightarrow> jstr \<Rightarrow> jval \<Rightarrow> bool" where
  "keeps_private r provider_model v \<longleftrightarrow>
     (\<forall>str \<in> set (strings_of v). \<not> has_substring str provider_model
        \<and> \<not> has_substring str (pc_token (tr_config r)) \<and> \<not> has_substring str (pc_base_url (tr_config r)))"

lemma scans_keep_private:
  assumes "contains_private_route v m = Some False" and "\<not> contains_private_provider_material r v"
  shows "keeps_private r m v"
  using assms scan_texts_clean [of "\<lambda>str. has_substring str m" 0 "[v]" v] scan_exact [of 0 "tr_config r" "[v]"]
  by (auto simp: keeps_private_def contains_private_route_def contains_private_provider_material_def leaks_secret_def)

lemma keeps_private_config: "tr_config r = tr_config r' \<Longrightarrow> keeps_private r m v = keeps_private r' m v"
  by (simp add: keeps_private_def)

section \<open>What leaves the facade\<close>

lemma web_notification_private:
  assumes "web_notification r n t m = Inr d"
  shows "d = Drop \<or> (\<exists>x. d = Forward x \<and> keeps_private r m (JObj x))"
proof -
  obtain y where y: "(case contains_private_route (JObj y) m of
        None \<Rightarrow> throw (Inr (Integrity_Failure (js ''routing.invalid_upstream_result'')))
      | Some found \<Rightarrow>
          if found \<or> contains_private_provider_material r (JObj y) then return Drop
          else return (Forward y)) = (Inr d :: (facade_error + server_failure, dispatch) result)"
    using assms unfolding web_notification_def Let_def and_then_eq_Inr by blast
  then have "d = Drop \<or> d = Forward y \<and> contains_private_route (JObj y) m = Some False
      \<and> \<not> contains_private_provider_material r (JObj y)"
    by (auto split: option.splits if_splits)
  then show ?thesis using scans_keep_private by blast
qed

lemma settled_web_private:
  assumes "settled_response e (Settled_Committed p) r = Inr x" and "pr_kind p = Web"
  shows "\<exists>m model result. pr_provider_model p = Some m \<and> pr_model p = Some model
    \<and> field x ''result'' = JObj result \<and> field result ''model'' = JStr model
    \<and> field x ''id'' = field e ''id'' \<and> keeps_private r m (JObj x)"
proof -
  obtain y where y: "sanitize_web_lifecycle_response e p = Inr y" "y = x"
    and clear: "\<not> contains_private_provider_material r (JObj x)"
    using assms by (auto simp: settled_response_def outcome_simps reject_if_def split: if_splits)
  obtain model m result where p: "pr_model p = Some model" "pr_provider_model p = Some m"
      "read_data_record (field e ''result'') = Some result"
    using y(1) unfolding sanitize_web_lifecycle_response_def Let_def
    by (cases "pr_model p"; cases "pr_provider_model p"; cases "read_data_record (field e ''result'')") simp_all
  from y p have "x = set_field ''result'' (JObj (set_field ''model'' (JStr model) result)) e"
    and "contains_private_route (JObj x) m = Some False"
    by (auto simp: sanitize_web_lifecycle_response_def Let_def split: if_splits)
  with p scans_keep_private [OF _ clear] show ?thesis by (auto simp: field_set_field)
qed

text \<open>The answer to a lifecycle request that was routed to the Web.\<close>

lemma settled_web_answer:
  assumes router: "router_inv r0" and settled: "settle_thread_lifecycle r0 Client_To_Server (JObj e) = (Inr outcome, r)"
    and serialized: "serialize_directional_request_id Client_To_Server (field e ''id'') = Inr key"
    and pending: "map_of (tr_pending r0) key = Some p" "pr_kind (pd_route p) = Web"
    and answered: "settled_response e outcome r = Inr x"
  shows "(\<exists>code. x = internal_failure (field e ''id'') code)
    \<or> (\<exists>m model result t. pr_provider_model (pd_route p) = Some m
         \<and> pr_model (pd_route p) = Some model \<and> keeps_private r0 m (JObj x)
         \<and> field x ''id'' = field e ''id'' \<and> field x ''result'' = JObj result
         \<and> field result ''model'' = JStr model \<and> map_of (tr_threads r) t = Some (pd_route p))"
proof (cases outcome)
  case (Settled_Committed c)
  obtain key' p' response t where pinned: "JObj e = JObj response"
      "serialize_directional_request_id Client_To_Server (field response ''id'') = Inr key'"
      "map_of (tr_pending r0) key' = Some p'"
      "\<forall>u. map_of (tr_threads r) u = (if u = t then Some c else map_of (tr_threads r0) u)"
      "pr_kind c = pr_kind (pd_route p')" "pr_kind c = Web \<longrightarrow> c = pd_route p'"
    using settlement_facts [OF router settled [unfolded Settled_Committed]] by blast
  have c: "c = pd_route p" "map_of (tr_threads r) t = Some c" "pr_kind c = Web"
    using pinned serialized pending by simp_all
  obtain m model result where x: "pr_provider_model c = Some m" "pr_model c = Some model"
      "field x ''result'' = JObj result" "field result ''model'' = JStr model"
      "field x ''id'' = field e ''id''" "keeps_private r m (JObj x)"
    using settled_web_private [OF answered [unfolded Settled_Committed] c(3)] by blast
  have "keeps_private r0 m (JObj x)" using x(6) keeps_private_config [OF settle_config [OF settled]] by blast
  with x c(1,2) show ?thesis by blast
next
  case (Settled_Failed k)
  have "k = Web"
    using settled [unfolded Settled_Failed]
  proof (cases rule: settle_cases)
    case (released key' q t)
    with serialized pending show ?thesis by simp
  qed (auto elim: commit_route_cases)
  with answered Settled_Failed show ?thesis by (auto simp: settled_response_def)
qed (use answered in \<open>simp_all add: settled_response_def\<close>)

section \<open>Samples\<close>

text \<open>The limits of the scans are compared as integers when a sample is evaluated.\<close>

lemma scan_limits_evaluated [code_unfold]:
  "MAX_ROUTER_SCAN_NODES < n \<longleftrightarrow> (16384 :: int) < int n"
  "MAX_PRIVATE_MATERIAL_SCAN_NODES < n \<longleftrightarrow> (16384 :: int) < int n"
  by (simp_all add: MAX_ROUTER_SCAN_NODES_def MAX_PRIVATE_MATERIAL_SCAN_NODES_def)

definition empty_catalog :: model_catalog where
  "empty_catalog =
     \<lparr>mc_store = \<lparr>ck_entries = [], ck_max = 4, ck_prefix = js ''p:'', ck_ttl = 100\<rparr>,
      mc_default_limit = 2, mc_source = Fixed_Virtual []\<rparr>"

definition sample_facade :: facade where
  "sample_facade =
     \<lparr>fa_catalog = empty_catalog, fa_max_owned = 4, fa_owned = [], fa_router = sample_router, fa_initialized = 0\<rparr>"

definition sample_inputs :: catalog_inputs where
  "sample_inputs = \<lparr>ci_read_clock = NInt 0, ci_create_clock = NInt 0, ci_random = (\<lambda>_. JUndef)\<rparr>"

definition sample_start_message :: envelope where
  "sample_start_message =
     [(js ''id'', JNum (NInt 7)), (js ''method'', JStr (js ''thread/start'')), (js ''params'', lr_params sample_start)]"

definition sample_answer :: envelope where
  "sample_answer = (case sample_response of JObj r \<Rightarrow> r | _ \<Rightarrow> [])"

definition sample_owned :: facade where
  "sample_owned = sample_facade\<lparr>fa_owned := [(js ''client-to-server:number:7'', Owned_Lifecycle)],
     fa_router := sample_pending\<rparr>"

definition sample_bound :: facade where
  "sample_bound = sample_facade\<lparr>fa_router := sample_pinned\<rparr>"

definition sample_failure :: envelope where
  "sample_failure =
     [(js ''method'', JStr (js ''error'')),
      (js ''params'', JObj [(js ''threadId'', JStr (js ''t1'')),
         (js ''error'', JObj [(js ''message'', JStr (js ''connect http://127.0.0.1:4141/v1''))])])]"

lemma sample_facade_inv: "facade_inv sample_facade"
  using sample_router_inv by (simp add: facade_inv_def sample_facade_def sample_router_def)

lemma sample_request_owned:
  "\<exists>x. handle_client sample_inputs sample_start_message sample_facade = (Forward x, sample_owned)"
proof -
  have "(case handle_client sample_inputs sample_start_message sample_facade of
      (Forward _, s) \<Rightarrow> fa_owned s = fa_owned sample_owned \<and> fa_router s = fa_router sample_owned
        \<and> fa_catalog s = fa_catalog sample_owned \<and> fa_max_owned s = 4 \<and> fa_initialized s = 0 | _ \<Rightarrow> False)"
    by code_simp
  then show ?thesis by (auto simp: sample_owned_def sample_facade_def split: prod.splits dispatch.splits)
qed

lemma sample_answered:
  "(case handle_server sample_inputs sample_answer sample_owned of
      (Inr (Forward x), s) \<Rightarrow> field x ''result'' \<noteq> JUndef | _ \<Rightarrow> False)"
  by code_simp

lemma sample_reported:
  "(case handle_server sample_inputs sample_failure sample_bound of
      (Inr (Forward _), s) \<Rightarrow> True | _ \<Rightarrow> False)"
  by code_simp

section \<open>Properties\<close>

text \<open>
  C16. In every state the facade can reach, from a router and a facade as their constructors build
  them, the thread router awaits exactly the lifecycle requests that the facade owns, under the
  same keys; no key is owned twice, the capacity is kept, and the router's own invariant holds.
\<close>

theorem facade_bookkeeping_agrees:
  assumes "new_thread_router parse_url base_url token max_pending max_threads m = Inr r0"
    and "well_formed_registry m" and "new_facade max_owned catalog r0 = Some s0"
    and "facade_step\<^sup>*\<^sup>* s0 s"
  shows "router_inv (fa_router s) \<and> distinct (map fst (fa_owned s)) \<and> length (fa_owned s) \<le> fa_max_owned s
    \<and> (\<forall>k. map_of (tr_pending (fa_router s)) k \<noteq> None \<longleftrightarrow> map_of (fa_owned s) k = Some Owned_Lifecycle)"
proof -
  have "tr_pending r0 = []" using assms(1) by (auto simp: new_thread_router_def outcome_simps)
  then have "facade_inv s0" by (intro new_facade_inv [OF assms(3)] new_router_inv [OF assms(1,2)])
  from facade_steps_inv [OF assms(4) this] show ?thesis by (simp add: facade_inv_def)
qed

theorem facade_bookkeeping_agrees_witness:
  "map_of (fa_owned sample_owned) (js ''client-to-server:number:7'') = Some Owned_Lifecycle
   \<and> map_of (tr_pending (fa_router sample_owned)) (js ''client-to-server:number:7'') \<noteq> None"
proof -
  have built: "new_facade (Some (NInt 4)) empty_catalog sample_router = Some sample_facade"
    by (simp add: new_facade_def sample_facade_def)
  have "facade_step\<^sup>*\<^sup>* sample_facade sample_owned" using sample_request_owned by (auto intro: from_client)
  from facade_bookkeeping_agrees [OF sample_built sample_registry_ok built this]
  show ?thesis by (simp add: sample_owned_def)
qed

text \<open>
  C17. A request of the client is forwarded or answered, never dropped: a forwarded request keeps its
  identifier and is owned from then on, under a key that was free; an answered one, refused or
  served from the catalog, leaves the owned requests and the thread router exactly as they were.
\<close>

theorem request_owned_or_answered:
  assumes "facade_inv s" and "app_server_request e" and "is_request e"
    and "handle_client inp e s = (d, s')"
  shows "case d of
      Forward x \<Rightarrow> field x ''id'' = field e ''id''
        \<and> (\<exists>key owned. request_key (field e ''id'') = return key \<and> map_of (fa_owned s) key = None
             \<and> fa_owned s' = AList.update key owned (fa_owned s))
    | Reply x \<Rightarrow> field x ''id'' = field e ''id'' \<and> fa_owned s' = fa_owned s \<and> fa_router s' = fa_router s
    | Drop \<Rightarrow> False"
proof -
  obtain r s1 where handled: "handle_request inp e s = (r, s1)" by fastforce
  have "field (failure_response c b msg v) ''id'' = v" for c b msg v
    by (simp add: failure_response_def field_def)
  with handle_request_outcome [OF assms(1,2) handled] assms(3,4) handled show ?thesis
    by (auto simp: handle_client_def request_outcome_def routing_failure_def split: sum.splits dispatch.splits)
qed

theorem request_owned_or_answered_witness:
  "map_of (fa_owned sample_facade) (js ''client-to-server:number:7'') = None
   \<and> (\<exists>key owned. fa_owned sample_owned = AList.update key owned (fa_owned sample_facade))"
proof -
  obtain x where sent: "handle_client sample_inputs sample_start_message sample_facade = (Forward x, sample_owned)"
    using sample_request_owned by blast
  have "app_server_request sample_start_message" by code_simp
  moreover have "is_request sample_start_message" by code_simp
  ultimately show ?thesis
    using request_owned_or_answered [OF sample_facade_inv _ _ sent] by (auto simp: sample_facade_def)
qed

text \<open>
  C18. Every response of the app server to an owned request releases it, whatever becomes of the
  response, an integrity failure included: the key is free again, no decision is left pending under
  it, and every other owned request is untouched.
\<close>

theorem response_releases_request:
  assumes "facade_inv s" and "is_response e" and "request_key (field e ''id'') = Inr key"
    and "map_of (fa_owned s) key = Some w" and "handle_server inp e s = (x, s')"
  shows "map_of (fa_owned s') key = None \<and> map_of (tr_pending (fa_router s')) key = None
    \<and> length (fa_owned s') < length (fa_owned s)
    \<and> (\<forall>k. k \<noteq> key \<longrightarrow> map_of (fa_owned s') k = map_of (fa_owned s) k)"
proof -
  let ?s = "s\<lparr>fa_owned := AList.delete key (fa_owned s)\<rparr>"
  obtain y s1 where answer: "answer_owned inp w e ?s = (y, s1)" by fastforce
  have s': "s' = s1"
    using assms(2-5) answer
    by (auto simp: handle_server_def handle_server_response_def is_request_def is_response_def
        split: sum.splits prod.splits)
  have router: "router_inv (fa_router ?s)" and distinct: "distinct (map fst (fa_owned s))"
    using assms(1) by (simp_all add: facade_inv_def)
  have owned: "fa_owned s' = AList.delete key (fa_owned s)"
    unfolding s' by (rule answer_owned_frame [OF answer assms(3) router]) simp
  have "facade_inv s'" using handle_server_inv [OF assms(1,5)] .
  then have "map_of (tr_pending (fa_router s')) key = None"
    unfolding facade_inv_def by (metis owned map_of_alist_delete option.distinct(1))
  moreover have "length (AList.delete key (fa_owned s)) < length (fa_owned s)"
    using assms(4) distinct length_pos_if_in_set [OF map_of_SomeD [OF assms(4)]]
    by (simp add: length_alist_delete)
  ultimately show ?thesis by (simp add: owned map_of_alist_delete)
qed

theorem response_releases_request_witness:
  "\<exists>x s'. handle_server sample_inputs sample_answer sample_owned = (x, s') \<and> fa_owned s' = []"
proof -
  obtain x s' where answer: "handle_server sample_inputs sample_answer sample_owned = (x, s')" by fastforce
  obtain y where sent: "handle_client sample_inputs sample_start_message sample_facade = (Forward y, sample_owned)"
    using sample_request_owned by blast
  have inv: "facade_inv sample_owned" by (rule handle_client_inv [OF sample_facade_inv sent])
  have key: "request_key (field sample_answer ''id'') = Inr (js ''client-to-server:number:7'')"
    and response: "is_response sample_answer" by code_simp+
  have owned: "map_of (fa_owned sample_owned) (js ''client-to-server:number:7'') = Some Owned_Lifecycle"
    by (simp add: sample_owned_def)
  have "length (fa_owned sample_owned) = 1" by (simp add: sample_owned_def)
  with response_releases_request [OF inv response key owned answer] answer show ?thesis by simp
qed

text \<open>
  C19. What the client receives for a lifecycle request that was routed to the Web is either a
  generic internal failure or the upstream answer naming the public model, with no string and no
  key anywhere in it that holds the private model, the capability token or the base URL; and then
  the route is pinned.
\<close>

theorem web_answer_private:
  assumes "facade_inv s" and "is_response e" and "request_key (field e ''id'') = Inr key"
    and "map_of (tr_pending (fa_router s)) key = Some p" and "pr_kind (pd_route p) = Web"
    and "handle_server inp e s = (Inr d, s')"
  shows "(\<exists>code. d = Forward (internal_failure (field e ''id'') code))
    \<or> (\<exists>x m model result t. d = Forward x \<and> pr_provider_model (pd_route p) = Some m
         \<and> pr_model (pd_route p) = Some model \<and> keeps_private (fa_router s) m (JObj x)
         \<and> field x ''id'' = field e ''id'' \<and> field x ''result'' = JObj result
         \<and> field result ''model'' = JStr model \<and> get_thread_route (fa_router s') t = Some (pd_route p))"
proof -
  have owned: "map_of (fa_owned s) key = Some Owned_Lifecycle" and router: "router_inv (fa_router s)"
    using assms(1,4) unfolding facade_inv_def by (metis option.distinct(1), blast)
  obtain st r where settled: "settle_thread_lifecycle (fa_router s) Client_To_Server (JObj e) = (st, r)" by fastforce
  have serialized: "serialize_directional_request_id Client_To_Server (field e ''id'') = Inr key"
    using assms(3) by (simp add: request_key_Inr)
  note call = assms(2,3,6) owned settled
  note ops = handle_server_def handle_server_response_def answer_owned_def is_request_def is_response_def
  show ?thesis
  proof (cases st)
    case (Inl err)
    with call show ?thesis by (auto simp: ops)
  next
    case (Inr outcome)
    show ?thesis
    proof (cases "settled_response e outcome r")
      case (Inl err)
      with Inr call show ?thesis by (cases err) (auto simp: ops)
    next
      case answered: (Inr x)
      then have "d = Forward x" "fa_router s' = r" using Inr call by (auto simp: ops)
      with settled_web_answer [OF router settled [unfolded Inr] serialized assms(4,5) answered]
      show ?thesis unfolding get_thread_route_def by blast
    qed
  qed
qed

theorem web_answer_private_witness:
  "\<exists>x s'. handle_server sample_inputs sample_answer sample_owned = (Inr (Forward x), s')
     \<and> keeps_private sample_pending sample_provider (JObj x)"
proof -
  obtain x s' where answer: "handle_server sample_inputs sample_answer sample_owned = (Inr (Forward x), s')"
      and result: "field x ''result'' \<noteq> JUndef"
    using sample_answered by (auto split: prod.splits sum.splits dispatch.splits)
  obtain y where sent: "handle_client sample_inputs sample_start_message sample_facade = (Forward y, sample_owned)"
    using sample_request_owned by blast
  have inv: "facade_inv sample_owned" by (rule handle_client_inv [OF sample_facade_inv sent])
  have key: "request_key (field sample_answer ''id'') = Inr (js ''client-to-server:number:7'')"
    and response: "is_response sample_answer" by code_simp+
  define p where "p = the (map_of (tr_pending (fa_router sample_owned)) (js ''client-to-server:number:7''))"
  have p: "map_of (tr_pending (fa_router sample_owned)) (js ''client-to-server:number:7'') = Some p"
    "pd_route p = sample_route"
    by (simp_all add: p_def sample_owned_def sample_pending_def)
  have "field (internal_failure v code) ''result'' = JUndef" for v code
    by (simp add: internal_failure_def failure_response_def field_def)
  with web_answer_private [OF inv response key p(1) _ answer] result answer p(2) show ?thesis
    by (auto simp: sample_route_def sample_owned_def)
qed

text \<open>
  A notification about a pinned Web thread reaches the client only with no string and no key
  anywhere in it that holds the private model, the capability token or the base URL, whatever its
  method; this is what rewriting warnings and failures and dropping the rest amounts to.
\<close>

theorem web_notification_keeps_private:
  assumes "handle_server inp n s = (Inr d, s')" and "\<not> has_key ''id'' n"
    and "read_notification_thread_id (field n ''params'') = Some t"
    and "get_thread_route (fa_router s) t = Some p" and "pr_kind p = Web" and "pr_provider_model p = Some m"
  shows "d = Drop \<or> (\<exists>x. d = Forward x \<and> keeps_private (fa_router s) m (JObj x))"
proof -
  define r where "r = (if method_of n = js ''thread/deleted'' then snd (forget_thread t (fa_router s)) else fa_router s)"
  have config: "tr_config r = tr_config (fa_router s)" by (simp add: r_def forget_thread_def)
  have "handle_server_notification n s = (Inr d, s')"
    using assms(1,2) by (simp add: handle_server_def is_request_def is_response_def)
  then have sent: "web_notification r n t m = Inr d"
    using assms(3-6) by (cases "method_of n = js ''thread/deleted''")
        ((simp_all add: handle_server_notification_def Let_def r_def split: sum.splits), auto)
  with web_notification_private keeps_private_config [OF config] show ?thesis by blast
qed

theorem web_notification_keeps_private_witness:
  "\<exists>x s'. handle_server sample_inputs sample_failure sample_bound = (Inr (Forward x), s')
     \<and> keeps_private sample_pinned sample_provider (JObj x)"
proof -
  obtain x s' where sent: "handle_server sample_inputs sample_failure sample_bound = (Inr (Forward x), s')"
    using sample_reported by (auto split: prod.splits sum.splits dispatch.splits)
  have "\<not> has_key ''id'' sample_failure" and "read_notification_thread_id (field sample_failure ''params'') = Some (js ''t1'')"
    by code_simp+
  moreover have "get_thread_route (fa_router sample_bound) (js ''t1'') = Some sample_route"
    by (simp add: sample_bound_def get_thread_route_def sample_pinned_route)
  ultimately show ?thesis
    using web_notification_keeps_private [OF sent] sent by (auto simp: sample_route_def sample_bound_def)
qed

end
