(* ===== verification/Json_Text.thy ===== *)
theory Json_Text
  imports Js_Value "HOL-Library.List_Lexorder"
begin

text \<open>
  JSON text as the JavaScript library reads and writes it, on UTF-16 strings: the byte length of
  a string, \<open>JSON.stringify\<close> of a string and of a number, and \<open>JSON.parse\<close>. The value of a decimal
  text, \<open>Number(text)\<close>, is the parameter \<open>num\<close>. The entries of a parsed object are listed in the
  order of the text; the code that uses them sorts the keys or reads fields by name.
\<close>

section \<open>Unicode\<close>

definition is_high_surrogate :: "code_unit \<Rightarrow> bool" where
  "is_high_surrogate c \<longleftrightarrow> 55296 \<le> c \<and> c \<le> 56319"

definition is_low_surrogate :: "code_unit \<Rightarrow> bool" where
  "is_low_surrogate c \<longleftrightarrow> 56320 \<le> c \<and> c \<le> 57343"

text \<open>\<open>new TextEncoder().encode(s).byteLength\<close>; a lone surrogate is encoded as U+FFFD.\<close>

fun utf8_length :: "jstr \<Rightarrow> nat" where
  "utf8_length [] = 0"
| "utf8_length (c # s) =
     (if c < 128 then 1 + utf8_length s
      else if c < 2048 then 2 + utf8_length s
      else if is_high_surrogate c then
        (case s of
           d # s' \<Rightarrow> if is_low_surrogate d then 4 + utf8_length s' else 3 + utf8_length s
         | [] \<Rightarrow> 3)
      else 3 + utf8_length s)"

section \<open>Writing\<close>

definition hex_digit :: "nat \<Rightarrow> code_unit" where
  "hex_digit n = (if n < 10 then of_nat (48 + n) else of_nat (87 + n))"

text \<open>The code units one code unit becomes inside a JSON string.\<close>

definition quote_unit :: "code_unit \<Rightarrow> jstr" where
  "quote_unit c =
     (if c = 34 \<or> c = 92 then [92, c]
      else if c = 8 then [92, 98]
      else if c = 9 then [92, 116]
      else if c = 10 then [92, 110]
      else if c = 12 then [92, 102]
      else if c = 13 then [92, 114]
      else if c < 32 then [92, 117, 48, 48, hex_digit (unat c div 16), hex_digit (unat c mod 16)]
      else [c])"

text \<open>\<open>JSON.stringify(s)\<close> of a string without lone surrogates.\<close>

definition quote_text :: "jstr \<Rightarrow> jstr" where
  "quote_text s = 34 # concat (map quote_unit s) @ [34]"

text \<open>\<open>JSON.stringify(n)\<close> of a number.\<close>

fun number_text :: "jnum \<Rightarrow> jstr" where
  "number_text (NInt i) = int_text i"
| "number_text NNegZero = js ''0''"
| "number_text (NFrac s) = s"
| "number_text _ = js ''null''"

section \<open>Reading\<close>

definition is_json_space :: "code_unit \<Rightarrow> bool" where
  "is_json_space c \<longleftrightarrow> c = 32 \<or> c = 9 \<or> c = 10 \<or> c = 13"

definition skip_space :: "jstr \<Rightarrow> jstr" where
  "skip_space s = dropWhile is_json_space s"

definition take_unit :: "code_unit \<Rightarrow> jstr \<Rightarrow> jstr option" where
  "take_unit c s = (case s of [] \<Rightarrow> None | d # s' \<Rightarrow> if d = c then Some s' else None)"

definition take_literal :: "string \<Rightarrow> jstr \<Rightarrow> jstr option" where
  "take_literal t s = (if prefix (js t) s then Some (drop (length t) s) else None)"

definition hex_value :: "code_unit \<Rightarrow> nat option" where
  "hex_value c =
     (if is_digit_unit c then Some (unat c - 48)
      else if 65 \<le> c \<and> c \<le> 70 then Some (unat c - 55)
      else if 97 \<le> c \<and> c \<le> 102 then Some (unat c - 87)
      else None)"

definition hex4 :: "code_unit \<Rightarrow> code_unit \<Rightarrow> code_unit \<Rightarrow> code_unit \<Rightarrow> code_unit option" where
  "hex4 a b c d =
     (case (hex_value a, hex_value b, hex_value c, hex_value d) of
        (Some w, Some x, Some y, Some z) \<Rightarrow> Some (of_nat (4096 * w + 256 * x + 16 * y + z))
      | _ \<Rightarrow> None)"

definition simple_escape :: "code_unit \<Rightarrow> code_unit option" where
  "simple_escape c =
     (if c = 34 \<or> c = 92 \<or> c = 47 then Some c
      else if c = 98 then Some 8
      else if c = 102 then Some 12
      else if c = 110 then Some 10
      else if c = 114 then Some 13
      else if c = 116 then Some 9
      else None)"

text \<open>What a backslash starts: one code unit, and what follows it.\<close>

definition read_escape :: "jstr \<Rightarrow> (code_unit \<times> jstr) option" where
  "read_escape s =
     (case s of
        [] \<Rightarrow> None
      | e # s1 \<Rightarrow>
          if e = 117 then
            (case s1 of
               h1 # h2 # h3 # h4 # s2 \<Rightarrow> map_option (\<lambda>u. (u, s2)) (hex4 h1 h2 h3 h4)
             | _ \<Rightarrow> None)
          else map_option (\<lambda>u. (u, s1)) (simple_escape e))"

lemma read_escape_shorter: "read_escape s = Some (u, t) \<Longrightarrow> length t < length s"
  by (auto simp: read_escape_def split: list.splits if_splits)

text \<open>The characters of a string after its opening quote, and what follows the closing quote.\<close>

function read_chars :: "jstr \<Rightarrow> (jstr \<times> jstr) option" where
  "read_chars [] = None"
| "read_chars (c # s) =
     (if c = 34 then Some ([], s)
      else if c = 92 then
        (case read_escape s of
           None \<Rightarrow> None
         | Some (u, s') \<Rightarrow> map_option (\<lambda>(v, t). (u # v, t)) (read_chars s'))
      else if c < 32 then None
      else map_option (\<lambda>(v, t). (c # v, t)) (read_chars s))"
  by pat_completeness auto
termination
  by (relation "measure length") (auto dest: read_escape_shorter)

text \<open>
  The longest number at the front: \<open>-?(?:0|[1-9]\d*)(?:\.\d+)?(?:[eE][+-]?\d+)?\<close>, with what
  follows it.
\<close>

definition take_digits :: "jstr \<Rightarrow> jstr \<times> jstr" where
  "take_digits s = (takeWhile is_digit_unit s, dropWhile is_digit_unit s)"

definition take_sign :: "jstr \<Rightarrow> jstr \<times> jstr" where
  "take_sign s = (case take_unit 45 s of Some t \<Rightarrow> ([45], t) | None \<Rightarrow> ([], s))"

definition take_integer :: "jstr \<Rightarrow> (jstr \<times> jstr) option" where
  "take_integer s =
     (case s of
        [] \<Rightarrow> None
      | c # t \<Rightarrow> if c = 48 then Some ([48], t) else if is_digit_unit c then Some (take_digits s) else None)"

definition take_fraction :: "jstr \<Rightarrow> jstr \<times> jstr" where
  "take_fraction s =
     (case take_unit 46 s of
        None \<Rightarrow> ([], s)
      | Some t \<Rightarrow> (case take_digits t of (ds, u) \<Rightarrow> if ds = [] then ([], s) else (46 # ds, u)))"

definition take_exponent :: "jstr \<Rightarrow> jstr \<times> jstr" where
  "take_exponent s =
     (case s of
        [] \<Rightarrow> ([], s)
      | e # t \<Rightarrow>
          if e \<noteq> 69 \<and> e \<noteq> 101 then ([], s)
          else
            (case (case t of c # u \<Rightarrow> if c = 43 \<or> c = 45 then ([c], u) else ([], t) | [] \<Rightarrow> ([], t)) of
               (sign, u) \<Rightarrow>
                 (case take_digits u of (ds, rest) \<Rightarrow> if ds = [] then ([], s) else (e # sign @ ds, rest))))"

definition take_number :: "jstr \<Rightarrow> (jstr \<times> jstr) option" where
  "take_number s =
     (case take_sign s of (sign, s1) \<Rightarrow>
      case take_integer s1 of
        None \<Rightarrow> None
      | Some (whole, s2) \<Rightarrow>
          (case take_fraction s2 of (fraction, s3) \<Rightarrow>
           case take_exponent s3 of (expo, s4) \<Rightarrow> Some (sign @ whole @ fraction @ expo, s4)))"

lemma length_skip_space: "length (skip_space s) \<le> length s"
  by (simp add: skip_space_def length_dropWhile_le)

lemma take_unit_Some: "take_unit c s = Some t \<longleftrightarrow> s = c # t"
  by (auto simp: take_unit_def split: list.splits if_splits)

lemma take_literal_Some: "take_literal l s = Some t \<longleftrightarrow> s = js l @ t"
  by (auto simp: take_literal_def prefix_def)

lemma read_chars_shorter: "read_chars s = Some (v, t) \<Longrightarrow> length t < length s"
proof (induction s arbitrary: v rule: read_chars.induct)
  case (2 c s)
  consider "c = 34" | "c = 92" | "c \<noteq> 34" "c \<noteq> 92" by blast
  then show ?case
  proof cases
    case 2
    with "2.prems" obtain u s' w where step: "read_escape s = Some (u, s')" "read_chars s' = Some (w, t)"
      by (auto split: option.splits)
    have "length t < length s'" using "2.IH"(1) [OF _ 2 step(1) refl step(2)] 2 by simp
    with read_escape_shorter [OF step(1)] show ?thesis by simp
  next
    case 3
    with "2.prems" obtain w where step: "\<not> c < 32" "read_chars s = Some (w, t)" by (auto split: if_splits)
    from "2.IH"(2) [OF 3 step] show ?thesis by simp
  qed (use "2.prems" in simp)
qed simp

lemma take_digits_split: "take_digits s = (ds, t) \<Longrightarrow> s = ds @ t"
  by (auto simp: take_digits_def)

lemma take_number_split:
  assumes "take_number s = Some (raw, t)"
  shows "s = raw @ t \<and> raw \<noteq> []"
proof -
  obtain sign s1 where sign: "take_sign s = (sign, s1)" by fastforce
  obtain whole s2 where whole: "take_integer s1 = Some (whole, s2)"
    using assms sign by (auto simp: take_number_def split: option.splits)
  obtain fraction s3 where fraction: "take_fraction s2 = (fraction, s3)" by fastforce
  obtain expo where expo: "take_exponent s3 = (expo, t)" "raw = sign @ whole @ fraction @ expo"
    using assms sign whole fraction by (auto simp: take_number_def split: prod.splits)
  have "s = sign @ s1" using sign by (auto simp: take_sign_def take_unit_Some split: option.splits)
  moreover have "s1 = whole @ s2 \<and> whole \<noteq> []"
    using whole by (auto simp: take_integer_def take_digits_def split: list.splits if_splits)
  moreover have "s2 = fraction @ s3"
    using fraction by (auto simp: take_fraction_def take_unit_Some take_digits_def split: option.splits if_splits)
  moreover have "s3 = expo @ t"
    using expo(1) by (auto simp: take_exponent_def take_digits_def split: list.splits if_splits)
  ultimately show ?thesis using expo(2) by simp
qed

section \<open>Values\<close>

text \<open>
  \<open>JSON.parse\<close> at a value, at the next key of an object and at the next element of an array, with
  what follows. A repeated key keeps its place and takes the last value.
\<close>

function parse_value :: "(jstr \<Rightarrow> jnum) \<Rightarrow> jstr \<Rightarrow> (jval \<times> jstr) option"
  and parse_members :: "(jstr \<Rightarrow> jnum) \<Rightarrow> data_record \<Rightarrow> jstr \<Rightarrow> (data_record \<times> jstr) option"
  and parse_elements :: "(jstr \<Rightarrow> jnum) \<Rightarrow> jstr \<Rightarrow> (jval list \<times> jstr) option" where
  "parse_value num [] = None"
| "parse_value num (c # s) =
     (if c = 123 then
        (case take_unit 125 (skip_space s) of
           Some t \<Rightarrow> Some (JObj [], t)
         | None \<Rightarrow> map_option (\<lambda>(r, t). (JObj r, t)) (parse_members num [] (skip_space s)))
      else if c = 91 then
        (case take_unit 93 (skip_space s) of
           Some t \<Rightarrow> Some (JArr [], t)
         | None \<Rightarrow> map_option (\<lambda>(vs, t). (JArr vs, t)) (parse_elements num (skip_space s)))
      else if c = 34 then map_option (\<lambda>(v, t). (JStr v, t)) (read_chars s)
      else if c = 116 then map_option (\<lambda>t. (JBool True, t)) (take_literal ''true'' (c # s))
      else if c = 102 then map_option (\<lambda>t. (JBool False, t)) (take_literal ''false'' (c # s))
      else if c = 110 then map_option (\<lambda>t. (JNull, t)) (take_literal ''null'' (c # s))
      else map_option (\<lambda>(raw, t). (JNum (num raw), t)) (take_number (c # s)))"
| "parse_members num acc s =
     Option.bind (take_unit 34 s) (\<lambda>s1.
     Option.bind (read_chars s1) (\<lambda>(k, s2).
     Option.bind (take_unit 58 (skip_space s2)) (\<lambda>s3.
     Option.bind (parse_value num (skip_space s3)) (\<lambda>(v, s4).
     case take_unit 125 (skip_space s4) of
       Some t \<Rightarrow> Some (AList.update k v acc, t)
     | None \<Rightarrow>
         Option.bind (take_unit 44 (skip_space s4)) (\<lambda>s5.
         parse_members num (AList.update k v acc) (skip_space s5))))))"
| "parse_elements num s =
     Option.bind (parse_value num s) (\<lambda>(v, s1).
     case take_unit 93 (skip_space s1) of
       Some t \<Rightarrow> Some ([v], t)
     | None \<Rightarrow>
         Option.bind (take_unit 44 (skip_space s1)) (\<lambda>s2.
         map_option (\<lambda>(vs, t). (v # vs, t)) (parse_elements num (skip_space s2))))"
  by pat_completeness auto

lemma take_unit_shorter: "take_unit c (skip_space s) = Some t \<Longrightarrow> length t < length s"
  using length_skip_space [of s] by (simp add: take_unit_Some)

lemma member_key_shorter:
  assumes "take_unit 34 s = Some s1" "read_chars s1 = Some (k, s2)" "take_unit 58 (skip_space s2) = Some s3"
  shows "length (skip_space s3) < length s"
  using assms read_chars_shorter [OF assms(2)] take_unit_shorter [OF assms(3)] length_skip_space [of s3]
  by (auto simp: take_unit_Some)

lemma parse_shorter:
  "parse_value_parse_members_parse_elements_dom (Inl (num, s)) \<Longrightarrow>
     parse_value num s = Some (v, t) \<Longrightarrow> length t < length s"
  "parse_value_parse_members_parse_elements_dom (Inr (Inl (num, acc, s))) \<Longrightarrow>
     parse_members num acc s = Some (r, t) \<Longrightarrow> length t < length s"
  "parse_value_parse_members_parse_elements_dom (Inr (Inr (num, s))) \<Longrightarrow>
     parse_elements num s = Some (vs, t) \<Longrightarrow> length t < length s"
proof (induction num s and num acc s and num s arbitrary: v t and r t and vs t
    rule: parse_value_parse_members_parse_elements.pinduct)
  case (1 num)
  then show ?case by (simp add: parse_value.psimps)
next
  case (2 num c s)
  note prem = "2.prems" [unfolded parse_value.psimps(2) [OF "2.hyps"]]
  consider "c = 123" | "c = 91" | "c = 34" | "c \<notin> {123, 91, 34}" by blast
  then show ?case
  proof cases
    case 1
    show ?thesis
    proof (cases "take_unit 125 (skip_space s)")
      case None
      with prem 1 obtain r where "parse_members num [] (skip_space s) = Some (r, t)" by auto
      from "2.IH"(1) [OF 1 None this] length_skip_space [of s] show ?thesis by simp
    qed (use prem 1 take_unit_shorter [of 125 s] in simp)
  next
    case 2
    show ?thesis
    proof (cases "take_unit 93 (skip_space s)")
      case None
      with prem 2 obtain vs where "parse_elements num (skip_space s) = Some (vs, t)" by auto
      from "2.IH"(2) [OF _ 2 None this] 2 length_skip_space [of s] show ?thesis by simp
    qed (use prem 2 take_unit_shorter [of 93 s] in simp)
  next
    case 3
    with prem read_chars_shorter [of s] show ?thesis by fastforce
  next
    case 4
    have "length t < length (c # s)" if "take_number (c # s) = Some (raw, t)" for raw
      using take_number_split [OF that] by simp
    moreover have "length t < length (c # s)" if "c # s = js l @ t" "l \<noteq> []" for l
      using arg_cong [OF that(1), of length] that(2) by simp
    moreover have "(\<exists>l. take_literal l (c # s) = Some t \<and> l \<noteq> []) \<or> (\<exists>raw. take_number (c # s) = Some (raw, t))"
      using prem 4 by (auto split: if_splits)
    ultimately show ?thesis unfolding take_literal_Some by blast
  qed
next
  case (3 num acc s)
  from 3(1,4) obtain s1 k s2 s3 v s4 where steps: "take_unit 34 s = Some s1" "read_chars s1 = Some (k, s2)"
      "take_unit 58 (skip_space s2) = Some s3" "parse_value num (skip_space s3) = Some (v, s4)"
    by (auto simp: parse_members.psimps bind_eq_Some_conv)
  have "length s4 < length (skip_space s3)" by (rule "3.IH"(1) [OF steps(1,2) refl steps(3,4)])
  then have len: "length s4 < length s" using member_key_shorter [OF steps(1-3)] by simp
  show ?case
  proof (cases "take_unit 125 (skip_space s4)")
    case (Some u)
    with 3(1,4) steps take_unit_shorter [OF Some] len show ?thesis by (auto simp: parse_members.psimps)
  next
    case None
    with 3(1,4) steps obtain s5 where rest: "take_unit 44 (skip_space s4) = Some s5"
        "parse_members num (AList.update k v acc) (skip_space s5) = Some (r, t)"
      by (auto simp: parse_members.psimps bind_eq_Some_conv)
    from "3.IH"(2) [OF steps(1,2) refl steps(3,4) refl None rest] take_unit_shorter [OF rest(1)]
      length_skip_space [of s5] len show ?thesis by simp
  qed
next
  case (4 num s)
  from 4(1,4) obtain v s1 where step: "parse_value num s = Some (v, s1)"
    by (auto simp: parse_elements.psimps bind_eq_Some_conv)
  have len: "length s1 < length s" by (rule "4.IH"(1) [OF step])
  show ?case
  proof (cases "take_unit 93 (skip_space s1)")
    case (Some u)
    with 4(1,4) step take_unit_shorter [OF Some] len show ?thesis by (auto simp: parse_elements.psimps)
  next
    case None
    with 4(1,4) step obtain s2 ws where rest: "take_unit 44 (skip_space s1) = Some s2"
        "parse_elements num (skip_space s2) = Some (ws, t)"
      by (auto simp: parse_elements.psimps bind_eq_Some_conv)
    from "4.IH"(2) [OF step refl None rest] take_unit_shorter [OF rest(1)] length_skip_space [of s2] len
    show ?thesis by simp
  qed
qed

termination parse_value
proof (relation "measure (\<lambda>x. case x of Inl (num, s) \<Rightarrow> 2 * length s
      | Inr (Inl (num, acc, s)) \<Rightarrow> 2 * length s | Inr (Inr (num, s)) \<Rightarrow> Suc (2 * length s))", goal_cases)
  case (2 num c s)
  then show ?case using length_skip_space [of s] by simp
next
  case (3 num c s)
  then show ?case using length_skip_space [of s] by simp
next
  case (4 num acc s s1 y k s2 s3)
  then show ?case using member_key_shorter by auto
next
  case (5 num acc s s1 y k s2 s3 z v s4 s5)
  then have "length s4 < length (skip_space s3)" using parse_shorter(1) by blast
  with 5 member_key_shorter [of s s1 k s2 s3] take_unit_shorter [of 44 s4 s5] length_skip_space [of s5]
  show ?case by auto
next
  case (7 num s y v s1 s2)
  then have "length s1 < length s" using parse_shorter(1) by blast
  with 7 take_unit_shorter [of 44 s1 s2] length_skip_space [of s2] show ?case by auto
qed simp_all

text \<open>\<open>JSON.parse(text)\<close>; \<open>None\<close> is a \<open>SyntaxError\<close>.\<close>

definition json_parse :: "(jstr \<Rightarrow> jnum) \<Rightarrow> jstr \<Rightarrow> jval option" where
  "json_parse num s =
     (case parse_value num (skip_space s) of
        Some (v, t) \<Rightarrow> if skip_space t = [] then Some v else None
      | None \<Rightarrow> None)"

end
