(* ===== verification/Tool_Json.thy ===== *)
theory Tool_Json
  imports Json_Text "HOL-Library.Multiset"
begin

text \<open>
  The JSON of the tool workflow (\<open>packages/protocol/src/tool-workflow-v2.ts\<close>): the canonical text of
  a value and the scanner that a text has to pass before it is parsed.
\<close>

section \<open>Limits and errors\<close>

definition MAX_TOOL_WORKFLOW_JSON_DEPTH :: nat where "MAX_TOOL_WORKFLOW_JSON_DEPTH = 32"
definition MAX_TOOL_WORKFLOW_JSON_NODES :: nat where "MAX_TOOL_WORKFLOW_JSON_NODES = 4096"

datatype workflow_parse_error =
    Envelope_Invalid
  | Envelope_Too_Large
  | Json_Duplicate_Key
  | Json_Number_Invalid
  | Json_String_Invalid
  | Json_Unsafe_Key
  | Json_Too_Deep
  | Json_Too_Complex
  | Arguments_Too_Large
  | Final_Text_Too_Large

definition unsafe_json_keys :: "jstr list" where
  "unsafe_json_keys = [js ''__proto__'', js ''constructor'', js ''prototype'']"

fun has_lone_surrogate :: "jstr \<Rightarrow> bool" where
  "has_lone_surrogate [] = False"
| "has_lone_surrogate (c # s) =
     (if is_high_surrogate c then
        (case s of
           [] \<Rightarrow> True
         | d # s' \<Rightarrow> if is_low_surrogate d then has_lone_surrogate s' else True)
      else if is_low_surrogate c then True
      else has_lone_surrogate s)"

section \<open>Canonical text\<close>

text \<open>The \<open>RangeError\<close> and the \<open>TypeError\<close> of the canonicalization.\<close>

datatype canonical_error = Canonical_Range | Canonical_Type

definition canonicalize_number :: "jnum \<Rightarrow> (canonical_error, jstr) result" where
  "canonicalize_number n =
     (if \<not> is_finite_number n \<or> is_integer_number n \<and> \<not> is_safe_integer n then throw Canonical_Range
      else return (number_text n))"

definition canonicalize_string :: "jstr \<Rightarrow> (canonical_error, jstr) result" where
  "canonicalize_string s =
     (if has_lone_surrogate s then throw Canonical_Type else return (quote_text s))"

text \<open>\<open>serialized.join(",")\<close>\<close>

fun join_texts :: "jstr list \<Rightarrow> jstr" where
  "join_texts [] = []"
| "join_texts [s] = s"
| "join_texts (s # t # ts) = s @ 44 # join_texts (t # ts)"

text \<open>How much there is to write, which decreases on every call.\<close>

fun canonical_work :: "jval \<Rightarrow> nat" where
  "canonical_work (JArr vs) = Suc (sum_list (map (\<lambda>v. Suc (canonical_work v)) vs))"
| "canonical_work (JObj r) = Suc (sum_list (map (\<lambda>(k, v). Suc (canonical_work v)) r))"
| "canonical_work _ = 1"

lemma sum_list_sort_key: "sum_list (map (f :: 'a \<Rightarrow> nat) (sort_key g xs)) = sum_list (map f xs)"
  by (metis mset_map mset_sort sum_mset_sum_list)

text \<open>
  \<open>canonicalizeJsonValue\<close> at a depth, with the count of nodes before and after, and its loops over
  the elements of an array and over the sorted keys of an object.
\<close>

function canonicalize_value :: "jval \<Rightarrow> nat \<Rightarrow> nat \<Rightarrow> (canonical_error, jstr \<times> nat) result"
  and canonicalize_elements :: "jval list \<Rightarrow> nat \<Rightarrow> nat \<Rightarrow> (canonical_error, jstr list \<times> nat) result"
  and canonicalize_members :: "data_record \<Rightarrow> nat \<Rightarrow> nat \<Rightarrow> (canonical_error, jstr list \<times> nat) result" where
  "canonicalize_value v depth n =
     (if MAX_TOOL_WORKFLOW_JSON_DEPTH < depth then throw Canonical_Range
      else if MAX_TOOL_WORKFLOW_JSON_NODES < Suc n then throw Canonical_Range
      else case v of
          JNull \<Rightarrow> return (js ''null'', Suc n)
        | JBool b \<Rightarrow> return (if b then js ''true'' else js ''false'', Suc n)
        | JNum x \<Rightarrow> and_then (canonicalize_number x) (\<lambda>s. return (s, Suc n))
        | JStr x \<Rightarrow> and_then (canonicalize_string x) (\<lambda>s. return (s, Suc n))
        | JArr vs \<Rightarrow>
            and_then (canonicalize_elements vs depth (Suc n)) (\<lambda>(ss, m).
            return (91 # join_texts ss @ [93], m))
        | JObj r \<Rightarrow>
            and_then (canonicalize_members (sort_key fst r) depth (Suc n)) (\<lambda>(ss, m).
            return (123 # join_texts ss @ [125], m))
        | JUndef \<Rightarrow> throw Canonical_Type
        | JExotic \<Rightarrow> throw Canonical_Type)"
| "canonicalize_elements [] depth n = return ([], n)"
| "canonicalize_elements (v # vs) depth n =
     and_then (canonicalize_value v (Suc depth) n) (\<lambda>(s, m).
     and_then (canonicalize_elements vs depth m) (\<lambda>(ss, m'). return (s # ss, m')))"
| "canonicalize_members [] depth n = return ([], n)"
| "canonicalize_members ((k, v) # r) depth n =
     and_then (reject_if (k \<in> set unsafe_json_keys) Canonical_Type) (\<lambda>_.
     and_then (canonicalize_string k) (\<lambda>key.
     and_then (canonicalize_value v (Suc depth) n) (\<lambda>(s, m).
     and_then (canonicalize_members r depth m) (\<lambda>(ss, m'). return ((key @ 58 # s) # ss, m')))))"
  by pat_completeness auto
termination
  by (relation "measure (\<lambda>x. case x of Inl (v, _, _) \<Rightarrow> canonical_work v
      | Inr (Inl (vs, _, _)) \<Rightarrow> sum_list (map (\<lambda>v. Suc (canonical_work v)) vs)
      | Inr (Inr (r, _, _)) \<Rightarrow> sum_list (map (\<lambda>(k, v). Suc (canonical_work v)) r))")
    (auto simp: sum_list_sort_key)

definition canonicalize_tool_workflow_json :: "jval \<Rightarrow> (canonical_error, jstr) result" where
  "canonicalize_tool_workflow_json v = and_then (canonicalize_value v 1 0) (\<lambda>(s, _). return s)"

section \<open>The scanner\<close>

text \<open>The text of the escape after a backslash, without its value.\<close>

definition scan_escape :: "jstr \<Rightarrow> jstr option" where
  "scan_escape s =
     (case s of
        [] \<Rightarrow> None
      | e # s1 \<Rightarrow>
          if e = 117 then
            (case s1 of
               h1 # h2 # h3 # h4 # s2 \<Rightarrow>
                 if list_all (\<lambda>h. hex_value h \<noteq> None) [h1, h2, h3, h4] then Some s2 else None
             | _ \<Rightarrow> None)
          else if e \<in> set [34, 92, 47, 98, 102, 110, 114, 116] then Some s1
          else None)"

lemma scan_escape_shorter: "scan_escape s = Some t \<Longrightarrow> length t < length s"
  by (auto simp: scan_escape_def split: list.splits if_splits)

function scan_chars :: "jstr \<Rightarrow> jstr option" where
  "scan_chars [] = None"
| "scan_chars (c # s) =
     (if c = 34 then Some s
      else if c = 92 then (case scan_escape s of None \<Rightarrow> None | Some t \<Rightarrow> scan_chars t)
      else if c \<le> 31 then None
      else scan_chars s)"
  by pat_completeness auto
termination
  by (relation "measure length") (auto dest: scan_escape_shorter)

text \<open>\<open>#string\<close>: the value of the string at the front and what follows it.\<close>

definition scan_string :: "(jstr \<Rightarrow> jnum) \<Rightarrow> jstr \<Rightarrow> (workflow_parse_error, jstr \<times> jstr) result" where
  "scan_string num s =
     (case Option.bind (take_unit 34 s) scan_chars of
        None \<Rightarrow> throw Envelope_Invalid
      | Some t \<Rightarrow>
          (case json_parse num (take (length s - length t) s) of
             Some (JStr v) \<Rightarrow> if has_lone_surrogate v then throw Json_String_Invalid else return (v, t)
           | _ \<Rightarrow> throw Envelope_Invalid))"

definition scan_number :: "(jstr \<Rightarrow> jnum) \<Rightarrow> jstr \<Rightarrow> (workflow_parse_error, jstr) result" where
  "scan_number num s =
     (case take_number s of
        None \<Rightarrow> throw Envelope_Invalid
      | Some (raw, t) \<Rightarrow>
          let x = num raw in
          if \<not> is_finite_number x \<or> is_integer_number x \<and> \<not> is_safe_integer x \<or> number_text x \<noteq> raw
          then throw Json_Number_Invalid else return t)"

definition scan_literal :: "string \<Rightarrow> jstr \<Rightarrow> (workflow_parse_error, jstr) result" where
  "scan_literal l s = (case take_literal l s of None \<Rightarrow> throw Envelope_Invalid | Some t \<Rightarrow> return t)"

definition scan_expect :: "code_unit \<Rightarrow> jstr \<Rightarrow> (workflow_parse_error, jstr) result" where
  "scan_expect c s = (case take_unit c s of None \<Rightarrow> throw Envelope_Invalid | Some t \<Rightarrow> return t)"

text \<open>
  \<open>#value\<close> at a depth with the nodes seen so far, the loop of \<open>#object\<close> with the keys seen so far,
  and the loop of \<open>#array\<close>; they answer the count of nodes and what is left of the text.
\<close>

function scan_value ::
    "(jstr \<Rightarrow> jnum) \<Rightarrow> nat \<Rightarrow> nat \<Rightarrow> jstr \<Rightarrow> (workflow_parse_error, nat \<times> jstr) result"
  and scan_members ::
    "(jstr \<Rightarrow> jnum) \<Rightarrow> nat \<Rightarrow> jstr list \<Rightarrow> nat \<Rightarrow> jstr \<Rightarrow> (workflow_parse_error, nat \<times> jstr) result"
  and scan_elements ::
    "(jstr \<Rightarrow> jnum) \<Rightarrow> nat \<Rightarrow> nat \<Rightarrow> jstr \<Rightarrow> (workflow_parse_error, nat \<times> jstr) result" where
  "scan_value num depth n s =
     (if MAX_TOOL_WORKFLOW_JSON_DEPTH < depth then throw Json_Too_Deep
      else if MAX_TOOL_WORKFLOW_JSON_NODES < Suc n then throw Json_Too_Complex
      else case s of
          [] \<Rightarrow> throw Envelope_Invalid
        | c # s1 \<Rightarrow>
            if c = 123 then
              (case take_unit 125 (skip_space s1) of
                 Some t \<Rightarrow> return (Suc n, t)
               | None \<Rightarrow> scan_members num depth [] (Suc n) (skip_space s1))
            else if c = 91 then
              (case take_unit 93 (skip_space s1) of
                 Some t \<Rightarrow> return (Suc n, t)
               | None \<Rightarrow> scan_elements num depth (Suc n) (skip_space s1))
            else if c = 34 then and_then (scan_string num s) (\<lambda>(_, t). return (Suc n, t))
            else if c = 116 then and_then (scan_literal ''true'' s) (\<lambda>t. return (Suc n, t))
            else if c = 102 then and_then (scan_literal ''false'' s) (\<lambda>t. return (Suc n, t))
            else if c = 110 then and_then (scan_literal ''null'' s) (\<lambda>t. return (Suc n, t))
            else if c = 45 \<or> is_digit_unit c then and_then (scan_number num s) (\<lambda>t. return (Suc n, t))
            else throw Envelope_Invalid)"
| "scan_members num depth keys n s =
     and_then (scan_string num s) (\<lambda>(key, s1).
     and_then (reject_if (key \<in> set keys) Json_Duplicate_Key) (\<lambda>_.
     and_then (reject_if (key \<in> set unsafe_json_keys) Json_Unsafe_Key) (\<lambda>_.
     and_then (scan_expect 58 (skip_space s1)) (\<lambda>s2.
     and_then (scan_value num (Suc depth) n (skip_space s2)) (\<lambda>(m, s3).
     case take_unit 125 (skip_space s3) of
       Some t \<Rightarrow> return (m, t)
     | None \<Rightarrow>
         and_then (scan_expect 44 (skip_space s3)) (\<lambda>s4.
         scan_members num depth (set_add key keys) m (skip_space s4)))))))"
| "scan_elements num depth n s =
     and_then (scan_value num (Suc depth) n s) (\<lambda>(m, s1).
     case take_unit 93 (skip_space s1) of
       Some t \<Rightarrow> return (m, t)
     | None \<Rightarrow>
         and_then (scan_expect 44 (skip_space s1)) (\<lambda>s2.
         scan_elements num depth m (skip_space s2)))"
  by pat_completeness auto

lemma scan_chars_shorter: "scan_chars s = Some t \<Longrightarrow> length t < length s"
proof (induction s rule: scan_chars.induct)
  case (2 c s)
  consider "c = 34" | "c = 92" | "c \<noteq> 34" "c \<noteq> 92" by blast
  then show ?case
  proof cases
    case 2
    with "2.prems" obtain u where step: "scan_escape s = Some u" "scan_chars u = Some t"
      by (auto split: option.splits)
    have "length t < length u" using "2.IH"(1) [OF _ 2 step] 2 by simp
    with scan_escape_shorter [OF step(1)] show ?thesis by simp
  next
    case 3
    with "2.prems" have step: "\<not> c \<le> 31" "scan_chars s = Some t" by (auto split: if_splits)
    from "2.IH"(2) [OF 3 step] show ?thesis by simp
  qed (use "2.prems" in simp)
qed simp

lemma scan_string_shorter:
  assumes "scan_string num s = Inr (v, t)"
  shows "length t < length s"
proof -
  obtain s1 where "take_unit 34 s = Some s1" "scan_chars s1 = Some t"
    using assms by (auto simp: scan_string_def bind_eq_Some_conv split: option.splits jval.splits if_splits)
  with scan_chars_shorter [of s1 t] show ?thesis by (simp add: take_unit_Some)
qed

lemma scan_expect_shorter: "scan_expect c (skip_space s) = Inr t \<Longrightarrow> length t < length s"
  by (auto simp: scan_expect_def split: option.splits dest: take_unit_shorter)

lemma scan_literal_shorter: "scan_literal l s = Inr t \<Longrightarrow> l \<noteq> [] \<Longrightarrow> length t < length s"
  by (auto simp: scan_literal_def take_literal_Some split: option.splits)

lemma scan_number_shorter: "scan_number num s = Inr t \<Longrightarrow> length t < length s"
  by (auto simp: scan_number_def Let_def split: option.splits if_splits dest!: take_number_split)

lemma scan_shorter:
  "scan_value_scan_members_scan_elements_dom (Inl (num, d, n, s)) \<Longrightarrow>
     scan_value num d n s = Inr (m, t) \<Longrightarrow> length t < length s"
  "scan_value_scan_members_scan_elements_dom (Inr (Inl (num, d, ks, n, s))) \<Longrightarrow>
     scan_members num d ks n s = Inr (m, t) \<Longrightarrow> length t < length s"
  "scan_value_scan_members_scan_elements_dom (Inr (Inr (num, d, n, s))) \<Longrightarrow>
     scan_elements num d n s = Inr (m, t) \<Longrightarrow> length t < length s"
proof (induction num d n s and num d ks n s and num d n s arbitrary: m t and m t and m t
    rule: scan_value_scan_members_scan_elements.pinduct)
  case (1 num d n s)
  note prem = "1.prems" [unfolded scan_value.psimps [OF "1.hyps"]]
  have limits: "\<not> MAX_TOOL_WORKFLOW_JSON_DEPTH < d" "\<not> MAX_TOOL_WORKFLOW_JSON_NODES < Suc n"
    using prem by (auto split: if_splits)
  obtain c s1 where s: "s = c # s1" using prem limits by (cases s) auto
  note prem = prem [unfolded s, simplified limits, simplified]
  consider "c = 123" | "c = 91" | "c \<noteq> 123" "c \<noteq> 91" by blast
  then show ?case
  proof cases
    case 1
    show ?thesis
    proof (cases "take_unit 125 (skip_space s1)")
      case None
      with prem 1 have "scan_members num d [] (Suc n) (skip_space s1) = Inr (m, t)" by simp
      from "1.IH"(1) [OF limits s 1 None this] length_skip_space [of s1] s show ?thesis by simp
    qed (use prem 1 s take_unit_shorter [of 125 s1] in simp)
  next
    case 2
    show ?thesis
    proof (cases "take_unit 93 (skip_space s1)")
      case None
      with prem 2 have "scan_elements num d (Suc n) (skip_space s1) = Inr (m, t)" by simp
      from "1.IH"(2) [OF limits s _ 2 None this] 2 length_skip_space [of s1] s show ?thesis by simp
    qed (use prem 2 s take_unit_shorter [of 93 s1] in simp)
  next
    case 3
    then have "(\<exists>v. scan_string num s = Inr (v, t)) \<or> (\<exists>l. l \<noteq> [] \<and> scan_literal l s = Inr t) \<or> scan_number num s = Inr t"
      using prem unfolding s by (auto simp: outcome_simps split: if_splits)
    then show ?thesis using scan_string_shorter scan_literal_shorter scan_number_shorter by blast
  qed
next
  case (2 num d ks n s)
  from 2(1,4) obtain k s1 s2 n1 s3 where key: "scan_string num s = Inr (k, s1)"
      "reject_if (k \<in> set ks) Json_Duplicate_Key = Inr ()" "reject_if (k \<in> set unsafe_json_keys) Json_Unsafe_Key = Inr ()"
      "scan_expect 58 (skip_space s1) = Inr s2"
    and entry: "scan_value num (Suc d) n (skip_space s2) = Inr (n1, s3)"
    by (auto simp: scan_members.psimps outcome_simps)
  have "length s3 < length (skip_space s2)" by (rule "2.IH"(1) [OF key(1) refl key(2-4) entry])
  then have len: "length s3 < length s"
    using scan_string_shorter [OF key(1)] scan_expect_shorter [OF key(4)] length_skip_space [of s2] by simp
  show ?case
  proof (cases "take_unit 125 (skip_space s3)")
    case (Some u)
    with 2(1,4) key entry take_unit_shorter [OF Some] len show ?thesis by (auto simp: scan_members.psimps)
  next
    case None
    with 2(1,4) key entry obtain s4 where rest: "scan_expect 44 (skip_space s3) = Inr s4"
        "scan_members num d (set_add k ks) n1 (skip_space s4) = Inr (m, t)"
      by (auto simp: scan_members.psimps and_then_eq_Inr)
    from "2.IH"(2) [OF key(1) refl key(2-4) entry refl None rest] scan_expect_shorter [OF rest(1)]
      length_skip_space [of s4] len show ?thesis by simp
  qed
next
  case (3 num d n s)
  from 3(1,4) obtain n1 s1 where entry: "scan_value num (Suc d) n s = Inr (n1, s1)"
    by (auto simp: scan_elements.psimps outcome_simps)
  have len: "length s1 < length s" by (rule "3.IH"(1) [OF entry])
  show ?case
  proof (cases "take_unit 93 (skip_space s1)")
    case (Some u)
    with 3(1,4) entry take_unit_shorter [OF Some] len show ?thesis by (auto simp: scan_elements.psimps)
  next
    case None
    with 3(1,4) entry obtain s2 where rest: "scan_expect 44 (skip_space s1) = Inr s2"
        "scan_elements num d n1 (skip_space s2) = Inr (m, t)"
      by (auto simp: scan_elements.psimps and_then_eq_Inr)
    from "3.IH"(2) [OF entry refl None rest] scan_expect_shorter [OF rest(1)] length_skip_space [of s2] len
    show ?thesis by simp
  qed
qed

termination scan_value
proof (relation "measure (\<lambda>x. case x of Inl (num, d, n, s) \<Rightarrow> 2 * length s
      | Inr (Inl (num, d, ks, n, s)) \<Rightarrow> 2 * length s | Inr (Inr (num, d, n, s)) \<Rightarrow> Suc (2 * length s))", goal_cases)
  case (2 num d n s c s1)
  then show ?case using length_skip_space [of s1] by simp
next
  case (3 num d n s c s1)
  then show ?case using length_skip_space [of s1] by simp
next
  case (4 num d ks n s x k s1 u w s2)
  then show ?case
    using scan_string_shorter [of num s k s1] scan_expect_shorter [of 58 s1 s2] length_skip_space [of s2] by auto
next
  case (5 num d ks n s x k s1 u w s2 y m s3 s4)
  then have "length s3 < length (skip_space s2)" using scan_shorter(1) by blast
  with 5 scan_string_shorter [of num s k s1] scan_expect_shorter [of 58 s1 s2] length_skip_space [of s2]
    scan_expect_shorter [of 44 s3 s4] length_skip_space [of s4]
  show ?case by auto
next
  case (7 num d n s y m s1 s2)
  then have "length s1 < length s" using scan_shorter(1) by blast
  with 7 scan_expect_shorter [of 44 s1 s2] length_skip_space [of s2] show ?case by auto
qed simp_all

text \<open>\<open>inspectJsonStructure\<close>: the error, if any.\<close>

definition inspect_json_structure :: "(jstr \<Rightarrow> jnum) \<Rightarrow> jstr \<Rightarrow> (workflow_parse_error, unit) result" where
  "inspect_json_structure num source =
     and_then (scan_value num 1 0 (skip_space source)) (\<lambda>(_, rest).
     reject_if (skip_space rest \<noteq> []) Envelope_Invalid)"

end
