(* ===== verification/Tool_Json_Facts.thy ===== *)
theory Tool_Json_Facts
  imports Tool_Json
begin

text \<open>
  The canonical text in closed form, and its relation to the scanner and the parser: what the
  scanner passes is parsed, has a canonical text and no repeated key; and a canonical text passes
  the scanner and parses back to the value it was written from.
\<close>

declare canonicalize_value.simps [simp del] scan_value.simps [simp del] scan_members.simps [simp del]
  scan_elements.simps [simp del] parse_members.simps [simp del] parse_elements.simps [simp del]
  parse_value.simps(2) [simp del]

section \<open>The canonical text in closed form\<close>

fun canonical_text :: "jval \<Rightarrow> jstr" where
  "canonical_text (JArr vs) = 91 # join_texts (map canonical_text vs) @ [93]"
| "canonical_text (JObj r) =
     123 # join_texts (map (\<lambda>(k, s). quote_text k @ 58 # s)
              (sort_key fst (map (\<lambda>(k, v). (k, canonical_text v)) r))) @ [125]"
| "canonical_text (JStr s) = quote_text s"
| "canonical_text (JNum n) = number_text n"
| "canonical_text (JBool b) = (if b then js ''true'' else js ''false'')"
| "canonical_text v = js ''null''"

text \<open>Nothing below a depth is too deep, reserved, outside the number domain or not Unicode.\<close>

fun canonical_ok :: "nat \<Rightarrow> jval \<Rightarrow> bool" where
  "canonical_ok d (JArr vs) \<longleftrightarrow> d \<le> MAX_TOOL_WORKFLOW_JSON_DEPTH \<and> (\<forall>v \<in> set vs. canonical_ok (Suc d) v)"
| "canonical_ok d (JObj r) \<longleftrightarrow>
     d \<le> MAX_TOOL_WORKFLOW_JSON_DEPTH
     \<and> (\<forall>(k, v) \<in> set r. k \<notin> set unsafe_json_keys \<and> \<not> has_lone_surrogate k \<and> canonical_ok (Suc d) v)"
| "canonical_ok d (JStr s) \<longleftrightarrow> d \<le> MAX_TOOL_WORKFLOW_JSON_DEPTH \<and> \<not> has_lone_surrogate s"
| "canonical_ok d (JNum n) \<longleftrightarrow>
     d \<le> MAX_TOOL_WORKFLOW_JSON_DEPTH \<and> is_finite_number n \<and> (is_integer_number n \<longrightarrow> is_safe_integer n)"
| "canonical_ok d (JBool b) \<longleftrightarrow> d \<le> MAX_TOOL_WORKFLOW_JSON_DEPTH"
| "canonical_ok d JNull \<longleftrightarrow> d \<le> MAX_TOOL_WORKFLOW_JSON_DEPTH"
| "canonical_ok d v \<longleftrightarrow> False"

lemma canonical_ok_depth: "canonical_ok d v \<Longrightarrow> d \<le> MAX_TOOL_WORKFLOW_JSON_DEPTH"
  by (cases v) simp_all

lemma map_sort_key_fst:
  "map (\<lambda>(k, v). (k, f v)) (sort_key fst r) = sort_key fst (map (\<lambda>(k, v). (k, f v)) r)"
  for r :: "('k :: linorder \<times> 'v) list"
proof -
  have insort: "map (\<lambda>(k, v). (k, f v)) (insort_key fst x ys) =
      insort_key fst (case x of (k, v) \<Rightarrow> (k, f v)) (map (\<lambda>(k, v). (k, f v)) ys)" for x :: "'k \<times> 'v" and ys
    by (induction ys) (auto split: prod.splits)
  show ?thesis by (induction r) (auto simp: insort)
qed

lemma sort_entries:
  "sort_key fst (map (\<lambda>p. (fst p, f (snd p))) r) = map (\<lambda>p. (fst p, f (snd p))) (sort_key fst r)"
  for r :: "('k :: linorder \<times> 'v) list"
  using map_sort_key_fst [of f r] by (simp add: split_def)

lemma canonicalize_closed:
  "canonicalize_value v d n = Inr (s, m) \<longleftrightarrow>
     canonical_ok d v \<and> m \<le> MAX_TOOL_WORKFLOW_JSON_NODES \<and> m = n + node_count v \<and> s = canonical_text v"
  "canonicalize_elements vs d n = Inr (ss, m) \<longleftrightarrow>
     (\<forall>v \<in> set vs. canonical_ok (Suc d) v) \<and> (vs \<noteq> [] \<longrightarrow> m \<le> MAX_TOOL_WORKFLOW_JSON_NODES)
     \<and> m = n + sum_list (map node_count vs) \<and> ss = map canonical_text vs"
  "canonicalize_members r d n = Inr (ss, m) \<longleftrightarrow>
     (\<forall>(k, v) \<in> set r. k \<notin> set unsafe_json_keys \<and> \<not> has_lone_surrogate k \<and> canonical_ok (Suc d) v)
     \<and> (r \<noteq> [] \<longrightarrow> m \<le> MAX_TOOL_WORKFLOW_JSON_NODES) \<and> m = n + sum_list (map (\<lambda>(k, v). node_count v) r)
     \<and> ss = map (\<lambda>(k, v). quote_text k @ 58 # canonical_text v) r"
proof (induction v d n and vs d n and r d n arbitrary: s m and ss m and ss m
    rule: canonicalize_value_canonicalize_elements_canonicalize_members.induct)
  case (1 v d n)
  show ?case
  proof (cases "MAX_TOOL_WORKFLOW_JSON_DEPTH < d \<or> MAX_TOOL_WORKFLOW_JSON_NODES < Suc n")
    case True
    with canonical_ok_depth [of d v] node_count_pos [of v] show ?thesis by (auto simp: canonicalize_value.simps simp del: node_count_pos)
  next
    case False
    then have limits: "\<not> MAX_TOOL_WORKFLOW_JSON_DEPTH < d" "\<not> MAX_TOOL_WORKFLOW_JSON_NODES < Suc n" by auto
    show ?thesis
    proof (cases v)
      case (JArr vs)
      with limits "1.IH"(1) [OF limits JArr] show ?thesis by (auto simp: canonicalize_value.simps outcome_simps not_less)
    next
      case (JObj r)
      have keyed: "map (\<lambda>(k, v). quote_text k @ 58 # canonical_text v) (sort_key fst r) =
          map (\<lambda>(k, s). quote_text k @ 58 # s) (sort_key fst (map (\<lambda>(k, v). (k, canonical_text v)) r))"
        unfolding map_sort_key_fst [symmetric] by (simp add: split_def comp_def)
      have "sort_key fst r = [] \<longleftrightarrow> r = []" by (metis length_0_conv length_sort)
      with limits "1.IH"(2) [OF limits JObj] show ?thesis
        by (auto simp: canonicalize_value.simps JObj outcome_simps not_less sum_list_sort_key keyed)
    qed (use limits in \<open>auto simp: canonicalize_value.simps outcome_simps canonicalize_number_def canonicalize_string_def not_less\<close>)
  qed
next
  case (2 d n)
  show ?case by auto
next
  case (3 v vs d n)
  have step: "canonicalize_elements (v # vs) d n = Inr (ss, m) \<longleftrightarrow>
      (\<exists>s n' ss'. canonicalize_value v (Suc d) n = Inr (s, n') \<and> canonicalize_elements vs d n' = Inr (ss', m)
         \<and> ss = s # ss')"
    by (auto simp: outcome_simps)
  show ?case
  proof (cases "canonicalize_value v (Suc d) n")
    case (Inl e)
    with "3.IH"(1) [of "canonical_text v" "n + node_count v"] show ?thesis unfolding step by auto
  next
    case (Inr p)
    then obtain s n' where p: "canonicalize_value v (Suc d) n = Inr (s, n')" by (cases p) simp
    with "3.IH"(1) [of s n'] "3.IH"(2) [OF p refl] show ?thesis unfolding step by auto
  qed
next
  case (4 d n)
  show ?case by auto
next
  case (5 k v r d n)
  have step: "canonicalize_members ((k, v) # r) d n = Inr (ss, m) \<longleftrightarrow>
      k \<notin> set unsafe_json_keys \<and> \<not> has_lone_surrogate k
      \<and> (\<exists>s n' ss'. canonicalize_value v (Suc d) n = Inr (s, n') \<and> canonicalize_members r d n' = Inr (ss', m)
         \<and> ss = (quote_text k @ 58 # s) # ss')"
    by (auto simp: outcome_simps canonicalize_string_def)
  show ?case
  proof (cases "k \<in> set unsafe_json_keys \<or> has_lone_surrogate k")
    case True
    then show ?thesis unfolding step by auto
  next
    case False
    then have key: "reject_if (k \<in> set unsafe_json_keys) Canonical_Type = Inr ()"
        "canonicalize_string k = Inr (quote_text k)"
      by (simp_all add: canonicalize_string_def)
    show ?thesis
    proof (cases "canonicalize_value v (Suc d) n")
      case (Inl e)
      with "5.IH"(1) [OF key, of "canonical_text v" "n + node_count v"] show ?thesis unfolding step by auto
    next
      case (Inr p)
      then obtain s n' where p: "canonicalize_value v (Suc d) n = Inr (s, n')" by (cases p) simp
      with False "5.IH"(1) [OF key, of s n'] "5.IH"(2) [OF key p refl] show ?thesis unfolding step by auto
    qed
  qed
qed

corollary canonicalize_tool_workflow_json_closed:
  "canonicalize_tool_workflow_json v = Inr s \<longleftrightarrow>
     canonical_ok 1 v \<and> node_count v \<le> MAX_TOOL_WORKFLOW_JSON_NODES \<and> s = canonical_text v"
  by (auto simp: canonicalize_tool_workflow_json_def outcome_simps canonicalize_closed)

section \<open>Strings\<close>

lemma hex_digit_value:
  assumes "n < 16"
  shows "hex_value (hex_digit n) = Some n"
proof -
  have "list_all (\<lambda>n. hex_value (hex_digit n) = Some n) [0..<16]" by code_simp
  with assms show ?thesis by (simp add: list_all_iff)
qed

lemma control_escape_read:
  assumes "c < 32"
  shows "read_escape ([117, 48, 48, hex_digit (unat c div 16), hex_digit (unat c mod 16)] @ s) = Some (c, s)"
proof -
  have c: "unat c < 32" using assms by (simp add: word_less_nat_alt)
  have zero: "hex_value 48 = Some 0" by (simp add: hex_value_def is_digit_unit_def)
  have "of_nat (16 * (unat c div 16) + unat c mod 16) = c" by simp
  with c show ?thesis
    by (simp add: read_escape_def hex4_def zero hex_digit_value del: of_nat_add of_nat_mult mult_div_mod_eq)
qed

lemma quoted_unit_read:
  assumes "read_chars s = Some (v, t)"
  shows "read_chars (quote_unit c @ s) = Some (c # v, t)"
proof -
  have simple: "read_chars (92 # e # s) = Some (c # v, t)" if "e \<noteq> 117" "simple_escape e = Some c" for e
    using that assms by (simp add: read_escape_def)
  show ?thesis
  proof (cases "c \<in> {34, 92, 8, 9, 10, 12, 13}")
    case True
    then show ?thesis
      using simple by (elim insertE emptyE) (simp_all add: quote_unit_def simple_escape_def)
  next
    case False
    then show ?thesis
    proof (cases "c < 32")
      case True
      with False have "quote_unit c =
          [92, 117, 48, 48, hex_digit (unat c div 16), hex_digit (unat c mod 16)]"
        by (simp add: quote_unit_def)
      with control_escape_read [OF True, of s] assms show ?thesis by simp
    qed (use False assms in \<open>simp add: quote_unit_def\<close>)
  qed
qed

lemma quoted_text_read: "read_chars (concat (map quote_unit s) @ 34 # t) = Some (s, t)"
  by (induction s) (simp_all add: quoted_unit_read del: read_chars.simps(2) add: read_chars.simps(2) [of 34])

lemma scan_escape_reads: "scan_escape s = Some t \<longleftrightarrow> (\<exists>u. read_escape s = Some (u, t))"
proof -
  have hex: "list_all (\<lambda>h. hex_value h \<noteq> None) [a, b, c, d] \<longleftrightarrow> (\<exists>u. hex4 a b c d = Some u)" for a b c d
    by (auto simp: hex4_def split: option.splits)
  have simple: "e \<in> set [34, 92, 47, 98, 102, 110, 114, 116] \<longleftrightarrow> (\<exists>u. simple_escape e = Some u)" for e
    by (auto simp: simple_escape_def)
  show ?thesis
    unfolding scan_escape_def read_escape_def hex simple
    by (auto split: list.splits if_splits)
qed

text \<open>The scan of a string finds the quote that the parser stops at.\<close>

lemma scan_chars_reads: "scan_chars s = Some t \<longleftrightarrow> (\<exists>v. read_chars s = Some (v, t))"
proof (induction s rule: scan_chars.induct)
  case (2 c s)
  have control: "c \<le> 31 \<longleftrightarrow> c < 32" by (simp add: word_le_nat_alt word_less_nat_alt) arith
  consider "c = 34" | "c = 92" | "c \<noteq> 34" "c \<noteq> 92" by blast
  then show ?case
  proof cases
    case 2
    show ?thesis
    proof (cases "scan_escape s")
      case None
      then have "read_escape s = None" using scan_escape_reads [of s] by (cases "read_escape s") auto
      with 2 None show ?thesis by simp
    next
      case (Some u)
      then obtain w where "read_escape s = Some (w, u)" using scan_escape_reads by blast
      with 2 Some "2.IH"(1) [OF _ 2 Some] show ?thesis by auto
    qed
  next
    case 3
    with "2.IH"(2) [OF 3] show ?thesis by (auto simp: control)
  qed simp
qed simp

lemma read_escape_prefix:
  "read_escape s = Some (u, t) \<Longrightarrow> \<exists>w. s = w @ t \<and> (\<forall>t'. read_escape (w @ t') = Some (u, t'))"
proof -
  assume read: "read_escape s = Some (u, t)"
  then obtain e s1 where s: "s = e # s1" by (cases s) (auto simp: read_escape_def)
  show ?thesis
  proof (cases "e = 117")
    case True
    with read s obtain a b c d where "s = [e, a, b, c, d] @ t" "hex4 a b c d = Some u"
      by (auto simp: read_escape_def split: list.splits)
    then show ?thesis using True by (intro exI [of _ "[e, a, b, c, d]"]) (auto simp: read_escape_def)
  next
    case False
    with read s have "s1 = t" "simple_escape e = Some u" by (auto simp: read_escape_def)
    with False s show ?thesis by (intro exI [of _ "[e]"]) (auto simp: read_escape_def)
  qed
qed

text \<open>Reading a string depends on nothing after its closing quote.\<close>

lemma read_chars_prefix:
  "read_chars s = Some (v, t) \<Longrightarrow> \<exists>u. s = u @ t \<and> (\<forall>t'. read_chars (u @ t') = Some (v, t'))"
proof (induction s arbitrary: v rule: read_chars.induct)
  case (2 c s)
  consider "c = 34" | "c = 92" | "c \<noteq> 34" "c \<noteq> 92" by blast
  then show ?case
  proof cases
    case 1
    with "2.prems" show ?thesis by (intro exI [of _ "[34]"]) auto
  next
    case 2
    with "2.prems" obtain x s' w where step: "read_escape s = Some (x, s')" "read_chars s' = Some (w, t)" "v = x # w"
      by (auto split: option.splits)
    obtain u where u: "s' = u @ t" "\<forall>t'. read_chars (u @ t') = Some (w, t')"
      using "2.IH"(1) [OF _ 2 step(1) refl step(2)] 2 by auto
    obtain p where "s = p @ s'" "\<forall>t'. read_escape (p @ t') = Some (x, t')"
      using read_escape_prefix [OF step(1)] by blast
    with u 2 step(3) show ?thesis by (intro exI [of _ "92 # p @ u"]) simp
  next
    case 3
    with "2.prems" obtain w where step: "\<not> c < 32" "read_chars s = Some (w, t)" "v = c # w" by (auto split: if_splits)
    from "2.IH"(2) [OF 3 step(1,2)] 3 step obtain u where "s = u @ t" "\<forall>t'. read_chars (u @ t') = Some (w, t')"
      by auto
    with 3 step show ?thesis by (intro exI [of _ "c # u"]) simp
  qed
qed simp

lemma json_parse_string:
  assumes "read_chars (u @ t) = Some (v, t)" "\<forall>t'. read_chars (u @ t') = Some (v, t')"
  shows "json_parse num (34 # u) = Some (JStr v)"
  using assms(2) [rule_format, of "[]"]
  by (simp add: json_parse_def skip_space_def is_json_space_def parse_value.simps)

text \<open>\<open>#string\<close> is the parser's reading of a string, less lone surrogates.\<close>

lemma scan_string_reads:
  "scan_string num s = Inr (v, t) \<longleftrightarrow>
     (\<exists>s1. s = 34 # s1 \<and> read_chars s1 = Some (v, t) \<and> \<not> has_lone_surrogate v)"
proof (cases "\<exists>s1 w u. s = 34 # s1 \<and> read_chars s1 = Some (w, u)")
  case True
  then obtain s1 w u where s: "s = 34 # s1" "read_chars s1 = Some (w, u)" by blast
  then obtain p where p: "s1 = p @ u" "\<forall>t'. read_chars (p @ t') = Some (w, t')"
    using read_chars_prefix by blast
  have "scan_chars s1 = Some u" using s(2) scan_chars_reads by blast
  moreover have "json_parse num (34 # p) = Some (JStr w)"
    by (rule json_parse_string [of p u]) (use s(2) p in simp_all)
  ultimately have "scan_string num s = (if has_lone_surrogate w then throw Json_String_Invalid else return (w, u))"
    using s(1) p(1) by (simp add: scan_string_def take_unit_def)
  with s show ?thesis by auto
next
  case False
  then have "Option.bind (take_unit 34 s) scan_chars = None"
    by (cases "Option.bind (take_unit 34 s) scan_chars")
        (auto simp: bind_eq_Some_conv take_unit_Some scan_chars_reads)
  with False show ?thesis by (auto simp: scan_string_def)
qed

lemma scan_quoted_text:
  "\<not> has_lone_surrogate s \<Longrightarrow> scan_string num (quote_text s @ t) = Inr (s, t)"
  by (simp add: scan_string_reads quote_text_def quoted_text_read)

section \<open>Numbers\<close>

text \<open>What can follow a value inside canonical text.\<close>

definition ends_value :: "jstr \<Rightarrow> bool" where
  "ends_value t \<longleftrightarrow> (case t of [] \<Rightarrow> True | c # _ \<Rightarrow> c \<in> {44, 93, 125})"

lemma ends_value_cases: "ends_value t \<Longrightarrow> t = [] \<or> (\<exists>c u. t = c # u \<and> c \<in> {44, 93, 125})"
  by (cases t) (auto simp: ends_value_def)

lemma take_digits_extend:
  assumes "ends_value t" "take_digits s = (ds, u)"
  shows "take_digits (s @ t) = (ds, u @ t)"
proof -
  have t: "takeWhile is_digit_unit t = []" "dropWhile is_digit_unit t = t"
    using ends_value_cases [OF assms(1)] by (auto simp: is_digit_unit_def)
  show ?thesis
  proof (cases "\<forall>c \<in> set s. is_digit_unit c")
    case True
    with assms(2) t show ?thesis
      by (auto simp: take_digits_def takeWhile_append2 dropWhile_append2 takeWhile_eq_all_conv [THEN iffD2]
          dropWhile_eq_Nil_conv [THEN iffD2])
  next
    case False
    with assms(2) show ?thesis by (auto simp: take_digits_def takeWhile_append1 dropWhile_append1)
  qed
qed

lemma take_sign_extend: "ends_value t \<Longrightarrow> take_sign s = (p, u) \<Longrightarrow> take_sign (s @ t) = (p, u @ t)"
  by (cases s) (auto simp: take_sign_def take_unit_def dest!: ends_value_cases split: if_splits)

lemma take_integer_extend:
  "ends_value t \<Longrightarrow> take_integer s = Some (w, u) \<Longrightarrow> take_integer (s @ t) = Some (w, u @ t)"
  using take_digits_extend [of t s w u]
  by (cases s) (auto simp: take_integer_def split: if_splits)

lemma take_fraction_extend:
  assumes "ends_value t" "take_fraction s = (f, u)"
  shows "take_fraction (s @ t) = (f, u @ t)"
proof (cases "take_unit 46 s")
  case None
  then have "take_unit 46 (s @ t) = None"
    using ends_value_cases [OF assms(1)] by (cases s) (auto simp: take_unit_def split: if_splits)
  with None assms(2) show ?thesis by (simp add: take_fraction_def)
next
  case (Some s')
  obtain ds v where digits: "take_digits s' = (ds, v)" by fastforce
  from Some have "take_unit 46 (s @ t) = Some (s' @ t)" by (simp add: take_unit_Some)
  with Some digits take_digits_extend [OF assms(1) digits] assms(2) show ?thesis
    by (auto simp: take_fraction_def split: if_splits)
qed

lemma take_exponent_extend:
  assumes "ends_value t" "take_exponent s = (x, u)"
  shows "take_exponent (s @ t) = (x, u @ t)"
proof (cases s)
  case Nil
  with assms show ?thesis by (auto simp: take_exponent_def dest!: ends_value_cases)
next
  case (Cons e s')
  define split where "split = (\<lambda>s' :: jstr. case s' of c # u \<Rightarrow> if c = 43 \<or> c = 45 then ([c], u) else ([], s') | [] \<Rightarrow> ([], s'))"
  obtain sign v where sign: "split s' = (sign, v)" by fastforce
  have sign': "split (s' @ t) = (sign, v @ t)"
    using sign ends_value_cases [OF assms(1)] by (cases s') (auto simp: split_def split: if_splits)
  obtain ds w where digits: "take_digits v = (ds, w)" by fastforce
  have exp: "take_exponent (e # r) = (if e \<noteq> 69 \<and> e \<noteq> 101 then ([], e # r)
      else (case split r of (sign, u) \<Rightarrow>
        (case take_digits u of (ds, rest) \<Rightarrow> if ds = [] then ([], e # r) else (e # sign @ ds, rest))))" for r
    by (simp add: take_exponent_def split_def)
  from assms(2) sign digits take_digits_extend [OF assms(1) digits] sign' show ?thesis
    by (auto simp: Cons exp split: if_splits)
qed

lemma take_number_extend:
  assumes "ends_value t" "take_number s = Some (raw, u)"
  shows "take_number (s @ t) = Some (raw, u @ t)"
proof -
  obtain sign s1 where sign: "take_sign s = (sign, s1)" by fastforce
  obtain whole s2 where whole: "take_integer s1 = Some (whole, s2)"
    using assms(2) sign by (auto simp: take_number_def split: option.splits)
  obtain fraction s3 where fraction: "take_fraction s2 = (fraction, s3)" by fastforce
  obtain expo where expo: "take_exponent s3 = (expo, u)" "raw = sign @ whole @ fraction @ expo"
    using assms(2) sign whole fraction by (auto simp: take_number_def split: prod.splits)
  show ?thesis
    by (simp add: take_number_def take_sign_extend [OF assms(1) sign] take_integer_extend [OF assms(1) whole]
        take_fraction_extend [OF assms(1) fraction] take_exponent_extend [OF assms(1) expo(1)] expo(2))
qed

lemma nat_digits_head: "0 < n \<Longrightarrow> hd (nat_digits n) \<noteq> 0"
proof (induction n rule: nat_digits.induct)
  case (1 n)
  show ?case
  proof (cases "n < 10")
    case False
    then have "hd (nat_digits (n div 10)) \<noteq> 0" using 1 by simp
    with False nat_digits_nonempty show ?thesis by (subst nat_digits.simps) (simp add: hd_append)
  qed (use 1 in \<open>subst nat_digits.simps, simp\<close>)
qed

lemma take_integer_nat_text: "take_integer (nat_text n) = Some (nat_text n, [])"
proof (cases "n = 0")
  case True
  have "nat_digits 0 = [0]" by (subst nat_digits.simps) simp
  then show ?thesis by (simp add: True nat_text_def take_integer_def)
next
  case False
  obtain d ds where ds: "nat_digits n = d # ds" using nat_digits_nonempty by (cases "nat_digits n") auto
  then have "d \<noteq> 0" "d < 10" using nat_digits_head [of n] nat_digits_small [of n] False by auto
  then have head: "(of_nat (48 + d) :: code_unit) \<noteq> 48" using digit_unit_inject [of d 0] by auto
  have digits: "\<forall>c \<in> set (nat_text n). is_digit_unit c" using nat_text_digits by blast
  have n: "nat_text n = of_nat (48 + d) # map (\<lambda>d. of_nat (48 + d)) ds" by (simp add: nat_text_def ds)
  have "take_digits (nat_text n) = (nat_text n, [])"
    using digits by (simp add: take_digits_def takeWhile_eq_all_conv dropWhile_eq_Nil_conv)
  with head digits n show ?thesis by (simp add: take_integer_def)
qed

lemma take_number_int_text: "take_number (int_text i) = Some (int_text i, [])"
proof -
  have "take_sign (nat_text n) = ([], nat_text n)" for n
    using nat_text_no_minus [of n] by (auto simp: take_sign_def take_unit_Some split: option.splits)
  then show ?thesis
    by (simp add: int_text_def take_number_def take_integer_nat_text take_fraction_def take_exponent_def take_unit_def
        take_sign_def [of "45 # s" for s])
qed

section \<open>Canonical text is read back\<close>

text \<open>
  What the documentation of \<open>Number(text)\<close> promises of the texts that occur: the text of a safe
  integer, and the text a non-integral number is named by, denote that number.
\<close>

definition reads_integers :: "(jstr \<Rightarrow> jnum) \<Rightarrow> bool" where
  "reads_integers num \<longleftrightarrow> (\<forall>i. \<bar>i\<bar> \<le> max_safe_integer \<longrightarrow> num (int_text i) = NInt i)"

fun readable_numbers :: "(jstr \<Rightarrow> jnum) \<Rightarrow> jval \<Rightarrow> bool" where
  "readable_numbers num (JNum n) \<longleftrightarrow>
     (case n of NFrac s \<Rightarrow> num s = n \<and> take_number s = Some (s, []) | _ \<Rightarrow> True)"
| "readable_numbers num (JArr vs) \<longleftrightarrow> (\<forall>v \<in> set vs. readable_numbers num v)"
| "readable_numbers num (JObj r) \<longleftrightarrow> (\<forall>(k, v) \<in> set r. readable_numbers num v)"
| "readable_numbers num _ \<longleftrightarrow> True"

text \<open>No object repeats a key, which holds of every JavaScript object.\<close>

fun distinct_keys :: "jval \<Rightarrow> bool" where
  "distinct_keys (JArr vs) \<longleftrightarrow> (\<forall>v \<in> set vs. distinct_keys v)"
| "distinct_keys (JObj r) \<longleftrightarrow> distinct (map fst r) \<and> (\<forall>(k, v) \<in> set r. distinct_keys v)"
| "distinct_keys _ \<longleftrightarrow> True"

text \<open>The value that a canonical text stands for: sorted keys, and no negative zero.\<close>

fun canonical_form :: "jval \<Rightarrow> jval" where
  "canonical_form (JArr vs) = JArr (map canonical_form vs)"
| "canonical_form (JObj r) = JObj (sort_key fst (map (\<lambda>(k, v). (k, canonical_form v)) r))"
| "canonical_form (JNum n) = JNum (if n = NNegZero then NInt 0 else n)"
| "canonical_form v = v"

text \<open>A value starts with no white space and with none of the characters that may follow one.\<close>

definition starts_value :: "jstr \<Rightarrow> bool" where
  "starts_value s \<longleftrightarrow> (case s of [] \<Rightarrow> False | c # _ \<Rightarrow> \<not> is_json_space c \<and> c \<notin> {93, 125, 44})"

lemma starts_value_append: "starts_value s \<Longrightarrow> starts_value (s @ t)"
  by (cases s) (simp_all add: starts_value_def)

lemma starts_value_read:
  assumes "starts_value s"
  shows "skip_space s = s" "take_unit 93 s = None" "take_unit 125 s = None"
  using assms by (cases s; simp add: starts_value_def skip_space_def take_unit_def)+

lemma number_text_read:
  assumes "readable_numbers num (JNum n)" "is_finite_number n"
  shows "take_number (number_text n) = Some (number_text n, [])"
proof (cases n)
  case NNegZero
  have "js ''0'' = int_text 0" by (simp add: int_text_def nat_text_def js_def nat_digits.simps)
  with NNegZero take_number_int_text [of 0] show ?thesis by simp
qed (use assms take_number_int_text in simp_all)

lemma number_starts:
  assumes "take_number s = Some (s, [])"
  shows "\<exists>c u. s = c # u \<and> (c = 45 \<or> is_digit_unit c)"
proof -
  from assms obtain sign s1 where sign: "take_sign s = (sign, s1)" "take_integer s1 \<noteq> None"
    by (auto simp: take_number_def split: prod.splits option.splits)
  then show ?thesis
    by (cases s) (auto simp: take_sign_def take_integer_def take_unit_def is_digit_unit_def split: list.splits if_splits)
qed

lemma canonical_text_starts:
  assumes "canonical_ok d v" and "readable_numbers num v"
  shows "starts_value (canonical_text v)"
proof (cases v)
  case (JNum n)
  with assms number_starts [OF number_text_read [of num n]] show ?thesis
    by (auto simp: starts_value_def is_json_space_def is_digit_unit_def)
qed (use assms(1) in \<open>simp_all add: starts_value_def is_json_space_def quote_text_def js_def\<close>)

text \<open>One turn of each loop on canonical text: the last entry, and an entry followed by another.\<close>

lemma skip_space_unit [simp]: "\<not> is_json_space c \<Longrightarrow> skip_space (c # s) = c # s"
  by (simp add: skip_space_def)

lemma take_unit_Cons [simp]: "take_unit c (d # s) = (if d = c then Some s else None)"
  by (simp add: take_unit_def)

lemma separators_not_space [simp]:
  "\<not> is_json_space 93" "\<not> is_json_space 125" "\<not> is_json_space 44" "\<not> is_json_space 58"
  by (simp_all add: is_json_space_def)

lemma ends_value_separators [simp]: "ends_value (93 # t)" "ends_value (125 # t)" "ends_value (44 # t)"
  by (simp_all add: ends_value_def)

lemma parse_elements_turn:
  "parse_value num s = Some (v, 93 # t) \<Longrightarrow> parse_elements num s = Some ([v], t)"
  "parse_value num s = Some (v, 44 # t) \<Longrightarrow>
     parse_elements num s = map_option (\<lambda>(vs, u). (v # vs, u)) (parse_elements num (skip_space t))"
  by (simp_all add: parse_elements.simps [of num s])

lemma parse_members_turn:
  assumes "starts_value s"
  shows "parse_value num s = Some (v, 125 # t) \<Longrightarrow>
      parse_members num acc (quote_text k @ 58 # s) = Some (AList.update k v acc, t)"
    and "parse_value num s = Some (v, 44 # t) \<Longrightarrow>
      parse_members num acc (quote_text k @ 58 # s) = parse_members num (AList.update k v acc) (skip_space t)"
  unfolding parse_members.simps [of num acc "quote_text k @ 58 # s"]
  using starts_value_read(1) [OF assms] by (simp_all add: quote_text_def quoted_text_read)

lemma scan_elements_turn:
  "scan_value num (Suc d) n s = Inr (m, 93 # t) \<Longrightarrow> scan_elements num d n s = Inr (m, t)"
  "scan_value num (Suc d) n s = Inr (m, 44 # t) \<Longrightarrow> scan_elements num d n s = scan_elements num d m (skip_space t)"
  by (simp_all add: scan_elements.simps [of num d n s] scan_expect_def)

lemma scan_members_turn:
  assumes "starts_value s" "k \<notin> set ks" "k \<notin> set unsafe_json_keys" "\<not> has_lone_surrogate k"
  shows "scan_value num (Suc d) n s = Inr (m, 125 # t) \<Longrightarrow>
      scan_members num d ks n (quote_text k @ 58 # s) = Inr (m, t)"
    and "scan_value num (Suc d) n s = Inr (m, 44 # t) \<Longrightarrow>
      scan_members num d ks n (quote_text k @ 58 # s) = scan_members num d (set_add k ks) m (skip_space t)"
  unfolding scan_members.simps [of num d ks n "quote_text k @ 58 # s"]
  using starts_value_read(1) [OF assms(1)] assms(2-4) by (simp_all add: scan_quoted_text scan_expect_def)

text \<open>The loops, given that every part is read back.\<close>

lemma join_texts_more: "join_texts (s # map f (x # xs)) = s @ 44 # join_texts (map f (x # xs))"
  by simp

lemma joined_starts:
  assumes "xs \<noteq> []" and "\<forall>x \<in> set xs. starts_value (f x)"
  shows "starts_value (join_texts (map f xs) @ t)"
proof -
  obtain y ys where "xs = y # ys" using assms(1) by (cases xs) auto
  with assms(2) show ?thesis by (cases ys) (auto intro: starts_value_append simp del: append_assoc)
qed

lemmas joined_start = starts_value_read(1) [OF joined_starts]

lemma key_starts: "starts_value (quote_text k @ s)"
  by (simp add: starts_value_def quote_text_def is_json_space_def)

lemma parse_elements_texts:
  assumes "vs \<noteq> []" and "\<forall>v \<in> set vs. starts_value (f v)"
    and "\<forall>v \<in> set vs. \<forall>t. ends_value t \<longrightarrow> parse_value num (f v @ t) = Some (g v, t)"
  shows "parse_elements num (join_texts (map f vs) @ 93 # rest) = Some (map g vs, rest)"
  using assms
proof (induction vs rule: induct_list012)
  case (2 v)
  then show ?case by (simp add: parse_elements_turn)
next
  case (3 v w vs)
  have skip: "skip_space (join_texts (map f (w # vs)) @ 93 # rest) = join_texts (map f (w # vs)) @ 93 # rest"
    by (rule joined_start) (use 3(4) in simp_all)
  have "parse_value num (f v @ 44 # join_texts (map f (w # vs)) @ 93 # rest)
      = Some (g v, 44 # join_texts (map f (w # vs)) @ 93 # rest)"
    using 3(5) by simp
  from parse_elements_turn(2) [OF this] skip 3 show ?case by simp
qed simp

lemma parse_members_texts:
  assumes "r \<noteq> []" and "\<forall>x \<in> set r. starts_value (f (snd x))" and "distinct (map fst (acc @ r))"
    and "\<forall>x \<in> set r. \<forall>t. ends_value t \<longrightarrow> parse_value num (f (snd x) @ t) = Some (g (snd x), t)"
  shows "parse_members num acc (join_texts (map (\<lambda>x. quote_text (fst x) @ 58 # f (snd x)) r) @ 125 # rest)
    = Some (acc @ map (\<lambda>x. (fst x, g (snd x))) r, rest)"
  using assms
proof (induction r arbitrary: acc rule: induct_list012)
  case (2 x)
  have "map_of acc (fst x) = None" using 2 by (auto simp: map_of_eq_None_iff)
  with 2 parse_members_turn(1) [of "f (snd x) @ 125 # rest" num "g (snd x)" rest acc "fst x"]
  show ?case by (simp add: update_absent starts_value_append)
next
  case (3 x y r)
  let ?texts = "map (\<lambda>x. quote_text (fst x) @ 58 # f (snd x)) (y # r)"
  have fresh: "map_of acc (fst x) = None" using 3 by (auto simp: map_of_eq_None_iff)
  have skip: "skip_space (join_texts ?texts @ 125 # rest) = join_texts ?texts @ 125 # rest"
    by (rule joined_start) (auto simp: starts_value_def quote_text_def is_json_space_def)
  have "parse_value num (f (snd x) @ 44 # join_texts ?texts @ 125 # rest)
      = Some (g (snd x), 44 # join_texts ?texts @ 125 # rest)"
    using 3(6) by simp
  from parse_members_turn(2) [OF starts_value_append this] skip 3(4) fresh
  have "parse_members num acc (quote_text (fst x) @ 58 # f (snd x) @ 44 # join_texts ?texts @ 125 # rest)
      = parse_members num (acc @ [(fst x, g (snd x))]) (join_texts ?texts @ 125 # rest)"
    by (simp add: update_absent)
  also have "\<dots> = Some ((acc @ [(fst x, g (snd x))]) @ map (\<lambda>x. (fst x, g (snd x))) (y # r), rest)"
    by (rule 3(2)) (use 3(4-6) in \<open>auto simp: image_iff\<close>)
  finally show ?case by simp
qed simp

lemma scan_elements_texts:
  assumes "vs \<noteq> []" and "\<forall>v \<in> set vs. starts_value (f v)"
    and "\<forall>v \<in> set vs. \<forall>m t. ends_value t \<longrightarrow> m + h v \<le> limit \<longrightarrow>
           scan_value num (Suc d) m (f v @ t) = Inr (m + h v, t)"
    and "n + sum_list (map h vs) \<le> limit"
  shows "scan_elements num d n (join_texts (map f vs) @ 93 # rest) = Inr (n + sum_list (map h vs), rest)"
  using assms
proof (induction vs arbitrary: n rule: induct_list012)
  case (2 v)
  then show ?case by (simp add: scan_elements_turn)
next
  case (3 v w vs)
  have skip: "skip_space (join_texts (map f (w # vs)) @ 93 # rest) = join_texts (map f (w # vs)) @ 93 # rest"
    by (rule joined_start) (use 3(4) in simp_all)
  have "scan_value num (Suc d) n (f v @ 44 # join_texts (map f (w # vs)) @ 93 # rest)
      = Inr (n + h v, 44 # join_texts (map f (w # vs)) @ 93 # rest)"
    using 3(5,6) by simp
  from scan_elements_turn(2) [OF this] skip
  have "scan_elements num d n (join_texts (map f (v # w # vs)) @ 93 # rest)
      = scan_elements num d (n + h v) (join_texts (map f (w # vs)) @ 93 # rest)" by simp
  also have "\<dots> = Inr (n + h v + sum_list (map h (w # vs)), rest)"
    by (rule 3(2)) (use 3(4-6) in auto)
  finally show ?case by simp
qed simp

lemma scan_members_texts:
  assumes "r \<noteq> []" and "\<forall>x \<in> set r. starts_value (f (snd x))" and "distinct (map fst r)"
    and "set ks \<inter> fst ` set r = {}" and "\<forall>x \<in> set r. fst x \<notin> set unsafe_json_keys \<and> \<not> has_lone_surrogate (fst x)"
    and "\<forall>x \<in> set r. \<forall>m t. ends_value t \<longrightarrow> m + h (snd x) \<le> limit \<longrightarrow>
           scan_value num (Suc d) m (f (snd x) @ t) = Inr (m + h (snd x), t)"
    and "n + sum_list (map (\<lambda>x. h (snd x)) r) \<le> limit"
  shows "scan_members num d ks n (join_texts (map (\<lambda>x. quote_text (fst x) @ 58 # f (snd x)) r) @ 125 # rest)
    = Inr (n + sum_list (map (\<lambda>x. h (snd x)) r), rest)"
  using assms
proof (induction r arbitrary: ks n rule: induct_list012)
  case (2 x)
  with scan_members_turn(1) [of "f (snd x) @ 125 # rest" "fst x" ks num d n "n + h (snd x)" rest]
  show ?case by (simp add: starts_value_append)
next
  case (3 x y r)
  let ?texts = "map (\<lambda>x. quote_text (fst x) @ 58 # f (snd x)) (y # r)"
  have skip: "skip_space (join_texts ?texts @ 125 # rest) = join_texts ?texts @ 125 # rest"
    by (rule joined_start) (auto simp: starts_value_def quote_text_def is_json_space_def)
  have entry: "scan_value num (Suc d) n (f (snd x) @ 44 # join_texts ?texts @ 125 # rest)
      = Inr (n + h (snd x), 44 # join_texts ?texts @ 125 # rest)"
    using 3(8,9) by simp
  have key: "fst x \<notin> set ks" "fst x \<notin> set unsafe_json_keys" "\<not> has_lone_surrogate (fst x)"
      "starts_value (f (snd x) @ 44 # join_texts ?texts @ 125 # rest)"
    using 3(4,6,7) by (auto intro: starts_value_append)
  from scan_members_turn(2) [OF key(4,1-3) entry] skip
  have "scan_members num d ks n (join_texts (map (\<lambda>x. quote_text (fst x) @ 58 # f (snd x)) (x # y # r)) @ 125 # rest)
      = scan_members num d (set_add (fst x) ks) (n + h (snd x)) (join_texts ?texts @ 125 # rest)" by simp
  also have "\<dots> = Inr (n + h (snd x) + sum_list (map (\<lambda>x. h (snd x)) (y # r)), rest)"
    by (rule 3(2)) (use 3(4-9) in auto)
  finally show ?case by simp
qed simp

text \<open>The entries of an object in canonical order.\<close>

lemma canonical_entries:
  "canonical_text (JObj r) = 123 # join_texts (map (\<lambda>x. quote_text (fst x) @ 58 # canonical_text (snd x)) (sort_key fst r)) @ [125]"
  "canonical_form (JObj r) = JObj (map (\<lambda>x. (fst x, canonical_form (snd x))) (sort_key fst r))"
  by (simp_all add: split_def comp_def sort_entries)

lemma sorted_keys: "distinct (map fst (sort_key fst r)) \<longleftrightarrow> distinct (map fst r)"
  by (metis mset_map mset_sort mset_eq_imp_distinct_iff)

lemma number_unit:
  assumes "take_number s = Some (s, [])"
  shows "\<exists>c u. s = c # u \<and> (c = 45 \<or> is_digit_unit c) \<and> c \<notin> {123, 91, 34, 116, 102, 110}"
  using number_starts [OF assms] by (auto simp: is_digit_unit_def)

lemma zero_text: "js ''0'' = int_text 0"
  by (simp add: int_text_def nat_text_def js_def nat_digits.simps)

lemma number_text_value:
  assumes "canonical_ok d (JNum n)" "readable_numbers num (JNum n)" "reads_integers num"
  shows "num (number_text n) = (if n = NNegZero then NInt 0 else n)"
proof (cases n)
  case (NInt i)
  with assms(1,3) show ?thesis by (simp add: reads_integers_def)
next
  case NNegZero
  have "num (int_text 0) = NInt 0" using assms(3) by (simp add: reads_integers_def)
  then show ?thesis using NNegZero zero_text by simp
qed (use assms(1,2) in simp_all)

lemma canonical_text_parsed:
  assumes "canonical_ok d v" "distinct_keys v" "readable_numbers num v" "reads_integers num" "ends_value t"
  shows "parse_value num (canonical_text v @ t) = Some (canonical_form v, t)"
  using assms
proof (induction v arbitrary: d t rule: canonical_text.induct)
  case (1 vs)
  show ?case
  proof (cases "vs = []")
    case False
    have starts: "\<forall>v \<in> set vs. starts_value (canonical_text v)"
      using 1(2,4) by (auto intro: canonical_text_starts)
    have "\<forall>v \<in> set vs. \<forall>t. ends_value t \<longrightarrow> parse_value num (canonical_text v @ t) = Some (canonical_form v, t)"
      using 1 by auto
    from parse_elements_texts [OF False starts this, of t] starts_value_read [OF joined_starts [OF False starts, of "93 # t"]]
    show ?thesis by (simp add: parse_value.simps)
  qed (simp add: parse_value.simps)
next
  case (2 r)
  let ?r = "sort_key fst r"
  show ?case
  proof (cases "r = []")
    case False
    then have nonempty: "?r \<noteq> []" by (metis length_0_conv length_sort)
    have starts: "\<forall>x \<in> set ?r. starts_value (canonical_text (snd x))"
      using 2(2,4) by (fastforce intro: canonical_text_starts)
    have parts: "\<forall>x \<in> set ?r. \<forall>t. ends_value t \<longrightarrow> parse_value num (canonical_text (snd x) @ t) = Some (canonical_form (snd x), t)"
      using 2(1-6) by fastforce
    have distinct: "distinct (map fst ([] @ ?r))" using 2(3) by (simp add: sorted_keys)
    have "parse_members num [] (join_texts (map (\<lambda>x. quote_text (fst x) @ 58 # canonical_text (snd x)) ?r) @ 125 # t)
        = Some (map (\<lambda>x. (fst x, canonical_form (snd x))) ?r, t)"
      using parse_members_texts [OF nonempty starts distinct parts, of t] by simp
    moreover have "starts_value (join_texts (map (\<lambda>x. quote_text (fst x) @ 58 # canonical_text (snd x)) ?r) @ 125 # t)"
      by (rule joined_starts [OF nonempty]) (simp add: key_starts)
    note starts_value_read [OF this]
    ultimately show ?thesis by (simp add: canonical_entries parse_value.simps del: canonical_text.simps canonical_form.simps)
  qed (simp add: parse_value.simps)
next
  case (3 s)
  then show ?case by (simp add: parse_value.simps quote_text_def quoted_text_read)
next
  case (4 n)
  let ?s = "number_text n"
  have read: "take_number ?s = Some (?s, [])" using 4(1,3) number_text_read [of num n] by simp
  have num: "num ?s = (if n = NNegZero then NInt 0 else n)" by (rule number_text_value [OF 4(1,3,4)])
  from number_unit [OF read] obtain c u where c: "?s = c # u" "c \<notin> {123, 91, 34, 116, 102, 110}" by blast
  have "take_number (?s @ t) = Some (?s, t)" using take_number_extend [OF 4(5) read] by simp
  with c num show ?case by (simp add: parse_value.simps)
qed (simp_all add: parse_value.simps js_def take_literal_def)

lemma canonical_text_scanned:
  assumes "canonical_ok d v" "distinct_keys v" "readable_numbers num v" "reads_integers num" "ends_value t"
    and "n + node_count v \<le> MAX_TOOL_WORKFLOW_JSON_NODES"
  shows "scan_value num d n (canonical_text v @ t) = Inr (n + node_count v, t)"
  using assms
proof (induction v arbitrary: d n t rule: canonical_text.induct)
  case (1 vs)
  have depth: "d \<le> MAX_TOOL_WORKFLOW_JSON_DEPTH" using canonical_ok_depth [OF 1(2)] .
  show ?case
  proof (cases "vs = []")
    case False
    have starts: "\<forall>v \<in> set vs. starts_value (canonical_text v)"
      using 1(2,4) by (auto intro: canonical_text_starts)
    have parts: "\<forall>v \<in> set vs. \<forall>m t. ends_value t \<longrightarrow> m + node_count v \<le> MAX_TOOL_WORKFLOW_JSON_NODES \<longrightarrow>
        scan_value num (Suc d) m (canonical_text v @ t) = Inr (m + node_count v, t)"
      using 1 by auto
    have "Suc n + sum_list (map node_count vs) \<le> MAX_TOOL_WORKFLOW_JSON_NODES" using 1(7) by simp
    from scan_elements_texts [OF False starts parts this, of t] this depth
      starts_value_read [OF joined_starts [OF False starts, of "93 # t"]]
    show ?thesis by (simp add: scan_value.simps)
  qed (use 1(7) depth in \<open>simp add: scan_value.simps\<close>)
next
  case (2 r)
  let ?r = "sort_key fst r"
  have depth: "d \<le> MAX_TOOL_WORKFLOW_JSON_DEPTH" using canonical_ok_depth [OF 2(2)] .
  show ?case
  proof (cases "r = []")
    case False
    then have nonempty: "?r \<noteq> []" by (metis length_0_conv length_sort)
    have starts: "\<forall>x \<in> set ?r. starts_value (canonical_text (snd x))"
      using 2(2,4) by (fastforce intro: canonical_text_starts)
    have parts: "\<forall>x \<in> set ?r. \<forall>m t. ends_value t \<longrightarrow> m + node_count (snd x) \<le> MAX_TOOL_WORKFLOW_JSON_NODES \<longrightarrow>
        scan_value num (Suc d) m (canonical_text (snd x) @ t) = Inr (m + node_count (snd x), t)"
      using 2(1-6) by fastforce
    have keys: "\<forall>x \<in> set ?r. fst x \<notin> set unsafe_json_keys \<and> \<not> has_lone_surrogate (fst x)"
      using 2(2) by auto
    have "sum_list (map (\<lambda>x. node_count (snd x)) ?r) = sum_list (map (\<lambda>(k, v). node_count v) r)"
      by (simp add: sum_list_sort_key split_def)
    then have count: "Suc n + sum_list (map (\<lambda>x. node_count (snd x)) ?r) = n + node_count (JObj r)" by simp
    have distinct: "distinct (map fst ?r)" using 2(3) by (simp add: sorted_keys)
    have "scan_members num d [] (Suc n) (join_texts (map (\<lambda>x. quote_text (fst x) @ 58 # canonical_text (snd x)) ?r) @ 125 # t)
        = Inr (n + node_count (JObj r), t)"
      using scan_members_texts [OF nonempty starts distinct _ keys parts, of "[]" "Suc n" t] count 2(7) by simp
    moreover have "starts_value (join_texts (map (\<lambda>x. quote_text (fst x) @ 58 # canonical_text (snd x)) ?r) @ 125 # t)"
      by (rule joined_starts [OF nonempty]) (simp add: key_starts)
    note starts_value_read [OF this]
    moreover have "Suc n \<le> MAX_TOOL_WORKFLOW_JSON_NODES" using count 2(7) by simp
    ultimately show ?thesis using depth
      by (simp add: canonical_entries scan_value.simps del: canonical_text.simps node_count.simps)
  qed (use 2(7) depth in \<open>simp add: scan_value.simps\<close>)
next
  case (3 s)
  then show ?case by (simp add: scan_value.simps quote_text_def scan_quoted_text [unfolded quote_text_def, simplified])
next
  case (4 x)
  let ?s = "number_text x"
  have read: "take_number ?s = Some (?s, [])" using 4(1,3) number_text_read [of num x] by simp
  have "num ?s = (if x = NNegZero then NInt 0 else x)" by (rule number_text_value [OF 4(1,3,4)])
  moreover have "number_text (if x = NNegZero then NInt 0 else x) = ?s" by (simp add: zero_text)
  moreover have "take_number (?s @ t) = Some (?s, t)" using take_number_extend [OF 4(5) read] by simp
  ultimately have "scan_number num (?s @ t) = Inr t"
    using 4(1) by (auto simp: scan_number_def Let_def)
  moreover obtain c u where "?s = c # u" "c = 45 \<or> is_digit_unit c" "c \<notin> {123, 91, 34, 116, 102, 110}"
    using number_unit [OF read] by blast
  ultimately show ?case using 4(1,6) by (auto simp: scan_value.simps)
qed (simp_all add: scan_value.simps js_def take_literal_def scan_literal_def)

section \<open>What the scanner passes is parsed\<close>

definition sound_entries :: "nat \<Rightarrow> data_record \<Rightarrow> bool" where
  "sound_entries d r \<longleftrightarrow>
     distinct (map fst r)
     \<and> (\<forall>(k, v) \<in> set r. k \<notin> set unsafe_json_keys \<and> \<not> has_lone_surrogate k \<and> canonical_ok (Suc d) v \<and> distinct_keys v)"

lemma sound_entries_value:
  "d \<le> MAX_TOOL_WORKFLOW_JSON_DEPTH \<Longrightarrow> sound_entries d r \<Longrightarrow> canonical_ok d (JObj r) \<and> distinct_keys (JObj r)"
  by (auto simp: sound_entries_def)

lemma scan_literal_Inr: "scan_literal l s = Inr t \<longleftrightarrow> take_literal l s = Some t"
  by (simp add: scan_literal_def split: option.splits)

lemma scan_expect_Inr: "scan_expect c s = Inr t \<longleftrightarrow> take_unit c s = Some t"
  by (simp add: scan_expect_def split: option.splits)

lemma scan_parses:
  "scan_value num d n s = Inr (m, t) \<Longrightarrow>
     \<exists>v. parse_value num s = Some (v, t) \<and> canonical_ok d v \<and> distinct_keys v
       \<and> m = n + node_count v \<and> m \<le> MAX_TOOL_WORKFLOW_JSON_NODES"
  "scan_members num d ks n s = Inr (m, t) \<Longrightarrow> set ks = fst ` set acc \<Longrightarrow>
     \<exists>r. parse_members num acc s = Some (acc @ r, t) \<and> sound_entries d r \<and> fst ` set r \<inter> set ks = {}
       \<and> m = n + sum_list (map (\<lambda>(k, v). node_count v) r) \<and> m \<le> MAX_TOOL_WORKFLOW_JSON_NODES"
  "scan_elements num d n s = Inr (m, t) \<Longrightarrow>
     \<exists>vs. parse_elements num s = Some (vs, t) \<and> (\<forall>v \<in> set vs. canonical_ok (Suc d) v \<and> distinct_keys v)
       \<and> m = n + sum_list (map node_count vs) \<and> m \<le> MAX_TOOL_WORKFLOW_JSON_NODES"
proof (induction num d n s and num d ks n s and num d n s arbitrary: m t and acc m t and m t
    rule: scan_value_scan_members_scan_elements.induct)
  case (1 num d n s)
  have limits: "\<not> MAX_TOOL_WORKFLOW_JSON_DEPTH < d" "\<not> MAX_TOOL_WORKFLOW_JSON_NODES < Suc n"
    using "1.prems" by (auto simp: scan_value.simps split: if_splits)
  obtain c s1 where s: "s = c # s1" using "1.prems" limits by (cases s) (auto simp: scan_value.simps)
  note prem = "1.prems" [unfolded s scan_value.simps [of num d n "c # s1"], simplified limits, simplified]
  have depth: "d \<le> MAX_TOOL_WORKFLOW_JSON_DEPTH" "Suc n \<le> MAX_TOOL_WORKFLOW_JSON_NODES" using limits by simp_all
  consider "c = 123" | "c = 91" | "c = 34" | "c \<noteq> 123" "c \<noteq> 91" "c \<noteq> 34" by blast
  then show ?case
  proof cases
    case 1
    show ?thesis
    proof (cases "take_unit 125 (skip_space s1)")
      case (Some u)
      with prem 1 s depth show ?thesis
        by (intro exI [of _ "JObj []"]) (simp add: parse_value.simps(2))
    next
      case None
      with prem 1 have "scan_members num d [] (Suc n) (skip_space s1) = Inr (m, t)" by simp
      from "1.IH"(1) [OF limits s 1 None this, of "[]"] obtain r where
          "parse_members num [] (skip_space s1) = Some (r, t)" "sound_entries d r"
          "m = Suc n + sum_list (map (\<lambda>(k, v). node_count v) r)" "m \<le> MAX_TOOL_WORKFLOW_JSON_NODES"
        by auto
      with sound_entries_value [OF depth(1)] None 1 s show ?thesis
        by (intro exI [of _ "JObj r"]) (simp add: parse_value.simps(2))
    qed
  next
    case 2
    show ?thesis
    proof (cases "take_unit 93 (skip_space s1)")
      case (Some u)
      with prem 2 s depth show ?thesis
        by (intro exI [of _ "JArr []"]) (simp add: parse_value.simps(2))
    next
      case None
      with prem 2 have "scan_elements num d (Suc n) (skip_space s1) = Inr (m, t)" by simp
      from "1.IH"(2) [OF limits s _ 2 None this] 2 obtain vs where
          "parse_elements num (skip_space s1) = Some (vs, t)" "\<forall>v \<in> set vs. canonical_ok (Suc d) v \<and> distinct_keys v"
          "m = Suc n + sum_list (map node_count vs)" "m \<le> MAX_TOOL_WORKFLOW_JSON_NODES"
        by auto
      with depth None 2 s show ?thesis
        by (intro exI [of _ "JArr vs"]) (simp add: parse_value.simps(2))
    qed
  next
    case 3
    with prem obtain v where "scan_string num (c # s1) = Inr (v, t)" "m = Suc n" by (auto simp: outcome_simps)
    with 3 s depth show ?thesis
      by (intro exI [of _ "JStr v"]) (auto simp: scan_string_reads parse_value.simps(2))
  next
    case 4
    show ?thesis
    proof (cases "c \<in> {116, 102, 110}")
      case True
      with prem s depth show ?thesis
        by (auto simp: parse_value.simps(2) outcome_simps scan_literal_Inr)
    next
      case False
      with prem 4 have read: "scan_number num (c # s1) = Inr t" "m = Suc n"
        by (auto simp: outcome_simps split: if_splits)
      then obtain raw where raw: "take_number (c # s1) = Some (raw, t)" "is_finite_number (num raw)"
          "is_integer_number (num raw) \<longrightarrow> is_safe_integer (num raw)"
        by (auto simp: scan_number_def Let_def split: option.splits if_splits)
      with False 4 s depth read(2) show ?thesis
        by (intro exI [of _ "JNum (num raw)"]) (simp add: parse_value.simps(2))
    qed
  qed
next
  case (2 num d ks n s)
  then obtain k s1 s2 n1 s3 where key: "scan_string num s = Inr (k, s1)"
      "reject_if (k \<in> set ks) Json_Duplicate_Key = Inr ()" "reject_if (k \<in> set unsafe_json_keys) Json_Unsafe_Key = Inr ()"
      "scan_expect 58 (skip_space s1) = Inr s2"
    and entry: "scan_value num (Suc d) n (skip_space s2) = Inr (n1, s3)"
    by (auto simp: scan_members.simps [of num d ks n s] outcome_simps)
  obtain s0 where s0: "s = 34 # s0" "read_chars s0 = Some (k, s1)" "\<not> has_lone_surrogate k"
    using key(1) scan_string_reads by blast
  obtain v where v: "parse_value num (skip_space s2) = Some (v, s3)" "canonical_ok (Suc d) v" "distinct_keys v"
      "n1 = n + node_count v" "n1 \<le> MAX_TOOL_WORKFLOW_JSON_NODES"
    using "2.IH"(1) [OF key(1) refl key(2-4) entry] by blast
  have fresh: "k \<notin> set ks" "k \<notin> set unsafe_json_keys" using key(2,3) by (simp_all add: outcome_simps)
  have absent: "AList.update k v acc = acc @ [(k, v)]"
    using fresh(1) "2.prems"(2) by (auto simp: update_absent map_of_eq_None_iff)
  have step: "parse_members num acc s =
      (case take_unit 125 (skip_space s3) of
         Some t \<Rightarrow> Some (acc @ [(k, v)], t)
       | None \<Rightarrow> Option.bind (take_unit 44 (skip_space s3)) (\<lambda>s5. parse_members num (acc @ [(k, v)]) (skip_space s5)))"
    unfolding parse_members.simps [of num acc s] using s0 key(4) v(1) by (simp add: scan_expect_Inr absent split: option.split)
  have one: "sound_entries d [(k, v)]" using fresh(2) s0(3) v(2,3) by (simp add: sound_entries_def)
  show ?case
  proof (cases "take_unit 125 (skip_space s3)")
    case (Some u)
    with "2.prems"(1) key entry have "t = u" "m = n1" by (simp_all add: scan_members.simps [of num d ks n s])
    with step Some one v(4,5) fresh(1) show ?thesis by (intro exI [of _ "[(k, v)]"]) auto
  next
    case None
    with "2.prems"(1) key entry obtain s4 where rest: "scan_expect 44 (skip_space s3) = Inr s4"
        "scan_members num d (set_add k ks) n1 (skip_space s4) = Inr (m, t)"
      by (auto simp: scan_members.simps [of num d ks n s] and_then_eq_Inr)
    have "set (set_add k ks) = fst ` set (acc @ [(k, v)])" using "2.prems"(2) by auto
    from "2.IH"(2) [OF key(1) refl key(2-4) entry refl None rest(1) rest(2) this]
    obtain r where r: "parse_members num (acc @ [(k, v)]) (skip_space s4) = Some ((acc @ [(k, v)]) @ r, t)"
        "sound_entries d r" "fst ` set r \<inter> set (set_add k ks) = {}"
        "m = n1 + sum_list (map (\<lambda>(k, v). node_count v) r)" "m \<le> MAX_TOOL_WORKFLOW_JSON_NODES"
      by blast
    with step None rest(1) one v(4) fresh(1) show ?thesis
      by (intro exI [of _ "(k, v) # r"]) (auto simp: scan_expect_Inr sound_entries_def)
  qed
next
  case (3 num d n s)
  then obtain n1 s1 where entry: "scan_value num (Suc d) n s = Inr (n1, s1)"
    by (auto simp: scan_elements.simps [of num d n s] outcome_simps)
  obtain v where v: "parse_value num s = Some (v, s1)" "canonical_ok (Suc d) v" "distinct_keys v"
      "n1 = n + node_count v" "n1 \<le> MAX_TOOL_WORKFLOW_JSON_NODES"
    using "3.IH"(1) [OF entry] by blast
  show ?case
  proof (cases "take_unit 93 (skip_space s1)")
    case (Some u)
    with "3.prems" entry have "t = u" "m = n1" by (simp_all add: scan_elements.simps [of num d n s])
    with Some v show ?thesis by (intro exI [of _ "[v]"]) (simp add: parse_elements.simps [of num s])
  next
    case None
    with "3.prems" entry obtain s2 where rest: "scan_expect 44 (skip_space s1) = Inr s2"
        "scan_elements num d n1 (skip_space s2) = Inr (m, t)"
      by (auto simp: scan_elements.simps [of num d n s] and_then_eq_Inr)
    from "3.IH"(2) [OF entry refl None rest] obtain vs where
        "parse_elements num (skip_space s2) = Some (vs, t)" "\<forall>v \<in> set vs. canonical_ok (Suc d) v \<and> distinct_keys v"
        "m = n1 + sum_list (map node_count vs)" "m \<le> MAX_TOOL_WORKFLOW_JSON_NODES"
      by blast
    with None rest(1) v show ?thesis
      by (intro exI [of _ "v # vs"]) (simp add: parse_elements.simps [of num s] scan_expect_Inr)
  qed
qed

text \<open>For whole texts: what passes the inspection, and what canonical text does.\<close>

lemma inspected_parsed:
  assumes "inspect_json_structure num s = Inr ()"
  shows "\<exists>v. json_parse num s = Some v \<and> canonical_ok 1 v \<and> distinct_keys v
    \<and> node_count v \<le> MAX_TOOL_WORKFLOW_JSON_NODES"
proof -
  obtain m t where scan: "scan_value num 1 0 (skip_space s) = Inr (m, t)" "skip_space t = []"
    using assms by (auto simp: inspect_json_structure_def outcome_simps)
  from scan_parses(1) [OF scan(1)] scan(2) show ?thesis by (auto simp: json_parse_def)
qed

lemma canonical_text_read_back:
  assumes "canonicalize_tool_workflow_json v = Inr s" "distinct_keys v" "readable_numbers num v" "reads_integers num"
  shows "inspect_json_structure num s = Inr ()" and "json_parse num s = Some (canonical_form v)"
proof -
  have ok: "canonical_ok 1 v" "0 + node_count v \<le> MAX_TOOL_WORKFLOW_JSON_NODES" "s = canonical_text v"
    using assms(1) by (simp_all add: canonicalize_tool_workflow_json_closed)
  have ends: "ends_value []" by (simp add: ends_value_def)
  have "skip_space s = s" using starts_value_read(1) [OF canonical_text_starts [OF ok(1) assms(3)]] ok(3) by simp
  moreover have "skip_space [] = []" by (simp add: skip_space_def)
  ultimately show "inspect_json_structure num s = Inr ()" and "json_parse num s = Some (canonical_form v)"
    using canonical_text_scanned [OF ok(1) assms(2-4) ends ok(2)] canonical_text_parsed [OF ok(1) assms(2-4) ends] ok(3)
    by (simp_all add: inspect_json_structure_def json_parse_def)
qed

end
