(* ===== verification/Tool_Workflow.thy ===== *)
theory Tool_Workflow
  imports Tool_Json_Facts
begin

text \<open>
  The envelopes of the tool workflow (\<open>packages/protocol/src/tool-workflow-v2.ts\<close>): their schemas,
  the reader of an assistant's response and the writer of a tool result.
\<close>

section \<open>Constants\<close>

definition TOOL_WORKFLOW_PROTOCOL_VERSION :: int where "TOOL_WORKFLOW_PROTOCOL_VERSION = 2"
definition TOOL_WORKFLOW_ENVELOPE_BEGIN :: jstr where "TOOL_WORKFLOW_ENVELOPE_BEGIN = js ''GSB/2 BEGIN''"
definition TOOL_WORKFLOW_ENVELOPE_END :: jstr where "TOOL_WORKFLOW_ENVELOPE_END = js ''GSB/2 END''"
definition MAX_TOOL_WORKFLOW_ENVELOPE_BYTES :: nat where "MAX_TOOL_WORKFLOW_ENVELOPE_BYTES = 256 * 1024"
definition MAX_TOOL_WORKFLOW_ARGUMENT_BYTES :: nat where "MAX_TOOL_WORKFLOW_ARGUMENT_BYTES = 64 * 1024"
definition MAX_TOOL_WORKFLOW_RESULT_BYTES :: nat where "MAX_TOOL_WORKFLOW_RESULT_BYTES = 128 * 1024"
definition MAX_TOOL_WORKFLOW_FINAL_TEXT_BYTES :: nat where "MAX_TOOL_WORKFLOW_FINAL_TEXT_BYTES = 192 * 1024"
definition MAX_TOOL_WORKFLOW_TOOL_CALLS :: nat where "MAX_TOOL_WORKFLOW_TOOL_CALLS = 32"
definition MAX_TOOL_WORKFLOW_ROUNDS :: nat where "MAX_TOOL_WORKFLOW_ROUNDS = MAX_TOOL_WORKFLOW_TOOL_CALLS + 1"

section \<open>Schemas\<close>

text \<open>The patterns of the identifiers.\<close>

definition matches_reference :: "string \<Rightarrow> jstr \<Rightarrow> bool" where
  "matches_reference start s \<longleftrightarrow>
     prefix (js start) s \<and> 16 \<le> length s - length start \<and> length s - length start \<le> 96
     \<and> list_all is_base64url_unit (drop (length start) s)"

definition turn_alias :: "jstr \<Rightarrow> bool" where "turn_alias s \<longleftrightarrow> matches_reference ''wt_'' s"
definition call_reference :: "jstr \<Rightarrow> bool" where "call_reference s \<longleftrightarrow> matches_reference ''wc_'' s"

definition round_challenge :: "jstr \<Rightarrow> bool" where
  "round_challenge s \<longleftrightarrow> length s = 32 \<and> list_all is_base64url_unit s"

definition manifest_digest :: "jstr \<Rightarrow> bool" where
  "manifest_digest s \<longleftrightarrow>
     prefix (js ''sha256-'') s \<and> length s = 50
     \<and> list_all is_base64url_unit (take 42 (drop 7 s)) \<and> last s \<in> set (js ''AEIMQUYcgkosw048'')"

definition tool_name :: "jstr \<Rightarrow> bool" where
  "tool_name s \<longleftrightarrow> 1 \<le> length s \<and> length s \<le> 64 \<and> list_all is_base64url_unit s"

text \<open>\<open>z.number().int().min(low).max(high)\<close>\<close>

definition read_round :: "nat \<Rightarrow> nat \<Rightarrow> jval \<Rightarrow> nat option" where
  "read_round low high v =
     (case v of
        JNum (NInt i) \<Rightarrow> if int low \<le> i \<and> i \<le> int high then Some (nat i) else None
      | JNum NNegZero \<Rightarrow> if low = 0 then Some 0 else None
      | _ \<Rightarrow> None)"

definition read_matching :: "(jstr \<Rightarrow> bool) \<Rightarrow> jval \<Rightarrow> jstr option" where
  "read_matching ok v = (case v of JStr s \<Rightarrow> if ok s then Some s else None | _ \<Rightarrow> None)"

text \<open>\<open>.strict()\<close>: no key outside the shape.\<close>

definition only_keys :: "string list \<Rightarrow> data_record \<Rightarrow> bool" where
  "only_keys shape r \<longleftrightarrow> list_all (\<lambda>(k, v). k \<in> set (map js shape)) r"

datatype assistant_envelope =
    Tool_Call_Envelope (ae_turn: jstr) (ae_challenge: jstr) (ae_manifest_digest: jstr) (ae_round: nat)
      (ae_tool: jstr) (ae_arguments: data_record)
  | Final_Envelope (ae_turn: jstr) (ae_challenge: jstr) (ae_manifest_digest: jstr) (ae_round: nat)
      (ae_text: jstr)

text \<open>\<open>isValidToolWorkflowArguments\<close>\<close>

definition read_arguments :: "jval \<Rightarrow> data_record option" where
  "read_arguments v =
     (case v of
        JObj r \<Rightarrow> (case canonicalize_tool_workflow_json v of Inl _ \<Rightarrow> None | Inr _ \<Rightarrow> Some r)
      | _ \<Rightarrow> None)"

definition read_envelope_base :: "nat \<Rightarrow> data_record \<Rightarrow> (jstr \<times> jstr \<times> jstr \<times> nat) option" where
  "read_envelope_base high r =
     (if field r ''v'' \<noteq> JNum (NInt TOOL_WORKFLOW_PROTOCOL_VERSION) then None
      else
        Option.bind (read_matching turn_alias (field r ''turn'')) (\<lambda>turn.
        Option.bind (read_matching round_challenge (field r ''challenge'')) (\<lambda>challenge.
        Option.bind (read_matching manifest_digest (field r ''manifestDigest'')) (\<lambda>digest.
        Option.bind (read_round 0 high (field r ''round'')) (\<lambda>n.
        Some (turn, challenge, digest, n))))))"

definition read_call_envelope :: "data_record \<Rightarrow> assistant_envelope option" where
  "read_call_envelope r =
     (if only_keys [''v'', ''turn'', ''challenge'', ''manifestDigest'', ''round'', ''kind'', ''tool'', ''arguments''] r
      then
        Option.bind (read_envelope_base (MAX_TOOL_WORKFLOW_TOOL_CALLS - 1) r) (\<lambda>(turn, challenge, digest, n).
        Option.bind (read_matching tool_name (field r ''tool'')) (\<lambda>tool.
        Option.bind (read_arguments (field r ''arguments'')) (\<lambda>args.
        Some (Tool_Call_Envelope turn challenge digest n tool args))))
      else None)"

definition read_final_envelope :: "data_record \<Rightarrow> assistant_envelope option" where
  "read_final_envelope r =
     (if only_keys [''v'', ''turn'', ''challenge'', ''manifestDigest'', ''round'', ''kind'', ''text''] r
      then
        Option.bind (read_envelope_base (MAX_TOOL_WORKFLOW_ROUNDS - 1) r) (\<lambda>(turn, challenge, digest, n).
        Option.bind (read_matching (\<lambda>_. True) (field r ''text'')) (\<lambda>str.
        Some (Final_Envelope turn challenge digest n str)))
      else None)"

text \<open>\<open>toolWorkflowAssistantEnvelopeSchema.safeParse(value)\<close>\<close>

definition read_assistant_envelope :: "jval \<Rightarrow> assistant_envelope option" where
  "read_assistant_envelope v =
     Option.bind (read_data_record v) (\<lambda>r.
       if field r ''kind'' = JStr (js ''tool_call'') then read_call_envelope r
       else if field r ''kind'' = JStr (js ''final'') then read_final_envelope r
       else None)"

text \<open>The parsed data as a value, with the keys in the order of the shape.\<close>

fun envelope_value :: "assistant_envelope \<Rightarrow> jval" where
  "envelope_value (Tool_Call_Envelope turn challenge digest n tool args) =
     JObj [(js ''v'', JNum (NInt TOOL_WORKFLOW_PROTOCOL_VERSION)), (js ''turn'', JStr turn),
           (js ''challenge'', JStr challenge), (js ''manifestDigest'', JStr digest),
           (js ''round'', JNum (NInt (int n))), (js ''kind'', JStr (js ''tool_call'')),
           (js ''tool'', JStr tool), (js ''arguments'', JObj args)]"
| "envelope_value (Final_Envelope turn challenge digest n str) =
     JObj [(js ''v'', JNum (NInt TOOL_WORKFLOW_PROTOCOL_VERSION)), (js ''turn'', JStr turn),
           (js ''challenge'', JStr challenge), (js ''manifestDigest'', JStr digest),
           (js ''round'', JNum (NInt (int n))), (js ''kind'', JStr (js ''final'')),
           (js ''text'', JStr str)]"

text \<open>\<open>sameJsonValue\<close>\<close>

fun same_json_value :: "jval \<Rightarrow> jval \<Rightarrow> bool" where
  "same_json_value (JArr vs) w =
     (case w of JArr ws \<Rightarrow> length vs = length ws \<and> list_all2 same_json_value vs ws | _ \<Rightarrow> False)"
| "same_json_value (JObj r) w =
     (case w of
        JObj r' \<Rightarrow>
          length r = length r'
          \<and> list_all (\<lambda>(k, v). case map_of r' k of None \<Rightarrow> False | Some v' \<Rightarrow> same_json_value v v') r
      | _ \<Rightarrow> False)"
| "same_json_value v w = (v = w)"

section \<open>Reading a response\<close>

definition envelope_prefix :: jstr where "envelope_prefix = TOOL_WORKFLOW_ENVELOPE_BEGIN @ [10]"
definition envelope_suffix :: jstr where "envelope_suffix = 10 # TOOL_WORKFLOW_ENVELOPE_END"

text \<open>\<open>text.slice(prefix.length, -suffix.length)\<close>\<close>

definition envelope_body :: "jstr \<Rightarrow> jstr" where
  "envelope_body s =
     take (length s - length envelope_suffix - length envelope_prefix) (drop (length envelope_prefix) s)"

definition valid_body :: "jstr \<Rightarrow> bool" where
  "valid_body s \<longleftrightarrow>
     s \<noteq> [] \<and> hd s = 123 \<and> last s = 125 \<and> 10 \<notin> set s \<and> 13 \<notin> set s \<and> 65279 \<notin> set s"

text \<open>The limits on the parts of a parsed envelope.\<close>

fun check_envelope_size :: "assistant_envelope \<Rightarrow> (workflow_parse_error, unit) result" where
  "check_envelope_size (Tool_Call_Envelope turn challenge digest n tool args) =
     (case canonicalize_tool_workflow_json (JObj args) of
        Inl _ \<Rightarrow> throw Envelope_Invalid
      | Inr s \<Rightarrow> reject_if (MAX_TOOL_WORKFLOW_ARGUMENT_BYTES < utf8_length s) Arguments_Too_Large)"
| "check_envelope_size (Final_Envelope turn challenge digest n str) =
     reject_if (MAX_TOOL_WORKFLOW_FINAL_TEXT_BYTES < utf8_length str) Final_Text_Too_Large"

definition parse_tool_workflow_assistant_envelope ::
    "(jstr \<Rightarrow> jnum) \<Rightarrow> jstr \<Rightarrow> (workflow_parse_error, assistant_envelope) result" where
  "parse_tool_workflow_assistant_envelope num s =
     and_then (reject_if (MAX_TOOL_WORKFLOW_ENVELOPE_BYTES < utf8_length s) Envelope_Too_Large) (\<lambda>_.
     and_then (reject_if (\<not> prefix envelope_prefix s \<or> \<not> suffix envelope_suffix s) Envelope_Invalid) (\<lambda>_.
     let body = envelope_body s in
     and_then (reject_if (\<not> valid_body body) Envelope_Invalid) (\<lambda>_.
     and_then (inspect_json_structure num body) (\<lambda>_.
     case json_parse num body of
       None \<Rightarrow> throw Envelope_Invalid
     | Some v \<Rightarrow>
         (case read_assistant_envelope v of
            None \<Rightarrow> throw Envelope_Invalid
          | Some e \<Rightarrow>
              and_then (reject_if (\<not> same_json_value v (envelope_value e)) Envelope_Invalid) (\<lambda>_.
              and_then (check_envelope_size e) (\<lambda>_. return e)))))))"

section \<open>Writing a result\<close>

record result_envelope =
  re_turn :: jstr
  re_round :: int
  re_challenge :: jstr
  re_manifest_digest :: jstr
  re_call_ref :: jstr
  re_tool :: jstr
  re_ok :: bool
  re_output :: jstr

definition valid_result_envelope :: "result_envelope \<Rightarrow> bool" where
  "valid_result_envelope e \<longleftrightarrow>
     turn_alias (re_turn e) \<and> 1 \<le> re_round e \<and> re_round e \<le> int MAX_TOOL_WORKFLOW_ROUNDS - 1
     \<and> round_challenge (re_challenge e) \<and> manifest_digest (re_manifest_digest e)
     \<and> call_reference (re_call_ref e) \<and> tool_name (re_tool e)"

definition result_value :: "result_envelope \<Rightarrow> jval" where
  "result_value e =
     JObj [(js ''v'', JNum (NInt TOOL_WORKFLOW_PROTOCOL_VERSION)), (js ''kind'', JStr (js ''tool_result'')),
           (js ''turn'', JStr (re_turn e)), (js ''round'', JNum (NInt (re_round e))),
           (js ''challenge'', JStr (re_challenge e)), (js ''manifestDigest'', JStr (re_manifest_digest e)),
           (js ''callRef'', JStr (re_call_ref e)), (js ''tool'', JStr (re_tool e)),
           (js ''ok'', JBool (re_ok e)), (js ''output'', JStr (re_output e))]"

text \<open>What the writer throws: a schema error, its own \<open>RangeError\<close>, or what the canonicalization throws.\<close>

datatype serialize_error = Result_Schema | Result_Range | Result_Canonical canonical_error

definition serialize_tool_workflow_result_envelope :: "result_envelope \<Rightarrow> (serialize_error, jstr) result" where
  "serialize_tool_workflow_result_envelope e =
     and_then (reject_if (\<not> valid_result_envelope e) Result_Schema) (\<lambda>_.
     and_then (reject_if (MAX_TOOL_WORKFLOW_RESULT_BYTES < utf8_length (re_output e)) Result_Range) (\<lambda>_.
     case canonicalize_tool_workflow_json (result_value e) of
       Inl err \<Rightarrow> throw (Result_Canonical err)
     | Inr canonical \<Rightarrow>
         let serialized = TOOL_WORKFLOW_ENVELOPE_BEGIN @ 10 # canonical @ 10 # TOOL_WORKFLOW_ENVELOPE_END in
         and_then (reject_if (MAX_TOOL_WORKFLOW_ENVELOPE_BYTES < utf8_length serialized) Result_Range) (\<lambda>_.
         return serialized)))"

end
