(* ===== verification/Tool_Workflow_Properties.thy ===== *)
theory Tool_Workflow_Properties
  imports Tool_Workflow
begin

text \<open>
  What the reader and the writer of the tool workflow promise each other: canonical text reads back,
  a response is accepted only in its exact form, and a response written in that form is accepted.
\<close>

section \<open>Canonical forms\<close>

definition canonical_record :: "data_record \<Rightarrow> data_record" where
  "canonical_record r = sort_key fst (map (\<lambda>(k, v). (k, canonical_form v)) r)"

lemma canonical_form_record: "canonical_form (JObj r) = JObj (canonical_record r)"
  by (simp add: canonical_record_def)

lemma set_canonical_record: "set (canonical_record r) = (\<lambda>(k, v). (k, canonical_form v)) ` set r"
  by (simp add: canonical_record_def)

lemma canonical_record_keys: "distinct (map fst (canonical_record r)) \<longleftrightarrow> distinct (map fst r)"
  by (simp add: canonical_record_def sorted_keys split_def comp_def)

lemma map_of_canonical_record:
  assumes "distinct (map fst r)"
  shows "map_of (canonical_record r) k = map_option canonical_form (map_of r k)"
proof -
  have sorted: "distinct (map fst (canonical_record r))" using assms by (simp add: canonical_record_keys)
  have "map_of (canonical_record r) k = Some w \<longleftrightarrow> map_option canonical_form (map_of r k) = Some w" for w
    using map_of_eq_Some_iff [OF sorted] map_of_eq_Some_iff [OF assms]
    by (auto simp: set_canonical_record)
  then show ?thesis by (metis option.exhaust)
qed

lemma field_canonical_record:
  "distinct (map fst r) \<Longrightarrow> field (canonical_record r) k = canonical_form (field r k)"
  by (simp add: field_def map_of_canonical_record split: option.split)

lemma canonical_form_ok: "canonical_ok d (canonical_form v) \<longleftrightarrow> canonical_ok d v"
proof (induction d v rule: canonical_ok.induct)
  case (4 d n)
  show ?case by (cases n) simp_all
qed auto

lemma canonical_form_nodes: "node_count (canonical_form v) = node_count v"
proof (induction v rule: node_count.induct)
  case (1 vs)
  then have same: "map (node_count \<circ> canonical_form) vs = map node_count vs" by simp
  show ?case by (simp only: canonical_form.simps node_count.simps map_map same)
next
  case (2 r)
  have same: "map ((\<lambda>(k, v). node_count v) \<circ> (\<lambda>(k, v). (k, canonical_form v))) r = map (\<lambda>(k, v). node_count v) r"
    by (rule map_cong) (use 2 in auto)
  show ?case by (simp only: canonical_form.simps node_count.simps sum_list_sort_key map_map same)
qed simp_all

lemma canonical_form_distinct: "distinct_keys v \<Longrightarrow> distinct_keys (canonical_form v)"
proof (induction v rule: distinct_keys.induct)
  case (2 r)
  then show ?case by (fastforce simp: sorted_keys split_def comp_def)
qed auto

lemma sort_key_again: "sort_key fst (sort_key fst r) = sort_key fst r"
  for r :: "('k :: linorder \<times> 'v) list"
  by (rule sort_key_id_if_sorted) simp

lemma canonical_form_text: "canonical_text (canonical_form v) = canonical_text v"
proof (induction v rule: canonical_text.induct)
  case (1 vs)
  then have same: "map (canonical_text \<circ> canonical_form) vs = map canonical_text vs" by simp
  show ?case by (simp only: canonical_form.simps canonical_text.simps map_map same)
next
  case (2 r)
  let ?form = "\<lambda>x. (fst x, canonical_form (snd x))"
  let ?entry = "\<lambda>x. quote_text (fst x) @ 58 # canonical_text (snd x)"
  have same: "map (?entry \<circ> ?form) (sort_key fst r) = map ?entry (sort_key fst r)"
    by (rule map_cong) (use 2 in auto)
  have again: "sort_key fst (map ?form (sort_key fst r)) = map ?form (sort_key fst r)"
    by (simp add: sort_entries sort_key_again)
  show ?case by (simp only: canonical_entries again map_map same)
next
  case (4 n)
  show ?case by (cases "n = NNegZero") (simp_all add: zero_text)
qed simp_all

lemma canonicalize_form:
  "canonicalize_tool_workflow_json v = Inr s \<Longrightarrow> canonicalize_tool_workflow_json (canonical_form v) = Inr s"
  by (simp add: canonicalize_tool_workflow_json_closed canonical_form_ok canonical_form_nodes canonical_form_text)

section \<open>Envelopes as values\<close>

lemma same_json_value_refl: "distinct_keys v \<Longrightarrow> same_json_value v v"
proof (induction v)
  case (JArr vs)
  then show ?case by (simp add: list.rel_refl_strong)
next
  case (JObj r)
  have "map_of r k = Some v" if "(k, v) \<in> set r" for k v using JObj(2) that by simp
  with JObj show ?case by (fastforce simp: list_all_iff)
qed simp_all

text \<open>An object is the same as one that lists the same fields in another order.\<close>

lemma same_json_record:
  assumes "distinct_keys (JObj r)" "distinct (map fst r')" "fst ` set r = fst ` set r'"
    and "\<And>k. k \<in> fst ` set r \<Longrightarrow> map_of r k = map_of r' k"
  shows "same_json_value (JObj r) (JObj r')"
proof -
  have "card (fst ` set r) = card (fst ` set r')" using assms(3) by simp
  then have "length r = length r'"
    using assms(1,2) distinct_card [of "map fst r"] distinct_card [of "map fst r'"] by simp
  moreover have "map_of r' k = Some v \<and> distinct_keys v" if "(k, v) \<in> set r" for k v
  proof -
    have "map_of r k = Some v" using assms(1) that by simp
    with assms(4) [of k] that assms(1) show ?thesis by (force simp: image_iff)
  qed
  ultimately show ?thesis by (fastforce simp: list_all_iff intro: same_json_value_refl)
qed

lemma field_map_of: "field r k = v \<Longrightarrow> v \<noteq> JUndef \<Longrightarrow> map_of r (js k) = Some v"
  by (simp add: field_def split: option.splits)

lemma read_matching_Some: "read_matching ok v = Some s \<longleftrightarrow> v = JStr s \<and> ok s"
  by (auto simp: read_matching_def split: jval.splits if_splits)

lemma read_round_Some:
  "read_round low high v = Some n \<longleftrightarrow>
     v = JNum (NInt (int n)) \<and> low \<le> n \<and> n \<le> high \<or> v = JNum NNegZero \<and> low = 0 \<and> n = 0"
  by (auto simp: read_round_def split: jval.splits jnum.splits if_splits)

lemma read_arguments_Some:
  "read_arguments v = Some r \<longleftrightarrow> v = JObj r \<and> (\<exists>s. canonicalize_tool_workflow_json v = Inr s)"
  by (auto simp: read_arguments_def split: jval.splits sum.splits)

definition envelope_fields :: "assistant_envelope \<Rightarrow> data_record" where
  "envelope_fields e = (case envelope_value e of JObj r \<Rightarrow> r | _ \<Rightarrow> [])"

lemma envelope_value_fields: "envelope_value e = JObj (envelope_fields e)"
  by (cases e) (simp_all add: envelope_fields_def)

lemma envelope_fields_distinct: "distinct (map fst (envelope_fields e))"
  by (cases e) (simp_all add: envelope_fields_def)

text \<open>A read envelope has exactly the fields of the value, so \<open>sameJsonValue\<close> never fails.\<close>

lemma read_envelope_fields:
  assumes "read_assistant_envelope (JObj r) = Some e" "field r ''round'' \<noteq> JNum NNegZero"
  shows "fst ` set r = fst ` set (envelope_fields e)"
    and "k \<in> fst ` set (envelope_fields e) \<Longrightarrow> map_of r k = map_of (envelope_fields e) k"
proof -
  have known: "field r k = JStr x \<Longrightarrow> map_of r (js k) = Some (JStr x)"
      "field r k = JNum y \<Longrightarrow> map_of r (js k) = Some (JNum y)"
      "field r k = JObj z \<Longrightarrow> map_of r (js k) = Some (JObj z)" for k x y z
    by (simp_all add: field_map_of)
  let ?base = "[''v'', ''turn'', ''challenge'', ''manifestDigest'', ''round'', ''kind'']"
  have "\<exists>shape. fst ` set r \<subseteq> js ` set shape \<and> map fst (envelope_fields e) = map js shape
      \<and> (\<forall>k \<in> set shape. map_of r (js k) = map_of (envelope_fields e) (js k) \<and> map_of r (js k) \<noteq> None)"
  proof (cases "field r ''kind'' = JStr (js ''tool_call'')")
    case True
    with assms show ?thesis
      by (intro exI [of _ "?base @ [''tool'', ''arguments'']"])
        (auto simp: read_assistant_envelope_def read_call_envelope_def read_envelope_base_def bind_eq_Some_conv
          read_matching_Some read_round_Some read_arguments_Some only_keys_def list_all_iff known
          envelope_fields_def split: if_splits)
  next
    case False
    with assms show ?thesis
      by (intro exI [of _ "?base @ [''text'']"])
        (auto simp: read_assistant_envelope_def read_final_envelope_def read_envelope_base_def bind_eq_Some_conv
          read_matching_Some read_round_Some only_keys_def list_all_iff known
          envelope_fields_def split: if_splits)
  qed
  then obtain shape where shape: "fst ` set r \<subseteq> js ` set shape" "map fst (envelope_fields e) = map js shape"
      "\<forall>k \<in> set shape. map_of r (js k) = map_of (envelope_fields e) (js k) \<and> map_of r (js k) \<noteq> None"
    by blast
  from arg_cong [OF shape(2), of set] have keys: "fst ` set (envelope_fields e) = js ` set shape" by simp
  have "\<forall>k \<in> set shape. map_of r (js k) \<noteq> None" using shape(3) by blast
  then have "js ` set shape \<subseteq> fst ` set r" by (auto simp: map_of_eq_None_iff)
  with shape(1) keys show "fst ` set r = fst ` set (envelope_fields e)" by blast
  show "k \<in> fst ` set (envelope_fields e) \<Longrightarrow> map_of r k = map_of (envelope_fields e) k"
    unfolding keys using shape(3) by blast
qed

lemma read_envelope_same:
  assumes "read_assistant_envelope v = Some e" "distinct_keys v" "\<forall>r. v = JObj r \<longrightarrow> field r ''round'' \<noteq> JNum NNegZero"
  shows "same_json_value v (envelope_value e)"
proof -
  obtain r where v: "v = JObj r" using assms(1) by (cases v) (auto simp: read_assistant_envelope_def)
  note fields = read_envelope_fields [OF assms(1) [unfolded v]]
  show ?thesis
    unfolding v envelope_value_fields
    by (rule same_json_record) (use assms v fields envelope_fields_distinct in auto)
qed

section \<open>The canonical text of an envelope\<close>

lemma join_texts_units: "set (join_texts ss) \<subseteq> insert 44 (\<Union> (set ` set ss))"
  by (induction ss rule: join_texts.induct) auto

lemma take_number_units:
  assumes "take_number s = Some (raw, t)" "c \<in> set raw"
  shows "is_digit_unit c \<or> c \<in> {43, 45, 46, 69, 101}"
proof -
  obtain sign s1 where sign: "take_sign s = (sign, s1)" by fastforce
  obtain whole s2 where whole: "take_integer s1 = Some (whole, s2)"
    using assms sign by (auto simp: take_number_def split: option.splits)
  obtain fraction s3 where fraction: "take_fraction s2 = (fraction, s3)" by fastforce
  obtain expo where expo: "take_exponent s3 = (expo, t)" "raw = sign @ whole @ fraction @ expo"
    using assms sign whole fraction by (auto simp: take_number_def split: prod.splits)
  have "set sign \<subseteq> {45}" using sign by (auto simp: take_sign_def split: option.splits)
  moreover have "\<forall>c \<in> set whole. is_digit_unit c"
  proof -
    have "is_digit_unit 48" by (simp add: is_digit_unit_def)
    with whole show ?thesis
      by (auto simp: take_integer_def take_digits_def dest: set_takeWhileD split: list.splits if_splits)
  qed
  moreover have "\<forall>c \<in> set fraction. c = 46 \<or> is_digit_unit c"
    using fraction by (auto simp: take_fraction_def take_digits_def dest: set_takeWhileD split: option.splits if_splits)
  moreover have "\<forall>c \<in> set expo. c \<in> {43, 45, 69, 101} \<or> is_digit_unit c"
    using expo(1) by (auto simp: take_exponent_def take_digits_def dest: set_takeWhileD split: list.splits if_splits)
  ultimately show ?thesis using assms(2) expo(2) by auto
qed

text \<open>A line break inside a string is escaped, and nothing else holds one.\<close>

lemma quote_text_lines:
  assumes "c = 10 \<or> c = 13"
  shows "c \<notin> set (quote_text s)"
proof -
  have "hex_value c = None" using assms by (auto simp: hex_value_def is_digit_unit_def)
  then have "c \<noteq> hex_digit n" if "n < 16" for n using hex_digit_value [OF that] by auto
  moreover have "unat u div 16 < 16" if "u < 32" for u :: code_unit
    using that by (simp add: word_less_nat_alt)
  ultimately have "c \<notin> set (quote_unit u)" for u using assms by (auto simp: quote_unit_def)
  with assms show ?thesis by (auto simp: quote_text_def)
qed

lemma canonical_text_lines:
  "canonical_ok d v \<Longrightarrow> readable_numbers num v \<Longrightarrow> c = 10 \<or> c = 13 \<Longrightarrow> c \<notin> set (canonical_text v)"
proof (induction v arbitrary: d rule: canonical_text.induct)
  case (1 vs)
  then have "\<forall>s \<in> set (map canonical_text vs). c \<notin> set s" by auto
  with join_texts_units [of "map canonical_text vs"]
  have "c \<in> set (join_texts (map canonical_text vs)) \<Longrightarrow> c = 44" by blast
  with 1(4) show ?case by auto
next
  case (2 r)
  let ?texts = "map (\<lambda>x. quote_text (fst x) @ 58 # canonical_text (snd x)) (sort_key fst r)"
  have "c \<notin> set (canonical_text (snd x))" if "x \<in> set r" for x
    using 2 that by (cases x) fastforce
  then have "\<forall>s \<in> set ?texts. c \<notin> set s" using 2(4) quote_text_lines [OF 2(4)] by auto
  with join_texts_units [of ?texts] have "c \<in> set (join_texts ?texts) \<Longrightarrow> c = 44" by blast
  then have "c \<notin> set (join_texts ?texts)" using 2(4) by auto
  then show ?case unfolding canonical_entries using 2(4) by auto
next
  case (3 s)
  then show ?case using quote_text_lines by simp
next
  case (4 n)
  then have "take_number (number_text n) = Some (number_text n, [])" using number_text_read by simp
  from take_number_units [OF this, of c] 4(3) show ?case by (auto simp: is_digit_unit_def)
qed (auto simp: js_def)

lemma record_body:
  assumes "canonical_ok 1 (JObj r)" "readable_numbers num (JObj r)" "65279 \<notin> set (canonical_text (JObj r))"
  shows "valid_body (canonical_text (JObj r))"
  using assms(3) canonical_text_lines [OF assms(1,2)] unfolding valid_body_def
  by (simp add: canonical_entries del: canonical_text.simps)

fun canonical_envelope :: "assistant_envelope \<Rightarrow> assistant_envelope" where
  "canonical_envelope (Tool_Call_Envelope turn challenge digest n tool args) =
     Tool_Call_Envelope turn challenge digest n tool (canonical_record args)"
| "canonical_envelope (Final_Envelope turn challenge digest n str) =
     Final_Envelope turn challenge digest n str"

text \<open>What the schemas ask of an envelope.\<close>

fun valid_envelope :: "assistant_envelope \<Rightarrow> bool" where
  "valid_envelope (Tool_Call_Envelope turn challenge digest n tool args) \<longleftrightarrow>
     turn_alias turn \<and> round_challenge challenge \<and> manifest_digest digest \<and> n < MAX_TOOL_WORKFLOW_TOOL_CALLS
     \<and> tool_name tool \<and> \<not> isl (canonicalize_tool_workflow_json (JObj args))"
| "valid_envelope (Final_Envelope turn challenge digest n str) \<longleftrightarrow>
     turn_alias turn \<and> round_challenge challenge \<and> manifest_digest digest \<and> n < MAX_TOOL_WORKFLOW_ROUNDS"

lemma read_call_fields:
  assumes "field r ''v'' = JNum (NInt TOOL_WORKFLOW_PROTOCOL_VERSION)" "field r ''turn'' = JStr turn"
    and "field r ''challenge'' = JStr challenge" "field r ''manifestDigest'' = JStr digest"
    and "field r ''round'' = JNum (NInt (int n))" "field r ''kind'' = JStr (js ''tool_call'')"
    and "field r ''tool'' = JStr tool" "field r ''arguments'' = JObj args"
    and "only_keys [''v'', ''turn'', ''challenge'', ''manifestDigest'', ''round'', ''kind'', ''tool'', ''arguments''] r"
    and "valid_envelope (Tool_Call_Envelope turn challenge digest n tool args)"
  shows "read_assistant_envelope (JObj r) = Some (Tool_Call_Envelope turn challenge digest n tool args)"
  using assms(10)
  by (auto simp: read_assistant_envelope_def read_call_envelope_def read_envelope_base_def assms(1-9)
      read_matching_def read_round_def read_arguments_def MAX_TOOL_WORKFLOW_TOOL_CALLS_def not_isl_Inr)

lemma read_final_fields:
  assumes "field r ''v'' = JNum (NInt TOOL_WORKFLOW_PROTOCOL_VERSION)" "field r ''turn'' = JStr turn"
    and "field r ''challenge'' = JStr challenge" "field r ''manifestDigest'' = JStr digest"
    and "field r ''round'' = JNum (NInt (int n))" "field r ''kind'' = JStr (js ''final'')"
    and "field r ''text'' = JStr str"
    and "only_keys [''v'', ''turn'', ''challenge'', ''manifestDigest'', ''round'', ''kind'', ''text''] r"
    and "valid_envelope (Final_Envelope turn challenge digest n str)"
  shows "read_assistant_envelope (JObj r) = Some (Final_Envelope turn challenge digest n str)"
  using assms(9)
  by (auto simp: read_assistant_envelope_def read_final_envelope_def read_envelope_base_def assms(1-8)
      read_matching_def read_round_def MAX_TOOL_WORKFLOW_ROUNDS_def js_def)

lemma only_keys_canonical_record: "only_keys shape (canonical_record r) = only_keys shape r"
  by (auto simp: only_keys_def list_all_iff set_canonical_record)

lemma call_fields:
  "field (envelope_fields (Tool_Call_Envelope turn challenge digest n tool args)) ''v'' = JNum (NInt TOOL_WORKFLOW_PROTOCOL_VERSION)"
  "field (envelope_fields (Tool_Call_Envelope turn challenge digest n tool args)) ''turn'' = JStr turn"
  "field (envelope_fields (Tool_Call_Envelope turn challenge digest n tool args)) ''challenge'' = JStr challenge"
  "field (envelope_fields (Tool_Call_Envelope turn challenge digest n tool args)) ''manifestDigest'' = JStr digest"
  "field (envelope_fields (Tool_Call_Envelope turn challenge digest n tool args)) ''round'' = JNum (NInt (int n))"
  "field (envelope_fields (Tool_Call_Envelope turn challenge digest n tool args)) ''kind'' = JStr (js ''tool_call'')"
  "field (envelope_fields (Tool_Call_Envelope turn challenge digest n tool args)) ''tool'' = JStr tool"
  "field (envelope_fields (Tool_Call_Envelope turn challenge digest n tool args)) ''arguments'' = JObj args"
  "only_keys [''v'', ''turn'', ''challenge'', ''manifestDigest'', ''round'', ''kind'', ''tool'', ''arguments'']
     (envelope_fields (Tool_Call_Envelope turn challenge digest n tool args))"
  by (simp_all add: envelope_fields_def field_def only_keys_def)

lemma final_fields:
  "field (envelope_fields (Final_Envelope turn challenge digest n str)) ''v'' = JNum (NInt TOOL_WORKFLOW_PROTOCOL_VERSION)"
  "field (envelope_fields (Final_Envelope turn challenge digest n str)) ''turn'' = JStr turn"
  "field (envelope_fields (Final_Envelope turn challenge digest n str)) ''challenge'' = JStr challenge"
  "field (envelope_fields (Final_Envelope turn challenge digest n str)) ''manifestDigest'' = JStr digest"
  "field (envelope_fields (Final_Envelope turn challenge digest n str)) ''round'' = JNum (NInt (int n))"
  "field (envelope_fields (Final_Envelope turn challenge digest n str)) ''kind'' = JStr (js ''final'')"
  "field (envelope_fields (Final_Envelope turn challenge digest n str)) ''text'' = JStr str"
  "only_keys [''v'', ''turn'', ''challenge'', ''manifestDigest'', ''round'', ''kind'', ''text'']
     (envelope_fields (Final_Envelope turn challenge digest n str))"
  by (simp_all add: envelope_fields_def field_def only_keys_def)

lemma canonical_form_scalars:
  "canonical_form (JStr s) = JStr s" "canonical_form (JNum (NInt i)) = JNum (NInt i)"
  by simp_all

lemma read_canonical_envelope:
  assumes "valid_envelope e"
  shows "read_assistant_envelope (canonical_form (envelope_value e)) = Some (canonical_envelope e)"
proof -
  note fields = field_canonical_record [OF envelope_fields_distinct]
  note canonical = envelope_value_fields canonical_form_record
  show ?thesis
  proof (cases e)
    case (Tool_Call_Envelope turn challenge digest n tool args)
    obtain s where "canonicalize_tool_workflow_json (JObj args) = Inr s"
      using assms Tool_Call_Envelope by (auto simp: not_isl_Inr)
    from canonicalize_form [OF this]
    have args: "canonicalize_tool_workflow_json (JObj (canonical_record args)) = Inr s"
      unfolding canonical_form_record .
    show ?thesis unfolding Tool_Call_Envelope canonical canonical_envelope.simps
      by (rule read_call_fields)
        (use assms args in \<open>simp_all only: Tool_Call_Envelope fields call_fields only_keys_canonical_record
          canonical_form_scalars canonical_form_record valid_envelope.simps not_isl_Inr sum.inject simp_thms\<close>)
  next
    case (Final_Envelope turn challenge digest n str)
    show ?thesis unfolding Final_Envelope canonical canonical_envelope.simps
      by (rule read_final_fields)
        (use assms in \<open>simp_all only: Final_Envelope fields final_fields only_keys_canonical_record
          canonical_form_scalars valid_envelope.simps\<close>)
  qed
qed

section \<open>What the reader accepts\<close>

lemma read_envelope_valid:
  assumes "read_assistant_envelope v = Some e"
  shows "valid_envelope e"
  using assms
  by (auto simp: read_assistant_envelope_def read_call_envelope_def read_final_envelope_def read_envelope_base_def
      bind_eq_Some_conv read_matching_Some read_round_Some read_arguments_Some MAX_TOOL_WORKFLOW_TOOL_CALLS_def
      MAX_TOOL_WORKFLOW_ROUNDS_def split: if_splits)

lemma same_envelope_round:
  assumes "same_json_value (JObj r) (envelope_value e)"
  shows "field r ''round'' \<noteq> JNum NNegZero"
proof
  assume "field r ''round'' = JNum NNegZero"
  then have "map_of r (js ''round'') = Some (JNum NNegZero)" by (simp add: field_map_of)
  then have "(js ''round'', JNum NNegZero) \<in> set r" by (rule map_of_SomeD)
  with assms show False by (cases e) (auto simp: list_all_iff)
qed

lemma envelope_body_split:
  assumes "prefix envelope_prefix s" "suffix envelope_suffix s" "envelope_body s \<noteq> []"
  shows "s = envelope_prefix @ envelope_body s @ envelope_suffix"
proof -
  obtain t where t: "s = envelope_prefix @ t" using assms(1) by (auto elim: prefixE)
  then have body: "envelope_body s = take (length t - length envelope_suffix) t" by (simp add: envelope_body_def)
  with assms(3) have long: "length envelope_suffix < length t" by auto
  obtain u where u: "s = u @ envelope_suffix" using assms(2) by (auto elim: suffixE)
  with t long have "t = drop (length envelope_prefix) u @ envelope_suffix"
    by (metis add.commute append_eq_append_conv_if append_eq_conv_conj drop_append length_append
        less_imp_le_nat nat_add_left_cancel_le not_less_eq_eq)
  with body t show ?thesis by simp
qed

lemma framed_body [simp]: "envelope_body (envelope_prefix @ b @ envelope_suffix) = b"
  by (simp add: envelope_body_def)

lemma framed_ends [simp]:
  "prefix envelope_prefix (envelope_prefix @ b @ envelope_suffix)"
  "suffix envelope_suffix (envelope_prefix @ b @ envelope_suffix)"
  by (simp_all add: suffix_def)

text \<open>
  C20. An assistant's response is accepted only in its exact form: the first line, a body, the last
  line and nothing else, with no line break and no byte-order mark in the body. The body is JSON whose
  objects repeat no key and which keeps the limits on depth, nodes, keys, strings and numbers; it is
  an object with exactly the fields of the answered envelope, no more and no fewer; and that envelope
  satisfies the schemas and the byte limits.
\<close>

theorem accepted_response_exact:
  assumes "parse_tool_workflow_assistant_envelope num s = Inr e"
  shows "\<exists>body r. s = envelope_prefix @ body @ envelope_suffix \<and> valid_body body
    \<and> utf8_length s \<le> MAX_TOOL_WORKFLOW_ENVELOPE_BYTES
    \<and> json_parse num body = Some (JObj r) \<and> distinct_keys (JObj r) \<and> canonical_ok 1 (JObj r)
    \<and> node_count (JObj r) \<le> MAX_TOOL_WORKFLOW_JSON_NODES
    \<and> map_of r = map_of (envelope_fields e) \<and> valid_envelope e \<and> check_envelope_size e = Inr ()"
proof -
  let ?body = "envelope_body s"
  obtain v where ends: "prefix envelope_prefix s" "suffix envelope_suffix s" "valid_body ?body"
      "utf8_length s \<le> MAX_TOOL_WORKFLOW_ENVELOPE_BYTES" "inspect_json_structure num ?body = Inr ()"
    and read: "json_parse num ?body = Some v" "read_assistant_envelope v = Some e"
      "same_json_value v (envelope_value e)" "check_envelope_size e = Inr ()"
    using assms by (auto simp: parse_tool_workflow_assistant_envelope_def Let_def outcome_simps split: option.splits)
  from read(2) obtain r where v: "v = JObj r"
    by (cases v) (auto simp: read_assistant_envelope_def)
  note fields = read_envelope_fields [OF read(2) [unfolded v] same_envelope_round [OF read(3) [unfolded v]]]
  have "map_of r k = map_of (envelope_fields e) k" for k
  proof (cases "k \<in> fst ` set (envelope_fields e)")
    case False
    with fields(1) show ?thesis by (metis map_of_eq_None_iff)
  qed (rule fields(2))
  then have "map_of r = map_of (envelope_fields e)" by blast
  moreover have "s = envelope_prefix @ ?body @ envelope_suffix"
    using ends by (intro envelope_body_split) (auto simp: valid_body_def)
  moreover have "canonical_ok 1 v \<and> distinct_keys v \<and> node_count v \<le> MAX_TOOL_WORKFLOW_JSON_NODES"
    using inspected_parsed [OF ends(5)] read(1) by auto
  ultimately show ?thesis
    using ends read read_envelope_valid [OF read(2)] unfolding v by blast
qed

section \<open>Writing and reading again\<close>

lemma canonical_envelope_size:
  assumes "valid_envelope e"
  shows "check_envelope_size (canonical_envelope e) = check_envelope_size e"
proof (cases e)
  case (Tool_Call_Envelope turn challenge digest n tool args)
  with assms obtain s where s: "canonicalize_tool_workflow_json (JObj args) = Inr s" by (auto simp: not_isl_Inr)
  have "canonicalize_tool_workflow_json (JObj (canonical_record args)) = Inr s"
    using canonicalize_form [OF s] by (simp only: canonical_form_record)
  with s show ?thesis by (simp add: Tool_Call_Envelope)
qed simp

text \<open>A value may be replaced by one with the same text.\<close>

lemma canonicalize_entry:
  assumes "canonicalize_tool_workflow_json (JObj (r @ [(k, v)])) = Inr s"
    and "canonical_ok (Suc 1) w = canonical_ok (Suc 1) v" "node_count w = node_count v" "canonical_text w = canonical_text v"
  shows "canonicalize_tool_workflow_json (JObj (r @ [(k, w)])) = Inr s"
  using assms by (simp add: canonicalize_tool_workflow_json_closed)

lemma canonical_envelope_text:
  assumes "canonicalize_tool_workflow_json (envelope_value e) = Inr s"
  shows "canonicalize_tool_workflow_json (envelope_value (canonical_envelope e)) = Inr s"
proof (cases e)
  case (Tool_Call_Envelope turn challenge digest n tool args)
  obtain r where r: "envelope_value (Tool_Call_Envelope turn challenge digest n tool a) = JObj (r @ [(js ''arguments'', JObj a)])" for a
    by (metis append_Cons append_Nil envelope_value.simps(1))
  have "canonical_ok d (JObj (canonical_record args)) = canonical_ok d (JObj args)"
      "node_count (JObj (canonical_record args)) = node_count (JObj args)"
      "canonical_text (JObj (canonical_record args)) = canonical_text (JObj args)" for d
    by (simp_all only: canonical_form_record [symmetric] canonical_form_ok canonical_form_nodes canonical_form_text)
  from canonicalize_entry [OF _ this, of r "js ''arguments''" s] assms show ?thesis
    unfolding Tool_Call_Envelope canonical_envelope.simps r by blast
qed (use assms in simp)

lemma canonical_envelope_value:
  assumes "distinct_keys (envelope_value e)" "valid_envelope e"
  shows "same_json_value (canonical_form (envelope_value e)) (envelope_value (canonical_envelope e))"
proof (rule read_envelope_same [OF read_canonical_envelope [OF assms(2)] canonical_form_distinct [OF assms(1)]])
  have "field (envelope_fields e) ''round'' = JNum (NInt (int (ae_round e)))"
    by (cases e) (simp_all add: call_fields final_fields)
  then have "field (canonical_record (envelope_fields e)) ''round'' = JNum (NInt (int (ae_round e)))"
    by (simp add: field_canonical_record [OF envelope_fields_distinct])
  then show "\<forall>r. canonical_form (envelope_value e) = JObj r \<longrightarrow> field r ''round'' \<noteq> JNum NNegZero"
    by (simp add: envelope_value_fields canonical_form_record del: canonical_form.simps)
qed

text \<open>
  C21. What becomes of a response written in canonical form, for an envelope that satisfies the
  schemas: framed canonical text longer than the envelope limit is refused as too large; text with
  an unescaped U+FEFF, which the canonical form of a string keeps and the parser admits nowhere, is
  refused as invalid; arguments or a final text over their limit are refused as such. In every other
  case the response is accepted, and the answer is the envelope with its arguments in canonical
  form, so that writing it again gives the same text. (The reader of numbers is a parameter: it
  reads the numbers of the envelope and the integers back.)
\<close>

theorem response_round_trip:
  assumes "valid_envelope e" "distinct_keys (envelope_value e)"
    and "readable_numbers num (envelope_value e)" "reads_integers num"
    and "canonicalize_tool_workflow_json (envelope_value e) = Inr body"
  shows "parse_tool_workflow_assistant_envelope num (envelope_prefix @ body @ envelope_suffix) =
      (if MAX_TOOL_WORKFLOW_ENVELOPE_BYTES < utf8_length (envelope_prefix @ body @ envelope_suffix)
       then throw Envelope_Too_Large
       else if 65279 \<in> set body then throw Envelope_Invalid
       else and_then (check_envelope_size e) (\<lambda>_. return (canonical_envelope e)))
    \<and> canonicalize_tool_workflow_json (envelope_value (canonical_envelope e)) = Inr body"
proof -
  let ?v = "canonical_form (envelope_value e)" and ?s = "envelope_prefix @ body @ envelope_suffix"
  have closed: "canonical_ok 1 (envelope_value e)" "body = canonical_text (envelope_value e)"
    using assms(5) by (simp_all add: canonicalize_tool_workflow_json_closed)
  have valid: "valid_body body \<longleftrightarrow> 65279 \<notin> set body"
    using record_body closed assms(3) unfolding envelope_value_fields by (auto simp: valid_body_def)
  have "parse_tool_workflow_assistant_envelope num ?s = and_then (check_envelope_size e) (\<lambda>_. return (canonical_envelope e))"
    if "\<not> MAX_TOOL_WORKFLOW_ENVELOPE_BYTES < utf8_length ?s" "65279 \<notin> set body"
    using that valid canonical_text_read_back [OF assms(5,2,3,4)] read_canonical_envelope [OF assms(1)]
      canonical_envelope_value [OF assms(2,1)] canonical_envelope_size [OF assms(1)]
    by (simp add: parse_tool_workflow_assistant_envelope_def Let_def del: canonical_form.simps append_assoc)
  moreover have "parse_tool_workflow_assistant_envelope num ?s = throw Envelope_Invalid"
    if "\<not> MAX_TOOL_WORKFLOW_ENVELOPE_BYTES < utf8_length ?s" "65279 \<in> set body"
    using that valid by (simp add: parse_tool_workflow_assistant_envelope_def Let_def del: append_assoc)
  moreover have "parse_tool_workflow_assistant_envelope num ?s = throw Envelope_Too_Large"
    if "MAX_TOOL_WORKFLOW_ENVELOPE_BYTES < utf8_length ?s"
    using that by (simp add: parse_tool_workflow_assistant_envelope_def)
  ultimately show ?thesis using canonical_envelope_text [OF assms(5)] by simp
qed

text \<open>
  C22. Canonical text is a faithful name of a value: it passes the scanner, JSON.parse reads it back
  as the value with sorted keys and no negative zero, writing that again gives the same text, and
  two values with the same text are the same value up to the order of keys and the sign of zero.
\<close>

theorem canonical_json_round_trip:
  assumes "canonicalize_tool_workflow_json v = Inr s" "distinct_keys v" "readable_numbers num v" "reads_integers num"
  shows "inspect_json_structure num s = Inr () \<and> json_parse num s = Some (canonical_form v)
    \<and> canonicalize_tool_workflow_json (canonical_form v) = Inr s
    \<and> (\<forall>w. canonicalize_tool_workflow_json w = Inr s \<and> distinct_keys w \<and> readable_numbers num w
         \<longrightarrow> canonical_form w = canonical_form v)"
  using canonical_text_read_back [OF assms] canonicalize_form [OF assms(1)] canonical_text_read_back(2) [OF _ _ _ assms(4)]
  by (metis option.inject)

lemma result_value_read:
  "canonical_ok 1 (result_value e) \<Longrightarrow> distinct_keys (result_value e) \<and> readable_numbers num (result_value e)"
  by (simp add: result_value_def)

text \<open>
  A serialized tool result is one framed line: its body has no line break, keeps the byte limit,
  and JSON.parse reads from it exactly the fields of the result; an envelope outside the schema, or an
  output above its limit, is refused.
\<close>

theorem serialized_result_read_back:
  assumes "serialize_tool_workflow_result_envelope e = Inr s" "reads_integers num"
  shows "\<exists>body. s = envelope_prefix @ body @ envelope_suffix \<and> 10 \<notin> set body \<and> 13 \<notin> set body
    \<and> utf8_length s \<le> MAX_TOOL_WORKFLOW_ENVELOPE_BYTES
    \<and> json_parse num body = Some (canonical_form (result_value e)) \<and> inspect_json_structure num body = Inr ()
    \<and> valid_result_envelope e \<and> utf8_length (re_output e) \<le> MAX_TOOL_WORKFLOW_RESULT_BYTES"
proof -
  obtain body where body: "canonicalize_tool_workflow_json (result_value e) = Inr body"
      "s = envelope_prefix @ body @ envelope_suffix"
    and limits: "valid_result_envelope e" "utf8_length (re_output e) \<le> MAX_TOOL_WORKFLOW_RESULT_BYTES"
      "utf8_length s \<le> MAX_TOOL_WORKFLOW_ENVELOPE_BYTES"
    using assms(1) by (auto simp: serialize_tool_workflow_result_envelope_def Let_def outcome_simps
      envelope_prefix_def envelope_suffix_def not_less split: sum.splits)
  have texts: "canonical_ok 1 (result_value e)" "body = canonical_text (result_value e)"
    using body(1) by (simp_all add: canonicalize_tool_workflow_json_closed)
  note value_ok = result_value_read [OF texts(1), of num]
  have "c \<notin> set body" if "c = 10 \<or> c = 13" for c
    unfolding texts(2) by (rule canonical_text_lines [OF texts(1) _ that]) (use value_ok in blast)
  then show ?thesis
    using canonical_text_read_back [OF body(1) _ _ assms(2)] value_ok body(2) limits by blast
qed

section \<open>Instances\<close>

text \<open>A reader of decimal integers, as \<open>Number\<close> reads them.\<close>

definition decimal_value :: "jstr \<Rightarrow> int" where
  "decimal_value s = int (digits_value (map (\<lambda>c. unat c - 48) s))"

definition decimal_number :: "jstr \<Rightarrow> jnum" where
  "decimal_number s =
     (if take_number s \<noteq> Some (s, []) then NNaN
      else if take 1 s = [45] then NInt (- decimal_value (drop 1 s))
      else NInt (decimal_value s))"

lemma decimal_value_nat_text: "decimal_value (nat_text n) = int n"
proof -
  have "unat (of_nat (48 + d) :: code_unit) - 48 = d" if "d < 10" for d
    using that by (simp add: unat_of_nat del: of_nat_add)
  then have "map (\<lambda>c. unat c - 48) (nat_text n) = nat_digits n"
    using nat_digits_small [of n] by (simp add: nat_text_def comp_def map_idI del: of_nat_add)
  then show ?thesis by (simp add: decimal_value_def nat_digits_value)
qed

lemma decimal_number_reads: "reads_integers decimal_number"
proof -
  have "take 1 (nat_text n) \<noteq> [45]" for n
    using nat_text_no_minus [of n] nat_text_nonempty [of n] by (cases "nat_text n") auto
  then have "decimal_number (int_text i) = NInt i" for i
    using take_number_int_text [of i] by (simp add: decimal_number_def int_text_def decimal_value_nat_text)
  then show ?thesis by (simp add: reads_integers_def)
qed

definition sample_call :: assistant_envelope where
  "sample_call = Tool_Call_Envelope (js ''wt_0123456789abcdef'') (js ''0123456789abcdef0123456789abcdef'')
     (js ''sha256-0123456789abcdef0123456789abcdef0123456789A'') 3 (js ''read'') [(js ''path'', JStr (js ''a b'')), (js ''depth'', JNum (NInt 2))]"

definition sample_body :: jstr where
  "sample_body = canonical_text (envelope_value sample_call)"

text \<open>The byte limits are compared as integers when a sample is evaluated.\<close>

lemma workflow_limits_evaluated [code_unfold]:
  "MAX_TOOL_WORKFLOW_ENVELOPE_BYTES < n \<longleftrightarrow> (262144 :: int) < int n"
  "n \<le> MAX_TOOL_WORKFLOW_ENVELOPE_BYTES \<longleftrightarrow> int n \<le> (262144 :: int)"
  "MAX_TOOL_WORKFLOW_ARGUMENT_BYTES < n \<longleftrightarrow> (65536 :: int) < int n"
  "MAX_TOOL_WORKFLOW_RESULT_BYTES < n \<longleftrightarrow> (131072 :: int) < int n"
  "MAX_TOOL_WORKFLOW_FINAL_TEXT_BYTES < n \<longleftrightarrow> (196608 :: int) < int n"
  "MAX_TOOL_WORKFLOW_JSON_NODES < n \<longleftrightarrow> (4096 :: int) < int n"
  by (simp_all add: MAX_TOOL_WORKFLOW_ENVELOPE_BYTES_def MAX_TOOL_WORKFLOW_ARGUMENT_BYTES_def
      MAX_TOOL_WORKFLOW_RESULT_BYTES_def MAX_TOOL_WORKFLOW_FINAL_TEXT_BYTES_def MAX_TOOL_WORKFLOW_JSON_NODES_def)

lemma sample_call_ok:
  "valid_envelope sample_call" "check_envelope_size sample_call = Inr ()" "distinct_keys (envelope_value sample_call)"
  "canonicalize_tool_workflow_json (envelope_value sample_call) = Inr sample_body" "65279 \<notin> set sample_body"
  "utf8_length (envelope_prefix @ sample_body @ envelope_suffix) \<le> MAX_TOOL_WORKFLOW_ENVELOPE_BYTES"
  by code_simp+

lemma sample_call_readable: "readable_numbers num (envelope_value sample_call)"
  by (simp add: sample_call_def)

lemma sample_response_parsed:
  "parse_tool_workflow_assistant_envelope decimal_number (envelope_prefix @ sample_body @ envelope_suffix)
     = Inr (canonical_envelope sample_call)"
  by code_simp

definition sample_result :: result_envelope where
  "sample_result =
     \<lparr>re_turn = js ''wt_0123456789abcdef'', re_round = 4, re_challenge = js ''0123456789abcdef0123456789abcdef'',
      re_manifest_digest = js ''sha256-0123456789abcdef0123456789abcdef0123456789A'', re_call_ref = js ''wc_0123456789abcdef'',
      re_tool = js ''read'', re_ok = True, re_output = [97, 10, 34]\<rparr>"

lemma sample_result_written: "\<not> isl (serialize_tool_workflow_result_envelope sample_result)"
  by code_simp

theorem accepted_response_exact_witness:
  "valid_envelope (canonical_envelope sample_call)
   \<and> utf8_length (envelope_prefix @ sample_body @ envelope_suffix) \<le> MAX_TOOL_WORKFLOW_ENVELOPE_BYTES"
  using accepted_response_exact [OF sample_response_parsed] by blast

theorem response_round_trip_witness:
  "parse_tool_workflow_assistant_envelope decimal_number (envelope_prefix @ sample_body @ envelope_suffix)
     = Inr (canonical_envelope sample_call)
   \<and> canonicalize_tool_workflow_json (envelope_value (canonical_envelope sample_call)) = Inr sample_body"
  using response_round_trip [OF sample_call_ok(1,3) sample_call_readable decimal_number_reads sample_call_ok(4)]
    sample_call_ok(2,5,6) by simp

theorem canonical_json_round_trip_witness:
  "json_parse decimal_number sample_body = Some (canonical_form (envelope_value sample_call))"
  using canonical_json_round_trip [OF sample_call_ok(4,3) sample_call_readable decimal_number_reads] by blast

theorem serialized_result_read_back_witness:
  "\<exists>s body. serialize_tool_workflow_result_envelope sample_result = Inr s \<and> s = envelope_prefix @ body @ envelope_suffix
     \<and> json_parse decimal_number body = Some (canonical_form (result_value sample_result))"
proof -
  obtain s where "serialize_tool_workflow_result_envelope sample_result = Inr s"
    using sample_result_written by (auto simp: not_isl_Inr)
  with serialized_result_read_back [OF this decimal_number_reads] show ?thesis by blast
qed

end
