(* ===== verification/Certified_Tool_Schema.thy ===== *)
theory Certified_Tool_Schema
  imports Tool_Workflow
begin

text \<open>
  The JSON Schema subset that a certified tool may advertise
  (\<open>apps/bridge/src/tooling/certified-tool-schema.ts\<close>): which schemas are certified and which
  arguments match one. The floating-point operations on numbers that are not integers are a record
  of functions; integers are compared as such.
\<close>

section \<open>Numbers\<close>

text \<open>The operations of IEEE 754 doubles that the checks use.\<close>

record float_ops =
  fo_le :: "jnum \<Rightarrow> jnum \<Rightarrow> bool"
  fo_div :: "jnum \<Rightarrow> jnum \<Rightarrow> jnum"
  fo_sub :: "jnum \<Rightarrow> jnum \<Rightarrow> jnum"
  fo_mul :: "jnum \<Rightarrow> jnum \<Rightarrow> jnum"
  fo_abs :: "jnum \<Rightarrow> jnum"
  fo_round :: "jnum \<Rightarrow> jnum"

fun integral_value :: "jnum \<Rightarrow> int option" where
  "integral_value (NInt i) = Some i"
| "integral_value NNegZero = Some 0"
| "integral_value _ = None"

text \<open>\<open>a <= b\<close>\<close>

definition number_le :: "float_ops \<Rightarrow> jnum \<Rightarrow> jnum \<Rightarrow> bool" where
  "number_le fo a b =
     (case (integral_value a, integral_value b) of
        (Some i, Some j) \<Rightarrow> i \<le> j
      | _ \<Rightarrow> fo_le fo a b)"

definition NUMBER_EPSILON :: jnum where
  "NUMBER_EPSILON = NFrac (js ''2.220446049250313e-16'')"

definition number_max :: "float_ops \<Rightarrow> jnum \<Rightarrow> jnum \<Rightarrow> jnum" where
  "number_max fo a b = (if number_le fo a b then b else a)"

definition is_multiple_of :: "float_ops \<Rightarrow> jnum \<Rightarrow> jnum \<Rightarrow> bool" where
  "is_multiple_of fo n divisor =
     (let quotient = fo_div fo n divisor in
        is_finite_number quotient
        \<and> number_le fo (fo_abs fo (fo_sub fo quotient (fo_round fo quotient)))
             (fo_mul fo (fo_mul fo NUMBER_EPSILON (number_max fo (NInt 1) (fo_abs fo quotient))) (NInt 8)))"

text \<open>A value that the certification has made a number.\<close>

definition as_number :: "jval \<Rightarrow> jnum" where
  "as_number v = (case v of JNum n \<Rightarrow> n | _ \<Rightarrow> NNaN)"

definition ordered_bounds :: "float_ops \<Rightarrow> data_record \<Rightarrow> string \<Rightarrow> string \<Rightarrow> bool" where
  "ordered_bounds fo r low high \<longleftrightarrow>
     field r low = JUndef \<or> field r high = JUndef \<or> number_le fo (as_number (field r low)) (as_number (field r high))"

definition within_optional_bounds :: "float_ops \<Rightarrow> jnum \<Rightarrow> jval \<Rightarrow> jval \<Rightarrow> bool" where
  "within_optional_bounds fo n low high \<longleftrightarrow>
     (low = JUndef \<or> number_le fo (as_number low) n) \<and> (high = JUndef \<or> number_le fo n (as_number high))"

definition is_nonnegative_safe_integer :: "float_ops \<Rightarrow> jval \<Rightarrow> bool" where
  "is_nonnegative_safe_integer fo v =
     (case v of JNum n \<Rightarrow> is_safe_integer n \<and> number_le fo (NInt 0) n | _ \<Rightarrow> False)"

definition is_finite_supported_number :: "jval \<Rightarrow> bool" where
  "is_finite_supported_number v =
     (case v of JNum n \<Rightarrow> is_finite_number n \<and> (\<not> is_integer_number n \<or> is_safe_integer n) | _ \<Rightarrow> False)"

section \<open>Texts and types\<close>

definition JSON_SCHEMA_TYPES :: "jstr list" where
  "JSON_SCHEMA_TYPES =
     map js [''array'', ''boolean'', ''integer'', ''null'', ''number'', ''object'', ''string'']"

definition SCHEMA_KEYS :: "jstr list" where
  "SCHEMA_KEYS =
     map js [''additionalProperties'', ''allOf'', ''anyOf'', ''const'', ''description'', ''enum'',
       ''exclusiveMaximum'', ''exclusiveMinimum'', ''items'', ''maxItems'', ''maxLength'', ''maxProperties'',
       ''maximum'', ''minItems'', ''minLength'', ''minProperties'', ''minimum'', ''multipleOf'', ''not'',
       ''oneOf'', ''properties'', ''required'', ''type'', ''uniqueItems'']"

definition NONNEGATIVE_INTEGER_KEYS :: "string list" where
  "NONNEGATIVE_INTEGER_KEYS =
     [''maxItems'', ''maxLength'', ''maxProperties'', ''minItems'', ''minLength'', ''minProperties'']"

definition NUMBER_KEYS :: "string list" where
  "NUMBER_KEYS = [''exclusiveMaximum'', ''exclusiveMinimum'', ''maximum'', ''minimum'', ''multipleOf'']"

definition COMPOSITION_KEYS :: "string list" where
  "COMPOSITION_KEYS = [''allOf'', ''anyOf'', ''oneOf'']"

text \<open>\<open>Array.from(text).length\<close>: a surrogate pair counts once.\<close>

fun code_points :: "jstr \<Rightarrow> nat" where
  "code_points [] = 0"
| "code_points [c] = 1"
| "code_points (c # d # s) =
     (if is_high_surrogate c \<and> is_low_surrogate d then Suc (code_points s) else Suc (code_points (d # s)))"

definition is_nonempty_text :: "jval \<Rightarrow> bool" where
  "is_nonempty_text v = (case v of JStr s \<Rightarrow> s \<noteq> [] \<and> length s \<le> 4096 | _ \<Rightarrow> False)"

definition string_of :: "jval \<Rightarrow> jstr" where
  "string_of v = (case v of JStr s \<Rightarrow> s | _ \<Rightarrow> [])"

definition read_types :: "jval \<Rightarrow> jstr list option" where
  "read_types v =
     (case v of
        JStr s \<Rightarrow> if s \<in> set JSON_SCHEMA_TYPES then Some [s] else None
      | JArr vs \<Rightarrow>
          if vs = [] \<or> \<not> list_all is_string_value vs then None
          else let types = map string_of vs in
            if distinct types \<and> list_all (\<lambda>t. t \<in> set JSON_SCHEMA_TYPES) types then Some types else None
      | _ \<Rightarrow> None)"

definition matches_type :: "jstr \<Rightarrow> jval \<Rightarrow> bool" where
  "matches_type t v =
     (case v of
        JArr _ \<Rightarrow> t = js ''array''
      | JBool _ \<Rightarrow> t = js ''boolean''
      | JNull \<Rightarrow> t = js ''null''
      | JNum n \<Rightarrow> t = js ''integer'' \<and> is_safe_integer n \<or> t = js ''number'' \<and> is_finite_number n
      | JObj _ \<Rightarrow> t = js ''object''
      | JStr _ \<Rightarrow> t = js ''string''
      | _ \<Rightarrow> False)"

definition is_unique_string_array :: "jval \<Rightarrow> bool" where
  "is_unique_string_array v =
     (case v of JArr vs \<Rightarrow> list_all is_string_value vs \<and> distinct (map string_of vs) | _ \<Rightarrow> False)"

definition has_any_key :: "data_record \<Rightarrow> string list \<Rightarrow> bool" where
  "has_any_key r ks \<longleftrightarrow> list_ex (\<lambda>k. field r k \<noteq> JUndef) ks"

definition canonical_json :: "jval \<Rightarrow> bool" where
  "canonical_json v = (case canonicalize_tool_workflow_json v of Inl _ \<Rightarrow> False | Inr _ \<Rightarrow> True)"

definition same_json :: "jval \<Rightarrow> jval \<Rightarrow> bool" where
  "same_json v w =
     (case canonicalize_tool_workflow_json v of
        Inl _ \<Rightarrow> False
      | Inr s \<Rightarrow> (case canonicalize_tool_workflow_json w of Inl _ \<Rightarrow> False | Inr t \<Rightarrow> s = t))"

section \<open>Certified schemas\<close>

definition has_type :: "data_record \<Rightarrow> string \<Rightarrow> bool" where
  "has_type r t = (case read_types (field r ''type'') of None \<Rightarrow> False | Some types \<Rightarrow> js t \<in> set types)"

text \<open>The keywords of a node that are numbers: their kinds, and that every interval is ordered.\<close>

definition number_keywords :: "float_ops \<Rightarrow> data_record \<Rightarrow> bool" where
  "number_keywords fo r \<longleftrightarrow>
     list_all (\<lambda>k. field r k = JUndef \<or> is_nonnegative_safe_integer fo (field r k)) NONNEGATIVE_INTEGER_KEYS
     \<and> list_all (\<lambda>k. field r k = JUndef \<or> is_finite_supported_number (field r k)) NUMBER_KEYS
     \<and> (field r ''multipleOf'' = JUndef \<or> \<not> number_le fo (as_number (field r ''multipleOf'')) (NInt 0))
     \<and> ordered_bounds fo r ''minLength'' ''maxLength''
     \<and> ordered_bounds fo r ''minItems'' ''maxItems''
     \<and> ordered_bounds fo r ''minProperties'' ''maxProperties''
     \<and> ordered_bounds fo r ''minimum'' ''maximum''
     \<and> ordered_bounds fo r ''exclusiveMinimum'' ''exclusiveMaximum''"

text \<open>A keyword needs the type it speaks about.\<close>

definition typed_keywords :: "data_record \<Rightarrow> bool" where
  "typed_keywords r \<longleftrightarrow>
     (field r ''uniqueItems'' = JUndef \<or> (\<exists>b \<in> {True, False}. field r ''uniqueItems'' = JBool b))
     \<and> (has_any_key r [''maxLength'', ''minLength''] \<longrightarrow> has_type r ''string'')
     \<and> (has_any_key r [''maxItems'', ''minItems'', ''uniqueItems''] \<longrightarrow> has_type r ''array'')
     \<and> (has_any_key r NUMBER_KEYS \<longrightarrow> has_type r ''number'' \<or> has_type r ''integer'')
     \<and> (has_any_key r [''maxProperties'', ''minProperties''] \<longrightarrow> has_type r ''object'')"

text \<open>An enumeration lists different values.\<close>

definition enum_keyword :: "data_record \<Rightarrow> bool" where
  "enum_keyword r =
     (case field r ''enum'' of
        JUndef \<Rightarrow> True
      | JArr vs \<Rightarrow>
          vs \<noteq> []
          \<and> (case map_result canonicalize_tool_workflow_json vs of Inl _ \<Rightarrow> False | Inr ss \<Rightarrow> distinct ss)
      | _ \<Rightarrow> False)"

definition schema_keywords :: "float_ops \<Rightarrow> bool \<Rightarrow> data_record \<Rightarrow> bool" where
  "schema_keywords fo root r \<longleftrightarrow>
     list_all (\<lambda>(k, v). k \<in> set SCHEMA_KEYS) r
     \<and> (root \<longrightarrow> field r ''type'' = JStr (js ''object''))
     \<and> (field r ''type'' = JUndef \<or> read_types (field r ''type'') \<noteq> None)
     \<and> (field r ''description'' = JUndef \<or> is_nonempty_text (field r ''description''))
     \<and> number_keywords fo r \<and> typed_keywords r \<and> enum_keyword r"

text \<open>An object is closed, and its required keys are declared.\<close>

definition closed_object :: "data_record \<Rightarrow> bool" where
  "closed_object r =
     (case field r ''properties'' of
        JObj ps \<Rightarrow>
          has_type r ''object'' \<and> field r ''additionalProperties'' = JBool False
          \<and> (case field r ''required'' of
               JUndef \<Rightarrow> True
             | JArr ks \<Rightarrow>
                 is_unique_string_array (JArr ks) \<and> list_all (\<lambda>k. string_of k \<in> fst ` set ps) ks
             | _ \<Rightarrow> False)
      | _ \<Rightarrow> False)"

lemma element_nodes: "v \<in> set vs \<Longrightarrow> node_count v < node_count (JArr vs)"
  by (simp add: le_imp_less_Suc member_le_sum_list)

lemma entry_nodes: "(k, v) \<in> set r \<Longrightarrow> node_count v < node_count (JObj r)"
  using member_le_sum_list [of "node_count v" "map (\<lambda>(k, v). node_count v) r"]
  by (force simp: less_Suc_eq_le)

lemma field_nodes: "field r k \<noteq> JUndef \<Longrightarrow> node_count (field r k) < node_count (JObj r)"
  by (auto simp: field_def simp del: node_count.simps split: option.splits dest!: map_of_SomeD intro: entry_nodes)

declare conj_cong [fundef_cong] disj_cong [fundef_cong]

text \<open>\<open>isSchemaNode\<close>\<close>

function is_schema_node :: "float_ops \<Rightarrow> bool \<Rightarrow> jval \<Rightarrow> bool" where
  "is_schema_node fo root v =
     (case v of
        JObj r \<Rightarrow>
          schema_keywords fo root r
          \<and> (if has_type r ''object'' \<or> field r ''properties'' \<noteq> JUndef \<or> field r ''required'' \<noteq> JUndef then
               closed_object r
               \<and> (case field r ''properties'' of
                    JObj ps \<Rightarrow> list_all (\<lambda>(k, child). is_schema_node fo False child) ps
                  | _ \<Rightarrow> False)
             else field r ''additionalProperties'' = JUndef)
          \<and> (if has_type r ''array'' then
               field r ''items'' \<noteq> JUndef \<and> is_schema_node fo False (field r ''items'')
             else field r ''items'' = JUndef)
          \<and> list_all (\<lambda>k. case field r k of
                 JUndef \<Rightarrow> True
               | JArr branches \<Rightarrow> branches \<noteq> [] \<and> list_all (is_schema_node fo False) branches
               | _ \<Rightarrow> False) COMPOSITION_KEYS
          \<and> (field r ''not'' = JUndef \<or> is_schema_node fo False (field r ''not''))
      | _ \<Rightarrow> False)"
  by pat_completeness auto
termination
proof (relation "measure (\<lambda>(fo, root, v). node_count v)", goal_cases)
  case (2 fo root v r ps x k child)
  then show ?case
    using field_nodes [of r "''properties''"] entry_nodes [of k child ps] by (simp del: node_count.simps)
next
  case (3 fo root v r)
  then show ?case using field_nodes [of r "''items''"] by (simp del: node_count.simps)
next
  case (4 fo root v r k branches z)
  then show ?case
    using field_nodes [of r k] element_nodes [of z branches] by (simp del: node_count.simps)
next
  case (5 fo root v r)
  then show ?case using field_nodes [of r "''not''"] by (simp del: node_count.simps)
qed simp

definition is_certified_tool_parameters_schema :: "float_ops \<Rightarrow> jval \<Rightarrow> bool" where
  "is_certified_tool_parameters_schema fo v \<longleftrightarrow> canonical_json v \<and> is_schema_node fo True v"

section \<open>Matching\<close>

text \<open>
  A schema node is only matched after it has been certified, so that a composition is an array, the
  properties are an object and the required keys are texts; the readers below answer nothing for a
  keyword that is absent.
\<close>

definition branches_of :: "data_record \<Rightarrow> string \<Rightarrow> jval list" where
  "branches_of r k = (case field r k of JArr vs \<Rightarrow> vs | _ \<Rightarrow> [])"

definition declared_members :: "data_record \<Rightarrow> string \<Rightarrow> data_record" where
  "declared_members r k = (case field r k of JObj ps \<Rightarrow> ps | _ \<Rightarrow> [])"

text \<open>The keywords that hold of any value.\<close>

definition matches_value :: "data_record \<Rightarrow> jval \<Rightarrow> bool" where
  "matches_value r v \<longleftrightarrow>
     (case read_types (field r ''type'') of None \<Rightarrow> True | Some types \<Rightarrow> list_ex (\<lambda>t. matches_type t v) types)
     \<and> (field r ''const'' = JUndef \<or> same_json (field r ''const'') v)
     \<and> (field r ''enum'' = JUndef \<or> list_ex (\<lambda>candidate. same_json candidate v) (branches_of r ''enum''))"

text \<open>The keywords of a string, of a number, and of the shape of an array and of an object.\<close>

definition matches_scalar :: "float_ops \<Rightarrow> data_record \<Rightarrow> jval \<Rightarrow> bool" where
  "matches_scalar fo r v =
     (case v of
        JStr s \<Rightarrow> within_optional_bounds fo (NInt (int (code_points s))) (field r ''minLength'') (field r ''maxLength'')
      | JNum n \<Rightarrow>
          within_optional_bounds fo n (field r ''minimum'') (field r ''maximum'')
          \<and> (field r ''exclusiveMinimum'' = JUndef \<or> \<not> number_le fo n (as_number (field r ''exclusiveMinimum'')))
          \<and> (field r ''exclusiveMaximum'' = JUndef \<or> \<not> number_le fo (as_number (field r ''exclusiveMaximum'')) n)
          \<and> (field r ''multipleOf'' = JUndef \<or> is_multiple_of fo n (as_number (field r ''multipleOf'')))
      | _ \<Rightarrow> True)"

definition matches_shape :: "float_ops \<Rightarrow> data_record \<Rightarrow> jval \<Rightarrow> bool" where
  "matches_shape fo r v =
     (case v of
        JArr vs \<Rightarrow>
          within_optional_bounds fo (NInt (int (length vs))) (field r ''minItems'') (field r ''maxItems'')
          \<and> (field r ''uniqueItems'' = JBool True \<longrightarrow> distinct (map canonicalize_tool_workflow_json vs))
      | JObj w \<Rightarrow>
          within_optional_bounds fo (NInt (int (length w))) (field r ''minProperties'') (field r ''maxProperties'')
          \<and> list_all (\<lambda>k. string_of k \<in> fst ` set w) (branches_of r ''required'')
          \<and> (field r ''additionalProperties'' = JBool False \<and> field r ''properties'' \<noteq> JUndef \<longrightarrow>
               list_all (\<lambda>(k, x). k \<in> fst ` set (declared_members r ''properties'')) w)
      | _ \<Rightarrow> True)"

lemma branches_nodes: "b \<in> set (branches_of r k) \<Longrightarrow> node_count b < node_count (JObj r)"
  using field_nodes [of r k] element_nodes [of b "branches_of r k"]
  by (auto simp: branches_of_def simp del: node_count.simps split: jval.splits)

lemma entries_nodes: "(k', b) \<in> set (declared_members r k) \<Longrightarrow> node_count b < node_count (JObj r)"
  using field_nodes [of r k] entry_nodes [of k' b "declared_members r k"]
  by (auto simp: declared_members_def simp del: node_count.simps split: jval.splits)

text \<open>\<open>matchesSchemaNode\<close>\<close>

function matches_schema_node :: "float_ops \<Rightarrow> jval \<Rightarrow> jval \<Rightarrow> bool" where
  "matches_schema_node fo schema v =
     (case schema of
        JObj r \<Rightarrow>
          matches_value r v
          \<and> list_all (\<lambda>b. matches_schema_node fo b v) (branches_of r ''allOf'')
          \<and> (field r ''anyOf'' = JUndef \<or> list_ex (\<lambda>b. matches_schema_node fo b v) (branches_of r ''anyOf''))
          \<and> (field r ''oneOf'' = JUndef \<or> length (filter (\<lambda>b. matches_schema_node fo b v) (branches_of r ''oneOf'')) = 1)
          \<and> (field r ''not'' = JUndef \<or> \<not> matches_schema_node fo (field r ''not'') v)
          \<and> matches_scalar fo r v \<and> matches_shape fo r v
          \<and> (case v of
               JArr vs \<Rightarrow> field r ''items'' = JUndef \<or> list_all (matches_schema_node fo (field r ''items'')) vs
             | JObj w \<Rightarrow>
                 list_all (\<lambda>(k, child). case map_of w k of None \<Rightarrow> True | Some x \<Rightarrow> matches_schema_node fo child x)
                   (declared_members r ''properties'')
             | _ \<Rightarrow> True)
      | _ \<Rightarrow> False)"
  by pat_completeness auto
termination
  by (relation "measure (\<lambda>(fo, schema, v). node_count schema)")
    (auto simp del: node_count.simps intro: branches_nodes entries_nodes field_nodes)

definition matches_certified_tool_arguments :: "float_ops \<Rightarrow> jval \<Rightarrow> jval \<Rightarrow> bool" where
  "matches_certified_tool_arguments fo schema v \<longleftrightarrow>
     is_certified_tool_parameters_schema fo schema \<and> canonical_json v \<and> matches_schema_node fo schema v"

declare is_schema_node.simps [simp del] matches_schema_node.simps [simp del]

end
