(* ===== verification/Certified_Tool_Properties.thy ===== *)
theory Certified_Tool_Properties
  imports Certified_Tool_Schema Tool_Workflow_Properties
begin

text \<open>What a match against a certified schema guarantees of the arguments, at every depth.\<close>

section \<open>The parts of a certified node\<close>

lemma certified_parts:
  assumes "is_schema_node fo root (JObj r)"
  shows "(k, c) \<in> set (declared_members r ''properties'') \<Longrightarrow> is_schema_node fo False c"
    and "field r ''items'' \<noteq> JUndef \<Longrightarrow> is_schema_node fo False (field r ''items'')"
    and "j \<in> set COMPOSITION_KEYS \<Longrightarrow> b \<in> set (branches_of r j) \<Longrightarrow> is_schema_node fo False b"
    and "has_type r ''object'' \<Longrightarrow> closed_object r"
proof -
  note node = assms [unfolded is_schema_node.simps [of fo root "JObj r"], simplified]
  show "(k, c) \<in> set (declared_members r ''properties'') \<Longrightarrow> is_schema_node fo False c"
    using node by (fastforce simp: declared_members_def list_all_iff split: jval.splits if_splits)
  show "field r ''items'' \<noteq> JUndef \<Longrightarrow> is_schema_node fo False (field r ''items'')"
    using node by (simp split: if_splits)
  show "has_type r ''object'' \<Longrightarrow> closed_object r" using node by simp
  have branches: "case field r j of JUndef \<Rightarrow> True
      | JArr branches \<Rightarrow> branches \<noteq> [] \<and> list_all (is_schema_node fo False) branches
      | _ \<Rightarrow> False" if "j \<in> set COMPOSITION_KEYS"
    using node that by (simp add: list_all_iff)
  show "is_schema_node fo False b" if "j \<in> set COMPOSITION_KEYS" "b \<in> set (branches_of r j)"
    using branches [OF that(1)] that(2) by (simp add: branches_of_def list_all_iff split: jval.splits)
qed

lemma matched_parts:
  assumes "matches_schema_node fo (JObj r) v"
  shows "b \<in> set (branches_of r ''allOf'') \<Longrightarrow> matches_schema_node fo b v"
    and "v = JArr vs \<Longrightarrow> field r ''items'' \<noteq> JUndef \<Longrightarrow> x \<in> set vs \<Longrightarrow> matches_schema_node fo (field r ''items'') x"
    and "v = JObj w \<Longrightarrow> (k, c) \<in> set (declared_members r ''properties'') \<Longrightarrow> map_of w k = Some y \<Longrightarrow> matches_schema_node fo c y"
    and "matches_shape fo r v" and "matches_value r v"
  using assms [unfolded matches_schema_node.simps [of fo "JObj r"]] by (force simp: list_all_iff)+

section \<open>Described parts of a value\<close>

text \<open>Which node of a schema speaks about which part of a value.\<close>

inductive described :: "jval \<Rightarrow> jval \<Rightarrow> jval \<Rightarrow> jval \<Rightarrow> bool" for s v where
  described_here: "described s v s v"
| described_branch: "described s v (JObj r) x \<Longrightarrow> b \<in> set (branches_of r ''allOf'') \<Longrightarrow> described s v b x"
| described_item: "described s v (JObj r) (JArr vs) \<Longrightarrow> field r ''items'' \<noteq> JUndef \<Longrightarrow> x \<in> set vs
    \<Longrightarrow> described s v (field r ''items'') x"
| described_entry: "described s v (JObj r) (JObj w) \<Longrightarrow> (k, c) \<in> set (declared_members r ''properties'')
    \<Longrightarrow> map_of w k = Some x \<Longrightarrow> described s v c x"

lemma described_matches:
  assumes "described s v t x" "is_schema_node fo root s" "matches_schema_node fo s v"
  shows "(\<exists>root. is_schema_node fo root t) \<and> matches_schema_node fo t x"
  using assms
proof (induction rule: described.induct)
  case (described_branch r x b)
  then show ?case using certified_parts(3) [of fo _ r "''allOf''" b] matched_parts(1) [of fo r x b]
    by (auto simp: COMPOSITION_KEYS_def)
next
  case (described_item r vs x)
  then show ?case using certified_parts(2) [of fo _ r] matched_parts(2) [of fo r "JArr vs" vs x] by blast
next
  case (described_entry r w k c x)
  then show ?case using certified_parts(1) [of fo _ r k c] matched_parts(3) [of fo r "JObj w" w k c x] by blast
qed blast

lemma closed_object_matched:
  assumes "closed_object r" "matches_shape fo r (JObj w)"
  shows "fst ` set w \<subseteq> fst ` set (declared_members r ''properties'')"
    and "string_of ` set (branches_of r ''required'') \<subseteq> fst ` set w"
proof -
  from assms(1) obtain ps where "field r ''properties'' = JObj ps" "field r ''additionalProperties'' = JBool False"
    by (auto simp: closed_object_def split: jval.splits)
  then show "fst ` set w \<subseteq> fst ` set (declared_members r ''properties'')"
    using assms(2) by (auto simp: matches_shape_def list_all_iff)
  show "string_of ` set (branches_of r ''required'') \<subseteq> fst ` set w"
    using assms(2) by (auto simp: matches_shape_def list_all_iff)
qed

text \<open>
  C23. Arguments that match a certified schema are an object within the limits of the protocol, and
  every object in them that an object node of the schema describes, at any depth, is closed: it has
  only declared keys and all the required ones, and the value under each declared key matches its own
  node.
\<close>

theorem matched_arguments_closed:
  assumes "matches_certified_tool_arguments fo s v"
  shows "(\<exists>w body. v = JObj w \<and> canonicalize_tool_workflow_json v = Inr body)
    \<and> (\<forall>r w. described s v (JObj r) (JObj w) \<and> has_type r ''object'' \<longrightarrow>
         fst ` set w \<subseteq> fst ` set (declared_members r ''properties'')
         \<and> string_of ` set (branches_of r ''required'') \<subseteq> fst ` set w
         \<and> (\<forall>(k, c) \<in> set (declared_members r ''properties''). \<forall>x. map_of w k = Some x \<longrightarrow> matches_schema_node fo c x))"
proof -
  have certified: "is_schema_node fo True s" "matches_schema_node fo s v" "canonical_json v"
    using assms by (auto simp: matches_certified_tool_arguments_def is_certified_tool_parameters_schema_def)
  then obtain r where r: "s = JObj r" "field r ''type'' = JStr (js ''object'')"
    by (cases s) (auto simp: is_schema_node.simps [of fo True] schema_keywords_def)
  then have "matches_value r v" using matched_parts(5) certified(2) by blast
  then have "matches_type (js ''object'') v"
    using r(2) by (simp add: matches_value_def read_types_def JSON_SCHEMA_TYPES_def)
  then have "\<exists>w. v = JObj w" by (cases v) (auto simp: matches_type_def)
  moreover have "\<exists>body. canonicalize_tool_workflow_json v = Inr body"
    using certified(3) by (simp add: canonical_json_def split: sum.splits)
  moreover have "fst ` set w \<subseteq> fst ` set (declared_members r ''properties'')
      \<and> string_of ` set (branches_of r ''required'') \<subseteq> fst ` set w
      \<and> (\<forall>(k, c) \<in> set (declared_members r ''properties''). \<forall>x. map_of w k = Some x \<longrightarrow> matches_schema_node fo c x)"
    if part: "described s v (JObj r) (JObj w)" "has_type r ''object''" for r w
  proof -
    from described_matches [OF part(1) certified(1,2)] obtain root
      where node: "is_schema_node fo root (JObj r)" "matches_schema_node fo (JObj r) (JObj w)" by blast
    from closed_object_matched [OF certified_parts(4) [OF node(1) part(2)] matched_parts(4) [OF node(2)]]
    show ?thesis using matched_parts(3) [OF node(2) refl] by (auto split: prod.split)
  qed
  ultimately show ?thesis by blast
qed

section \<open>An instance\<close>

definition integer_ops :: float_ops where
  "integer_ops =
     \<lparr>fo_le = (\<lambda>_ _. False), fo_div = (\<lambda>_ _. NNaN), fo_sub = (\<lambda>_ _. NNaN), fo_mul = (\<lambda>_ _. NNaN),
      fo_abs = (\<lambda>_. NNaN), fo_round = (\<lambda>_. NNaN)\<rparr>"

definition sample_schema :: jval where
  "sample_schema = JObj
     [(js ''type'', JStr (js ''object'')), (js ''additionalProperties'', JBool False),
      (js ''required'', JArr [JStr (js ''path'')]),
      (js ''properties'', JObj
        [(js ''path'', JObj [(js ''type'', JStr (js ''string'')), (js ''minLength'', JNum (NInt 1))]),
         (js ''options'', JObj
           [(js ''type'', JStr (js ''object'')), (js ''additionalProperties'', JBool False),
            (js ''properties'', JObj [(js ''depth'', JObj [(js ''type'', JStr (js ''integer''))])])])])]"

definition sample_arguments :: jval where
  "sample_arguments = JObj
     [(js ''path'', JStr (js ''a'')), (js ''options'', JObj [(js ''depth'', JNum (NInt 2))])]"

lemma text_limit_evaluated [code_unfold]: "length (s :: jstr) \<le> 4096 \<longleftrightarrow> int (length s) \<le> 4096"
  by simp

lemma sample_texts: "canonical_json sample_schema" "canonical_json sample_arguments"
  by code_simp+

lemmas schema_evaluation =
  schema_keywords_def number_keywords_def typed_keywords_def enum_keyword_def closed_object_def has_type_def read_types_def
  field_def declared_members_def branches_of_def JSON_SCHEMA_TYPES_def SCHEMA_KEYS_def NONNEGATIVE_INTEGER_KEYS_def NUMBER_KEYS_def
  COMPOSITION_KEYS_def has_any_key_def ordered_bounds_def is_nonnegative_safe_integer_def number_le_def
  is_unique_string_array_def string_of_def matches_value_def matches_type_def matches_scalar_def matches_shape_def
  within_optional_bounds_def as_number_def

lemma sample_schema_node: "is_schema_node integer_ops True sample_schema"
  by (simp add: sample_schema_def is_schema_node.simps schema_evaluation)

lemma sample_match: "matches_schema_node integer_ops sample_schema sample_arguments"
  by (simp add: sample_schema_def sample_arguments_def matches_schema_node.simps schema_evaluation js_def [of "''a''"])

lemma sample_arguments_match: "matches_certified_tool_arguments integer_ops sample_schema sample_arguments"
  by (simp add: matches_certified_tool_arguments_def is_certified_tool_parameters_schema_def sample_texts
      sample_schema_node sample_match)

theorem matched_arguments_closed_witness:
  "\<exists>w body. sample_arguments = JObj w \<and> canonicalize_tool_workflow_json sample_arguments = Inr body"
  using matched_arguments_closed [OF sample_arguments_match] by blast

end
