(* ===== verification/Agent_Binding.thy ===== *)
theory Agent_Binding
  imports Certified_Tool_Schema Bridge_Frames Capability_Token
begin

text \<open>
  What one agent workflow is bound to (\<open>apps/bridge/src/browser/agent-session-coordinator.ts\<close>): the
  browser snapshot and its lease, the child's request, the tool manifest and the visible request;
  with the prompt that opens a workflow.
\<close>

section \<open>Limits and errors\<close>

definition ACTIVATION_INACTIVITY_MS :: int where "ACTIVATION_INACTIVITY_MS = 15 * 60 * 1000"
definition CHALLENGE_BYTES :: nat where "CHALLENGE_BYTES = 24"
definition IDENTIFIER_BYTES :: nat where "IDENTIFIER_BYTES = 18"
definition IDENTIFIER_ATTEMPTS :: nat where "IDENTIFIER_ATTEMPTS = 8"
definition MAX_AGGREGATE_TOOL_RESULT_BYTES :: nat where "MAX_AGGREGATE_TOOL_RESULT_BYTES = 512 * 1024"
definition MAX_AGENT_DELTA_COUNT :: nat where "MAX_AGENT_DELTA_COUNT = 4096"
definition MAX_CANONICAL_MANIFEST_BYTES :: nat where "MAX_CANONICAL_MANIFEST_BYTES = 128 * 1024"
definition MAX_CERTIFIED_TOOLS :: nat where "MAX_CERTIFIED_TOOLS = 32"
definition MAX_IDENTIFIER_CHARACTERS :: nat where "MAX_IDENTIFIER_CHARACTERS = 512"
definition MAX_PROFILE_VERSION_CHARACTERS :: nat where "MAX_PROFILE_VERSION_CHARACTERS = 64"
definition MAX_RECENT_GENERATED_VALUES :: nat where "MAX_RECENT_GENERATED_VALUES = 4096"
definition MAX_VISIBLE_MESSAGES :: nat where "MAX_VISIBLE_MESSAGES = 128"

datatype agent_error =
    Tool_Protocol_Not_Activated
  | Unsupported_Tool_Profile
  | Protocol_Turn_Mismatch
  | Protocol_Round_Mismatch
  | Protocol_Challenge_Mismatch
  | Protocol_Manifest_Mismatch
  | Protocol_Tool_Unknown
  | Protocol_Arguments_Invalid
  | Child_Continuation_Mismatch
  | Tool_Result_Too_Large
  | Tool_Budget_Exhausted
  | Browser_State_Changed
  | Tool_Loop_Incomplete
  | Turn_Cancelled
  | Response_Rejected workflow_parse_error

fun agent_error_message :: "agent_error \<Rightarrow> string" where
  "agent_error_message Tool_Protocol_Not_Activated = ''The Web Agent profile is not activated.''"
| "agent_error_message Unsupported_Tool_Profile = ''The Web Agent tool profile is unsupported.''"
| "agent_error_message (Response_Rejected _) = ''The Web Agent response was rejected.''"
| "agent_error_message Protocol_Turn_Mismatch = ''The Web Agent response was rejected.''"
| "agent_error_message Protocol_Round_Mismatch = ''The Web Agent response was rejected.''"
| "agent_error_message Protocol_Challenge_Mismatch = ''The Web Agent response was rejected.''"
| "agent_error_message Protocol_Manifest_Mismatch = ''The Web Agent response was rejected.''"
| "agent_error_message Protocol_Tool_Unknown = ''The Web Agent response was rejected.''"
| "agent_error_message Protocol_Arguments_Invalid = ''The Web Agent response was rejected.''"
| "agent_error_message Child_Continuation_Mismatch = ''The Web Agent continuation was rejected.''"
| "agent_error_message Tool_Result_Too_Large = ''The Web Agent workflow exceeded a protocol limit.''"
| "agent_error_message Tool_Budget_Exhausted = ''The Web Agent workflow exceeded a protocol limit.''"
| "agent_error_message Browser_State_Changed = ''The selected browser state changed.''"
| "agent_error_message Tool_Loop_Incomplete = ''The Web Agent workflow ended before completion.''"
| "agent_error_message Turn_Cancelled = ''The Web Agent workflow was cancelled.''"

text \<open>
  What the coordinator takes from outside: \<open>Number(text)\<close>, the operations of doubles, and the
  base64url text of the SHA-256 digest of a text.
\<close>

record agent_primitives =
  ap_number :: "jstr \<Rightarrow> jnum"
  ap_float :: float_ops
  ap_sha256 :: "jstr \<Rightarrow> jstr"

definition digest_canonical :: "agent_primitives \<Rightarrow> jstr \<Rightarrow> jstr" where
  "digest_canonical p s = js ''sha256-'' @ ap_sha256 p s"

section \<open>Records of unknown shape\<close>

text \<open>\<open>readDataRecord(value, allowedKeys, requiredKeys)\<close>\<close>

definition read_keyed_record :: "string list \<Rightarrow> string list \<Rightarrow> jval \<Rightarrow> data_record option" where
  "read_keyed_record allowed required v =
     (case v of
        JObj r \<Rightarrow>
          if only_keys allowed r \<and> list_all (\<lambda>k. js k \<in> fst ` set r) required then Some r else None
      | _ \<Rightarrow> None)"

definition read_exact_array :: "jval \<Rightarrow> jval list option" where
  "read_exact_array v = (case v of JArr vs \<Rightarrow> Some vs | _ \<Rightarrow> None)"

definition assert_bounded_identifier :: "jval \<Rightarrow> (agent_error, unit) result" where
  "assert_bounded_identifier v =
     reject_if (\<not> is_string_value v \<or> string_of v = [] \<or> MAX_IDENTIFIER_CHARACTERS < length (string_of v))
       Unsupported_Tool_Profile"

section \<open>The browser snapshot\<close>

record browser_binding =
  bb_catalog_revision :: jstr
  bb_conversation_ownership_id :: jstr
  bb_document_generation :: int
  bb_document_id :: jstr
  bb_expires_at :: int
  bb_issued_at :: int
  bb_last_activity_at :: int
  bb_lease_id :: jstr
  bb_model_id :: jstr
  bb_provider_route :: jstr
  bb_session_generation :: int
  bb_session_id :: jstr
  bb_tab_id :: int

definition BINDING_TEXTS :: "string list" where
  "BINDING_TEXTS =
     [''catalogRevision'', ''conversationOwnershipId'', ''documentId'', ''leaseId'', ''modelId'',
      ''providerRoute'', ''sessionId'']"

definition BINDING_NUMBERS :: "string list" where
  "BINDING_NUMBERS =
     [''documentGeneration'', ''expiresAtMs'', ''issuedAtMs'', ''lastActivityAtMs'', ''sessionGeneration'', ''tabId'']"

text \<open>A safe integer that is not negative, and its value.\<close>

definition safe_count :: "jval \<Rightarrow> bool" where
  "safe_count v =
     (case v of
        JNum n \<Rightarrow> is_safe_integer n \<and> (case integral_value n of Some i \<Rightarrow> 0 \<le> i | None \<Rightarrow> False)
      | _ \<Rightarrow> False)"

definition count_of :: "jval \<Rightarrow> int" where
  "count_of v = (case integral_value (as_number v) of Some i \<Rightarrow> i | None \<Rightarrow> 0)"

definition assert_browser_binding_shape :: "data_record \<Rightarrow> (agent_error, unit) result" where
  "assert_browser_binding_shape r =
     and_then (each_result (\<lambda>k. assert_bounded_identifier (field r k)) BINDING_TEXTS) (\<lambda>_.
     and_then (each_result (\<lambda>k. reject_if (\<not> safe_count (field r k)) Tool_Protocol_Not_Activated) BINDING_NUMBERS) (\<lambda>_.
     reject_if (count_of (field r ''documentGeneration'') < 1 \<or> count_of (field r ''sessionGeneration'') < 1)
       Browser_State_Changed))"

definition freeze_browser_binding :: "jval \<Rightarrow> (agent_error, browser_binding) result" where
  "freeze_browser_binding v =
     (case read_keyed_record (BINDING_TEXTS @ BINDING_NUMBERS) (BINDING_TEXTS @ BINDING_NUMBERS) v of
        None \<Rightarrow> throw Tool_Protocol_Not_Activated
      | Some r \<Rightarrow>
          and_then (assert_browser_binding_shape r) (\<lambda>_.
          return \<lparr>bb_catalog_revision = string_of (field r ''catalogRevision''),
            bb_conversation_ownership_id = string_of (field r ''conversationOwnershipId''),
            bb_document_generation = count_of (field r ''documentGeneration''),
            bb_document_id = string_of (field r ''documentId''),
            bb_expires_at = count_of (field r ''expiresAtMs''),
            bb_issued_at = count_of (field r ''issuedAtMs''),
            bb_last_activity_at = count_of (field r ''lastActivityAtMs''),
            bb_lease_id = string_of (field r ''leaseId''),
            bb_model_id = string_of (field r ''modelId''),
            bb_provider_route = string_of (field r ''providerRoute''),
            bb_session_generation = count_of (field r ''sessionGeneration''),
            bb_session_id = string_of (field r ''sessionId''),
            bb_tab_id = count_of (field r ''tabId'')\<rparr>))"

definition assert_lease_current :: "browser_binding \<Rightarrow> int \<Rightarrow> (agent_error, unit) result" where
  "assert_lease_current b now =
     reject_if
       (bb_last_activity_at b < bb_issued_at b \<or> now < bb_last_activity_at b \<or> bb_expires_at b \<le> now
        \<or> bb_last_activity_at b + ACTIVATION_INACTIVITY_MS < bb_expires_at b)
       Tool_Protocol_Not_Activated"

definition same_browser_binding :: "browser_binding \<Rightarrow> browser_binding \<Rightarrow> bool" where
  "same_browser_binding a b \<longleftrightarrow>
     bb_catalog_revision a = bb_catalog_revision b
     \<and> bb_conversation_ownership_id a = bb_conversation_ownership_id b
     \<and> bb_document_generation a = bb_document_generation b \<and> bb_document_id a = bb_document_id b
     \<and> bb_expires_at a = bb_expires_at b \<and> bb_issued_at a = bb_issued_at b
     \<and> bb_last_activity_at a = bb_last_activity_at b \<and> bb_lease_id a = bb_lease_id b
     \<and> bb_model_id a = bb_model_id b \<and> bb_provider_route a = bb_provider_route b
     \<and> bb_session_generation a = bb_session_generation b \<and> bb_session_id a = bb_session_id b
     \<and> bb_tab_id a = bb_tab_id b"

definition same_stable_browser_binding :: "browser_binding \<Rightarrow> browser_binding \<Rightarrow> bool" where
  "same_stable_browser_binding a b \<longleftrightarrow>
     bb_catalog_revision a = bb_catalog_revision b
     \<and> bb_conversation_ownership_id a = bb_conversation_ownership_id b
     \<and> bb_document_generation a = bb_document_generation b \<and> bb_document_id a = bb_document_id b
     \<and> bb_issued_at a = bb_issued_at b \<and> bb_lease_id a = bb_lease_id b
     \<and> bb_model_id a = bb_model_id b \<and> bb_provider_route a = bb_provider_route b
     \<and> bb_session_generation a = bb_session_generation b \<and> bb_session_id a = bb_session_id b
     \<and> bb_tab_id a = bb_tab_id b"

text \<open>
  What the clock and \<open>readBinding\<close> answer: a value, or nothing when they throw.
\<close>

definition read_agent_clock :: "jnum option \<Rightarrow> (agent_error, int) result" where
  "read_agent_clock reading =
     (case reading of
        Some n \<Rightarrow>
          if safe_count (JNum n) then return (count_of (JNum n)) else throw Tool_Protocol_Not_Activated
      | None \<Rightarrow> throw Tool_Protocol_Not_Activated)"

definition assert_current_record :: "browser_binding \<Rightarrow> jval option \<Rightarrow> (agent_error, unit) result" where
  "assert_current_record expected reading =
     (case reading of
        None \<Rightarrow> throw Browser_State_Changed
      | Some v \<Rightarrow>
          (case freeze_browser_binding v of
             Inl _ \<Rightarrow> throw Browser_State_Changed
           | Inr current \<Rightarrow> reject_if (\<not> same_browser_binding expected current) Browser_State_Changed))"

text \<open>A binding that \<open>noteAgentActivity\<close> answered in place of the expected one.\<close>

definition accept_renewed_binding ::
    "browser_binding \<Rightarrow> jval \<Rightarrow> jnum option \<Rightarrow> (agent_error, browser_binding) result" where
  "accept_renewed_binding expected v reading =
     (case freeze_browser_binding v of
        Inl _ \<Rightarrow> throw Browser_State_Changed
      | Inr renewed \<Rightarrow>
          and_then (reject_if (\<not> same_stable_browser_binding expected renewed
              \<or> bb_last_activity_at renewed < bb_last_activity_at expected
              \<or> bb_expires_at renewed < bb_expires_at expected) Browser_State_Changed) (\<lambda>_.
          and_then (read_agent_clock reading) (\<lambda>now.
          and_then (assert_lease_current renewed now) (\<lambda>_. return renewed))))"

section \<open>The child's request\<close>

record child_binding =
  cb_prompt_cache_key :: "jstr option"
  cb_request_binding_id :: jstr
  cb_prefix_canonical :: jstr
  cb_prefix_digest :: jstr
  cb_thread_id :: jstr
  cb_turn_id :: jstr

text \<open>Whatever fails in it, the caller's code is what is thrown.\<close>

definition normalize_child_binding ::
    "agent_primitives \<Rightarrow> agent_error \<Rightarrow> jval \<Rightarrow> (agent_error, child_binding) result" where
  "normalize_child_binding p failure v =
     (case read_keyed_record
         [''promptCacheKey'', ''requestBindingId'', ''requestPrefix'', ''threadId'', ''turnId'']
         [''requestBindingId'', ''requestPrefix'', ''threadId'', ''turnId''] v of
        None \<Rightarrow> throw failure
      | Some r \<Rightarrow>
          let cached = js ''promptCacheKey'' \<in> fst ` set r in
          case each_result (\<lambda>k. assert_bounded_identifier (field r k))
              ([''requestBindingId'', ''threadId'', ''turnId''] @ (if cached then [''promptCacheKey''] else [])) of
            Inl _ \<Rightarrow> throw failure
          | Inr _ \<Rightarrow>
              (case canonicalize_tool_workflow_json (field r ''requestPrefix'') of
                 Inl _ \<Rightarrow> throw failure
               | Inr canonical \<Rightarrow>
                   return \<lparr>cb_prompt_cache_key = (if cached then Some (string_of (field r ''promptCacheKey'')) else None),
                     cb_request_binding_id = string_of (field r ''requestBindingId''),
                     cb_prefix_canonical = canonical, cb_prefix_digest = digest_canonical p canonical,
                     cb_thread_id = string_of (field r ''threadId''), cb_turn_id = string_of (field r ''turnId'')\<rparr>))"

definition assert_exact_child_binding ::
    "agent_primitives \<Rightarrow> child_binding \<Rightarrow> jval \<Rightarrow> (agent_error, unit) result" where
  "assert_exact_child_binding p expected v =
     and_then (normalize_child_binding p Child_Continuation_Mismatch v) (\<lambda>actual.
     reject_if
       (cb_request_binding_id actual \<noteq> cb_request_binding_id expected
        \<or> cb_thread_id actual \<noteq> cb_thread_id expected \<or> cb_turn_id actual \<noteq> cb_turn_id expected
        \<or> cb_prompt_cache_key actual \<noteq> cb_prompt_cache_key expected
        \<or> cb_prefix_canonical actual \<noteq> cb_prefix_canonical expected
        \<or> cb_prefix_digest actual \<noteq> cb_prefix_digest expected)
       Child_Continuation_Mismatch)"

section \<open>The tool manifest\<close>

text \<open>
  A certified tool with its callbacks, which answer a value or throw; a candidate is one, or anything
  else (a value that is no record of the six keys, or whose callbacks are no functions).
\<close>

record certified_tool =
  ct_classify :: "jstr \<Rightarrow> jval option"
  ct_description :: jval
  ct_name :: jval
  ct_parameters :: jval
  ct_strict :: jval
  ct_validate :: "data_record \<Rightarrow> bool option"

datatype tool_candidate = Tool_Candidate certified_tool | Other_Candidate

record tool_binding =
  tb_classify :: "jstr \<Rightarrow> jval option"
  tb_name :: jstr
  tb_parameters :: jval
  tb_validate :: "data_record \<Rightarrow> bool option"

definition read_certified_tool :: "tool_candidate \<Rightarrow> certified_tool option" where
  "read_certified_tool c =
     (case c of
        Tool_Candidate t \<Rightarrow>
          if is_string_value (ct_description t) \<and> is_string_value (ct_name t)
            \<and> (ct_strict t = JUndef \<or> (\<exists>b \<in> {True, False}. ct_strict t = JBool b))
          then Some t else None
      | Other_Candidate \<Rightarrow> None)"

text \<open>\<open>cloneCanonicalJson\<close>\<close>

definition clone_canonical_json :: "agent_primitives \<Rightarrow> jval \<Rightarrow> jval option" where
  "clone_canonical_json p v =
     (case canonicalize_tool_workflow_json v of Inl _ \<Rightarrow> None | Inr s \<Rightarrow> json_parse (ap_number p) s)"

text \<open>One tool, given the names before it: its binding and what the manifest shows of it.\<close>

definition manifest_tool ::
    "agent_primitives \<Rightarrow> jstr list \<Rightarrow> tool_candidate \<Rightarrow> (agent_error, tool_binding \<times> jval) result" where
  "manifest_tool p names c =
     (case read_certified_tool c of
        None \<Rightarrow> throw Unsupported_Tool_Profile
      | Some t \<Rightarrow>
          let name = string_of (ct_name t) in
          and_then (reject_if (\<not> tool_name name \<or> name \<in> set names \<or> string_of (ct_description t) = [])
              Unsupported_Tool_Profile) (\<lambda>_.
          case clone_canonical_json p (ct_parameters t) of
            None \<Rightarrow> throw Unsupported_Tool_Profile
          | Some parameters \<Rightarrow>
              and_then (reject_if (\<not> is_certified_tool_parameters_schema (ap_float p) parameters)
                  Unsupported_Tool_Profile) (\<lambda>_.
              return
                (\<lparr>tb_classify = ct_classify t, tb_name = name, tb_parameters = parameters, tb_validate = ct_validate t\<rparr>,
                 JObj [(js ''description'', ct_description t), (js ''name'', JStr name), (js ''parameters'', parameters),
                       (js ''strict'', if ct_strict t = JUndef then JBool True else ct_strict t),
                       (js ''type'', JStr (js ''function''))]))))"

fun manifest_tools ::
    "agent_primitives \<Rightarrow> jstr list \<Rightarrow> tool_candidate list
      \<Rightarrow> (agent_error, (jstr, tool_binding) jsmap \<times> jval list) result" where
  "manifest_tools p names [] = return ([], [])"
| "manifest_tools p names (c # cs) =
     and_then (manifest_tool p names c) (\<lambda>(tool, shown).
     and_then (manifest_tools p (tb_name tool # names) cs) (\<lambda>(tools, others).
     return ((tb_name tool, tool) # tools, shown # others)))"

record tool_manifest =
  tm_canonical :: jstr
  tm_digest :: jstr
  tm_tools :: "(jstr, tool_binding) jsmap"

definition create_manifest ::
    "agent_primitives \<Rightarrow> jstr \<Rightarrow> tool_candidate list \<Rightarrow> (agent_error, tool_manifest) result" where
  "create_manifest p profile candidates =
     and_then (reject_if (candidates = [] \<or> MAX_CERTIFIED_TOOLS < length candidates) Unsupported_Tool_Profile) (\<lambda>_.
     and_then (manifest_tools p [] candidates) (\<lambda>(tools, shown).
     case canonicalize_tool_workflow_json
         (JObj [(js ''parallelToolCalls'', JBool False), (js ''profileVersion'', JStr profile), (js ''tools'', JArr shown)]) of
       Inl _ \<Rightarrow> throw Unsupported_Tool_Profile
     | Inr canonical \<Rightarrow>
         and_then (reject_if (MAX_CANONICAL_MANIFEST_BYTES < utf8_length canonical) Tool_Budget_Exhausted) (\<lambda>_.
         return \<lparr>tm_canonical = canonical, tm_digest = digest_canonical p canonical, tm_tools = tools\<rparr>)))"

section \<open>The visible request\<close>

definition visible_message :: "jval \<Rightarrow> (agent_error, jval) result" where
  "visible_message v =
     (case read_keyed_record [''content'', ''role''] [''content'', ''role''] v of
        None \<Rightarrow> throw Unsupported_Tool_Profile
      | Some r \<Rightarrow>
          (case read_exact_array (field r ''content'') of
             None \<Rightarrow> throw Unsupported_Tool_Profile
           | Some parts \<Rightarrow>
               and_then (reject_if (parts = []
                   \<or> field r ''role'' \<noteq> JStr (js ''developer'') \<and> field r ''role'' \<noteq> JStr (js ''user'')
                   \<or> \<not> list_all is_string_value parts) Unsupported_Tool_Profile) (\<lambda>_.
               return (JObj [(js ''content'', JArr parts), (js ''role'', field r ''role'')]))))"

definition canonicalize_visible_request :: "jval \<Rightarrow> (agent_error, jstr) result" where
  "canonicalize_visible_request v =
     (case read_keyed_record [''instructions'', ''messages''] [''messages''] v of
        None \<Rightarrow> throw Unsupported_Tool_Profile
      | Some r \<Rightarrow>
          (case read_exact_array (field r ''messages'') of
             None \<Rightarrow> throw Unsupported_Tool_Profile
           | Some vs \<Rightarrow>
               let instructed = js ''instructions'' \<in> fst ` set r in
               and_then (reject_if (vs = [] \<or> MAX_VISIBLE_MESSAGES < length vs
                   \<or> instructed \<and> \<not> is_string_value (field r ''instructions'')) Unsupported_Tool_Profile) (\<lambda>_.
               and_then (map_result visible_message vs) (\<lambda>messages.
               case canonicalize_tool_workflow_json
                   (JObj ((if instructed then [(js ''instructions'', field r ''instructions'')] else [])
                     @ [(js ''messages'', JArr messages)])) of
                 Inl _ \<Rightarrow> throw Unsupported_Tool_Profile
               | Inr canonical \<Rightarrow> return canonical))))"

end
