(* ===== verification/Agent_Facts.thy ===== *)
theory Agent_Facts
  imports Agent_Coordinator
begin

text \<open>
  The invariant of the agent session coordinator, and that every step keeps it. A handler first takes
  control of one workflow, with all others at rest, and gives it back when it ends or waits.
\<close>

section \<open>Generated values\<close>

definition generated_ok :: "jstr list \<Rightarrow> bool" where
  "generated_ok g \<longleftrightarrow> distinct g \<and> length g \<le> MAX_RECENT_GENERATED_VALUES"

lemma remember_value_ok: "generated_ok g \<Longrightarrow> x \<notin> set g \<Longrightarrow> generated_ok (remember_value x g)"
  by (cases g) (auto simp: generated_ok_def remember_value_def Let_def)

lemma unique_attempts_ok:
  assumes "unique_attempts n start len g = (r, h)" "generated_ok (snd g)"
  shows "generated_ok (snd h)"
    and "r = Inr x \<Longrightarrow> x \<notin> set (snd g) \<and> snd h = remember_value x (snd g)
      \<and> (\<exists>bytes. length bytes = len \<and> x = start @ base64url bytes)"
  using assms
  by (induction n start len g arbitrary: r h rule: unique_attempts.induct)
    (auto simp: Let_def remember_value_ok split: option.splits if_splits)

lemmas create_ok =
  unique_attempts_ok [of IDENTIFIER_ATTEMPTS, folded create_unique_random_value_def]

lemma create_call_identifiers_ok:
  assumes "create_call_identifiers g = (r, h)" "generated_ok (snd g)"
  shows "generated_ok (snd h)"
  using assms
  by (auto simp: create_call_identifiers_def create_identifier_def split: prod.splits sum.splits dest!: create_ok(1))

section \<open>The invariant\<close>

definition prompt_ok :: "jstr \<Rightarrow> bool" where
  "prompt_ok s \<longleftrightarrow>
     s \<noteq> [] \<and> length s \<le> MAX_TURN_INPUT_TEXT_CHARACTERS \<and> utf8_length s \<le> MAX_TOOL_WORKFLOW_ENVELOPE_BYTES"

definition turns_of :: "nat \<Rightarrow> coordinator \<Rightarrow> nat" where
  "turns_of w s = length (filter (\<lambda>t. fst t = w) (ac_turns s))"

text \<open>One workflow, of which so many turns were submitted.\<close>

definition flow_ok :: "nat \<Rightarrow> workflow \<Rightarrow> bool" where
  "flow_ok n f \<longleftrightarrow>
     wf_round f < MAX_TOOL_WORKFLOW_ROUNDS
     \<and> wf_calls f = wf_round f + (if wf_pending f = None then 0 else 1)
     \<and> wf_calls f \<le> MAX_TOOL_WORKFLOW_TOOL_CALLS
     \<and> wf_result_bytes f \<le> MAX_AGGREGATE_TOOL_RESULT_BYTES
     \<and> (case wf_task f of Renewing prompt \<Rightarrow> n \<le> wf_round f \<and> prompt_ok prompt | _ \<Rightarrow> n \<le> Suc (wf_round f))
     \<and> (\<forall>k t. map_of (wf_tools f) k = Some t \<longrightarrow> tb_name t = k)"

definition commit_of :: "workflow \<Rightarrow> tool_call_commit \<Rightarrow> bool" where
  "commit_of f c \<longleftrightarrow>
     tc_round c = wf_round f \<and> tc_alias c = wf_alias f \<and> tc_manifest_digest c = wf_manifest_digest f
     \<and> map_of (wf_tools f) (tc_tool c) \<noteq> None"

text \<open>What the phase says of the active workflow.\<close>

fun active_ok :: "agent_phase \<Rightarrow> workflow \<Rightarrow> bool" where
  "active_ok Round_Submitted f \<longleftrightarrow>
     (\<exists>prompt. wf_task f = Renewing prompt) \<and> wf_challenge f \<noteq> None \<and> wf_pending f = None \<and> \<not> wf_handle f"
| "active_ok Awaiting_Envelope f \<longleftrightarrow>
     (\<exists>chunks seen bytes failure. wf_task f = Streaming chunks seen bytes failure)
     \<and> wf_challenge f \<noteq> None \<and> wf_pending f = None \<and> wf_handle f"
| "active_ok Awaiting_Continuation f \<longleftrightarrow>
     wf_task f = No_Task \<and> wf_challenge f = None \<and> (\<exists>c. wf_pending f = Some c \<and> commit_of f c) \<and> \<not> wf_handle f"
| "active_ok _ f \<longleftrightarrow> False"

definition resting_phases :: "agent_phase set" where
  "resting_phases = {Idle, Completed, Failed_Terminal, Cancelled_Terminal, Closed}"

definition at_rest :: "workflow \<Rightarrow> bool" where
  "at_rest f \<longleftrightarrow> wf_task f = No_Task \<or> wf_error f \<noteq> None"

definition logs_ok :: "coordinator \<Rightarrow> bool" where
  "logs_ok s \<longleftrightarrow>
     (\<forall>t \<in> set (ac_turns s). fst t < ac_next s \<and> prompt_ok (tr_prompt (snd (snd t))))
     \<and> generated_ok (ac_generated s) \<and> (ac_closed s \<longleftrightarrow> ac_phase s = Closed)"

definition agent_ok :: "coordinator \<Rightarrow> bool" where
  "agent_ok s \<longleftrightarrow>
     logs_ok s
     \<and> (\<forall>w f. map_of (ac_flows s) w = Some f \<longrightarrow>
          w < ac_next s \<and> flow_ok (turns_of w s) f \<and> (ac_active s = Some w \<or> at_rest f))
     \<and> (case ac_active s of
          None \<Rightarrow> ac_phase s \<in> resting_phases
        | Some w \<Rightarrow> \<exists>f. map_of (ac_flows s) w = Some f \<and> wf_error f = None \<and> active_ok (ac_phase s) f)"

text \<open>All workflows but one are at rest.\<close>

definition others_ok :: "nat \<Rightarrow> coordinator \<Rightarrow> bool" where
  "others_ok w s \<longleftrightarrow>
     logs_ok s \<and> w < ac_next s
     \<and> (\<forall>w' f. w' \<noteq> w \<and> map_of (ac_flows s) w' = Some f \<longrightarrow>
          w' < ac_next s \<and> flow_ok (turns_of w' s) f \<and> at_rest f)"

lemma set_flow_simps [simp]:
  "map_of (ac_flows (set_flow w f s)) w' = (if w' = w then Some f else map_of (ac_flows s) w')"
  "ac_next (set_flow w f s) = ac_next s" "ac_active (set_flow w f s) = ac_active s"
  "ac_closed (set_flow w f s) = ac_closed s" "ac_phase (set_flow w f s) = ac_phase s"
  "ac_terminal (set_flow w f s) = ac_terminal s" "ac_generated (set_flow w f s) = ac_generated s"
  "ac_turns (set_flow w f s) = ac_turns s" "ac_cancels (set_flow w f s) = ac_cancels s"
  by (simp_all add: set_flow_def map_of_alist_update)

lemma turns_of_set_flow [simp]: "turns_of w (set_flow w' f s) = turns_of w s"
  by (simp add: turns_of_def)

lemma take_control: "agent_ok s \<Longrightarrow> ac_active s = None \<or> ac_active s = Some w \<Longrightarrow> w < ac_next s \<Longrightarrow> others_ok w s"
  unfolding agent_ok_def others_ok_def by fastforce

text \<open>Control is given back with the workflow waiting, or ended.\<close>

lemma give_back:
  assumes "others_ok w s" "map_of (ac_flows s) w = Some f" "flow_ok (turns_of w s) f"
    and "ac_active s = Some w \<and> wf_error f = None \<and> active_ok (ac_phase s) f
      \<or> ac_active s = None \<and> ac_phase s \<in> resting_phases \<and> at_rest f"
  shows "agent_ok s"
proof -
  have "w' < ac_next s \<and> flow_ok (turns_of w' s) f' \<and> (ac_active s = Some w' \<or> at_rest f')"
    if "map_of (ac_flows s) w' = Some f'" for w' f'
    using that assms unfolding others_ok_def by (cases "w' = w") auto
  moreover have "logs_ok s" using assms(1) by (simp add: others_ok_def)
  ultimately show ?thesis using assms(2,4) unfolding agent_ok_def by auto
qed

lemma agent_ok_flow: "agent_ok s \<Longrightarrow> map_of (ac_flows s) w = Some f \<Longrightarrow> w < ac_next s \<and> flow_ok (turns_of w s) f"
  unfolding agent_ok_def by blast

lemma agent_ok_active:
  "agent_ok s \<Longrightarrow> ac_active s = Some w \<Longrightarrow> map_of (ac_flows s) w = Some f \<Longrightarrow> wf_error f = None \<and> active_ok (ac_phase s) f"
  unfolding agent_ok_def by (auto split: option.splits)

lemma agent_ok_stale:
  "agent_ok s \<Longrightarrow> ac_active s \<noteq> Some w \<Longrightarrow> map_of (ac_flows s) w = Some f \<Longrightarrow> at_rest f"
  unfolding agent_ok_def by blast

lemma new_coordinator_ok: "agent_ok new_coordinator"
  by (simp add: agent_ok_def new_coordinator_def logs_ok_def generated_ok_def resting_phases_def)

section \<open>Updates that keep control\<close>

lemma others_ok_simps [simp]:
  "others_ok w (set_flow w f s) \<longleftrightarrow> others_ok w s"
  "others_ok w (s\<lparr>ac_active := x\<rparr>) \<longleftrightarrow> others_ok w s"
  "others_ok w (s\<lparr>ac_terminal := y\<rparr>) \<longleftrightarrow> others_ok w s"
  "others_ok w (s\<lparr>ac_cancels := z\<rparr>) \<longleftrightarrow> others_ok w s"
  by (auto simp: others_ok_def logs_ok_def turns_of_def)

lemma others_ok_phase:
  "others_ok w s \<Longrightarrow> ac_phase s \<noteq> Closed \<Longrightarrow> ph \<noteq> Closed \<Longrightarrow> others_ok w (s\<lparr>ac_phase := ph\<rparr>)"
  by (auto simp: others_ok_def logs_ok_def turns_of_def)

lemma others_ok_generated:
  "others_ok w s \<Longrightarrow> generated_ok g \<Longrightarrow> others_ok w (s\<lparr>ac_generated := g\<rparr>)"
  by (auto simp: others_ok_def logs_ok_def turns_of_def)

lemma others_ok_turn:
  "others_ok w s \<Longrightarrow> prompt_ok (tr_prompt t) \<Longrightarrow> others_ok w (s\<lparr>ac_turns := ac_turns s @ [(w, b, t)]\<rparr>)"
  by (auto simp: others_ok_def logs_ok_def turns_of_def)

lemma turns_of_simps [simp]:
  "turns_of w (s\<lparr>ac_active := x\<rparr>) = turns_of w s" "turns_of w (s\<lparr>ac_terminal := y\<rparr>) = turns_of w s"
  "turns_of w (s\<lparr>ac_cancels := z\<rparr>) = turns_of w s" "turns_of w (s\<lparr>ac_phase := ph\<rparr>) = turns_of w s"
  "turns_of w (s\<lparr>ac_generated := g\<rparr>) = turns_of w s"
  "turns_of w (s\<lparr>ac_turns := ac_turns s @ [(w, b, t)]\<rparr>) = Suc (turns_of w s)"
  by (simp_all add: turns_of_def)

lemma flow_ok_simps [simp]:
  "flow_ok n (f\<lparr>wf_error := x\<rparr>) \<longleftrightarrow> flow_ok n f" "flow_ok n (f\<lparr>wf_handle := h\<rparr>) \<longleftrightarrow> flow_ok n f"
  "flow_ok n (f\<lparr>wf_challenge := c\<rparr>) \<longleftrightarrow> flow_ok n f" "flow_ok n (f\<lparr>wf_browser := b\<rparr>) \<longleftrightarrow> flow_ok n f"
  by (simp_all add: flow_ok_def cong: agent_task.case_cong)

lemma flow_ok_rest: "flow_ok n f \<Longrightarrow> flow_ok n (f\<lparr>wf_task := No_Task\<rparr>)"
  by (auto simp: flow_ok_def split: agent_task.splits)

lemma rejected_ok:
  assumes "others_ok w s" "ac_active s = Some w" "ac_phase s \<noteq> Closed" "flow_ok (turns_of w s) (f\<lparr>wf_task := No_Task\<rparr>)"
  shows "agent_ok (snd (reject_workflow w f e s))"
  using assms
  by (intro give_back [of w _ "f\<lparr>wf_task := No_Task, wf_error := Some (case wf_error f of Some e' \<Rightarrow> e' | None \<Rightarrow> e)\<rparr>"])
    (auto simp: reject_workflow_def fail_workflow_def Let_def resting_phases_def at_rest_def intro!: others_ok_phase)

text \<open>A workflow that has ended: its promise is rejected and nothing else changes.\<close>

lemma stale_rejected_ok:
  assumes "agent_ok s" "ac_active s \<noteq> Some w" "map_of (ac_flows s) w = Some f0" "flow_ok (turns_of w s) f"
  shows "agent_ok (snd (reject_workflow w f e s))"
proof -
  have "w < ac_next s" using assms(1,3) agent_ok_flow by blast
  with assms show ?thesis
    by (auto simp: agent_ok_def reject_workflow_def fail_workflow_def logs_ok_def at_rest_def flow_ok_rest split: option.splits)
qed

section \<open>Submitting a round\<close>

definition submittable :: "nat \<Rightarrow> workflow \<Rightarrow> bool" where
  "submittable n f \<longleftrightarrow> flow_ok n (f\<lparr>wf_task := No_Task\<rparr>) \<and> n \<le> wf_round f \<and> wf_error f = None \<and> \<not> wf_handle f"

lemma submittable_browser [simp]: "submittable n (f\<lparr>wf_browser := b\<rparr>) \<longleftrightarrow> submittable n f"
  by (simp add: submittable_def flow_ok_def)

lemma submittable_renewing:
  "submittable n f \<Longrightarrow> prompt_ok prompt \<Longrightarrow> flow_ok n (f\<lparr>wf_task := Renewing prompt\<rparr>)"
  by (simp add: submittable_def flow_ok_def)

lemma submittable_streaming:
  "submittable n f \<Longrightarrow> flow_ok (Suc n) (f\<lparr>wf_handle := True, wf_task := Streaming [] 0 0 None\<rparr>)"
  by (simp add: submittable_def flow_ok_def)

lemma submittable_rest: "submittable n f \<Longrightarrow> n' \<le> Suc n \<Longrightarrow> flow_ok n' (f\<lparr>wf_task := No_Task\<rparr>)"
  by (simp add: submittable_def flow_ok_def)

lemma start_bound_turn_ok:
  assumes "others_ok w s" "ac_active s = Some w" "ac_phase s \<noteq> Closed"
    and "submittable (turns_of w s) f" "prompt_ok prompt" "wf_challenge f \<noteq> None" "wf_pending f = None"
  shows "agent_ok (snd (start_bound_turn answer w f prompt s))"
proof -
  let ?t = "turn_request_of f prompt"
  let ?s = "s\<lparr>ac_phase := Awaiting_Envelope, ac_turns := ac_turns s @ [(w, wf_browser f, ?t)]\<rparr>"
  have "others_ok w (s\<lparr>ac_phase := Awaiting_Envelope\<rparr>)" using others_ok_phase [OF assms(1,3)] by simp
  from others_ok_turn [OF this, of ?t "wf_browser f"] have control: "others_ok w ?s"
    using assms(5) by (simp add: turn_request_of_def)
  have turns: "turns_of w ?s = Suc (turns_of w s)" by (simp add: turns_of_def)
  show ?thesis
  proof (cases answer)
    case (Start_Throws e)
    have "agent_ok (snd (reject_workflow w f (normalize_error e Browser_State_Changed) ?s))"
      using rejected_ok [OF control] assms(2) submittable_rest [OF assms(4)] turns by simp
    then show ?thesis by (simp add: start_bound_turn_def Let_def Start_Throws)
  next
    case Start_Handle
    let ?f = "f\<lparr>wf_handle := True, wf_task := Streaming [] 0 0 None\<rparr>"
    have "agent_ok (set_flow w ?f ?s)"
      using control turns submittable_streaming [OF assms(4)] assms(2,4,6,7)
      by (intro give_back [of w _ ?f]) (simp_all add: submittable_def)
    then show ?thesis by (simp add: start_bound_turn_def Let_def Start_Handle)
  qed
qed

lemma submit_round_ok:
  assumes "others_ok w s" "ac_active s = Some w" "ac_phase s = Round_Submitted"
    and "submittable (turns_of w s) f" "wf_challenge f \<noteq> None" "wf_pending f = None"
  shows "agent_ok (snd (submit_round a w f prompt s))"
proof -
  have rejected: "agent_ok (snd (reject_workflow w f e s))" for e
    using rejected_ok [OF assms(1,2)] assms(3) submittable_rest [OF assms(4)] by simp
  show ?thesis
  proof (cases "assert_visible_prompt_limit prompt")
    case (Inr u)
    then have prompt: "prompt_ok prompt"
      by (auto simp: assert_visible_prompt_limit_def prompt_ok_def outcome_simps)
    have "agent_ok (set_flow w (f\<lparr>wf_task := Renewing prompt\<rparr>) s)"
      using assms submittable_renewing [OF assms(4) prompt]
      by (intro give_back [of w _ "f\<lparr>wf_task := Renewing prompt\<rparr>"]) (simp_all add: submittable_def)
    moreover have "agent_ok (snd (start_bound_turn (ra_start a) w (f\<lparr>wf_browser := b\<rparr>) prompt s))" for b
      using start_bound_turn_ok [OF assms(1,2)] assms(3-6) prompt by simp
    ultimately show ?thesis
      using rejected by (auto simp: submit_round_def split: sum.split activity_answer.split)
  next
    case (Inl e)
    then have "\<exists>e. submit_round a w f prompt s = reject_workflow w f e s"
      by (auto simp: submit_round_def and_then_def split: sum.split)
    with rejected show ?thesis by auto
  qed
qed

lemma activity_settled_ok:
  assumes "agent_ok s"
  shows "agent_ok (snd (activity_settled settled clock answer w s))"
proof (cases "\<exists>f prompt. map_of (ac_flows s) w = Some f \<and> wf_task f = Renewing prompt")
  case True
  then obtain f prompt where f: "map_of (ac_flows s) w = Some f" "wf_task f = Renewing prompt" by blast
  note flow = agent_ok_flow [OF assms f(1)]
  show ?thesis
  proof (cases "ac_active s = Some w")
    case True
    have control: "others_ok w s" using take_control [OF assms] True flow by blast
    have active: "wf_error f = None" "active_ok (ac_phase s) f" using agent_ok_active [OF assms True f(1)] by auto
    then have phase: "ac_phase s = Round_Submitted" "wf_challenge f \<noteq> None" "wf_pending f = None" "\<not> wf_handle f"
      using f(2) by (cases "ac_phase s"; simp)+
    have prompt: "prompt_ok prompt" "submittable (turns_of w s) f"
      using flow f(2) active(1) phase(4) flow_ok_rest by (auto simp: flow_ok_def submittable_def)
    have "agent_ok (snd (reject_workflow w f e s))" for e
      using rejected_ok [OF control True] phase(1) flow flow_ok_rest by simp
    moreover have "agent_ok (snd (start_bound_turn answer w (f\<lparr>wf_browser := b\<rparr>) prompt s))" for b
      using start_bound_turn_ok [OF control True] phase prompt by simp
    ultimately show ?thesis
      using f by (auto simp: activity_settled_def split: option.split sum.split)
  next
    case False
    have "wf_error f \<noteq> None" using agent_ok_stale [OF assms False f(1)] f(2) by (simp add: at_rest_def)
    then have "\<exists>e. activity_settled settled clock answer w s = reject_workflow w f e s"
      using f by (auto simp: activity_settled_def assert_workflow_live_def split: option.split)
    with stale_rejected_ok [OF assms False f(1)] flow show ?thesis by metis
  qed
next
  case False
  then have "activity_settled settled clock answer w s = (Ignored, s)"
    by (auto simp: activity_settled_def split: option.split agent_task.split)
  with assms show ?thesis by simp
qed

section \<open>Turns\<close>

lemma flow_ok_task:
  "flow_ok n f \<Longrightarrow> (\<forall>prompt. t \<noteq> Renewing prompt) \<Longrightarrow> flow_ok n (f\<lparr>wf_task := t\<rparr>)"
  by (auto simp: flow_ok_def split: agent_task.splits)

text \<open>A change of the deltas alone.\<close>

lemma streaming_update_ok:
  assumes "agent_ok s" "map_of (ac_flows s) w = Some f" "wf_task f = Streaming chunks seen bytes failure"
  shows "agent_ok (set_flow w (f\<lparr>wf_task := Streaming chunks' seen' bytes' failure'\<rparr>) s)"
proof -
  let ?f = "f\<lparr>wf_task := Streaming chunks' seen' bytes' failure'\<rparr>"
  note flow = agent_ok_flow [OF assms(1,2)]
  have ok: "flow_ok (turns_of w s) ?f" using flow flow_ok_task by simp
  show ?thesis
  proof (cases "ac_active s = Some w")
    case True
    note active = agent_ok_active [OF assms(1) True assms(2)]
    then have "active_ok (ac_phase s) ?f" using assms(3) by (cases "ac_phase s") simp_all
    with active True ok take_control [OF assms(1)] flow show ?thesis
      by (intro give_back [of w _ ?f]) simp_all
  next
    case False
    have "wf_error f \<noteq> None" using agent_ok_stale [OF assms(1) False assms(2)] assms(3) by (simp add: at_rest_def)
    with assms(1) False ok flow show ?thesis
      by (auto simp: agent_ok_def logs_ok_def at_rest_def split: option.splits)
  qed
qed

lemma on_delta_ok: "agent_ok s \<Longrightarrow> agent_ok (snd (on_delta v reading clock w s))"
  using streaming_update_ok [of s w]
  by (auto simp: on_delta_def split: option.split agent_task.split sum.split prod.split)

lemma create_call_ok:
  "create_call_identifiers (answers, g) = (r, a, h) \<Longrightarrow> generated_ok g \<Longrightarrow> generated_ok h"
  using create_call_identifiers_ok [of "(answers, g)" r "(a, h)"] by simp

lemma controlled_generated: "others_ok w s \<Longrightarrow> generated_ok (ac_generated s)"
  by (simp add: others_ok_def logs_ok_def)

lemma read_proposed_call_tool:
  "read_proposed_call p f name args = Inr (tool, canonical) \<Longrightarrow>
     wf_calls f < MAX_TOOL_WORKFLOW_TOOL_CALLS \<and> map_of (wf_tools f) name = Some tool
     \<and> validate_tool_arguments p tool args \<and> canonicalize_tool_workflow_json (JObj args) = Inr canonical"
  by (auto simp: read_proposed_call_def outcome_simps split: option.splits sum.splits)

lemma commit_call_ok:
  assumes "others_ok w s" "ac_active s = Some w" "ac_phase s \<noteq> Closed"
    and "flow_ok (turns_of w s) (f\<lparr>wf_task := No_Task\<rparr>)" "wf_pending f = None" "wf_challenge f = None"
    and "wf_error f = None" "\<not> wf_handle f"
  shows "agent_ok (snd (commit_call p answers w f name args s))"
proof (cases "read_proposed_call p f name args")
  case (Inl e)
  then show ?thesis using rejected_ok [OF assms(1-4)] by (simp add: commit_call_def)
next
  case (Inr proposed)
  obtain tool canonical where proposed: "proposed = (tool, canonical)" by fastforce
  note call = read_proposed_call_tool [OF Inr [unfolded proposed]]
  obtain r rest g where ids: "create_call_identifiers (answers, ac_generated s) = (r, rest, g)"
    by (cases "create_call_identifiers (answers, ac_generated s)") auto
  have control: "others_ok w (s\<lparr>ac_generated := g\<rparr>)"
    using others_ok_generated [OF assms(1)] create_call_ok [OF ids] controlled_generated [OF assms(1)] by simp
  show ?thesis
  proof (cases r)
    case (Inl e)
    have "agent_ok (snd (reject_workflow w f e (s\<lparr>ac_generated := g\<rparr>)))"
      using rejected_ok [OF control] assms by simp
    then show ?thesis using Inl Inr ids by (simp add: commit_call_def proposed)
  next
    case ids': (Inr abc)
    obtain a b c where abc: "abc = (a, b, c)" by (cases abc) auto
    let ?commit = "\<lparr>tc_arguments = args, tc_arguments_digest = digest_canonical p canonical,
       tc_arguments_json = canonical, tc_call_id = a, tc_call_ref = b, tc_item_id = c,
       tc_manifest_digest = wf_manifest_digest f, tc_round = wf_round f, tc_tool = tb_name tool, tc_alias = wf_alias f\<rparr>"
    let ?f = "f\<lparr>wf_calls := Suc (wf_calls f), wf_pending := Some ?commit, wf_task := No_Task\<rparr>"
    have "tb_name tool = name" using assms(4) call by (simp add: flow_ok_def)
    then have "commit_of ?f ?commit" using call by (simp add: commit_of_def)
    moreover have "flow_ok (turns_of w s) ?f" using assms(4,5) call by (simp add: flow_ok_def)
    moreover have "others_ok w ((set_flow w ?f (s\<lparr>ac_generated := g\<rparr>))\<lparr>ac_phase := Awaiting_Continuation\<rparr>)"
      using control assms(3) by (intro others_ok_phase) simp_all
    ultimately have "agent_ok ((set_flow w ?f (s\<lparr>ac_generated := g\<rparr>))\<lparr>ac_phase := Awaiting_Continuation\<rparr>)"
      using assms by (intro give_back [of w _ ?f]) simp_all
    then show ?thesis using Inr ids ids' abc by (simp add: commit_call_def proposed Let_def)
  qed
qed

lemma turn_result_live:
  "turn_result ending reading clock w f failure s = Inr u \<Longrightarrow> wf_error f = None \<and> ac_active s = Some w"
  by (auto simp: turn_result_def assert_workflow_live_def outcome_simps split: turn_ending.splits sum.splits option.splits)

lemma turn_ended_ok:
  assumes "agent_ok s"
  shows "agent_ok (snd (turn_ended p ending reading clock answers w s))"
proof (cases "\<exists>f chunks seen bytes failure. map_of (ac_flows s) w = Some f \<and> wf_task f = Streaming chunks seen bytes failure")
  case True
  then obtain f chunks seen bytes failure where f: "map_of (ac_flows s) w = Some f"
    "wf_task f = Streaming chunks seen bytes failure" by blast
  note flow = agent_ok_flow [OF assms f(1)]
  let ?f1 = "f\<lparr>wf_handle := False\<rparr>"
  let ?f2 = "?f1\<lparr>wf_challenge := None\<rparr>"
  show ?thesis
  proof (cases "turn_result ending reading clock w ?f1 failure s")
    case (Inl e)
    have "agent_ok (snd (reject_workflow w ?f1 e s))"
    proof (cases "ac_active s = Some w")
      case True
      then have "ac_phase s \<noteq> Closed" using agent_ok_active [OF assms True f(1)] by auto
      with rejected_ok [OF take_control [OF assms] True] flow True show ?thesis
        using flow_ok_rest [of _ ?f1] by simp
    next
      case False
      with stale_rejected_ok [OF assms False f(1)] flow show ?thesis by simp
    qed
    with Inl f show ?thesis by (simp add: turn_ended_def Let_def)
  next
    case (Inr u)
    from turn_result_live [OF Inr] have live: "wf_error f = None" "ac_active s = Some w" by simp_all
    then have active: "active_ok (ac_phase s) f" using agent_ok_active [OF assms live(2) f(1)] by blast
    then have phase: "ac_phase s = Awaiting_Envelope" "wf_pending f = None" using f(2) by (cases "ac_phase s"; simp)+
    have control: "others_ok w s" using take_control [OF assms] live(2) flow by blast
    have rest: "flow_ok (turns_of w s) (?f2\<lparr>wf_task := No_Task\<rparr>)" using flow flow_ok_rest [of _ ?f2] by simp
    have rejected: "agent_ok (snd (reject_workflow w ?f2 e s))" for e
      using rejected_ok [OF control live(2) _ rest] phase(1) by simp
    have committed: "agent_ok (snd (commit_call p answers w ?f2 name args s))" for name args
      using commit_call_ok [OF control live(2) _ rest] phase live(1) by simp
    have "agent_ok ((set_flow w (?f2\<lparr>wf_task := No_Task\<rparr>) s)\<lparr>ac_active := None, ac_phase := Completed, ac_terminal := None\<rparr>)"
      using control phase(1) rest
      by (intro give_back [of w _ "?f2\<lparr>wf_task := No_Task\<rparr>"])
        (auto simp: resting_phases_def at_rest_def intro!: others_ok_phase)
    then show ?thesis
      using Inr f rejected committed live(2)
      by (auto simp: turn_ended_def Let_def complete_workflow_def split: sum.split assistant_envelope.split)
  qed
next
  case False
  then have "turn_ended p ending reading clock answers w s = (Ignored, s)"
    by (auto simp: turn_ended_def split: option.split agent_task.split)
  with assms show ?thesis by simp
qed

section \<open>Starting, continuing, cancelling and closing\<close>

lemma manifest_tools_names:
  "manifest_tools p names cs = Inr (tools, shown) \<Longrightarrow> map_of tools k = Some t \<Longrightarrow> tb_name t = k"
  by (induction cs arbitrary: names tools shown) (auto simp: outcome_simps split: prod.splits if_splits)

lemma create_manifest_names:
  assumes "create_manifest p profile cs = Inr m" "map_of (tm_tools m) k = Some t"
  shows "tb_name t = k"
proof (cases "manifest_tools p [] cs")
  case (Inr both)
  obtain tools shown where both: "both = (tools, shown)" by fastforce
  have "tm_tools m = tools"
    using assms(1) Inr both by (simp add: create_manifest_def outcome_simps split: sum.splits) auto
  with manifest_tools_names Inr both assms(2) show ?thesis by blast
qed (use assms(1) in \<open>simp add: create_manifest_def outcome_simps\<close>)

lemma bind_request_manifest:
  "bind_request p request clock reading = Inr (browser, r, manifest, visible, child) \<Longrightarrow>
     \<exists>profile tools. create_manifest p profile tools = Inr manifest"
  by (auto simp: bind_request_def outcome_simps split: prod.splits)

lemma new_workflow_submittable:
  assumes "bind_request p request clock reading = Inr bound"
  shows "submittable 0 (new_workflow bound workflow_alias challenge)"
proof -
  obtain browser r manifest visible child where bound: "bound = (browser, r, manifest, visible, child)"
    by (cases bound) auto
  from assms have "map_of (tm_tools manifest) k = Some t \<Longrightarrow> tb_name t = k" for k t
    unfolding bound by (blast dest: bind_request_manifest create_manifest_names)
  then show ?thesis
    by (simp add: bound submittable_def flow_ok_def new_workflow_def MAX_TOOL_WORKFLOW_ROUNDS_def)
qed

lemma start_workflow_ok:
  assumes "agent_ok s"
  shows "agent_ok (snd (start_workflow p request clock reading answers a s))"
proof (cases "ac_closed s \<or> ac_active s \<noteq> None \<or> isl (bind_request p request clock reading)")
  case True
  with assms show ?thesis by (auto simp: start_workflow_def split: sum.split)
next
  case False
  then obtain bound where open_state: "\<not> ac_closed s" "ac_active s = None" and bound: "bind_request p request clock reading = Inr bound"
    by (auto simp: not_isl_Inr)
  have g0: "generated_ok (ac_generated s)" using assms by (simp add: agent_ok_def logs_ok_def)
  have drawn: "agent_ok (s\<lparr>ac_generated := g\<rparr>)" if "generated_ok g" for g
    using assms that open_state(2) by (simp add: agent_ok_def logs_ok_def turns_of_def)
  obtain r1 a1 g1 where first: "create_identifier Turn_Alias (answers, ac_generated s) = (r1, a1, g1)"
    by (cases "create_identifier Turn_Alias (answers, ac_generated s)") auto
  then have g1: "generated_ok g1"
    using create_ok(1) g0 by (fastforce simp: create_identifier_def)
  obtain r2 a2 g2 where second: "create_challenge (a1, g1) = (r2, a2, g2)"
    by (cases "create_challenge (a1, g1)") auto
  then have g2: "generated_ok g2" using create_ok(1) g1 by (fastforce simp: create_challenge_def)
  show ?thesis
  proof (cases "isl r1 \<or> isl r2")
    case True
    with open_state bound first second drawn [OF g1] drawn [OF g2] show ?thesis
      by (cases r1; cases r2) (auto simp: start_workflow_def)
  next
    case False
    then obtain wa c where ids: "r1 = Inr wa" "r2 = Inr c" by (auto simp: not_isl_Inr)
    let ?w = "ac_next s"
    let ?f = "new_workflow bound wa c"
    let ?s = "(set_flow ?w ?f s)\<lparr>ac_generated := g2, ac_next := Suc ?w, ac_active := Some ?w, ac_phase := Round_Submitted,
        ac_terminal := None\<rparr>"
    have old: "\<forall>t \<in> set (ac_turns s). fst t < ?w"
      "w' < ?w \<and> flow_ok (turns_of w' s) f \<and> at_rest f" if "map_of (ac_flows s) w' = Some f" for w' f
      using assms that open_state(2) by (auto simp: agent_ok_def logs_ok_def)
    have "\<forall>t \<in> set (ac_turns s). fst t < ?w" using assms by (auto simp: agent_ok_def logs_ok_def)
    then have "turns_of ?w s = 0" by (auto simp: turns_of_def filter_empty_conv)
    then have turns: "turns_of ?w ?s = 0" by (simp add: turns_of_def)
    have control: "others_ok ?w ?s"
      using assms open_state g2 old(2)
      by (auto simp: others_ok_def logs_ok_def turns_of_def agent_ok_def less_Suc_eq)
    have submit: "submittable (turns_of ?w ?s) ?f"
      unfolding turns by (rule new_workflow_submittable [OF bound])
    have fields: "wf_challenge ?f = Some c" "wf_pending ?f = None"
      by (cases bound; simp add: new_workflow_def)+
    have "agent_ok (snd (submit_round a ?w ?f prompt ?s))" for prompt
      using submit_round_ok [OF control _ _ submit] fields by simp
    moreover have "agent_ok (snd (reject_workflow ?w ?f e ?s))" for e
      using rejected_ok [OF control] submittable_rest [OF submit] by simp
    ultimately show ?thesis
      using open_state bound first second ids by (auto simp: start_workflow_def Let_def split: sum.split)
  qed
qed

text \<open>What a continuation that passes its checks says of the pending call.\<close>

lemma assert_continuation_bytes:
  assumes "assert_continuation p f committed request = Inr (str, bytes, ok)"
  shows "bytes = utf8_length str \<and> bytes \<le> MAX_TOOL_WORKFLOW_RESULT_BYTES
    \<and> wf_result_bytes f + bytes \<le> MAX_AGGREGATE_TOOL_RESULT_BYTES"
  using assms
  by (auto simp: assert_continuation_def Let_def outcome_simps split: prod.splits sum.splits option.splits)

lemma check_continuation_Inr:
  "check_continuation p request reading clock w f s = Inr (committed, str, bytes, ok) \<longleftrightarrow>
     wf_error f = None \<and> ac_active s = Some w \<and> assert_current_browser_binding f reading clock = Inr ()
     \<and> (\<exists>normalized. normalize_continuation_request request = Inr normalized
          \<and> assert_continuation p f committed normalized = Inr (str, bytes, ok))
     \<and> wf_pending f = Some committed \<and> wf_round f + 1 < MAX_TOOL_WORKFLOW_ROUNDS"
  by (auto simp: check_continuation_def assert_workflow_live_def outcome_simps split: option.splits)

lemma continue_workflow_ok:
  assumes "agent_ok s"
  shows "agent_ok (snd (continue_workflow p request reading clock answers a s))"
proof (cases "\<not> ac_closed s \<and> ac_phase s = Awaiting_Continuation \<and> (\<exists>w f. ac_active s = Some w \<and> map_of (ac_flows s) w = Some f)")
  case False
  with assms show ?thesis by (auto simp: continue_workflow_def split: bind_splits option.splits)
next
  case True
  then obtain w f where open_state: "\<not> ac_closed s" "ac_phase s = Awaiting_Continuation"
      and w: "ac_active s = Some w" "map_of (ac_flows s) w = Some f" by blast
  note flow = agent_ok_flow [OF assms w(2)]
  have control: "others_ok w s" using take_control [OF assms] w flow by blast
  have active: "wf_error f = None" "wf_task f = No_Task" "\<not> wf_handle f"
    using agent_ok_active [OF assms w] open_state(2) by simp_all
  have rest: "flow_ok (turns_of w s) (f\<lparr>wf_task := No_Task\<rparr>)" using flow flow_ok_rest by simp
  show ?thesis
  proof (cases "check_continuation p request reading clock w f s")
    case (Inl e)
    then show ?thesis
      using open_state w rejected_ok [OF control w(1) _ rest] by (simp add: continue_workflow_def)
  next
    case (Inr checked)
    obtain committed str bytes ok where checked: "checked = (committed, str, bytes, ok)" by (cases checked) auto
    note passed = Inr [unfolded checked check_continuation_Inr]
    obtain r rest' g where drawn: "create_challenge (answers, ac_generated s) = (r, rest', g)"
      by (cases "create_challenge (answers, ac_generated s)") auto
    then have g: "generated_ok g"
      using create_ok(1) controlled_generated [OF control] by (fastforce simp: create_challenge_def)
    have control1: "others_ok w (s\<lparr>ac_generated := g\<rparr>)" using others_ok_generated [OF control g] .
    have rejected: "agent_ok (snd (reject_workflow w f e (s\<lparr>ac_generated := g\<rparr>)))" for e
      using rejected_ok [OF control1] w(1) open_state(2) rest by simp
    have submitted: "agent_ok (snd (submit_round a w f1 prompt ((set_flow w f1 (s\<lparr>ac_generated := g\<rparr>))\<lparr>ac_phase := Round_Submitted\<rparr>)))"
      if "f1 = f\<lparr>wf_result_bytes := wf_result_bytes f + bytes, wf_round := Suc (wf_round f),
            wf_challenge := Some challenge, wf_pending := None\<rparr>" for prompt challenge f1
    proof (rule submit_round_ok)
      show "others_ok w ((set_flow w f1 (s\<lparr>ac_generated := g\<rparr>))\<lparr>ac_phase := Round_Submitted\<rparr>)"
        using control1 open_state(2) by (intro others_ok_phase) simp_all
      have "wf_result_bytes f + bytes \<le> MAX_AGGREGATE_TOOL_RESULT_BYTES"
        using passed assert_continuation_bytes by blast
      then show "submittable (turns_of w ((set_flow w f1 (s\<lparr>ac_generated := g\<rparr>))\<lparr>ac_phase := Round_Submitted\<rparr>)) f1"
        using rest passed active unfolding that by (simp add: submittable_def flow_ok_def)
    qed (use w that in simp_all)
    show ?thesis
      using open_state w Inr drawn rejected submitted
      by (auto simp: continue_workflow_def checked Let_def split: sum.split)
  qed
qed

lemma active_flow:
  "agent_ok s \<Longrightarrow> ac_active s = Some w \<Longrightarrow> \<exists>f. map_of (ac_flows s) w = Some f"
  unfolding agent_ok_def by auto

lemma cancel_active_ok:
  assumes "agent_ok s"
  shows "agent_ok (snd (cancel_active s))"
proof (cases "ac_active s")
  case None
  with assms show ?thesis by (simp add: cancel_active_def)
next
  case (Some w)
  then obtain f where f: "map_of (ac_flows s) w = Some f" using active_flow [OF assms] by blast
  note flow = agent_ok_flow [OF assms f]
  have "ac_phase s \<noteq> Closed" using agent_ok_active [OF assms Some f] by auto
  moreover have "others_ok w s" using take_control [OF assms] Some flow by blast
  ultimately show ?thesis
    using Some f flow
    by (intro give_back [of w _ "f\<lparr>wf_error := Some Turn_Cancelled\<rparr>"])
      (auto simp: cancel_active_def resting_phases_def at_rest_def intro!: others_ok_phase)
qed

lemma cancel_active_idle: "agent_ok s \<Longrightarrow> ac_active (snd (cancel_active s)) = None"
  using active_flow [of s] by (cases "ac_active s") (auto simp: cancel_active_def)

lemma close_coordinator_ok: "agent_ok s \<Longrightarrow> agent_ok (close_coordinator s)"
  using cancel_active_ok [of s] cancel_active_idle [of s]
  by (auto simp: close_coordinator_def agent_ok_def logs_ok_def turns_of_def resting_phases_def generated_ok_def)

lemma agent_step_ok: "agent_ok s \<Longrightarrow> agent_ok (snd (agent_step p e s))"
  by (cases e) (simp_all add: start_workflow_ok continue_workflow_ok activity_settled_ok on_delta_ok turn_ended_ok
      cancel_active_ok close_coordinator_ok)

lemma agent_reachable_ok: "agent_reachable p s \<Longrightarrow> agent_ok s"
  by (induction rule: agent_reachable.induct) (simp_all add: new_coordinator_ok agent_step_ok)

end
