(* ===== verification/Agent_Samples.thy ===== *)
theory Agent_Samples
  imports Agent_Facts Certified_Tool_Properties
begin

text \<open>A run of the coordinator on concrete answers: a start, a proposed call, its result.\<close>

section \<open>Answers\<close>

definition sample_digest :: jstr where
  "sample_digest = js ''0123456789abcdef0123456789abcdef0123456789A''"

definition sample_primitives :: agent_primitives where
  "sample_primitives = \<lparr>ap_number = decimal_number, ap_float = integer_ops, ap_sha256 = (\<lambda>_. sample_digest)\<rparr>"

definition sample_binding_value :: jval where
  "sample_binding_value = JObj
     [(js ''catalogRevision'', JStr (js ''r'')), (js ''conversationOwnershipId'', JStr (js ''o'')),
      (js ''documentGeneration'', JNum (NInt 1)), (js ''documentId'', JStr (js ''d'')),
      (js ''expiresAtMs'', JNum (NInt 50)), (js ''issuedAtMs'', JNum (NInt 10)),
      (js ''lastActivityAtMs'', JNum (NInt 20)), (js ''leaseId'', JStr (js ''l'')),
      (js ''modelId'', JStr (js ''m'')), (js ''providerRoute'', JStr (js ''p'')),
      (js ''sessionGeneration'', JNum (NInt 1)), (js ''sessionId'', JStr (js ''s'')), (js ''tabId'', JNum (NInt 7))]"

definition sample_parameters :: jval where
  "sample_parameters = JObj
     [(js ''type'', JStr (js ''object'')), (js ''additionalProperties'', JBool False), (js ''properties'', JObj [])]"

definition sample_tool :: certified_tool where
  "sample_tool =
     \<lparr>ct_classify = (\<lambda>_. Some (JBool True)), ct_description = JStr (js ''x''), ct_name = JStr (js ''t''),
      ct_parameters = sample_parameters, ct_strict = JUndef, ct_validate = (\<lambda>_. Some True)\<rparr>"

definition sample_child :: jval where
  "sample_child = JObj
     [(js ''requestBindingId'', JStr (js ''b'')), (js ''requestPrefix'', JNull), (js ''threadId'', JStr (js ''h'')),
      (js ''turnId'', JStr (js ''u''))]"

definition sample_request :: start_request where
  "sample_request =
     \<lparr>sr_browser = sample_binding_value, sr_child = sample_child,
      sr_manifest_digest = JStr (js ''sha256-'' @ sample_digest), sr_parallel_tool_calls = JBool False,
      sr_profile_version = JStr (js ''1''), sr_reasoning_effort = JStr (js ''e''), sr_temporary = JBool False,
      sr_tools = Some [Tool_Candidate sample_tool],
      sr_visible_request = JObj [(js ''messages'', JArr [JObj [(js ''content'', JArr [JStr (js ''hi'')]), (js ''role'', JStr (js ''user''))]])]\<rparr>"

text \<open>The limits are compared as integers when a sample is evaluated.\<close>

lemma agent_limits_evaluated [code_unfold]:
  "MAX_CANONICAL_MANIFEST_BYTES < n \<longleftrightarrow> (131072 :: int) < int n"
  "MAX_IDENTIFIER_CHARACTERS < n \<longleftrightarrow> (512 :: int) < int n"
  "MAX_RECENT_GENERATED_VALUES < n \<longleftrightarrow> (4096 :: int) < int n"
  "MAX_AGENT_DELTA_COUNT < n \<longleftrightarrow> (4096 :: int) < int n"
  "MAX_TURN_INPUT_TEXT_CHARACTERS < n \<longleftrightarrow> (65536 :: int) < int n"
  "MAX_TURN_DELTA_CHARACTERS < n \<longleftrightarrow> (16384 :: int) < int n"
  "MAX_AGGREGATE_TOOL_RESULT_BYTES < n \<longleftrightarrow> (524288 :: int) < int n"
  by (simp_all add: MAX_CANONICAL_MANIFEST_BYTES_def MAX_IDENTIFIER_CHARACTERS_def MAX_RECENT_GENERATED_VALUES_def
      MAX_AGENT_DELTA_COUNT_def MAX_TURN_INPUT_TEXT_CHARACTERS_def MAX_TURN_DELTA_CHARACTERS_def
      MAX_AGGREGATE_TOOL_RESULT_BYTES_def)

section \<open>The bound workflow\<close>

definition sample_browser :: browser_binding where
  "sample_browser = projr (freeze_browser_binding sample_binding_value)"

definition sample_binding_of_tool :: tool_binding where
  "sample_binding_of_tool =
     \<lparr>tb_classify = ct_classify sample_tool, tb_name = js ''t'', tb_parameters = canonical_form sample_parameters,
      tb_validate = ct_validate sample_tool\<rparr>"

definition sample_manifest_value :: jval where
  "sample_manifest_value =
     JObj [(js ''parallelToolCalls'', JBool False), (js ''profileVersion'', JStr (js ''1'')),
       (js ''tools'', JArr [JObj
         [(js ''description'', JStr (js ''x'')), (js ''name'', JStr (js ''t'')), (js ''parameters'', canonical_form sample_parameters),
          (js ''strict'', JBool True), (js ''type'', JStr (js ''function''))]])]"

definition sample_canonical :: jstr where
  "sample_canonical = canonical_text sample_manifest_value"

definition sample_manifest :: tool_manifest where
  "sample_manifest =
     \<lparr>tm_canonical = sample_canonical, tm_digest = js ''sha256-'' @ sample_digest,
      tm_tools = [(js ''t'', sample_binding_of_tool)]\<rparr>"

definition sample_visible :: jstr where
  "sample_visible = projr (canonicalize_visible_request (sr_visible_request sample_request))"

definition sample_child_binding :: child_binding where
  "sample_child_binding = projr (normalize_child_binding sample_primitives Unsupported_Tool_Profile sample_child)"

lemma projr_evaluated: "\<not> isl x \<Longrightarrow> x = Inr (projr x)"
  by (cases x) simp_all

lemma sample_parameters_cloned:
  "clone_canonical_json sample_primitives sample_parameters = Some (canonical_form sample_parameters)"
  by code_simp

lemma sample_parameters_certified:
  "is_certified_tool_parameters_schema integer_ops (canonical_form sample_parameters)"
proof -
  have form: "canonical_form sample_parameters =
      JObj [(js ''additionalProperties'', JBool False), (js ''properties'', JObj []), (js ''type'', JStr (js ''object''))]"
    by code_simp
  have "canonical_json (canonical_form sample_parameters)" by code_simp
  then show ?thesis
    by (simp add: is_certified_tool_parameters_schema_def form is_schema_node.simps schema_evaluation)
qed

lemma sample_manifest_text: "canonicalize_tool_workflow_json sample_manifest_value = Inr sample_canonical"
  "utf8_length sample_canonical < 500"
  by code_simp+

lemma sample_manifest:
  "create_manifest sample_primitives (js ''1'') [Tool_Candidate sample_tool] = Inr sample_manifest"
proof -
  have tool: "tool_name (js ''t'')" by code_simp
  have primitives: "ap_float sample_primitives = integer_ops" "digest_canonical sample_primitives s = js ''sha256-'' @ sample_digest" for s
    by (simp_all add: sample_primitives_def digest_canonical_def)
  have "manifest_tools sample_primitives [] [Tool_Candidate sample_tool] = Inr ([(js ''t'', sample_binding_of_tool)],
      [JObj [(js ''description'', JStr (js ''x'')), (js ''name'', JStr (js ''t'')), (js ''parameters'', canonical_form sample_parameters),
          (js ''strict'', JBool True), (js ''type'', JStr (js ''function''))]])"
    using sample_parameters_cloned sample_parameters_certified tool primitives(1)
    by (simp add: manifest_tool_def read_certified_tool_def sample_tool_def string_of_def sample_binding_of_tool_def Let_def del: canonical_form.simps)
  then show ?thesis
    using sample_manifest_text
    by (simp add: create_manifest_def MAX_CERTIFIED_TOOLS_def MAX_CANONICAL_MANIFEST_BYTES_def sample_manifest_value_def
        sample_manifest_def primitives del: canonical_form.simps)
qed

lemma sample_parts:
  "freeze_browser_binding sample_binding_value = Inr sample_browser"
  "canonicalize_visible_request (sr_visible_request sample_request) = Inr sample_visible"
  "normalize_child_binding sample_primitives Unsupported_Tool_Profile sample_child = Inr sample_child_binding"
  unfolding sample_browser_def sample_visible_def sample_child_binding_def
  by (rule projr_evaluated, code_simp)+

lemma sample_manifest_digest: "tm_digest sample_manifest = js ''sha256-'' @ sample_digest"
  by (simp add: sample_manifest_def)

lemma sample_clock: "read_agent_clock (Some (NInt 30)) = Inr 30"
  by (simp add: read_agent_clock_def safe_count_def count_of_def as_number_def)

lemma sample_lease: "assert_lease_current sample_browser 30 = Inr ()"
  unfolding sample_browser_def by code_simp

lemma sample_current: "assert_current_record sample_browser (Some sample_binding_value) = Inr ()"
  by (simp add: assert_current_record_def sample_parts(1) same_browser_binding_def)

definition sample_bound :: "browser_binding \<times> start_request \<times> tool_manifest \<times> jstr \<times> child_binding" where
  "sample_bound = (sample_browser, sample_request, sample_manifest, sample_visible, sample_child_binding)"

lemma sample_bound:
  "bind_request sample_primitives (Some sample_request) (Some (NInt 30)) (Some sample_binding_value) = Inr sample_bound"
proof -
  have fields: "sr_browser sample_request = sample_binding_value" "sr_child sample_request = sample_child"
      "sr_profile_version sample_request = JStr (js ''1'')" "sr_reasoning_effort sample_request = JStr (js ''e'')"
      "sr_temporary sample_request = JBool False" "sr_parallel_tool_calls sample_request = JBool False"
      "sr_tools sample_request = Some [Tool_Candidate sample_tool]"
      "sr_manifest_digest sample_request = JStr (js ''sha256-'' @ sample_digest)"
    by (simp_all add: sample_request_def)
  show ?thesis
    by (simp add: bind_request_def normalize_start_request_def fields sample_parts sample_manifest sample_clock sample_lease sample_current
        sample_manifest_digest sample_bound_def assert_bounded_identifier_def string_of_def MAX_IDENTIFIER_CHARACTERS_def
        MAX_PROFILE_VERSION_CHARACTERS_def)
qed

definition sample_alias :: jstr where "sample_alias = js ''wt_AAAAAAAAAAAAAAAAAAAAAAAA''"
definition sample_challenge :: jstr where "sample_challenge = js ''AAAAAAAAAAAAAAAAAAAAAAAAAAAAAAAA''"

definition sample_entropy :: entropy where
  "sample_entropy = [Some (replicate 18 0), Some (replicate 24 0)]"

lemma sample_drawn:
  "create_identifier Turn_Alias (sample_entropy, []) = (Inr sample_alias, [Some (replicate 24 0)], [sample_alias])"
  "create_challenge ([Some (replicate 24 0)], [sample_alias]) = (Inr sample_challenge, [], [sample_alias, sample_challenge])"
  by code_simp+

definition sample_flow :: workflow where
  "sample_flow = new_workflow sample_bound sample_alias sample_challenge"

section \<open>The first prompt\<close>

lemma sample_flow_fields:
  "wf_browser sample_flow = sample_browser" "wf_challenge sample_flow = Some sample_challenge"
  "wf_manifest_digest sample_flow = js ''sha256-'' @ sample_digest" "wf_round sample_flow = 0"
  "wf_alias sample_flow = sample_alias" "wf_manifest_canonical sample_flow = sample_canonical"
  "wf_visible sample_flow = sample_visible" "wf_pending sample_flow = None" "wf_error sample_flow = None"
  "wf_calls sample_flow = 0" "wf_tools sample_flow = [(js ''t'', sample_binding_of_tool)]" "wf_result_bytes sample_flow = 0"
  "wf_child sample_flow = sample_child_binding"
  by (simp_all add: sample_flow_def new_workflow_def sample_bound_def sample_manifest_def)

lemma length_join_lines: "length (join_lines ss) \<le> sum_list (map (\<lambda>s. Suc (length s)) ss)"
  by (induction ss rule: join_lines.induct) auto

lemma utf8_length_bound: "utf8_length s \<le> 3 * length s"
proof (induction s rule: utf8_length.induct)
  case (2 c s)
  show ?case unfolding utf8_length.simps(2)
    using 2 by (cases s) (auto simp del: utf8_length.simps(2))
qed simp

definition short_label :: "(agent_error, jstr) result \<Rightarrow> bool" where
  "short_label r = (case r of Inl _ \<Rightarrow> False | Inr s \<Rightarrow> length s < 500)"

lemma short_labelD: "short_label r \<Longrightarrow> \<exists>s. r = Inr s \<and> length s < 500"
  by (auto simp: short_label_def split: sum.splits)

definition sample_public :: data_record where
  "sample_public =
     [(js ''challenge'', JStr sample_challenge), (js ''manifestDigest'', JStr (js ''sha256-'' @ sample_digest)),
      (js ''round'', JNum (NInt 0)), (js ''turn'', JStr sample_alias), (js ''v'', JNum (NInt 2))]"

lemma sample_labels:
  "short_label (labelled_json ''PUBLIC_BINDING'' (JObj sample_public))"
  "short_label (labelled_json ''TOOL_CALL_SHAPE''
     (JObj (sample_public @ [(js ''arguments'', JObj []), (js ''kind'', JStr (js ''tool_call'')), (js ''tool'', JStr (js ''TOOL_NAME''))])))"
  "short_label (labelled_json ''FINAL_SHAPE''
     (JObj (sample_public @ [(js ''kind'', JStr (js ''final'')), (js ''text'', JStr (js ''FINAL_TEXT''))])))"
  by code_simp+

lemma sample_texts_short: "length sample_canonical < 500" "length sample_visible < 500"
  by code_simp+

lemma sample_prompt: "\<exists>prompt. build_initial_prompt sample_flow = Inr prompt \<and> prompt_ok prompt"
proof -
  obtain public call final where labels:
      "labelled_json ''PUBLIC_BINDING'' (JObj sample_public) = Inr public"
      "labelled_json ''TOOL_CALL_SHAPE''
        (JObj (sample_public @ [(js ''arguments'', JObj []), (js ''kind'', JStr (js ''tool_call'')), (js ''tool'', JStr (js ''TOOL_NAME''))])) = Inr call"
      "labelled_json ''FINAL_SHAPE''
        (JObj (sample_public @ [(js ''kind'', JStr (js ''final'')), (js ''text'', JStr (js ''FINAL_TEXT''))])) = Inr final"
    and short: "length public < 500" "length call < 500" "length final < 500"
    using sample_labels [THEN short_labelD] by blast
  let ?lines = "map js prompt_rules @ [public, call, final, js ''TOOL_MANIFEST'' @ 32 # sample_canonical, js ''REQUEST'' @ 32 # sample_visible]"
  have prompt: "build_initial_prompt sample_flow = Inr (join_lines ?lines)"
    using labels by (simp add: build_initial_prompt_def Let_def sample_flow_fields sample_public_def)
  have "length (join_lines ?lines) \<le> 10000"
    by (rule order_trans [OF length_join_lines]) (use short sample_texts_short in \<open>simp add: prompt_rules_def\<close>)
  moreover have "join_lines ?lines \<noteq> []" by (simp add: prompt_rules_def)
  ultimately have "prompt_ok (join_lines ?lines)"
    using utf8_length_bound [of "join_lines ?lines"]
    by (simp add: prompt_ok_def MAX_TURN_INPUT_TEXT_CHARACTERS_def MAX_TOOL_WORKFLOW_ENVELOPE_BYTES_def)
  with prompt show ?thesis by blast
qed

section \<open>A run\<close>

definition sample_answers :: round_answers where
  "sample_answers =
     \<lparr>ra_lease_clock = Some (NInt 30), ra_activity = Activity_Value sample_binding_value,
      ra_accept_clock = Some (NInt 30), ra_start = Start_Handle\<rparr>"

lemma sample_renewed: "accept_renewed_binding sample_browser sample_binding_value (Some (NInt 30)) = Inr sample_browser"
  by (simp add: accept_renewed_binding_def sample_parts(1) same_stable_browser_binding_def sample_clock sample_lease)

text \<open>A round of a workflow in the sample browser is submitted.\<close>

lemma sample_submitted:
  assumes "wf_browser f = sample_browser" "wf_error f = None" "ac_active s = Some w" "wf_challenge f \<noteq> None" "wf_pending f = None"
    and "prompt_ok prompt"
  shows "submit_round sample_answers w f prompt s =
    (Waiting, set_flow w (f\<lparr>wf_handle := True, wf_task := Streaming [] 0 0 None\<rparr>)
      (s\<lparr>ac_phase := Awaiting_Envelope, ac_turns := ac_turns s @ [(w, wf_browser f, turn_request_of f prompt)]\<rparr>))"
proof -
  note browser = sample_lease [folded assms(1)] sample_renewed [folded assms(1)]
  show ?thesis
    using assms(2-6) browser
    by (auto simp: submit_round_def assert_workflow_live_def assert_visible_prompt_limit_def prompt_ok_def sample_answers_def
        sample_clock start_bound_turn_def Let_def reject_if_def)
qed

definition sample_start :: agent_event where
  "sample_start = Start_Workflow (Some sample_request) (Some (NInt 30)) (Some sample_binding_value) sample_entropy sample_answers"

definition sample_streaming :: coordinator where
  "sample_streaming = snd (agent_step sample_primitives sample_start new_coordinator)"

lemma sample_streaming:
  "map_of (ac_flows sample_streaming) 0 = Some (sample_flow\<lparr>wf_handle := True, wf_task := Streaming [] 0 0 None\<rparr>)"
  "ac_active sample_streaming = Some 0" "\<not> ac_closed sample_streaming"
  "ac_generated sample_streaming = [sample_alias, sample_challenge]"
proof -
  obtain prompt where prompt: "build_initial_prompt sample_flow = Inr prompt" "prompt_ok prompt" using sample_prompt by blast
  have flow: "new_workflow sample_bound sample_alias sample_challenge = sample_flow" by (simp add: sample_flow_def)
  let ?s = "(set_flow 0 sample_flow new_coordinator)\<lparr>ac_generated := [sample_alias, sample_challenge], ac_next := Suc 0,
      ac_active := Some 0, ac_phase := Round_Submitted, ac_terminal := None\<rparr>"
  have "sample_streaming = snd (submit_round sample_answers 0 sample_flow prompt ?s)"
    by (simp add: sample_streaming_def sample_start_def start_workflow_def new_coordinator_def sample_bound sample_drawn flow
        prompt(1) Let_def)
  then have result: "sample_streaming = set_flow 0 (sample_flow\<lparr>wf_handle := True, wf_task := Streaming [] 0 0 None\<rparr>)
      (?s\<lparr>ac_phase := Awaiting_Envelope, ac_turns := ac_turns ?s @ [(0, wf_browser sample_flow, turn_request_of sample_flow prompt)]\<rparr>)"
    using sample_submitted [of sample_flow ?s 0 prompt] prompt(2) sample_flow_fields by simp
  show "map_of (ac_flows sample_streaming) 0 = Some (sample_flow\<lparr>wf_handle := True, wf_task := Streaming [] 0 0 None\<rparr>)"
    "ac_active sample_streaming = Some 0" "\<not> ac_closed sample_streaming"
    "ac_generated sample_streaming = [sample_alias, sample_challenge]"
    unfolding result by (simp_all add: new_coordinator_def)
qed

text \<open>The browser proposes a call of the tool.\<close>

definition sample_proposal :: assistant_envelope where
  "sample_proposal = Tool_Call_Envelope sample_alias sample_challenge (js ''sha256-'' @ sample_digest) 0 (js ''t'') []"

definition sample_reply :: jstr where
  "sample_reply = envelope_prefix @ canonical_text (envelope_value sample_proposal) @ envelope_suffix"

lemma sample_reply_parsed:
  "parse_tool_workflow_assistant_envelope decimal_number sample_reply = Inr sample_proposal"
  by code_simp

definition sample_delta :: jval where
  "sample_delta = JObj [(js ''channel'', JStr (js ''outputText'')), (js ''delta'', JStr sample_reply)]"

lemma sample_delta: "\<exists>n. sink_delta sample_delta ([], 0, 0) = (Inr (), [sample_reply], 1, n)"
proof -
  have "fst (sink_delta sample_delta ([], 0, 0)) = Inr () \<and> fst (snd (sink_delta sample_delta ([], 0, 0))) = [sample_reply]
      \<and> fst (snd (snd (sink_delta sample_delta ([], 0, 0)))) = 1"
    by code_simp
  then show ?thesis by (metis prod.collapse)
qed

lemma sample_browser_current: "wf_browser f = sample_browser \<Longrightarrow>
    assert_current_browser_binding f (Some sample_binding_value) (Some (NInt 30)) = Inr ()"
  by (simp add: assert_current_browser_binding_def sample_current sample_clock sample_lease)

definition sample_replied :: coordinator where
  "sample_replied =
     snd (agent_step sample_primitives (Delta_Received 0 sample_delta (Some sample_binding_value) (Some (NInt 30))) sample_streaming)"

lemma sample_replied:
  "\<exists>n. map_of (ac_flows sample_replied) 0 = Some (sample_flow\<lparr>wf_handle := True, wf_task := Streaming [sample_reply] 1 n None\<rparr>)"
  "ac_active sample_replied = Some 0" "\<not> ac_closed sample_replied"
  "ac_generated sample_replied = [sample_alias, sample_challenge]"
proof -
  let ?f = "sample_flow\<lparr>wf_handle := True, wf_task := Streaming [] 0 0 None\<rparr>"
  obtain n where n: "sink_delta sample_delta ([], 0, 0) = (Inr (), [sample_reply], 1, n)" using sample_delta by blast
  have result: "sample_replied = set_flow 0 (?f\<lparr>wf_task := Streaming [sample_reply] 1 n None\<rparr>) sample_streaming"
    using n sample_streaming sample_browser_current [of ?f] sample_flow_fields
    by (simp add: sample_replied_def on_delta_def assert_workflow_live_def)
  show "\<exists>n. map_of (ac_flows sample_replied) 0 = Some (sample_flow\<lparr>wf_handle := True, wf_task := Streaming [sample_reply] 1 n None\<rparr>)"
    "ac_active sample_replied = Some 0" "\<not> ac_closed sample_replied"
    "ac_generated sample_replied = [sample_alias, sample_challenge]"
    using sample_streaming by (auto simp: result)
qed

text \<open>The turn ends and the call is committed.\<close>

definition sample_identifiers :: entropy where
  "sample_identifiers = [Some (replicate 18 1), Some (replicate 18 2), Some (replicate 18 3)]"

definition sample_commit :: tool_call_commit where
  "sample_commit =
     \<lparr>tc_arguments = [], tc_arguments_digest = js ''sha256-'' @ sample_digest, tc_arguments_json = js ''{}'',
      tc_call_id = js ''call_'' @ base64url (replicate 18 1), tc_call_ref = js ''wc_'' @ base64url (replicate 18 2),
      tc_item_id = js ''fc_'' @ base64url (replicate 18 3), tc_manifest_digest = js ''sha256-'' @ sample_digest,
      tc_round = 0, tc_tool = js ''t'', tc_alias = sample_alias\<rparr>"

lemma sample_identifiers:
  "\<exists>rest g. create_call_identifiers (sample_identifiers, [sample_alias, sample_challenge])
     = (Inr (tc_call_id sample_commit, tc_call_ref sample_commit, tc_item_id sample_commit), rest, g)
     \<and> g = [sample_alias, sample_challenge, tc_call_id sample_commit, tc_call_ref sample_commit, tc_item_id sample_commit]"
proof -
  have "create_call_identifiers (sample_identifiers, [sample_alias, sample_challenge])
     = (Inr (tc_call_id sample_commit, tc_call_ref sample_commit, tc_item_id sample_commit), [],
        [sample_alias, sample_challenge, tc_call_id sample_commit, tc_call_ref sample_commit, tc_item_id sample_commit])"
    by code_simp
  then show ?thesis by blast
qed

lemma sample_arguments_valid: "validate_tool_arguments sample_primitives sample_binding_of_tool []"
proof -
  have form: "canonical_form sample_parameters =
      JObj [(js ''additionalProperties'', JBool False), (js ''properties'', JObj []), (js ''type'', JStr (js ''object''))]"
    by code_simp
  have "canonical_json (JObj [])" by code_simp
  with sample_parameters_certified show ?thesis
    by (simp add: validate_tool_arguments_def matches_certified_tool_arguments_def sample_binding_of_tool_def form
        sample_primitives_def sample_tool_def matches_schema_node.simps schema_evaluation)
qed

definition sample_turn_ended :: agent_event where
  "sample_turn_ended = Turn_Ended 0 (Ending_Completed Stop) (Some sample_binding_value) (Some (NInt 30)) sample_identifiers"

definition sample_called :: coordinator where
  "sample_called = snd (agent_step sample_primitives sample_turn_ended sample_replied)"

lemma sample_committed:
  "agent_step sample_primitives sample_turn_ended sample_replied = (Resolved (Call_Commit sample_commit), sample_called)"
  and sample_called:
  "\<exists>f. map_of (ac_flows sample_called) 0 = Some f \<and> wf_browser f = sample_browser \<and> wf_pending f = Some sample_commit
     \<and> wf_error f = None \<and> wf_round f = 0 \<and> wf_result_bytes f = 0 \<and> wf_alias f = sample_alias
     \<and> wf_manifest_digest f = js ''sha256-'' @ sample_digest \<and> wf_manifest_canonical f = sample_canonical
     \<and> wf_child f = sample_child_binding \<and> wf_tools f = [(js ''t'', sample_binding_of_tool)]"
  "ac_active sample_called = Some 0 \<and> \<not> ac_closed sample_called \<and> ac_phase sample_called = Awaiting_Continuation"
  "ac_generated sample_called =
     [sample_alias, sample_challenge, tc_call_id sample_commit, tc_call_ref sample_commit, tc_item_id sample_commit]"
proof -
  obtain n where f: "map_of (ac_flows sample_replied) 0 = Some (sample_flow\<lparr>wf_handle := True, wf_task := Streaming [sample_reply] 1 n None\<rparr>)"
    using sample_replied(1) by blast
  obtain rest where ids: "create_call_identifiers (sample_identifiers, [sample_alias, sample_challenge])
     = (Inr (tc_call_id sample_commit, tc_call_ref sample_commit, tc_item_id sample_commit), rest,
        [sample_alias, sample_challenge, tc_call_id sample_commit, tc_call_ref sample_commit, tc_item_id sample_commit])"
    using sample_identifiers by blast
  let ?f0 = "sample_flow\<lparr>wf_handle := True, wf_task := Streaming [sample_reply] 1 n None\<rparr>"
  let ?f1 = "?f0\<lparr>wf_handle := False\<rparr>"
  have live: "turn_result (Ending_Completed Stop) (Some sample_binding_value) (Some (NInt 30)) 0 ?f1 None sample_replied = Inr ()"
    unfolding turn_result_def using sample_replied sample_browser_current [of ?f1] sample_flow_fields
    by (simp add: assert_workflow_live_def)
  have read: "read_round_envelope sample_primitives ?f1 [sample_reply] = Inr sample_proposal"
    using sample_reply_parsed sample_flow_fields
    by (simp add: read_round_envelope_def sample_primitives_def sample_proposal_def)
  have empty: "canonicalize_tool_workflow_json (JObj []) = Inr (js ''{}'')" by code_simp
  let ?f2 = "?f1\<lparr>wf_challenge := None\<rparr>"
  have proposed: "read_proposed_call sample_primitives ?f2 (js ''t'') [] = Inr (sample_binding_of_tool, js ''{}'')"
    using sample_flow_fields sample_arguments_valid empty
    by (simp add: read_proposed_call_def MAX_TOOL_WORKFLOW_TOOL_CALLS_def)
  have digest: "digest_canonical sample_primitives s = js ''sha256-'' @ sample_digest" for s
    by (simp add: sample_primitives_def digest_canonical_def)
  have commit: "\<lparr>tc_arguments = [], tc_arguments_digest = digest_canonical sample_primitives (js ''{}''),
       tc_arguments_json = js ''{}'', tc_call_id = tc_call_id sample_commit, tc_call_ref = tc_call_ref sample_commit,
       tc_item_id = tc_item_id sample_commit, tc_manifest_digest = wf_manifest_digest ?f2, tc_round = wf_round ?f2,
       tc_tool = tb_name sample_binding_of_tool, tc_alias = wf_alias ?f2\<rparr> = sample_commit"
    by (simp add: sample_commit_def digest sample_flow_fields sample_binding_of_tool_def)
  let ?f3 = "?f2\<lparr>wf_calls := Suc (wf_calls ?f2), wf_pending := Some sample_commit, wf_task := No_Task\<rparr>"
  have result: "agent_step sample_primitives sample_turn_ended sample_replied =
      (Resolved (Call_Commit sample_commit),
       (set_flow 0 ?f3 (sample_replied\<lparr>ac_generated := [sample_alias, sample_challenge, tc_call_id sample_commit,
          tc_call_ref sample_commit, tc_item_id sample_commit]\<rparr>))\<lparr>ac_phase := Awaiting_Continuation\<rparr>)"
    using f live read proposed ids commit sample_replied(4)
    by (simp add: sample_turn_ended_def turn_ended_def Let_def sample_proposal_def commit_call_def)
  show "agent_step sample_primitives sample_turn_ended sample_replied = (Resolved (Call_Commit sample_commit), sample_called)"
    by (simp add: sample_called_def result)
  show "\<exists>f. map_of (ac_flows sample_called) 0 = Some f \<and> wf_browser f = sample_browser \<and> wf_pending f = Some sample_commit
     \<and> wf_error f = None \<and> wf_round f = 0 \<and> wf_result_bytes f = 0 \<and> wf_alias f = sample_alias
     \<and> wf_manifest_digest f = js ''sha256-'' @ sample_digest \<and> wf_manifest_canonical f = sample_canonical
     \<and> wf_child f = sample_child_binding \<and> wf_tools f = [(js ''t'', sample_binding_of_tool)]"
    "ac_active sample_called = Some 0 \<and> \<not> ac_closed sample_called \<and> ac_phase sample_called = Awaiting_Continuation"
    "ac_generated sample_called =
     [sample_alias, sample_challenge, tc_call_id sample_commit, tc_call_ref sample_commit, tc_item_id sample_commit]"
    using sample_replied(2,3) by (simp_all add: sample_called_def result sample_flow_fields)
qed

lemma sample_run_reachable:
  "agent_reachable sample_primitives sample_streaming" "agent_reachable sample_primitives sample_replied"
  "agent_reachable sample_primitives sample_called"
proof -
  show started: "agent_reachable sample_primitives sample_streaming"
    unfolding sample_streaming_def by (rule agent_next [OF agent_start])
  show replied: "agent_reachable sample_primitives sample_replied"
    unfolding sample_replied_def by (rule agent_next [OF started])
  show "agent_reachable sample_primitives sample_called"
    unfolding sample_called_def by (rule agent_next [OF replied])
qed

text \<open>The child answers the call.\<close>

definition sample_continuation :: jval where
  "sample_continuation = JObj
     [(js ''child'', sample_child),
      (js ''items'', JArr
        [JObj [(js ''argumentsJson'', JStr (tc_arguments_json sample_commit)), (js ''callId'', JStr (tc_call_id sample_commit)),
           (js ''itemId'', JStr (tc_item_id sample_commit)), (js ''name'', JStr (js ''t'')), (js ''type'', JStr (js ''function_call''))],
         JObj [(js ''callId'', JStr (tc_call_id sample_commit)), (js ''output'', JStr (js ''ok'')),
           (js ''type'', JStr (js ''function_call_output''))]]),
      (js ''manifest'', sample_manifest_value)]"

lemma sample_child_again:
  "normalize_child_binding sample_primitives Child_Continuation_Mismatch sample_child = Inr sample_child_binding"
  unfolding sample_child_binding_def by code_simp

definition sample_next_challenge :: jstr where
  "sample_next_challenge = base64url (replicate 24 9)"

lemma sample_next_challenge:
  "\<exists>g. create_challenge ([Some (replicate 24 9)],
     [sample_alias, sample_challenge, tc_call_id sample_commit, tc_call_ref sample_commit, tc_item_id sample_commit])
     = (Inr sample_next_challenge, [], g)"
proof -
  have "fst (create_challenge ([Some (replicate 24 9)],
     [sample_alias, sample_challenge, tc_call_id sample_commit, tc_call_ref sample_commit, tc_item_id sample_commit]))
     = Inr sample_next_challenge
    \<and> fst (snd (create_challenge ([Some (replicate 24 9)],
     [sample_alias, sample_challenge, tc_call_id sample_commit, tc_call_ref sample_commit, tc_item_id sample_commit]))) = []"
    by code_simp
  then show ?thesis by (metis prod.collapse)
qed

definition sample_result_envelope :: result_envelope where
  "sample_result_envelope =
     \<lparr>re_turn = sample_alias, re_round = 1, re_challenge = sample_next_challenge,
      re_manifest_digest = js ''sha256-'' @ sample_digest, re_call_ref = tc_call_ref sample_commit, re_tool = js ''t'',
      re_ok = True, re_output = js ''ok''\<rparr>"

lemma sample_result_serialized:
  "\<exists>prompt. serialize_tool_workflow_result_envelope sample_result_envelope = Inr prompt \<and> prompt_ok prompt"
proof -
  have "case serialize_tool_workflow_result_envelope sample_result_envelope of
      Inl _ \<Rightarrow> False | Inr s \<Rightarrow> s \<noteq> [] \<and> length s < 500"
    by code_simp
  then obtain s where s: "serialize_tool_workflow_result_envelope sample_result_envelope = Inr s" "s \<noteq> []" "length s < 500"
    by (auto split: sum.splits)
  with utf8_length_bound [of s] have "prompt_ok s"
    by (simp add: prompt_ok_def MAX_TURN_INPUT_TEXT_CHARACTERS_def MAX_TOOL_WORKFLOW_ENVELOPE_BYTES_def)
  with s show ?thesis by blast
qed

definition sample_continue :: agent_event where
  "sample_continue = Continue_Workflow sample_continuation (Some sample_binding_value) (Some (NInt 30)) [Some (replicate 24 9)] sample_answers"

lemma sample_checked:
  assumes "wf_browser f = sample_browser" "wf_pending f = Some sample_commit" "wf_error f = None" "wf_round f = 0"
    "wf_result_bytes f = 0" "wf_manifest_digest f = js ''sha256-'' @ sample_digest" "wf_manifest_canonical f = sample_canonical"
    "wf_child f = sample_child_binding" "wf_tools f = [(js ''t'', sample_binding_of_tool)]" "ac_active s = Some w"
  shows "check_continuation sample_primitives sample_continuation (Some sample_binding_value) (Some (NInt 30)) w f s
    = Inr (sample_commit, js ''ok'', 2, True)"
proof -
  have tool: "tc_tool sample_commit = js ''t''" by (simp add: sample_commit_def)
  have bytes: "utf8_length (js ''ok'') = 2" by code_simp
  have digest: "digest_canonical sample_primitives str = js ''sha256-'' @ sample_digest" for str
    by (simp add: sample_primitives_def digest_canonical_def)
  have classify: "classify_tool_result sample_binding_of_tool str = Inr True" for str
    by (simp add: classify_tool_result_def sample_binding_of_tool_def sample_tool_def)
  show ?thesis
    by (simp add: check_continuation_def assert_workflow_live_def assms sample_browser_current normalize_continuation_request_def
        sample_continuation_def read_keyed_record_def only_keys_def read_exact_array_def assert_continuation_def field_def
        assert_exact_child_binding_def sample_child_again sample_manifest_text read_function_call_item_def
        read_function_call_output_item_def Let_def string_of_def tool bytes digest classify MAX_TOOL_WORKFLOW_RESULT_BYTES_def
        MAX_AGGREGATE_TOOL_RESULT_BYTES_def MAX_TOOL_WORKFLOW_ROUNDS_def MAX_TOOL_WORKFLOW_TOOL_CALLS_def)
qed

lemma sample_continued: "fst (agent_step sample_primitives sample_continue sample_called) = Waiting"
proof -
  obtain f where f: "map_of (ac_flows sample_called) 0 = Some f" "wf_browser f = sample_browser" "wf_pending f = Some sample_commit"
     "wf_error f = None" "wf_round f = 0" "wf_result_bytes f = 0" "wf_alias f = sample_alias"
     "wf_manifest_digest f = js ''sha256-'' @ sample_digest" "wf_manifest_canonical f = sample_canonical"
     "wf_child f = sample_child_binding" "wf_tools f = [(js ''t'', sample_binding_of_tool)]"
    using sample_called(1) by blast
  obtain g where g: "create_challenge ([Some (replicate 24 9)],
     [sample_alias, sample_challenge, tc_call_id sample_commit, tc_call_ref sample_commit, tc_item_id sample_commit])
     = (Inr sample_next_challenge, [], g)" using sample_next_challenge by blast
  obtain prompt where prompt: "serialize_tool_workflow_result_envelope sample_result_envelope = Inr prompt" "prompt_ok prompt"
    using sample_result_serialized by blast
  have envelope: "continuation_result f sample_commit (js ''ok'') True sample_next_challenge = sample_result_envelope"
    by (simp add: continuation_result_def sample_result_envelope_def f sample_commit_def)
  note checked = sample_checked [OF f(2-6) f(8-11), of sample_called 0]
  let ?f1 = "f\<lparr>wf_result_bytes := wf_result_bytes f + 2, wf_round := Suc (wf_round f),
      wf_challenge := Some sample_next_challenge, wf_pending := None\<rparr>"
  let ?s1 = "(set_flow 0 ?f1 (sample_called\<lparr>ac_generated := g\<rparr>))\<lparr>ac_phase := Round_Submitted\<rparr>"
  have "agent_step sample_primitives sample_continue sample_called = submit_round sample_answers 0 ?f1 prompt ?s1"
    using sample_called(2,3) f(1) checked g prompt(1)
    by (simp add: sample_continue_def continue_workflow_def Let_def envelope)
  with sample_submitted [of ?f1 ?s1 0 prompt] f prompt(2) sample_called(2) show ?thesis by simp
qed

end
