(* ===== verification/Agent_Properties.thy ===== *)
theory Agent_Properties
  imports Agent_Samples
begin

text \<open>
  What the agent session coordinator guarantees: consistent phases, bounded workflows, exact commits and
  continuations, final failures, and that it implements a protocol of alternating proposals and results.
\<close>

section \<open>Phases and budgets\<close>

lemma active_phases:
  assumes "agent_ok s"
  shows "ac_active s \<noteq> None \<longleftrightarrow> ac_phase s \<in> {Round_Submitted, Awaiting_Envelope, Awaiting_Continuation}"
proof (cases "ac_active s")
  case None
  with assms show ?thesis by (auto simp: agent_ok_def resting_phases_def)
next
  case (Some w)
  then obtain f where "map_of (ac_flows s) w = Some f" using active_flow [OF assms] by blast
  from agent_ok_active [OF assms Some this] Some show ?thesis by (cases "ac_phase s") auto
qed

text \<open>
  C24. The published state of a coordinator is consistent in every reachable state: a workflow is active
  exactly in the three phases of a round, a call is pending exactly while a continuation is awaited,
  and the pending commit is of the current round, alias and manifest; the phase is closed exactly
  after the coordinator was closed.
\<close>

theorem agent_state_consistent:
  assumes "agent_reachable p s"
  shows "(as_workflow_active (coordinator_state s) \<longleftrightarrow>
      as_phase (coordinator_state s) \<in> {Round_Submitted, Awaiting_Envelope, Awaiting_Continuation})
    \<and> (as_pending_call (coordinator_state s) \<longleftrightarrow> as_phase (coordinator_state s) = Awaiting_Continuation)
    \<and> (as_phase (coordinator_state s) = Closed \<longleftrightarrow> ac_closed s)
    \<and> (\<forall>w f c. ac_active s = Some w \<and> map_of (ac_flows s) w = Some f \<and> wf_pending f = Some c \<longrightarrow> commit_of f c)"
proof -
  have ok: "agent_ok s" using agent_reachable_ok [OF assms] .
  then have closed: "ac_phase s = Closed \<longleftrightarrow> ac_closed s" by (auto simp: agent_ok_def logs_ok_def)
  show ?thesis
  proof (cases "ac_active s")
    case None
    with active_phases [OF ok] closed show ?thesis by (simp add: coordinator_state_def Let_def)
  next
    case (Some w)
    then obtain f where f: "map_of (ac_flows s) w = Some f" using active_flow [OF ok] by blast
    from agent_ok_active [OF ok Some f] have "active_ok (ac_phase s) f" by blast
    with Some f closed active_phases [OF ok] show ?thesis
      by (cases "ac_phase s") (auto simp: coordinator_state_def Let_def)
  qed
qed

section \<open>The results a workflow was given\<close>

text \<open>
  A run of a coordinator with the tool results it was given, oldest first: a continuation gives the
  active workflow the output of its second item when the workflow goes into another round. Every
  reachable state has such a run.
\<close>

definition continuation_output :: "jval \<Rightarrow> jstr" where
  "continuation_output request =
     (case normalize_continuation_request request of
        Inl _ \<Rightarrow> []
      | Inr (child, call_item, output_item, manifest) \<Rightarrow>
          (case read_function_call_output_item output_item of
             None \<Rightarrow> []
           | Some r \<Rightarrow> string_of (field r ''output'')))"

definition round_of :: "nat \<Rightarrow> coordinator \<Rightarrow> nat option" where
  "round_of w s = map_option wf_round (map_of (ac_flows s) w)"

fun given_results :: "agent_event \<Rightarrow> coordinator \<Rightarrow> coordinator \<Rightarrow> (nat \<times> jstr) list" where
  "given_results (Continue_Workflow request reading clock answers a) s s' =
     (case ac_active s of
        None \<Rightarrow> []
      | Some w \<Rightarrow> if round_of w s' \<noteq> round_of w s then [(w, continuation_output request)] else [])"
| "given_results _ s s' = []"

inductive agent_run :: "agent_primitives \<Rightarrow> coordinator \<Rightarrow> (nat \<times> jstr) list \<Rightarrow> bool" for p where
  run_start: "agent_run p new_coordinator []"
| run_next: "agent_run p s log \<Longrightarrow>
    agent_run p (snd (agent_step p e s)) (log @ given_results e s (snd (agent_step p e s)))"

lemma agent_run_reachable: "agent_reachable p s \<longleftrightarrow> (\<exists>log. agent_run p s log)"
proof
  assume "agent_reachable p s"
  then show "\<exists>log. agent_run p s log"
    by (induction rule: agent_reachable.induct) (auto intro: agent_run.intros)
next
  assume "\<exists>log. agent_run p s log"
  then obtain log where "agent_run p s log" ..
  then show "agent_reachable p s" by (induction rule: agent_run.induct) (auto intro: agent_reachable.intros)
qed

definition results_of :: "nat \<Rightarrow> (nat \<times> jstr) list \<Rightarrow> jstr list" where
  "results_of w log = map snd (filter (\<lambda>x. fst x = w) log)"

lemma results_of_simps [simp]:
  "results_of w [] = []" "results_of w (log @ log') = results_of w log @ results_of w log'"
  "results_of w [(w', r)] = (if w' = w then [r] else [])"
  by (simp_all add: results_of_def)

text \<open>The round of a workflow and the bytes it accounts for, and what each operation does to them.\<close>

definition account :: "nat \<Rightarrow> coordinator \<Rightarrow> (nat \<times> nat) option" where
  "account w s = map_option (\<lambda>f. (wf_round f, wf_result_bytes f)) (map_of (ac_flows s) w)"

lemma account_simps [simp]:
  "account w (set_flow w' f s) = (if w = w' then Some (wf_round f, wf_result_bytes f) else account w s)"
  "account w (s\<lparr>ac_next := n\<rparr>) = account w s" "account w (s\<lparr>ac_active := x\<rparr>) = account w s"
  "account w (s\<lparr>ac_closed := c\<rparr>) = account w s" "account w (s\<lparr>ac_phase := ph\<rparr>) = account w s"
  "account w (s\<lparr>ac_terminal := y\<rparr>) = account w s" "account w (s\<lparr>ac_generated := g\<rparr>) = account w s"
  "account w (s\<lparr>ac_turns := t\<rparr>) = account w s" "account w (s\<lparr>ac_cancels := z\<rparr>) = account w s"
  by (simp_all add: account_def)

lemma account_flow: "map_of (ac_flows s) w = Some f \<Longrightarrow> account w s = Some (wf_round f, wf_result_bytes f)"
  by (simp add: account_def)

lemma account_rejected [simp]:
  "account w (snd (reject_workflow w' f e s)) = (if w = w' then Some (wf_round f, wf_result_bytes f) else account w s)"
  by (simp add: reject_workflow_def fail_workflow_def Let_def)

lemma account_started [simp]:
  "account w (snd (start_bound_turn answer w' f prompt s)) = (if w = w' then Some (wf_round f, wf_result_bytes f) else account w s)"
  by (simp add: start_bound_turn_def Let_def split: start_answer.split)

lemma account_submitted [simp]:
  "account w (snd (submit_round a w' f prompt s)) = (if w = w' then Some (wf_round f, wf_result_bytes f) else account w s)"
  by (auto simp: submit_round_def split: sum.split activity_answer.split)

lemma account_settled: "account w (snd (activity_settled settled clock answer w' s)) = account w s"
  by (auto simp: activity_settled_def account_flow split: option.split agent_task.split sum.split)

lemma account_delta: "account w (snd (on_delta v reading clock w' s)) = account w s"
proof (cases "map_of (ac_flows s) w'")
  case (Some f)
  then show ?thesis
    by (simp add: on_delta_def account_flow [OF Some] split: agent_task.split sum.split prod.split)
qed (simp add: on_delta_def)

lemma account_ended: "account w (snd (turn_ended p ending reading clock answers w' s)) = account w s"
proof (cases "map_of (ac_flows s) w'")
  case (Some f)
  have "account w (snd (commit_call p answers w' g name args s)) = account w s"
    if "wf_round g = wf_round f" "wf_result_bytes g = wf_result_bytes f" for g name args
    using that Some
    by (auto simp: commit_call_def Let_def account_flow split: sum.split prod.split)
  with Some show ?thesis
    by (auto simp: turn_ended_def Let_def complete_workflow_def account_flow
        split: agent_task.split sum.split assistant_envelope.split)
qed (simp add: turn_ended_def)

lemma account_cancelled: "account w (snd (cancel_active s)) = account w s"
  by (auto simp: cancel_active_def account_flow bind_eq_Some_conv split: option.split)

lemma account_closed: "account w (close_coordinator s) = account w s"
  by (simp add: close_coordinator_def account_cancelled)

lemma account_workflow_started:
  assumes "account (ac_next s) s = None"
  shows "account w (snd (start_workflow p request clock reading answers a s)) =
     (if w = ac_next s \<and> account w (snd (start_workflow p request clock reading answers a s)) \<noteq> None
      then Some (0, 0) else account w s)"
  using assms
  by (auto simp: start_workflow_def Let_def new_workflow_def split: sum.split prod.split)

lemma account_continued:
  assumes s'_def: "s' = snd (continue_workflow p request reading clock answers a s)"
  shows "given_results (Continue_Workflow request reading clock answers a) s s' = [] \<and> (\<forall>w. account w s' = account w s)
    \<or> (\<exists>w n b. ac_active s = Some w \<and> account w s = Some (n, b)
        \<and> given_results (Continue_Workflow request reading clock answers a) s s' = [(w, continuation_output request)]
        \<and> utf8_length (continuation_output request) \<le> MAX_TOOL_WORKFLOW_RESULT_BYTES
        \<and> (\<forall>w'. account w' s' = (if w' = w then Some (Suc n, b + utf8_length (continuation_output request)) else account w' s)))"
proof -
  have round: "round_of w t = map_option fst (account w t)" for w t
    by (simp add: round_of_def account_def option.map_comp comp_def)
  have same: ?thesis if "\<forall>w. account w s' = account w s"
    using that by (simp add: round split: option.split)
  show ?thesis
  proof (cases "\<not> ac_closed s \<and> ac_phase s = Awaiting_Continuation \<and> (\<exists>w f. ac_active s = Some w \<and> map_of (ac_flows s) w = Some f)")
    case False
    then have "s' = s" by (auto simp: s'_def continue_workflow_def split: bind_splits option.splits)
    then show ?thesis by (intro same) simp
  next
    case True
    then obtain w f where open_state: "\<not> ac_closed s" "ac_phase s = Awaiting_Continuation"
        and w: "ac_active s = Some w" and f: "map_of (ac_flows s) w = Some f" by blast
    note acc = account_flow [OF f]
    show ?thesis
    proof (cases "check_continuation p request reading clock w f s")
      case (Inl e)
      then show ?thesis
        using open_state w f acc by (intro same) (simp add: s'_def continue_workflow_def)
    next
      case (Inr checked)
      obtain committed str bytes ok where checked: "checked = (committed, str, bytes, ok)" by (cases checked) auto
      obtain r rest g where drawn: "create_challenge (answers, ac_generated s) = (r, rest, g)"
        by (cases "create_challenge (answers, ac_generated s)") auto
      from Inr [unfolded checked check_continuation_Inr] obtain child call_item output_item manifest where
        normalized: "normalize_continuation_request request = Inr (child, call_item, output_item, manifest)"
        and passed: "assert_continuation p f committed (child, call_item, output_item, manifest) = Inr (str, bytes, ok)"
        by auto
      have str: "str = continuation_output request"
        using passed normalized
        by (auto simp: assert_continuation_def continuation_output_def Let_def outcome_simps split: sum.splits option.splits)
      have bytes: "bytes = utf8_length str" "bytes \<le> MAX_TOOL_WORKFLOW_RESULT_BYTES"
        using assert_continuation_bytes [OF passed] by simp_all
      show ?thesis
      proof (cases "\<exists>challenge prompt. r = Inr challenge
          \<and> serialize_tool_workflow_result_envelope (continuation_result f committed str ok challenge) = Inr prompt")
        case False
        then show ?thesis
          using open_state w f acc Inr drawn
          by (intro same) (auto simp: s'_def continue_workflow_def checked Let_def split: sum.split)
      next
        case True
        then have after: "account w' s' = (if w' = w then Some (Suc (wf_round f), wf_result_bytes f + bytes) else account w' s)" for w'
          using open_state w f Inr drawn
          by (auto simp: s'_def continue_workflow_def checked Let_def)
        then have "round_of w s' \<noteq> round_of w s" using acc by (simp add: round)
        then show ?thesis
          using w acc after str bytes by (intro disjI2 exI [of _ w] exI [of _ "wf_round f"] exI [of _ "wf_result_bytes f"]) simp
      qed
    qed
  qed
qed

lemma no_flow_yet: "agent_ok s \<Longrightarrow> account (ac_next s) s = None"
  using agent_ok_flow [of s "ac_next s"] by (cases "map_of (ac_flows s) (ac_next s)") (auto simp: account_def)

definition log_exact :: "coordinator \<Rightarrow> (nat \<times> jstr) list \<Rightarrow> bool" where
  "log_exact s log \<longleftrightarrow>
     (\<forall>(w, r) \<in> set log. account w s \<noteq> None \<and> utf8_length r \<le> MAX_TOOL_WORKFLOW_RESULT_BYTES)
     \<and> (\<forall>w n b. account w s = Some (n, b) \<longrightarrow>
          n = length (results_of w log) \<and> b = sum_list (map utf8_length (results_of w log)))"

lemma log_exact_same:
  "log_exact s log \<Longrightarrow> (\<And>w. account w s' = account w s) \<Longrightarrow> log_exact s' log"
  by (simp add: log_exact_def)

lemma log_exact_new:
  assumes "log_exact s log" "account v s = None"
    and "\<And>w. account w s' = (if w = v \<and> account w s' \<noteq> None then Some (0, 0) else account w s)"
  shows "log_exact s' log"
proof -
  have other: "account w s' = account w s" if "w \<noteq> v" for w using assms(3) [of w] that by simp
  have new: "account v s' = None \<or> account v s' = Some (0, 0)" using assms(3) [of v] by metis
  have "results_of v log = []"
    using assms(1,2) by (force simp: log_exact_def results_of_def filter_empty_conv)
  then have "n = length (results_of w log) \<and> b = sum_list (map utf8_length (results_of w log))"
    if "account w s' = Some (n, b)" for w n b
    using that new other [of w] assms(1) by (cases "w = v") (auto simp: log_exact_def)
  moreover have "account w s' \<noteq> None \<and> utf8_length r \<le> MAX_TOOL_WORKFLOW_RESULT_BYTES" if "(w, r) \<in> set log" for w r
    using that assms(1,2) other [of w] by (cases "w = v") (auto simp: log_exact_def)
  ultimately show ?thesis by (auto simp: log_exact_def)
qed

lemma log_exact_given:
  assumes "log_exact s log" "account w s = Some (n, b)" "utf8_length r \<le> MAX_TOOL_WORKFLOW_RESULT_BYTES"
    and "\<forall>w'. account w' s' = (if w' = w then Some (Suc n, b + utf8_length r) else account w' s)"
  shows "log_exact s' (log @ [(w, r)])"
  using assms by (auto simp: log_exact_def)

lemma agent_run_exact: "agent_run p s log \<Longrightarrow> agent_ok s \<and> log_exact s log"
proof (induction rule: agent_run.induct)
  case run_start
  then show ?case using new_coordinator_ok by (simp add: log_exact_def new_coordinator_def account_def)
next
  case (run_next s log e)
  then have ok: "agent_ok s" and exact: "log_exact s log" by blast+
  have "log_exact (snd (agent_step p e s)) (log @ given_results e s (snd (agent_step p e s)))"
  proof (cases e)
    case (Start_Workflow request clock reading answers a)
    then show ?thesis
      using log_exact_new [OF exact no_flow_yet [OF ok] account_workflow_started [OF no_flow_yet [OF ok]]] by simp
  next
    case (Continue_Workflow request reading clock answers a)
    from account_continued [OF refl, where p = p and request = request and reading = reading and clock = clock
        and answers = answers and a = a and s = s] show ?thesis
      using log_exact_same [OF exact] log_exact_given [OF exact] by (auto simp: Continue_Workflow)
  qed (use exact in \<open>auto intro!: log_exact_same [OF exact]
      simp: account_settled account_delta account_ended account_cancelled account_closed\<close>)
  then show ?case using agent_step_ok [OF ok] by blast
qed

text \<open>
  C25. A workflow comes to an end: in every reachable state, reached by whatever run, it has submitted
  at most 33 turns and committed at most 32 calls. The results the run gave it are as many as its
  rounds after the first, each at most 128 KiB of UTF-8; their total is the count it keeps of them,
  and at most 512 KiB. Every prompt was within the limits of the visible composer, and the remembered
  generated values are distinct and bounded.
\<close>

theorem agent_workflow_bounded:
  assumes "agent_run p s log"
  shows "agent_reachable p s
    \<and> (\<forall>w f. map_of (ac_flows s) w = Some f \<longrightarrow>
        turns_of w s \<le> 33 \<and> wf_calls f \<le> 32 \<and> wf_round f \<le> 32
        \<and> length (results_of w log) = wf_round f \<and> (\<forall>r \<in> set (results_of w log). utf8_length r \<le> 131072)
        \<and> sum_list (map utf8_length (results_of w log)) = wf_result_bytes f \<and> wf_result_bytes f \<le> 524288)
    \<and> (\<forall>(w, b, t) \<in> set (ac_turns s). tr_prompt t \<noteq> [] \<and> length (tr_prompt t) \<le> 65536 \<and> utf8_length (tr_prompt t) \<le> 262144)
    \<and> distinct (ac_generated s) \<and> length (ac_generated s) \<le> 4096"
proof -
  from agent_run_exact [OF assms] have ok: "agent_ok s" and exact: "log_exact s log" by blast+
  then have "turns_of w s \<le> 33 \<and> wf_calls f \<le> 32 \<and> wf_round f \<le> 32 \<and> wf_result_bytes f \<le> 524288"
    if "map_of (ac_flows s) w = Some f" for w f
    using agent_ok_flow [OF ok that]
    by (auto simp: flow_ok_def MAX_TOOL_WORKFLOW_ROUNDS_def MAX_TOOL_WORKFLOW_TOOL_CALLS_def
        MAX_AGGREGATE_TOOL_RESULT_BYTES_def split: agent_task.splits)
  moreover have "length (results_of w log) = wf_round f \<and> sum_list (map utf8_length (results_of w log)) = wf_result_bytes f"
    if "map_of (ac_flows s) w = Some f" for w f
    using exact account_flow [OF that] by (auto simp: log_exact_def)
  moreover have "\<forall>r \<in> set (results_of w log). utf8_length r \<le> 131072" for w
    using exact by (auto simp: log_exact_def results_of_def MAX_TOOL_WORKFLOW_RESULT_BYTES_def)
  moreover have "\<forall>(w, b, t) \<in> set (ac_turns s). prompt_ok (tr_prompt t)"
    and "generated_ok (ac_generated s)"
    using ok by (auto simp: agent_ok_def logs_ok_def)
  moreover have "agent_reachable p s" using assms agent_run_reachable by blast
  ultimately show ?thesis
    by (auto simp: prompt_ok_def generated_ok_def MAX_TURN_INPUT_TEXT_CHARACTERS_def
        MAX_TOOL_WORKFLOW_ENVELOPE_BYTES_def MAX_RECENT_GENERATED_VALUES_def)
qed

section \<open>The protocol it implements\<close>

text \<open>
  The contract without browsers, deadlines and texts: a workflow asks, is given a call or ends, and
  asks again with the result; it asks at most 33 times.
\<close>

datatype protocol_state = Resting | Asking nat | Calling nat | Shut

inductive protocol_step :: "protocol_state \<Rightarrow> protocol_state \<Rightarrow> bool" where
  protocol_begin: "protocol_step Resting (Asking 0)"
| protocol_propose: "n < 32 \<Longrightarrow> protocol_step (Asking n) (Calling n)"
| protocol_result: "n < 32 \<Longrightarrow> protocol_step (Calling n) (Asking (Suc n))"
| protocol_answer: "protocol_step (Asking n) Resting"
| protocol_abandon: "protocol_step (Calling n) Resting"
| protocol_shut: "protocol_step a Shut"

definition protocol_of :: "coordinator \<Rightarrow> protocol_state" where
  "protocol_of s =
     (if ac_closed s then Shut
      else case ac_active s of
          None \<Rightarrow> Resting
        | Some w \<Rightarrow>
            (case map_of (ac_flows s) w of
               None \<Rightarrow> Resting
             | Some f \<Rightarrow> if ac_phase s = Awaiting_Continuation then Calling (wf_round f) else Asking (wf_round f)))"

lemma protocol_of_rejected:
  "ac_active s = Some w \<Longrightarrow> \<not> ac_closed s \<Longrightarrow> protocol_of (snd (reject_workflow w f e s)) = Resting"
  by (simp add: protocol_of_def reject_workflow_def fail_workflow_def Let_def)

lemma protocol_of_stale:
  "ac_active s \<noteq> Some w \<Longrightarrow> protocol_of (snd (reject_workflow w f e s)) = protocol_of s"
  by (simp add: protocol_of_def reject_workflow_def fail_workflow_def Let_def split: option.split)

lemma protocol_of_started:
  assumes "ac_active s = Some w" "\<not> ac_closed s"
  shows "protocol_of (snd (start_bound_turn answer w f prompt s)) \<in> {Resting, Asking (wf_round f)}"
  using assms protocol_of_rejected [of "s\<lparr>ac_phase := ph, ac_turns := ts\<rparr>" w for ph ts]
  by (cases answer) (simp_all add: start_bound_turn_def Let_def, simp add: protocol_of_def)

lemma protocol_of_submitted:
  assumes "ac_active s = Some w" "\<not> ac_closed s" "ac_phase s = Round_Submitted"
  shows "protocol_of (snd (submit_round a w f prompt s)) \<in> {Resting, Asking (wf_round f)}"
  using protocol_of_rejected [OF assms(1,2)] protocol_of_started [OF assms(1,2), of "ra_start a" "f\<lparr>wf_browser := b\<rparr>" prompt for b]
    assms
  by (auto simp: submit_round_def protocol_of_def [of "set_flow w g s" for g] split: sum.split activity_answer.split)

text \<open>The state of the contract while a workflow is in hand.\<close>

lemma protocol_of_active:
  assumes "agent_ok s" "ac_active s = Some w" "map_of (ac_flows s) w = Some f"
  shows "protocol_of s = (if ac_phase s = Awaiting_Continuation then Calling (wf_round f) else Asking (wf_round f))"
proof -
  have "ac_phase s \<noteq> Closed" using agent_ok_active [OF assms] by auto
  then have "\<not> ac_closed s" using assms(1) by (auto simp: agent_ok_def logs_ok_def)
  with assms(2,3) show ?thesis by (simp add: protocol_of_def)
qed

lemma protocol_start:
  assumes "\<not> ac_closed s" "ac_active s = None"
  shows "protocol_of (snd (start_workflow p request clock reading answers a s)) \<in> {Resting, Asking 0}"
proof -
  have resting: "protocol_of (s\<lparr>ac_generated := g\<rparr>) = Resting" "protocol_of s = Resting" for g
    using assms by (simp_all add: protocol_of_def)
  let ?s = "\<lambda>bound wa c g. (set_flow (ac_next s) (new_workflow bound wa c) s)\<lparr>ac_generated := g, ac_next := Suc (ac_next s),
      ac_active := Some (ac_next s), ac_phase := Round_Submitted, ac_terminal := None\<rparr>"
  have fresh: "wf_round (new_workflow bound wa c) = 0" for bound wa c by (cases bound) (simp add: new_workflow_def)
  have "protocol_of (snd (reject_workflow (ac_next s) f e (?s bound wa c g))) = Resting" for f e bound wa c g
    using assms(1) by (intro protocol_of_rejected) simp_all
  moreover have "protocol_of (snd (submit_round a (ac_next s) (new_workflow bound wa c) prompt (?s bound wa c g))) \<in> {Resting, Asking 0}"
    for bound wa c g prompt
    using protocol_of_submitted [of "?s bound wa c g" "ac_next s" a "new_workflow bound wa c" prompt] assms(1) fresh by simp
  ultimately show ?thesis
    using assms resting by (auto simp: start_workflow_def Let_def split: sum.split prod.split)
qed

lemma protocol_continue:
  assumes "agent_ok s" "\<not> ac_closed s" "ac_phase s = Awaiting_Continuation" "ac_active s = Some w" "map_of (ac_flows s) w = Some f"
  shows "protocol_of (snd (continue_workflow p request reading clock answers a s)) = Resting
    \<or> protocol_of (snd (continue_workflow p request reading clock answers a s)) = Asking (Suc (wf_round f)) \<and> wf_round f < 32"
proof -
  have rejected: "protocol_of (snd (reject_workflow w f e (s\<lparr>ac_generated := g\<rparr>))) = Resting"
    "protocol_of (snd (reject_workflow w f e s)) = Resting" for e g
    using assms by (intro protocol_of_rejected; simp)+
  let ?f1 = "\<lambda>bytes challenge. f\<lparr>wf_result_bytes := wf_result_bytes f + bytes, wf_round := Suc (wf_round f),
      wf_challenge := Some challenge, wf_pending := None\<rparr>"
  let ?s1 = "\<lambda>f1 g. (set_flow w f1 (s\<lparr>ac_generated := g\<rparr>))\<lparr>ac_phase := Round_Submitted\<rparr>"
  have submitted: "protocol_of (snd (submit_round a w (?f1 bytes challenge) prompt (?s1 (?f1 bytes challenge) g)))
      \<in> {Resting, Asking (Suc (wf_round f))}" for bytes challenge g prompt
    using protocol_of_submitted [of "?s1 (?f1 bytes challenge) g" w a "?f1 bytes challenge" prompt] assms(2,4) by simp
  have "wf_round f < 32" if "check_continuation p request reading clock w f s = Inr (committed, str, bytes, ok)"
    for committed str bytes ok
    using that unfolding check_continuation_Inr by (simp add: MAX_TOOL_WORKFLOW_ROUNDS_def MAX_TOOL_WORKFLOW_TOOL_CALLS_def)
  then show ?thesis
    using assms(2-5) rejected submitted
    by (auto simp: continue_workflow_def Let_def split: sum.split prod.split)
qed

lemma protocol_turn:
  assumes "agent_ok s" "ac_active s = Some w" "map_of (ac_flows s) w = Some f" "wf_task f = Streaming chunks seen bytes failure"
  shows "protocol_of (snd (turn_ended p ending reading clock answers w s)) = Resting
    \<or> protocol_of (snd (turn_ended p ending reading clock answers w s)) = Calling (wf_round f) \<and> wf_round f < 32"
proof -
  have active: "active_ok (ac_phase s) f" using agent_ok_active [OF assms(1-3)] by blast
  then have "ac_phase s \<noteq> Closed" by auto
  then have open_state: "\<not> ac_closed s" using assms(1) by (auto simp: agent_ok_def logs_ok_def)
  have pending: "wf_pending f = None" using active assms(4) by (cases "ac_phase s") simp_all
  have rejected: "protocol_of (snd (reject_workflow w g e (s\<lparr>ac_generated := h\<rparr>))) = Resting"
    "protocol_of (snd (reject_workflow w g e s)) = Resting" for g e h
    using assms(2) open_state by (intro protocol_of_rejected; simp)+
  have calling: "protocol_of ((set_flow w g (s\<lparr>ac_generated := h\<rparr>))\<lparr>ac_phase := Awaiting_Continuation\<rparr>) = Calling (wf_round g)"
    for g h using assms(2) open_state by (simp add: protocol_of_def)
  have commit: "protocol_of (snd (commit_call p answers w g name args s)) = Resting
      \<or> protocol_of (snd (commit_call p answers w g name args s)) = Calling (wf_round g) \<and> wf_calls g < 32" for g name args
    using rejected calling read_proposed_call_tool [of p g name args]
    by (auto simp: commit_call_def Let_def MAX_TOOL_WORKFLOW_TOOL_CALLS_def split: sum.split prod.split)
  have "wf_calls f = wf_round f"
    using agent_ok_flow [OF assms(1,3)] pending by (simp add: flow_ok_def)
  with commit [of "f\<lparr>wf_handle := False, wf_challenge := None\<rparr>"]
  have "protocol_of (snd (commit_call p answers w (f\<lparr>wf_handle := False, wf_challenge := None\<rparr>) name args s)) = Resting
      \<or> protocol_of (snd (commit_call p answers w (f\<lparr>wf_handle := False, wf_challenge := None\<rparr>) name args s)) = Calling (wf_round f)
        \<and> wf_round f < 32" for name args
    by simp
  moreover have "protocol_of (complete_workflow w (set_flow w g s)) = Resting" for g
    using assms(2) open_state by (simp add: complete_workflow_def protocol_of_def)
  ultimately show ?thesis
    using rejected assms(3,4)
    by (simp add: turn_ended_def Let_def split: sum.split assistant_envelope.split)
qed

lemma protocol_settled:
  assumes "agent_ok s" "ac_active s = Some w" "map_of (ac_flows s) w = Some f" "wf_task f = Renewing prompt"
  shows "protocol_of (snd (activity_settled settled clock answer w s)) \<in> {Resting, Asking (wf_round f)}"
proof -
  have "ac_phase s \<noteq> Closed" using agent_ok_active [OF assms(1-3)] by auto
  then have open_state: "\<not> ac_closed s" using assms(1) by (auto simp: agent_ok_def logs_ok_def)
  show ?thesis
    using assms protocol_of_rejected [OF assms(2) open_state]
      protocol_of_started [OF assms(2) open_state, of answer "f\<lparr>wf_browser := b\<rparr>" prompt for b]
    by (auto simp: activity_settled_def split: option.split sum.split)
qed

text \<open>A promise of a workflow that has ended, and an event that changes no phase, leave the contract as it is.\<close>

lemma protocol_stale:
  assumes "agent_ok s" "ac_active s \<noteq> Some w"
  shows "protocol_of (snd (turn_ended p ending reading clock answers w s)) = protocol_of s"
    and "protocol_of (snd (activity_settled settled clock answer w s)) = protocol_of s"
proof -
  have live: "wf_error f = None \<Longrightarrow> wf_task f = No_Task" if "map_of (ac_flows s) w = Some f" for f
    using agent_ok_stale [OF assms that] by (auto simp: at_rest_def)
  show "protocol_of (snd (turn_ended p ending reading clock answers w s)) = protocol_of s"
    using live protocol_of_stale [OF assms(2)] turn_result_live assms(2)
    by (auto simp: turn_ended_def Let_def split: option.split agent_task.split sum.split)
  show "protocol_of (snd (activity_settled settled clock answer w s)) = protocol_of s"
    using live protocol_of_stale [OF assms(2)]
    by (fastforce simp: activity_settled_def assert_workflow_live_def split: option.split agent_task.split sum.split)
qed

lemma protocol_delta: "protocol_of (snd (on_delta v reading clock w s)) = protocol_of s"
proof -
  have "protocol_of (set_flow w (f\<lparr>wf_task := t\<rparr>) s) = protocol_of s" if "map_of (ac_flows s) w = Some f" for f t
    using that by (auto simp: protocol_of_def split: option.split)
  then show ?thesis
    by (auto simp: on_delta_def split: option.split agent_task.split sum.split prod.split)
qed

lemma protocol_of_resting: "ac_active s = None \<Longrightarrow> \<not> ac_closed s \<Longrightarrow> protocol_of s = Resting"
  by (simp add: protocol_of_def)

lemma protocol_ended:
  assumes "agent_ok s" "ac_active s = Some w"
  shows "protocol_step (protocol_of s) Resting"
proof -
  obtain f where "map_of (ac_flows s) w = Some f" using active_flow [OF assms] by blast
  from protocol_of_active [OF assms this] show ?thesis by (auto intro: protocol_answer protocol_abandon)
qed

lemma protocol_start_step:
  assumes "agent_ok s"
  shows "protocol_of (snd (start_workflow p request clock reading answers a s)) = protocol_of s
    \<or> protocol_step (protocol_of s) (protocol_of (snd (start_workflow p request clock reading answers a s)))"
proof (cases "ac_closed s \<or> ac_active s \<noteq> None")
  case False
  then show ?thesis
    using protocol_start [of s p request clock reading answers a] protocol_of_resting [of s] protocol_begin by auto
qed (auto simp: start_workflow_def)

lemma protocol_continue_step:
  assumes "agent_ok s"
  shows "protocol_of (snd (continue_workflow p request reading clock answers a s)) = protocol_of s
    \<or> protocol_step (protocol_of s) (protocol_of (snd (continue_workflow p request reading clock answers a s)))"
proof (cases "\<not> ac_closed s \<and> ac_phase s = Awaiting_Continuation \<and> ac_active s \<noteq> None")
  case True
  then obtain w f where w: "ac_active s = Some w" "map_of (ac_flows s) w = Some f" using active_flow [OF assms] by blast
  then have "protocol_of s = Calling (wf_round f)" using protocol_of_active [OF assms w] True by simp
  with protocol_continue [OF assms _ _ w] True show ?thesis by (metis protocol_abandon protocol_result)
next
  case False
  then have "snd (continue_workflow p request reading clock answers a s) = s"
    by (auto simp: continue_workflow_def split: option.split)
  then show ?thesis by simp
qed

lemma protocol_promise_step:
  assumes "agent_ok s"
  shows "protocol_of (snd (turn_ended p ending reading clock answers w s)) = protocol_of s
    \<or> protocol_step (protocol_of s) (protocol_of (snd (turn_ended p ending reading clock answers w s)))"
    and "protocol_of (snd (activity_settled settled clock answer w s)) = protocol_of s
    \<or> protocol_step (protocol_of s) (protocol_of (snd (activity_settled settled clock answer w s)))"
proof -
  show "protocol_of (snd (turn_ended p ending reading clock answers w s)) = protocol_of s
    \<or> protocol_step (protocol_of s) (protocol_of (snd (turn_ended p ending reading clock answers w s)))"
  proof (cases "ac_active s = Some w \<and> (\<exists>f chunks seen bytes failure. map_of (ac_flows s) w = Some f \<and> wf_task f = Streaming chunks seen bytes failure)")
    case True
    then obtain f chunks seen bytes failure where w: "ac_active s = Some w" "map_of (ac_flows s) w = Some f"
        "wf_task f = Streaming chunks seen bytes failure" by blast
    have "active_ok (ac_phase s) f" using agent_ok_active [OF assms w(1,2)] by blast
    then have "protocol_of s = Asking (wf_round f)"
      using protocol_of_active [OF assms w(1,2)] w(3) by (cases "ac_phase s") simp_all
    with protocol_turn [OF assms w] show ?thesis by (metis protocol_answer protocol_propose)
  next
    case False
    then have "ac_active s \<noteq> Some w \<or> snd (turn_ended p ending reading clock answers w s) = s"
      by (auto simp: turn_ended_def split: option.split agent_task.split)
    with protocol_stale(1) [OF assms] show ?thesis by metis
  qed
  show "protocol_of (snd (activity_settled settled clock answer w s)) = protocol_of s
    \<or> protocol_step (protocol_of s) (protocol_of (snd (activity_settled settled clock answer w s)))"
  proof (cases "ac_active s = Some w \<and> (\<exists>f prompt. map_of (ac_flows s) w = Some f \<and> wf_task f = Renewing prompt)")
    case True
    then obtain f prompt where w: "ac_active s = Some w" "map_of (ac_flows s) w = Some f" "wf_task f = Renewing prompt" by blast
    have "active_ok (ac_phase s) f" using agent_ok_active [OF assms w(1,2)] by blast
    then have "protocol_of s = Asking (wf_round f)"
      using protocol_of_active [OF assms w(1,2)] w(3) by (cases "ac_phase s") simp_all
    with protocol_settled [OF assms w, of settled clock answer] show ?thesis by (auto intro: protocol_answer)
  next
    case False
    then have "ac_active s \<noteq> Some w \<or> snd (activity_settled settled clock answer w s) = s"
      by (auto simp: activity_settled_def split: option.split agent_task.split)
    with protocol_stale(2) [OF assms] show ?thesis by metis
  qed
qed

lemma protocol_cancel_step:
  assumes "agent_ok s"
  shows "protocol_of (snd (cancel_active s)) = protocol_of s \<or> protocol_step (protocol_of s) (protocol_of (snd (cancel_active s)))"
proof (cases "ac_active s")
  case (Some w)
  then obtain f where f: "map_of (ac_flows s) w = Some f" using active_flow [OF assms] by blast
  have "ac_phase s \<noteq> Closed" using agent_ok_active [OF assms Some f] by auto
  then have "\<not> ac_closed s" using assms by (auto simp: agent_ok_def logs_ok_def)
  then have "protocol_of (snd (cancel_active s)) = Resting" using Some f by (simp add: cancel_active_def protocol_of_def)
  with protocol_ended [OF assms Some] show ?thesis by simp
qed (simp add: cancel_active_def)

text \<open>
  C26. The coordinator implements the protocol: it starts at rest, and whatever happens to it, a call of
  its methods or an answer of the browser at any time and in any order, its state in the contract stays
  or takes one step of it. So an asked round ends or brings one call, and the next round is only
  asked after that call.
\<close>

theorem agent_refines_protocol:
  assumes "agent_reachable p s"
  shows "protocol_of new_coordinator = Resting
    \<and> (protocol_of (snd (agent_step p e s)) = protocol_of s
       \<or> protocol_step (protocol_of s) (protocol_of (snd (agent_step p e s))))"
proof -
  have ok: "agent_ok s" using agent_reachable_ok [OF assms] .
  have "protocol_of (close_coordinator s) = Shut"
    by (auto simp: close_coordinator_def protocol_of_def)
  then have "protocol_of (snd (agent_step p e s)) = protocol_of s
      \<or> protocol_step (protocol_of s) (protocol_of (snd (agent_step p e s)))"
    using protocol_start_step [OF ok] protocol_continue_step [OF ok] protocol_promise_step [OF ok]
      protocol_cancel_step [OF ok] protocol_shut
    by (cases e) (simp_all add: protocol_delta)
  then show ?thesis by (simp add: protocol_of_def new_coordinator_def)
qed

section \<open>Commits\<close>

lemma reject_reply [simp]: "fst (reject_workflow w f e s) = Rejected e"
  by (simp add: reject_workflow_def)

lemma start_bound_turn_reply:
  "fst (start_bound_turn answer w f prompt s) = Waiting \<or> (\<exists>e. fst (start_bound_turn answer w f prompt s) = Rejected e)"
  by (auto simp: start_bound_turn_def Let_def split: start_answer.split)

lemma submit_round_reply:
  "fst (submit_round a w f prompt s) = Waiting \<or> (\<exists>e. fst (submit_round a w f prompt s) = Rejected e)"
  using start_bound_turn_reply by (auto simp: submit_round_def split: sum.split activity_answer.split)

lemma not_resolved:
  "fst (submit_round a w f prompt s) \<noteq> Resolved r" "fst (start_bound_turn answer w f prompt s) \<noteq> Resolved r"
  using submit_round_reply [of a w f prompt s] start_bound_turn_reply [of answer w f prompt s] by auto

lemma unique_fresh: "unique_attempts n start len g = (Inr x, h) \<Longrightarrow> x \<notin> set (snd g)"
  by (induction n start len g arbitrary: h rule: unique_attempts.induct)
    (auto simp: Let_def split: option.splits if_splits)

text \<open>Only the end of a turn resolves a promise.\<close>

lemma resolved_turn:
  assumes "fst (agent_step p e s) = Resolved r"
  shows "\<exists>w ending reading clock answers. e = Turn_Ended w ending reading clock answers"
proof (cases e)
  case (Start_Workflow request clock reading answers a)
  with assms not_resolved(1) show ?thesis
    by (auto simp: start_workflow_def Let_def split: if_splits sum.splits prod.splits)
next
  case (Continue_Workflow request reading clock answers a)
  with assms not_resolved(1) show ?thesis
    by (auto simp: continue_workflow_def Let_def split: if_splits sum.splits prod.splits option.splits)
next
  case (Activity_Settled w settled clock answer)
  with assms not_resolved(2) show ?thesis
    by (auto simp: activity_settled_def split: option.splits agent_task.splits sum.splits)
next
  case (Delta_Received w v reading clock)
  with assms show ?thesis
    by (auto simp: on_delta_def split: option.splits agent_task.splits sum.splits prod.splits)
next
  case Cancel_Active
  with assms show ?thesis by (auto simp: cancel_active_def split: option.splits)
qed (use assms in simp_all)

lemma turn_result_Inr:
  "turn_result ending reading clock w f failure s = Inr u \<longleftrightarrow>
     wf_error f = None \<and> ac_active s = Some w \<and> failure = None
     \<and> assert_current_browser_binding f reading clock = Inr () \<and> ending = Ending_Completed Stop"
  by (auto simp: turn_result_def assert_workflow_live_def outcome_simps split: turn_ending.splits sum.splits option.splits)

lemma read_round_envelope_Inr:
  "read_round_envelope p f chunks = Inr envelope \<longleftrightarrow>
     parse_tool_workflow_assistant_envelope (ap_number p) (concat chunks) = Inr envelope
     \<and> ae_turn envelope = wf_alias f \<and> ae_round envelope = wf_round f
     \<and> wf_challenge f = Some (ae_challenge envelope) \<and> ae_manifest_digest envelope = wf_manifest_digest f"
  by (auto simp: read_round_envelope_def outcome_simps split: sum.splits)

lemma turn_resolved:
  assumes "fst (turn_ended p ending reading clock answers w s) = Resolved r"
  shows "\<exists>f chunks seen bytes envelope. map_of (ac_flows s) w = Some f \<and> wf_task f = Streaming chunks seen bytes None
    \<and> wf_error f = None \<and> ac_active s = Some w \<and> ending = Ending_Completed Stop
    \<and> assert_current_browser_binding (f\<lparr>wf_handle := False\<rparr>) reading clock = Inr ()
    \<and> read_round_envelope p (f\<lparr>wf_handle := False\<rparr>) chunks = Inr envelope
    \<and> turn_ended p ending reading clock answers w s =
        (case envelope of
           Final_Envelope turn challenge digest n str \<Rightarrow>
             (Resolved (Final_Commit \<lparr>fc_manifest_digest = wf_manifest_digest f, fc_round = wf_round f, fc_text = str,
                fc_alias = wf_alias f\<rparr>),
              complete_workflow w (set_flow w (f\<lparr>wf_handle := False, wf_challenge := None, wf_task := No_Task\<rparr>) s))
         | Tool_Call_Envelope turn challenge digest n name args \<Rightarrow>
             commit_call p answers w (f\<lparr>wf_handle := False, wf_challenge := None\<rparr>) name args s)"
proof -
  obtain f chunks seen bytes failure where f: "map_of (ac_flows s) w = Some f" "wf_task f = Streaming chunks seen bytes failure"
    using assms by (auto simp: turn_ended_def split: option.splits agent_task.splits)
  have ended: "turn_result ending reading clock w (f\<lparr>wf_handle := False\<rparr>) failure s = Inr ()"
    using assms f by (auto simp: turn_ended_def Let_def split: sum.splits)
  obtain envelope where envelope: "read_round_envelope p (f\<lparr>wf_handle := False\<rparr>) chunks = Inr envelope"
    using assms f ended by (auto simp: turn_ended_def Let_def split: sum.splits)
  have result: "turn_ended p ending reading clock answers w s =
        (case envelope of
           Final_Envelope turn challenge digest n str \<Rightarrow>
             (Resolved (Final_Commit \<lparr>fc_manifest_digest = wf_manifest_digest f, fc_round = wf_round f, fc_text = str,
                fc_alias = wf_alias f\<rparr>),
              complete_workflow w (set_flow w (f\<lparr>wf_handle := False, wf_challenge := None, wf_task := No_Task\<rparr>) s))
         | Tool_Call_Envelope turn challenge digest n name args \<Rightarrow>
             commit_call p answers w (f\<lparr>wf_handle := False, wf_challenge := None\<rparr>) name args s)"
    using f ended envelope by (simp add: turn_ended_def Let_def split: assistant_envelope.split)
  have facts: "wf_error f = None" "ac_active s = Some w" "failure = None"
      "assert_current_browser_binding (f\<lparr>wf_handle := False\<rparr>) reading clock = Inr ()" "ending = Ending_Completed Stop"
    using ended unfolding turn_result_Inr by simp_all
  show ?thesis
    by (rule exI [of _ f], rule exI [of _ chunks], rule exI [of _ seen], rule exI [of _ bytes], rule exI [of _ envelope])
      (use f envelope result facts in simp)
qed

lemma first_identifier_fresh:
  "create_call_identifiers (answers, g) = (Inr (a, b, c), rest) \<Longrightarrow> a \<notin> set g"
  by (auto simp: create_call_identifiers_def create_identifier_def create_unique_random_value_def
      split: prod.splits sum.splits dest: unique_fresh)

lemma commit_call_resolved:
  assumes "fst (commit_call p answers w f name args s) = Resolved (Call_Commit c)"
  shows "\<exists>tool f'. read_proposed_call p f name args = Inr (tool, tc_arguments_json c)
    \<and> tc_arguments c = args \<and> tc_arguments_digest c = digest_canonical p (tc_arguments_json c)
    \<and> tc_call_id c \<notin> set (ac_generated s) \<and> tc_manifest_digest c = wf_manifest_digest f
    \<and> tc_round c = wf_round f \<and> tc_tool c = tb_name tool \<and> tc_alias c = wf_alias f
    \<and> map_of (ac_flows (snd (commit_call p answers w f name args s))) w = Some f'
    \<and> wf_pending f' = Some c \<and> wf_challenge f' = wf_challenge f
    \<and> ac_phase (snd (commit_call p answers w f name args s)) = Awaiting_Continuation"
  using assms by (auto simp: commit_call_def Let_def split: sum.splits prod.splits dest: first_identifier_fresh)

text \<open>
  C27. A committed call is exactly what the browser proposed: it is only committed when the turn of the
  active workflow ended normally in the same browser, and the concatenated deltas are a framed
  envelope with the workflow's alias, round, challenge and manifest; its tool is in the manifest and its
  arguments match the certified schema and the tool's validator. The commit holds those arguments,
  their canonical text and its digest under an identifier not among the remembered ones, the challenge is spent,
  and the coordinator waits for exactly this call's continuation.
\<close>

theorem committed_call_exact:
  assumes "agent_reachable p s" "agent_step p e s = (Resolved (Call_Commit c), s')"
  shows "\<exists>w reading clock answers f f' chunks seen bytes challenge tool.
    e = Turn_Ended w (Ending_Completed Stop) reading clock answers
    \<and> ac_active s = Some w \<and> map_of (ac_flows s) w = Some f \<and> wf_task f = Streaming chunks seen bytes None
    \<and> assert_current_browser_binding f reading clock = Inr ()
    \<and> wf_challenge f = Some challenge
    \<and> parse_tool_workflow_assistant_envelope (ap_number p) (concat chunks)
        = Inr (Tool_Call_Envelope (wf_alias f) challenge (wf_manifest_digest f) (wf_round f) (tc_tool c) (tc_arguments c))
    \<and> commit_of f c \<and> map_of (wf_tools f) (tc_tool c) = Some tool \<and> validate_tool_arguments p tool (tc_arguments c)
    \<and> canonicalize_tool_workflow_json (JObj (tc_arguments c)) = Inr (tc_arguments_json c)
    \<and> tc_arguments_digest c = digest_canonical p (tc_arguments_json c) \<and> tc_call_id c \<notin> set (ac_generated s)
    \<and> map_of (ac_flows s') w = Some f' \<and> wf_pending f' = Some c \<and> wf_challenge f' = None
    \<and> ac_phase s' = Awaiting_Continuation"
proof -
  have ok: "agent_ok s" using agent_reachable_ok [OF assms(1)] .
  obtain w ending reading clock answers where e: "e = Turn_Ended w ending reading clock answers"
    using resolved_turn [of p e s] assms(2) by auto
  with assms(2) have step: "turn_ended p ending reading clock answers w s = (Resolved (Call_Commit c), s')" by simp
  then obtain f chunks seen bytes envelope where f: "map_of (ac_flows s) w = Some f" "wf_task f = Streaming chunks seen bytes None"
      "ac_active s = Some w" "ending = Ending_Completed Stop"
      "assert_current_browser_binding (f\<lparr>wf_handle := False\<rparr>) reading clock = Inr ()"
      "read_round_envelope p (f\<lparr>wf_handle := False\<rparr>) chunks = Inr envelope"
    and result: "turn_ended p ending reading clock answers w s =
        (case envelope of
           Final_Envelope turn challenge digest n str \<Rightarrow>
             (Resolved (Final_Commit \<lparr>fc_manifest_digest = wf_manifest_digest f, fc_round = wf_round f, fc_text = str,
                fc_alias = wf_alias f\<rparr>),
              complete_workflow w (set_flow w (f\<lparr>wf_handle := False, wf_challenge := None, wf_task := No_Task\<rparr>) s))
         | Tool_Call_Envelope turn challenge digest n name args \<Rightarrow>
             commit_call p answers w (f\<lparr>wf_handle := False, wf_challenge := None\<rparr>) name args s)"
    using turn_resolved [of p ending reading clock answers w s] by (metis fst_conv)
  obtain turn challenge digest n name args where envelope: "envelope = Tool_Call_Envelope turn challenge digest n name args"
    using step result by (cases envelope) auto
  then have call: "commit_call p answers w (f\<lparr>wf_handle := False, wf_challenge := None\<rparr>) name args s = (Resolved (Call_Commit c), s')"
    using step result by simp
  obtain tool f' where commit: "read_proposed_call p (f\<lparr>wf_handle := False, wf_challenge := None\<rparr>) name args = Inr (tool, tc_arguments_json c)"
      "tc_arguments c = args" "tc_arguments_digest c = digest_canonical p (tc_arguments_json c)"
      "tc_call_id c \<notin> set (ac_generated s)" "tc_manifest_digest c = wf_manifest_digest f" "tc_round c = wf_round f"
      "tc_tool c = tb_name tool" "tc_alias c = wf_alias f" "map_of (ac_flows s') w = Some f'"
      "wf_pending f' = Some c" "wf_challenge f' = None" "ac_phase s' = Awaiting_Continuation"
    using commit_call_resolved [of p answers w "f\<lparr>wf_handle := False, wf_challenge := None\<rparr>" name args s c] unfolding call by auto
  note proposed = read_proposed_call_tool [OF commit(1)]
  have name: "tb_name tool = name" using agent_ok_flow [OF ok f(1)] proposed by (simp add: flow_ok_def)
  have read: "parse_tool_workflow_assistant_envelope (ap_number p) (concat chunks) = Inr envelope"
      "turn = wf_alias f" "n = wf_round f" "wf_challenge f = Some challenge" "digest = wf_manifest_digest f"
    using f(6) unfolding envelope read_round_envelope_Inr by simp_all
  have "assert_current_browser_binding f reading clock = Inr ()"
    using f(5) by (simp add: assert_current_browser_binding_def)
  moreover have "commit_of f c" using commit proposed name by (simp add: commit_of_def)
  ultimately show ?thesis
    using e f(1-4) commit proposed name read envelope by fastforce
qed

section \<open>Continuations\<close>

text \<open>A submitted round waits for the renewal of the activation or for the turn of its prompt.\<close>

definition round_submitted :: "nat \<Rightarrow> workflow \<Rightarrow> jstr \<Rightarrow> coordinator \<Rightarrow> coordinator \<Rightarrow> bool" where
  "round_submitted w f prompt s s' \<longleftrightarrow>
     wf_task f = Renewing prompt \<and> ac_turns s' = ac_turns s
     \<or> wf_task f = Streaming [] 0 0 None
        \<and> ac_turns s' = ac_turns s @ [(w, wf_browser f, turn_request_of f prompt)]"

lemma submit_round_waiting:
  assumes "submit_round a w f prompt s = (Waiting, s')"
  shows "\<exists>f'. map_of (ac_flows s') w = Some f' \<and> round_submitted w f' prompt s s'
    \<and> wf_round f' = wf_round f \<and> wf_challenge f' = wf_challenge f \<and> wf_pending f' = wf_pending f
    \<and> wf_result_bytes f' = wf_result_bytes f"
  using assms
  by (auto simp: submit_round_def start_bound_turn_def reject_workflow_def Let_def round_submitted_def turn_request_of_def
      split: sum.splits activity_answer.splits start_answer.splits)

lemma assert_continuation_Inr:
  assumes "assert_continuation p f c (child, call_item, output_item, manifest) = Inr (str, bytes, ok)"
  shows "assert_exact_child_binding p (wf_child f) child = Inr ()
    \<and> canonicalize_tool_workflow_json manifest = Inr (wf_manifest_canonical f)
    \<and> (\<exists>call output tool. read_function_call_item call_item = Some call
        \<and> read_function_call_output_item output_item = Some output
        \<and> field call ''callId'' = JStr (tc_call_id c) \<and> field call ''itemId'' = JStr (tc_item_id c)
        \<and> field call ''name'' = JStr (tc_tool c) \<and> field call ''argumentsJson'' = JStr (tc_arguments_json c)
        \<and> field output ''callId'' = JStr (tc_call_id c) \<and> str = string_of (field output ''output'')
        \<and> map_of (wf_tools f) (tc_tool c) = Some tool \<and> classify_tool_result tool str = Inr ok)
    \<and> wf_result_bytes f + bytes \<le> MAX_AGGREGATE_TOOL_RESULT_BYTES"
  using assms
  by (auto simp: assert_continuation_def Let_def outcome_simps split: sum.splits option.splits)

text \<open>
  C28. The next round is only submitted for the pending call itself: the continuation names the bound
  child and the same manifest, its two items repeat the call identifier, the item identifier, the tool
  and the canonical arguments that were committed, and the aggregate of the results keeps its limit.
  The prompt is the serialized result of that call for the next round, with a challenge not among the
  remembered values, and the call is no longer pending.
\<close>

theorem continuation_exact:
  assumes "agent_step p (Continue_Workflow request reading clock answers a) s = (Waiting, s')"
  shows "\<exists>w f c child call_item output_item manifest str bytes ok challenge prompt f'.
    ac_active s = Some w \<and> map_of (ac_flows s) w = Some f \<and> wf_pending f = Some c
    \<and> assert_current_browser_binding f reading clock = Inr ()
    \<and> normalize_continuation_request request = Inr (child, call_item, output_item, manifest)
    \<and> assert_exact_child_binding p (wf_child f) child = Inr ()
    \<and> canonicalize_tool_workflow_json manifest = Inr (wf_manifest_canonical f)
    \<and> (\<exists>call output tool. read_function_call_item call_item = Some call
        \<and> read_function_call_output_item output_item = Some output
        \<and> field call ''callId'' = JStr (tc_call_id c) \<and> field call ''itemId'' = JStr (tc_item_id c)
        \<and> field call ''name'' = JStr (tc_tool c) \<and> field call ''argumentsJson'' = JStr (tc_arguments_json c)
        \<and> field output ''callId'' = JStr (tc_call_id c) \<and> str = string_of (field output ''output'')
        \<and> map_of (wf_tools f) (tc_tool c) = Some tool \<and> classify_tool_result tool str = Inr ok)
    \<and> wf_result_bytes f + bytes \<le> MAX_AGGREGATE_TOOL_RESULT_BYTES
    \<and> challenge \<notin> set (ac_generated s)
    \<and> serialize_tool_workflow_result_envelope (continuation_result f c str ok challenge) = Inr prompt
    \<and> map_of (ac_flows s') w = Some f' \<and> round_submitted w f' prompt s s'
    \<and> wf_round f' = Suc (wf_round f) \<and> wf_challenge f' = Some challenge \<and> wf_pending f' = None
    \<and> wf_result_bytes f' = wf_result_bytes f + bytes"
proof -
  from assms obtain w f where w: "ac_active s = Some w" "map_of (ac_flows s) w = Some f"
      "\<not> ac_closed s" "ac_phase s = Awaiting_Continuation"
    by (auto simp: continue_workflow_def bind_eq_Some_conv split: if_splits option.splits)
  obtain checked where checked: "check_continuation p request reading clock w f s = Inr checked"
    using assms w by (auto simp: continue_workflow_def reject_workflow_def split: sum.splits)
  obtain c str bytes ok where parts: "checked = (c, str, bytes, ok)" by (cases checked) auto
  from checked [unfolded parts check_continuation_Inr] obtain normalized where passed:
      "assert_current_browser_binding f reading clock = Inr ()" "wf_pending f = Some c"
      "normalize_continuation_request request = Inr normalized"
      "assert_continuation p f c normalized = Inr (str, bytes, ok)" by auto
  obtain child call_item output_item manifest where normalized: "normalized = (child, call_item, output_item, manifest)"
    by (cases normalized) auto
  obtain challenge rest g prompt where drawn: "create_challenge (answers, ac_generated s) = (Inr challenge, rest, g)"
      "serialize_tool_workflow_result_envelope (continuation_result f c str ok challenge) = Inr prompt"
    using assms w checked
    by (auto simp: continue_workflow_def reject_workflow_def parts Let_def split: sum.splits prod.splits)
  let ?f1 = "f\<lparr>wf_result_bytes := wf_result_bytes f + bytes, wf_round := Suc (wf_round f),
      wf_challenge := Some challenge, wf_pending := None\<rparr>"
  have "submit_round a w ?f1 prompt ((set_flow w ?f1 (s\<lparr>ac_generated := g\<rparr>))\<lparr>ac_phase := Round_Submitted\<rparr>) = (Waiting, s')"
    using assms w checked drawn by (simp add: continue_workflow_def parts Let_def)
  from submit_round_waiting [OF this] obtain f' where f': "map_of (ac_flows s') w = Some f'" "round_submitted w f' prompt s s'"
      "wf_round f' = Suc (wf_round f)" "wf_challenge f' = Some challenge" "wf_pending f' = None"
      "wf_result_bytes f' = wf_result_bytes f + bytes"
    by (auto simp: round_submitted_def)
  have "challenge \<notin> set (ac_generated s)"
    using unique_fresh [of _ _ _ "(answers, ac_generated s)"] drawn(1)
    by (auto simp: create_challenge_def create_unique_random_value_def)
  with w passed f' drawn(2) assert_continuation_Inr [OF passed(4) [unfolded normalized]] show ?thesis
    unfolding normalized by blast
qed

section \<open>Failures\<close>

text \<open>A handler of one workflow leaves the others as they are.\<close>

definition kept :: "nat \<Rightarrow> coordinator \<Rightarrow> coordinator \<Rightarrow> bool" where
  "kept w s s' \<longleftrightarrow>
     map_of (ac_flows s') w = map_of (ac_flows s) w \<and> turns_of w s' = turns_of w s
     \<and> (ac_active s' = Some w \<longrightarrow> ac_active s = Some w)"

lemma kept_trans: "kept w s s' \<Longrightarrow> kept w s' s'' \<Longrightarrow> kept w s s''"
  by (simp add: kept_def)

lemma kept_same [simp]: "kept w s s"
  by (simp add: kept_def)

lemma kept_rejected: "w \<noteq> w' \<Longrightarrow> kept w s (snd (reject_workflow w' f e s))"
  by (auto simp: kept_def reject_workflow_def fail_workflow_def Let_def turns_of_def)

lemma kept_started: "w \<noteq> w' \<Longrightarrow> kept w s (snd (start_bound_turn answer w' f prompt s))"
proof (cases answer)
  case (Start_Throws e)
  assume "w \<noteq> w'"
  moreover have "kept w s (s\<lparr>ac_phase := Awaiting_Envelope, ac_turns := ac_turns s @ [(w', t)]\<rparr>)" if "w \<noteq> w'" for t
    using that by (simp add: kept_def turns_of_def)
  ultimately show ?thesis using Start_Throws kept_rejected [of w w'] kept_trans
    by (fastforce simp: start_bound_turn_def Let_def)
qed (simp add: kept_def start_bound_turn_def Let_def turns_of_def)

lemma kept_submitted: "w \<noteq> w' \<Longrightarrow> kept w s (snd (submit_round a w' f prompt s))"
  using kept_rejected [of w w' s] kept_started [of w w' s]
  by (auto simp: submit_round_def kept_def [of w s "set_flow w' g s" for g] split: sum.split activity_answer.split)

lemma kept_ended:
  assumes "w \<noteq> w'"
  shows "kept w s (snd (turn_ended p ending reading clock answers w' s))"
proof -
  have drawn: "kept w s (snd (reject_workflow w' g e (s\<lparr>ac_generated := h\<rparr>)))" for g e h
    using kept_rejected [OF assms, of "s\<lparr>ac_generated := h\<rparr>" g e] by (simp add: kept_def)
  have "kept w s (snd (commit_call p answers w' g name args s))" for g name args
    using drawn kept_rejected [OF assms, of s] assms
    by (auto simp: commit_call_def Let_def kept_def [of w s "(set_flow w' x y)\<lparr>ac_phase := z\<rparr>" for x y z]
        split: sum.split prod.split)
  moreover have "kept w s (complete_workflow w' (set_flow w' g s))" for g
    using assms by (simp add: kept_def complete_workflow_def turns_of_def)
  ultimately show ?thesis
    using kept_rejected [OF assms, of s]
    by (auto simp: turn_ended_def Let_def split: option.split agent_task.split sum.split assistant_envelope.split)
qed

lemma kept_settled:
  assumes "w \<noteq> w'"
  shows "kept w s (snd (activity_settled settled clock answer w' s))"
  using kept_rejected [OF assms, of s] kept_started [OF assms, of s]
  by (auto simp: activity_settled_def split: option.split agent_task.split sum.split)

lemma kept_continued:
  assumes "ac_active s \<noteq> Some w"
  shows "kept w s (snd (continue_workflow p request reading clock answers a s))"
proof -
  have rejected: "kept w s (snd (reject_workflow w' f e (s\<lparr>ac_generated := g\<rparr>)))" if "w \<noteq> w'" for w' f e g
    using kept_rejected [OF that, of "s\<lparr>ac_generated := g\<rparr>" f e] by (simp add: kept_def)
  have submitted: "kept w s (snd (submit_round a w' f prompt ((set_flow w' f (s\<lparr>ac_generated := g\<rparr>))\<lparr>ac_phase := Round_Submitted\<rparr>)))"
    if "w \<noteq> w'" for w' f prompt g
    by (rule kept_trans [OF _ kept_submitted [OF that]]) (use that in \<open>simp add: kept_def\<close>)
  show ?thesis
    using assms rejected submitted kept_rejected [of w _ s]
    by (auto simp: continue_workflow_def Let_def bind_eq_Some_conv split: option.split sum.split prod.split)
qed

lemma kept_workflow_started:
  assumes "w < ac_next s"
  shows "kept w s (snd (start_workflow p request clock reading answers a s))"
proof -
  let ?s = "\<lambda>f g. (set_flow (ac_next s) f s)\<lparr>ac_generated := g, ac_next := Suc (ac_next s),
      ac_active := Some (ac_next s), ac_phase := Round_Submitted, ac_terminal := None\<rparr>"
  have other: "w \<noteq> ac_next s" using assms by simp
  have "kept w s (?s f g)" for f g using other by (simp add: kept_def turns_of_def)
  then have "kept w s (snd (submit_round a (ac_next s) f prompt (?s f g)))"
      "kept w s (snd (reject_workflow (ac_next s) f e (?s f g)))" for f g prompt e
    using kept_trans kept_submitted [OF other] kept_rejected [OF other] by blast+
  moreover have "kept w s (s\<lparr>ac_generated := g\<rparr>)" for g by (simp add: kept_def)
  ultimately show ?thesis by (auto simp: start_workflow_def Let_def split: sum.split prod.split)
qed

lemma kept_cancelled: "ac_active s \<noteq> Some w \<Longrightarrow> kept w s (snd (cancel_active s))"
  by (auto simp: cancel_active_def kept_def turns_of_def bind_eq_Some_conv split: option.split)

lemma kept_closed: "ac_active s \<noteq> Some w \<Longrightarrow> kept w s (close_coordinator s)"
  using kept_cancelled [of s w] by (auto simp: close_coordinator_def kept_def turns_of_def)

text \<open>The workflow is the same but for what it waits for and its handle.\<close>

definition still_failed :: "nat \<Rightarrow> workflow \<Rightarrow> agent_error \<Rightarrow> coordinator \<Rightarrow> coordinator \<Rightarrow> bool" where
  "still_failed w f e s s' \<longleftrightarrow>
     (\<exists>f'. map_of (ac_flows s') w = Some f' \<and> wf_error f' = Some e
        \<and> wf_round f' = wf_round f \<and> wf_calls f' = wf_calls f \<and> wf_result_bytes f' = wf_result_bytes f)
     \<and> ac_active s' \<noteq> Some w \<and> turns_of w s' = turns_of w s"

lemma still_failed_kept:
  "kept w s s' \<Longrightarrow> map_of (ac_flows s) w = Some f \<Longrightarrow> wf_error f = Some e \<Longrightarrow> ac_active s \<noteq> Some w \<Longrightarrow> still_failed w f e s s'"
  by (auto simp: kept_def still_failed_def)

lemma still_failed_own:
  assumes "map_of (ac_flows s) w = Some f" "wf_error f = Some e" "ac_active s \<noteq> Some w"
  shows "still_failed w f e s (snd (turn_ended p ending reading clock answers w s))"
    and "still_failed w f e s (snd (activity_settled settled clock answer w s))"
    and "still_failed w f e s (snd (on_delta v reading clock w s))"
proof -
  have rejected: "still_failed w f e s (snd (reject_workflow w f e' s))"
    "still_failed w f e s (snd (reject_workflow w (f\<lparr>wf_handle := h\<rparr>) e' s))" for e' h
    using assms by (auto simp: still_failed_def reject_workflow_def fail_workflow_def Let_def)
  have idle: "still_failed w f e s s" using assms by (simp add: still_failed_def)
  show "still_failed w f e s (snd (turn_ended p ending reading clock answers w s))"
    using assms rejected idle by (auto simp: turn_ended_def Let_def turn_result_Inr split: agent_task.split sum.split)
  show "still_failed w f e s (snd (activity_settled settled clock answer w s))"
    using assms rejected idle
    by (auto simp: activity_settled_def assert_workflow_live_def split: agent_task.split sum.split option.split)
  have "still_failed w f e s (set_flow w (f\<lparr>wf_task := t\<rparr>) s)" for t
    using assms by (simp add: still_failed_def)
  then show "still_failed w f e s (snd (on_delta v reading clock w s))"
    using assms idle by (auto simp: on_delta_def split: agent_task.split sum.split prod.split)
qed

text \<open>
  C29. A failure is final: once a workflow has failed or was cancelled, nothing that happens afterwards
  makes it active again, submits another of its turns, commits another call or changes its error, and its own promises are
  never resolved.
\<close>

theorem failed_workflow_final:
  assumes "agent_reachable p s" "map_of (ac_flows s) w = Some f" "wf_error f = Some failure"
  shows "still_failed w f failure s (snd (agent_step p e s))
    \<and> (\<forall>ending reading clock answers r. e = Turn_Ended w ending reading clock answers \<longrightarrow> fst (agent_step p e s) \<noteq> Resolved r)"
proof -
  have ok: "agent_ok s" using agent_reachable_ok [OF assms(1)] .
  have idle: "ac_active s \<noteq> Some w" using agent_ok_active [OF ok _ assms(2)] assms(3) by auto
  have kept: "still_failed w f failure s s'" if "kept w s s'" for s'
    using still_failed_kept [OF that assms(2,3) idle] .
  note own = still_failed_own [OF assms(2,3) idle]
  have "still_failed w f failure s (snd (agent_step p e s))"
  proof (cases e)
    case (Activity_Settled w' settled clock answer)
    with own(2) kept kept_settled [of w w'] show ?thesis by (cases "w' = w") auto
  next
    case (Delta_Received w' v reading clock)
    have "kept w s (snd (on_delta v reading clock w' s))" if "w' \<noteq> w"
      using that by (auto simp: on_delta_def kept_def split: option.split agent_task.split sum.split prod.split)
    with own(3) kept Delta_Received show ?thesis by (cases "w' = w") auto
  next
    case (Turn_Ended w' ending reading clock answers)
    with own(1) kept kept_ended [of w w'] show ?thesis by (cases "w' = w") auto
  qed (use kept kept_workflow_started kept_continued [OF idle] kept_cancelled [OF idle] kept_closed [OF idle]
      agent_ok_flow [OF ok assms(2)] in auto)
  moreover have "fst (turn_ended p ending reading clock answers w s) \<noteq> Resolved r" for ending reading clock answers r
    using turn_resolved [of p ending reading clock answers w s r] idle by auto
  ultimately show ?thesis by auto
qed

section \<open>Instances\<close>

theorem agent_state_consistent_witness:
  "as_workflow_active (coordinator_state sample_called) \<and> as_pending_call (coordinator_state sample_called)"
proof -
  have "as_phase (coordinator_state sample_called) = Awaiting_Continuation"
    using sample_called(2) by (simp add: coordinator_state_def Let_def)
  with agent_state_consistent [OF sample_run_reachable(3)] show ?thesis by simp
qed

theorem agent_workflow_bounded_witness:
  "\<exists>log. agent_run sample_primitives sample_called log \<and> length (ac_generated sample_called) \<le> 4096
     \<and> (\<exists>f. map_of (ac_flows sample_called) 0 = Some f \<and> length (results_of 0 log) = wf_round f)"
proof -
  obtain log where run: "agent_run sample_primitives sample_called log"
    using sample_run_reachable(3) agent_run_reachable by blast
  obtain f where "map_of (ac_flows sample_called) 0 = Some f" using sample_called(1) by blast
  with agent_workflow_bounded [OF run] run show ?thesis by blast
qed

theorem agent_refines_protocol_witness:
  "protocol_of sample_called = protocol_of sample_replied \<or> protocol_step (protocol_of sample_replied) (protocol_of sample_called)"
  unfolding sample_called_def using agent_refines_protocol [OF sample_run_reachable(2)] by blast

theorem committed_call_exact_witness:
  "\<exists>chunks. parse_tool_workflow_assistant_envelope (ap_number sample_primitives) (concat chunks)
     = Inr (Tool_Call_Envelope sample_alias sample_challenge (js ''sha256-'' @ sample_digest) 0 (js ''t'') [])"
proof -
  from committed_call_exact [OF sample_run_reachable(2) sample_committed] obtain w f chunks challenge where
    w: "ac_active sample_replied = Some w" "map_of (ac_flows sample_replied) w = Some f" "wf_challenge f = Some challenge"
      "parse_tool_workflow_assistant_envelope (ap_number sample_primitives) (concat chunks)
        = Inr (Tool_Call_Envelope (wf_alias f) challenge (wf_manifest_digest f) (wf_round f) (tc_tool sample_commit) (tc_arguments sample_commit))"
    by blast
  moreover have "w = 0" using w(1) sample_replied(2) by simp
  ultimately show ?thesis using sample_replied(1) sample_flow_fields by (auto simp: sample_commit_def)
qed

theorem continuation_exact_witness:
  "\<exists>s'. agent_step sample_primitives sample_continue sample_called = (Waiting, s')
     \<and> (\<exists>w f'. map_of (ac_flows s') w = Some f' \<and> wf_pending f' = None)"
proof -
  obtain s' where step: "agent_step sample_primitives sample_continue sample_called = (Waiting, s')"
    using sample_continued by (metis prod.collapse)
  with continuation_exact [OF step [unfolded sample_continue_def]] show ?thesis by blast
qed

lemma sample_cancelled:
  "agent_reachable sample_primitives (snd (agent_step sample_primitives Cancel_Active sample_replied))"
  "\<exists>f. map_of (ac_flows (snd (agent_step sample_primitives Cancel_Active sample_replied))) 0 = Some f \<and> wf_error f = Some Turn_Cancelled"
proof -
  show "agent_reachable sample_primitives (snd (agent_step sample_primitives Cancel_Active sample_replied))"
    by (rule agent_next [OF sample_run_reachable(2)])
  show "\<exists>f. map_of (ac_flows (snd (agent_step sample_primitives Cancel_Active sample_replied))) 0 = Some f \<and> wf_error f = Some Turn_Cancelled"
    using sample_replied(1,2) by (auto simp: cancel_active_def)
qed

theorem failed_workflow_final_witness:
  "\<exists>f. still_failed 0 f Turn_Cancelled (snd (agent_step sample_primitives Cancel_Active sample_replied))
     (snd (agent_step sample_primitives sample_turn_ended (snd (agent_step sample_primitives Cancel_Active sample_replied))))"
  using failed_workflow_final [OF sample_cancelled(1), of 0 _ Turn_Cancelled sample_turn_ended] sample_cancelled(2) by blast

end
