(* ===== verification/Stateful.thy ===== *)
theory Stateful
  imports Prelude
begin

text \<open>
  Operations of an object: they read and change its state, and return a value or throw an error, with
  the changes made before the throw kept, as in the source. \<open>ensures\<close> is the weakest precondition of an
  operation for a condition on a return and one on a throw; its equations (\<open>ensures_simps\<close>) reduce a goal
  about a sequence of operations to one about states.
\<close>

type_synonym ('s, 'e, 'a) operation = "'s \<Rightarrow> ('e, 'a) result \<times> 's"

definition give :: "'a \<Rightarrow> ('s, 'e, 'a) operation" where
  "give x s = (return x, s)"

definition fail_with :: "'e \<Rightarrow> ('s, 'e, 'a) operation" where
  "fail_with e s = (throw e, s)"

definition seq :: "('s, 'e, 'a) operation \<Rightarrow> ('a \<Rightarrow> ('s, 'e, 'b) operation) \<Rightarrow> ('s, 'e, 'b) operation" where
  "seq m f s = (case m s of (Inl e, s') \<Rightarrow> (throw e, s') | (Inr x, s') \<Rightarrow> f x s')"

text \<open>An expression on the fields, an assignment, and \<open>if (bad) throw e;\<close>.\<close>

definition get :: "('s \<Rightarrow> 'a) \<Rightarrow> ('s, 'e, 'a) operation" where
  "get f s = (return (f s), s)"

definition change :: "('s \<Rightarrow> 's) \<Rightarrow> ('s, 'e, unit) operation" where
  "change f s = (return (), f s)"

definition forbid :: "('s \<Rightarrow> bool) \<Rightarrow> 'e \<Rightarrow> ('s, 'e, unit) operation" where
  "forbid bad e s = (if bad s then throw e else return (), s)"

text \<open>A check that reads the state, and \<open>try m catch (e) h(e)\<close>.\<close>

definition check :: "('s \<Rightarrow> ('e, 'a) result) \<Rightarrow> ('s, 'e, 'a) operation" where
  "check f s = (f s, s)"

definition attempt :: "('s, 'e, 'a) operation \<Rightarrow> ('e \<Rightarrow> ('s, 'e, 'a) operation) \<Rightarrow> ('s, 'e, 'a) operation" where
  "attempt m h s = (case m s of (Inl e, s') \<Rightarrow> h e s' | (Inr x, s') \<Rightarrow> (return x, s'))"

section \<open>Weakest preconditions\<close>

definition ensures ::
    "('s, 'e, 'a) operation \<Rightarrow> ('a \<Rightarrow> 's \<Rightarrow> bool) \<Rightarrow> ('e \<Rightarrow> 's \<Rightarrow> bool) \<Rightarrow> 's \<Rightarrow> bool" where
  "ensures m Q E s = (case m s of (Inl e, s') \<Rightarrow> E e s' | (Inr x, s') \<Rightarrow> Q x s')"

named_theorems ensures_simps

lemma ensures_give [ensures_simps]: "ensures (give x) Q E s = Q x s"
  by (simp add: ensures_def give_def)

lemma ensures_fail [ensures_simps]: "ensures (fail_with e) Q E s = E e s"
  by (simp add: ensures_def fail_with_def)

lemma ensures_seq [ensures_simps]: "ensures (seq m f) Q E s = ensures m (\<lambda>x. ensures (f x) Q E) E s"
  by (simp add: ensures_def seq_def split: prod.split sum.split)

lemma ensures_get [ensures_simps]: "ensures (get f) Q E s = Q (f s) s"
  by (simp add: ensures_def get_def)

lemma ensures_change [ensures_simps]: "ensures (change f) Q E s = Q () (f s)"
  by (simp add: ensures_def change_def)

lemma ensures_forbid [ensures_simps]: "ensures (forbid bad e) Q E s = (if bad s then E e s else Q () s)"
  by (simp add: ensures_def forbid_def)

lemma ensures_check [ensures_simps]:
  "ensures (check f) Q E s = (case f s of Inl e \<Rightarrow> E e s | Inr x \<Rightarrow> Q x s)"
  by (simp add: ensures_def check_def)

text \<open>The same where no state is applied yet, inside a condition.\<close>

lemma ensures_inside [ensures_simps]:
  "ensures (give x) Q E = Q x" "ensures (fail_with e) Q E = E e" "ensures (change g) P E = (\<lambda>s. P () (g s))"
  by (simp_all add: fun_eq_iff ensures_give ensures_fail ensures_change)

lemma ensures_seq_inside [ensures_simps]: "ensures (seq m f) Q E = ensures m (\<lambda>x. ensures (f x) Q E) E"
  by (simp add: fun_eq_iff ensures_seq)

lemma ensures_attempt [ensures_simps]:
  "ensures (attempt m h) Q E s = ensures m Q (\<lambda>e. ensures (h e) Q E) s"
  by (simp add: ensures_def attempt_def split: prod.split sum.split)

lemma ensures_if [ensures_simps]:
  "ensures (if b then m else m') Q E s = (if b then ensures m Q E s else ensures m' Q E s)"
  by simp

lemma ensures_option [ensures_simps]:
  "ensures (case x of None \<Rightarrow> m | Some y \<Rightarrow> f y) Q E s = (case x of None \<Rightarrow> ensures m Q E s | Some y \<Rightarrow> ensures (f y) Q E s)"
  by (simp split: option.split)

lemma ensures_weaken:
  "ensures m Q E s \<Longrightarrow> (\<And>x s'. Q x s' \<Longrightarrow> Q' x s') \<Longrightarrow> (\<And>e s'. E e s' \<Longrightarrow> E' e s') \<Longrightarrow> ensures m Q' E' s"
  by (auto simp: ensures_def split: prod.splits sum.splits)

lemma ensures_both:
  "ensures m Q E s \<Longrightarrow> ensures m Q' E' s \<Longrightarrow> ensures m (\<lambda>x s. Q x s \<and> Q' x s) (\<lambda>e s. E e s \<and> E' e s) s"
  by (auto simp: ensures_def split: prod.splits sum.splits)

lemma ensures_returned: "ensures m Q E s \<Longrightarrow> m s = (Inr x, s') \<Longrightarrow> Q x s'"
  by (simp add: ensures_def)

lemma ensures_thrown: "ensures m Q E s \<Longrightarrow> m s = (Inl e, s') \<Longrightarrow> E e s'"
  by (simp add: ensures_def)

lemma ensures_always: "ensures m (\<lambda>_. P) (\<lambda>_. P) s \<longleftrightarrow> P (snd (m s))"
  by (simp add: ensures_def split: prod.split sum.split)

end
