(* ===== verification/Browser_Session.thy ===== *)
theory Browser_Session
  imports Frame_Schema Stateful
begin

text \<open>
  The browser session coordinator (\<open>apps/bridge/src/browser/browser-session-coordinator.ts\<close>,
  \<open>browser-session-errors.ts\<close>): its state, the promises it gives out, and the parts its
  operations share - correlation of requests, settling of a turn, reset and teardown.
\<close>

section \<open>Errors\<close>

text \<open>\<open>createBrowserSessionError\<close>; the constant messages satisfy the error schema.\<close>

definition session_error :: "bridge_error_code \<Rightarrow> string \<Rightarrow> bool \<Rightarrow> bridge_error" where
  "session_error code message retryable = \<lparr>be_code = code, be_message = js message, be_retryable = retryable\<rparr>"

definition protocol_violation :: "string \<Rightarrow> bridge_error" where
  "protocol_violation message = session_error Protocol_Invalid_Message message False"

definition browser_state_changed :: "string \<Rightarrow> bridge_error" where
  "browser_state_changed message = session_error Browser_State_Changed message True"

text \<open>What \<open>normalizeLocalError\<close> makes of an error that is not of the coordinator.\<close>

definition local_failure :: bridge_error where
  "local_failure = session_error Internal_Error ''The browser session coordinator failed.'' False"

section \<open>State\<close>

datatype session_phase =
  Phase_Closed | Phase_Connecting | Phase_Disconnected | Phase_Disconnecting | Phase_Discovering | Phase_Ready

datatype transport_phase = Transport_Attached | Transport_Closed | Transport_Detached
datatype turn_phase = Turn_Cancelling | Turn_Starting | Turn_Streaming

record capability_snapshot =
  cs_capabilities :: browser_capabilities
  cs_generation :: nat
  cs_session_id :: jstr

datatype turn_terminal = Terminal_Completed finish_reason | Terminal_Cancelled | Terminal_Failed bridge_error

text \<open>What a promise settles with.\<close>

datatype session_outcome =
    Got_Snapshot capability_snapshot
  | Got_Status agent_status
  | Got_Active active_status
  | Got_Nothing
  | Got_Terminal turn_terminal
  | Got_Error bridge_error

datatype pending_kind =
  Note_Activity | Read_Status | Read_Capabilities | Connect_Session | Disconnect_Session | Cancel_Turn | Start_Turn

text \<open>A command the browser has not answered, with the delay of its timer.\<close>

record pending_operation =
  po_kind :: pending_kind
  po_session :: jstr
  po_turn :: "jstr option"
  po_timer :: nat

text \<open>An attempt waits for the answer to its request; its promise is a number.\<close>

record session_attempt =
  sa_promise :: nat
  sa_request :: jstr
  sa_session :: jstr

record cancel_attempt =
  ca_promise :: nat
  ca_previous :: turn_phase
  ca_timeout :: bool
  ca_request :: jstr

text \<open>
  The active turn. Objects are told apart by \<open>tn_number\<close>; \<open>settled\<close> holds exactly of a turn that is no longer
  the active one. \<open>tn_timer\<close> is the delay of the turn timer while it is armed.
\<close>

record active_turn =
  tn_number :: nat
  tn_cancellable :: bool
  tn_cancel :: "cancel_attempt option"
  tn_completion :: nat
  tn_session :: jstr
  tn_start_request :: jstr
  tn_started :: nat
  tn_acknowledged :: bool
  tn_phase :: turn_phase
  tn_timer :: "nat option"
  tn_id :: jstr

record session_options =
  so_cancellation_grace :: nat
  so_command_timeout :: nat
  so_max_revisions :: nat
  so_max_pending :: nat
  so_turn_timeout :: nat

definition DEFAULT_CANCELLATION_GRACE_MS :: nat where "DEFAULT_CANCELLATION_GRACE_MS = 5000"
definition DEFAULT_COMMAND_TIMEOUT_MS :: nat where "DEFAULT_COMMAND_TIMEOUT_MS = 10000"
definition DEFAULT_MAX_CATALOG_REVISIONS :: nat where "DEFAULT_MAX_CATALOG_REVISIONS = 32"
definition DEFAULT_MAX_PENDING_OPERATIONS :: nat where "DEFAULT_MAX_PENDING_OPERATIONS = 8"
definition DEFAULT_TURN_TIMEOUT_MS :: nat where "DEFAULT_TURN_TIMEOUT_MS = 120000"
definition IDENTIFIER_GENERATION_ATTEMPTS :: nat where "IDENTIFIER_GENERATION_ATTEMPTS = 8"
definition MAX_RECENT_IDENTIFIERS :: nat where "MAX_RECENT_IDENTIFIERS = 2048"

text \<open>
  What \<open>receive\<close> waits for: the sink of the turn with a number, or its own continuation after the
  frame was dispatched, with the error that was thrown if one was.
\<close>

datatype receive_task = Awaiting_Sink nat | Dispatched "bridge_error option"

text \<open>
  The coordinator. A lease is the number of its generation; the port is attached exactly while there is a
  lease. The fingerprint of a revision is its capabilities, which \<open>JSON.stringify\<close> writes differently when
  they differ. \<open>bs_answers\<close> is what \<open>createIdentifier\<close> will answer during the current call, \<open>None\<close>
  where it throws. The last six fields are history: promises, settled ones in the order they settled,
  turns, the commands given to the port of a lease, what the sinks were given, and the ports closed.
\<close>

record browser_session =
  bs_options :: session_options
  bs_answers :: "jval option list"
  bs_pending :: "(jstr, pending_operation) jsmap"
  bs_receiving :: "(nat, receive_task) jsmap"
  bs_recent :: "jstr list"
  bs_revisions :: "(jstr, browser_capabilities) jsmap"
  bs_turn :: "active_turn option"
  bs_activity :: "(active_status \<times> session_attempt) option"
  bs_status :: "agent_status option"
  bs_status_read :: "session_attempt option"
  bs_closed :: bool
  bs_connection :: "(nat \<times> jstr) option"
  bs_disconnect :: "session_attempt option"
  bs_lease :: "nat option"
  bs_next_lease :: nat
  bs_next_generation :: nat
  bs_session_id :: "jstr option"
  bs_phase :: session_phase
  bs_snapshot :: "capability_snapshot option"
  bs_promises :: nat
  bs_outcomes :: "(nat \<times> session_outcome) list"
  bs_turns :: nat
  bs_sent :: "(nat \<times> jstr \<times> frame_body) list"
  bs_deltas :: "(nat \<times> delta_channel \<times> jstr) list"
  bs_port_closes :: "nat list"

definition read_positive_integer :: "jnum option \<Rightarrow> nat \<Rightarrow> nat option" where
  "read_positive_integer v fallback =
     (case v of
        None \<Rightarrow> Some fallback
      | Some (NInt i) \<Rightarrow> if is_safe_integer (NInt i) \<and> 1 \<le> i then Some (nat i) else None
      | Some _ \<Rightarrow> None)"

text \<open>The constructor; \<open>None\<close> is its \<open>RangeError\<close>.\<close>

definition new_browser_session ::
    "jnum option \<Rightarrow> jnum option \<Rightarrow> jnum option \<Rightarrow> jnum option \<Rightarrow> jnum option \<Rightarrow> browser_session option" where
  "new_browser_session grace command revisions pending turn =
     Option.bind (read_positive_integer grace DEFAULT_CANCELLATION_GRACE_MS) (\<lambda>g.
     Option.bind (read_positive_integer command DEFAULT_COMMAND_TIMEOUT_MS) (\<lambda>c.
     Option.bind (read_positive_integer revisions DEFAULT_MAX_CATALOG_REVISIONS) (\<lambda>r.
     Option.bind (read_positive_integer pending DEFAULT_MAX_PENDING_OPERATIONS) (\<lambda>p.
     Option.bind (read_positive_integer turn DEFAULT_TURN_TIMEOUT_MS) (\<lambda>t.
     Some \<lparr>bs_options = \<lparr>so_cancellation_grace = g, so_command_timeout = c, so_max_revisions = r,
             so_max_pending = p, so_turn_timeout = t\<rparr>,
           bs_answers = [], bs_pending = [], bs_receiving = [], bs_recent = [], bs_revisions = [], bs_turn = None,
           bs_activity = None, bs_status = None, bs_status_read = None, bs_closed = False, bs_connection = None,
           bs_disconnect = None, bs_lease = None, bs_next_lease = 1, bs_next_generation = 1, bs_session_id = None,
           bs_phase = Phase_Disconnected, bs_snapshot = None, bs_promises = 0, bs_outcomes = [], bs_turns = 0,
           bs_sent = [], bs_deltas = [], bs_port_closes = []\<rparr>)))))"

type_synonym 'a session_operation = "(browser_session, bridge_error, 'a) operation"

section \<open>Promises\<close>

text \<open>\<open>createDeferred\<close>, and \<open>resolve\<close> and \<open>reject\<close>, which do nothing to a settled promise.\<close>

definition create_deferred :: "nat session_operation" where
  "create_deferred s = (return (bs_promises s), s\<lparr>bs_promises := Suc (bs_promises s)\<rparr>)"

definition settle :: "nat \<Rightarrow> session_outcome \<Rightarrow> browser_session \<Rightarrow> browser_session" where
  "settle n x s =
     (if n \<in> fst ` set (bs_outcomes s) then s else s\<lparr>bs_outcomes := bs_outcomes s @ [(n, x)]\<rparr>)"

section \<open>Identifiers\<close>

datatype session_identifier = For_Request | For_Session | For_Turn

definition identifier_schema :: "session_identifier \<Rightarrow> jval \<Rightarrow> jstr option" where
  "identifier_schema kind =
     (case kind of For_Request \<Rightarrow> request_id_schema | For_Session \<Rightarrow> session_id_schema | For_Turn \<Rightarrow> turn_id_schema)"

fun identifier_attempts ::
    "nat \<Rightarrow> session_identifier \<Rightarrow> jstr list \<Rightarrow> jval option list \<Rightarrow> jstr option \<times> jval option list" where
  "identifier_attempts 0 kind recent answers = (None, answers)"
| "identifier_attempts (Suc n) kind recent [] = identifier_attempts n kind recent []"
| "identifier_attempts (Suc n) kind recent (answer # answers) =
     (case Option.bind answer (identifier_schema kind) of
        None \<Rightarrow> identifier_attempts n kind recent answers
      | Some x \<Rightarrow> if x \<in> set recent then identifier_attempts n kind recent answers else (Some x, answers))"

definition remember_identifier :: "jstr \<Rightarrow> jstr list \<Rightarrow> jstr list" where
  "remember_identifier x recent = (if MAX_RECENT_IDENTIFIERS \<le> length recent then tl recent else recent) @ [x]"

definition create_session_identifier :: "session_identifier \<Rightarrow> jstr session_operation" where
  "create_session_identifier kind s =
     (case identifier_attempts IDENTIFIER_GENERATION_ATTEMPTS kind (bs_recent s) (bs_answers s) of
        (None, answers) \<Rightarrow>
          (throw (session_error Internal_Error ''The browser correlation identifier generator failed.'' False),
           s\<lparr>bs_answers := answers\<rparr>)
      | (Some x, answers) \<Rightarrow>
          (return x, s\<lparr>bs_answers := answers, bs_recent := remember_identifier x (bs_recent s)\<rparr>))"

section \<open>Pending commands\<close>

definition reserve_pending :: "jstr \<Rightarrow> pending_operation \<Rightarrow> unit session_operation" where
  "reserve_pending request operation =
     seq (forbid (\<lambda>s. map_of (bs_pending s) request \<noteq> None \<or> so_max_pending (bs_options s) \<le> length (bs_pending s))
       (session_error Transport_Unavailable ''The browser command correlation capacity is unavailable.'' True)) (\<lambda>_.
     change (\<lambda>s. s\<lparr>bs_pending := AList.update request operation (bs_pending s)\<rparr>))"

definition remove_pending :: "jstr \<Rightarrow> browser_session \<Rightarrow> browser_session" where
  "remove_pending request s = s\<lparr>bs_pending := AList.delete request (bs_pending s)\<rparr>"

definition expect_pending :: "jstr \<Rightarrow> pending_kind \<Rightarrow> pending_operation session_operation" where
  "expect_pending request kind =
     check (\<lambda>s. case map_of (bs_pending s) request of
         None \<Rightarrow> throw (protocol_violation ''The browser response has no matching request.'')
       | Some operation \<Rightarrow>
           if po_kind operation = kind then return operation
           else throw (protocol_violation ''The browser response has no matching request.''))"

section \<open>The end of a turn\<close>

text \<open>\<open>#settleActiveTurn\<close> of the turn that is active; the timers are cancelled with their owners.\<close>

definition settle_active_turn :: "turn_terminal \<Rightarrow> bridge_error option \<Rightarrow> browser_session \<Rightarrow> browser_session" where
  "settle_active_turn terminal local_error s =
     (case bs_turn s of
        None \<Rightarrow> s
      | Some t \<Rightarrow>
          let s1 = remove_pending (tn_start_request t) (s\<lparr>bs_turn := None\<rparr>);
            s2 = (case tn_cancel t of
                None \<Rightarrow> s1
              | Some c \<Rightarrow>
                  settle (ca_promise c) (case local_error of None \<Rightarrow> Got_Nothing | Some e \<Rightarrow> Got_Error e)
                    (remove_pending (ca_request c) s1));
            start_error =
              (case local_error of
                 Some e \<Rightarrow> e
               | None \<Rightarrow>
                   (case terminal of
                      Terminal_Failed e \<Rightarrow> e
                    | _ \<Rightarrow> session_error Turn_Was_Cancelled ''The browser turn ended before it was acknowledged.'' False))
          in settle (tn_completion t) (Got_Terminal terminal) (settle (tn_started t) (Got_Error start_error) s2))"

section \<open>Reset and teardown\<close>

text \<open>The promises of the attempts; \<open>disconnected\<close> tells whether a disconnect succeeded.\<close>

definition settle_attempts :: "bridge_error \<Rightarrow> bool \<Rightarrow> browser_session \<Rightarrow> browser_session" where
  "settle_attempts e disconnected s =
     (let s1 = (case bs_connection s of None \<Rightarrow> s | Some (n, _) \<Rightarrow> settle n (Got_Error e) s);
        s2 = (case bs_status_read s of None \<Rightarrow> s1 | Some a \<Rightarrow> settle (sa_promise a) (Got_Error e) s1);
        s3 = (case bs_activity s of None \<Rightarrow> s2 | Some (_, a) \<Rightarrow> settle (sa_promise a) (Got_Error e) s2)
      in case bs_disconnect s of
           None \<Rightarrow> s3
         | Some a \<Rightarrow> settle (sa_promise a) (if disconnected then Got_Nothing else Got_Error e) s3)"

definition reset_session :: "bridge_error \<Rightarrow> bool \<Rightarrow> browser_session \<Rightarrow> browser_session" where
  "reset_session e disconnected s =
     (let s1 = settle_attempts e disconnected (s\<lparr>bs_pending := []\<rparr>);
        s2 = settle_active_turn (Terminal_Failed e) (Some e)
          (s1\<lparr>bs_connection := None, bs_status_read := None, bs_activity := None, bs_disconnect := None\<rparr>)
      in s2\<lparr>bs_revisions := [], bs_status := None, bs_session_id := None, bs_snapshot := None,
           bs_phase := (if bs_closed s then Phase_Closed else Phase_Disconnected)\<rparr>)"

definition teardown_transport :: "bridge_error \<Rightarrow> bool \<Rightarrow> browser_session \<Rightarrow> browser_session" where
  "teardown_transport e close_port s =
     (let s1 = reset_session e False (s\<lparr>bs_lease := None\<rparr>) in
        s1\<lparr>bs_port_closes := bs_port_closes s @
          (case bs_lease s of None \<Rightarrow> [] | Some l \<Rightarrow> if close_port then [l] else [])\<rparr>)"

section \<open>Sending\<close>

text \<open>
  \<open>#send\<close>; \<open>accepted\<close> tells whether the call of \<open>port.send\<close> answers a promise or throws. The promise may
  be rejected later, which is a step of its own.
\<close>

definition rejected_command :: bridge_error where
  "rejected_command = session_error Transport_Unavailable ''The browser transport rejected a command.'' True"

definition send_command :: "bool \<Rightarrow> jstr \<Rightarrow> frame_body \<Rightarrow> unit session_operation" where
  "send_command accepted request body =
     seq (check (\<lambda>s. case bs_lease s of
         None \<Rightarrow> throw (session_error Transport_Unavailable ''No authenticated browser transport is attached.'' True)
       | Some l \<Rightarrow> return l)) (\<lambda>lease.
     seq (change (\<lambda>s. s\<lparr>bs_sent := bs_sent s @ [(lease, request, body)]\<rparr>)) (\<lambda>_.
     if accepted then give () else change (teardown_transport rejected_command True)))"

section \<open>Guards\<close>

definition assert_attached :: "unit session_operation" where
  "assert_attached =
     seq (forbid bs_closed (session_error Session_Closed ''The browser session coordinator is closed.'' False)) (\<lambda>_.
     forbid (\<lambda>s. bs_lease s = None)
       (session_error Transport_Unavailable ''No authenticated browser transport is attached.'' True))"

definition assert_session_identity :: "jstr \<Rightarrow> jstr \<Rightarrow> unit session_operation" where
  "assert_session_identity expected actual =
     forbid (\<lambda>s. expected \<noteq> actual \<or> bs_session_id s \<noteq> Some actual)
       (protocol_violation ''The browser frame refers to an unknown session.'')"

definition assert_active_turn :: "jstr \<Rightarrow> jstr \<Rightarrow> active_turn session_operation" where
  "assert_active_turn session turn =
     check (\<lambda>s. case bs_turn s of
         None \<Rightarrow> throw (protocol_violation ''The browser frame refers to an unknown turn.'')
       | Some t \<Rightarrow>
           if tn_session t \<noteq> session \<or> tn_id t \<noteq> turn
           then throw (protocol_violation ''The browser frame refers to an unknown turn.'') else return t)"

definition assert_turn_identity :: "pending_operation \<Rightarrow> active_turn \<Rightarrow> unit session_operation" where
  "assert_turn_identity operation t =
     forbid (\<lambda>_. po_session operation \<noteq> tn_session t \<or> po_turn operation \<noteq> Some (tn_id t))
       (protocol_violation ''The browser turn acknowledgement is not correlated.'')"

text \<open>\<open>#readNow\<close>, given what the clock answers.\<close>

definition read_session_clock :: "jnum option \<Rightarrow> nat session_operation" where
  "read_session_clock clock =
     (case clock of
        Some (NInt i) \<Rightarrow>
          if is_safe_integer (NInt i) \<and> 0 \<le> i then give (nat i)
          else fail_with (session_error Internal_Error ''The browser session clock is invalid.'' False)
      | Some NNegZero \<Rightarrow> give 0
      | _ \<Rightarrow> fail_with (session_error Internal_Error ''The browser session clock is invalid.'' False))"

text \<open>\<open>activeAgentStatus\<close>: the clock is only read for an active status.\<close>

definition active_agent_status :: "jnum option \<Rightarrow> active_status option session_operation" where
  "active_agent_status clock =
     seq (get bs_status) (\<lambda>status. case status of
         Some (Active_Status a) \<Rightarrow>
           seq (read_session_clock clock) (\<lambda>now. give (if now < as_expires a then Some a else None))
       | _ \<Rightarrow> give None)"

section \<open>Agent status\<close>

text \<open>The comparisons of the code name every field but the state; two active statuses are equal when they agree.\<close>

definition same_active_status :: "active_status \<Rightarrow> active_status \<Rightarrow> bool" where
  "same_active_status l r \<longleftrightarrow>
     db_document_id (as_binding l) = db_document_id (as_binding r) \<and> db_generation (as_binding l) = db_generation (as_binding r)
     \<and> db_tab_id (as_binding l) = db_tab_id (as_binding r) \<and> as_ownership_id l = as_ownership_id r
     \<and> as_expires l = as_expires r \<and> as_issued l = as_issued r \<and> as_last_activity l = as_last_activity r
     \<and> as_lease_id l = as_lease_id r \<and> as_revision l = as_revision r"

fun status_revision :: "agent_status \<Rightarrow> nat" where
  "status_revision (Active_Status a) = as_revision a"
| "status_revision (Inactive_Status n) = n"

fun same_agent_status :: "agent_status \<Rightarrow> agent_status \<Rightarrow> bool" where
  "same_agent_status (Active_Status l) (Active_Status r) \<longleftrightarrow> as_revision l = as_revision r \<and> same_active_status l r"
| "same_agent_status (Inactive_Status m) (Inactive_Status n) \<longleftrightarrow> m = n"
| "same_agent_status _ _ \<longleftrightarrow> False"

definition is_valid_agent_renewal :: "active_status \<Rightarrow> active_status \<Rightarrow> bool" where
  "is_valid_agent_renewal expected renewed \<longleftrightarrow>
     db_document_id (as_binding expected) = db_document_id (as_binding renewed)
     \<and> db_generation (as_binding expected) = db_generation (as_binding renewed)
     \<and> db_tab_id (as_binding expected) = db_tab_id (as_binding renewed)
     \<and> as_ownership_id expected = as_ownership_id renewed \<and> as_issued expected = as_issued renewed
     \<and> as_lease_id expected = as_lease_id renewed \<and> as_last_activity expected \<le> as_last_activity renewed
     \<and> as_revision expected < as_revision renewed"

text \<open>\<open>#installAgentStatus\<close>; the value comes from a frame and satisfies the schema.\<close>

definition install_agent_status :: "agent_status \<Rightarrow> agent_status session_operation" where
  "install_agent_status new =
     seq (get bs_status) (\<lambda>current. case current of
         None \<Rightarrow> seq (change (\<lambda>s. s\<lparr>bs_status := Some new\<rparr>)) (\<lambda>_. give new)
       | Some old \<Rightarrow>
           if status_revision new < status_revision old
           then fail_with (protocol_violation ''The browser sent an older Web Agent status revision.'')
           else if status_revision new = status_revision old
           then (if same_agent_status old new then give old
             else fail_with (protocol_violation ''The browser redefined a Web Agent status revision.''))
           else seq (change (\<lambda>s. s\<lparr>bs_status := Some new\<rparr>)) (\<lambda>_. give new))"

section \<open>Capabilities\<close>

definition install_snapshot :: "jstr \<Rightarrow> browser_capabilities \<Rightarrow> capability_snapshot session_operation" where
  "install_snapshot session c =
     seq (get (\<lambda>s. \<lparr>cs_capabilities = c, cs_generation = bs_next_generation s, cs_session_id = session\<rparr>)) (\<lambda>snapshot.
     seq (change (\<lambda>s. s\<lparr>bs_next_generation := Suc (bs_next_generation s), bs_snapshot := Some snapshot\<rparr>)) (\<lambda>_.
     give snapshot))"

definition install_capabilities :: "browser_capabilities \<Rightarrow> capability_snapshot session_operation" where
  "install_capabilities c =
     seq (check (\<lambda>s. case bs_session_id s of
         None \<Rightarrow> throw (protocol_violation ''Browser capabilities have no active session.'')
       | Some session \<Rightarrow> return session)) (\<lambda>session.
     seq (get (\<lambda>s. map_of (bs_revisions s) (bc_catalog_revision c))) (\<lambda>known.
     seq (forbid (\<lambda>_. known \<noteq> None \<and> known \<noteq> Some c)
       (session_error Browser_State_Changed ''The browser redefined an existing model catalog revision.'' False)) (\<lambda>_.
     seq (forbid (\<lambda>s. known = None \<and> so_max_revisions (bs_options s) \<le> length (bs_revisions s))
       (session_error Browser_State_Changed ''The browser model catalog changed too many times in one session.'' True)) (\<lambda>_.
     seq (change (\<lambda>s. if known = None
         then s\<lparr>bs_revisions := AList.update (bc_catalog_revision c) c (bs_revisions s)\<rparr> else s)) (\<lambda>_.
     seq (get bs_snapshot) (\<lambda>current. case current of
         Some old \<Rightarrow>
           if bc_catalog_revision (cs_capabilities old) = bc_catalog_revision c \<and> known = Some c then give old
           else install_snapshot session c
       | None \<Rightarrow> install_snapshot session c))))))"

end
