(* ===== verification/Browser_Session_Steps.thy ===== *)
theory Browser_Session_Steps
  imports Browser_Session
begin

text \<open>
  The operations of the browser session coordinator
  (\<open>apps/bridge/src/browser/browser-session-coordinator.ts\<close>): its public methods, the handlers of the
  browser's frames, the timers, and the steps of a coordinator.
\<close>

text \<open>
  How a call ends: it throws, answers a value, or answers a promise; one that is rejected or resolved from
  the start has no number.
\<close>

datatype session_reply =
    Threw bridge_error
  | Promised nat
  | Rejected_Promise bridge_error
  | Resolved_Promise
  | Leased nat
  | Answered_Bool bool
  | Turn_Handle nat nat jstr
  | Receiving
  | Received bool
  | Receive_Rejected bridge_error
  | No_Reply

section \<open>Connecting\<close>

text \<open>\<open>attach\<close>; the argument tells whether the value is a port.\<close>

definition attach_port :: "bool \<Rightarrow> session_reply session_operation" where
  "attach_port valid =
     seq (forbid bs_closed (session_error Session_Closed ''The browser session coordinator is closed.'' False)) (\<lambda>_.
     seq (forbid (\<lambda>s. bs_lease s \<noteq> None \<or> \<not> valid)
       (session_error Transport_Unavailable ''A browser transport is already attached or invalid.'' False)) (\<lambda>_.
     seq (get bs_next_lease) (\<lambda>lease.
     seq (change (\<lambda>s. s\<lparr>bs_next_lease := Suc lease, bs_lease := Some lease\<rparr>)) (\<lambda>_.
     give (Leased lease)))))"

definition detach_port :: "nat \<Rightarrow> browser_session \<Rightarrow> session_reply \<times> browser_session" where
  "detach_port lease s =
     (if bs_lease s \<noteq> Some lease then (Answered_Bool False, s)
      else (Answered_Bool True,
        teardown_transport
          (session_error Transport_Unavailable ''The authenticated browser transport was disconnected.'' True) False s))"

definition close_session :: "browser_session \<Rightarrow> browser_session" where
  "close_session s =
     (if bs_closed s then s
      else (teardown_transport (session_error Session_Closed ''The browser session coordinator was closed.'' False) True
             (s\<lparr>bs_closed := True\<rparr>))\<lparr>bs_phase := Phase_Closed\<rparr>)"

definition session_command :: "pending_kind \<Rightarrow> jstr \<Rightarrow> nat \<Rightarrow> pending_operation" where
  "session_command kind session delay = \<lparr>po_kind = kind, po_session = session, po_turn = None, po_timer = delay\<rparr>"

definition connect_session :: "bool \<Rightarrow> session_reply session_operation" where
  "connect_session accepted =
     seq assert_attached (\<lambda>_.
     seq (forbid (\<lambda>s. bs_phase s \<noteq> Phase_Disconnected)
       (session_error Session_Already_Connected ''A browser session is already active or being established.'' False)) (\<lambda>_.
     seq (create_session_identifier For_Session) (\<lambda>session.
     seq (create_session_identifier For_Request) (\<lambda>request.
     seq create_deferred (\<lambda>n.
     seq (change (\<lambda>s. s\<lparr>bs_connection := Some (n, session), bs_session_id := Some session, bs_phase := Phase_Connecting\<rparr>)) (\<lambda>_.
     seq (attempt
       (seq (get (\<lambda>s. so_command_timeout (bs_options s))) (\<lambda>delay.
        seq (reserve_pending request (session_command Connect_Session session delay)) (\<lambda>_.
        send_command accepted request (Session_Connect session))))
       (\<lambda>e. seq (change (reset_session e False)) (\<lambda>_. fail_with e))) (\<lambda>_.
     give (Promised n))))))))"

text \<open>The part of \<open>disconnect\<close> after the attempt is made: a pending connection is cancelled.\<close>

definition begin_disconnect :: "nat \<Rightarrow> jstr \<Rightarrow> jstr \<Rightarrow> browser_session \<Rightarrow> browser_session" where
  "begin_disconnect n request session s =
     (let s1 = s\<lparr>bs_disconnect := Some \<lparr>sa_promise = n, sa_request = request, sa_session = session\<rparr>,
          bs_phase := Phase_Disconnecting\<rparr>
      in case bs_connection s of
           None \<Rightarrow> s1
         | Some (m, _) \<Rightarrow>
             (settle m (Got_Error (session_error Session_Closed ''The browser session connection was cancelled.'' False)) s1)
               \<lparr>bs_connection := None\<rparr>)"

definition disconnect_session :: "bool \<Rightarrow> close_reason \<Rightarrow> session_reply session_operation" where
  "disconnect_session accepted reason =
     seq (get bs_phase) (\<lambda>phase. if phase = Phase_Disconnected then give Resolved_Promise else
     seq assert_attached (\<lambda>_.
     seq (get bs_session_id) (\<lambda>current. case current of
         None \<Rightarrow> give (Rejected_Promise (session_error Session_Closed ''The browser session is closed.'' False))
       | Some session \<Rightarrow>
           if phase = Phase_Closed
           then give (Rejected_Promise (session_error Session_Closed ''The browser session is closed.'' False)) else
           seq (get bs_disconnect) (\<lambda>pending. case pending of
               Some a \<Rightarrow> give (Promised (sa_promise a))
             | None \<Rightarrow>
                 seq (create_session_identifier For_Request) (\<lambda>request.
                 seq create_deferred (\<lambda>n.
                 seq (change (begin_disconnect n request session)) (\<lambda>_.
                 seq (attempt
                   (seq (get (\<lambda>s. so_command_timeout (bs_options s))) (\<lambda>delay.
                    seq (reserve_pending request (session_command Disconnect_Session session delay)) (\<lambda>_.
                    send_command accepted request (Session_Disconnect session (Some reason)))))
                   (\<lambda>e. change (teardown_transport e True))) (\<lambda>_.
                 give (Promised n)))))))))"

section \<open>Agent status\<close>

definition not_connected :: bridge_error where
  "not_connected = session_error Session_Not_Connected ''No ready browser session is connected.'' True"

text \<open>The \<open>catch\<close> of a status read or an activity note: the command is withdrawn, its promise rejected.\<close>

definition withdraw_status_read :: "nat \<Rightarrow> jstr \<Rightarrow> bridge_error \<Rightarrow> browser_session \<Rightarrow> browser_session" where
  "withdraw_status_read n request e s = settle n (Got_Error e) ((remove_pending request s)\<lparr>bs_status_read := None\<rparr>)"

definition withdraw_activity :: "nat \<Rightarrow> jstr \<Rightarrow> bridge_error \<Rightarrow> browser_session \<Rightarrow> browser_session" where
  "withdraw_activity n request e s = settle n (Got_Error e) ((remove_pending request s)\<lparr>bs_activity := None\<rparr>)"

definition refresh_agent_status :: "bool \<Rightarrow> session_reply session_operation" where
  "refresh_agent_status accepted =
     seq assert_attached (\<lambda>_.
     seq (get (\<lambda>s. if bs_phase s = Phase_Ready then bs_session_id s else None)) (\<lambda>ready. case ready of
         None \<Rightarrow> give (Rejected_Promise not_connected)
       | Some session \<Rightarrow>
           seq (get bs_status_read) (\<lambda>pending. case pending of
               Some a \<Rightarrow> give (Promised (sa_promise a))
             | None \<Rightarrow>
                 seq (create_session_identifier For_Request) (\<lambda>request.
                 seq create_deferred (\<lambda>n.
                 seq (change (\<lambda>s. s\<lparr>bs_status_read := Some \<lparr>sa_promise = n, sa_request = request, sa_session = session\<rparr>\<rparr>)) (\<lambda>_.
                 seq (attempt
                   (seq (get (\<lambda>s. so_command_timeout (bs_options s))) (\<lambda>delay.
                    seq (reserve_pending request (session_command Read_Status session delay)) (\<lambda>_.
                    send_command accepted request (Agent_Status_Read session))))
                   (\<lambda>e. change (withdraw_status_read n request e))) (\<lambda>_.
                 give (Promised n))))))))"

text \<open>\<open>noteAgentActivity\<close>, with what it is expected to renew.\<close>

definition note_agent_activity :: "bool \<Rightarrow> jnum option \<Rightarrow> jval \<Rightarrow> session_reply session_operation" where
  "note_agent_activity accepted clock expected =
     seq assert_attached (\<lambda>_.
     seq (active_agent_status clock) (\<lambda>current. case active_status_schema expected of
         None \<Rightarrow> give (Rejected_Promise (browser_state_changed ''The Web Agent activation lease is invalid.''))
       | Some a \<Rightarrow>
           (case current of
              None \<Rightarrow> give (Rejected_Promise (browser_state_changed ''The Web Agent activation lease is stale.''))
            | Some c \<Rightarrow> if \<not> same_active_status c a
                then give (Rejected_Promise (browser_state_changed ''The Web Agent activation lease is stale.'')) else
     seq (get (\<lambda>s. if bs_phase s = Phase_Ready then bs_session_id s else None)) (\<lambda>ready. case ready of
         None \<Rightarrow> give (Rejected_Promise not_connected)
       | Some session \<Rightarrow>
           seq (get bs_activity) (\<lambda>pending. case pending of
               Some (b, p) \<Rightarrow>
                 if same_active_status b a then give (Promised (sa_promise p))
                 else give (Rejected_Promise (browser_state_changed ''Another Web Agent lease renewal is active.''))
             | None \<Rightarrow>
                 seq (create_session_identifier For_Request) (\<lambda>request.
                 seq create_deferred (\<lambda>n.
                 seq (change (\<lambda>s. s\<lparr>bs_activity := Some (a, \<lparr>sa_promise = n, sa_request = request, sa_session = session\<rparr>)\<rparr>)) (\<lambda>_.
                 seq (attempt
                   (seq (get (\<lambda>s. so_command_timeout (bs_options s))) (\<lambda>delay.
                    seq (reserve_pending request (session_command Note_Activity session delay)) (\<lambda>_.
                    send_command accepted request (Agent_Activity_Note a session))))
                   (\<lambda>e. change (withdraw_activity n request e))) (\<lambda>_.
                 give (Promised n))))))))))"

section \<open>Starting a turn\<close>

record session_turn_request =
  st_catalog_revision :: jstr
  st_input :: jval
  st_model_id :: jstr
  st_reasoning_effort :: jstr
  st_session_generation :: nat
  st_session_id :: jstr
  st_temporary :: bool

definition assert_turn_capabilities :: "browser_capabilities \<Rightarrow> session_turn_request \<Rightarrow> (bridge_error, unit) result" where
  "assert_turn_capabilities c r =
     and_then (reject_if (st_catalog_revision r \<noteq> bc_catalog_revision c)
       (session_error Browser_State_Changed ''The selected browser model catalog is stale.'' True)) (\<lambda>_.
     case List.find (\<lambda>m. md_id m = st_model_id r) (bc_models c) of
       None \<Rightarrow> throw (session_error Model_Unavailable ''The selected browser model is unavailable.'' True)
     | Some m \<Rightarrow>
         and_then (reject_if (\<not> list_ex (\<lambda>o'. eo_effort o' = st_reasoning_effort r) (md_efforts m))
           (session_error Capability_Unsupported ''The selected browser reasoning effort is unsupported.'' False)) (\<lambda>_.
         reject_if (st_temporary r \<and> \<not> bc_temporary_chat c)
           (session_error Capability_Unsupported ''Temporary browser turns are unsupported by this session.'' False)))"

text \<open>The start frame of a turn, read by the schema of its kind.\<close>

definition turn_start_body ::
    "active_status option \<Rightarrow> session_turn_request \<Rightarrow> jstr \<Rightarrow> jstr \<Rightarrow> frame_body option" where
  "turn_start_body expected r session turn =
     (case expected of
        None \<Rightarrow> turn_start_schema (JObj
          [(js ''catalogRevision'', JStr (st_catalog_revision r)), (js ''input'', st_input r),
           (js ''modelId'', JStr (st_model_id r)), (js ''reasoningEffort'', JStr (st_reasoning_effort r)),
           (js ''sessionId'', JStr session), (js ''temporary'', JBool (st_temporary r)), (js ''turnId'', JStr turn)])
      | Some a \<Rightarrow> agent_turn_start_schema (JObj
          [(js ''agentProtocolVersion'', num AGENT_WORKFLOW_PROTOCOL_VERSION),
           (js ''catalogRevision'', JStr (st_catalog_revision r)), (js ''expected'', active_status_value a),
           (js ''input'', st_input r), (js ''modelId'', JStr (st_model_id r)),
           (js ''reasoningEffort'', JStr (st_reasoning_effort r)), (js ''sessionId'', JStr session),
           (js ''temporary'', JBool False), (js ''turnId'', JStr turn)]))"

text \<open>The checks of \<open>#startTurn\<close>; they answer the snapshot.\<close>

definition check_turn ::
    "jnum option \<Rightarrow> session_turn_request \<Rightarrow> bool \<Rightarrow> active_status option \<Rightarrow> capability_snapshot session_operation" where
  "check_turn clock r sink expected =
     seq assert_attached (\<lambda>_.
     seq (check (\<lambda>s. case (bs_phase s, bs_snapshot s) of
         (Phase_Ready, Some snapshot) \<Rightarrow> return snapshot | _ \<Rightarrow> throw not_connected)) (\<lambda>snapshot.
     seq (forbid (\<lambda>s. bs_turn s \<noteq> None)
       (session_error Turn_Already_Active ''A browser turn is already active.'' True)) (\<lambda>_.
     seq (case expected of
         None \<Rightarrow> give ()
       | Some a \<Rightarrow>
           seq (active_agent_status clock) (\<lambda>current.
           seq (forbid (\<lambda>_. case current of None \<Rightarrow> True | Some c \<Rightarrow> \<not> same_active_status c a)
             (browser_state_changed ''The Web Agent activation lease is stale.'')) (\<lambda>_.
           forbid (\<lambda>_. st_temporary r)
             (session_error Capability_Unsupported ''Temporary Web Agent turns are unsupported.'' False)))) (\<lambda>_.
     seq (forbid (\<lambda>_. \<not> sink) (session_error Internal_Error ''The browser turn consumer is invalid.'' False)) (\<lambda>_.
     seq (forbid (\<lambda>_. st_session_id r \<noteq> cs_session_id snapshot \<or> st_session_generation r \<noteq> cs_generation snapshot)
       (session_error Browser_State_Changed ''The selected browser session is stale.'' True)) (\<lambda>_.
     seq (check (\<lambda>_. assert_turn_capabilities (cs_capabilities snapshot) r)) (\<lambda>_.
     give snapshot)))))))"

definition new_turn :: "capability_snapshot \<Rightarrow> jstr \<Rightarrow> jstr \<Rightarrow> nat \<Rightarrow> nat \<Rightarrow> nat \<Rightarrow> active_turn" where
  "new_turn snapshot request turn number completion started =
     \<lparr>tn_number = number, tn_cancellable = bc_cancellation (cs_capabilities snapshot), tn_cancel = None,
      tn_completion = completion, tn_session = cs_session_id snapshot, tn_start_request = request, tn_started = started,
      tn_acknowledged = False, tn_phase = Turn_Starting, tn_timer = None, tn_id = turn\<rparr>"

definition start_turn_with ::
    "bool \<Rightarrow> jnum option \<Rightarrow> session_turn_request \<Rightarrow> bool \<Rightarrow> active_status option \<Rightarrow> session_reply session_operation" where
  "start_turn_with accepted clock r sink expected =
     seq (check_turn clock r sink expected) (\<lambda>snapshot.
     seq (create_session_identifier For_Request) (\<lambda>request.
     seq (create_session_identifier For_Turn) (\<lambda>turn.
     case turn_start_body expected r (cs_session_id snapshot) turn of
       None \<Rightarrow> fail_with (session_error Protocol_Invalid_Message ''The browser turn request is invalid.'' False)
     | Some body \<Rightarrow>
         seq create_deferred (\<lambda>completion.
         seq create_deferred (\<lambda>started.
         seq (get bs_turns) (\<lambda>number.
         seq (change (\<lambda>s. s\<lparr>bs_turns := Suc number,
             bs_turn := Some (new_turn snapshot request turn number completion started)\<rparr>)) (\<lambda>_.
         seq (attempt
           (seq (get (\<lambda>s. so_command_timeout (bs_options s))) (\<lambda>delay.
            seq (reserve_pending request \<lparr>po_kind = Start_Turn, po_session = cs_session_id snapshot, po_turn = Some turn,
                po_timer = delay\<rparr>) (\<lambda>_.
            send_command accepted request body)))
           (\<lambda>e. seq (change (settle_active_turn (Terminal_Failed e) (Some e))) (\<lambda>_. fail_with e))) (\<lambda>_.
         give (Turn_Handle started completion turn)))))))))"

definition start_turn :: "bool \<Rightarrow> session_turn_request \<Rightarrow> bool \<Rightarrow> session_reply session_operation" where
  "start_turn accepted r sink = start_turn_with accepted None r sink None"

definition start_agent_turn ::
    "bool \<Rightarrow> jnum option \<Rightarrow> jval \<Rightarrow> session_turn_request \<Rightarrow> bool \<Rightarrow> session_reply session_operation" where
  "start_agent_turn accepted clock expected r sink =
     (case active_status_schema expected of
        None \<Rightarrow> fail_with (browser_state_changed ''The Web Agent activation lease is invalid.'')
      | Some a \<Rightarrow> start_turn_with accepted clock r sink (Some a))"

section \<open>Cancelling a turn\<close>

text \<open>The cancel attempt is given up when the command could not be sent.\<close>

definition abandon_cancel :: "nat \<Rightarrow> nat \<Rightarrow> jstr \<Rightarrow> turn_phase \<Rightarrow> bridge_error \<Rightarrow> browser_session \<Rightarrow> browser_session" where
  "abandon_cancel number n request previous e s =
     (case bs_turn s of
        Some t \<Rightarrow>
          (case tn_cancel t of
             Some c \<Rightarrow>
               if tn_number t = number \<and> ca_request c = request
               then settle n (Got_Error e) (s\<lparr>bs_turn := Some (t\<lparr>tn_cancel := None, tn_phase := previous\<rparr>)\<rparr>)
               else s
           | None \<Rightarrow> s)
      | None \<Rightarrow> s)"

text \<open>\<open>#beginCancel\<close> of the active turn; it answers the number of a promise.\<close>

definition begin_cancel :: "bool \<Rightarrow> active_turn \<Rightarrow> bool \<Rightarrow> nat session_operation" where
  "begin_cancel accepted t timeout =
     (case tn_cancel t of
        Some c \<Rightarrow> give (ca_promise c)
      | None \<Rightarrow>
          seq (create_session_identifier For_Request) (\<lambda>request.
          seq (forbid (\<lambda>_. frame_schema (frame_value \<lparr>nf_request_id = request, nf_sequence = 0,
              nf_body = Turn_Cancel (tn_session t) (tn_id t)\<rparr>) = None) local_failure) (\<lambda>_.
          seq create_deferred (\<lambda>n.
          seq (change (\<lambda>s. s\<lparr>bs_turn := Some (t\<lparr>tn_cancel := Some \<lparr>ca_promise = n, ca_previous = tn_phase t,
              ca_timeout = timeout, ca_request = request\<rparr>, tn_phase := Turn_Cancelling\<rparr>)\<rparr>)) (\<lambda>_.
          seq (attempt
            (seq (get (\<lambda>s. so_cancellation_grace (bs_options s))) (\<lambda>delay.
             seq (reserve_pending request \<lparr>po_kind = Cancel_Turn, po_session = tn_session t, po_turn = Some (tn_id t),
                 po_timer = delay\<rparr>) (\<lambda>_.
             send_command accepted request (Turn_Cancel (tn_session t) (tn_id t)))))
            (\<lambda>e. seq (change (abandon_cancel (tn_number t) n request (tn_phase t) e)) (\<lambda>_. fail_with e))) (\<lambda>_.
          give n))))))"

text \<open>\<open>#cancelTurn\<close>, the \<open>cancel\<close> of a handle.\<close>

definition cancel_turn :: "bool \<Rightarrow> jstr \<Rightarrow> session_reply session_operation" where
  "cancel_turn accepted turn =
     attempt
       (seq (check (\<lambda>s. case bs_turn s of
           None \<Rightarrow> throw (session_error Turn_Not_Found ''The browser turn is no longer active.'' False)
         | Some t \<Rightarrow>
             if tn_id t \<noteq> turn then throw (session_error Turn_Not_Found ''The browser turn is no longer active.'' False)
             else return t)) (\<lambda>t.
        case tn_cancel t of
          Some c \<Rightarrow> give (Promised (ca_promise c))
        | None \<Rightarrow>
            if \<not> tn_cancellable t
            then fail_with (session_error Capability_Unsupported ''The connected browser session does not support cancellation.'' False)
            else seq (begin_cancel accepted t False) (\<lambda>n. give (Promised n))))
       (\<lambda>e. give (Rejected_Promise e))"

definition turn_expired :: bridge_error where
  "turn_expired = session_error Transport_Timeout ''The browser turn exceeded its allowed lifetime.'' True"

text \<open>\<open>#handleTurnTimeout\<close>: the timer of the turn with a number fires.\<close>

definition handle_turn_timeout :: "bool \<Rightarrow> nat \<Rightarrow> unit session_operation" where
  "handle_turn_timeout accepted number =
     seq (get bs_turn) (\<lambda>active. case active of
         None \<Rightarrow> give ()
       | Some t \<Rightarrow>
           if tn_number t \<noteq> number \<or> tn_timer t = None then give () else
           let t' = t\<lparr>tn_timer := None\<rparr> in
           seq (change (\<lambda>s. s\<lparr>bs_turn := Some t'\<rparr>)) (\<lambda>_.
           if \<not> tn_cancellable t' \<or> tn_cancel t' \<noteq> None then change (teardown_transport turn_expired True)
           else attempt (seq (begin_cancel accepted t' True) (\<lambda>_. give ())) (\<lambda>e. change (teardown_transport e True))))"

text \<open>The timer of a command fires.\<close>

definition handle_command_timeout :: "jstr \<Rightarrow> browser_session \<Rightarrow> browser_session" where
  "handle_command_timeout request s =
     (if map_of (bs_pending s) request = None then s
      else teardown_transport
        (session_error Transport_Timeout ''The browser did not acknowledge a command in time.'' True) True s)"

end
