(* ===== verification/Browser_Session_Receive.thy ===== *)
theory Browser_Session_Receive
  imports Browser_Session_Steps
begin

text \<open>
  What the browser session coordinator does with the frames of the browser
  (\<open>apps/bridge/src/browser/browser-session-coordinator.ts\<close>): one handler per frame type, \<open>receive\<close>
  around them, and the coordinator as a system of steps.
\<close>

section \<open>Session frames\<close>

definition handle_session_connected :: "bool \<Rightarrow> jstr \<Rightarrow> jstr \<Rightarrow> unit session_operation" where
  "handle_session_connected accepted request session =
     seq (expect_pending request Connect_Session) (\<lambda>pending.
     seq (assert_session_identity (po_session pending) session) (\<lambda>_.
     seq (forbid (\<lambda>s. bs_phase s \<noteq> Phase_Connecting \<and> bs_phase s \<noteq> Phase_Disconnecting)
       (protocol_violation ''The browser connected in an invalid session state.'')) (\<lambda>_.
     seq (change (remove_pending request)) (\<lambda>_.
     seq (get bs_phase) (\<lambda>phase. if phase = Phase_Disconnecting then give () else
     seq (create_session_identifier For_Request) (\<lambda>next.
     seq (change (\<lambda>s. s\<lparr>bs_phase := Phase_Discovering\<rparr>)) (\<lambda>_.
     seq (get (\<lambda>s. so_command_timeout (bs_options s))) (\<lambda>delay.
     seq (reserve_pending next (session_command Read_Capabilities session delay)) (\<lambda>_.
     send_command accepted next (Capabilities_Read session))))))))))"

definition handle_session_disconnected :: "jstr \<Rightarrow> close_reason \<Rightarrow> unit session_operation" where
  "handle_session_disconnected session reason =
     seq (forbid (\<lambda>s. bs_session_id s = None \<or> bs_phase s = Phase_Disconnected)
       (protocol_violation ''The browser disconnected an unknown session.'')) (\<lambda>_.
     seq (forbid (\<lambda>s. bs_session_id s \<noteq> Some session)
       (protocol_violation ''The browser frame refers to an unknown session.'')) (\<lambda>_.
     change (reset_session
       (session_error Session_Closed ''The connected browser session ended.''
         (reason \<in> {Page_Unavailable, Replaced, Transport_Lost})) True)))"

definition handle_capabilities_result :: "bool \<Rightarrow> jstr \<Rightarrow> jstr \<Rightarrow> browser_capabilities \<Rightarrow> unit session_operation" where
  "handle_capabilities_result accepted request session c =
     seq (expect_pending request Read_Capabilities) (\<lambda>pending.
     seq (assert_session_identity (po_session pending) session) (\<lambda>_.
     seq (forbid (\<lambda>s. bs_phase s \<noteq> Phase_Discovering \<and> bs_phase s \<noteq> Phase_Disconnecting)
       (protocol_violation ''Browser capabilities arrived in an invalid session state.'')) (\<lambda>_.
     seq (change (remove_pending request)) (\<lambda>_.
     seq (get bs_phase) (\<lambda>phase. if phase = Phase_Disconnecting then give () else
     seq (install_capabilities c) (\<lambda>snapshot.
     seq (change (\<lambda>s. s\<lparr>bs_phase := Phase_Ready\<rparr>)) (\<lambda>_.
     seq (check (\<lambda>s. case bs_connection s of
         Some (n, expected) \<Rightarrow>
           if expected = cs_session_id snapshot then return n
           else throw (protocol_violation ''The browser capability result has no connection request.'')
       | None \<Rightarrow> throw (protocol_violation ''The browser capability result has no connection request.''))) (\<lambda>n.
     seq (change (\<lambda>s. settle n (Got_Snapshot snapshot) (s\<lparr>bs_connection := None\<rparr>))) (\<lambda>_.
     attempt (seq (refresh_agent_status accepted) (\<lambda>_. give ())) (\<lambda>_. give ()))))))))))"

definition handle_capabilities_changed :: "jstr \<Rightarrow> browser_capabilities \<Rightarrow> unit session_operation" where
  "handle_capabilities_changed session c =
     seq (forbid (\<lambda>s. bs_session_id s = None)
       (protocol_violation ''Browser capabilities changed for an unknown session.'')) (\<lambda>_.
     seq (forbid (\<lambda>s. bs_session_id s \<noteq> Some session)
       (protocol_violation ''The browser frame refers to an unknown session.'')) (\<lambda>_.
     seq (get bs_phase) (\<lambda>phase. if phase = Phase_Disconnecting then give () else
     seq (forbid (\<lambda>s. bs_phase s \<noteq> Phase_Ready)
       (protocol_violation ''Browser capabilities changed before discovery completed.'')) (\<lambda>_.
     seq (install_capabilities c) (\<lambda>_. give ())))))"

section \<open>Agent status frames\<close>

definition handle_agent_status_result :: "jstr \<Rightarrow> jstr \<Rightarrow> agent_status \<Rightarrow> unit session_operation" where
  "handle_agent_status_result request session status =
     seq (expect_pending request Read_Status) (\<lambda>pending.
     seq (assert_session_identity (po_session pending) session) (\<lambda>_.
     seq (check (\<lambda>s. case bs_status_read s of
         Some a \<Rightarrow>
           if sa_request a = request \<and> sa_session a = session then return a
           else throw (protocol_violation ''The Web Agent status response is not correlated.'')
       | None \<Rightarrow> throw (protocol_violation ''The Web Agent status response is not correlated.''))) (\<lambda>a.
     seq (change (\<lambda>s. (remove_pending request s)\<lparr>bs_status_read := None\<rparr>)) (\<lambda>_.
     seq (install_agent_status status) (\<lambda>installed.
     change (settle (sa_promise a) (Got_Status installed)))))))"

definition handle_agent_status_changed :: "jstr \<Rightarrow> agent_status \<Rightarrow> unit session_operation" where
  "handle_agent_status_changed session status =
     seq (forbid (\<lambda>s. bs_session_id s = None \<or> bs_phase s = Phase_Disconnected)
       (protocol_violation ''Web Agent status changed for an unknown session.'')) (\<lambda>_.
     seq (forbid (\<lambda>s. bs_session_id s \<noteq> Some session)
       (protocol_violation ''The browser frame refers to an unknown session.'')) (\<lambda>_.
     seq (get bs_phase) (\<lambda>phase. if phase = Phase_Disconnecting then give () else
     seq (install_agent_status status) (\<lambda>_. give ()))))"

definition handle_agent_activity_result :: "jstr \<Rightarrow> jstr \<Rightarrow> active_status \<Rightarrow> unit session_operation" where
  "handle_agent_activity_result request session renewed =
     seq (expect_pending request Note_Activity) (\<lambda>pending.
     seq (assert_session_identity (po_session pending) session) (\<lambda>_.
     seq (check (\<lambda>s. case bs_activity s of
         Some (expected, a) \<Rightarrow>
           if sa_request a = request \<and> sa_session a = session then return (expected, a)
           else throw (protocol_violation ''The Web Agent activity response is not correlated.'')
       | None \<Rightarrow> throw (protocol_violation ''The Web Agent activity response is not correlated.''))) (\<lambda>(expected, a).
     seq (forbid (\<lambda>_. \<not> is_valid_agent_renewal expected renewed)
       (protocol_violation ''The Web Agent activity response changed its lease binding.'')) (\<lambda>_.
     seq (change (\<lambda>s. (remove_pending request s)\<lparr>bs_activity := None\<rparr>)) (\<lambda>_.
     seq (install_agent_status (Active_Status renewed)) (\<lambda>installed. case installed of
         Active_Status status \<Rightarrow> change (settle (sa_promise a) (Got_Active status))
       | Inactive_Status _ \<Rightarrow> fail_with (protocol_violation ''The Web Agent activity response is inactive.'')))))))"

section \<open>Turn frames\<close>

definition handle_turn_started :: "jstr \<Rightarrow> jstr \<Rightarrow> jstr \<Rightarrow> unit session_operation" where
  "handle_turn_started request session turn =
     seq (assert_active_turn session turn) (\<lambda>t.
     seq (expect_pending request Start_Turn) (\<lambda>pending.
     seq (assert_turn_identity pending t) (\<lambda>_.
     seq (forbid (\<lambda>_. tn_phase t \<noteq> Turn_Starting \<and> tn_phase t \<noteq> Turn_Cancelling)
       (protocol_violation ''The browser acknowledged a turn more than once.'')) (\<lambda>_.
     seq (change (remove_pending request)) (\<lambda>_.
     change (\<lambda>s. (settle (tn_started t) Got_Nothing s)\<lparr>bs_turn := Some (t\<lparr>tn_acknowledged := True,
         tn_phase := (if tn_phase t \<noteq> Turn_Cancelling then Turn_Streaming else tn_phase t),
         tn_timer := Some (so_turn_timeout (bs_options s))\<rparr>)\<rparr>))))))"

text \<open>How the sink answers a delta when it is called: it throws, or its answer is awaited.\<close>

datatype sink_call = Sink_Throws | Sink_Answers

definition consumer_failed :: bridge_error where
  "consumer_failed = session_error Internal_Error ''The local browser turn consumer failed.'' False"

text \<open>The \<open>catch\<close> around the sink: the transport is torn down when the turn is still the active one.\<close>

definition fail_consumer :: "nat \<Rightarrow> nat \<Rightarrow> browser_session \<Rightarrow> browser_session" where
  "fail_consumer lease number s =
     (if bs_lease s = Some lease \<and> map_option tn_number (bs_turn s) = Some number
      then teardown_transport consumer_failed True s else s)"

definition handle_turn_delta ::
    "sink_call \<Rightarrow> nat \<Rightarrow> jstr \<Rightarrow> jstr \<Rightarrow> delta_channel \<Rightarrow> jstr \<Rightarrow> receive_task session_operation" where
  "handle_turn_delta sink lease session turn channel delta =
     seq (assert_active_turn session turn) (\<lambda>t.
     seq (forbid (\<lambda>_. \<not> tn_acknowledged t)
       (protocol_violation ''The browser streamed output before acknowledging the turn.'')) (\<lambda>_.
     seq (change (\<lambda>s. s\<lparr>bs_deltas := bs_deltas s @ [(tn_number t, channel, delta)]\<rparr>)) (\<lambda>_.
     case sink of
       Sink_Throws \<Rightarrow> seq (change (fail_consumer lease (tn_number t))) (\<lambda>_. fail_with consumer_failed)
     | Sink_Answers \<Rightarrow> give (Awaiting_Sink (tn_number t)))))"

definition handle_turn_completed :: "jstr \<Rightarrow> jstr \<Rightarrow> finish_reason \<Rightarrow> unit session_operation" where
  "handle_turn_completed session turn reason =
     seq (assert_active_turn session turn) (\<lambda>t.
     seq (forbid (\<lambda>_. \<not> tn_acknowledged t)
       (protocol_violation ''The browser completed a turn before acknowledging it.'')) (\<lambda>_.
     change (settle_active_turn (Terminal_Completed reason) None)))"

definition handle_turn_cancelled :: "jstr \<Rightarrow> jstr \<Rightarrow> unit session_operation" where
  "handle_turn_cancelled session turn =
     seq (assert_active_turn session turn) (\<lambda>_. change (settle_active_turn Terminal_Cancelled None))"

definition handle_turn_failed :: "jstr \<Rightarrow> jstr \<Rightarrow> bridge_error \<Rightarrow> unit session_operation" where
  "handle_turn_failed session turn e =
     seq (assert_active_turn session turn) (\<lambda>_. change (settle_active_turn (Terminal_Failed e) None))"

section \<open>Errors of the browser\<close>

text \<open>The answer to a cancellation that the browser refuses.\<close>

definition refuse_cancel :: "jstr \<Rightarrow> bridge_error \<Rightarrow> active_turn \<Rightarrow> unit session_operation" where
  "refuse_cancel request e t =
     seq (check (\<lambda>_. case tn_cancel t of
         Some c \<Rightarrow>
           if ca_request c = request then return c
           else throw (protocol_violation ''The browser cancellation error is not correlated.'')
       | None \<Rightarrow> throw (protocol_violation ''The browser cancellation error is not correlated.''))) (\<lambda>c.
     seq (change (\<lambda>s. s\<lparr>bs_turn := Some (t\<lparr>tn_cancel := None\<rparr>)\<rparr>)) (\<lambda>_.
     if ca_timeout c then change (teardown_transport turn_expired True)
     else change (\<lambda>s. settle (ca_promise c) (Got_Error e) (s\<lparr>bs_turn := Some (t\<lparr>tn_cancel := None, tn_phase := ca_previous c\<rparr>)\<rparr>))))"

definition handle_remote_error :: "jstr \<Rightarrow> bridge_error \<Rightarrow> unit session_operation" where
  "handle_remote_error request e =
     seq (check (\<lambda>s. case map_of (bs_pending s) request of
         None \<Rightarrow> throw (protocol_violation ''The browser error has no pending request.'')
       | Some operation \<Rightarrow> return operation)) (\<lambda>pending.
     seq (change (remove_pending request)) (\<lambda>_.
     case po_kind pending of
       Read_Status \<Rightarrow>
         seq (check (\<lambda>s. case bs_status_read s of
             Some a \<Rightarrow>
               if sa_request a = request then return a
               else throw (protocol_violation ''The Web Agent status error is not correlated.'')
           | None \<Rightarrow> throw (protocol_violation ''The Web Agent status error is not correlated.''))) (\<lambda>a.
         change (\<lambda>s. settle (sa_promise a) (Got_Error e) (s\<lparr>bs_status_read := None, bs_status := None\<rparr>)))
     | Note_Activity \<Rightarrow>
         seq (check (\<lambda>s. case bs_activity s of
             Some (_, a) \<Rightarrow>
               if sa_request a = request then return a
               else throw (protocol_violation ''The Web Agent activity error is not correlated.'')
           | None \<Rightarrow> throw (protocol_violation ''The Web Agent activity error is not correlated.''))) (\<lambda>a.
         change (\<lambda>s. settle (sa_promise a) (Got_Error e) (s\<lparr>bs_activity := None, bs_status := None\<rparr>)))
     | Start_Turn \<Rightarrow>
         seq (assert_active_turn (po_session pending) (case po_turn pending of Some turn \<Rightarrow> turn | None \<Rightarrow> [])) (\<lambda>_.
         change (settle_active_turn (Terminal_Failed e) (Some e)))
     | Cancel_Turn \<Rightarrow>
         seq (assert_active_turn (po_session pending) (case po_turn pending of Some turn \<Rightarrow> turn | None \<Rightarrow> []))
           (refuse_cancel request e)
     | _ \<Rightarrow> change (teardown_transport e True)))"

section \<open>Receiving\<close>

text \<open>\<open>#dispatch\<close>: what is left to wait for when a frame was handled.\<close>

definition wrong_direction :: bridge_error where
  "wrong_direction = protocol_violation ''The browser sent a frame in the wrong direction.''"

definition handled :: "unit session_operation \<Rightarrow> receive_task session_operation" where
  "handled m = seq m (\<lambda>_. give (Dispatched None))"

definition dispatch_frame :: "bool \<Rightarrow> sink_call \<Rightarrow> nat \<Rightarrow> frame \<Rightarrow> receive_task session_operation" where
  "dispatch_frame accepted sink lease frame =
     (let request = nf_request_id frame in
      case nf_body frame of
        Session_Connected session \<Rightarrow> handled (handle_session_connected accepted request session)
      | Session_Disconnected session reason \<Rightarrow> handled (handle_session_disconnected session reason)
      | Capabilities_Result session c \<Rightarrow> handled (handle_capabilities_result accepted request session c)
      | Capabilities_Changed session c \<Rightarrow> handled (handle_capabilities_changed session c)
      | Agent_Status_Result session status \<Rightarrow> handled (handle_agent_status_result request session status)
      | Agent_Status_Changed session status \<Rightarrow> handled (handle_agent_status_changed session status)
      | Agent_Activity_Result session renewed \<Rightarrow> handled (handle_agent_activity_result request session renewed)
      | Turn_Started session turn \<Rightarrow> handled (handle_turn_started request session turn)
      | Turn_Delta session turn channel delta \<Rightarrow> handle_turn_delta sink lease session turn channel delta
      | Turn_Completed session turn reason \<Rightarrow> handled (handle_turn_completed session turn reason)
      | Turn_Cancelled session turn \<Rightarrow> handled (handle_turn_cancelled session turn)
      | Turn_Failed session turn e \<Rightarrow> handled (handle_turn_failed session turn e)
      | Error_Frame e \<Rightarrow> handled (handle_remote_error request e)
      | _ \<Rightarrow> fail_with wrong_direction)"

text \<open>
  \<open>receive\<close> up to its first \<open>await\<close>: a frame that fails its schema, or that arrives while another is being
  handled, tears the transport down at once; what a handler throws does so when the call goes on.
\<close>

definition receive_frame :: "bool \<Rightarrow> sink_call \<Rightarrow> nat \<Rightarrow> jval \<Rightarrow> browser_session \<Rightarrow> session_reply \<times> browser_session" where
  "receive_frame accepted sink lease v s =
     (if bs_lease s \<noteq> Some lease then (Received False, s)
      else if map_of (bs_receiving s) lease \<noteq> None then
        (let e = protocol_violation ''Concurrent browser frame delivery is not allowed.'' in
         (Receive_Rejected e, teardown_transport e True s))
      else case frame_schema v of
          None \<Rightarrow>
            (let e = protocol_violation ''The browser sent an invalid protocol frame.'' in
             (Receive_Rejected e, teardown_transport e True s))
        | Some frame \<Rightarrow>
            (case dispatch_frame accepted sink lease frame s of
               (Inl e, s1) \<Rightarrow> (Receiving, s1\<lparr>bs_receiving := AList.update lease (Dispatched (Some e)) (bs_receiving s1)\<rparr>)
             | (Inr task, s1) \<Rightarrow> (Receiving, s1\<lparr>bs_receiving := AList.update lease task (bs_receiving s1)\<rparr>)))"

text \<open>The promise of a sink settles; the frame it belongs to is then dispatched.\<close>

definition sink_settled :: "bool \<Rightarrow> nat \<Rightarrow> browser_session \<Rightarrow> browser_session" where
  "sink_settled ok lease s =
     (case map_of (bs_receiving s) lease of
        Some (Awaiting_Sink number) \<Rightarrow>
          if ok then s\<lparr>bs_receiving := AList.update lease (Dispatched None) (bs_receiving s)\<rparr>
          else let s1 = fail_consumer lease number s in
            s1\<lparr>bs_receiving := AList.update lease (Dispatched (Some consumer_failed)) (bs_receiving s1)\<rparr>
      | _ \<Rightarrow> s)"

text \<open>\<open>receive\<close> goes on after its frame was dispatched.\<close>

definition receive_resumed :: "nat \<Rightarrow> browser_session \<Rightarrow> session_reply \<times> browser_session" where
  "receive_resumed lease s =
     (case map_of (bs_receiving s) lease of
        Some (Dispatched thrown) \<Rightarrow>
          (case thrown of
             None \<Rightarrow> (Received (bs_lease s = Some lease), s\<lparr>bs_receiving := AList.delete lease (bs_receiving s)\<rparr>)
           | Some e \<Rightarrow>
               let s1 = (if bs_lease s = Some lease then teardown_transport e True s else s) in
               (Receive_Rejected e, s1\<lparr>bs_receiving := AList.delete lease (bs_receiving s1)\<rparr>))
      | _ \<Rightarrow> (No_Reply, s))"

text \<open>The promise of \<open>port.send\<close> is rejected.\<close>

definition send_rejected :: "nat \<Rightarrow> browser_session \<Rightarrow> browser_session" where
  "send_rejected lease s = (if bs_lease s = Some lease then teardown_transport rejected_command True s else s)"

section \<open>Steps\<close>

text \<open>
  A call of the class, an answer it waits for, or a timer, each with what the identifier source and the
  port answer during it.
\<close>

datatype session_event =
    Attach_Port bool
  | Detach_Port nat
  | Close_Session
  | Connect
  | Disconnect close_reason
  | Refresh_Status
  | Note_Agent_Activity "jnum option" jval
  | Start_Text_Turn session_turn_request bool
  | Start_Agent_Turn "jnum option" jval session_turn_request bool
  | Cancel_Active_Turn jstr
  | Frame_Received sink_call nat jval
  | Sink_Settled bool nat
  | Receive_Resumed nat
  | Send_Rejected nat
  | Command_Timer jstr
  | Turn_Timer nat

definition reply_of :: "session_reply session_operation \<Rightarrow> browser_session \<Rightarrow> session_reply \<times> browser_session" where
  "reply_of m s = (case m s of (Inl e, s') \<Rightarrow> (Threw e, s') | (Inr r, s') \<Rightarrow> (r, s'))"

fun session_event_step :: "bool \<Rightarrow> session_event \<Rightarrow> browser_session \<Rightarrow> session_reply \<times> browser_session" where
  "session_event_step accepted (Attach_Port valid) s = reply_of (attach_port valid) s"
| "session_event_step accepted (Detach_Port lease) s = detach_port lease s"
| "session_event_step accepted Close_Session s = (No_Reply, close_session s)"
| "session_event_step accepted Connect s = reply_of (connect_session accepted) s"
| "session_event_step accepted (Disconnect reason) s = reply_of (disconnect_session accepted reason) s"
| "session_event_step accepted Refresh_Status s = reply_of (refresh_agent_status accepted) s"
| "session_event_step accepted (Note_Agent_Activity clock expected) s = reply_of (note_agent_activity accepted clock expected) s"
| "session_event_step accepted (Start_Text_Turn r sink) s = reply_of (start_turn accepted r sink) s"
| "session_event_step accepted (Start_Agent_Turn clock expected r sink) s = reply_of (start_agent_turn accepted clock expected r sink) s"
| "session_event_step accepted (Cancel_Active_Turn turn) s = reply_of (cancel_turn accepted turn) s"
| "session_event_step accepted (Frame_Received sink lease v) s = receive_frame accepted sink lease v s"
| "session_event_step accepted (Sink_Settled ok lease) s = (No_Reply, sink_settled ok lease s)"
| "session_event_step accepted (Receive_Resumed lease) s = receive_resumed lease s"
| "session_event_step accepted (Send_Rejected lease) s = (No_Reply, send_rejected lease s)"
| "session_event_step accepted (Command_Timer request) s = (No_Reply, handle_command_timeout request s)"
| "session_event_step accepted (Turn_Timer number) s = reply_of (seq (handle_turn_timeout accepted number) (\<lambda>_. give No_Reply)) s"

definition session_step ::
    "jval option list \<Rightarrow> bool \<Rightarrow> session_event \<Rightarrow> browser_session \<Rightarrow> session_reply \<times> browser_session" where
  "session_step answers accepted e s = session_event_step accepted e (s\<lparr>bs_answers := answers\<rparr>)"

inductive session_reachable :: "browser_session \<Rightarrow> bool" where
  session_new: "new_browser_session g c r p t = Some s \<Longrightarrow> session_reachable s"
| session_next: "session_reachable s \<Longrightarrow> session_reachable (snd (session_step answers accepted e s))"

text \<open>The \<open>state\<close> getter.\<close>

record session_state =
  ss_active_turn :: "turn_phase option"
  ss_session :: session_phase
  ss_transport :: transport_phase

definition session_state_of :: "browser_session \<Rightarrow> session_state" where
  "session_state_of s =
     \<lparr>ss_active_turn = map_option tn_phase (bs_turn s), ss_session = bs_phase s,
      ss_transport = (if bs_closed s then Transport_Closed else if bs_lease s = None then Transport_Detached
        else Transport_Attached)\<rparr>"

end
