(* ===== verification/Browser_Session_Facts.thy ===== *)
theory Browser_Session_Facts
  imports Browser_Session_Receive
begin

text \<open>
  The invariant of the browser session coordinator: what always holds, what holds unless the transport is
  about to be torn down for a frame that was rejected, and that every step keeps it.
\<close>

section \<open>The fields an auxiliary operation leaves alone\<close>

abbreviation settled :: "browser_session \<Rightarrow> nat set" where
  "settled s \<equiv> fst ` set (bs_outcomes s)"

lemma settled_changed [simp]:
  "settled (settle n x s) = insert n (settled s)"
  by (auto simp: settle_def)

lemma settle_fields [simp]:
  "bs_options (settle n x s) = bs_options s" "bs_answers (settle n x s) = bs_answers s"
  "bs_pending (settle n x s) = bs_pending s" "bs_receiving (settle n x s) = bs_receiving s"
  "bs_recent (settle n x s) = bs_recent s" "bs_revisions (settle n x s) = bs_revisions s"
  "bs_turn (settle n x s) = bs_turn s" "bs_activity (settle n x s) = bs_activity s"
  "bs_status (settle n x s) = bs_status s" "bs_status_read (settle n x s) = bs_status_read s"
  "bs_closed (settle n x s) = bs_closed s" "bs_connection (settle n x s) = bs_connection s"
  "bs_disconnect (settle n x s) = bs_disconnect s" "bs_lease (settle n x s) = bs_lease s"
  "bs_next_lease (settle n x s) = bs_next_lease s" "bs_next_generation (settle n x s) = bs_next_generation s"
  "bs_session_id (settle n x s) = bs_session_id s" "bs_phase (settle n x s) = bs_phase s"
  "bs_snapshot (settle n x s) = bs_snapshot s" "bs_promises (settle n x s) = bs_promises s"
  "bs_turns (settle n x s) = bs_turns s" "bs_sent (settle n x s) = bs_sent s"
  "bs_deltas (settle n x s) = bs_deltas s" "bs_port_closes (settle n x s) = bs_port_closes s"
  by (simp_all add: settle_def)

lemma settle_distinct [simp]: "distinct (map fst (bs_outcomes (settle n x s))) \<longleftrightarrow> distinct (map fst (bs_outcomes s))"
  by (auto simp: settle_def)

lemma remove_pending_fields [simp]:
  "bs_options (remove_pending n s) = bs_options s" "bs_answers (remove_pending n s) = bs_answers s"
  "bs_pending (remove_pending n s) = AList.delete n (bs_pending s)" "bs_receiving (remove_pending n s) = bs_receiving s"
  "bs_recent (remove_pending n s) = bs_recent s" "bs_revisions (remove_pending n s) = bs_revisions s"
  "bs_turn (remove_pending n s) = bs_turn s" "bs_activity (remove_pending n s) = bs_activity s"
  "bs_status (remove_pending n s) = bs_status s" "bs_status_read (remove_pending n s) = bs_status_read s"
  "bs_closed (remove_pending n s) = bs_closed s" "bs_connection (remove_pending n s) = bs_connection s"
  "bs_disconnect (remove_pending n s) = bs_disconnect s" "bs_lease (remove_pending n s) = bs_lease s"
  "bs_next_lease (remove_pending n s) = bs_next_lease s" "bs_next_generation (remove_pending n s) = bs_next_generation s"
  "bs_session_id (remove_pending n s) = bs_session_id s" "bs_phase (remove_pending n s) = bs_phase s"
  "bs_snapshot (remove_pending n s) = bs_snapshot s" "bs_promises (remove_pending n s) = bs_promises s"
  "bs_outcomes (remove_pending n s) = bs_outcomes s" "bs_turns (remove_pending n s) = bs_turns s"
  "bs_sent (remove_pending n s) = bs_sent s" "bs_deltas (remove_pending n s) = bs_deltas s"
  "bs_port_closes (remove_pending n s) = bs_port_closes s"
  by (simp_all add: remove_pending_def)

text \<open>Which promises a state still owes an answer.\<close>

definition turn_promises :: "active_turn \<Rightarrow> nat list" where
  "turn_promises t =
     tn_completion t # (if tn_acknowledged t then [] else [tn_started t])
     @ (case tn_cancel t of None \<Rightarrow> [] | Some c \<Rightarrow> [ca_promise c])"

definition attempt_promises ::
    "(nat \<times> jstr) option \<Rightarrow> session_attempt option \<Rightarrow> (active_status \<times> session_attempt) option \<Rightarrow> session_attempt option
      \<Rightarrow> nat list" where
  "attempt_promises connection read activity disconnect =
     (case connection of None \<Rightarrow> [] | Some (n, _) \<Rightarrow> [n])
     @ (case read of None \<Rightarrow> [] | Some a \<Rightarrow> [sa_promise a])
     @ (case activity of None \<Rightarrow> [] | Some (_, a) \<Rightarrow> [sa_promise a])
     @ (case disconnect of None \<Rightarrow> [] | Some a \<Rightarrow> [sa_promise a])"

definition active_promises :: "active_turn option \<Rightarrow> nat list" where
  "active_promises turn = (case turn of None \<Rightarrow> [] | Some t \<Rightarrow> turn_promises t)"

abbreviation owed_attempts :: "browser_session \<Rightarrow> nat list" where
  "owed_attempts s \<equiv> attempt_promises (bs_connection s) (bs_status_read s) (bs_activity s) (bs_disconnect s)"

abbreviation owed :: "browser_session \<Rightarrow> nat list" where
  "owed s \<equiv> owed_attempts s @ active_promises (bs_turn s)"

text \<open>What settling a turn, a reset and a teardown do.\<close>

lemma settle_turn_fields [simp]:
  "bs_options (settle_active_turn x e s) = bs_options s" "bs_receiving (settle_active_turn x e s) = bs_receiving s"
  "bs_recent (settle_active_turn x e s) = bs_recent s" "bs_revisions (settle_active_turn x e s) = bs_revisions s"
  "bs_turn (settle_active_turn x e s) = None" "bs_activity (settle_active_turn x e s) = bs_activity s"
  "bs_status (settle_active_turn x e s) = bs_status s" "bs_status_read (settle_active_turn x e s) = bs_status_read s"
  "bs_closed (settle_active_turn x e s) = bs_closed s" "bs_connection (settle_active_turn x e s) = bs_connection s"
  "bs_disconnect (settle_active_turn x e s) = bs_disconnect s" "bs_lease (settle_active_turn x e s) = bs_lease s"
  "bs_next_lease (settle_active_turn x e s) = bs_next_lease s"
  "bs_next_generation (settle_active_turn x e s) = bs_next_generation s"
  "bs_session_id (settle_active_turn x e s) = bs_session_id s" "bs_phase (settle_active_turn x e s) = bs_phase s"
  "bs_snapshot (settle_active_turn x e s) = bs_snapshot s" "bs_promises (settle_active_turn x e s) = bs_promises s"
  "bs_turns (settle_active_turn x e s) = bs_turns s" "bs_sent (settle_active_turn x e s) = bs_sent s"
  "bs_deltas (settle_active_turn x e s) = bs_deltas s" "bs_port_closes (settle_active_turn x e s) = bs_port_closes s"
  "distinct (map fst (bs_outcomes (settle_active_turn x e s))) \<longleftrightarrow> distinct (map fst (bs_outcomes s))"
  by (auto simp: settle_active_turn_def Let_def split: option.split)

lemma settle_turn_settled [simp]:
  "settled (settle_active_turn x e s) =
     settled s \<union> (case bs_turn s of None \<Rightarrow> {} | Some t \<Rightarrow> insert (tn_started t) (set (turn_promises t)))"
  by (auto simp: settle_active_turn_def turn_promises_def Let_def split: option.split)

lemma settle_turn_pending:
  "bs_pending (settle_active_turn x e s) =
     (case bs_turn s of
        None \<Rightarrow> bs_pending s
      | Some t \<Rightarrow>
          (case tn_cancel t of None \<Rightarrow> (\<lambda>m. m) | Some c \<Rightarrow> AList.delete (ca_request c))
            (AList.delete (tn_start_request t) (bs_pending s)))"
  by (auto simp: settle_active_turn_def Let_def split: option.split)

lemma settle_attempts_fields [simp]:
  "bs_options (settle_attempts e d s) = bs_options s" "bs_pending (settle_attempts e d s) = bs_pending s"
  "bs_receiving (settle_attempts e d s) = bs_receiving s" "bs_recent (settle_attempts e d s) = bs_recent s"
  "bs_turn (settle_attempts e d s) = bs_turn s" "bs_closed (settle_attempts e d s) = bs_closed s"
  "bs_lease (settle_attempts e d s) = bs_lease s" "bs_next_lease (settle_attempts e d s) = bs_next_lease s"
  "bs_next_generation (settle_attempts e d s) = bs_next_generation s" "bs_promises (settle_attempts e d s) = bs_promises s"
  "bs_turns (settle_attempts e d s) = bs_turns s" "bs_sent (settle_attempts e d s) = bs_sent s"
  "bs_deltas (settle_attempts e d s) = bs_deltas s" "bs_port_closes (settle_attempts e d s) = bs_port_closes s"
  "distinct (map fst (bs_outcomes (settle_attempts e d s))) \<longleftrightarrow> distinct (map fst (bs_outcomes s))"
  "settled (settle_attempts e d s) = settled s \<union> set (owed_attempts s)"
  by (auto simp: settle_attempts_def attempt_promises_def Let_def split: option.splits)

lemma begin_disconnect_fields [simp]:
  "bs_options (begin_disconnect n r i s) = bs_options s" "bs_pending (begin_disconnect n r i s) = bs_pending s"
  "bs_session_id (begin_disconnect n r i s) = bs_session_id s" "bs_lease (begin_disconnect n r i s) = bs_lease s"
  "bs_sent (begin_disconnect n r i s) = bs_sent s" "bs_receiving (begin_disconnect n r i s) = bs_receiving s"
  "bs_closed (begin_disconnect n r i s) = bs_closed s" "bs_phase (begin_disconnect n r i s) = Phase_Disconnecting"
  "bs_turn (begin_disconnect n r i s) = bs_turn s" "bs_connection (begin_disconnect n r i s) = None"
  "bs_disconnect (begin_disconnect n r i s) = Some \<lparr>sa_promise = n, sa_request = r, sa_session = i\<rparr>"
  "bs_status_read (begin_disconnect n r i s) = bs_status_read s" "bs_activity (begin_disconnect n r i s) = bs_activity s"
  "bs_promises (begin_disconnect n r i s) = bs_promises s" "bs_snapshot (begin_disconnect n r i s) = bs_snapshot s"
  "bs_status (begin_disconnect n r i s) = bs_status s" "bs_revisions (begin_disconnect n r i s) = bs_revisions s"
  "bs_next_generation (begin_disconnect n r i s) = bs_next_generation s"
  "bs_deltas (begin_disconnect n r i s) = bs_deltas s" "bs_turns (begin_disconnect n r i s) = bs_turns s"
  by (simp_all add: begin_disconnect_def Let_def split: option.split)

text \<open>A state at rest: no session, and nothing that depends on one.\<close>

definition quiet :: "browser_session \<Rightarrow> bool" where
  "quiet s \<longleftrightarrow> bs_session_id s = None \<and> bs_pending s = [] \<and> bs_turn s = None \<and> bs_activity s = None \<and> bs_status s = None
     \<and> bs_status_read s = None \<and> bs_connection s = None \<and> bs_disconnect s = None \<and> bs_revisions s = [] \<and> bs_snapshot s = None
     \<and> bs_phase s = (if bs_closed s then Phase_Closed else Phase_Disconnected)"

lemma quiet_owed [simp]: "quiet s \<Longrightarrow> owed s = []"
  by (simp add: quiet_def active_promises_def attempt_promises_def)

lemma reset_quiet [simp]: "quiet (reset_session e d s)"
  by (simp add: quiet_def reset_session_def Let_def settle_turn_pending split: option.split)

lemma reset_fields [simp]:
  "bs_options (reset_session e d s) = bs_options s" "bs_receiving (reset_session e d s) = bs_receiving s"
  "bs_recent (reset_session e d s) = bs_recent s" "bs_closed (reset_session e d s) = bs_closed s"
  "bs_lease (reset_session e d s) = bs_lease s" "bs_next_lease (reset_session e d s) = bs_next_lease s"
  "bs_next_generation (reset_session e d s) = bs_next_generation s" "bs_promises (reset_session e d s) = bs_promises s"
  "bs_turns (reset_session e d s) = bs_turns s" "bs_sent (reset_session e d s) = bs_sent s"
  "bs_deltas (reset_session e d s) = bs_deltas s" "bs_port_closes (reset_session e d s) = bs_port_closes s"
  "distinct (map fst (bs_outcomes (reset_session e d s))) \<longleftrightarrow> distinct (map fst (bs_outcomes s))"
  by (simp_all add: reset_session_def Let_def)

lemma reset_settled:
  "settled (reset_session e d s) =
     settled s \<union> set (owed s) \<union> (case bs_turn s of None \<Rightarrow> {} | Some t \<Rightarrow> {tn_started t})"
  by (auto simp: reset_session_def active_promises_def Let_def split: option.split)

lemma teardown_quiet [simp]: "quiet (teardown_transport e c s)"
  using reset_quiet [of e False "s\<lparr>bs_lease := None\<rparr>"] by (simp add: teardown_transport_def quiet_def Let_def)

lemma teardown_fields [simp]:
  "bs_options (teardown_transport e c s) = bs_options s" "bs_receiving (teardown_transport e c s) = bs_receiving s"
  "bs_recent (teardown_transport e c s) = bs_recent s" "bs_closed (teardown_transport e c s) = bs_closed s"
  "bs_lease (teardown_transport e c s) = None" "bs_next_lease (teardown_transport e c s) = bs_next_lease s"
  "bs_next_generation (teardown_transport e c s) = bs_next_generation s"
  "bs_promises (teardown_transport e c s) = bs_promises s"
  "bs_turns (teardown_transport e c s) = bs_turns s" "bs_sent (teardown_transport e c s) = bs_sent s"
  "bs_deltas (teardown_transport e c s) = bs_deltas s"
  "distinct (map fst (bs_outcomes (teardown_transport e c s))) \<longleftrightarrow> distinct (map fst (bs_outcomes s))"
  by (simp_all add: teardown_transport_def Let_def)

lemma teardown_settled:
  "settled (teardown_transport e c s) =
     settled s \<union> set (owed s) \<union> (case bs_turn s of None \<Rightarrow> {} | Some t \<Rightarrow> {tn_started t})"
  by (simp add: teardown_transport_def Let_def reset_settled)

section \<open>What always holds\<close>

text \<open>The parts of the invariant are conditions on the fields they speak about.\<close>

definition accounted :: "(nat \<times> session_outcome) list \<Rightarrow> nat list \<Rightarrow> nat \<Rightarrow> bool" where
  "accounted outcomes due n \<longleftrightarrow>
     distinct (map fst outcomes) \<and> distinct due \<and> set due \<inter> fst ` set outcomes = {}
     \<and> (\<forall>m \<in> set due \<union> fst ` set outcomes. m < n)"

fun turn_kept :: "active_turn option \<Rightarrow> jstr option \<Rightarrow> nat \<Rightarrow> session_phase \<Rightarrow> nat set \<Rightarrow> bool" where
  "turn_kept None session turns phase done_with = True"
| "turn_kept (Some t) session turns phase done_with \<longleftrightarrow>
     session = Some (tn_session t) \<and> tn_number t < turns \<and> (phase = Phase_Ready \<or> phase = Phase_Disconnecting)
     \<and> (tn_phase t = Turn_Streaming \<longrightarrow> tn_acknowledged t) \<and> (tn_acknowledged t \<longrightarrow> tn_started t \<in> done_with)
     \<and> (case tn_cancel t of
           None \<Rightarrow> tn_phase t \<noteq> Turn_Cancelling
         | Some c \<Rightarrow> tn_phase t = Turn_Cancelling \<and> ca_previous c \<noteq> Turn_Cancelling
             \<and> (ca_previous c = Turn_Streaming \<longrightarrow> tn_acknowledged t))"

definition revisions_kept :: "(jstr, browser_capabilities) jsmap \<Rightarrow> nat \<Rightarrow> bool" where
  "revisions_kept revisions n \<longleftrightarrow>
     distinct (map fst revisions) \<and> length revisions \<le> n
     \<and> (\<forall>k c. map_of revisions k = Some c \<longrightarrow> bc_catalog_revision c = k)"

fun snapshot_kept ::
    "capability_snapshot option \<Rightarrow> jstr option \<Rightarrow> nat \<Rightarrow> (jstr, browser_capabilities) jsmap \<Rightarrow> bool" where
  "snapshot_kept None session generation revisions = True"
| "snapshot_kept (Some n) session generation revisions \<longleftrightarrow>
     session = Some (cs_session_id n) \<and> cs_generation n < generation
     \<and> map_of revisions (bc_catalog_revision (cs_capabilities n)) = Some (cs_capabilities n)"

definition attempts_kept ::
    "(nat \<times> jstr) option \<Rightarrow> session_attempt option \<Rightarrow> session_attempt option \<Rightarrow> (active_status \<times> session_attempt) option
      \<Rightarrow> jstr option \<Rightarrow> session_phase \<Rightarrow> bool" where
  "attempts_kept connection disconnect read activity session phase \<longleftrightarrow>
     (case connection of
        None \<Rightarrow> True
      | Some (n, i) \<Rightarrow> session = Some i \<and> (phase = Phase_Connecting \<or> phase = Phase_Discovering))
     \<and> (phase = Phase_Disconnecting \<or> disconnect = None)
     \<and> (phase = Phase_Ready \<or> phase = Phase_Disconnecting \<or> read = None \<and> activity = None)"

definition pending_kept :: "(jstr, pending_operation) jsmap \<Rightarrow> nat \<Rightarrow> bool" where
  "pending_kept pending n \<longleftrightarrow> distinct (map fst pending) \<and> length pending \<le> n"

definition leases_kept :: "nat option \<Rightarrow> (nat, receive_task) jsmap \<Rightarrow> nat \<Rightarrow> bool" where
  "leases_kept lease receiving n \<longleftrightarrow> (\<forall>l. lease = Some l \<or> map_of receiving l \<noteq> None \<longrightarrow> l < n)"

definition deltas_kept :: "(nat \<times> delta_channel \<times> jstr) list \<Rightarrow> nat \<Rightarrow> bool" where
  "deltas_kept deltas n \<longleftrightarrow> (\<forall>d \<in> set deltas. fst d < n)"

definition phases_kept :: "bool \<Rightarrow> nat option \<Rightarrow> jstr option \<Rightarrow> session_phase \<Rightarrow> bool" where
  "phases_kept closed lease session phase \<longleftrightarrow>
     (closed \<longrightarrow> lease = None) \<and> (lease = None \<longrightarrow> session = None)
     \<and> (session = None \<longleftrightarrow> phase = Phase_Disconnected \<or> phase = Phase_Closed) \<and> (closed \<longleftrightarrow> phase = Phase_Closed)"

text \<open>Without a session nothing is left of one.\<close>

definition rest_kept :: "browser_session \<Rightarrow> bool" where
  "rest_kept s \<longleftrightarrow> (bs_session_id s = None \<longrightarrow> quiet s)"

definition core :: "browser_session \<Rightarrow> bool" where
  "core s \<longleftrightarrow>
     accounted (bs_outcomes s) (owed s) (bs_promises s)
     \<and> turn_kept (bs_turn s) (bs_session_id s) (bs_turns s) (bs_phase s) (settled s)
     \<and> revisions_kept (bs_revisions s) (so_max_revisions (bs_options s))
     \<and> snapshot_kept (bs_snapshot s) (bs_session_id s) (bs_next_generation s) (bs_revisions s)
     \<and> attempts_kept (bs_connection s) (bs_disconnect s) (bs_status_read s) (bs_activity s) (bs_session_id s) (bs_phase s)
     \<and> pending_kept (bs_pending s) (so_max_pending (bs_options s))
     \<and> leases_kept (bs_lease s) (bs_receiving s) (bs_next_lease s)
     \<and> deltas_kept (bs_deltas s) (bs_turns s)
     \<and> phases_kept (bs_closed s) (bs_lease s) (bs_session_id s) (bs_phase s)
     \<and> rest_kept s"

lemma core_parts:
  assumes "core s"
  shows "accounted (bs_outcomes s) (owed s) (bs_promises s)"
    "turn_kept (bs_turn s) (bs_session_id s) (bs_turns s) (bs_phase s) (settled s)"
    "revisions_kept (bs_revisions s) (so_max_revisions (bs_options s))"
    "snapshot_kept (bs_snapshot s) (bs_session_id s) (bs_next_generation s) (bs_revisions s)"
    "attempts_kept (bs_connection s) (bs_disconnect s) (bs_status_read s) (bs_activity s) (bs_session_id s) (bs_phase s)"
    "pending_kept (bs_pending s) (so_max_pending (bs_options s))"
    "leases_kept (bs_lease s) (bs_receiving s) (bs_next_lease s)"
    "deltas_kept (bs_deltas s) (bs_turns s)"
    "phases_kept (bs_closed s) (bs_lease s) (bs_session_id s) (bs_phase s)"
    "rest_kept s"
  using assms by (simp_all only: core_def)

text \<open>What is owed and settled as promises are made and settled.\<close>

lemma accounted_fewer: "accounted x d n \<Longrightarrow> distinct d' \<Longrightarrow> set d' \<subseteq> set d \<Longrightarrow> accounted x d' n"
  by (auto simp: accounted_def)

lemma accounted_more:
  "accounted x d n \<Longrightarrow> distinct d' \<Longrightarrow> set d' \<subseteq> insert n (set d) \<Longrightarrow> accounted x d' (Suc n)"
  by (auto simp: accounted_def less_Suc_eq)

lemma accounted_insert: "accounted x (d1 @ d2) n \<Longrightarrow> accounted x (d1 @ n # d2) (Suc n)"
  by (auto simp: accounted_def less_Suc_eq)

lemma accounted_parts:
  "accounted x (a @ b @ c @ d @ t) n \<Longrightarrow>
     accounted x (b @ c @ d @ t) n \<and> accounted x (a @ c @ d @ t) n \<and> accounted x (a @ b @ d @ t) n \<and> accounted x (a @ b @ c @ d) n"
  by (auto simp: accounted_def)

lemma accounted_settle:
  "accounted (bs_outcomes s) d n \<Longrightarrow> distinct d' \<Longrightarrow> set d' \<subseteq> set d - {m} \<Longrightarrow> m < n
    \<Longrightarrow> accounted (bs_outcomes (settle m x s)) d' n"
  by (auto simp: accounted_def)

lemma accounted_below: "accounted x d n \<Longrightarrow> m \<in> set d \<Longrightarrow> m < n"
  by (simp add: accounted_def)

lemma accounted_fresh: "accounted x d n \<Longrightarrow> n \<notin> set d"
  by (auto simp: accounted_def)

lemma turn_kept_settled:
  "turn_kept t session turns phase x \<Longrightarrow> x \<subseteq> y \<Longrightarrow> turn_kept t session turns phase y"
  by (cases t) (auto split: option.splits)

text \<open>The rules that build the invariant up along an operation.\<close>

named_theorems core_intros

lemma core_history [core_intros]:
  "core (s\<lparr>bs_answers := x1\<rparr>) = core s" "core (s\<lparr>bs_recent := x2\<rparr>) = core s" "core (s\<lparr>bs_sent := x3\<rparr>) = core s"
  "core (s\<lparr>bs_port_closes := x4\<rparr>) = core s"
  by (simp_all add: core_def rest_kept_def quiet_def)

lemma core_quiet:
  assumes "quiet s" "distinct (map fst (bs_outcomes s))" "\<forall>n \<in> settled s. n < bs_promises s"
    "leases_kept (bs_lease s) (bs_receiving s) (bs_next_lease s)"
    "bs_closed s \<longrightarrow> bs_lease s = None" "deltas_kept (bs_deltas s) (bs_turns s)"
  shows "core s"
  using assms quiet_owed [OF assms(1)]
  by (simp add: core_def accounted_def revisions_kept_def attempts_kept_def pending_kept_def phases_kept_def rest_kept_def quiet_def)

lemma started_below: "core s \<Longrightarrow> bs_turn s = Some t \<Longrightarrow> tn_started t < bs_promises s"
  using core_parts(1,2) [of s] by (cases "tn_acknowledged t") (auto simp: accounted_def active_promises_def turn_promises_def)

lemma reset_core [core_intros]:
  assumes "core s"
  shows "core (reset_session e d s)"
proof (rule core_quiet)
  show "\<forall>n \<in> settled (reset_session e d s). n < bs_promises (reset_session e d s)"
    using core_parts(1) [OF assms] started_below [OF assms] by (auto simp: reset_settled accounted_def split: option.splits)
qed (use core_parts [OF assms] in \<open>auto simp: accounted_def phases_kept_def\<close>)

lemma teardown_core [core_intros]:
  assumes "core s"
  shows "core (teardown_transport e c s)"
proof (rule core_quiet)
  show "\<forall>n \<in> settled (teardown_transport e c s). n < bs_promises (teardown_transport e c s)"
    using core_parts(1) [OF assms] started_below [OF assms] by (auto simp: teardown_settled accounted_def split: option.splits)
qed (use core_parts [OF assms] in \<open>auto simp: accounted_def phases_kept_def leases_kept_def\<close>)

lemma core_pending:
  "core s \<Longrightarrow> distinct (map fst (bs_pending s))" "core s \<Longrightarrow> length (bs_pending s) \<le> so_max_pending (bs_options s)"
  by (simp_all add: core_def pending_kept_def)

lemma core_rest: "core s \<Longrightarrow> bs_phase s = Phase_Disconnected \<Longrightarrow> quiet s"
  using core_parts(9,10) [of s] by (simp add: rest_kept_def phases_kept_def)

lemma connecting_core [core_intros]:
  assumes "core s" "bs_phase s = Phase_Disconnected" "bs_lease s \<noteq> None" "n = bs_promises s" "p = Suc n"
  shows "core (s\<lparr>bs_promises := p, bs_connection := Some (n, session), bs_session_id := Some session,
           bs_phase := Phase_Connecting\<rparr>)"
  using assms core_parts [OF assms(1)] core_rest [OF assms(1,2)]
  by (auto simp: core_def quiet_def attempt_promises_def active_promises_def attempts_kept_def phases_kept_def rest_kept_def
      accounted_def less_Suc_eq)

lemma pending_core [core_intros]:
  assumes "core s" "bs_session_id s \<noteq> None" "distinct (map fst m)" "length m \<le> so_max_pending (bs_options s)"
  shows "core (s\<lparr>bs_pending := m\<rparr>)"
  using assms by (cases "bs_session_id s") (simp_all add: core_def pending_kept_def rest_kept_def)

lemma core_ready:
  assumes "core s" "bs_phase s = Phase_Ready"
  obtains session lease where "bs_session_id s = Some session" "bs_lease s = Some lease" "bs_connection s = None"
    "bs_disconnect s = None" "\<not> bs_closed s"
  using core_parts(5,9) [OF assms(1)] assms(2)
  by (cases "bs_session_id s"; cases "bs_lease s"; cases "bs_connection s")
    (auto simp: attempts_kept_def phases_kept_def)

text \<open>Attempts come and go.\<close>

lemma attempt_core [core_intros]:
  "core s \<Longrightarrow> n = bs_promises s \<Longrightarrow> p = Suc n \<Longrightarrow> bs_phase s = Phase_Ready \<Longrightarrow> bs_status_read s = None
    \<Longrightarrow> core (s\<lparr>bs_promises := p, bs_status_read := Some \<lparr>sa_promise = n, sa_request = request, sa_session = session\<rparr>\<rparr>)"
  "core s \<Longrightarrow> n = bs_promises s \<Longrightarrow> p = Suc n \<Longrightarrow> bs_phase s = Phase_Ready \<Longrightarrow> bs_activity s = None
    \<Longrightarrow> core (s\<lparr>bs_promises := p, bs_activity := Some (b, \<lparr>sa_promise = n, sa_request = request, sa_session = session\<rparr>)\<rparr>)"
proof -
  let ?a = "\<lparr>sa_promise = n, sa_request = request, sa_session = session\<rparr>"
  assume s: "core s" and n: "n = bs_promises s" "p = Suc n" and ready: "bs_phase s = Phase_Ready"
  obtain session' lease where now: "bs_session_id s = Some session'" "bs_lease s = Some lease" "bs_connection s = None"
      "bs_disconnect s = None" "\<not> bs_closed s" by (rule core_ready [OF s ready])
  note simps = core_def attempts_kept_def phases_kept_def rest_kept_def attempt_promises_def
  show "core (s\<lparr>bs_promises := p, bs_status_read := Some ?a\<rparr>)" if "bs_status_read s = None"
    using accounted_insert [of "bs_outcomes s" "[]"] s now ready that n by (simp add: simps)
  show "core (s\<lparr>bs_promises := p, bs_activity := Some (b, ?a)\<rparr>)" if "bs_activity s = None"
    using accounted_insert [of "bs_outcomes s" "case bs_status_read s of None \<Rightarrow> [] | Some a \<Rightarrow> [sa_promise a]"]
      s now ready that n by (simp add: simps)
qed

lemma fewer_attempts:
  "accounted x (attempt_promises c r a d @ t) n \<Longrightarrow> accounted x (attempt_promises None r a d @ t) n"
  "accounted x (attempt_promises c r a d @ t) n \<Longrightarrow> accounted x (attempt_promises c None a d @ t) n"
  "accounted x (attempt_promises c r a d @ t) n \<Longrightarrow> accounted x (attempt_promises c r None d @ t) n"
  "accounted x (attempt_promises c r a d @ t) n \<Longrightarrow> accounted x (attempt_promises c r a d) n"
  using accounted_parts [of x "case c of None \<Rightarrow> [] | Some (n, _) \<Rightarrow> [n]" "case r of None \<Rightarrow> [] | Some a \<Rightarrow> [sa_promise a]"
      "case a of None \<Rightarrow> [] | Some (_, a) \<Rightarrow> [sa_promise a]" "case d of None \<Rightarrow> [] | Some a \<Rightarrow> [sa_promise a]" t n]
  by (simp_all add: attempt_promises_def)

lemma fewer_attempts_kept:
  assumes "attempts_kept c d r a session phase"
  shows "attempts_kept None d r a session phase" "attempts_kept c d None a session phase"
    "attempts_kept c d r None session phase"
  using assms by (auto simp: attempts_kept_def)

lemma pending_kept_delete: "pending_kept m n \<Longrightarrow> pending_kept (AList.delete k m) n"
  using AList.length_delete_le [of k m] by (simp add: pending_kept_def AList.distinct_delete)

lemma drop_attempt_core [core_intros]:
  assumes "core s"
  shows "core (s\<lparr>bs_status_read := None\<rparr>)" "core (s\<lparr>bs_activity := None\<rparr>)" "core (s\<lparr>bs_connection := None\<rparr>)"
  using core_parts [OF assms] fewer_attempts [OF core_parts(1) [OF assms]] fewer_attempts_kept [OF core_parts(5) [OF assms]]
  by (simp_all add: core_def rest_kept_def quiet_def)

lemma remove_pending_core [core_intros]:
  assumes "core s"
  shows "core (remove_pending request s)"
  using core_parts [OF assms] pending_kept_delete [OF core_parts(6) [OF assms]]
  by (simp add: core_def rest_kept_def quiet_def)

lemma core_fresh [core_intros]:
  assumes "core s"
  shows "bs_promises s \<notin> set (attempt_promises (bs_connection s) None (bs_activity s) (bs_disconnect s))"
    "bs_promises s \<notin> set (attempt_promises (bs_connection s) (bs_status_read s) None (bs_disconnect s))"
    "bs_promises s \<notin> set (active_promises (bs_turn s))"
  using accounted_fresh [OF fewer_attempts(2) [OF core_parts(1) [OF assms]]]
    accounted_fresh [OF fewer_attempts(3) [OF core_parts(1) [OF assms]]]
  by simp_all

lemma settle_core [core_intros]:
  assumes "core s" "n \<notin> set (owed s)" "n < bs_promises s"
  shows "core (settle n x s)"
proof -
  have "accounted (bs_outcomes (settle n x s)) (owed s) (bs_promises s)"
    using core_parts(1) [OF assms(1)] assms(2,3) by (auto simp: accounted_def)
  moreover have "turn_kept (bs_turn s) (bs_session_id s) (bs_turns s) (bs_phase s) (settled (settle n x s))"
    using core_parts(2) [OF assms(1)] by (rule turn_kept_settled) auto
  ultimately show ?thesis using core_parts [OF assms(1)] by (simp add: core_def rest_kept_def quiet_def)
qed

lemma settle_turn_core [core_intros]:
  assumes "core s"
  shows "core (settle_active_turn x e s)"
proof -
  have "accounted (bs_outcomes (settle_active_turn x e s)) (owed_attempts s) (bs_promises s)"
  proof (cases "bs_turn s")
    case None
    then show ?thesis using core_parts(1) [OF assms] by (simp add: active_promises_def accounted_def)
  next
    case (Some t)
    have "tn_started t \<in> settled s \<union> set (turn_promises t)"
      using core_parts(2) [OF assms] Some by (auto simp: turn_promises_def)
    moreover have "tn_started t < bs_promises s" by (rule started_below [OF assms Some])
    ultimately show ?thesis
      using core_parts(1) [OF assms] Some by (auto simp: active_promises_def accounted_def)
  qed
  moreover have "pending_kept (bs_pending (settle_active_turn x e s)) (so_max_pending (bs_options s))"
    using core_parts(6) [OF assms]
    by (simp add: settle_turn_pending pending_kept_delete split: option.split)
  moreover have "rest_kept (settle_active_turn x e s)"
    using core_parts(10) [OF assms] by (simp add: rest_kept_def quiet_def settle_turn_pending)
  ultimately show ?thesis using core_parts [OF assms] by (simp add: core_def active_promises_def)
qed

lemma disconnecting_core [core_intros]:
  assumes "core s" "n = bs_promises s" "p = Suc n" "bs_session_id s = Some session" "bs_disconnect s = None"
  shows "core (begin_disconnect n request session (s\<lparr>bs_promises := p\<rparr>))"
proof -
  have lease: "bs_lease s \<noteq> None" "\<not> bs_closed s"
    using core_parts(9) [OF assms(1)] assms(4) by (auto simp: phases_kept_def)
  have turn: "turn_kept (bs_turn s) (Some session) (bs_turns s) Phase_Disconnecting (settled s)"
    using core_parts(2) [OF assms(1)] assms(4) by (cases "bs_turn s") auto
  have due: "accounted (bs_outcomes s)
      (attempt_promises (bs_connection s) (bs_status_read s) (bs_activity s) (Some \<lparr>sa_promise = n, sa_request = request, sa_session = session\<rparr>)
        @ active_promises (bs_turn s)) p"
    using accounted_insert [of "bs_outcomes s" "attempt_promises (bs_connection s) (bs_status_read s) (bs_activity s) None"
        "active_promises (bs_turn s)" n] core_parts(1) [OF assms(1)] assms(2-5)
    by (simp add: attempt_promises_def)
  note simps = core_def begin_disconnect_def attempts_kept_def phases_kept_def rest_kept_def
  show ?thesis
  proof (cases "bs_connection s")
    case None
    then show ?thesis using assms lease turn due core_parts [OF assms(1)] by (simp add: simps Let_def)
  next
    case (Some c)
    obtain m i where c: "c = (m, i)" by (cases c)
    have m: "m < p" "m \<noteq> n" and dropped: "accounted (bs_outcomes s)
      (attempt_promises None (bs_status_read s) (bs_activity s) (Some \<lparr>sa_promise = n, sa_request = request, sa_session = session\<rparr>)
        @ active_promises (bs_turn s)) p"
      and away: "m \<notin> set (attempt_promises None (bs_status_read s) (bs_activity s)
          (Some \<lparr>sa_promise = n, sa_request = request, sa_session = session\<rparr>) @ active_promises (bs_turn s))"
      using due fewer_attempts(1) [OF due] Some c by (auto simp: accounted_def attempt_promises_def)
    have open': "m \<notin> settled s"
      using core_parts(1) [OF assms(1)] Some c by (auto simp: accounted_def attempt_promises_def)
    have "accounted (bs_outcomes s @ [(m, x)])
      (attempt_promises None (bs_status_read s) (bs_activity s) (Some \<lparr>sa_promise = n, sa_request = request, sa_session = session\<rparr>)
        @ active_promises (bs_turn s)) p" for x
      using dropped m(1) away open' by (auto simp: accounted_def)
    moreover have "turn_kept (bs_turn s) (Some session) (bs_turns s) Phase_Disconnecting (insert m (settled s))"
      using turn by (rule turn_kept_settled) auto
    ultimately show ?thesis
      using assms Some c lease open' core_parts [OF assms(1)] by (simp add: simps Let_def settle_def)
  qed
qed

text \<open>The active turn begins and changes.\<close>

lemma new_turn_core [core_intros]:
  assumes "core s" "n = bs_promises s" "m = Suc n" "p = Suc m" "number = bs_turns s" "k = Suc number"
    "bs_phase s = Phase_Ready" "bs_turn s = None" "bs_session_id s = Some (cs_session_id snapshot)"
  shows "core (s\<lparr>bs_promises := p, bs_turns := k, bs_turn := Some (new_turn snapshot request turn number n m)\<rparr>)"
proof -
  have "accounted (bs_outcomes s) (owed_attempts s @ [n, m]) p"
    using accounted_insert [of "bs_outcomes s" "owed_attempts s @ [n]" "[]" m]
      accounted_insert [of "bs_outcomes s" "owed_attempts s" "[]" n] core_parts(1) [OF assms(1)] assms
    by (simp add: active_promises_def)
  moreover have "deltas_kept (bs_deltas s) k" using core_parts(8) [OF assms(1)] assms by (auto simp: deltas_kept_def less_Suc_eq)
  ultimately show ?thesis
    using assms core_parts [OF assms(1)]
    by (simp add: core_def rest_kept_def new_turn_def active_promises_def turn_promises_def)
qed

lemma changed_turn_core:
  assumes "core s" "bs_turn s = Some t" "tn_number t' = tn_number t" "tn_session t' = tn_session t"
    "turn_kept (Some t') (Some (tn_session t)) (Suc (tn_number t)) Phase_Ready (settled s)"
    "accounted (bs_outcomes s) (owed_attempts s @ turn_promises t') p"
  shows "core (s\<lparr>bs_promises := p, bs_turn := Some t'\<rparr>)"
  using assms core_parts [OF assms(1)]
  by (simp add: core_def rest_kept_def active_promises_def)

lemma changed_turn_core':
  assumes "core s" "bs_turn s = Some t" "tn_number t' = tn_number t" "tn_session t' = tn_session t"
    "turn_kept (Some t') (Some (tn_session t)) (Suc (tn_number t)) Phase_Ready (settled s)"
    "distinct (turn_promises t')" "set (turn_promises t') \<subseteq> set (turn_promises t)"
  shows "core (s\<lparr>bs_turn := Some t'\<rparr>)"
proof -
  have "accounted (bs_outcomes s) (owed_attempts s @ turn_promises t') (bs_promises s)"
    by (rule accounted_fewer [OF core_parts(1) [OF assms(1)]])
      (use core_parts(1) [OF assms(1)] assms in \<open>auto simp: accounted_def active_promises_def\<close>)
  then show ?thesis
    using assms core_parts [OF assms(1)] by (simp add: core_def rest_kept_def active_promises_def)
qed

lemma turn_promises_distinct:
  assumes "core s" "bs_turn s = Some t"
  shows "distinct (turn_promises t)" "set (turn_promises t) \<inter> set (owed_attempts s) = {}"
    "set (turn_promises t) \<inter> settled s = {}" "\<forall>n \<in> set (turn_promises t). n < bs_promises s"
  using core_parts(1) [OF assms(1)] assms(2) by (auto simp: accounted_def active_promises_def)

lemma core_snapshot: "core s \<Longrightarrow> bs_snapshot s = Some n \<Longrightarrow> bs_session_id s = Some (cs_session_id n)"
  using core_parts(4) [of s] by simp

lemma attached_core [core_intros]:
  assumes "core s" "bs_lease s = None" "\<not> bs_closed s" "n = bs_next_lease s" "m = Suc n"
  shows "core (s\<lparr>bs_next_lease := m, bs_lease := Some n\<rparr>)"
proof -
  have "leases_kept (Some n) (bs_receiving s) m"
    using core_parts(7) [OF assms(1)] assms by (auto simp: leases_kept_def less_Suc_eq)
  then show ?thesis
    using assms core_parts [OF assms(1)] by (simp add: core_def rest_kept_def quiet_def phases_kept_def)
qed

lemma same_phase: "bs_phase s = p \<Longrightarrow> s\<lparr>bs_phase := p\<rparr> = s"
  by (cases s) simp

text \<open>Capabilities and status of the session.\<close>

lemma status_core [core_intros]: "core s \<Longrightarrow> bs_session_id s \<noteq> None \<Longrightarrow> core (s\<lparr>bs_status := x\<rparr>)"
  by (cases "bs_session_id s") (simp_all add: core_def rest_kept_def)

lemma cleared_status_core [core_intros]:
  assumes "core s"
  shows "core (s\<lparr>bs_status_read := None, bs_status := None\<rparr>)" "core (s\<lparr>bs_activity := None, bs_status := None\<rparr>)"
  using core_parts [OF drop_attempt_core(1) [OF assms]] core_parts [OF drop_attempt_core(2) [OF assms]]
  by (simp_all add: core_def rest_kept_def quiet_def)

lemma revision_core [core_intros]:
  assumes "core s" "bs_session_id s \<noteq> None" "map_of (bs_revisions s) (bc_catalog_revision c) = None"
    "length (bs_revisions s) < so_max_revisions (bs_options s)" "m = AList.update (bc_catalog_revision c) c (bs_revisions s)"
  shows "core (s\<lparr>bs_revisions := m\<rparr>)"
proof -
  have "revisions_kept m (so_max_revisions (bs_options s))"
    using core_parts(3) [OF assms(1)] assms(3-5)
    by (auto simp: revisions_kept_def length_alist_update AList.distinct_update map_of_alist_update)
  moreover have "snapshot_kept (bs_snapshot s) (bs_session_id s) (bs_next_generation s) m"
    using core_parts(4) [OF assms(1)] assms(3,5) by (cases "bs_snapshot s") (auto simp: map_of_alist_update)
  ultimately show ?thesis
    using assms(1,2) by (cases "bs_session_id s") (simp_all add: core_def rest_kept_def)
qed

lemma snapshot_core [core_intros]:
  "core s \<Longrightarrow> bs_session_id s = Some session \<Longrightarrow> n = bs_next_generation s \<Longrightarrow> m = Suc n
    \<Longrightarrow> map_of (bs_revisions s) (bc_catalog_revision c) = Some c
    \<Longrightarrow> core (s\<lparr>bs_next_generation := m, bs_snapshot := Some \<lparr>cs_capabilities = c, cs_generation = n, cs_session_id = session\<rparr>\<rparr>)"
  by (simp add: core_def rest_kept_def)

lemma discovering_core [core_intros]:
  "core s \<Longrightarrow> bs_phase s = Phase_Connecting \<Longrightarrow> core (s\<lparr>bs_phase := Phase_Discovering\<rparr>)"
  by (cases "bs_turn s") (auto simp: core_def attempts_kept_def phases_kept_def rest_kept_def split: option.splits)

lemma no_turn: "core s \<Longrightarrow> bs_phase s \<noteq> Phase_Ready \<Longrightarrow> bs_phase s \<noteq> Phase_Disconnecting \<Longrightarrow> bs_turn s = None"
  using core_parts(2) [of s] by (cases "bs_turn s") auto

text \<open>A connection is made: its promise settles with the snapshot.\<close>

lemma connected_core [core_intros]:
  assumes "core s" "bs_phase s = Phase_Discovering" "bs_connection s = Some (n, i)"
  shows "core (settle n x (s\<lparr>bs_phase := Phase_Ready, bs_connection := None\<rparr>))"
proof (rule settle_core)
  note simps = core_def attempts_kept_def phases_kept_def rest_kept_def
  show "core (s\<lparr>bs_phase := Phase_Ready, bs_connection := None\<rparr>)"
    using core_parts [OF assms(1)] fewer_attempts(1) [OF core_parts(1) [OF assms(1)]] no_turn [OF assms(1)] assms(2,3)
    by (auto simp: simps)
  show "n \<notin> set (owed (s\<lparr>bs_phase := Phase_Ready, bs_connection := None\<rparr>))"
    using core_parts(1) [OF assms(1)] assms(3) by (auto simp: accounted_def attempt_promises_def)
qed (use core_parts(1) [OF assms(1)] assms(3) in \<open>auto simp: accounted_def attempt_promises_def\<close>)

lemma ready_core [core_intros]:
  assumes "core s" "bs_phase s = Phase_Discovering" "bs_connection s = None"
  shows "core (s\<lparr>bs_phase := Phase_Ready\<rparr>)"
proof -
  have "bs_turn s = None" using no_turn [OF assms(1)] assms(2) by simp
  moreover have "attempts_kept None (bs_disconnect s) (bs_status_read s) (bs_activity s) (bs_session_id s) Phase_Ready"
    using core_parts(5) [OF assms(1)] assms(2) by (simp add: attempts_kept_def)
  moreover have "phases_kept (bs_closed s) (bs_lease s) (bs_session_id s) Phase_Ready" "bs_session_id s \<noteq> None"
    using core_parts(9) [OF assms(1)] assms(2) by (auto simp: phases_kept_def)
  ultimately show ?thesis using core_parts [OF assms(1)] assms(3) by (auto simp: core_def rest_kept_def)
qed

end
