(* ===== verification/Browser_Session_Kept.thy ===== *)
theory Browser_Session_Kept
  imports Browser_Session_Facts
begin

text \<open>Every operation of the browser session coordinator keeps what always holds.\<close>

section \<open>Rules for the shared operations\<close>

lemma ensures_identifier [ensures_simps]:
  "ensures (create_session_identifier kind) Q E s =
     (case identifier_attempts IDENTIFIER_GENERATION_ATTEMPTS kind (bs_recent s) (bs_answers s) of
        (None, answers) \<Rightarrow>
          E (session_error Internal_Error ''The browser correlation identifier generator failed.'' False) (s\<lparr>bs_answers := answers\<rparr>)
      | (Some x, answers) \<Rightarrow>
          Q x (s\<lparr>bs_answers := answers, bs_recent := remember_identifier x (bs_recent s)\<rparr>))"
  by (simp add: ensures_def create_session_identifier_def split: prod.split option.split)

lemma ensures_deferred [ensures_simps]:
  "ensures create_deferred Q E s = Q (bs_promises s) (s\<lparr>bs_promises := Suc (bs_promises s)\<rparr>)"
  by (simp add: ensures_def create_deferred_def)

lemmas shared_operations = reserve_pending_def send_command_def assert_attached_def assert_session_identity_def
  assert_active_turn_def assert_turn_identity_def expect_pending_def

text \<open>Reading the status changes nothing.\<close>

lemma ensures_active_status [ensures_simps]:
  "ensures (active_agent_status clock) Q E s = (case fst (active_agent_status clock s) of Inl e \<Rightarrow> E e s | Inr x \<Rightarrow> Q x s)"
  by (simp add: ensures_def active_agent_status_def read_session_clock_def seq_def get_def give_def fail_with_def
      split: prod.split sum.split option.split agent_status.split jnum.split)

lemmas kept_simps = core_pending ensures_simps length_alist_update AList.distinct_update AList.distinct_delete not_le Suc_le_eq

section \<open>Commands\<close>

lemma connect_core:
  "core s \<Longrightarrow> ensures (connect_session accepted) (\<lambda>_. core) (\<lambda>_. core) s"
  unfolding connect_session_def shared_operations
  by (simp add: core_intros kept_simps split: prod.split option.split)

lemma disconnect_core:
  "core s \<Longrightarrow> ensures (disconnect_session accepted reason) (\<lambda>_. core) (\<lambda>_. core) s"
  unfolding disconnect_session_def shared_operations
  by (simp add: core_intros kept_simps split: prod.split option.split)

lemma refresh_core:
  "core s \<Longrightarrow> ensures (refresh_agent_status accepted) (\<lambda>_. core) (\<lambda>_. core) s"
  unfolding refresh_agent_status_def shared_operations withdraw_status_read_def
  by (simp add: core_intros kept_simps split: prod.split option.split)

lemma activity_core:
  "core s \<Longrightarrow> ensures (note_agent_activity accepted clock expected) (\<lambda>_. core) (\<lambda>_. core) s"
  unfolding note_agent_activity_def shared_operations withdraw_activity_def
  by (simp add: core_intros kept_simps split: prod.split option.split sum.split)

lemma attach_core:
  "core s \<Longrightarrow> ensures (attach_port valid) (\<lambda>_. core) (\<lambda>_. core) s"
  unfolding attach_port_def
  by (simp add: core_intros kept_simps)

lemma detach_core: "core s \<Longrightarrow> core (snd (detach_port lease s))"
  by (simp add: detach_port_def core_intros)

lemma close_core:
  assumes "core s"
  shows "core (close_session s)"
proof (cases "bs_closed s")
  case False
  let ?s = "teardown_transport (session_error Session_Closed ''The browser session coordinator was closed.'' False) True (s\<lparr>bs_closed := True\<rparr>)"
  have "core ?s"
  proof (rule core_quiet)
    show "\<forall>n \<in> settled ?s. n < bs_promises ?s"
      using core_parts(1) [OF assms] started_below [OF assms] by (auto simp: teardown_settled accounted_def split: option.splits)
  qed (use core_parts [OF assms] in \<open>auto simp: accounted_def leases_kept_def\<close>)
  moreover have "bs_phase ?s = Phase_Closed" using teardown_quiet by (simp add: quiet_def)
  ultimately show ?thesis using False by (simp add: close_session_def same_phase)
qed (simp add: close_session_def assms)

section \<open>Turns\<close>

lemma check_turn_ready:
  "core s \<Longrightarrow> ensures (check_turn clock r sink expected)
     (\<lambda>snapshot s'. s' = s \<and> bs_phase s = Phase_Ready \<and> bs_turn s = None \<and> bs_snapshot s = Some snapshot
        \<and> bs_session_id s = Some (cs_session_id snapshot)) (\<lambda>_. core) s"
  unfolding check_turn_def shared_operations
  by (auto simp: core_intros kept_simps core_snapshot split: prod.split option.split session_phase.split sum.split)

lemma start_turn_core:
  assumes "core s"
  shows "ensures (start_turn_with accepted clock r sink expected) (\<lambda>_. core) (\<lambda>_. core) s"
proof -
  have "ensures (check_turn clock r sink expected)
     (\<lambda>snapshot s'. s' = s \<and> bs_phase s = Phase_Ready \<and> bs_turn s = None \<and> bs_snapshot s = Some snapshot
        \<and> bs_session_id s = Some (cs_session_id snapshot)) (\<lambda>_. core) s"
    by (rule check_turn_ready [OF assms])
  then show ?thesis
    unfolding start_turn_with_def ensures_seq
    by (rule ensures_weaken)
      (use assms in \<open>auto simp: core_intros kept_simps reserve_pending_def send_command_def split: prod.split option.split\<close>)
qed

lemma cancelling_core [core_intros]:
  assumes "core s" "bs_turn s = Some t" "tn_cancel t = None" "n = bs_promises s" "p = Suc n"
  shows "core (s\<lparr>bs_promises := p, bs_turn := Some (t\<lparr>tn_cancel := Some \<lparr>ca_promise = n, ca_previous = tn_phase t,
      ca_timeout = timeout, ca_request = request\<rparr>, tn_phase := Turn_Cancelling\<rparr>)\<rparr>)"
proof (rule changed_turn_core [OF assms(1,2)])
  show "accounted (bs_outcomes s) (owed_attempts s @ turn_promises (t\<lparr>tn_cancel := Some \<lparr>ca_promise = n, ca_previous = tn_phase t,
      ca_timeout = timeout, ca_request = request\<rparr>, tn_phase := Turn_Cancelling\<rparr>)) p"
    using accounted_insert [of "bs_outcomes s" "owed s" "[]" n] core_parts(1) [OF assms(1)] assms(2-5)
    by (cases "tn_acknowledged t") (simp_all add: active_promises_def turn_promises_def)
qed (use core_parts(2) [OF assms(1)] assms in \<open>auto split: option.splits\<close>)

text \<open>A cancel attempt is dropped and its promise settled.\<close>

lemma dropped_cancel_core:
  assumes "core s" "bs_turn s = Some t" "tn_cancel t = Some c"
  shows "core (settle (ca_promise c) x (s\<lparr>bs_turn := Some (t\<lparr>tn_cancel := None, tn_phase := ca_previous c\<rparr>)\<rparr>))"
proof (rule settle_core)
  note own = turn_promises_distinct [OF assms(1,2)]
  show "core (s\<lparr>bs_turn := Some (t\<lparr>tn_cancel := None, tn_phase := ca_previous c\<rparr>)\<rparr>)"
    by (rule changed_turn_core' [OF assms(1,2)])
      (use core_parts(2) [OF assms(1)] own(1) assms in \<open>auto simp: turn_promises_def\<close>)
  show "ca_promise c \<notin> set (owed (s\<lparr>bs_turn := Some (t\<lparr>tn_cancel := None, tn_phase := ca_previous c\<rparr>)\<rparr>))"
    using own assms by (auto simp: active_promises_def turn_promises_def)
qed (use turn_promises_distinct(4) [OF assms(1,2)] assms in \<open>simp add: turn_promises_def\<close>)

lemma abandon_core [core_intros]:
  assumes "core s"
    "\<forall>t c. bs_turn s = Some t \<longrightarrow> tn_cancel t = Some c \<longrightarrow> ca_request c = request \<longrightarrow> ca_promise c = n \<and> ca_previous c = previous"
  shows "core (abandon_cancel number n request previous e s)"
  using assms dropped_cancel_core [OF assms(1)]
  by (auto simp: abandon_cancel_def split: option.split)

lemma begin_cancel_core:
  assumes "core s" "bs_turn s = Some t"
  shows "ensures (begin_cancel accepted t timeout) (\<lambda>_. core) (\<lambda>_. core) s"
proof -
  have "bs_session_id s = Some (tn_session t)" using core_parts(2) [OF assms(1)] assms(2) by simp
  with assms show ?thesis
    unfolding begin_cancel_def reserve_pending_def send_command_def
    by (cases "tn_cancel t") (simp_all add: core_intros kept_simps split: prod.split option.split)
qed

lemma cancel_turn_core:
  assumes "core s"
  shows "ensures (cancel_turn accepted turn) (\<lambda>_. core) (\<lambda>_. core) s"
proof -
  have "ensures (begin_cancel accepted t False) (\<lambda>_. core) (\<lambda>_. core) s" if "bs_turn s = Some t" for t
    by (rule begin_cancel_core [OF assms that])
  then show ?thesis
    unfolding cancel_turn_def using assms by (auto simp: kept_simps split: option.split)
qed

lemma turn_timeout_core:
  assumes "core s"
  shows "ensures (handle_turn_timeout accepted number) (\<lambda>_. core) (\<lambda>_. core) s"
proof (cases "bs_turn s")
  case (Some t)
  let ?s = "s\<lparr>bs_turn := Some (t\<lparr>tn_timer := None\<rparr>)\<rparr>"
  have kept: "core ?s"
    by (rule changed_turn_core' [OF assms Some])
      (use core_parts(2) [OF assms] turn_promises_distinct(1) [OF assms Some] Some in \<open>auto simp: turn_promises_def split: option.splits\<close>)
  have "ensures (begin_cancel accepted (t\<lparr>tn_timer := None\<rparr>) True) (\<lambda>_. core) (\<lambda>e s. core (teardown_transport e True s)) ?s"
    by (rule ensures_weaken [OF begin_cancel_core [OF kept]]) (simp_all add: core_intros)
  then show ?thesis
    unfolding handle_turn_timeout_def using assms kept Some by (simp add: core_intros kept_simps Let_def)
qed (simp add: handle_turn_timeout_def kept_simps assms)

lemma command_timeout_core: "core s \<Longrightarrow> core (handle_command_timeout request s)"
  by (simp add: handle_command_timeout_def core_intros)

section \<open>Frames of the browser\<close>

lemma install_status_core:
  "core s \<Longrightarrow> bs_session_id s \<noteq> None \<Longrightarrow>
     ensures (install_agent_status status) (\<lambda>x s'. core s' \<and> (\<exists>y. s' = s\<lparr>bs_status := y\<rparr>)) (\<lambda>_. core) s"
  unfolding install_agent_status_def
  by (auto simp: core_intros kept_simps split: option.split intro: exI [of _ "bs_status s"])

lemma install_capabilities_core:
  assumes "core s"
  shows "ensures (install_capabilities c)
     (\<lambda>n s'. core s' \<and> bs_session_id s = Some (cs_session_id n) \<and> bs_phase s' = bs_phase s \<and> bs_connection s' = bs_connection s) (\<lambda>_. core) s"
  unfolding install_capabilities_def install_snapshot_def
  using assms core_snapshot [OF assms]
  by (auto simp: core_intros kept_simps map_of_alist_update split: option.split)

lemma session_connected_core:
  assumes "core s"
  shows "ensures (handle_session_connected accepted request session) (\<lambda>_. core) (\<lambda>_. core) s"
  using assms unfolding handle_session_connected_def shared_operations
  by (auto simp: core_intros kept_simps split: prod.split option.split)

lemma session_disconnected_core:
  "core s \<Longrightarrow> ensures (handle_session_disconnected session reason) (\<lambda>_. core) (\<lambda>_. core) s"
  unfolding handle_session_disconnected_def by (simp add: core_intros kept_simps)

lemma core_connection: "core s \<Longrightarrow> bs_connection s = Some (n, i) \<Longrightarrow> bs_session_id s = Some i"
  using core_parts(5) [of s] by (simp add: attempts_kept_def)

lemma refresh_quietly_core:
  "core s \<Longrightarrow> ensures (attempt (seq (refresh_agent_status accepted) (\<lambda>_. give ())) (\<lambda>_. give ())) (\<lambda>_. core) (\<lambda>_. core) s"
  using refresh_core [of s accepted] by (simp add: ensures_simps)

lemma capabilities_result_core:
  assumes "core s"
  shows "ensures (handle_capabilities_result accepted request session c) (\<lambda>_. core) (\<lambda>_. core) s"
proof -
  have installed: "ensures (install_capabilities c) (\<lambda>snapshot.
      ensures (seq (change (\<lambda>s. s\<lparr>bs_phase := Phase_Ready\<rparr>)) (\<lambda>_.
     seq (check (\<lambda>s. case bs_connection s of
         Some (n, expected) \<Rightarrow>
           if expected = cs_session_id snapshot then return n
           else throw (protocol_violation ''The browser capability result has no connection request.'')
       | None \<Rightarrow> throw (protocol_violation ''The browser capability result has no connection request.''))) (\<lambda>n.
     seq (change (\<lambda>s. settle n (Got_Snapshot snapshot) (s\<lparr>bs_connection := None\<rparr>))) (\<lambda>_.
     attempt (seq (refresh_agent_status accepted) (\<lambda>_. give ())) (\<lambda>_. give ()))))) (\<lambda>_. core) (\<lambda>_. core)) (\<lambda>_. core) s"
    if "core s" "bs_phase s = Phase_Discovering" for s
    by (rule ensures_weaken [OF install_capabilities_core [OF that(1)]])
      (use that core_connection [OF that(1)] in \<open>auto simp: core_intros ensures_seq ensures_change ensures_check
        split: option.split intro!: refresh_quietly_core\<close>)
  show ?thesis
    unfolding handle_capabilities_result_def shared_operations
    by (simp add: assms installed core_intros kept_simps(1,2) ensures_seq ensures_check ensures_forbid ensures_change ensures_get
        ensures_if ensures_give split: option.split)
qed

lemma capabilities_changed_core:
  assumes "core s"
  shows "ensures (handle_capabilities_changed session c) (\<lambda>_. core) (\<lambda>_. core) s"
  using assms ensures_weaken [OF install_capabilities_core [OF assms], of "\<lambda>_. core" "\<lambda>_. core"]
  unfolding handle_capabilities_changed_def by (simp add: core_intros kept_simps)

text \<open>A status is installed and the promise that waited for it settles.\<close>

lemma waiting_promise:
  assumes "core s"
  shows "bs_status_read s = Some a \<Longrightarrow> sa_promise a < bs_promises s
      \<and> sa_promise a \<notin> set (attempt_promises (bs_connection s) None (bs_activity s) (bs_disconnect s) @ active_promises (bs_turn s))"
    "bs_activity s = Some (b, a) \<Longrightarrow> sa_promise a < bs_promises s
      \<and> sa_promise a \<notin> set (attempt_promises (bs_connection s) (bs_status_read s) None (bs_disconnect s) @ active_promises (bs_turn s))"
  using core_parts(1) [OF assms] by (auto simp: accounted_def attempt_promises_def)

lemma installed_core [core_intros]:
  assumes "core s" "bs_session_id s \<noteq> None" "n \<notin> set (owed s)" "n < bs_promises s"
  shows "ensures (install_agent_status status) (\<lambda>x s. core (settle n (f x) s)) (\<lambda>_. core) s"
    "ensures (install_agent_status (Active_Status a))
       (\<lambda>x. ensures (case x of Active_Status b \<Rightarrow> change (settle n (g b)) | Inactive_Status _ \<Rightarrow> fail_with e) (\<lambda>_. core) (\<lambda>_. core))
       (\<lambda>_. core) s"
  by (rule ensures_weaken [OF install_status_core [OF assms(1,2)]],
    use assms in \<open>auto simp: core_intros ensures_simps split: agent_status.split\<close>)+

lemma status_result_core:
  assumes "core s"
  shows "ensures (handle_agent_status_result request session status) (\<lambda>_. core) (\<lambda>_. core) s"
  unfolding handle_agent_status_result_def shared_operations
  using assms waiting_promise(1) [OF assms]
  by (simp add: core_intros kept_simps split: option.split)

lemma status_changed_core:
  assumes "core s"
  shows "ensures (handle_agent_status_changed session status) (\<lambda>_. core) (\<lambda>_. core) s"
  using assms ensures_weaken [OF install_status_core [OF assms], of "\<lambda>_. core" "\<lambda>_. core" status]
  unfolding handle_agent_status_changed_def by (simp add: core_intros kept_simps)

lemma activity_result_core:
  assumes "core s"
  shows "ensures (handle_agent_activity_result request session renewed) (\<lambda>_. core) (\<lambda>_. core) s"
  unfolding handle_agent_activity_result_def shared_operations
  using assms waiting_promise(2) [OF assms]
  by (simp add: core_intros kept_simps split: option.split prod.split)

text \<open>The frames of a turn.\<close>

lemma acknowledged_core [core_intros]:
  assumes "core s" "bs_turn s = Some t" "tn_phase t \<noteq> Turn_Streaming"
    "p = (if tn_phase t \<noteq> Turn_Cancelling then Turn_Streaming else tn_phase t)"
  shows "core (settle (tn_started t) x s\<lparr>bs_turn := Some (t\<lparr>tn_acknowledged := True, tn_phase := p, tn_timer := d\<rparr>)\<rparr>)"
proof -
  let ?t = "t\<lparr>tn_acknowledged := True, tn_phase := p, tn_timer := d\<rparr>"
  have kept: "turn_kept (Some t) (bs_session_id s) (bs_turns s) (bs_phase s) (settled s)"
    using core_parts(2) [OF assms(1)] assms(2) by simp
  have due: "accounted (bs_outcomes s) (owed_attempts s @ turn_promises t) (bs_promises s)"
    using core_parts(1) [OF assms(1)] assms(2) by (simp add: active_promises_def)
  have "tn_started t \<in> set (turn_promises t) \<or> tn_started t \<in> settled s"
    using kept by (auto simp: turn_promises_def)
  then have fresh: "tn_started t \<notin> set (owed_attempts s)" "tn_acknowledged t \<Longrightarrow> tn_started t \<notin> set (turn_promises t)"
    using due kept by (auto simp: accounted_def)
  have own: "distinct (turn_promises t)" using due by (simp add: accounted_def)
  have fewer: "distinct (turn_promises ?t)" "set (turn_promises ?t) \<subseteq> set (turn_promises t) - {tn_started t}"
    using own fresh(2) by (cases "tn_acknowledged t"; cases "tn_cancel t"; auto simp: turn_promises_def)+
  have "accounted (bs_outcomes (settle (tn_started t) x s)) (owed_attempts s @ turn_promises ?t) (bs_promises s)"
    by (rule accounted_settle [OF due])
      (use due fewer fresh(1) started_below [OF assms(1,2)] in \<open>auto simp: accounted_def\<close>)
  moreover have "turn_kept (Some ?t) (bs_session_id s) (bs_turns s) (bs_phase s) (insert (tn_started t) (settled s))"
    using kept assms(4) by (auto split: option.splits)
  ultimately show ?thesis
    using core_parts [OF assms(1)] kept by (simp add: core_def rest_kept_def active_promises_def)
qed

lemma turn_started_core:
  assumes "core s"
  shows "ensures (handle_turn_started request session turn) (\<lambda>_. core) (\<lambda>_. core) s"
  unfolding handle_turn_started_def shared_operations
  using assms
  by (simp add: core_intros kept_simps split: option.split)

lemma fail_consumer_core [core_intros]: "core s \<Longrightarrow> core (fail_consumer lease number s)"
  by (simp add: fail_consumer_def core_intros)

lemma delta_core [core_intros]: 
  "core s \<Longrightarrow> bs_turn s = Some t \<Longrightarrow> n = tn_number t \<Longrightarrow> d = bs_deltas s \<Longrightarrow> core (s\<lparr>bs_deltas := d @ [(n, channel, delta)]\<rparr>)"
  using core_parts(2,8) [of s] by (auto simp: core_def deltas_kept_def rest_kept_def quiet_def)

lemma turn_delta_core:
  "core s \<Longrightarrow> ensures (handle_turn_delta sink lease session turn channel delta) (\<lambda>_. core) (\<lambda>_. core) s"
  unfolding handle_turn_delta_def shared_operations
  by (simp add: core_intros kept_simps split: option.split sink_call.split)

lemma turn_ended_core:
  assumes "core s"
  shows "ensures (handle_turn_completed session turn reason) (\<lambda>_. core) (\<lambda>_. core) s"
    "ensures (handle_turn_cancelled session turn) (\<lambda>_. core) (\<lambda>_. core) s"
    "ensures (handle_turn_failed session turn e) (\<lambda>_. core) (\<lambda>_. core) s"
  unfolding handle_turn_completed_def handle_turn_cancelled_def handle_turn_failed_def shared_operations
  using assms by (simp_all add: core_intros kept_simps split: option.split)

text \<open>Errors of the browser.\<close>

lemma expired_cancel_core [core_intros]:
  assumes "core s" "bs_turn s = Some t"
  shows "core (teardown_transport e c (s\<lparr>bs_turn := Some (t\<lparr>tn_cancel := None\<rparr>)\<rparr>))"
proof (rule core_quiet)
  let ?s = "s\<lparr>bs_turn := Some (t\<lparr>tn_cancel := None\<rparr>)\<rparr>"
  show "\<forall>n \<in> settled (teardown_transport e c ?s). n < bs_promises (teardown_transport e c ?s)"
    using core_parts(1) [OF assms(1)] started_below [OF assms] assms(2)
    by (auto simp: teardown_settled accounted_def active_promises_def turn_promises_def)
qed (use core_parts [OF assms(1)] in \<open>auto simp: accounted_def leases_kept_def\<close>)

lemma refuse_cancel_core [core_intros]:
  "core s \<Longrightarrow> bs_turn s = Some t \<Longrightarrow> ensures (refuse_cancel request e t) (\<lambda>_. core) (\<lambda>_. core) s"
  unfolding refuse_cancel_def using dropped_cancel_core [of s t]
  by (simp add: core_intros kept_simps split: option.split)

lemma failed_status_core [core_intros]:
  assumes "core s"
  shows "bs_status_read s = Some a \<Longrightarrow> core (settle (sa_promise a) x (s\<lparr>bs_status_read := None, bs_status := None\<rparr>))"
    "bs_activity s = Some (b, a) \<Longrightarrow> core (settle (sa_promise a) x (s\<lparr>bs_activity := None, bs_status := None\<rparr>))"
  using waiting_promise(1) [OF assms, of a] waiting_promise(2) [OF assms, of b a] by (auto intro!: settle_core cleared_status_core assms)

lemma remote_error_core:
  assumes "core s"
  shows "ensures (handle_remote_error request e) (\<lambda>_. core) (\<lambda>_. core) s"
  unfolding handle_remote_error_def shared_operations ensures_seq ensures_check
  by (auto simp: assms core_intros kept_simps split: option.split pending_kind.split prod.split)

section \<open>Receiving\<close>

lemma dispatch_core:
  assumes "core s"
  shows "ensures (dispatch_frame accepted sink lease frame) (\<lambda>_. core) (\<lambda>_. core) s"
proof -
  have handled: "ensures (handled m) (\<lambda>_. core) (\<lambda>_. core) s" if "ensures m (\<lambda>_. core) (\<lambda>_. core) s" for m
    using that by (simp add: handled_def ensures_simps)
  show ?thesis
    unfolding dispatch_frame_def Let_def
    using assms by (cases "nf_body frame")
      (simp_all add: handled session_connected_core session_disconnected_core capabilities_result_core capabilities_changed_core
        status_result_core status_changed_core activity_result_core turn_started_core turn_delta_core turn_ended_core
        remote_error_core ensures_fail)
qed

lemma receiving_core [core_intros]:
  assumes "core s"
  shows "r = bs_receiving s \<Longrightarrow> lease < bs_next_lease s \<Longrightarrow> core (s\<lparr>bs_receiving := AList.update lease x r\<rparr>)"
    "r = bs_receiving s \<Longrightarrow> core (s\<lparr>bs_receiving := AList.delete lease r\<rparr>)"
  using assms core_parts(7) [OF assms]
  by (auto simp: core_def leases_kept_def rest_kept_def quiet_def map_of_alist_update AList.delete_conv' split: if_splits)

lemma core_lease: "core s \<Longrightarrow> bs_lease s = Some l \<or> map_of (bs_receiving s) l \<noteq> None \<Longrightarrow> l < bs_next_lease s"
  using core_parts(7) [of s] by (auto simp: leases_kept_def)

end
