(* ===== verification/Browser_Session_History.thy ===== *)
theory Browser_Session_History
  imports Browser_Session_Kept
begin

text \<open>
  How a step of the browser session coordinator changes its history: what was settled stays settled, what
  was sent stays sent, numbers are never used twice, and a new snapshot gets a new generation.
\<close>

definition grown :: "browser_session \<Rightarrow> browser_session \<Rightarrow> bool" where
  "grown s s' \<longleftrightarrow>
     bs_options s' = bs_options s \<and> bs_next_lease s \<le> bs_next_lease s' \<and> bs_promises s \<le> bs_promises s'
     \<and> bs_turns s \<le> bs_turns s' \<and> bs_next_generation s \<le> bs_next_generation s'
     \<and> prefix (bs_outcomes s) (bs_outcomes s') \<and> prefix (bs_sent s) (bs_sent s') \<and> prefix (bs_deltas s) (bs_deltas s')
     \<and> (bs_closed s \<longrightarrow> bs_closed s')
     \<and> (case bs_snapshot s' of
           None \<Rightarrow> True | Some n \<Rightarrow> bs_snapshot s = Some n \<or> bs_next_generation s \<le> cs_generation n)"

lemma grown_refl [simp]: "grown s s"
  by (simp add: grown_def split: option.split)

lemma grown_trans: "grown s s' \<Longrightarrow> grown s' s'' \<Longrightarrow> grown s s''"
  by (auto simp: grown_def split: option.splits intro: prefix_order.trans)

section \<open>How a step uses its operation\<close>

lemma reply_kept: "ensures m (\<lambda>_. P) (\<lambda>_. P) s \<Longrightarrow> P (snd (reply_of m s))"
  by (cases "m s"; cases "fst (m s)") (auto simp: reply_of_def ensures_def)

lemma receive_frame_by:
  assumes "P s" "\<And>e. P (teardown_transport e True s)"
    "\<And>f. frame_schema v = Some f \<Longrightarrow> ensures (dispatch_frame accepted sink lease f) (\<lambda>_. P') (\<lambda>_. P') s"
    "\<And>s' task. bs_lease s = Some lease \<Longrightarrow> P' s' \<Longrightarrow> P (s'\<lparr>bs_receiving := AList.update lease task (bs_receiving s')\<rparr>)"
  shows "P (snd (receive_frame accepted sink lease v s))"
proof (cases "frame_schema v")
  case (Some f)
  then show ?thesis
    using assms(1,2,4) assms(3) [of f]
    by (cases "dispatch_frame accepted sink lease f s"; cases "fst (dispatch_frame accepted sink lease f s)")
      (simp_all add: receive_frame_def ensures_def Let_def)
qed (use assms(1,2) in \<open>simp add: receive_frame_def Let_def\<close>)

lemma turn_timer_by:
  "ensures (handle_turn_timeout accepted number) (\<lambda>_. P) (\<lambda>_. P) s
    \<Longrightarrow> P (snd (reply_of (seq (handle_turn_timeout accepted number) (\<lambda>_. give No_Reply)) s))"
  by (rule reply_kept) (simp add: ensures_simps)

lemma start_agent_turn_by:
  "(\<And>a. ensures (start_turn_with accepted clock r sink (Some a)) (\<lambda>_. P) (\<lambda>_. P) s) \<Longrightarrow> P s
    \<Longrightarrow> ensures (start_agent_turn accepted clock expected r sink) (\<lambda>_. P) (\<lambda>_. P) s"
  by (simp add: start_agent_turn_def ensures_simps split: option.split)

section \<open>What every operation does to the history\<close>

text \<open>
  A relation between an earlier and the present state that the primitive changes of the coordinator keep.
  Every operation but the delivery of a delta then keeps it.
\<close>

named_theorems kept_intros

locale session_relation =
  fixes kept :: "browser_session \<Rightarrow> browser_session \<Rightarrow> bool"
  assumes kept_fields:
    "kept s0 s \<Longrightarrow> kept s0 (s\<lparr>bs_answers := x1\<rparr>)" "kept s0 s \<Longrightarrow> kept s0 (s\<lparr>bs_pending := x2\<rparr>)"
    "kept s0 s \<Longrightarrow> kept s0 (s\<lparr>bs_receiving := x3\<rparr>)" "kept s0 s \<Longrightarrow> kept s0 (s\<lparr>bs_recent := x4\<rparr>)"
    "kept s0 s \<Longrightarrow> kept s0 (s\<lparr>bs_revisions := x5\<rparr>)" "kept s0 s \<Longrightarrow> kept s0 (s\<lparr>bs_turn := x6\<rparr>)"
    "kept s0 s \<Longrightarrow> kept s0 (s\<lparr>bs_activity := x7\<rparr>)" "kept s0 s \<Longrightarrow> kept s0 (s\<lparr>bs_status := x8\<rparr>)"
    "kept s0 s \<Longrightarrow> kept s0 (s\<lparr>bs_status_read := x9\<rparr>)" "kept s0 s \<Longrightarrow> kept s0 (s\<lparr>bs_connection := x10\<rparr>)"
    "kept s0 s \<Longrightarrow> kept s0 (s\<lparr>bs_disconnect := x11\<rparr>)" "kept s0 s \<Longrightarrow> kept s0 (s\<lparr>bs_lease := x12\<rparr>)"
    "kept s0 s \<Longrightarrow> kept s0 (s\<lparr>bs_session_id := x13\<rparr>)" "kept s0 s \<Longrightarrow> kept s0 (s\<lparr>bs_phase := x14\<rparr>)"
    "kept s0 s \<Longrightarrow> kept s0 (s\<lparr>bs_port_closes := x15\<rparr>)" "kept s0 s \<Longrightarrow> kept s0 (s\<lparr>bs_snapshot := None\<rparr>)"
    "kept s0 s \<Longrightarrow> kept s0 (s\<lparr>bs_closed := True\<rparr>)"
  assumes kept_counters:
    "kept s0 s \<Longrightarrow> n = bs_promises s \<Longrightarrow> kept s0 (s\<lparr>bs_promises := Suc n\<rparr>)"
    "kept s0 s \<Longrightarrow> n = bs_turns s \<Longrightarrow> kept s0 (s\<lparr>bs_turns := Suc n\<rparr>)"
    "kept s0 s \<Longrightarrow> n = bs_next_lease s \<Longrightarrow> kept s0 (s\<lparr>bs_next_lease := Suc n\<rparr>)"
    "kept s0 s \<Longrightarrow> x = bs_sent s \<Longrightarrow> kept s0 (s\<lparr>bs_sent := x @ xs\<rparr>)"
    "kept s0 s \<Longrightarrow> n = bs_next_generation s \<Longrightarrow> kept s0 (s\<lparr>bs_next_generation := Suc n,
       bs_snapshot := Some \<lparr>cs_capabilities = c, cs_generation = n, cs_session_id = i\<rparr>\<rparr>)"
  assumes kept_settle: "kept s0 s \<Longrightarrow> kept s0 (settle n outcome s)"
begin

lemmas primitive_intros [kept_intros] = kept_fields kept_counters kept_settle

lemma kept_remove [kept_intros]: "kept s0 s \<Longrightarrow> kept s0 (remove_pending n s)"
  by (simp add: remove_pending_def kept_intros)

lemma kept_settle_turn [kept_intros]: "kept s0 s \<Longrightarrow> kept s0 (settle_active_turn x e s)"
  by (auto simp: settle_active_turn_def kept_intros Let_def split: option.split)

lemma kept_settle_attempts [kept_intros]: "kept s0 s \<Longrightarrow> kept s0 (settle_attempts e d s)"
  by (auto simp: settle_attempts_def kept_intros Let_def split: option.split)

lemma kept_reset [kept_intros]: "kept s0 s \<Longrightarrow> kept s0 (reset_session e d s)"
  by (simp add: reset_session_def kept_intros Let_def)

lemma kept_teardown [kept_intros]: "kept s0 s \<Longrightarrow> kept s0 (teardown_transport e c s)"
  by (simp add: teardown_transport_def kept_intros Let_def)

lemma kept_disconnect [kept_intros]: "kept s0 s \<Longrightarrow> kept s0 (begin_disconnect n r i s)"
  by (simp add: begin_disconnect_def kept_intros Let_def split: option.split)

text \<open>An operation keeps the relation.\<close>

definition keeps :: "'a session_operation \<Rightarrow> bool" where
  "keeps m \<longleftrightarrow> (\<forall>s0 s. kept s0 s \<longrightarrow> ensures m (\<lambda>_. kept s0) (\<lambda>_. kept s0) s)"

lemma keeps_by: "keeps m \<Longrightarrow> kept s0 s \<Longrightarrow> ensures m (\<lambda>_. kept s0) (\<lambda>_. kept s0) s"
  by (simp add: keeps_def)

lemma keeps_seq [kept_intros]: "keeps m \<Longrightarrow> \<forall>x. keeps (f x) \<Longrightarrow> keeps (seq m f)"
  unfolding keeps_def ensures_seq by (blast intro: ensures_weaken)

lemma keeps_attempt [kept_intros]: "keeps m \<Longrightarrow> \<forall>x. keeps (f x) \<Longrightarrow> keeps (attempt m f)"
  unfolding keeps_def ensures_attempt by (blast intro: ensures_weaken)

lemma keeps_basic [kept_intros]:
  "keeps (give x)" "keeps (fail_with e)" "keeps (get f)" "keeps (forbid b e)" "keeps (check h)"
  "keeps (active_agent_status clock)"
  by (simp_all add: keeps_def ensures_give ensures_fail ensures_get ensures_forbid ensures_check ensures_active_status split: sum.split)

lemma keeps_change [kept_intros]: "\<forall>s0 s. kept s0 s \<longrightarrow> kept s0 (f s) \<Longrightarrow> keeps (change f)"
  by (simp add: keeps_def ensures_change)

lemma keeps_identifier [kept_intros]: "keeps (create_session_identifier kind)" "keeps create_deferred"
  by (simp_all add: keeps_def kept_simps kept_intros split: prod.split option.split)

lemma keeps_attached [kept_intros]: "keeps assert_attached" "keeps (reserve_pending r operation)"
    "keeps (send_command accepted r body)" "keeps (assert_session_identity i j)" "keeps (assert_active_turn i j)"
    "keeps (expect_pending r kind)" "keeps (assert_turn_identity operation t)"
  by (simp_all add: shared_operations kept_intros)

lemma keeps_install [kept_intros]: "keeps (install_agent_status status)" "keeps (install_capabilities c)"
  by (simp_all add: install_agent_status_def kept_intros split: option.split)
    (simp add: install_capabilities_def install_snapshot_def keeps_def kept_simps kept_intros split: option.split)

lemma keeps_commands [kept_intros]:
  "keeps (connect_session accepted)" "keeps (disconnect_session accepted reason)"
  "keeps (refresh_agent_status accepted)" "keeps (note_agent_activity accepted clock expected)"
  by (simp_all add: connect_session_def disconnect_session_def refresh_agent_status_def note_agent_activity_def
    withdraw_status_read_def withdraw_activity_def kept_intros split: option.split)

lemma keeps_attach [kept_intros]: "keeps (attach_port valid)"
  by (simp add: attach_port_def keeps_def kept_simps kept_intros)

text \<open>Turns; the turn's number is read and then counted.\<close>

lemma keeps_check_turn [kept_intros]: "keeps (check_turn clock r sink expected)"
  by (simp add: check_turn_def kept_intros split: option.split)

lemma keeps_new_turn [kept_intros]:
  "\<forall>n. keeps (f n) \<Longrightarrow> keeps (seq (get bs_turns) (\<lambda>n. seq (change (\<lambda>s. s\<lparr>bs_turns := Suc n, bs_turn := g n\<rparr>)) (\<lambda>_. f n)))"
  by (simp add: keeps_def kept_simps kept_intros)

lemma keeps_start [kept_intros]: "keeps (start_turn_with accepted clock r sink expected)"
  by (simp add: start_turn_with_def kept_intros split: option.split)

lemma keeps_begin_cancel [kept_intros]: "keeps (begin_cancel accepted t timeout)"
  by (simp add: begin_cancel_def abandon_cancel_def kept_intros split: option.split)

lemma keeps_cancel [kept_intros]: "keeps (cancel_turn accepted turn)" "keeps (handle_turn_timeout accepted number)"
  by (simp_all add: cancel_turn_def handle_turn_timeout_def Let_def kept_intros split: option.split)

text \<open>Frames.\<close>

lemma kept_consumer [kept_intros]: "kept s0 s \<Longrightarrow> kept s0 (fail_consumer lease number s)"
  by (simp add: fail_consumer_def kept_intros)

lemma keeps_handlers [kept_intros]:
  "keeps (handle_session_connected accepted request session)" "keeps (handle_session_disconnected session reason)"
  "keeps (handle_capabilities_result accepted request session c)" "keeps (handle_capabilities_changed session c)"
  "keeps (handle_agent_status_result request session status)" "keeps (handle_agent_status_changed session status)"
  "keeps (handle_agent_activity_result request session renewed)" "keeps (handle_turn_started request session turn)"
  "keeps (handle_turn_completed session turn finish)"
  "keeps (handle_turn_cancelled session turn)" "keeps (handle_turn_failed session turn e)" "keeps (handle_remote_error request e)"
  by (simp_all add: handle_session_connected_def handle_session_disconnected_def handle_capabilities_result_def
    handle_capabilities_changed_def handle_agent_status_result_def handle_agent_status_changed_def handle_agent_activity_result_def
    handle_turn_started_def handle_turn_completed_def handle_turn_cancelled_def handle_turn_failed_def
    handle_remote_error_def refuse_cancel_def kept_intros
    split: option.split prod.split agent_status.split pending_kind.split)

lemma keeps_dispatch:
  assumes "\<And>i turn channel delta. nf_body f = Turn_Delta i turn channel delta
      \<Longrightarrow> keeps (handle_turn_delta sink lease i turn channel delta)"
  shows "keeps (dispatch_frame accepted sink lease f)"
  using assms by (cases "nf_body f") (simp_all add: dispatch_frame_def handled_def Let_def kept_intros)

lemma receive_keeps:
  assumes "\<And>f. frame_schema v = Some f \<Longrightarrow> keeps (dispatch_frame accepted sink lease f)" "kept s0 s"
  shows "kept s0 (snd (receive_frame accepted sink lease v s))"
  by (rule receive_frame_by [where P' = "kept s0"]) (use assms in \<open>simp_all add: kept_intros keeps_by\<close>)

lemma step_keeps:
  assumes "\<And>sink lease v f. e = Frame_Received sink lease v \<Longrightarrow> frame_schema v = Some f \<Longrightarrow> keeps (dispatch_frame accepted sink lease f)"
    "kept s0 s"
  shows "kept s0 (snd (session_step answers accepted e s))"
proof -
  have "kept s0 (s\<lparr>bs_answers := answers\<rparr>)" using assms(2) by (simp add: kept_intros)
  then show ?thesis
    using assms(1) unfolding session_step_def
    by (cases e)
      (simp_all add: reply_kept turn_timer_by start_agent_turn_by keeps_by kept_intros start_turn_def detach_port_def
        close_session_def receive_keeps sink_settled_def handle_command_timeout_def receive_resumed_def send_rejected_def
        Let_def split: option.split receive_task.split)
qed

end

text \<open>The history grows.\<close>

interpretation history: session_relation grown
  by unfold_locales (auto simp: grown_def settle_def prefix_def split: option.splits)

lemma dispatch_grows: "history.keeps (dispatch_frame accepted sink lease f)"
proof (rule history.keeps_dispatch)
  have "grown s0 s \<Longrightarrow> d = bs_deltas s \<Longrightarrow> grown s0 (s\<lparr>bs_deltas := d @ x\<rparr>)" for s0 s d x
    by (auto simp: grown_def prefix_def split: option.splits)
  then show "history.keeps (handle_turn_delta sink lease i turn channel delta)" for i turn channel delta
    by (simp add: handle_turn_delta_def history.keeps_def shared_operations kept_simps kept_intros split: option.split sink_call.split)
qed

section \<open>Steps\<close>

lemma receive_frame_core:
  assumes "core s"
  shows "core (snd (receive_frame accepted sink lease v s))"
proof (rule receive_frame_by [where P' = "\<lambda>s'. core s' \<and> grown s s'"])
  show "ensures (dispatch_frame accepted sink lease f) (\<lambda>_ s'. core s' \<and> grown s s') (\<lambda>_ s'. core s' \<and> grown s s') s" for f
    by (rule ensures_both [OF dispatch_core [OF assms] history.keeps_by [OF dispatch_grows grown_refl]])
qed (use assms core_lease [OF assms, of lease] in \<open>auto simp: core_intros grown_def\<close>)

lemma sink_settled_core: "core s \<Longrightarrow> core (sink_settled ok lease s)"
  using core_lease [of s lease] fail_consumer_core [of s lease]
  by (auto simp: sink_settled_def fail_consumer_def core_intros Let_def split: option.split receive_task.split)

theorem step_core:
  assumes "core s"
  shows "core (snd (session_step answers accepted e s))"
proof -
  have "core (s\<lparr>bs_answers := answers\<rparr>)" using assms by (simp add: core_intros)
  then show ?thesis
    unfolding session_step_def
    by (cases e)
      (simp_all add: reply_kept turn_timer_by start_agent_turn_by attach_core connect_core disconnect_core refresh_core activity_core
        start_turn_def start_turn_core cancel_turn_core detach_core close_core receive_frame_core sink_settled_core
        command_timeout_core turn_timeout_core receive_resumed_def send_rejected_def Let_def core_intros
        split: option.split receive_task.split)
qed

theorem step_grown: "grown s (snd (session_step answers accepted e s))"
  by (rule history.step_keeps) (simp_all add: dispatch_grows)

lemma new_session_core: "new_browser_session g c r p t = Some s \<Longrightarrow> core s"
  by (auto simp: new_browser_session_def bind_eq_Some_conv quiet_def leases_kept_def deltas_kept_def intro!: core_quiet)

lemma reachable_core: "session_reachable s \<Longrightarrow> core s"
  by (induction rule: session_reachable.induct) (auto intro: new_session_core step_core)

section \<open>Runs\<close>

text \<open>Steps in the order they happen, with what the identifier source and the port answer in each.\<close>

fun session_run :: "(jval option list \<times> bool \<times> session_event) list \<Rightarrow> browser_session \<Rightarrow> browser_session" where
  "session_run [] s = s"
| "session_run ((answers, accepted, e) # es) s = session_run es (snd (session_step answers accepted e s))"

lemma session_run_reachable: "session_reachable s \<Longrightarrow> session_reachable (session_run es s)"
  by (induction es s rule: session_run.induct) (auto intro: session_next)

lemma session_run_grown: "grown s (session_run es s)"
proof (induction es s rule: session_run.induct)
  case (2 answers accepted e es s)
  then show ?case using grown_trans [OF step_grown] by simp
qed simp

end
