(* ===== verification/Browser_Session_Promises.thy ===== *)
theory Browser_Session_Promises
  imports Browser_Session_History
begin

text \<open>
  No promise of the browser session coordinator is lost: it is settled, or a part of the state still owes
  it, or it is one of those known to be lost. The steps that do lose one are described by \<open>loses_promise\<close>,
  and \<open>taken_back\<close> says which one it is.
\<close>

definition nothing_lost :: "nat set \<Rightarrow> browser_session \<Rightarrow> bool" where
  "nothing_lost L s \<longleftrightarrow> {..<bs_promises s} \<subseteq> settled s \<union> set (owed s) \<union> L"

lemma nothing_lost_by:
  "nothing_lost L s \<Longrightarrow> bs_promises s' = bs_promises s \<Longrightarrow> settled s \<union> set (owed s) \<subseteq> settled s' \<union> set (owed s') \<union> L \<Longrightarrow> nothing_lost L s'"
  unfolding nothing_lost_def by (simp only:) blast

lemma nothing_lost_new:
  "nothing_lost L s \<Longrightarrow> bs_promises s' = Suc (bs_promises s)
    \<Longrightarrow> insert (bs_promises s) (settled s \<union> set (owed s)) \<subseteq> settled s' \<union> set (owed s') \<union> L \<Longrightarrow> nothing_lost L s'"
  unfolding nothing_lost_def by (simp only: lessThan_Suc) blast

named_theorems lost_intros

lemma lost_fields [lost_intros]:
  "nothing_lost L (s\<lparr>bs_answers := x1\<rparr>) = nothing_lost L s" "nothing_lost L (s\<lparr>bs_recent := x2\<rparr>) = nothing_lost L s"
  "nothing_lost L (s\<lparr>bs_sent := x3\<rparr>) = nothing_lost L s" "nothing_lost L (s\<lparr>bs_port_closes := x4\<rparr>) = nothing_lost L s"
  "nothing_lost L (s\<lparr>bs_pending := x5\<rparr>) = nothing_lost L s" "nothing_lost L (s\<lparr>bs_receiving := x6\<rparr>) = nothing_lost L s"
  "nothing_lost L (s\<lparr>bs_status := x7\<rparr>) = nothing_lost L s" "nothing_lost L (s\<lparr>bs_phase := x8\<rparr>) = nothing_lost L s"
  "nothing_lost L (s\<lparr>bs_revisions := x9\<rparr>) = nothing_lost L s" "nothing_lost L (s\<lparr>bs_closed := x10\<rparr>) = nothing_lost L s"
  "nothing_lost L (s\<lparr>bs_next_lease := x11, bs_lease := x12\<rparr>) = nothing_lost L s"
  "nothing_lost L (s\<lparr>bs_next_generation := x13, bs_snapshot := x14\<rparr>) = nothing_lost L s"
  "nothing_lost L (s\<lparr>bs_deltas := x15\<rparr>) = nothing_lost L s" "nothing_lost L (remove_pending r s) = nothing_lost L s"
  by (simp_all add: nothing_lost_def)

lemma lost_settle [lost_intros]: "nothing_lost L s \<Longrightarrow> nothing_lost L (settle n x s)"
  by (erule nothing_lost_by) auto

lemma lost_settle_turn [lost_intros]: "nothing_lost L s \<Longrightarrow> nothing_lost L (settle_active_turn x e s)"
  by (erule nothing_lost_by) (auto simp: active_promises_def split: option.split)

lemma lost_reset [lost_intros]: "nothing_lost L s \<Longrightarrow> nothing_lost L (reset_session e d s)"
  by (erule nothing_lost_by) (auto simp: reset_settled)

lemma lost_teardown [lost_intros]: "nothing_lost L s \<Longrightarrow> nothing_lost L (teardown_transport e c s)"
  by (erule nothing_lost_by) (auto simp: teardown_settled)

text \<open>A promise is made where none was, and given up when it settles.\<close>

lemma lost_connecting [lost_intros]:
  "nothing_lost L s \<Longrightarrow> bs_connection s = None \<Longrightarrow> n = bs_promises s \<Longrightarrow> p = Suc n \<Longrightarrow>
     nothing_lost L (s\<lparr>bs_promises := p, bs_connection := Some (n, i), bs_session_id := j\<rparr>)"
  by (erule nothing_lost_new) (auto simp: attempt_promises_def)

lemma lost_attempt [lost_intros]:
  "nothing_lost L s \<Longrightarrow> bs_status_read s = None \<Longrightarrow> n = bs_promises s \<Longrightarrow> p = Suc n \<Longrightarrow>
     nothing_lost L (s\<lparr>bs_promises := p, bs_status_read := Some \<lparr>sa_promise = n, sa_request = request, sa_session = i\<rparr>\<rparr>)"
  "nothing_lost L s \<Longrightarrow> bs_activity s = None \<Longrightarrow> n = bs_promises s \<Longrightarrow> p = Suc n \<Longrightarrow>
     nothing_lost L (s\<lparr>bs_promises := p, bs_activity := Some (b, \<lparr>sa_promise = n, sa_request = request, sa_session = i\<rparr>)\<rparr>)"
  by (erule nothing_lost_new, auto simp: attempt_promises_def)+

lemma lost_withdrawn [lost_intros]:
  "nothing_lost L s \<Longrightarrow> \<forall>a. bs_status_read s = Some a \<longrightarrow> sa_promise a = n \<Longrightarrow> nothing_lost L (settle n x (s\<lparr>bs_status_read := None\<rparr>))"
  by (erule nothing_lost_by) (auto simp: attempt_promises_def split: option.splits)

lemma lost_withdrawn_activity [lost_intros]:
  "nothing_lost L s \<Longrightarrow> \<forall>b a. bs_activity s = Some (b, a) \<longrightarrow> sa_promise a = n \<Longrightarrow> nothing_lost L (settle n x (s\<lparr>bs_activity := None\<rparr>))"
  by (cases "bs_activity s"; erule nothing_lost_by) (auto simp: attempt_promises_def)

lemma lost_connected [lost_intros]:
  "nothing_lost L s \<Longrightarrow> \<forall>m i. bs_connection s = Some (m, i) \<longrightarrow> m = n \<Longrightarrow> nothing_lost L (settle n x (s\<lparr>bs_connection := None\<rparr>))"
  by (cases "bs_connection s"; erule nothing_lost_by) (auto simp: attempt_promises_def)

lemma lost_dropped_cancel [lost_intros]:
  "nothing_lost L s \<Longrightarrow> bs_turn s = Some t \<Longrightarrow> tn_cancel t = Some c
    \<Longrightarrow> nothing_lost L (settle (ca_promise c) x (s\<lparr>bs_turn := Some (t\<lparr>tn_cancel := None, tn_phase := p\<rparr>)\<rparr>))"
  by (cases "tn_acknowledged t"; erule nothing_lost_by; simp add: active_promises_def turn_promises_def; blast)

lemma lost_disconnecting [lost_intros]:
  "nothing_lost L s \<Longrightarrow> bs_disconnect s = None \<Longrightarrow> n = bs_promises s \<Longrightarrow> p = Suc n \<Longrightarrow>
     nothing_lost L (begin_disconnect n request i (s\<lparr>bs_promises := p\<rparr>))"
  by (erule nothing_lost_new) (auto simp: attempt_promises_def begin_disconnect_def Let_def split: option.split)

lemma lost_new_turn [lost_intros]:
  "nothing_lost L s \<Longrightarrow> bs_turn s = None \<Longrightarrow> n = bs_promises s \<Longrightarrow> m = Suc n \<Longrightarrow> p = Suc m \<Longrightarrow>
     nothing_lost L (s\<lparr>bs_promises := p, bs_turns := k, bs_turn := Some (new_turn snapshot request turn number n m)\<rparr>)"
  by (auto simp: nothing_lost_def subset_iff less_Suc_eq new_turn_def active_promises_def turn_promises_def)

lemma lost_cancelling [lost_intros]:
  "nothing_lost L s \<Longrightarrow> bs_turn s = Some t \<Longrightarrow> tn_cancel t = None \<Longrightarrow> n = bs_promises s \<Longrightarrow> p = Suc n \<Longrightarrow>
     nothing_lost L (s\<lparr>bs_promises := p, bs_turn := Some (t\<lparr>tn_cancel := Some \<lparr>ca_promise = n, ca_previous = u,
      ca_timeout = timeout, ca_request = request\<rparr>, tn_phase := Turn_Cancelling\<rparr>)\<rparr>)"
  by (erule nothing_lost_new) (auto simp: active_promises_def turn_promises_def)

section \<open>Operations\<close>

lemma connect_lost:
  assumes "core s" "nothing_lost L s"
  shows "ensures (connect_session accepted) (\<lambda>_. nothing_lost L) (\<lambda>_. nothing_lost L) s"
  unfolding connect_session_def shared_operations
  using assms core_rest [OF assms(1)]
  by (simp add: lost_intros kept_simps quiet_def split: prod.split option.split)

lemma disconnect_lost:
  "nothing_lost L s \<Longrightarrow> ensures (disconnect_session accepted reason) (\<lambda>_. nothing_lost L) (\<lambda>_. nothing_lost L) s"
  unfolding disconnect_session_def shared_operations
  by (simp add: lost_intros kept_simps split: prod.split option.split)

lemma refresh_lost:
  "nothing_lost L s \<Longrightarrow> ensures (refresh_agent_status accepted) (\<lambda>_. nothing_lost L) (\<lambda>_. nothing_lost L) s"
  unfolding refresh_agent_status_def shared_operations withdraw_status_read_def
  by (simp add: lost_intros kept_simps split: prod.split option.split)

lemma activity_lost:
  "nothing_lost L s \<Longrightarrow> ensures (note_agent_activity accepted clock expected) (\<lambda>_. nothing_lost L) (\<lambda>_. nothing_lost L) s"
  unfolding note_agent_activity_def shared_operations withdraw_activity_def
  by (simp add: lost_intros kept_simps split: prod.split option.split sum.split)

lemma start_turn_lost:
  assumes "core s" "nothing_lost L s"
  shows "ensures (start_turn_with accepted clock r sink expected) (\<lambda>_. nothing_lost L) (\<lambda>_. nothing_lost L) s"
proof -
  have "ensures (check_turn clock r sink expected) (\<lambda>snapshot s'. s' = s \<and> bs_turn s = None) (\<lambda>_. nothing_lost L) s"
    unfolding check_turn_def shared_operations using assms
    by (auto simp: lost_intros kept_simps split: prod.split option.split session_phase.split sum.split)
  then show ?thesis
    unfolding start_turn_with_def ensures_seq
    by (rule ensures_weaken)
      (use assms in \<open>auto simp: lost_intros kept_simps reserve_pending_def send_command_def split: prod.split option.split\<close>)
qed

lemma abandon_lost [lost_intros]:
  assumes "nothing_lost L s"
    "\<forall>t c. bs_turn s = Some t \<longrightarrow> tn_cancel t = Some c \<longrightarrow> ca_request c = request \<longrightarrow> ca_promise c = n"
  shows "nothing_lost L (abandon_cancel number n request previous e s)"
  using assms lost_dropped_cancel [OF assms(1)] by (auto simp: abandon_cancel_def split: option.split)

lemma begin_cancel_lost:
  assumes "nothing_lost L s" "bs_turn s = Some t"
  shows "ensures (begin_cancel accepted t timeout) (\<lambda>_. nothing_lost L) (\<lambda>_. nothing_lost L) s"
  unfolding begin_cancel_def reserve_pending_def send_command_def using assms
  by (cases "tn_cancel t") (simp_all add: lost_intros kept_simps split: prod.split option.split)

lemma cancel_turn_lost:
  assumes "nothing_lost L s"
  shows "ensures (cancel_turn accepted turn) (\<lambda>_. nothing_lost L) (\<lambda>_. nothing_lost L) s"
  unfolding cancel_turn_def using assms begin_cancel_lost [OF assms]
  by (auto simp: kept_simps split: option.split)

lemma turn_promises_timer [simp]: "turn_promises (t\<lparr>tn_timer := d\<rparr>) = turn_promises t"
  by (cases "tn_acknowledged t") (simp_all add: turn_promises_def)

lemma turn_timeout_lost:
  assumes "nothing_lost L s"
  shows "ensures (handle_turn_timeout accepted number) (\<lambda>_. nothing_lost L) (\<lambda>_. nothing_lost L) s"
proof (cases "bs_turn s")
  case (Some t)
  let ?s = "s\<lparr>bs_turn := Some (t\<lparr>tn_timer := None\<rparr>)\<rparr>"
  have kept: "nothing_lost L ?s"
    using Some by (intro nothing_lost_by [OF assms]) (simp_all add: active_promises_def)
  have "ensures (begin_cancel accepted (t\<lparr>tn_timer := None\<rparr>) True) (\<lambda>_. nothing_lost L) (\<lambda>e s. nothing_lost L (teardown_transport e True s)) ?s"
    by (rule ensures_weaken [OF begin_cancel_lost [OF kept]]) (simp_all add: lost_intros)
  then show ?thesis
    unfolding handle_turn_timeout_def using assms kept Some by (simp add: lost_intros kept_simps Let_def)
qed (simp add: handle_turn_timeout_def kept_simps assms)

section \<open>Frames\<close>

lemma lost_settle_fields [lost_intros]:
  "nothing_lost L (settle n x (s\<lparr>bs_status := y\<rparr>)) = nothing_lost L (settle n x s)"
  "nothing_lost L (settle n x (s\<lparr>bs_status_read := z, bs_status := y\<rparr>)) = nothing_lost L (settle n x (s\<lparr>bs_status_read := z\<rparr>))"
  "nothing_lost L (settle n x (s\<lparr>bs_activity := w, bs_status := y\<rparr>)) = nothing_lost L (settle n x (s\<lparr>bs_activity := w\<rparr>))"
  by (simp_all add: nothing_lost_def)

lemma session_connected_lost:
  "nothing_lost L s \<Longrightarrow> ensures (handle_session_connected accepted request session) (\<lambda>_. nothing_lost L) (\<lambda>_. nothing_lost L) s"
  unfolding handle_session_connected_def shared_operations
  by (auto simp: lost_intros kept_simps split: prod.split option.split)

lemma session_disconnected_lost:
  "nothing_lost L s \<Longrightarrow> ensures (handle_session_disconnected session reason) (\<lambda>_. nothing_lost L) (\<lambda>_. nothing_lost L) s"
  unfolding handle_session_disconnected_def by (simp add: lost_intros kept_simps)

lemma install_capabilities_lost:
  "nothing_lost L s \<Longrightarrow> ensures (install_capabilities c) (\<lambda>n s'. nothing_lost L s' \<and> bs_connection s' = bs_connection s) (\<lambda>_. nothing_lost L) s"
  unfolding install_capabilities_def install_snapshot_def
  by (auto simp: lost_intros kept_simps split: option.split)

lemma capabilities_result_lost:
  assumes "nothing_lost L s"
  shows "ensures (handle_capabilities_result accepted request session c) (\<lambda>_. nothing_lost L) (\<lambda>_. nothing_lost L) s"
proof -
  have installed: "ensures (install_capabilities c) (\<lambda>snapshot.
      ensures (seq (change (\<lambda>s. s\<lparr>bs_phase := Phase_Ready\<rparr>)) (\<lambda>_.
     seq (check (\<lambda>s. case bs_connection s of
         Some (n, expected) \<Rightarrow>
           if expected = cs_session_id snapshot then return n
           else throw (protocol_violation ''The browser capability result has no connection request.'')
       | None \<Rightarrow> throw (protocol_violation ''The browser capability result has no connection request.''))) (\<lambda>n.
     seq (change (\<lambda>s. settle n (Got_Snapshot snapshot) (s\<lparr>bs_connection := None\<rparr>))) (\<lambda>_.
     attempt (seq (refresh_agent_status accepted) (\<lambda>_. give ())) (\<lambda>_. give ()))))) (\<lambda>_. nothing_lost L) (\<lambda>_. nothing_lost L))
     (\<lambda>_. nothing_lost L) s"
    if "nothing_lost L s" for s
    by (rule ensures_weaken [OF install_capabilities_lost [OF that]])
      (auto simp: lost_intros kept_simps split: option.split intro!: refresh_lost)
  show ?thesis
    unfolding handle_capabilities_result_def shared_operations
    by (simp add: assms installed lost_intros ensures_seq ensures_check ensures_forbid ensures_change ensures_get
        ensures_if ensures_give split: option.split)
qed

lemma capabilities_changed_lost:
  assumes "nothing_lost L s"
  shows "ensures (handle_capabilities_changed session c) (\<lambda>_. nothing_lost L) (\<lambda>_. nothing_lost L) s"
  using assms ensures_weaken [OF install_capabilities_lost [OF assms], of "\<lambda>_. nothing_lost L" "\<lambda>_. nothing_lost L"]
  unfolding handle_capabilities_changed_def by (simp add: kept_simps)

lemma status_changed_lost:
  "nothing_lost L s \<Longrightarrow> ensures (handle_agent_status_changed session status) (\<lambda>_. nothing_lost L) (\<lambda>_. nothing_lost L) s"
  unfolding handle_agent_status_changed_def install_agent_status_def
  by (auto simp: lost_intros kept_simps split: option.split)

text \<open>A status or a renewal that is refused once its attempt was taken back loses the promise of the attempt.\<close>

lemma lost_forgotten [lost_intros]:
  "nothing_lost L s \<Longrightarrow> sa_promise ` set_option (bs_status_read s) \<subseteq> L \<Longrightarrow> nothing_lost L (s\<lparr>bs_status_read := None\<rparr>)"
  by (cases "bs_status_read s"; erule nothing_lost_by) (auto simp: attempt_promises_def)

lemma lost_forgotten_activity [lost_intros]:
  "nothing_lost L s \<Longrightarrow> (sa_promise \<circ> snd) ` set_option (bs_activity s) \<subseteq> L \<Longrightarrow> nothing_lost L (s\<lparr>bs_activity := None\<rparr>)"
  by (cases "bs_activity s"; erule nothing_lost_by) (auto simp: attempt_promises_def)

lemma lost_forgotten_cancel [lost_intros]:
  "nothing_lost L s \<Longrightarrow> bs_turn s = Some t \<Longrightarrow> ca_promise ` set_option (tn_cancel t) \<subseteq> L
    \<Longrightarrow> nothing_lost L (s\<lparr>bs_turn := Some (t\<lparr>tn_cancel := None\<rparr>)\<rparr>)"
  by (cases "tn_cancel t"; erule nothing_lost_by) (auto simp: active_promises_def turn_promises_def)

lemma status_result_returns:
  "nothing_lost L s \<Longrightarrow> ensures (handle_agent_status_result request session status) (\<lambda>_. nothing_lost L) (\<lambda>_ _. True) s"
  unfolding handle_agent_status_result_def install_agent_status_def shared_operations
  by (auto simp: lost_intros kept_simps split: option.split)

lemma status_result_lost:
  "nothing_lost L s \<Longrightarrow> sa_promise ` set_option (bs_status_read s) \<subseteq> L
    \<Longrightarrow> ensures (handle_agent_status_result request session status) (\<lambda>_. nothing_lost L) (\<lambda>_. nothing_lost L) s"
  unfolding handle_agent_status_result_def install_agent_status_def shared_operations
  by (auto simp: lost_intros kept_simps split: option.split)

lemma activity_result_returns:
  "nothing_lost L s \<Longrightarrow> ensures (handle_agent_activity_result request session renewed) (\<lambda>_. nothing_lost L) (\<lambda>_ _. True) s"
  unfolding handle_agent_activity_result_def install_agent_status_def shared_operations
  by (auto simp: lost_intros kept_simps split: option.split agent_status.split)

lemma activity_result_lost:
  "nothing_lost L s \<Longrightarrow> (sa_promise \<circ> snd) ` set_option (bs_activity s) \<subseteq> L
    \<Longrightarrow> ensures (handle_agent_activity_result request session renewed) (\<lambda>_. nothing_lost L) (\<lambda>_. nothing_lost L) s"
  unfolding handle_agent_activity_result_def install_agent_status_def shared_operations
  by (auto simp: lost_intros kept_simps split: option.split agent_status.split)

lemma turn_started_lost:
  assumes "nothing_lost L s"
  shows "ensures (handle_turn_started request session turn) (\<lambda>_. nothing_lost L) (\<lambda>_. nothing_lost L) s"
proof -
  have "nothing_lost L (settle (tn_started t) x s\<lparr>bs_turn := Some (t\<lparr>tn_acknowledged := True, tn_phase := p, tn_timer := d\<rparr>)\<rparr>)"
    if "nothing_lost L s" "bs_turn s = Some t" for s t x p d
    using that by (cases "tn_acknowledged t"; erule_tac nothing_lost_by; simp add: active_promises_def turn_promises_def; blast)
  with assms show ?thesis
    unfolding handle_turn_started_def shared_operations by (auto simp: lost_intros kept_simps split: option.split)
qed

lemma turn_delta_lost:
  "nothing_lost L s \<Longrightarrow> ensures (handle_turn_delta sink lease session turn channel delta) (\<lambda>_. nothing_lost L) (\<lambda>_. nothing_lost L) s"
  unfolding handle_turn_delta_def shared_operations fail_consumer_def
  by (auto simp: lost_intros kept_simps split: option.split sink_call.split)

lemma turn_ended_lost:
  assumes "nothing_lost L s"
  shows "ensures (handle_turn_completed session turn reason) (\<lambda>_. nothing_lost L) (\<lambda>_. nothing_lost L) s"
    "ensures (handle_turn_cancelled session turn) (\<lambda>_. nothing_lost L) (\<lambda>_. nothing_lost L) s"
    "ensures (handle_turn_failed session turn e) (\<lambda>_. nothing_lost L) (\<lambda>_. nothing_lost L) s"
  unfolding handle_turn_completed_def handle_turn_cancelled_def handle_turn_failed_def shared_operations
  using assms by (simp_all add: lost_intros kept_simps split: option.split)

definition refuses_expiry :: "jstr \<Rightarrow> browser_session \<Rightarrow> bool" where
  "refuses_expiry request s =
     (case Option.bind (bs_turn s) tn_cancel of None \<Rightarrow> False | Some c \<Rightarrow> ca_request c = request \<and> ca_timeout c)"

lemma refuse_cancel_lost:
  "nothing_lost L s \<Longrightarrow> bs_turn s = Some t \<Longrightarrow> refuses_expiry request s \<longrightarrow> ca_promise ` set_option (tn_cancel t) \<subseteq> L
    \<Longrightarrow> ensures (refuse_cancel request e t) (\<lambda>_. nothing_lost L) (\<lambda>_. nothing_lost L) s"
  unfolding refuse_cancel_def refuses_expiry_def
  by (auto simp: lost_intros kept_simps split: option.split)

lemma refuses_expiry_remove [simp]: "refuses_expiry request (remove_pending r s) = refuses_expiry request s"
  by (simp add: refuses_expiry_def)

lemma remote_error_lost:
  assumes "nothing_lost L s" "\<And>t c. refuses_expiry request s \<Longrightarrow> bs_turn s = Some t \<Longrightarrow> tn_cancel t = Some c \<Longrightarrow> ca_promise c \<in> L"
  shows "ensures (handle_remote_error request e) (\<lambda>_. nothing_lost L) (\<lambda>_. nothing_lost L) s"
  unfolding handle_remote_error_def shared_operations ensures_seq ensures_check
  by (auto simp: assms(1) lost_intros kept_simps split: option.split pending_kind.split prod.split intro!: refuse_cancel_lost dest: assms(2))

text \<open>
  The frames that can lose a promise: an agent status or a renewal that is refused, and the refusal of the
  cancellation that an expired turn began.
\<close>

definition loses_promise :: "bool \<Rightarrow> session_event \<Rightarrow> browser_session \<Rightarrow> bool" where
  "loses_promise accepted e s =
     (case e of
        Frame_Received sink lease v \<Rightarrow>
          (case frame_schema v of
             None \<Rightarrow> False
           | Some f \<Rightarrow>
               (case nf_body f of
                  Agent_Status_Result _ _ \<Rightarrow> isl (fst (dispatch_frame accepted sink lease f s))
                | Agent_Activity_Result _ _ \<Rightarrow> isl (fst (dispatch_frame accepted sink lease f s))
                | Error_Frame _ \<Rightarrow> refuses_expiry (nf_request_id f) s
                | _ \<Rightarrow> False))
      | _ \<Rightarrow> False)"

text \<open>The promise that such a frame takes back: that of the attempt it answers, or of the cancellation.\<close>

definition taken_back :: "bool \<Rightarrow> session_event \<Rightarrow> browser_session \<Rightarrow> nat set" where
  "taken_back accepted e s =
     (if \<not> loses_promise accepted e s then {} else
      case e of
        Frame_Received sink lease v \<Rightarrow>
          (case map_option nf_body (frame_schema v) of
             Some (Agent_Status_Result _ _) \<Rightarrow> sa_promise ` set_option (bs_status_read s)
           | Some (Agent_Activity_Result _ _) \<Rightarrow> (sa_promise \<circ> snd) ` set_option (bs_activity s)
           | _ \<Rightarrow> ca_promise ` set_option (Option.bind (bs_turn s) tn_cancel))
      | _ \<Rightarrow> {})"

lemma taken_back_parts:
  assumes "frame_schema v = Some f" "taken_back accepted (Frame_Received sink lease v) s \<subseteq> L"
  shows "nf_body f = Agent_Status_Result session status \<Longrightarrow> isl (fst (dispatch_frame accepted sink lease f s))
      \<Longrightarrow> sa_promise ` set_option (bs_status_read s) \<subseteq> L"
    "nf_body f = Agent_Activity_Result session renewed \<Longrightarrow> isl (fst (dispatch_frame accepted sink lease f s))
      \<Longrightarrow> (sa_promise \<circ> snd) ` set_option (bs_activity s) \<subseteq> L"
    "nf_body f = Error_Frame e \<Longrightarrow> refuses_expiry (nf_request_id f) s \<Longrightarrow> bs_turn s = Some t
      \<Longrightarrow> tn_cancel t = Some c \<Longrightarrow> ca_promise c \<in> L"
  using assms by (auto simp: taken_back_def loses_promise_def)

lemma dispatch_lost:
  assumes "nothing_lost L s" "frame_schema v = Some f" "taken_back accepted (Frame_Received sink lease v) s \<subseteq> L"
  shows "ensures (dispatch_frame accepted sink lease f) (\<lambda>_. nothing_lost L) (\<lambda>_. nothing_lost L) s"
proof -
  have handled: "ensures (handled m) (\<lambda>_. nothing_lost L) (\<lambda>_. nothing_lost L) s"
    if "ensures m (\<lambda>_. nothing_lost L) (\<lambda>_. nothing_lost L) s" for m
    using that by (simp add: handled_def ensures_simps)
  have answered: "ensures (handled m) (\<lambda>_. nothing_lost L) (\<lambda>_. nothing_lost L) s"
    if "ensures m (\<lambda>_. nothing_lost L) (\<lambda>_ _. True) s"
      "isl (fst (handled m s)) \<Longrightarrow> ensures m (\<lambda>_. nothing_lost L) (\<lambda>_. nothing_lost L) s" for m
    using that by (cases "m s"; cases "fst (m s)") (auto simp: ensures_def handled_def seq_def give_def)
  note answers = taken_back_parts [OF assms(2,3)]
  show ?thesis
    using assms(1) answers
    by (cases "nf_body f")
      (simp_all add: dispatch_frame_def Let_def handled answered status_result_returns status_result_lost
        activity_result_returns activity_result_lost session_connected_lost session_disconnected_lost
        capabilities_result_lost capabilities_changed_lost status_changed_lost turn_started_lost turn_delta_lost turn_ended_lost
        remote_error_lost ensures_fail)
qed

lemma receive_frame_lost:
  assumes "nothing_lost L s" "taken_back accepted (Frame_Received sink lease v) s \<subseteq> L"
  shows "nothing_lost L (snd (receive_frame accepted sink lease v s))"
proof (cases "frame_schema v")
  case (Some f)
  have "ensures (dispatch_frame accepted sink lease f) (\<lambda>_. nothing_lost L) (\<lambda>_. nothing_lost L) s"
    by (rule dispatch_lost [OF assms(1) Some assms(2)])
  then show ?thesis
    using assms(1) Some
    by (cases "dispatch_frame accepted sink lease f s"; cases "fst (dispatch_frame accepted sink lease f s)")
      (simp_all add: receive_frame_def ensures_def lost_intros Let_def)
qed (use assms(1) in \<open>simp add: receive_frame_def lost_intros Let_def\<close>)

theorem step_lost:
  assumes "core s" "nothing_lost L s" "taken_back accepted e (s\<lparr>bs_answers := answers\<rparr>) \<subseteq> L"
  shows "nothing_lost L (snd (session_step answers accepted e s))"
proof -
  have "core (s\<lparr>bs_answers := answers\<rparr>)" "nothing_lost L (s\<lparr>bs_answers := answers\<rparr>)"
    using assms by (simp_all add: core_intros lost_intros)
  then show ?thesis
    using assms(3) unfolding session_step_def
    by (cases e)
      (simp_all add: reply_kept turn_timer_by start_agent_turn_by attach_port_def connect_lost disconnect_lost refresh_lost activity_lost
        start_turn_def start_turn_lost cancel_turn_lost detach_port_def close_session_def receive_frame_lost sink_settled_def
        fail_consumer_def handle_command_timeout_def turn_timeout_lost receive_resumed_def send_rejected_def Let_def lost_intros
        kept_simps split: option.split receive_task.split)
qed

end
