(* ===== verification/Browser_Session_Samples.thy ===== *)
theory Browser_Session_Samples
  imports Browser_Session_Promises Frame_Facts
begin

text \<open>
  A run of the browser session coordinator on concrete values: it connects, reads the capabilities, starts a
  turn, and receives its output. The states it reaches are the inputs of the witnesses.
\<close>

definition sample_capabilities :: browser_capabilities where
  "sample_capabilities = \<lparr>bc_catalog_revision = js ''c1'', bc_model_discovery = True, bc_streaming = True,
     bc_cancellation = True, bc_temporary_chat = False,
     bc_models = [\<lparr>md_id = js ''m'', md_display_name = js ''M'', md_efforts = [\<lparr>eo_effort = js ''low'', eo_description = js ''d''\<rparr>],
       md_default_effort = js ''low''\<rparr>]\<rparr>"

definition sample_snapshot :: capability_snapshot where
  "sample_snapshot = \<lparr>cs_capabilities = sample_capabilities, cs_generation = 1, cs_session_id = js ''s1''\<rparr>"

definition said :: "string \<Rightarrow> jval option" where "said x = Some (JStr (js x))"

definition says :: "string \<Rightarrow> frame_body \<Rightarrow> frame" where
  "says request body = \<lparr>nf_request_id = js request, nf_sequence = 0, nf_body = body\<rparr>"

definition sample_new :: browser_session where
  "sample_new =
     \<lparr>bs_options = \<lparr>so_cancellation_grace = 2, so_command_timeout = 3, so_max_revisions = 2, so_max_pending = 4, so_turn_timeout = 5\<rparr>,
      bs_answers = [], bs_pending = [], bs_receiving = [], bs_recent = [], bs_revisions = [], bs_turn = None,
      bs_activity = None, bs_status = None, bs_status_read = None, bs_closed = False, bs_connection = None,
      bs_disconnect = None, bs_lease = None, bs_next_lease = 1, bs_next_generation = 1, bs_session_id = None,
      bs_phase = Phase_Disconnected, bs_snapshot = None, bs_promises = 0, bs_outcomes = [], bs_turns = 0,
      bs_sent = [], bs_deltas = [], bs_port_closes = []\<rparr>"

text \<open>The two steps of a frame that is received.\<close>

definition receives :: "jval option list \<Rightarrow> string \<Rightarrow> frame_body \<Rightarrow> (jval option list \<times> bool \<times> session_event) list" where
  "receives answers request body =
     [(answers, True, Frame_Received Sink_Answers 1 (frame_value (says request body))), ([], True, Receive_Resumed 1)]"

definition connecting_run :: "(jval option list \<times> bool \<times> session_event) list" where
  "connecting_run =
     [([], True, Attach_Port True), ([said ''s1'', said ''r1''], True, Connect)]
     @ receives [said ''r2''] ''r1'' (Session_Connected (js ''s1''))
     @ receives [said ''r3''] ''r2'' (Capabilities_Result (js ''s1'') sample_capabilities)"

definition sample_read :: pending_operation where
  "sample_read = \<lparr>po_kind = Read_Status, po_session = js ''s1'', po_turn = None, po_timer = 3\<rparr>"

definition sample_attempt :: session_attempt where
  "sample_attempt = \<lparr>sa_promise = 1, sa_request = js ''r3'', sa_session = js ''s1''\<rparr>"

definition sample_sent :: "(nat \<times> jstr \<times> frame_body) list" where
  "sample_sent = [(1, js ''r1'', Session_Connect (js ''s1'')), (1, js ''r2'', Capabilities_Read (js ''s1'')),
     (1, js ''r3'', Agent_Status_Read (js ''s1''))]"

definition sample_ready :: browser_session where
  "sample_ready = sample_new
     \<lparr>bs_pending := [(js ''r3'', sample_read)], bs_recent := [js ''s1'', js ''r1'', js ''r2'', js ''r3''],
      bs_revisions := [(js ''c1'', sample_capabilities)], bs_status_read := Some sample_attempt, bs_lease := Some 1,
      bs_next_lease := 2, bs_next_generation := 2, bs_session_id := Some (js ''s1''), bs_phase := Phase_Ready,
      bs_snapshot := Some sample_snapshot, bs_promises := 2, bs_outcomes := [(0, Got_Snapshot sample_snapshot)],
      bs_sent := sample_sent\<rparr>"

lemma sample_new_session:
  "new_browser_session (Some (NInt 2)) (Some (NInt 3)) (Some (NInt 2)) (Some (NInt 4)) (Some (NInt 5)) = Some sample_new"
  by (simp add: new_browser_session_def read_positive_integer_def sample_new_def)

section \<open>Rules that evaluate a step\<close>

lemma sample_opaque:
  "opaque_text 128 (js ''s1'')" "opaque_text 128 (js ''r1'')" "opaque_text 128 (js ''r2'')" "opaque_text 128 (js ''r3'')"
  "opaque_text 128 (js ''r4'')" "opaque_text 128 (js ''r5'')" "opaque_text 128 (js ''t1'')"
  by (simp_all add: bounded_text_def opaque_id_pattern_def is_alnum_unit_def js_def is_upper_unit_def is_lower_unit_def is_digit_unit_def)

lemmas sample_texts [simp] = sample_opaque sample_opaque [unfolded One_nat_def]

lemma said_attempt:
  "0 < n \<Longrightarrow> opaque_text 128 (js x) \<Longrightarrow> js x \<notin> set recent \<Longrightarrow> identifier_attempts n kind recent (said x # rest) = (Some (js x), rest)"
  by (cases n; cases kind) (simp_all add: identifier_schema_def said_def text_schema_defs read_text_value)

lemma said_identifier:
  "bs_answers s = said x # rest \<Longrightarrow> opaque_text 128 (js x) \<Longrightarrow> js x \<notin> set (bs_recent s) \<Longrightarrow> length (bs_recent s) < 2048
    \<Longrightarrow> create_session_identifier kind s = (Inr (js x), s\<lparr>bs_answers := rest, bs_recent := bs_recent s @ [js x]\<rparr>)"
  by (simp add: create_session_identifier_def IDENTIFIER_GENERATION_ATTEMPTS_def said_attempt remember_identifier_def MAX_RECENT_IDENTIFIERS_def)

lemma said_frame:
  "bs_lease s = Some lease \<Longrightarrow> map_of (bs_receiving s) lease = None \<Longrightarrow> frame_ok f \<Longrightarrow>
   receive_frame accepted sink lease (frame_value f) s =
     (case dispatch_frame accepted sink lease f s of
        (Inl e, s1) \<Rightarrow> (Receiving, s1\<lparr>bs_receiving := AList.update lease (Dispatched (Some e)) (bs_receiving s1)\<rparr>)
      | (Inr task, s1) \<Rightarrow> (Receiving, s1\<lparr>bs_receiving := AList.update lease task (bs_receiving s1)\<rparr>))"
  by (simp add: receive_frame_def frame_value_read)

lemma sample_frames:
  "frame_ok (says ''r1'' (Session_Connected (js ''s1'')))"
  "frame_ok (says ''r2'' (Capabilities_Result (js ''s1'') sample_capabilities))"
proof -
  have "capabilities_ok sample_capabilities"
    by (simp add: bounded_text_def opaque_id_pattern_def model_id_pattern_def is_alnum_unit_def sample_capabilities_def
        is_safe_single_line_text_def capabilities_ok_def descriptor_ok_def effort_option_ok_def js_def is_upper_unit_def
        is_lower_unit_def is_digit_unit_def)
  then show "frame_ok (says ''r1'' (Session_Connected (js ''s1'')))"
    "frame_ok (says ''r2'' (Capabilities_Result (js ''s1'') sample_capabilities))"
    by (simp_all add: frame_ok_def says_def)
qed

lemma sample_revision [simp]: "bc_catalog_revision sample_capabilities = js ''c1''" "bc_cancellation sample_capabilities"
  by (simp_all add: sample_capabilities_def)

lemmas session_evaluation = session_step_def reply_of_def seq_def give_def get_def change_def fail_with_def forbid_def
  check_def attempt_def assert_attached_def create_deferred_def said_identifier reserve_pending_def send_command_def
  session_command_def expect_pending_def assert_session_identity_def assert_active_turn_def remove_pending_def handled_def
  dispatch_frame_def receive_resumed_def settle_def said_frame receives_def Let_def

lemma sample_connected: "session_run connecting_run sample_new = sample_ready"
  by (simp add: connecting_run_def session_evaluation attach_port_def connect_session_def handle_session_connected_def
      handle_capabilities_result_def install_capabilities_def install_snapshot_def refresh_agent_status_def sample_frames sample_frames [unfolded says_def]
      sample_new_def sample_ready_def sample_read_def sample_attempt_def sample_snapshot_def sample_sent_def
      says_def numeral_2_eq_2)

lemma sample_ready_reachable: "session_reachable sample_ready"
  using session_run_reachable [OF session_new [OF sample_new_session], of connecting_run] by (simp add: sample_connected)

section \<open>A turn\<close>

definition sample_turn_request :: session_turn_request where
  "sample_turn_request =
     \<lparr>st_catalog_revision = js ''c1'', st_input = JArr [text_input_value (js ''hi'')], st_model_id = js ''m'',
      st_reasoning_effort = js ''low'', st_session_generation = 1, st_session_id = js ''s1'', st_temporary = False\<rparr>"

definition sample_body :: frame_body where
  "sample_body = Turn_Start \<lparr>bt_session = js ''s1'', bt_turn = js ''t1'', bt_catalog_revision = js ''c1'', bt_model = js ''m'',
     bt_effort = js ''low'', bt_input = [js ''hi''], bt_temporary = False\<rparr>"

lemma sample_body_read: "turn_start_body None sample_turn_request (js ''s1'') (js ''t1'') = Some sample_body"
proof -
  have "turn_input_schema (JArr (map text_input_value [js ''hi''])) = Some [js ''hi'']"
    by (rule turn_input_value_read) (simp_all add: bounded_text_def js_def)
  moreover have "bounded_text (Suc 0) 128 opaque_id_pattern (js ''c1'')" "bounded_text (Suc 0) 64 opaque_id_pattern (js ''low'')"
      "bounded_text (Suc 0) 256 model_id_pattern (js ''m'')"
    by (simp_all add: bounded_text_def opaque_id_pattern_def model_id_pattern_def is_alnum_unit_def js_def is_upper_unit_def
        is_lower_unit_def is_digit_unit_def)
  ultimately show ?thesis
    by (simp add: turn_start_body_def sample_turn_request_def sample_body_def turn_start_schema_def strict_object_def field_def
        text_schema_defs read_text_value)
qed

lemma sample_selected: "assert_turn_capabilities sample_capabilities sample_turn_request = Inr ()"
  by (simp add: assert_turn_capabilities_def sample_turn_request_def sample_capabilities_def outcome_simps)

definition sample_turn :: active_turn where
  "sample_turn = new_turn sample_snapshot (js ''r4'') (js ''t1'') 0 2 3"

definition sample_start :: pending_operation where
  "sample_start = \<lparr>po_kind = Start_Turn, po_session = js ''s1'', po_turn = Some (js ''t1''), po_timer = 3\<rparr>"

definition sample_starting :: browser_session where
  "sample_starting = sample_ready
     \<lparr>bs_pending := [(js ''r3'', sample_read), (js ''r4'', sample_start)],
      bs_recent := [js ''s1'', js ''r1'', js ''r2'', js ''r3'', js ''r4'', js ''t1''], bs_turn := Some sample_turn,
      bs_promises := 4, bs_turns := 1, bs_sent := sample_sent @ [(1, js ''r4'', sample_body)]\<rparr>"

lemma sample_started:
  "session_step [said ''r4'', said ''t1''] True (Start_Text_Turn sample_turn_request True) sample_ready
     = (Turn_Handle 3 2 (js ''t1''), sample_starting)"
proof -
  have request: "st_session_id sample_turn_request = js ''s1''" "st_session_generation sample_turn_request = 1"
    by (simp_all add: sample_turn_request_def)
  show ?thesis
    by (simp add: session_evaluation start_turn_def start_turn_with_def check_turn_def sample_selected sample_body_read request
        sample_new_def sample_ready_def sample_starting_def sample_snapshot_def sample_turn_def sample_start_def)
qed

definition sample_streaming :: browser_session where
  "sample_streaming = sample_starting
     \<lparr>bs_pending := [(js ''r3'', sample_read)],
      bs_turn := Some (sample_turn\<lparr>tn_acknowledged := True, tn_phase := Turn_Streaming, tn_timer := Some 5\<rparr>),
      bs_outcomes := [(0, Got_Snapshot sample_snapshot), (3, Got_Nothing)]\<rparr>"

lemma turn_frames:
  "frame_ok (says ''r4'' (Turn_Started (js ''s1'') (js ''t1'')))"
  "frame_ok (says ''r5'' (Turn_Delta (js ''s1'') (js ''t1'') Output_Text (js ''yes'')))"
  "frame_ok (says ''r3'' (Agent_Status_Changed (js ''s1'') (Inactive_Status 7)))"
  "frame_ok (says ''r3'' (Agent_Status_Result (js ''s1'') (Inactive_Status 5)))"
  by (simp_all add: frame_ok_def says_def bounded_text_def js_def opaque_id_pattern_def is_alnum_unit_def is_upper_unit_def
      is_lower_unit_def is_digit_unit_def)

lemma sample_acknowledged:
  "session_run (receives [] ''r4'' (Turn_Started (js ''s1'') (js ''t1''))) sample_starting = sample_streaming"
  by (simp add: session_evaluation turn_frames turn_frames [unfolded says_def] says_def handle_turn_started_def
      assert_turn_identity_def sample_new_def sample_ready_def sample_starting_def sample_streaming_def sample_start_def
      sample_snapshot_def sample_turn_def new_turn_def)

lemma sample_starting_reachable: "session_reachable sample_starting"
  using session_next [OF sample_ready_reachable, of "[said ''r4'', said ''t1'']" True "Start_Text_Turn sample_turn_request True"]
  by (simp add: sample_started)

lemma sample_streaming_reachable: "session_reachable sample_streaming"
  using session_run_reachable [OF sample_starting_reachable] sample_acknowledged by metis

section \<open>A Web Agent turn\<close>

definition sample_active :: active_status where
  "sample_active =
     \<lparr>as_binding = \<lparr>db_document_id = js ''d1'', db_generation = 1, db_tab_id = 2\<rparr>, as_ownership_id = js ''o1'',
      as_expires = AGENT_ACTIVATION_INACTIVITY_TIMEOUT_MS, as_issued = 0, as_last_activity = 0, as_lease_id = js ''l1'', as_revision = 7\<rparr>"

definition sample_leased :: browser_session where
  "sample_leased = sample_ready\<lparr>bs_status := Some (Active_Status sample_active)\<rparr>"

lemma sample_active_ok: "active_ok sample_active"
  by (simp add: sample_active_def active_ok_def binding_ok_def bounded_text_def js_def opaque_id_pattern_def is_alnum_unit_def
      is_upper_unit_def is_lower_unit_def is_digit_unit_def consistent_timestamps_def AGENT_ACTIVATION_INACTIVITY_TIMEOUT_MS_def)

lemma sample_lease_frame: "frame_ok (says ''r3'' (Agent_Status_Changed (js ''s1'') (Active_Status sample_active)))"
  by (simp add: frame_ok_def says_def sample_active_ok)

lemma sample_leased:
  "session_run (receives [] ''r3'' (Agent_Status_Changed (js ''s1'') (Active_Status sample_active))) sample_ready = sample_leased"
  by (simp add: session_evaluation sample_lease_frame sample_lease_frame [unfolded says_def] says_def
      handle_agent_status_changed_def install_agent_status_def sample_new_def sample_ready_def sample_leased_def)

lemma sample_leased_reachable: "session_reachable sample_leased"
  using session_run_reachable [OF sample_ready_reachable] sample_leased by metis

definition sample_agent_body :: frame_body where
  "sample_agent_body = Agent_Turn_Start \<lparr>at_catalog_revision = js ''c1'', at_expected = sample_active, at_input = js ''hi'',
     at_model = js ''m'', at_effort = js ''low'', at_session = js ''s1'', at_turn = js ''t1''\<rparr>"

lemma sample_agent_body_read:
  "turn_start_body (Some sample_active) sample_turn_request (js ''s1'') (js ''t1'') = Some sample_agent_body"
proof -
  have "agent_turn_input_schema (JArr [text_input_value (js ''hi'')]) = Some (js ''hi'')"
    by (rule agent_input_value_read) (simp add: bounded_text_def js_def)
  moreover have "bounded_text (Suc 0) 128 opaque_id_pattern (js ''c1'')" "bounded_text (Suc 0) 64 opaque_id_pattern (js ''low'')"
      "bounded_text (Suc 0) 256 model_id_pattern (js ''m'')"
    by (simp_all add: bounded_text_def opaque_id_pattern_def model_id_pattern_def is_alnum_unit_def js_def is_upper_unit_def
        is_lower_unit_def is_digit_unit_def)
  ultimately show ?thesis
    by (simp add: turn_start_body_def sample_turn_request_def sample_agent_body_def agent_turn_start_schema_def strict_object_def
        field_def text_schema_defs read_text_value active_value_read [OF sample_active_ok])
qed

definition sample_agent_starting :: browser_session where
  "sample_agent_starting = sample_leased
     \<lparr>bs_pending := [(js ''r3'', sample_read), (js ''r4'', sample_start)],
      bs_recent := [js ''s1'', js ''r1'', js ''r2'', js ''r3'', js ''r4'', js ''t1''], bs_turn := Some sample_turn,
      bs_promises := 4, bs_turns := 1, bs_sent := sample_sent @ [(1, js ''r4'', sample_agent_body)]\<rparr>"

lemma sample_agent_started:
  "session_step [said ''r4'', said ''t1''] True
     (Start_Agent_Turn (Some (NInt 9)) (active_status_value sample_active) sample_turn_request True) sample_leased
     = (Turn_Handle 3 2 (js ''t1''), sample_agent_starting)"
proof -
  have request: "st_session_id sample_turn_request = js ''s1''" "st_session_generation sample_turn_request = 1"
      "\<not> st_temporary sample_turn_request"
    by (simp_all add: sample_turn_request_def)
  have lease: "same_active_status sample_active sample_active" "9 < as_expires sample_active"
    by (simp_all add: same_active_status_def sample_active_def AGENT_ACTIVATION_INACTIVITY_TIMEOUT_MS_def)
  show ?thesis
    by (simp add: session_evaluation start_agent_turn_def start_turn_with_def check_turn_def active_agent_status_def
        read_session_clock_def active_value_read [OF sample_active_ok] lease sample_selected sample_agent_body_read request
        sample_new_def sample_ready_def sample_leased_def sample_agent_starting_def sample_snapshot_def sample_turn_def sample_start_def)
qed

end
