(* ===== verification/Browser_Session_Properties.thy ===== *)
theory Browser_Session_Properties
  imports Browser_Session_Samples
begin

text \<open>What the browser session coordinator guarantees, and what it does not.\<close>

section \<open>Promises\<close>

text \<open>
  C30. In every reachable state each promise the coordinator gave out settled at most once, and a promise
  that a request, the turn or its cancellation still owes has not settled, is owed by one of them only, and
  was given out.
\<close>

theorem session_promises_accounted:
  assumes "session_reachable s"
  shows "distinct (map fst (bs_outcomes s)) \<and> distinct (owed s) \<and> set (owed s) \<inter> settled s = {}
    \<and> (\<forall>n \<in> set (owed s) \<union> settled s. n < bs_promises s)"
  using core_parts(1) [OF reachable_core [OF assms]] by (simp add: accounted_def)

theorem session_promises_accounted_witness:
  "owed sample_streaming = [1, 2] \<and> distinct (owed sample_streaming) \<and> settled sample_streaming = {0, 3}"
  using session_promises_accounted [OF sample_streaming_reachable]
  by (simp add: sample_streaming_def sample_starting_def sample_ready_def sample_new_def sample_attempt_def sample_turn_def
      new_turn_def attempt_promises_def active_promises_def turn_promises_def)

text \<open>
  C31. What a promise settled with never changes, whatever happens next, and two snapshots of a run that carry
  the same generation are the same snapshot, of the same session with the same capabilities.
\<close>

theorem session_history_permanent:
  assumes "session_reachable s" "s' = session_run es s"
  shows "((n, x) \<in> set (bs_outcomes s) \<longrightarrow> (n, y) \<in> set (bs_outcomes s') \<longrightarrow> y = x)
    \<and> (bs_snapshot s = Some m \<longrightarrow> bs_snapshot s' = Some m' \<longrightarrow> cs_generation m' = cs_generation m \<longrightarrow> m' = m)"
proof (intro conjI impI)
  have grown: "grown s s'" unfolding assms(2) by (rule session_run_grown)
  show "y = x" if "(n, x) \<in> set (bs_outcomes s)" "(n, y) \<in> set (bs_outcomes s')"
  proof (rule eq_key_imp_eq_value)
    show "distinct (map fst (bs_outcomes s'))"
      using core_parts(1) [OF reachable_core [OF session_run_reachable [OF assms(1)]]] by (simp add: assms(2) accounted_def)
    show "(n, x) \<in> set (bs_outcomes s')" using that(1) grown by (auto simp: grown_def prefix_def)
  qed (rule that(2))
  show "m' = m" if "bs_snapshot s = Some m" "bs_snapshot s' = Some m'" "cs_generation m' = cs_generation m"
  proof -
    have "cs_generation m < bs_next_generation s"
      using core_parts(4) [OF reachable_core [OF assms(1)]] that(1) by simp
    moreover have "bs_snapshot s = Some m' \<or> bs_next_generation s \<le> cs_generation m'"
      using grown that(2) by (simp add: grown_def)
    ultimately show ?thesis using that(1,3) by simp
  qed
qed

theorem session_history_permanent_witness:
  "\<exists>y. (0, y) \<in> set (bs_outcomes sample_streaming) \<and> y = Got_Snapshot sample_snapshot
     \<and> cs_generation sample_snapshot = 1 \<and> bs_snapshot sample_streaming = Some sample_snapshot"
  using session_history_permanent [OF sample_starting_reachable sample_acknowledged [symmetric], of 0 "Got_Snapshot sample_snapshot"]
  by (simp add: sample_streaming_def sample_starting_def sample_ready_def sample_snapshot_def)

text \<open>
  C32. The parts of a reachable state agree: a closed coordinator has no transport and without one there is no
  session; the phase says whether there is a session; nothing of a session outlives it; a turn exists only while
  its own session is ready or being closed; a snapshot belongs to the session and is the recorded content of its
  catalog revision; and the pending commands and the revisions stay within their limits.
\<close>

theorem session_state_consistent:
  assumes "session_reachable s"
  shows "(bs_closed s \<longrightarrow> bs_lease s = None) \<and> (bs_lease s = None \<longrightarrow> bs_session_id s = None)
    \<and> (bs_session_id s = None \<longleftrightarrow> bs_phase s = Phase_Disconnected \<or> bs_phase s = Phase_Closed)
    \<and> (bs_session_id s = None \<longrightarrow> quiet s)
    \<and> (\<forall>t. bs_turn s = Some t \<longrightarrow> bs_session_id s = Some (tn_session t) \<and> bs_phase s \<in> {Phase_Ready, Phase_Disconnecting})
    \<and> (\<forall>n. bs_snapshot s = Some n \<longrightarrow> bs_session_id s = Some (cs_session_id n)
        \<and> map_of (bs_revisions s) (bc_catalog_revision (cs_capabilities n)) = Some (cs_capabilities n))
    \<and> length (bs_pending s) \<le> so_max_pending (bs_options s) \<and> length (bs_revisions s) \<le> so_max_revisions (bs_options s)"
  using core_parts [OF reachable_core [OF assms]]
  by (auto simp: phases_kept_def rest_kept_def pending_kept_def revisions_kept_def)

theorem session_state_consistent_witness:
  "bs_session_id sample_streaming = Some (js ''s1'') \<and> bs_lease sample_streaming \<noteq> None \<and> \<not> bs_closed sample_streaming"
  using session_state_consistent [OF sample_streaming_reachable]
  by (auto simp: sample_streaming_def sample_starting_def sample_ready_def sample_new_def)

section \<open>Starting a turn\<close>

definition turn_selected :: "browser_session \<Rightarrow> session_turn_request \<Rightarrow> capability_snapshot \<Rightarrow> bool" where
  "turn_selected s r n \<longleftrightarrow>
     bs_phase s = Phase_Ready \<and> bs_turn s = None \<and> bs_snapshot s = Some n \<and> bs_session_id s = Some (st_session_id r)
     \<and> st_session_id r = cs_session_id n \<and> st_session_generation r = cs_generation n
     \<and> st_catalog_revision r = bc_catalog_revision (cs_capabilities n)
     \<and> (\<exists>m \<in> set (bc_models (cs_capabilities n)). md_id m = st_model_id r
          \<and> (\<exists>e \<in> set (md_efforts m). eo_effort e = st_reasoning_effort r))
     \<and> (st_temporary r \<longrightarrow> bc_temporary_chat (cs_capabilities n))"

definition turn_leased :: "browser_session \<Rightarrow> jnum option \<Rightarrow> active_status \<Rightarrow> bool" where
  "turn_leased s clock a \<longleftrightarrow>
     (\<exists>c now. bs_status s = Some (Active_Status c) \<and> fst (read_session_clock clock s) = Inr now
       \<and> now < as_expires c \<and> same_active_status c a)"

lemma find_member: "List.find P xs = Some x \<Longrightarrow> x \<in> set xs \<and> P x"
  by (induction xs) (auto split: if_splits)

lemma capabilities_selected:
  "assert_turn_capabilities c r = Inr () \<Longrightarrow>
     st_catalog_revision r = bc_catalog_revision c
     \<and> (\<exists>m \<in> set (bc_models c). md_id m = st_model_id r \<and> (\<exists>e \<in> set (md_efforts m). eo_effort e = st_reasoning_effort r))
     \<and> (st_temporary r \<longrightarrow> bc_temporary_chat c)"
  by (auto simp: assert_turn_capabilities_def outcome_simps list_ex_iff split: option.splits dest!: find_member)

lemma active_status_current:
  "fst (active_agent_status clock s) = Inr (Some c) \<Longrightarrow> bs_status s = Some (Active_Status c)
     \<and> (\<exists>now. fst (read_session_clock clock s) = Inr now \<and> now < as_expires c)"
  by (auto simp: active_agent_status_def seq_def get_def give_def split: option.splits agent_status.splits prod.splits sum.splits if_splits)

lemma check_turn_selects:
  assumes "core s"
  shows "ensures (check_turn clock r sink expected)
     (\<lambda>n s'. s' = s \<and> sink \<and> turn_selected s r n \<and> (\<forall>a. expected = Some a \<longrightarrow> turn_leased s clock a \<and> \<not> st_temporary r))
     (\<lambda>_ s'. s' = s) s"
  unfolding check_turn_def shared_operations
  using core_snapshot [OF assms] capabilities_selected [of _ r] active_status_current [of clock s]
  by (auto simp: kept_simps turn_selected_def turn_leased_def split: prod.split option.split session_phase.split sum.split)

lemma start_turn_sends:
  assumes "core s"
  shows "ensures (start_turn_with True clock r sink expected)
     (\<lambda>reply s'. \<exists>n request turn body lease. reply = Turn_Handle (Suc (bs_promises s)) (bs_promises s) turn
        \<and> turn_selected s r n \<and> (\<forall>a. expected = Some a \<longrightarrow> turn_leased s clock a \<and> \<not> st_temporary r)
        \<and> turn_start_body expected r (st_session_id r) turn = Some body \<and> bs_lease s = Some lease
        \<and> bs_sent s' = bs_sent s @ [(lease, request, body)]
        \<and> bs_turn s' = Some (new_turn n request turn (bs_turns s) (bs_promises s) (Suc (bs_promises s))))
     (\<lambda>_ s'. bs_sent s' = bs_sent s) s"
  unfolding start_turn_with_def ensures_seq
  by (rule ensures_weaken [OF check_turn_selects [OF assms]])
    (auto simp: kept_simps reserve_pending_def send_command_def turn_selected_def split: prod.split option.split)

text \<open>
  C33. When a turn is started and the transport takes its command, the session is ready without a turn, the
  caller named the current session, generation, catalog revision, a model of that catalog and an effort of that
  model, and a temporary turn only where the session offers one; exactly one command is sent, the start frame of
  this request for this session, and the new turn is the active one.
\<close>

theorem started_turn_selected:
  assumes "session_reachable s"
    "session_step answers True (Start_Text_Turn r sink) s = (Turn_Handle started completion turn, s')"
  shows "\<exists>n request body lease. turn_selected s r n \<and> turn_start_body None r (st_session_id r) turn = Some body
    \<and> bs_lease s = Some lease \<and> bs_sent s' = bs_sent s @ [(lease, request, body)]
    \<and> bs_turn s' = Some (new_turn n request turn (bs_turns s) completion started)"
proof -
  have "core (s\<lparr>bs_answers := answers\<rparr>)" using reachable_core [OF assms(1)] by (simp add: core_intros)
  from start_turn_sends [OF this, of None r sink None] show ?thesis
    using assms(2)
    by (auto simp: session_step_def start_turn_def reply_of_def ensures_def turn_selected_def split: prod.splits sum.splits)
qed

theorem started_turn_selected_witness:
  "\<exists>n. turn_selected sample_ready sample_turn_request n \<and> bs_turn sample_starting \<noteq> None"
  using started_turn_selected [OF sample_ready_reachable sample_started] by blast

text \<open>
  C34. A Web Agent turn starts only under the current activation lease: the status of the session is an active
  one that has not expired at the time the clock gives, and the caller expects exactly it; such a turn is never
  temporary.
\<close>

theorem started_agent_turn_leased:
  assumes "session_reachable s"
    "session_step answers True (Start_Agent_Turn clock expected r sink) s = (Turn_Handle started completion turn, s')"
  shows "\<exists>a n request body lease. active_status_schema expected = Some a \<and> turn_leased s clock a \<and> \<not> st_temporary r
    \<and> turn_selected s r n \<and> turn_start_body (Some a) r (st_session_id r) turn = Some body
    \<and> bs_lease s = Some lease \<and> bs_sent s' = bs_sent s @ [(lease, request, body)]"
proof (cases "active_status_schema expected")
  case None
  then show ?thesis using assms(2) by (simp add: session_step_def start_agent_turn_def reply_of_def fail_with_def)
next
  case (Some a)
  have "core (s\<lparr>bs_answers := answers\<rparr>)" using reachable_core [OF assms(1)] by (simp add: core_intros)
  moreover have "turn_leased (s\<lparr>bs_answers := answers\<rparr>) clock a = turn_leased s clock a"
    by (simp add: turn_leased_def read_session_clock_def give_def fail_with_def split: option.split jnum.split)
  ultimately show ?thesis
    using assms(2) Some start_turn_sends [of "s\<lparr>bs_answers := answers\<rparr>" clock r sink "Some a"]
    by (auto simp: session_step_def start_agent_turn_def reply_of_def ensures_def turn_selected_def split: prod.splits sum.splits)
qed

theorem started_agent_turn_leased_witness:
  "\<exists>a. active_status_schema (active_status_value sample_active) = Some a \<and> turn_leased sample_leased (Some (NInt 9)) a
     \<and> \<not> st_temporary sample_turn_request"
  using started_agent_turn_leased [OF sample_leased_reachable sample_agent_started] by blast

section \<open>Receiving\<close>

lemma rejected_at_once:
  "receive_frame accepted sink lease v s = (Receive_Rejected err, s') \<Longrightarrow>
     bs_lease s = Some lease \<and> s' = teardown_transport err True s"
  by (cases "frame_schema v")
    (auto simp: receive_frame_def Let_def split: option.splits prod.splits sum.splits if_splits)

lemma rejected_later:
  "receive_resumed lease s = (Receive_Rejected err, s') \<Longrightarrow>
     s' = (if bs_lease s = Some lease then teardown_transport err True s else s)
       \<lparr>bs_receiving := AList.delete lease (bs_receiving s)\<rparr>"
  by (auto simp: receive_resumed_def Let_def split: option.splits receive_task.splits if_splits)

text \<open>The promises that the frames of a run take back: of each refused status or renewal, and of each refused expiry.\<close>

fun taken_back_in :: "(jval option list \<times> bool \<times> session_event) list \<Rightarrow> browser_session \<Rightarrow> nat set" where
  "taken_back_in [] s = {}"
| "taken_back_in ((answers, accepted, e) # es) s =
     taken_back accepted e (s\<lparr>bs_answers := answers\<rparr>) \<union> taken_back_in es (snd (session_step answers accepted e s))"

lemma run_lost: "core s \<Longrightarrow> nothing_lost L s \<Longrightarrow> taken_back_in es s \<subseteq> L \<Longrightarrow> nothing_lost L (session_run es s)"
  by (induction es s rule: session_run.induct) (auto intro: step_core step_lost)

lemma rejected_torn:
  assumes "e = Frame_Received sink lease v \<or> e = Receive_Resumed lease"
    "session_step answers accepted e s = (Receive_Rejected err, s')"
  shows "bs_lease s' \<noteq> Some lease"
    "bs_lease s = Some lease \<Longrightarrow> bs_lease s' = None \<and> quiet s' \<and> bs_promises s' = bs_promises s
       \<and> settled s \<union> set (owed s) \<subseteq> settled s'"
proof -
  let ?s = "s\<lparr>bs_answers := answers\<rparr>"
  have torn: "quiet (teardown_transport err True ?s\<lparr>bs_receiving := x\<rparr>)"
      "settled s \<union> set (owed s) \<subseteq> settled (teardown_transport err True ?s)" for x
    using teardown_quiet [of err True ?s] by (auto simp: teardown_settled quiet_def simp del: teardown_quiet)
  from assms consider "receive_frame accepted sink lease v ?s = (Receive_Rejected err, s')"
    | "receive_resumed lease ?s = (Receive_Rejected err, s')"
    by (auto simp: session_step_def)
  then have "bs_lease s' \<noteq> Some lease \<and> (bs_lease s = Some lease \<longrightarrow> bs_lease s' = None \<and> quiet s'
      \<and> bs_promises s' = bs_promises s \<and> settled s \<union> set (owed s) \<subseteq> settled s')"
  proof cases
    case 1
    from rejected_at_once [OF 1] torn(2) show ?thesis by simp
  next
    case 2
    from rejected_later [OF 2] torn show ?thesis by (cases "bs_lease s = Some lease") simp_all
  qed
  then show "bs_lease s' \<noteq> Some lease" "bs_lease s = Some lease \<Longrightarrow> bs_lease s' = None \<and> quiet s' \<and> bs_promises s' = bs_promises s
       \<and> settled s \<union> set (owed s) \<subseteq> settled s'" by blast+
qed

text \<open>
  C35. Take any run of a reachable coordinator, such as the reception of a frame and what happens until
  receive goes on, after which a received frame is rejected, at once or when receive goes on. Then its
  transport is no longer attached; if it was the attached one when the rejection was decided, it is torn down and
  nothing of the session is left, and every promise that was owed before the run, before the frame was handled, and
  every one given out since has settled, apart from those that a frame of the run took back: the promise of an
  agent status read or of a renewal whose answer was refused, and of the cancellation of an expired turn that the
  browser refused. These the code leaves unsettled: stale_status_loses_promise is such a run.
\<close>

theorem rejected_frame_tears_down:
  assumes "session_reachable s" "e = Frame_Received sink lease v \<or> e = Receive_Resumed lease"
    "session_step answers accepted e (session_run es s) = (Receive_Rejected err, s')"
  shows "bs_lease s' \<noteq> Some lease
    \<and> (bs_lease (session_run es s) = Some lease \<longrightarrow>
         bs_lease s' = None \<and> quiet s' \<and> set (owed (session_run es s)) \<subseteq> settled s'
         \<and> set (owed s) \<union> {bs_promises s..<bs_promises s'} \<subseteq> settled s' \<union> taken_back_in es s)"
proof (intro conjI impI)
  note torn = rejected_torn [OF assms(2,3)]
  show "bs_lease s' \<noteq> Some lease" by (rule torn(1))
  assume "bs_lease (session_run es s) = Some lease"
  note torn = torn(2) [OF this]
  show "bs_lease s' = None" "quiet s'" "set (owed (session_run es s)) \<subseteq> settled s'" using torn by auto
  let ?L = "{..<bs_promises s} - settled s - set (owed s) \<union> taken_back_in es s"
  have core: "core s" by (rule reachable_core [OF assms(1)])
  have "nothing_lost ?L (session_run es s)"
    by (rule run_lost [OF core]) (auto simp: nothing_lost_def)
  then have "{..<bs_promises s'} \<subseteq> (settled (session_run es s) \<union> set (owed (session_run es s))) \<union> ?L"
    using torn unfolding nothing_lost_def by (simp only:)
  also have "\<dots> \<subseteq> settled s' \<union> ?L"
    using torn by (intro Un_mono) simp_all
  finally have all: "{..<bs_promises s'} \<subseteq> settled s' \<union> ?L" .
  have "bs_promises s \<le> bs_promises s'"
    using session_run_grown [of s es] torn by (simp add: grown_def)
  moreover have "set (owed s) \<subseteq> {..<bs_promises s}"
    using core_parts(1) [OF core] by (auto simp: accounted_def)
  ultimately have "set (owed s) \<union> {bs_promises s..<bs_promises s'} \<subseteq> {..<bs_promises s'} - ({..<bs_promises s} - settled s - set (owed s))"
    by auto
  with all show "set (owed s) \<union> {bs_promises s..<bs_promises s'} \<subseteq> settled s' \<union> taken_back_in es s" by blast
qed

text \<open>A delta that comes before its turn is acknowledged is received, and rejected when \<open>receive\<close> goes on.\<close>

theorem rejected_frame_tears_down_witness:
  "\<exists>err s'. session_step [] True (Receive_Resumed 1)
       (session_run [([], True, Frame_Received Sink_Answers 1 (frame_value (says ''r5'' (Turn_Delta (js ''s1'') (js ''t1'') Output_Text (js ''yes'')))))]
         sample_starting) = (Receive_Rejected err, s')
     \<and> quiet s' \<and> {1, 2, 3} \<subseteq> settled s'"
proof -
  let ?es = "[([], True, Frame_Received Sink_Answers 1 (frame_value (says ''r5'' (Turn_Delta (js ''s1'') (js ''t1'') Output_Text (js ''yes'')))))]"
  have lease: "bs_lease (session_run ?es sample_starting) = Some 1" "taken_back_in ?es sample_starting = {}"
      "set (owed sample_starting) = {1, 2, 3}"
    by (auto simp: session_evaluation turn_frames turn_frames [unfolded says_def] says_def handle_turn_delta_def taken_back_def
      loses_promise_def frame_value_read
      sample_starting_def sample_ready_def sample_new_def sample_attempt_def sample_turn_def
      new_turn_def attempt_promises_def active_promises_def turn_promises_def)
  have "\<exists>err s'. session_step [] True (Receive_Resumed 1) (session_run ?es sample_starting) = (Receive_Rejected err, s')"
    by (simp add: session_evaluation turn_frames turn_frames [unfolded says_def] says_def handle_turn_delta_def
      sample_starting_def sample_ready_def sample_new_def sample_turn_def new_turn_def)
  then obtain err s' where step: "session_step [] True (Receive_Resumed 1) (session_run ?es sample_starting) = (Receive_Rejected err, s')"
    by blast
  with rejected_frame_tears_down [OF sample_starting_reachable disjI2 [OF refl] step] lease show ?thesis by auto
qed

interpretation silence: session_relation "\<lambda>s s'. bs_deltas s' = bs_deltas s"
  by unfold_locales (auto simp: settle_def)

lemma silent_step:
  assumes "\<And>sink lease v f i turn channel delta. e = Frame_Received sink lease v \<Longrightarrow> frame_schema v = Some f
     \<Longrightarrow> nf_body f \<noteq> Turn_Delta i turn channel delta"
  shows "bs_deltas (snd (session_step answers accepted e s)) = bs_deltas s"
  by (rule silence.step_keeps) (auto intro!: silence.keeps_dispatch dest: assms)

lemma consumer_deltas [simp]: "bs_deltas (fail_consumer lease number s) = bs_deltas s"
  by (simp add: fail_consumer_def)

text \<open>What a step owes the sink of the active turn.\<close>

definition delta_due :: "session_event \<Rightarrow> browser_session \<Rightarrow> (nat \<times> delta_channel \<times> jstr) list" where
  "delta_due e s =
     (case (e, bs_turn s) of
        (Frame_Received sink lease v, Some t) \<Rightarrow>
          (case map_option nf_body (frame_schema v) of
             Some (Turn_Delta session turn channel delta) \<Rightarrow>
               if bs_lease s = Some lease \<and> map_of (bs_receiving s) lease = None
                 \<and> tn_session t = session \<and> tn_id t = turn \<and> tn_acknowledged t
               then [(tn_number t, channel, delta)] else []
           | _ \<Rightarrow> [])
      | _ \<Rightarrow> [])"

lemma delta_given:
  "bs_deltas (snd (handle_turn_delta sink lease session turn channel delta s)) = bs_deltas s @
     (case bs_turn s of
        Some t \<Rightarrow> if tn_session t = session \<and> tn_id t = turn \<and> tn_acknowledged t then [(tn_number t, channel, delta)] else []
      | None \<Rightarrow> [])"
  by (cases "bs_turn s"; cases sink)
    (simp_all add: handle_turn_delta_def assert_active_turn_def seq_def check_def forbid_def change_def fail_with_def give_def)

lemma not_delta:
  assumes "\<And>sink lease v f i turn channel delta. e = Frame_Received sink lease v \<Longrightarrow> frame_schema v = Some f
     \<Longrightarrow> nf_body f \<noteq> Turn_Delta i turn channel delta"
  shows "delta_due e s = []"
  using assms by (auto simp: delta_due_def split: session_event.split option.split frame_body.split)

text \<open>
  C36. The sinks are called with exactly the deltas due to them: when the attached transport delivers, and not
  while it is handling another frame, a frame that carries a delta with the session and the identity of the active
  turn, and that turn was acknowledged, its sink is called with that delta on its channel, once; and no other step,
  with whatever event, in whatever state, calls a sink.
\<close>

theorem delta_of_acknowledged_turn:
  "bs_deltas (snd (session_step answers accepted e s)) = bs_deltas s @ delta_due e s"
proof (cases "\<exists>sink lease v f i turn channel delta. e = Frame_Received sink lease v \<and> frame_schema v = Some f
    \<and> nf_body f = Turn_Delta i turn channel delta")
  case False
  then show ?thesis using silent_step [of e answers accepted s] not_delta [of e s] by auto
next
  case True
  then obtain sink lease v f i turn channel delta where e: "e = Frame_Received sink lease v" and f: "frame_schema v = Some f"
    and body: "nf_body f = Turn_Delta i turn channel delta" by blast
  let ?s = "s\<lparr>bs_answers := answers\<rparr>"
  have dispatch: "dispatch_frame accepted sink lease f ?s = handle_turn_delta sink lease i turn channel delta ?s"
    by (simp add: dispatch_frame_def body)
  show ?thesis
    using delta_given [of sink lease i turn channel delta ?s]
    by (cases "handle_turn_delta sink lease i turn channel delta ?s"; cases "fst (handle_turn_delta sink lease i turn channel delta ?s)")
      (auto simp: e f body session_step_def receive_frame_def dispatch delta_due_def Let_def split: option.splits)
qed

section \<open>No promise is lost\<close>

text \<open>A run none of whose steps is of the kind that can lose a promise.\<close>

fun keeps_promises :: "(jval option list \<times> bool \<times> session_event) list \<Rightarrow> browser_session \<Rightarrow> bool" where
  "keeps_promises [] s = True"
| "keeps_promises ((answers, accepted, e) # es) s \<longleftrightarrow>
     \<not> loses_promise accepted e (s\<lparr>bs_answers := answers\<rparr>) \<and> keeps_promises es (snd (session_step answers accepted e s))"

lemma run_keeps_promises: "keeps_promises es s \<Longrightarrow> taken_back_in es s = {}"
  by (induction es s rule: session_run.induct) (auto simp: taken_back_def)

lemma new_session_keeps: "new_browser_session g c r p t = Some s \<Longrightarrow> nothing_lost {} s"
  by (auto simp: new_browser_session_def bind_eq_Some_conv nothing_lost_def)

text \<open>
  C37. No promise is lost: after any run in which the browser's agent status and renewal answers are accepted and
  it does not refuse the cancellation of an expired turn, every promise the coordinator gave out has settled or is
  owed by a request, the turn or its cancellation, and once the session is over every one has settled.
\<close>

theorem no_promise_lost:
  assumes "new_browser_session g c r p t = Some s" "keeps_promises es s" "n < bs_promises (session_run es s)"
  shows "(n \<in> settled (session_run es s) \<or> n \<in> set (owed (session_run es s)))
    \<and> (bs_session_id (session_run es s) = None \<longrightarrow> n \<in> settled (session_run es s))"
proof -
  have core: "core (session_run es s)"
    using assms(1) by (blast intro: reachable_core session_run_reachable session_new)
  have "n \<in> settled (session_run es s) \<union> set (owed (session_run es s))"
    using run_lost [OF new_session_core [OF assms(1)] new_session_keeps [OF assms(1)], of es] run_keeps_promises [OF assms(2)] assms(3)
    by (auto simp: nothing_lost_def)
  moreover have "owed (session_run es s) = []" if "bs_session_id (session_run es s) = None"
    using core_parts(10) [OF core] that by (intro quiet_owed) (simp add: rest_kept_def)
  ultimately show ?thesis by auto
qed

theorem no_promise_lost_witness:
  "bs_promises (session_run connecting_run sample_new) = 2
     \<and> (1 \<in> settled (session_run connecting_run sample_new) \<or> 1 \<in> set (owed (session_run connecting_run sample_new)))"
proof -
  have "keeps_promises connecting_run sample_new"
    by (simp add: connecting_run_def receives_def loses_promise_def sample_frames says_def sample_frames [unfolded says_def] frame_value_read)
  moreover have "bs_promises (session_run connecting_run sample_new) = 2"
    by (simp add: sample_connected sample_ready_def)
  ultimately show ?thesis
    using no_promise_lost [OF sample_new_session, of connecting_run 1] by simp
qed

section \<open>Promises that are lost\<close>

text \<open>
  An agent status that is older than the installed one is a protocol violation, as intended; but the attempt that
  waits for the answer was already taken back, so the teardown that follows does not reject its promise: the session
  is over, nothing is owed, and promise 1, which \<open>refreshAgentStatus\<close> answered, has not settled.
\<close>

definition stale_status_run :: "(jval option list \<times> bool \<times> session_event) list" where
  "stale_status_run =
     receives [] ''r3'' (Agent_Status_Changed (js ''s1'') (Inactive_Status 7))
     @ receives [] ''r3'' (Agent_Status_Result (js ''s1'') (Inactive_Status 5))"

theorem stale_status_loses_promise:
  "quiet (session_run stale_status_run sample_ready) \<and> owed (session_run stale_status_run sample_ready) = []
     \<and> bs_promises (session_run stale_status_run sample_ready) = 2 \<and> settled (session_run stale_status_run sample_ready) = {0}"
  by (simp add: stale_status_run_def session_evaluation turn_frames turn_frames [unfolded says_def] says_def handle_agent_status_changed_def
      handle_agent_status_result_def install_agent_status_def sample_new_def sample_ready_def sample_read_def sample_attempt_def
      teardown_transport_def reset_session_def settle_attempts_def settle_active_turn_def quiet_def attempt_promises_def active_promises_def)

text \<open>
  A cancellation that was asked for before the browser acknowledged the turn, and that the browser then refuses,
  puts the turn back into the phase it had when the cancellation began: the published state says that the turn is
  starting although it was acknowledged and its output is accepted.
\<close>

definition refused_cancel_run :: "(jval option list \<times> bool \<times> session_event) list" where
  "refused_cancel_run =
     ([said ''r5''], True, Cancel_Active_Turn (js ''t1''))
     # receives [] ''r4'' (Turn_Started (js ''s1'') (js ''t1'')) @ receives [] ''r5'' (Error_Frame rejected_command)"

lemma cancel_frames:
  "frame_ok \<lparr>nf_request_id = js ''r5'', nf_sequence = 0, nf_body = Turn_Cancel (js ''s1'') (js ''t1'')\<rparr>"
  "frame_ok (says ''r5'' (Error_Frame rejected_command))"
proof -
  have "error_ok rejected_command"
    by (simp add: error_ok_def rejected_command_def session_error_def bounded_text_def js_def is_safe_single_line_text_def)
  then show "frame_ok (says ''r5'' (Error_Frame rejected_command))" by (simp add: frame_ok_def says_def)
qed (simp add: frame_ok_def)

theorem refused_cancel_restores_starting:
  "ss_active_turn (session_state_of (session_run refused_cancel_run sample_starting)) = Some Turn_Starting
     \<and> (\<exists>t. bs_turn (session_run refused_cancel_run sample_starting) = Some t \<and> tn_acknowledged t \<and> tn_cancel t = None)"
proof -
  have cancel: "frame_schema (frame_value \<lparr>nf_request_id = js ''r5'', nf_sequence = 0, nf_body = Turn_Cancel (js ''s1'') (js ''t1'')\<rparr>)
      \<noteq> None"
    using frame_value_read [OF cancel_frames(1)] by simp
  show ?thesis
    by (simp add: refused_cancel_run_def session_evaluation turn_frames turn_frames [unfolded says_def] cancel_frames
        cancel_frames [unfolded says_def] cancel says_def cancel_turn_def begin_cancel_def handle_turn_started_def
        assert_turn_identity_def handle_remote_error_def refuse_cancel_def session_state_of_def
        sample_new_def sample_ready_def sample_starting_def sample_start_def sample_snapshot_def sample_turn_def new_turn_def)
qed

text \<open>
  A cancellation that crosses the completion of its turn. The extension answers it with a failed turn, as the turn is
  no longer there (\<open>browser-tab-session.ts\<close>, \<open>turn/cancel\<close>); the coordinator has settled the turn by then
  and takes the answer for a violation: the transport is torn down with the session.
\<close>

definition late_refusal :: bridge_error where
  "late_refusal = \<lparr>be_code = Turn_Not_Found, be_message = js ''The requested browser turn is not cancellable.'',
     be_retryable = False\<rparr>"

definition crossed_cancel_run :: "(jval option list \<times> bool \<times> session_event) list" where
  "crossed_cancel_run =
     ([said ''r5''], True, Cancel_Active_Turn (js ''t1''))
     # receives [] ''r4'' (Turn_Completed (js ''s1'') (js ''t1'') Stop)
     @ receives [] ''r5'' (Turn_Failed (js ''s1'') (js ''t1'') late_refusal)"

lemma crossing_frames:
  "frame_ok (says ''r4'' (Turn_Completed (js ''s1'') (js ''t1'') Stop))"
  "frame_ok (says ''r5'' (Turn_Failed (js ''s1'') (js ''t1'') late_refusal))"
  by (simp_all add: frame_ok_def says_def error_ok_def late_refusal_def bounded_text_def js_def opaque_id_pattern_def
      is_alnum_unit_def is_upper_unit_def is_lower_unit_def is_digit_unit_def is_safe_single_line_text_def)

theorem crossed_cancel_tears_down:
  "bs_lease (session_run crossed_cancel_run sample_streaming) = None
     \<and> bs_session_id (session_run crossed_cancel_run sample_streaming) = None"
proof -
  have cancel: "frame_schema (frame_value \<lparr>nf_request_id = js ''r5'', nf_sequence = 0, nf_body = Turn_Cancel (js ''s1'') (js ''t1'')\<rparr>)
      \<noteq> None"
    using frame_value_read [OF cancel_frames(1)] by simp
  show ?thesis
    by (simp add: crossed_cancel_run_def session_evaluation turn_frames turn_frames [unfolded says_def] crossing_frames
        crossing_frames [unfolded says_def] cancel_frames cancel_frames [unfolded says_def] cancel says_def cancel_turn_def begin_cancel_def
        handle_turn_completed_def handle_turn_failed_def settle_active_turn_def assert_active_turn_def
        assert_turn_identity_def teardown_transport_def reset_session_def settle_attempts_def
        sample_new_def sample_ready_def sample_starting_def sample_streaming_def sample_start_def sample_snapshot_def sample_turn_def new_turn_def)
qed

end
