(* ===== verification/Native_Frame_Check.thy ===== *)
theory Native_Frame_Check
  imports Frame_Facts
begin

text \<open>
  The hand-written frame validator of the browser extension
  (\<open>apps/browser-extension/src/protocol/browser-native-link.ts\<close>): one predicate per function of the
  source, on the value that arrived. The extension does not load the schemas of the protocol package,
  so the two descriptions of a frame are separate code; \<open>Native_Frame_Equivalence\<close> compares them.
\<close>

section \<open>Values\<close>

text \<open>
  \<open>value[key]\<close> after \<open>hasExactKeys\<close>. Only values a message can carry have keys here: an exotic object
  has none that \<open>Object.keys\<close> is asked for, and is refused.
\<close>

abbreviation at_key :: "jval \<Rightarrow> string \<Rightarrow> jval" where
  "at_key v k \<equiv> opt_field (read_data_record v) k"

definition has_exact_keys :: "string list \<Rightarrow> string list \<Rightarrow> jval \<Rightarrow> bool" where
  "has_exact_keys required optional v \<longleftrightarrow>
     (case read_data_record v of
        None \<Rightarrow> False
      | Some r \<Rightarrow>
          list_all (\<lambda>k. js k \<in> set (map fst r)) required
          \<and> list_all (\<lambda>k. k \<in> set (map js required) \<or> k \<in> set (map js optional)) (map fst r))"

text \<open>\<open>typeof value === "string" && value.length >= 1 && value.length <= maxLength && test(value)\<close>\<close>

definition is_text_value :: "nat \<Rightarrow> (jstr \<Rightarrow> bool) \<Rightarrow> jval \<Rightarrow> bool" where
  "is_text_value max_length test v \<longleftrightarrow>
     (case v of JStr s \<Rightarrow> 1 \<le> length s \<and> length s \<le> max_length \<and> test s | _ \<Rightarrow> False)"

definition is_opaque_id :: "nat \<Rightarrow> jval \<Rightarrow> bool" where
  "is_opaque_id max_length v \<longleftrightarrow> is_text_value max_length opaque_id_pattern v"

definition is_model_id :: "jval \<Rightarrow> bool" where
  "is_model_id v \<longleftrightarrow> is_text_value 256 model_id_pattern v"

text \<open>\<open>for (const character of value)\<close> walks over code points: a surrogate pair is one character.\<close>

fun character_points :: "jstr \<Rightarrow> nat list" where
  "character_points (c # d # s) =
     (if 55296 \<le> c \<and> c \<le> 56319 \<and> 56320 \<le> d \<and> d \<le> 57343
      then (65536 + (unat c - 55296) * 1024 + (unat d - 56320)) # character_points s
      else unat c # character_points (d # s))"
| "character_points [c] = [unat c]"
| "character_points [] = []"

definition has_unsafe_text_character :: "jstr \<Rightarrow> bool" where
  "has_unsafe_text_character s \<longleftrightarrow>
     list_ex (\<lambda>p. p \<le> 31 \<or> (127 \<le> p \<and> p \<le> 159) \<or> (8234 \<le> p \<and> p \<le> 8238) \<or> (8294 \<le> p \<and> p \<le> 8297))
       (character_points s)"

definition is_safe_text :: "nat \<Rightarrow> jval \<Rightarrow> bool" where
  "is_safe_text max_length v \<longleftrightarrow> is_text_value max_length (\<lambda>s. \<not> has_unsafe_text_character s) v"

text \<open>The integer a number equals, negative zero included.\<close>

fun integer_value :: "jval \<Rightarrow> int option" where
  "integer_value (JNum (NInt i)) = Some i"
| "integer_value (JNum NNegZero) = Some 0"
| "integer_value _ = None"

definition is_sequence :: "jval \<Rightarrow> bool" where
  "is_sequence v \<longleftrightarrow>
     (case v of
        JNum x \<Rightarrow> is_safe_integer x \<and> (case integer_value v of None \<Rightarrow> False | Some i \<Rightarrow> 0 \<le> i)
      | _ \<Rightarrow> False)"

definition is_bool_value :: "jval \<Rightarrow> bool" where
  "is_bool_value v \<longleftrightarrow> (case v of JBool _ \<Rightarrow> True | _ \<Rightarrow> False)"

definition is_one_of :: "string list \<Rightarrow> jval \<Rightarrow> bool" where
  "is_one_of names v \<longleftrightarrow> v \<in> set (map (\<lambda>k. JStr (js k)) names)"

definition is_peer :: "jval \<Rightarrow> bool" where
  "is_peer v \<longleftrightarrow> is_one_of [''bridge'', ''extension'', ''nativeHost''] v"

definition is_close_reason :: "jval \<Rightarrow> bool" where
  "is_close_reason v \<longleftrightarrow>
     is_one_of [''pageUnavailable'', ''replaced'', ''shutdown'', ''transportLost'', ''user''] v"

text \<open>\<open>Array.isArray(value)\<close> and its elements.\<close>

fun elements_of :: "jval \<Rightarrow> jval list option" where
  "elements_of (JArr vs) = Some vs"
| "elements_of _ = None"

definition is_supported_protocol_versions :: "jval \<Rightarrow> bool" where
  "is_supported_protocol_versions v \<longleftrightarrow>
     (case elements_of v of
        None \<Rightarrow> False
      | Some vs \<Rightarrow>
          1 \<le> length vs \<and> length vs \<le> 16
          \<and> list_all (\<lambda>w. case w of JNum (NInt i) \<Rightarrow> is_safe_integer (NInt i) \<and> 0 < i | _ \<Rightarrow> False) vs
          \<and> length (remdups vs) = length vs
          \<and> num NATIVE_MESSAGING_PROTOCOL_VERSION \<in> set vs)"

section \<open>Payload data\<close>

definition ERROR_CODES :: "string list" where
  "ERROR_CODES =
     [''browser.state_changed'', ''browser.unavailable'', ''capability.unsupported'', ''internal.error'',
      ''model.unavailable'', ''protocol.invalid_message'', ''protocol.sequence_violation'',
      ''protocol.unsupported_version'', ''session.already_connected'', ''session.closed'',
      ''session.not_connected'', ''transport.timeout'', ''transport.unavailable'', ''turn.already_active'',
      ''turn.cancelled'', ''turn.not_found'']"

definition is_bridge_error :: "jval \<Rightarrow> bool" where
  "is_bridge_error v \<longleftrightarrow>
     has_exact_keys [''code'', ''message'', ''retryable''] [] v
     \<and> is_one_of ERROR_CODES (at_key v ''code'')
     \<and> is_safe_text 512 (at_key v ''message'')
     \<and> is_bool_value (at_key v ''retryable'')"

definition is_session_payload :: "jval \<Rightarrow> bool" where
  "is_session_payload v \<longleftrightarrow> has_exact_keys [''sessionId''] [] v \<and> is_opaque_id 128 (at_key v ''sessionId'')"

definition is_turn_payload :: "jval \<Rightarrow> bool" where
  "is_turn_payload v \<longleftrightarrow>
     has_exact_keys [''sessionId'', ''turnId''] [] v
     \<and> is_opaque_id 128 (at_key v ''sessionId'') \<and> is_opaque_id 128 (at_key v ''turnId'')"

definition is_agent_binding :: "jval \<Rightarrow> bool" where
  "is_agent_binding v \<longleftrightarrow>
     has_exact_keys [''documentId'', ''generation'', ''tabId''] [] v
     \<and> is_opaque_id 256 (at_key v ''documentId'')
     \<and> is_sequence (at_key v ''generation'') \<and> is_sequence (at_key v ''tabId'')"

text \<open>\<open><=\<close> and \<open>===\<close> between numbers that passed \<open>isSequence\<close>.\<close>

definition timestamps_consistent :: "jval \<Rightarrow> jval \<Rightarrow> jval \<Rightarrow> bool" where
  "timestamps_consistent issued last_activity expires \<longleftrightarrow>
     (case (integer_value issued, integer_value last_activity, integer_value expires) of
        (Some i, Some l, Some e) \<Rightarrow>
          i \<le> l \<and> l \<le> max_safe_integer - int AGENT_ACTIVATION_INACTIVITY_TIMEOUT_MS
          \<and> e = l + int AGENT_ACTIVATION_INACTIVITY_TIMEOUT_MS
      | _ \<Rightarrow> False)"

definition is_active_agent_status :: "jval \<Rightarrow> bool" where
  "is_active_agent_status v \<longleftrightarrow>
     has_exact_keys [''binding'', ''conversationOwnershipId'', ''expiresAtMs'', ''issuedAtMs'',
       ''lastActivityAtMs'', ''leaseId'', ''revision'', ''state''] [] v
     \<and> at_key v ''state'' = JStr (js ''active'')
     \<and> is_agent_binding (at_key v ''binding'')
     \<and> is_opaque_id 128 (at_key v ''conversationOwnershipId'')
     \<and> is_sequence (at_key v ''expiresAtMs'') \<and> is_sequence (at_key v ''issuedAtMs'')
     \<and> is_sequence (at_key v ''lastActivityAtMs'')
     \<and> is_opaque_id 128 (at_key v ''leaseId'') \<and> is_sequence (at_key v ''revision'')
     \<and> timestamps_consistent (at_key v ''issuedAtMs'') (at_key v ''lastActivityAtMs'') (at_key v ''expiresAtMs'')"

definition is_agent_status :: "jval \<Rightarrow> bool" where
  "is_agent_status v \<longleftrightarrow>
     (if has_exact_keys [''revision'', ''state''] [] v
      then at_key v ''state'' = JStr (js ''inactive'') \<and> is_sequence (at_key v ''revision'')
      else is_active_agent_status v)"

definition is_agent_status_payload :: "jval \<Rightarrow> bool" where
  "is_agent_status_payload v \<longleftrightarrow>
     has_exact_keys [''agentProtocolVersion'', ''sessionId'', ''status''] [] v
     \<and> at_key v ''agentProtocolVersion'' = num AGENT_WORKFLOW_PROTOCOL_VERSION
     \<and> is_opaque_id 128 (at_key v ''sessionId'') \<and> is_agent_status (at_key v ''status'')"

text \<open>An item of a turn's input, with the limit on its text.\<close>

definition is_text_item :: "nat \<Rightarrow> jval \<Rightarrow> bool" where
  "is_text_item max_length v \<longleftrightarrow>
     has_exact_keys [''text'', ''type''] [] v \<and> at_key v ''type'' = JStr (js ''text'')
     \<and> is_text_value max_length (\<lambda>_. True) (at_key v ''text'')"

fun text_length :: "jval \<Rightarrow> nat" where
  "text_length (JStr s) = length s"
| "text_length _ = 0"

definition is_agent_turn_start_payload :: "jval \<Rightarrow> bool" where
  "is_agent_turn_start_payload v \<longleftrightarrow>
     has_exact_keys [''agentProtocolVersion'', ''catalogRevision'', ''expected'', ''input'', ''modelId'',
       ''reasoningEffort'', ''sessionId'', ''temporary'', ''turnId''] [] v
     \<and> at_key v ''agentProtocolVersion'' = num AGENT_WORKFLOW_PROTOCOL_VERSION
     \<and> is_opaque_id 128 (at_key v ''sessionId'') \<and> is_opaque_id 128 (at_key v ''turnId'')
     \<and> is_opaque_id 128 (at_key v ''catalogRevision'') \<and> is_model_id (at_key v ''modelId'')
     \<and> is_opaque_id 64 (at_key v ''reasoningEffort'') \<and> at_key v ''temporary'' = JBool False
     \<and> is_active_agent_status (at_key v ''expected'')
     \<and> (case elements_of (at_key v ''input'') of Some [item] \<Rightarrow> is_text_item 262144 item | _ \<Rightarrow> False)"

text \<open>The loop over the items of \<open>turn/start\<close>, with the running total.\<close>

fun input_total :: "nat \<Rightarrow> jval list \<Rightarrow> nat option" where
  "input_total n [] = Some n"
| "input_total n (item # items) =
     (if is_text_item 65536 item then input_total (n + text_length (at_key item ''text'')) items else None)"

definition is_turn_start_payload :: "jval \<Rightarrow> bool" where
  "is_turn_start_payload v \<longleftrightarrow>
     has_exact_keys [''catalogRevision'', ''input'', ''modelId'', ''reasoningEffort'', ''sessionId'',
       ''temporary'', ''turnId''] [] v
     \<and> is_opaque_id 128 (at_key v ''sessionId'') \<and> is_opaque_id 128 (at_key v ''turnId'')
     \<and> is_opaque_id 128 (at_key v ''catalogRevision'') \<and> is_model_id (at_key v ''modelId'')
     \<and> is_opaque_id 64 (at_key v ''reasoningEffort'') \<and> is_bool_value (at_key v ''temporary'')
     \<and> (case elements_of (at_key v ''input'') of
          None \<Rightarrow> False
        | Some items \<Rightarrow>
            1 \<le> length items \<and> length items \<le> 16
            \<and> (case input_total 0 items of None \<Rightarrow> False | Some n \<Rightarrow> n \<le> 262144))"

text \<open>The loops of \<open>isModel\<close> and \<open>isCapabilities\<close>: the identifiers seen so far, or a refusal.\<close>

fun efforts_seen :: "jval list \<Rightarrow> jval list \<Rightarrow> jval list option" where
  "efforts_seen seen [] = Some seen"
| "efforts_seen seen (v # vs) =
     (if has_exact_keys [''description'', ''reasoningEffort''] [] v
         \<and> is_opaque_id 64 (at_key v ''reasoningEffort'') \<and> is_safe_text 256 (at_key v ''description'')
         \<and> at_key v ''reasoningEffort'' \<notin> set seen
      then efforts_seen (at_key v ''reasoningEffort'' # seen) vs else None)"

definition is_model :: "jval \<Rightarrow> bool" where
  "is_model v \<longleftrightarrow>
     has_exact_keys [''defaultReasoningEffort'', ''displayName'', ''id'', ''inputModalities'',
       ''supportedReasoningEfforts''] [] v
     \<and> is_model_id (at_key v ''id'') \<and> is_safe_text 128 (at_key v ''displayName'')
     \<and> elements_of (at_key v ''inputModalities'') = Some [JStr (js ''text'')]
     \<and> is_opaque_id 64 (at_key v ''defaultReasoningEffort'')
     \<and> (case elements_of (at_key v ''supportedReasoningEfforts'') of
          None \<Rightarrow> False
        | Some options \<Rightarrow>
            1 \<le> length options \<and> length options \<le> 16
            \<and> (case efforts_seen [] options of
                 None \<Rightarrow> False
               | Some seen \<Rightarrow> at_key v ''defaultReasoningEffort'' \<in> set seen))"

fun models_seen :: "jval list \<Rightarrow> jval list \<Rightarrow> bool" where
  "models_seen seen [] \<longleftrightarrow> True"
| "models_seen seen (v # vs) \<longleftrightarrow>
     is_model v \<and> at_key v ''id'' \<notin> set seen \<and> models_seen (at_key v ''id'' # seen) vs"

definition is_capabilities :: "jval \<Rightarrow> bool" where
  "is_capabilities v \<longleftrightarrow>
     has_exact_keys [''cancellation'', ''catalogRevision'', ''imageInput'', ''modelDiscovery'', ''models'',
       ''streaming'', ''temporaryChat'', ''toolCalls''] [] v
     \<and> is_opaque_id 128 (at_key v ''catalogRevision'')
     \<and> is_bool_value (at_key v ''modelDiscovery'') \<and> is_bool_value (at_key v ''streaming'')
     \<and> is_bool_value (at_key v ''cancellation'') \<and> is_bool_value (at_key v ''temporaryChat'')
     \<and> at_key v ''imageInput'' = JBool False \<and> at_key v ''toolCalls'' = JBool False
     \<and> (case elements_of (at_key v ''models'') of
          None \<Rightarrow> False
        | Some models \<Rightarrow>
            length models \<le> 128 \<and> models_seen [] models
            \<and> (at_key v ''modelDiscovery'' = JBool True \<or> models = []))"

section \<open>Frames\<close>

definition session_and :: "string list \<Rightarrow> jval \<Rightarrow> bool" where
  "session_and keys v \<longleftrightarrow> has_exact_keys keys [] v \<and> is_opaque_id 128 (at_key v ''sessionId'')"

fun is_payload :: "frame_type \<Rightarrow> jval \<Rightarrow> bool" where
  "is_payload T_Hello v \<longleftrightarrow>
     has_exact_keys [''implementationVersion'', ''peer'', ''supportedProtocolVersions''] [] v
     \<and> is_peer (at_key v ''peer'') \<and> is_opaque_id 64 (at_key v ''implementationVersion'')
     \<and> is_supported_protocol_versions (at_key v ''supportedProtocolVersions'')"
| "is_payload T_Hello_Acknowledged v \<longleftrightarrow>
     has_exact_keys [''implementationVersion'', ''peer''] [] v
     \<and> is_peer (at_key v ''peer'') \<and> is_opaque_id 64 (at_key v ''implementationVersion'')"
| "is_payload T_Heartbeat v \<longleftrightarrow> has_exact_keys [] [] v"
| "is_payload T_Ack v \<longleftrightarrow>
     has_exact_keys [''acknowledgedSequence''] [] v \<and> is_sequence (at_key v ''acknowledgedSequence'')"
| "is_payload T_Session_Connect v \<longleftrightarrow> is_session_payload v"
| "is_payload T_Session_Connected v \<longleftrightarrow> is_session_payload v"
| "is_payload T_Capabilities_Read v \<longleftrightarrow> is_session_payload v"
| "is_payload T_Agent_Status_Read v \<longleftrightarrow> is_session_payload v"
| "is_payload T_Session_Disconnect v \<longleftrightarrow>
     has_exact_keys [''sessionId''] [''reason''] v \<and> is_opaque_id 128 (at_key v ''sessionId'')
     \<and> (at_key v ''reason'' = JUndef \<or> is_close_reason (at_key v ''reason''))"
| "is_payload T_Session_Disconnected v \<longleftrightarrow>
     session_and [''reason'', ''sessionId''] v \<and> is_close_reason (at_key v ''reason'')"
| "is_payload T_Capabilities_Result v \<longleftrightarrow>
     session_and [''capabilities'', ''sessionId''] v \<and> is_capabilities (at_key v ''capabilities'')"
| "is_payload T_Capabilities_Changed v \<longleftrightarrow>
     session_and [''capabilities'', ''sessionId''] v \<and> is_capabilities (at_key v ''capabilities'')"
| "is_payload T_Agent_Status_Result v \<longleftrightarrow> is_agent_status_payload v"
| "is_payload T_Agent_Status_Changed v \<longleftrightarrow> is_agent_status_payload v"
| "is_payload T_Agent_Activity_Note v \<longleftrightarrow>
     session_and [''expected'', ''sessionId''] v \<and> is_active_agent_status (at_key v ''expected'')"
| "is_payload T_Agent_Activity_Result v \<longleftrightarrow>
     session_and [''agentProtocolVersion'', ''sessionId'', ''status''] v
     \<and> at_key v ''agentProtocolVersion'' = num AGENT_WORKFLOW_PROTOCOL_VERSION
     \<and> is_active_agent_status (at_key v ''status'')"
| "is_payload T_Agent_Turn_Start v \<longleftrightarrow> is_agent_turn_start_payload v"
| "is_payload T_Turn_Start v \<longleftrightarrow> is_turn_start_payload v"
| "is_payload T_Turn_Started v \<longleftrightarrow> is_turn_payload v"
| "is_payload T_Turn_Cancel v \<longleftrightarrow> is_turn_payload v"
| "is_payload T_Turn_Cancelled v \<longleftrightarrow> is_turn_payload v"
| "is_payload T_Turn_Delta v \<longleftrightarrow>
     session_and [''channel'', ''delta'', ''sessionId'', ''turnId''] v \<and> is_opaque_id 128 (at_key v ''turnId'')
     \<and> is_one_of [''outputText'', ''reasoning'', ''commentary''] (at_key v ''channel'')
     \<and> is_text_value 16384 (\<lambda>_. True) (at_key v ''delta'')"
| "is_payload T_Turn_Completed v \<longleftrightarrow>
     session_and [''finishReason'', ''sessionId'', ''turnId''] v \<and> is_opaque_id 128 (at_key v ''turnId'')
     \<and> is_one_of [''stop'', ''length''] (at_key v ''finishReason'')"
| "is_payload T_Turn_Failed v \<longleftrightarrow>
     session_and [''error'', ''sessionId'', ''turnId''] v \<and> is_opaque_id 128 (at_key v ''turnId'')
     \<and> is_bridge_error (at_key v ''error'')"
| "is_payload T_Error v \<longleftrightarrow> has_exact_keys [''error''] [] v \<and> is_bridge_error (at_key v ''error'')"

text \<open>\<open>switch (type)\<close>: a type that is none of the cases is refused.\<close>

definition parse_native_messaging_frame :: "jval \<Rightarrow> jval option" where
  "parse_native_messaging_frame v =
     (if \<not> has_exact_keys [''payload'', ''protocolVersion'', ''requestId'', ''sequence'', ''type''] [] v then None
      else if at_key v ''protocolVersion'' \<noteq> num NATIVE_MESSAGING_PROTOCOL_VERSION
         \<or> \<not> is_opaque_id 128 (at_key v ''requestId'') \<or> \<not> is_sequence (at_key v ''sequence'')
         \<or> \<not> is_string_value (at_key v ''type'') then None
      else case read_enum frame_types (at_key v ''type'') of
          None \<Rightarrow> None
        | Some t \<Rightarrow> if is_payload t (at_key v ''payload'') then Some v else None)"

end
