(* ===== verification/Native_Frame_Equivalence.thy ===== *)
theory Native_Frame_Equivalence
  imports Native_Frame_Check
begin

text \<open>
  The extension's validator against the schemas of the protocol package: for every value, the two
  accept the same frames, apart from one limit of \<open>agent/turn/start\<close>.
\<close>

section \<open>Values\<close>

named_theorems accepts

lemma character_points_within:
  assumes "\<And>p. 55296 \<le> p \<Longrightarrow> \<not> bad p"
  shows "list_ex bad (character_points s) \<longleftrightarrow> list_ex (\<lambda>c. bad (unat c)) s"
proof (induction s rule: character_points.induct)
  case (1 c d s)
  show ?case
  proof (cases "55296 \<le> c \<and> c \<le> 56319 \<and> 56320 \<le> d \<and> d \<le> 57343")
    case True
    then have "\<not> bad (unat c)" and "\<not> bad (unat d)"
      by (auto intro!: assms simp: word_le_nat_alt)
    then show ?thesis
      using True 1 assms by simp
  next
    case False
    then show ?thesis using 1 by auto
  qed
qed simp_all

lemma safe_text_iff: "\<not> has_unsafe_text_character s \<longleftrightarrow> is_safe_single_line_text s"
  by (subst has_unsafe_text_character_def, subst character_points_within)
    (auto simp: is_safe_single_line_text_def list_ex_iff word_le_nat_alt)

lemma text_accepts [accepts]: "is_text_value n test v \<longleftrightarrow> read_text 1 n test v \<noteq> None"
  by (simp add: is_text_value_def read_text_def split: jval.split)

lemma safe_text_accepts [accepts]:
  "is_safe_text n v \<longleftrightarrow> read_text 1 n is_safe_single_line_text v \<noteq> None"
  by (simp add: is_safe_text_def text_accepts safe_text_iff)

lemma sequence_accepts [accepts]: "is_sequence v \<longleftrightarrow> read_sequence v \<noteq> None"
  by (auto simp: is_sequence_def read_sequence_def split: jval.split jnum.split)

lemma bool_accepts [accepts]: "is_bool_value v \<longleftrightarrow> read_bool v \<noteq> None"
  by (simp add: is_bool_value_def read_bool_def split: jval.split)

lemma lookup_accepts: "(\<exists>x. lookup_text table s = Some x) \<longleftrightarrow> (\<exists>k \<in> set (map fst table). s = js k)"
  by (induction table s rule: lookup_text.induct) auto

lemma enum_accepts: "set names = set (map fst table) \<Longrightarrow> is_one_of names v \<longleftrightarrow> read_enum table v \<noteq> None"
  by (cases v) (auto simp: is_one_of_def read_enum_def lookup_accepts image_iff)

lemma enums_accept [accepts]:
  "is_peer v \<longleftrightarrow> read_enum peer_roles v \<noteq> None"
  "is_close_reason v \<longleftrightarrow> read_enum close_reasons v \<noteq> None"
  "is_one_of ERROR_CODES v \<longleftrightarrow> read_enum bridge_error_codes v \<noteq> None"
  "is_one_of [''outputText'', ''reasoning'', ''commentary''] v \<longleftrightarrow> read_enum delta_channels v \<noteq> None"
  "is_one_of [''stop'', ''length''] v \<longleftrightarrow> read_enum finish_reasons v \<noteq> None"
proof -
  show "is_peer v \<longleftrightarrow> read_enum peer_roles v \<noteq> None"
    unfolding is_peer_def by (rule enum_accepts) (auto simp: peer_roles_def)
  show "is_close_reason v \<longleftrightarrow> read_enum close_reasons v \<noteq> None"
    unfolding is_close_reason_def by (rule enum_accepts) (auto simp: close_reasons_def)
  show "is_one_of ERROR_CODES v \<longleftrightarrow> read_enum bridge_error_codes v \<noteq> None"
    by (rule enum_accepts) (simp only: ERROR_CODES_def bridge_error_codes_def list.map fst_conv, auto)
  show "is_one_of [''outputText'', ''reasoning'', ''commentary''] v \<longleftrightarrow> read_enum delta_channels v \<noteq> None"
    by (rule enum_accepts) (auto simp: delta_channels_def)
  show "is_one_of [''stop'', ''length''] v \<longleftrightarrow> read_enum finish_reasons v \<noteq> None"
    by (rule enum_accepts) (auto simp: finish_reasons_def)
qed

lemma opaque_accepts [accepts]: "is_opaque_id n v \<longleftrightarrow> read_text 1 n opaque_id_pattern v \<noteq> None"
  by (simp add: is_opaque_id_def text_accepts)

lemma model_id_accepts [accepts]: "is_model_id v \<longleftrightarrow> read_text 1 256 model_id_pattern v \<noteq> None"
  by (simp add: is_model_id_def text_accepts)

section \<open>Objects\<close>

text \<open>
  The source asks for the required keys first; a schema reads every field, and a missing one
  is undefined, which no reader takes.
\<close>

definition key_present :: "data_record \<Rightarrow> string \<Rightarrow> bool" where
  "key_present r k \<longleftrightarrow> js k \<in> fst ` set r"

definition keys_within :: "string set \<Rightarrow> data_record \<Rightarrow> bool" where
  "keys_within ks r \<longleftrightarrow> fst ` set r \<subseteq> js ` ks"

lemma has_exact_keys_JObj:
  "has_exact_keys required optional (JObj r) \<longleftrightarrow>
     list_all (key_present r) required \<and> keys_within (set required \<union> set optional) r"
  by (auto simp: has_exact_keys_def key_present_def keys_within_def list_all_iff)

lemma strict_object_JObj: "strict_object shape (JObj r) = Some r' \<longleftrightarrow> r' = r \<and> keys_within (set shape) r"
  by (auto simp: strict_object_iff keys_within_def simp del: strict_object_value)

lemma key_present_field: "field r k \<noteq> JUndef \<Longrightarrow> key_present r k"
  by (auto simp: key_present_def field_def split: option.splits dest: map_of_SomeD intro: rev_image_eqI)

lemma undefined_refused [simp]:
  "read_text lo hi ok JUndef = None" "read_sequence JUndef = None" "read_bool JUndef = None"
  "read_enum table JUndef = None" "elements_of JUndef = None" "read_array lo hi f JUndef = None"
  by (simp_all add: read_text_def read_sequence_def read_bool_def read_enum_def read_array_def)

text \<open>A field some reader takes is there.\<close>

lemma read_has_key:
  "read_text lo hi ok (field r k) = Some s \<Longrightarrow> key_present r k"
  "read_sequence (field r k) = Some n \<Longrightarrow> key_present r k"
  "read_bool (field r k) = Some b \<Longrightarrow> key_present r k"
  "read_enum table (field r k) = Some x \<Longrightarrow> key_present r k"
  "read_array lo hi f (field r k) = Some xs \<Longrightarrow> key_present r k"
  "elements_of (field r k) = Some vs \<Longrightarrow> key_present r k"
  "field r k = JStr t \<Longrightarrow> key_present r k" "field r k = JBool c \<Longrightarrow> key_present r k"
  "field r k = JNum x' \<Longrightarrow> key_present r k" "field r k = JObj r' \<Longrightarrow> key_present r k" "field r k = JArr vs' \<Longrightarrow> key_present r k"
  by (rule key_present_field, auto)+

lemma not_object:
  "read_data_record v = None \<Longrightarrow> \<not> has_exact_keys required optional v"
  "read_data_record v = None \<Longrightarrow> strict_object shape v = None"
  by (cases v; simp add: has_exact_keys_def strict_object_def)+

declare strict_object_value [simp del]

lemmas object_simps = has_exact_keys_JObj strict_object_JObj bind_Some_iff expect_iff require_iff insert_commute

lemma bridge_error_accepts [accepts]: "is_bridge_error v \<longleftrightarrow> bridge_error_schema v \<noteq> None"
  by (cases v) (auto simp: is_bridge_error_def bridge_error_schema_def object_simps accepts not_object
      dest: read_has_key)

lemma session_payload_accepts [accepts]: "is_session_payload v \<longleftrightarrow> session_payload_schema v \<noteq> None"
  by (cases v) (auto simp: is_session_payload_def session_payload_schema_def text_schema_defs object_simps
      accepts not_object dest: read_has_key)

lemma turn_payload_accepts [accepts]: "is_turn_payload v \<longleftrightarrow> turn_payload_schema v \<noteq> None"
  by (cases v) (auto simp: is_turn_payload_def turn_payload_schema_def text_schema_defs object_simps
      accepts not_object dest: read_has_key)

lemma agent_binding_accepts [accepts]: "is_agent_binding v \<longleftrightarrow> document_binding_schema v \<noteq> None"
  by (cases v) (auto simp: is_agent_binding_def document_binding_schema_def text_schema_defs object_simps
      accepts not_object dest: read_has_key)

section \<open>Activation statuses\<close>

lemma object_schema_undefined [simp]:
  "document_binding_schema JUndef = None" "active_status_schema JUndef = None"
  "agent_status_schema JUndef = None" "bridge_error_schema JUndef = None"
  "browser_capabilities_schema JUndef = None"
  by (simp_all add: document_binding_schema_def active_status_schema_def agent_status_schema_def
      bridge_error_schema_def browser_capabilities_schema_def strict_object_def)

lemma object_has_key:
  "document_binding_schema (field r k) = Some b \<Longrightarrow> key_present r k"
  "active_status_schema (field r k) = Some a \<Longrightarrow> key_present r k"
  "agent_status_schema (field r k) = Some s \<Longrightarrow> key_present r k"
  "bridge_error_schema (field r k) = Some e \<Longrightarrow> key_present r k"
  "browser_capabilities_schema (field r k) = Some c \<Longrightarrow> key_present r k"
  by (rule key_present_field, auto)+

lemma sequence_value: "read_sequence v = Some n \<Longrightarrow> integer_value v = Some (int n)"
  by (auto simp: read_sequence_def split: jval.splits jnum.splits if_splits)

lemma timestamps_accept:
  assumes "read_sequence vi = Some i" and "read_sequence vl = Some l" and "read_sequence ve = Some e"
  shows "timestamps_consistent vi vl ve \<longleftrightarrow>
    i \<le> l \<and> int l \<le> max_safe_integer - int AGENT_ACTIVATION_INACTIVITY_TIMEOUT_MS
    \<and> e = l + AGENT_ACTIVATION_INACTIVITY_TIMEOUT_MS"
  using assms [THEN sequence_value] by (auto simp: timestamps_consistent_def)

lemma active_status_accepts [accepts]: "is_active_agent_status v \<longleftrightarrow> active_status_schema v \<noteq> None"
  by (cases v) (auto simp: is_active_agent_status_def active_status_schema_def text_schema_defs object_simps
      accepts not_object consistent_timestamps_def timestamps_accept Let_def
      dest: read_has_key object_has_key)

lemma inactive_status_accepts:
  "inactive_status_schema v \<noteq> None \<longleftrightarrow> has_exact_keys [''revision'', ''state''] [] v
     \<and> at_key v ''state'' = JStr (js ''inactive'') \<and> is_sequence (at_key v ''revision'')"
  by (cases v) (auto simp: inactive_status_schema_def object_simps accepts not_object dest: read_has_key)

lemma agent_status_accepts [accepts]: "is_agent_status v \<longleftrightarrow> agent_status_schema v \<noteq> None"
proof (cases v)
  case (JObj r)
  show ?thesis
  proof (cases "field r ''state'' = JStr (js ''active'')")
    case True
    have "\<not> is_active_agent_status v" if "has_exact_keys [''revision'', ''state''] [] v"
    proof
      assume "is_active_agent_status v"
      then have "js ''leaseId'' \<in> fst ` set r"
        by (simp add: is_active_agent_status_def JObj has_exact_keys_JObj key_present_def)
      with that show False by (auto simp: JObj has_exact_keys_JObj keys_within_def)
    qed
    with True show ?thesis
      by (auto simp: is_agent_status_def agent_status_schema_def JObj active_status_accepts)
  next
    case False
    then have "\<not> is_active_agent_status v" by (simp add: is_active_agent_status_def JObj)
    with False inactive_status_accepts [of v] show ?thesis
      by (cases "inactive_status_schema v") (auto simp: is_agent_status_def agent_status_schema_def JObj)
  qed
qed (simp_all add: is_agent_status_def agent_status_schema_def not_object is_active_agent_status_def)

lemma agent_status_payload_accepts [accepts]:
  "is_agent_status_payload v \<longleftrightarrow> agent_status_payload_schema v \<noteq> None"
  by (cases v) (auto simp: is_agent_status_payload_def agent_status_payload_schema_def text_schema_defs
      object_simps accepts not_object dest: read_has_key object_has_key)

section \<open>Turns\<close>

lemma elements_of_iff: "elements_of v = Some vs \<longleftrightarrow> v = JArr vs"
  by (cases v) auto

lemma text_item_accepts:
  "is_text_item n v \<longleftrightarrow> (\<exists>r s. v = JObj r \<and> keys_within {''type'', ''text''} r
     \<and> field r ''type'' = JStr (js ''text'') \<and> field r ''text'' = JStr s \<and> any_text n s)"
  by (cases v) (auto simp: is_text_item_def object_simps accepts not_object read_text_iff dest: read_has_key)

lemma text_input_accepts:
  "text_input_schema v = Some s \<longleftrightarrow> (\<exists>r. v = JObj r \<and> keys_within {''type'', ''text''} r
     \<and> field r ''type'' = JStr (js ''text'') \<and> field r ''text'' = JStr s \<and> any_text 65536 s)"
  by (cases v) (auto simp: text_input_schema_def object_simps read_text_iff MAX_TURN_INPUT_TEXT_CHARACTERS_def
      not_object dest: read_has_key)

lemma input_total_accepts:
  "input_total n vs = Some m \<longleftrightarrow>
     (\<exists>xs. read_each text_input_schema vs = Some xs \<and> m = n + sum_list (map length xs))"
proof (induction vs arbitrary: n)
  case (Cons v vs)
  show ?case
  proof (cases "is_text_item 65536 v")
    case True
    then obtain s where s: "text_input_schema v = Some s" "text_length (at_key v ''text'') = length s"
      by (auto simp: text_item_accepts text_input_accepts)
    with True Cons.IH show ?thesis by (auto simp: bind_Some_iff)
  next
    case False
    then have "text_input_schema v = None"
      by (cases "text_input_schema v") (auto simp: text_item_accepts text_input_accepts)
    with False show ?thesis by simp
  qed
qed auto

lemma turn_input_accepts:
  "(case elements_of v of
      None \<Rightarrow> False
    | Some items \<Rightarrow> 1 \<le> length items \<and> length items \<le> 16
        \<and> (case input_total 0 items of None \<Rightarrow> False | Some n \<Rightarrow> n \<le> 262144))
   \<longleftrightarrow> turn_input_schema v \<noteq> None"
proof (cases v)
  case (JArr items)
  show ?thesis
  proof (cases "input_total 0 items")
    case None
    then have "read_each text_input_schema items = None"
      using input_total_accepts [of 0 items] by (cases "read_each text_input_schema items") auto
    with None show ?thesis by (auto simp: JArr turn_input_schema_def read_array_def bind_Some_iff)
  next
    case (Some m)
    then obtain xs where "read_each text_input_schema items = Some xs" "m = sum_list (map length xs)"
      using input_total_accepts [of 0 items m] by auto
    with Some show ?thesis
      by (auto simp: JArr turn_input_schema_def read_array_def require_def MAX_TURN_INPUT_ITEMS_def
          MAX_TURN_INPUT_TOTAL_CHARACTERS_def)
  qed
qed (simp_all add: turn_input_schema_def read_array_def)

lemma turn_input_has_key: "turn_input_schema (field r k) = Some xs \<Longrightarrow> key_present r k"
  by (rule key_present_field) (auto simp: turn_input_schema_def)

lemma turn_start_accepts [accepts]: "is_turn_start_payload v \<longleftrightarrow> turn_start_schema v \<noteq> None"
  unfolding is_turn_start_payload_def turn_input_accepts
  by (cases v) (auto simp: turn_start_schema_def text_schema_defs object_simps accepts not_object
      dest: read_has_key turn_input_has_key)

text \<open>The length of the one text of \<open>agent/turn/start\<close>.\<close>

definition agent_text_length :: "jval \<Rightarrow> nat" where
  "agent_text_length v =
     (case elements_of (at_key v ''input'') of Some [item] \<Rightarrow> text_length (at_key item ''text'') | _ \<Rightarrow> 0)"

lemma agent_input_accepts:
  "agent_turn_input_schema v \<noteq> None \<longleftrightarrow>
     (case elements_of v of
        Some [item] \<Rightarrow> is_text_item 262144 item \<and> text_length (at_key item ''text'') \<le> 65536
      | _ \<Rightarrow> False)"
proof (cases "\<exists>item. v = JArr [item]")
  case True
  then obtain item where v: "v = JArr [item]" ..
  have "text_input_schema item \<noteq> None \<longleftrightarrow>
      is_text_item 262144 item \<and> text_length (at_key item ''text'') \<le> 65536"
    by (auto simp: text_input_accepts text_item_accepts bounded_text_def)
  then show ?thesis by (auto simp: v agent_turn_input_schema_def read_array_def bind_Some_iff)
next
  case False
  then have "\<not> (case elements_of v of
        Some [item] \<Rightarrow> is_text_item 262144 item \<and> text_length (at_key item ''text'') \<le> 65536
      | _ \<Rightarrow> False)"
    by (cases v) (auto split: list.splits)
  moreover have "agent_turn_input_schema v = None"
  proof (rule ccontr)
    assume "agent_turn_input_schema v \<noteq> None"
    then obtain items s where "read_array 1 1 text_input_schema v = Some items"
      by (auto simp: agent_turn_input_schema_def bind_Some_iff)
    then have "\<exists>vs. v = JArr vs \<and> length vs = 1"
      by (cases v) (auto simp: read_array_def split: if_splits)
    with False show False by (auto simp: length_Suc_conv)
  qed
  ultimately show ?thesis by simp
qed

lemma agent_input_has_key: "agent_turn_input_schema (field r k) = Some s \<Longrightarrow> key_present r k"
  by (rule key_present_field) (auto simp: agent_turn_input_schema_def)

lemma agent_turn_start_accepts:
  "is_agent_turn_start_payload v \<and> agent_text_length v \<le> 65536 \<longleftrightarrow> agent_turn_start_schema v \<noteq> None"
proof -
  have split: "(case x of Some [item] \<Rightarrow> is_text_item 262144 item | _ \<Rightarrow> False)
      \<and> (case x of Some [item] \<Rightarrow> text_length (at_key item ''text'') | _ \<Rightarrow> 0) \<le> 65536
    \<longleftrightarrow> (case x of
        Some [item] \<Rightarrow> is_text_item 262144 item \<and> text_length (at_key item ''text'') \<le> 65536
      | _ \<Rightarrow> False)" for x
    by (auto split: option.splits list.splits)
  show ?thesis
    unfolding is_agent_turn_start_payload_def agent_text_length_def conj_assoc split
      agent_input_accepts [symmetric]
    by (cases v) (auto simp: agent_turn_start_schema_def text_schema_defs object_simps accepts not_object
        AGENT_WORKFLOW_PROTOCOL_VERSION_def dest: read_has_key object_has_key agent_input_has_key)
qed

section \<open>Models\<close>

lemma effort_option_accepts:
  "has_exact_keys [''description'', ''reasoningEffort''] [] v
     \<and> is_opaque_id 64 (at_key v ''reasoningEffort'') \<and> is_safe_text 256 (at_key v ''description'')
   \<longleftrightarrow> reasoning_effort_option_schema v \<noteq> None"
  by (cases v) (auto simp: reasoning_effort_option_schema_def text_schema_defs object_simps accepts not_object
      dest: read_has_key)

lemma effort_option_id:
  "reasoning_effort_option_schema v = Some e \<Longrightarrow> at_key v ''reasoningEffort'' = JStr (eo_effort e)"
  by (cases v) (auto simp: reasoning_effort_option_schema_def text_schema_defs object_simps not_object read_text_iff)

lemma efforts_seen_read:
  "efforts_seen (map JStr seen) vs =
     (case read_each reasoning_effort_option_schema vs of
        None \<Rightarrow> None
      | Some es \<Rightarrow>
          if distinct (map eo_effort es) \<and> (\<forall>e \<in> set es. eo_effort e \<notin> set seen)
          then Some (map JStr (rev (map eo_effort es) @ seen)) else None)"
proof (induction vs arbitrary: seen)
  case (Cons v vs)
  show ?case
  proof (cases "reasoning_effort_option_schema v")
    case None
    then show ?thesis using effort_option_accepts [of v] by auto
  next
    case (Some e)
    note effort_option_id [OF this, simp]
    from Some effort_option_accepts [of v]
    have step: "efforts_seen (map JStr seen) (v # vs) =
        (if eo_effort e \<notin> set seen then efforts_seen (map JStr (eo_effort e # seen)) vs else None)"
      by (auto simp: image_iff)
    show ?thesis
      unfolding step Cons.IH by (auto simp: Some split: option.split) (metis image_eqI)+
  qed
qed simp

lemma efforts_accept:
  "(case efforts_seen [] vs of None \<Rightarrow> False | Some seen \<Rightarrow> JStr d \<in> set seen) \<longleftrightarrow>
     (\<exists>es. read_each reasoning_effort_option_schema vs = Some es \<and> distinct (map eo_effort es)
       \<and> d \<in> set (map eo_effort es))"
  using efforts_seen_read [of "[]" vs]
  by (cases "read_each reasoning_effort_option_schema vs") (auto simp: image_iff)

lemma default_effort_accepts:
  "is_opaque_id 64 d \<and>
     (case efforts_seen [] vs of None \<Rightarrow> False | Some seen \<Rightarrow> d \<in> set seen) \<longleftrightarrow>
   (\<exists>t es. reasoning_effort_schema d = Some t \<and> read_each reasoning_effort_option_schema vs = Some es
     \<and> distinct (map eo_effort es) \<and> t \<in> set (map eo_effort es))"
  using efforts_accept [where vs = vs]
  by (cases d) (auto simp: opaque_accepts text_schema_defs read_text_def split: if_splits)

lemma read_array_elements:
  "read_array lo hi f v = Some xs \<longleftrightarrow>
     (\<exists>vs. elements_of v = Some vs \<and> lo \<le> length vs \<and> length vs \<le> hi \<and> read_each f vs = Some xs)"
  by (cases v) (auto simp: read_array_def)

lemma text_modality_elements: "text_modality v = Some u \<longleftrightarrow> elements_of v = Some [JStr (js ''text'')]"
  by (cases v) (auto simp: text_modality_def expect_def)

lemma model_accepts: "is_model v \<longleftrightarrow> web_model_descriptor_schema v \<noteq> None"
proof (cases v)
  case (JObj r)
  let ?efforts = "\<lambda>options. elements_of (field r ''supportedReasoningEfforts'') = Some options
    \<and> 1 \<le> length options \<and> length options \<le> 16"
  have "web_model_descriptor_schema v \<noteq> None \<longleftrightarrow>
      keys_within {''id'', ''displayName'', ''inputModalities'', ''supportedReasoningEfforts'',
        ''defaultReasoningEffort''} r
      \<and> is_model_id (field r ''id'') \<and> is_safe_text 128 (field r ''displayName'')
      \<and> elements_of (field r ''inputModalities'') = Some [JStr (js ''text'')]
      \<and> (\<exists>options. ?efforts options
          \<and> (\<exists>t es. reasoning_effort_schema (field r ''defaultReasoningEffort'') = Some t
              \<and> read_each reasoning_effort_option_schema options = Some es
              \<and> distinct (map eo_effort es) \<and> t \<in> set (map eo_effort es)))"
    by (auto simp: web_model_descriptor_schema_def JObj object_simps text_modality_elements read_array_elements
        model_id_schema_def display_name_schema_def accepts)
  also have "\<dots> \<longleftrightarrow> is_model v"
    unfolding default_effort_accepts [symmetric]
    by (auto simp: is_model_def JObj object_simps elements_of_iff accepts split: option.splits
        dest: read_has_key)
  finally show ?thesis by simp
qed (simp_all add: is_model_def web_model_descriptor_schema_def not_object)

lemma model_id_of:
  "web_model_descriptor_schema v = Some m \<Longrightarrow> at_key v ''id'' = JStr (md_id m)"
  by (cases v) (auto simp: web_model_descriptor_schema_def model_id_schema_def object_simps not_object read_text_iff)

lemma models_seen_read:
  "models_seen (map JStr seen) vs \<longleftrightarrow>
     (\<exists>ms. read_each web_model_descriptor_schema vs = Some ms \<and> distinct (map md_id ms)
       \<and> (\<forall>m \<in> set ms. md_id m \<notin> set seen))"
proof (induction vs arbitrary: seen)
  case (Cons v vs)
  show ?case
  proof (cases "web_model_descriptor_schema v")
    case None
    then show ?thesis using model_accepts [of v] by auto
  next
    case (Some m)
    note model_id_of [OF this, simp]
    from Some model_accepts [of v]
    have step: "models_seen (map JStr seen) (v # vs) \<longleftrightarrow>
        md_id m \<notin> set seen \<and> models_seen (map JStr (md_id m # seen)) vs"
      by (auto simp: image_iff)
    show ?thesis
      unfolding step Cons.IH by (auto simp: Some bind_Some_iff) (metis image_eqI)+
  qed
qed simp

lemma models_accept:
  "models_seen [] vs \<longleftrightarrow>
     (\<exists>ms. read_each web_model_descriptor_schema vs = Some ms \<and> distinct (map md_id ms))"
  using models_seen_read [of "[]" vs] by simp

lemma read_each_empty: "read_each f vs = Some [] \<longleftrightarrow> vs = []"
  by (cases vs) (simp_all add: bind_Some_iff)

lemma capabilities_accepts [accepts]: "is_capabilities v \<longleftrightarrow> browser_capabilities_schema v \<noteq> None"
proof (cases v)
  case (JObj r)
  show ?thesis
    by (auto simp: JObj is_capabilities_def browser_capabilities_schema_def text_schema_defs object_simps accepts
        read_array_elements models_accept read_bool_iff read_each_empty split: option.splits
        dest: read_has_key)
qed (simp_all add: is_capabilities_def browser_capabilities_schema_def not_object)

section \<open>Frames\<close>

definition is_version_value :: "jval \<Rightarrow> bool" where
  "is_version_value w \<longleftrightarrow> (case w of JNum (NInt i) \<Rightarrow> is_safe_integer (NInt i) \<and> 0 < i | _ \<Rightarrow> False)"

lemma version_value_accepts: "is_version_value w \<longleftrightarrow> (\<exists>n. read_positive w = Some n \<and> w = num n)"
  by (auto simp: is_version_value_def read_positive_def split: jval.split jnum.split)

lemma versions_read:
  "list_all is_version_value vs \<longleftrightarrow> (\<exists>ns. read_each read_positive vs = Some ns \<and> vs = map num ns)"
proof (induction vs)
  case (Cons v vs)
  then show ?case by (auto simp: version_value_accepts bind_Some_iff)
qed simp

lemma read_positive_value: "read_positive v = Some n \<Longrightarrow> v = num n"
  by (auto simp: read_positive_def split: jval.splits jnum.splits if_splits)

lemma read_positives: "read_each read_positive vs = Some ns \<Longrightarrow> vs = map num ns"
  by (induction vs arbitrary: ns) (auto simp: bind_Some_iff dest: read_positive_value)

lemma versions_accept:
  "is_supported_protocol_versions v \<longleftrightarrow> supported_protocol_versions_schema v \<noteq> None"
  by (auto simp: is_supported_protocol_versions_def is_version_value_def [symmetric, abs_def] versions_read
      supported_protocol_versions_schema_def read_array_elements bind_Some_iff require_iff
      length_remdups_eq distinct_map inj_on_def image_iff split: option.splits dest: read_positives)

declare versions_accept [accepts]

lemma versions_undefined [simp]: "supported_protocol_versions_schema JUndef = None"
  by (simp add: supported_protocol_versions_schema_def)

lemma versions_has_key: "supported_protocol_versions_schema (field r k) = Some ns \<Longrightarrow> key_present r k"
  by (rule key_present_field) auto

lemmas own_payload_defs =
  hello_schema_def hello_acknowledged_schema_def heartbeat_schema_def ack_schema_def
  session_disconnect_schema_def session_disconnected_schema_def capabilities_payload_schema_def
  agent_activity_note_schema_def agent_activity_result_schema_def turn_delta_schema_def
  turn_completed_schema_def turn_failed_schema_def error_schema_def MAX_TURN_DELTA_CHARACTERS_def

lemma payload_accepts:
  assumes "t \<noteq> T_Agent_Turn_Start"
  shows "is_payload t v \<longleftrightarrow> payload_schema t v \<noteq> None"
proof (cases v)
  case (JObj r)
  show ?thesis
    using assms
    by (cases t) (auto simp: JObj session_and_def own_payload_defs text_schema_defs object_simps accepts
        dest: read_has_key object_has_key versions_has_key)
qed (use assms in \<open>cases t;
      simp add: session_and_def own_payload_defs payload_defs not_object accepts\<close>)+

text \<open>The length of the text of an agent turn, nothing for any other frame.\<close>

definition oversized_text :: "jval \<Rightarrow> nat" where
  "oversized_text v =
     (if at_key v ''type'' = JStr (js ''agent/turn/start'') then agent_text_length (at_key v ''payload'') else 0)"

lemma agent_turn_type: "read_enum frame_types v = Some T_Agent_Turn_Start \<longleftrightarrow> v = JStr (js ''agent/turn/start'')"
  by (cases v) (auto simp: read_enum_def frame_types_def split: if_splits)

lemma payload_undefined: "\<not> is_payload t JUndef" "payload_schema t JUndef = None"
  by (cases t; simp add: session_and_def not_object accepts own_payload_defs payload_defs
      is_agent_turn_start_payload_def)+

lemma payload_has_key: "payload_schema t (field r k) = Some b \<Longrightarrow> key_present r k"
  by (rule key_present_field) (auto simp: payload_undefined)

lemma typed_payload_accepts:
  assumes "read_enum frame_types (at_key v ''type'') = Some t"
  shows "payload_schema t (at_key v ''payload'') \<noteq> None \<longleftrightarrow>
    is_payload t (at_key v ''payload'') \<and> oversized_text v \<le> 65536"
proof (cases "t = T_Agent_Turn_Start")
  case True
  with assms have "at_key v ''type'' = JStr (js ''agent/turn/start'')" by (simp add: agent_turn_type)
  with True show ?thesis
    using agent_turn_start_accepts [of "at_key v ''payload''"] by (simp add: oversized_text_def)
next
  case False
  with assms agent_turn_type [of "at_key v ''type''"]
  have "at_key v ''type'' \<noteq> JStr (js ''agent/turn/start'')" by (metis option.inject)
  with False show ?thesis by (simp add: oversized_text_def payload_accepts)
qed

lemma frame_schema_accepts:
  assumes "read_enum frame_types (field r ''type'') = Some t"
  shows "frame_schema (JObj r) \<noteq> None \<longleftrightarrow>
    keys_within {''protocolVersion'', ''requestId'', ''sequence'', ''type'', ''payload''} r
    \<and> field r ''protocolVersion'' = num NATIVE_MESSAGING_PROTOCOL_VERSION
    \<and> is_opaque_id 128 (field r ''requestId'') \<and> is_sequence (field r ''sequence'')
    \<and> payload_schema t (field r ''payload'') \<noteq> None"
  by (simp add: assms frame_schema_def strict_object_JObj bind_Some_iff expect_iff accepts request_id_schema_def
      cong: conj_cong) blast

lemma parse_accepts:
  assumes "read_enum frame_types (field r ''type'') = Some t"
  shows "parse_native_messaging_frame (JObj r) = Some (JObj r) \<longleftrightarrow>
    list_all (key_present r) [''payload'', ''protocolVersion'', ''requestId'', ''sequence'', ''type'']
    \<and> keys_within {''protocolVersion'', ''requestId'', ''sequence'', ''type'', ''payload''} r
    \<and> field r ''protocolVersion'' = num NATIVE_MESSAGING_PROTOCOL_VERSION
    \<and> is_opaque_id 128 (field r ''requestId'') \<and> is_sequence (field r ''sequence'')
    \<and> is_payload t (field r ''payload'')"
proof -
  have "is_string_value (field r ''type'')" using assms by (auto simp: read_enum_def split: jval.splits)
  with assms show ?thesis
    by (auto simp: parse_native_messaging_frame_def has_exact_keys_JObj insert_commute)
qed

lemma unknown_type_refused:
  assumes "\<And>r t. v = JObj r \<Longrightarrow> read_enum frame_types (field r ''type'') \<noteq> Some t"
  shows "frame_schema v = None \<and> parse_native_messaging_frame v = None"
proof (cases v)
  case (JObj r)
  have "read_enum frame_types (field r ''type'') = None"
    using assms [OF JObj] by (metis option.exhaust)
  then show ?thesis
    by (auto simp: JObj frame_schema_def parse_native_messaging_frame_def strict_object_JObj
        split: bind_split)
qed (simp_all add: frame_schema_def parse_native_messaging_frame_def not_object)

lemma frame_accepts:
  "frame_schema v \<noteq> None \<longleftrightarrow> parse_native_messaging_frame v = Some v \<and> oversized_text v \<le> 65536"
proof (cases "\<exists>r t. v = JObj r \<and> read_enum frame_types (field r ''type'') = Some t")
  case True
  then obtain r t where v: "v = JObj r" and t: "read_enum frame_types (field r ''type'') = Some t" by blast
  have keys: "list_all (key_present r) [''payload'', ''protocolVersion'', ''requestId'', ''sequence'', ''type'']"
    if "field r ''protocolVersion'' = num NATIVE_MESSAGING_PROTOCOL_VERSION"
      "is_opaque_id 128 (field r ''requestId'')" "is_sequence (field r ''sequence'')"
      "payload_schema t (field r ''payload'') \<noteq> None"
    using that t by (auto simp: accepts dest: read_has_key payload_has_key)
  from t typed_payload_accepts [of v t]
  have payload: "payload_schema t (field r ''payload'') \<noteq> None \<longleftrightarrow>
      is_payload t (field r ''payload'') \<and> oversized_text (JObj r) \<le> 65536"
    by (simp add: v)
  from keys show ?thesis
    unfolding v frame_schema_accepts [OF t] parse_accepts [OF t] payload by blast
next
  case False
  with unknown_type_refused [of v] show ?thesis by fastforce
qed

section \<open>Properties\<close>

text \<open>
  C38. The extension's hand-written validator and the schema of the protocol package accept the same
  values as frames, except that the extension lets the text of an agent turn be longer than the
  65536 characters of the schema; what the validator accepts it returns as it is.
\<close>

theorem extension_accepts_schema_frames:
  "(frame_schema v \<noteq> None \<longleftrightarrow> parse_native_messaging_frame v \<noteq> None \<and> oversized_text v \<le> 65536)
    \<and> parse_native_messaging_frame v \<in> {None, Some v}"
proof -
  have same: "parse_native_messaging_frame v \<in> {None, Some v}"
    by (simp add: parse_native_messaging_frame_def split: option.split)
  with frame_accepts [of v] show ?thesis by auto
qed

text \<open>The exception is real: a longer text passes the validator and not the schema.\<close>

definition leased_status :: active_status where
  "leased_status = \<lparr>as_binding = \<lparr>db_document_id = js ''d'', db_generation = 1, db_tab_id = 1\<rparr>,
     as_ownership_id = js ''o'', as_expires = 900000, as_issued = 0, as_last_activity = 0,
     as_lease_id = js ''l'', as_revision = 1\<rparr>"

definition long_turn :: "nat \<Rightarrow> frame" where
  "long_turn n = \<lparr>nf_request_id = js ''r'', nf_sequence = 0, nf_body = Agent_Turn_Start
     \<lparr>at_catalog_revision = js ''c'', at_expected = leased_status, at_input = replicate n 97, at_model = js ''m'',
      at_effort = js ''e'', at_session = js ''s'', at_turn = js ''t''\<rparr>\<rparr>"

lemma leased_status_ok: "active_ok leased_status"
  by (simp add: leased_status_def active_ok_def binding_ok_def consistent_timestamps_def
      AGENT_ACTIVATION_INACTIVITY_TIMEOUT_MS_def js_def bounded_text_def opaque_id_pattern_def unit_class_defs
      of_char_def)

lemma long_turn_texts:
  "is_opaque_id 128 (JStr (js ''r''))" "is_opaque_id 128 (JStr (js ''s''))" "is_opaque_id 128 (JStr (js ''t''))"
  "is_opaque_id 128 (JStr (js ''c''))" "is_opaque_id 64 (JStr (js ''e''))" "is_model_id (JStr (js ''m''))"
  by code_simp+

lemma long_turn_payload:
  assumes "1 \<le> n" and "n \<le> 262144"
  shows "is_agent_turn_start_payload (body_value (nf_body (long_turn n)))"
proof -
  have "is_active_agent_status (active_status_value leased_status)"
    using active_value_read [OF leased_status_ok] by (simp add: accepts)
  with assms show ?thesis
    by (simp add: is_agent_turn_start_payload_def long_turn_def has_exact_keys_def long_turn_texts
        AGENT_WORKFLOW_PROTOCOL_VERSION_def text_input_value_def is_text_item_def is_text_value_def)
qed

theorem long_agent_text_diverges:
  "\<exists>v. parse_native_messaging_frame v = Some v \<and> frame_schema v = None"
proof -
  obtain n :: nat where n: "n = 65537" by blast
  let ?v = "frame_value (long_turn n)"
  have t: "read_enum frame_types (enum_value frame_types T_Agent_Turn_Start) = Some T_Agent_Turn_Start" by simp
  have type: "enum_value frame_types T_Agent_Turn_Start = JStr (js ''agent/turn/start'')"
    by (simp add: enum_value_def frame_types_def)
  have "is_agent_turn_start_payload (body_value (nf_body (long_turn n)))"
    by (rule long_turn_payload) (simp_all add: n)
  moreover have "type_of_body (nf_body (long_turn n)) = T_Agent_Turn_Start"
    and "nf_request_id (long_turn n) = js ''r''" and "nf_sequence (long_turn n) = 0"
    by (simp_all add: long_turn_def)
  ultimately have parsed: "parse_native_messaging_frame ?v = Some ?v"
    using t unfolding type
    by (simp add: frame_value_def type parse_native_messaging_frame_def has_exact_keys_def long_turn_texts
        is_sequence_def)
  have "oversized_text ?v = n"
    by (simp add: oversized_text_def frame_value_def long_turn_def type agent_text_length_def text_input_value_def)
  with n have "frame_schema ?v = None" using frame_accepts [of ?v] by auto
  with parsed show ?thesis by blast
qed

end
