(* ===== verification/Browser_Native_Link.thy ===== *)
theory Browser_Native_Link
  imports Native_Frame_Equivalence Link_Properties
begin

text \<open>
  The extension's end of the Native Messaging link (\<open>BrowserNativeLink\<close> of
  \<open>apps/browser-extension/src/protocol/browser-native-link.ts\<close>). It is the initiator and does not share
  code with the link session of \<open>packages/native-messaging\<close>; the two are related by a functional
  refinement, which carries the properties of a pair of link sessions over to the extension and
  the native host.
\<close>

datatype native_link_state = Native_Idle | Native_Awaiting_Acknowledgement | Native_Ready | Native_Closed

record native_link =
  nl_expected :: nat
  nl_handshake :: "jstr option"
  nl_next :: nat
  nl_state :: native_link_state

datatype native_link_error = Native_Link_Rejected

record native_received =
  nr_application :: "jval option"
  nr_response :: "jval option"

abbreviation nothing_native :: native_received where
  "nothing_native \<equiv> \<lparr>nr_application = None, nr_response = None\<rparr>"

definition new_native_link :: native_link where
  "new_native_link = \<lparr>nl_expected = 0, nl_handshake = None, nl_next = 0, nl_state = Native_Idle\<rparr>"

definition TRANSPORT_TYPES :: "frame_type list" where
  "TRANSPORT_TYPES = [T_Ack, T_Heartbeat, T_Hello, T_Hello_Acknowledged]"

definition INCOMING_APPLICATION_TYPES :: "frame_type list" where
  "INCOMING_APPLICATION_TYPES =
     [T_Agent_Activity_Note, T_Agent_Status_Read, T_Agent_Turn_Start, T_Capabilities_Read, T_Error,
      T_Session_Connect, T_Session_Disconnect, T_Turn_Cancel, T_Turn_Start]"

definition OUTGOING_APPLICATION_TYPES :: "frame_type list" where
  "OUTGOING_APPLICATION_TYPES =
     [T_Agent_Activity_Result, T_Agent_Status_Changed, T_Agent_Status_Result, T_Capabilities_Changed,
      T_Capabilities_Result, T_Error, T_Session_Connected, T_Session_Disconnected, T_Turn_Cancelled,
      T_Turn_Completed, T_Turn_Delta, T_Turn_Failed, T_Turn_Started]"

section \<open>Operations\<close>

type_synonym 'a native_outcome = "(native_link_error, 'a) result \<times> native_link"

definition close_native :: "native_link \<Rightarrow> native_link" where
  "close_native s = s\<lparr>nl_state := Native_Closed, nl_handshake := None\<rparr>"

definition reject_native :: "native_link \<Rightarrow> 'a native_outcome" where
  "reject_native s = (throw Native_Link_Rejected, close_native s)"

text \<open>\<open>#takeOutboundSequence\<close>\<close>

definition take_native_sequence :: "native_link \<Rightarrow> nat native_outcome" where
  "take_native_sequence s =
     (if max_safe_integer < int (nl_next s) then reject_native s
      else (return (nl_next s), s\<lparr>nl_next := Suc (nl_next s)\<rparr>))"

text \<open>A frame literal of the source: it takes the next sequence number.\<close>

definition native_frame :: "jval \<Rightarrow> jval \<Rightarrow> string \<Rightarrow> native_link \<Rightarrow> jval native_outcome" where
  "native_frame payload request_id type s =
     (case take_native_sequence s of
        (Inl e, s') \<Rightarrow> (throw e, s')
      | (Inr n, s') \<Rightarrow>
          (return (JObj [(js ''payload'', payload), (js ''protocolVersion'', num NATIVE_MESSAGING_PROTOCOL_VERSION),
                         (js ''requestId'', request_id), (js ''sequence'', num n),
                         (js ''type'', JStr (js type))]), s'))"

definition start_native :: "jstr \<Rightarrow> jstr \<Rightarrow> native_link \<Rightarrow> jval native_outcome" where
  "start_native request_id version s =
     (if nl_state s \<noteq> Native_Idle \<or> \<not> is_opaque_id 128 (JStr request_id) \<or> \<not> is_opaque_id 64 (JStr version)
      then reject_native s
      else native_frame
        (JObj [(js ''implementationVersion'', JStr version), (js ''peer'', JStr (js ''extension'')),
               (js ''supportedProtocolVersions'', JArr [num NATIVE_MESSAGING_PROTOCOL_VERSION])])
        (JStr request_id) ''hello''
        (s\<lparr>nl_handshake := Some request_id, nl_state := Native_Awaiting_Acknowledgement\<rparr>))"

definition native_type :: "jval \<Rightarrow> frame_type option" where
  "native_type v = read_enum frame_types (at_key v ''type'')"

definition type_among :: "jval \<Rightarrow> frame_type list \<Rightarrow> bool" where
  "type_among v types \<longleftrightarrow> (case native_type v of None \<Rightarrow> False | Some t \<Rightarrow> t \<in> set types)"

definition receive_acknowledgement :: "jval \<Rightarrow> native_link \<Rightarrow> native_received native_outcome" where
  "receive_acknowledgement v s =
     (if native_type v \<noteq> Some T_Hello_Acknowledged
         \<or> at_key (at_key v ''payload'') ''peer'' \<noteq> JStr (js ''nativeHost'')
         \<or> Some (at_key v ''requestId'') \<noteq> map_option JStr (nl_handshake s)
      then reject_native s
      else (return nothing_native, s\<lparr>nl_expected := 1, nl_handshake := None, nl_state := Native_Ready\<rparr>))"

definition receive_native_ready :: "jval \<Rightarrow> native_link \<Rightarrow> native_received native_outcome" where
  "receive_native_ready v s0 =
     (let s = s0\<lparr>nl_expected := Suc (nl_expected s0)\<rparr> in
      if native_type v = Some T_Heartbeat
      then case native_frame (JObj [(js ''acknowledgedSequence'', at_key v ''sequence'')])
                 (at_key v ''requestId'') ''ack'' s of
          (Inl e, s') \<Rightarrow> (throw e, s')
        | (Inr ack, s') \<Rightarrow> (return \<lparr>nr_application = None, nr_response = Some ack\<rparr>, s')
      else if type_among v TRANSPORT_TYPES \<or> \<not> type_among v INCOMING_APPLICATION_TYPES then reject_native s
      else (return \<lparr>nr_application = Some v, nr_response = None\<rparr>, s))"

definition receive_native :: "jval \<Rightarrow> native_link \<Rightarrow> native_received native_outcome" where
  "receive_native value s =
     (if nl_state s = Native_Closed then (throw Native_Link_Rejected, s)
      else case parse_native_messaging_frame value of
          None \<Rightarrow> reject_native s
        | Some v \<Rightarrow>
            if integer_value (at_key v ''sequence'') \<noteq> Some (int (nl_expected s)) then reject_native s
            else if nl_state s = Native_Awaiting_Acknowledgement then receive_acknowledgement v s
            else if nl_state s \<noteq> Native_Ready then reject_native s
            else receive_native_ready v s)"

text \<open>\<open>{ ...frame, protocolVersion: PROTOCOL_VERSION, sequence }\<close>\<close>

definition with_sequence :: "nat \<Rightarrow> jval \<Rightarrow> jval" where
  "with_sequence n v =
     (case read_data_record v of
        None \<Rightarrow> v
      | Some r \<Rightarrow> JObj (set_field ''sequence'' (num n)
                   (set_field ''protocolVersion'' (num NATIVE_MESSAGING_PROTOCOL_VERSION) r)))"

definition send_native :: "jval \<Rightarrow> native_link \<Rightarrow> jval native_outcome" where
  "send_native value s =
     (if nl_state s \<noteq> Native_Ready then reject_native s
      else case parse_native_messaging_frame value of
          None \<Rightarrow> reject_native s
        | Some v \<Rightarrow>
            if \<not> type_among v OUTGOING_APPLICATION_TYPES then reject_native s
            else case take_native_sequence s of
                (Inl e, s') \<Rightarrow> (throw e, s')
              | (Inr n, s') \<Rightarrow> (return (with_sequence n v), s'))"

section \<open>The link session it stands for\<close>

fun state_as :: "native_link_state \<Rightarrow> link_state" where
  "state_as Native_Idle = Idle"
| "state_as Native_Awaiting_Acknowledgement = Awaiting_Acknowledgement"
| "state_as Native_Ready = Ready"
| "state_as Native_Closed = Closed"

definition as_link :: "jstr \<Rightarrow> native_link \<Rightarrow> link" where
  "as_link version s =
     \<lparr>ln_version = version, ln_incoming = BRIDGE_TO_EXTENSION_APPLICATION_TYPES, ln_local = Peer_Extension,
      ln_mode = Initiator, ln_outgoing = EXTENSION_TO_BRIDGE_APPLICATION_TYPES, ln_remote = Peer_Native_Host,
      ln_expected = nl_expected s, ln_handshake = nl_handshake s, ln_next = nl_next s, ln_heartbeats = [],
      ln_state = state_as (nl_state s)\<rparr>"

text \<open>The value of a frame, and of what a step hands on.\<close>

definition denotes :: "jval \<Rightarrow> frame \<Rightarrow> bool" where
  "denotes v f \<longleftrightarrow> frame_schema v = Some f"

definition received_as :: "native_received \<Rightarrow> received \<Rightarrow> bool" where
  "received_as nr rx \<longleftrightarrow>
     rel_option denotes (nr_application nr) (rx_application rx)
     \<and> rel_option denotes (nr_response nr) (rx_response rx)"

definition same_outcome ::
    "jstr \<Rightarrow> ('a \<Rightarrow> 'b \<Rightarrow> bool) \<Rightarrow> 'a native_outcome \<Rightarrow> (link_failure, 'b) result \<times> link \<Rightarrow> bool" where
  "same_outcome version related n l \<longleftrightarrow>
     rel_sum (\<lambda>_ _. True) related (fst n) (fst l) \<and> snd l = as_link version (snd n)"

section \<open>Accepted values\<close>

declare strict_object_value [simp del]

lemma denotes_parts:
  assumes "denotes v f"
  shows "native_type v = Some (type_of_body (nf_body f))"
    and "at_key v ''requestId'' = JStr (nf_request_id f)"
    and "read_sequence (at_key v ''sequence'') = Some (nf_sequence f)"
    and "payload_schema (type_of_body (nf_body f)) (at_key v ''payload'') = Some (nf_body f)"
    and "opaque_text 128 (nf_request_id f)"
proof -
  from assms obtain r t where "v = JObj r" and t: "read_enum frame_types (field r ''type'') = Some t"
    and rid: "request_id_schema (field r ''requestId'') = Some (nf_request_id f)"
    and n: "read_sequence (field r ''sequence'') = Some (nf_sequence f)"
    and b: "payload_schema t (field r ''payload'') = Some (nf_body f)"
    by (auto simp: denotes_def frame_schema_def bind_Some_iff strict_object_iff)
  with body_read_ok [OF b] show "native_type v = Some (type_of_body (nf_body f))"
    and "at_key v ''requestId'' = JStr (nf_request_id f)"
    and "read_sequence (at_key v ''sequence'') = Some (nf_sequence f)"
    and "payload_schema (type_of_body (nf_body f)) (at_key v ''payload'') = Some (nf_body f)"
    and "opaque_text 128 (nf_request_id f)"
    by (auto simp: native_type_def request_id_schema_def read_text_iff)
qed

lemma parsed:
  assumes "oversized_text v \<le> 65536"
  shows "parse_native_messaging_frame v = None \<longleftrightarrow> frame_schema v = None"
    and "parse_native_messaging_frame v = Some w \<longleftrightarrow> w = v \<and> frame_schema v \<noteq> None"
proof -
  have same: "parse_native_messaging_frame v = Some w \<Longrightarrow> w = v" for w
    by (auto simp: parse_native_messaging_frame_def split: if_splits option.splits)
  with frame_accepts [of v] assms show "parse_native_messaging_frame v = Some w \<longleftrightarrow> w = v \<and> frame_schema v \<noteq> None"
    by auto
  from same frame_accepts [of v] assms show "parse_native_messaging_frame v = None \<longleftrightarrow> frame_schema v = None"
    by (cases "parse_native_messaging_frame v") auto
qed

lemma literal_denotes:
  assumes "read_enum frame_types (JStr (js type)) = Some t" and "payload_schema t payload = Some b"
    and "opaque_text 128 rid" and "safe_nat n"
  shows "denotes (JObj [(js ''payload'', payload), (js ''protocolVersion'', num NATIVE_MESSAGING_PROTOCOL_VERSION),
      (js ''requestId'', JStr rid), (js ''sequence'', num n), (js ''type'', JStr (js type))])
    \<lparr>nf_request_id = rid, nf_sequence = n, nf_body = b\<rparr>"
  using assms
  by (simp add: denotes_def frame_schema_def strict_object_JObj strict_object_value request_id_schema_def read_text_value)

lemma with_sequence_denotes:
  assumes "denotes v f" and "safe_nat n"
  shows "denotes (with_sequence n v) (f\<lparr>nf_sequence := n\<rparr>)"
proof -
  from assms obtain r where "v = JObj r"
    by (auto simp: denotes_def frame_schema_def bind_Some_iff strict_object_iff)
  with assms show ?thesis
    by (auto simp: denotes_def frame_schema_def bind_Some_iff strict_object_JObj with_sequence_def field_set_field
        keys_within_def expect_iff)
qed

lemma type_among_denotes: "denotes v f \<Longrightarrow> type_among v types \<longleftrightarrow> type_of_body (nf_body f) \<in> set types"
  by (simp add: type_among_def denotes_parts)

lemma direction_types:
  "set INCOMING_APPLICATION_TYPES = set BRIDGE_TO_EXTENSION_APPLICATION_TYPES"
  "set OUTGOING_APPLICATION_TYPES = set EXTENSION_TO_BRIDGE_APPLICATION_TYPES"
  by (auto simp: INCOMING_APPLICATION_TYPES_def BRIDGE_TO_EXTENSION_APPLICATION_TYPES_def
      OUTGOING_APPLICATION_TYPES_def EXTENSION_TO_BRIDGE_APPLICATION_TYPES_def)

section \<open>Refinement\<close>

lemma as_link_simps [simp]:
  "ln_version (as_link ver s) = ver" "ln_incoming (as_link ver s) = BRIDGE_TO_EXTENSION_APPLICATION_TYPES"
  "ln_local (as_link ver s) = Peer_Extension" "ln_mode (as_link ver s) = Initiator"
  "ln_outgoing (as_link ver s) = EXTENSION_TO_BRIDGE_APPLICATION_TYPES"
  "ln_remote (as_link ver s) = Peer_Native_Host" "ln_expected (as_link ver s) = nl_expected s"
  "ln_handshake (as_link ver s) = nl_handshake s" "ln_next (as_link ver s) = nl_next s"
  "ln_heartbeats (as_link ver s) = []" "ln_state (as_link ver s) = state_as (nl_state s)"
  by (simp_all add: as_link_def)

lemma as_link_updates:
  "(as_link ver s)\<lparr>ln_expected := n\<rparr> = as_link ver (s\<lparr>nl_expected := n\<rparr>)"
  "(as_link ver s)\<lparr>ln_handshake := h\<rparr> = as_link ver (s\<lparr>nl_handshake := h\<rparr>)"
  "(as_link ver s)\<lparr>ln_next := n\<rparr> = as_link ver (s\<lparr>nl_next := n\<rparr>)"
  "(as_link ver s)\<lparr>ln_state := state_as st\<rparr> = as_link ver (s\<lparr>nl_state := st\<rparr>)"
  by (simp_all add: as_link_def)

lemma close_as_link: "close_link (as_link ver s) = as_link ver (close_native s)"
  by (simp add: close_link_def close_native_def as_link_def)

lemma reject_as_link: "same_outcome ver related (reject_native s) (reject_link e (as_link ver s))"
  by (simp add: same_outcome_def reject_native_def reject_link_def close_as_link)

lemma state_as_iff [simp]:
  "state_as st = Idle \<longleftrightarrow> st = Native_Idle"
  "state_as st = Awaiting_Acknowledgement \<longleftrightarrow> st = Native_Awaiting_Acknowledgement"
  "state_as st = Ready \<longleftrightarrow> st = Native_Ready" "state_as st = Closed \<longleftrightarrow> st = Native_Closed"
  "state_as st \<noteq> Awaiting_Hello"
  by (cases st; simp)+

text \<open>A frame literal and the own frame of the session.\<close>

lemma native_frame_as_link:
  assumes "read_enum frame_types (JStr (js type)) = Some t" and "payload_schema t payload = Some b"
    and "opaque_text 128 rid" and "body_ok b"
  shows "same_outcome ver denotes (native_frame payload (JStr rid) type s) (own_frame rid b (as_link ver s))"
  using literal_denotes [OF assms(1-3), of "nl_next s"] reject_as_link [of ver denotes s Sequence_Exhausted]
  by (auto simp: own_frame_ok [OF assms(3,4)] native_frame_def take_native_sequence_def same_outcome_def
      as_link_updates reject_native_def)

lemma start_as_link:
  assumes version: "opaque_text 64 ver"
  shows "same_outcome ver denotes (start_native rid ver s) (start_link rid (as_link ver s))"
proof (cases "nl_state s = Native_Idle \<and> opaque_text 128 rid")
  case True
  let ?s = "s\<lparr>nl_handshake := Some rid, nl_state := Native_Awaiting_Acknowledgement\<rparr>"
  let ?payload = "JObj [(js ''implementationVersion'', JStr ver), (js ''peer'', JStr (js ''extension'')),
               (js ''supportedProtocolVersions'', JArr [num NATIVE_MESSAGING_PROTOCOL_VERSION])]"
  let ?hello = "Hello Peer_Extension ver [NATIVE_MESSAGING_PROTOCOL_VERSION]"
  have ok: "body_ok ?hello"
    using version by (simp add: NATIVE_MESSAGING_PROTOCOL_VERSION_def)
  have peer: "read_enum peer_roles (JStr (js ''extension'')) = Some Peer_Extension"
    by (simp add: read_enum_def peer_roles_def)
  have t: "read_enum frame_types (JStr (js ''hello'')) = Some T_Hello"
    by (simp add: read_enum_def frame_types_def)
  have "payload_schema T_Hello ?payload = Some ?hello"
    using version by (simp add: hello_schema_def strict_object_value implementation_version_schema_def
        read_text_value supported_protocol_versions_schema_def read_array_def peer
        read_positive_def require_def NATIVE_MESSAGING_PROTOCOL_VERSION_def)
  from native_frame_as_link [OF t this _ ok] True
  have frame: "same_outcome ver denotes (native_frame ?payload (JStr rid) ''hello'' ?s)
      (own_frame rid ?hello (as_link ver ?s))" by blast
  show ?thesis
  proof (cases "max_safe_integer < int (nl_next s)")
    case exhausted: True
    with True version ok reject_as_link [of ver denotes s Sequence_Exhausted] show ?thesis
      by (simp add: start_native_def start_link_def own_frame_ok request_id_ok opaque_accepts read_text_value
          native_frame_def take_native_sequence_def reject_schema_failure_def reject_link_def
          reject_native_def same_outcome_def close_native_def)
  next
    case False
    with True version ok frame show ?thesis
      by (auto simp: start_native_def start_link_def own_frame_ok request_id_ok opaque_accepts read_text_value
          native_frame_def take_native_sequence_def reject_schema_failure_def same_outcome_def as_link_def)
  qed
next
  case False
  then show ?thesis
    using version reject_as_link [of ver denotes s Invalid_State]
    by (auto simp: start_native_def start_link_def request_id_ok opaque_accepts read_text_iff same_outcome_def
        reject_schema_failure_def reject_link_def reject_native_def)
qed

lemma acknowledgement_as_link:
  assumes d: "denotes v f"
  shows "same_outcome ver received_as (receive_acknowledgement v s) (accept_hello_acknowledgement f (as_link ver s))"
proof (cases "\<exists>peer version. nf_body f = Hello_Acknowledged peer version")
  case True
  then obtain peer version where b: "nf_body f = Hello_Acknowledged peer version" by blast
  with denotes_parts(4) [OF d]
  have "read_enum peer_roles (at_key (at_key v ''payload'') ''peer'') = Some peer"
    by (auto simp: hello_acknowledged_schema_def bind_Some_iff strict_object_iff)
  then have peer: "at_key (at_key v ''payload'') ''peer'' = JStr (js ''nativeHost'') \<longleftrightarrow> peer = Peer_Native_Host"
    by (cases "at_key (at_key v ''payload'') ''peer''")
      (auto simp: read_enum_def peer_roles_def split: if_splits)
  have id: "Some (at_key v ''requestId'') = map_option JStr (nl_handshake s)
      \<longleftrightarrow> Some (nf_request_id f) = nl_handshake s"
    by (cases "nl_handshake s") (auto simp: denotes_parts(2) [OF d])
  show ?thesis
    using reject_as_link [of ver received_as s]
    by (auto simp: receive_acknowledgement_def accept_hello_acknowledgement_def b peer id
        denotes_parts(1) [OF d] same_outcome_def received_as_def as_link_def)
next
  case False
  then have "native_type v \<noteq> Some T_Hello_Acknowledged"
    using denotes_parts(1) [OF d] by (cases "nf_body f") auto
  with False reject_as_link [of ver received_as s Invalid_State] show ?thesis
    by (auto simp: receive_acknowledgement_def accept_hello_acknowledgement_def split: frame_body.split)
qed

lemma heartbeat_as_link:
  assumes d: "denotes v f" and "nf_body f = Heartbeat"
  shows "same_outcome ver received_as (receive_native_ready v s) (receive_ready f (as_link ver s))"
proof -
  let ?s = "s\<lparr>nl_expected := Suc (nl_expected s)\<rparr>"
  have ok: "body_ok (Ack (nf_sequence f))"
    using read_sequence_safe [OF denotes_parts(3) [OF d]] by simp
  have t: "read_enum frame_types (JStr (js ''ack'')) = Some T_Ack"
    by (simp add: read_enum_def frame_types_def)
  have "payload_schema T_Ack (JObj [(js ''acknowledgedSequence'', at_key v ''sequence'')]) = Some (Ack (nf_sequence f))"
    using denotes_parts(3) [OF d] by (simp add: ack_schema_def strict_object_value)
  from native_frame_as_link [OF t this denotes_parts(5) [OF d] ok, of ver ?s]
  show ?thesis
    using assms(2) denotes_parts(1,2) [OF d]
    by (cases "native_frame (JObj [(js ''acknowledgedSequence'', at_key v ''sequence'')])
          (JStr (nf_request_id f)) ''ack'' ?s")
      (auto simp: receive_native_ready_def receive_ready_def respond_def as_link_updates same_outcome_def
        received_as_def Let_def split: sum.splits prod.splits elim: rel_sum.cases)
qed

lemma ready_as_link:
  assumes d: "denotes v f"
  shows "same_outcome ver received_as (receive_native_ready v s) (receive_ready f (as_link ver s))"
proof (cases "nf_body f = Heartbeat")
  case True
  then show ?thesis by (rule heartbeat_as_link [OF d])
next
  case False
  let ?s = "s\<lparr>nl_expected := Suc (nl_expected s)\<rparr>"
  let ?t = "type_of_body (nf_body f)"
  from False have type: "?t \<noteq> T_Heartbeat" by (cases "nf_body f") simp_all
  with denotes_parts(1) [OF d] have native: "receive_native_ready v s =
      (if ?t \<in> set TRANSPORT_TYPES \<or> ?t \<notin> set BRIDGE_TO_EXTENSION_APPLICATION_TYPES then reject_native ?s
       else (Inr \<lparr>nr_application = Some v, nr_response = None\<rparr>, ?s))"
    by (simp add: receive_native_ready_def type_among_denotes [OF d] direction_types Let_def)
  have link: "receive_ready f (as_link ver s) = (Inr \<lparr>rx_application = Some f, rx_response = None\<rparr>, as_link ver ?s)"
    if "?t \<notin> set TRANSPORT_TYPES" "?t \<in> set BRIDGE_TO_EXTENSION_APPLICATION_TYPES"
    using that
    by (cases "nf_body f") (simp_all add: receive_ready_def TRANSPORT_TYPES_def Let_def as_link_def)
  have refused: "\<exists>e. receive_ready f (as_link ver s) = reject_link e (as_link ver ?s)"
    if "?t \<in> set TRANSPORT_TYPES \<or> ?t \<notin> set BRIDGE_TO_EXTENSION_APPLICATION_TYPES"
    using that False
    by (cases "nf_body f") (auto simp: receive_ready_def TRANSPORT_TYPES_def Let_def as_link_def
        BRIDGE_TO_EXTENSION_APPLICATION_TYPES_def)
  show ?thesis
  proof (cases "?t \<in> set TRANSPORT_TYPES \<or> ?t \<notin> set BRIDGE_TO_EXTENSION_APPLICATION_TYPES")
    case True
    from refused [OF this] obtain e where "receive_ready f (as_link ver s) = reject_link e (as_link ver ?s)" ..
    with True show ?thesis by (simp add: native reject_as_link)
  next
    case False
    with d show ?thesis by (simp add: native link same_outcome_def received_as_def)
  qed
qed

lemma receive_as_link:
  assumes "oversized_text v \<le> 65536"
  shows "same_outcome ver received_as (receive_native v s) (receive_link v (as_link ver s))"
proof (cases "nl_state s = Native_Closed")
  case False
  show ?thesis
  proof (cases "frame_schema v")
    case None
    with False parsed [OF assms] show ?thesis
      by (simp add: receive_native_def receive_link_def reject_as_link)
  next
    case (Some f)
    then have d: "denotes v f" by (simp add: denotes_def)
    have "parse_native_messaging_frame v = Some v" using parsed [OF assms] Some by simp
    moreover have "integer_value (at_key v ''sequence'') = Some (int (nf_sequence f))"
      by (rule sequence_value [OF denotes_parts(3) [OF d]])
    ultimately show ?thesis
      using False Some acknowledgement_as_link [OF d, of ver s] ready_as_link [OF d, of ver s]
      by (cases "nl_state s") (simp_all add: receive_native_def receive_link_def reject_as_link)
  qed
qed (simp add: receive_native_def receive_link_def same_outcome_def)

lemma send_as_link:
  assumes "oversized_text v \<le> 65536"
  shows "same_outcome ver denotes (send_native v s) (send_application v (as_link ver s))"
proof (cases "nl_state s = Native_Ready")
  case True
  show ?thesis
  proof (cases "frame_schema v")
    case None
    with True parsed [OF assms] show ?thesis
      by (simp add: send_native_def send_application_def reject_as_link)
  next
    case (Some f)
    then have d: "denotes v f" by (simp add: denotes_def)
    have "parse_native_messaging_frame v = Some v" using parsed [OF assms] Some by simp
    with True Some d frame_schema_parts [OF Some] with_sequence_denotes [OF d, of "nl_next s"]
      reject_as_link [of ver denotes s Sequence_Exhausted] reject_as_link [of ver denotes s Direction_Violation]
    show ?thesis
      by (cases f) (auto simp: send_native_def send_application_def type_among_denotes direction_types own_frame_ok
          take_native_sequence_def same_outcome_def as_link_updates reject_native_def)
  qed
next
  case False
  then show ?thesis by (simp add: send_native_def send_application_def reject_as_link)
qed

section \<open>Properties\<close>

text \<open>
  C39. The extension's link refines the link session of an initiator with the native host as its peer:
  starting, receiving, sending and closing succeed or fail together, lead to corresponding states, and
  hand on or send values of the same frames. The one premise on a received or sent value is that it
  is not an agent turn with a text longer than the schema allows.
\<close>

theorem extension_link_refines_session:
  assumes "opaque_text 64 ver" and "oversized_text v \<le> 65536"
  shows "same_outcome ver denotes (start_native rid ver s) (start_link rid (as_link ver s))
    \<and> same_outcome ver received_as (receive_native v s) (receive_link v (as_link ver s))
    \<and> same_outcome ver denotes (send_native v s) (send_application v (as_link ver s))
    \<and> close_link (as_link ver s) = as_link ver (close_native s)"
  using start_as_link [OF assms(1)] receive_as_link [OF assms(2)] send_as_link [OF assms(2)] close_as_link
  by blast

definition host_reply :: jval where
  "host_reply = frame_value
     \<lparr>nf_request_id = js ''r1'', nf_sequence = 0, nf_body = Hello_Acknowledged Peer_Native_Host (js ''1'')\<rparr>"

definition sample_waiting :: native_link where
  "sample_waiting = \<lparr>nl_expected = 0, nl_handshake = Some (js ''r1''), nl_next = 1,
     nl_state = Native_Awaiting_Acknowledgement\<rparr>"

theorem extension_link_refines_session_witness:
  "same_outcome (js ''1'') received_as (receive_native host_reply sample_waiting)
     (receive_link host_reply (as_link (js ''1'') sample_waiting))
   \<and> nl_state (snd (receive_native host_reply sample_waiting)) = Native_Ready"
proof -
  have ver: "opaque_text 64 (js ''1'')" by code_simp
  have short: "oversized_text host_reply \<le> 65536"
    by (simp add: oversized_text_def host_reply_def frame_value_def enum_value_def frame_types_def)
  have "nl_state (snd (receive_native host_reply sample_waiting)) = Native_Ready" by code_simp
  with extension_link_refines_session [OF ver short] show ?thesis by blast
qed

end
