(* ===== verification/Browser_Host_Link.thy ===== *)
theory Browser_Host_Link
  imports Browser_Native_Link Native_Host_Relay
begin

text \<open>
  The extension and the native host joined by ordered channels: the extension's own link on one side, a
  link session on the other. Every step of the two is a step of a pair of link sessions, so what
  holds of such a pair holds of the programs that actually talk to each other.
\<close>

record native_pair =
  np_browser :: native_link
  np_host :: link
  np_out :: "jval list"
  np_in :: "frame list"
  np_sent_browser :: "jval list"
  np_got_host :: "frame list"
  np_sent_host :: "frame list"
  np_got_browser :: "jval list"

inductive native_step :: "jstr \<Rightarrow> native_pair \<Rightarrow> native_pair \<Rightarrow> bool" for ver where
  start: "start_native r ver (np_browser p) = (Inr v, s') \<Longrightarrow>
     native_step ver p (p\<lparr>np_browser := s', np_out := np_out p @ [v]\<rparr>)"
| send_browser: "send_native u (np_browser p) = (Inr v, s') \<Longrightarrow>
     native_step ver p (p\<lparr>np_browser := s', np_out := np_out p @ [v], np_sent_browser := np_sent_browser p @ [v]\<rparr>)"
| send_host: "send_application u (np_host p) = (Inr f, b') \<Longrightarrow>
     native_step ver p (p\<lparr>np_host := b', np_in := np_in p @ [f], np_sent_host := np_sent_host p @ [f]\<rparr>)"
| beat_host: "send_heartbeat r (np_host p) = (Inr f, b') \<Longrightarrow>
     native_step ver p (p\<lparr>np_host := b', np_in := np_in p @ [f]\<rparr>)"
| deliver_host: "np_out p = v # rest \<Longrightarrow> receive_link v (np_host p) = (Inr rx, b') \<Longrightarrow>
     native_step ver p (p\<lparr>np_host := b', np_out := rest, np_in := np_in p @ listed (rx_response rx),
                    np_got_host := np_got_host p @ listed (rx_application rx)\<rparr>)"
| deliver_browser: "np_in p = f # rest \<Longrightarrow> receive_native (frame_value f) (np_browser p) = (Inr rx, s') \<Longrightarrow>
     native_step ver p (p\<lparr>np_browser := s', np_in := rest, np_out := np_out p @ listed (nr_response rx),
                    np_got_browser := np_got_browser p @ listed (nr_application rx)\<rparr>)"

inductive native_reachable :: "jstr \<Rightarrow> native_pair \<Rightarrow> native_pair \<Rightarrow> bool" for ver p0 where
  initial: "native_reachable ver p0 p0"
| move: "native_reachable ver p0 p \<Longrightarrow> native_step ver p p' \<Longrightarrow> native_reachable ver p0 p'"

definition native_joined :: "link \<Rightarrow> native_pair" where
  "native_joined host =
     \<lparr>np_browser = new_native_link, np_host = host, np_out = [], np_in = [], np_sent_browser = [],
      np_got_host = [], np_sent_host = [], np_got_browser = []\<rparr>"

section \<open>The simulation\<close>

definition simulates :: "jstr \<Rightarrow> native_pair \<Rightarrow> link_pair \<Rightarrow> bool" where
  "simulates ver p q \<longleftrightarrow>
     lp_a q = as_link ver (np_browser p) \<and> lp_b q = np_host p
     \<and> list_all2 denotes (np_out p) (lp_ab q) \<and> lp_ba q = np_in p \<and> list_all frame_ok (np_in p)
     \<and> list_all2 denotes (np_sent_browser p) (lp_sent_a q) \<and> lp_got_b q = np_got_host p
     \<and> lp_sent_b q = np_sent_host p \<and> list_all2 denotes (np_got_browser p) (lp_got_a q)"

lemma own_frame_valid: "own_frame r b s = (Inr f, s') \<Longrightarrow> frame_ok f"
  by (auto simp: own_frame_def intro: frame_read_ok split: prod.splits sum.splits option.splits)

lemma respond_valid: "respond r b s = (Inr rx, s') \<Longrightarrow> list_all frame_ok (listed (rx_response rx))"
  by (auto simp: respond_def dest: own_frame_valid split: prod.splits sum.splits)

lemma response_valid:
  assumes "receive_link v s = (Inr rx, s')"
  shows "list_all frame_ok (listed (rx_response rx))"
proof -
  have ready: "receive_ready f s = (Inr rx, s') \<Longrightarrow> ?thesis" for f
    by (cases "nf_body f") (auto simp: receive_ready_def reject_link_def Let_def dest: respond_valid split: if_splits)
  from assms show ?thesis
    by (auto simp: receive_link_def reject_link_def accept_hello_def accept_hello_acknowledgement_def
        dest: respond_valid ready split: option.splits if_splits link_state.splits frame_body.splits)
qed

text \<open>A session looks at a value only through the schema, and a frame's own value is never too long.\<close>

lemma receive_denotes: "denotes v f \<Longrightarrow> frame_ok f \<Longrightarrow> receive_link v s = receive_link (frame_value f) s"
  by (simp add: receive_link_def denotes_def frame_value_read)

lemma frame_value_short: "frame_ok f \<Longrightarrow> oversized_text (frame_value f) \<le> 65536"
  using frame_accepts [of "frame_value f"] by (simp add: frame_value_read)

lemma denotes_ok: "denotes v f \<Longrightarrow> frame_ok f"
  by (simp add: denotes_def frame_read_ok)

text \<open>The extension sends no agent turns.\<close>

lemma sent_short:
  assumes "send_native u s = (Inr v, s')"
  shows "oversized_text u \<le> 65536"
proof -
  from assms have "type_among u OUTGOING_APPLICATION_TYPES"
    by (auto simp: send_native_def reject_native_def parse_native_messaging_frame_def split: if_splits option.splits)
  then have "at_key u ''type'' \<noteq> JStr (js ''agent/turn/start'')"
    using agent_turn_type [of "at_key u ''type''"]
    by (auto simp: type_among_def native_type_def OUTGOING_APPLICATION_TYPES_def split: option.splits)
  then show ?thesis by (simp add: oversized_text_def)
qed

lemma same_outcome_Inr:
  "same_outcome ver related (Inr x, s') l \<Longrightarrow> \<exists>y. l = (Inr y, as_link ver s') \<and> related x y"
  by (cases l) (auto simp: same_outcome_def elim: rel_sum.cases)

lemma listed_related: "rel_option related x y \<Longrightarrow> list_all2 related (listed x) (listed y)"
  by (auto elim: option.rel_cases)

lemma native_step_simulated:
  assumes "native_step ver p p'" and "simulates ver p q" and ver: "opaque_text 64 ver"
  shows "\<exists>q'. pair_step q q' \<and> simulates ver p' q'"
  using assms(1,2)
proof cases
  case (start r v s')
  from same_outcome_Inr [OF start_as_link [OF ver, of r "np_browser p", unfolded start(2)]]
  obtain f where f: "start_link r (as_link ver (np_browser p)) = (Inr f, as_link ver s')" "denotes v f" by blast
  with assms(2) have "start_link r (lp_a q) = (Inr f, as_link ver s')" by (simp add: simulates_def)
  from pair_step.start [OF this] f assms(2) show ?thesis
    by (intro exI conjI) (assumption | simp add: simulates_def start(1) list_all2_appendI)+
next
  case (send_browser u v s')
  from same_outcome_Inr [OF send_as_link [OF sent_short [OF send_browser(2)], of ver "np_browser p", unfolded send_browser(2)]]
  obtain f where f: "send_application u (as_link ver (np_browser p)) = (Inr f, as_link ver s')" "denotes v f" by blast
  with assms(2) have "send_application u (lp_a q) = (Inr f, as_link ver s')" by (simp add: simulates_def)
  from pair_step.send_a [OF this] f assms(2) show ?thesis
    by (intro exI conjI) (assumption | simp add: simulates_def send_browser(1) list_all2_appendI)+
next
  case (send_host u f b')
  with assms(2) have "send_application u (lp_b q) = (Inr f, b')" by (simp add: simulates_def)
  from pair_step.send_b [OF this] send_application_Inr [OF send_host(2)] assms(2) show ?thesis
    by (intro exI conjI) (assumption | simp add: simulates_def send_host(1))+
next
  case (beat_host r f b')
  with assms(2) have "send_heartbeat r (lp_b q) = (Inr f, b')" by (simp add: simulates_def)
  moreover have "frame_ok f" using send_heartbeat_Inr [OF beat_host(2)] by blast
  ultimately show ?thesis
    using pair_step.beat_b [of r q f b'] assms(2)
    by (intro exI conjI) (assumption | simp add: simulates_def beat_host(1))+
next
  case (deliver_host v rest rx b')
  with assms(2) obtain f ab where q: "lp_ab q = f # ab" "denotes v f" "list_all2 denotes rest ab"
    by (auto simp: simulates_def list_all2_Cons1)
  with deliver_host(3) assms(2) have "receive_link (frame_value f) (lp_b q) = (Inr rx, b')"
    using receive_denotes [OF q(2) denotes_ok [OF q(2)]] by (simp add: simulates_def)
  from pair_step.deliver_b [OF q(1) this] q(3) response_valid [OF deliver_host(3)] assms(2) show ?thesis
    by (intro exI conjI) (assumption | simp add: simulates_def deliver_host(1))+
next
  case (deliver_browser f rest rx s')
  with assms(2) have ok: "frame_ok f" and q: "lp_ba q = f # rest" by (auto simp: simulates_def)
  from same_outcome_Inr [OF receive_as_link [OF frame_value_short [OF ok], of ver "np_browser p", unfolded deliver_browser(3)]]
  obtain lrx where rx: "receive_link (frame_value f) (as_link ver (np_browser p)) = (Inr lrx, as_link ver s')"
    and related: "received_as rx lrx" by blast
  with assms(2) have "receive_link (frame_value f) (lp_a q) = (Inr lrx, as_link ver s')" by (simp add: simulates_def)
  from pair_step.deliver_a [OF q this] related assms(2) deliver_browser(2) show ?thesis
    by (intro exI conjI)
      (assumption | simp add: simulates_def deliver_browser(1) received_as_def list_all2_appendI listed_related)+
qed

lemma native_reachable_simulated:
  assumes "native_reachable ver (native_joined host) p" and "opaque_text 64 ver"
  shows "\<exists>q. pair_reachable (joined (as_link ver new_native_link) host) q \<and> simulates ver p q"
  using assms(1)
proof induction
  case initial
  show ?case
    by (intro exI conjI, rule pair_reachable.initial) (simp add: simulates_def joined_def native_joined_def)
next
  case (move p p')
  then obtain q where q: "pair_reachable (joined (as_link ver new_native_link) host) q" "simulates ver p q" by blast
  from native_step_simulated [OF move(2) q(2) assms(2)] obtain q' where "pair_step q q'" "simulates ver p' q'" by blast
  with q(1) show ?case by (blast intro: pair_reachable.move)
qed

section \<open>Properties\<close>

lemma application_types_ok:
  "is_application_type_set EXTENSION_TO_BRIDGE_APPLICATION_TYPES"
  "is_application_type_set BRIDGE_TO_EXTENSION_APPLICATION_TYPES"
  by code_simp+

lemma new_link_parts:
  "new_link v i l m out r = Some s \<Longrightarrow> ln_local s = l \<and> ln_remote s = r \<and> ln_incoming s = i \<and> ln_outgoing s = out"
  by (auto simp: new_link_def split: if_splits)

lemma extension_host_match:
  assumes "opaque_text 64 ver" and "new_relay hv = Some r"
  shows "matching_ends (as_link ver new_native_link) (nr_extension r)"
proof -
  have "new_link ver BRIDGE_TO_EXTENSION_APPLICATION_TYPES Peer_Extension Initiator
      EXTENSION_TO_BRIDGE_APPLICATION_TYPES Peer_Native_Host = Some (as_link ver new_native_link)"
    using assms(1) application_types_ok
    by (simp add: new_link_def version_ok as_link_def new_native_link_def)
  moreover from assms(2) have host: "new_link hv EXTENSION_TO_BRIDGE_APPLICATION_TYPES Peer_Native_Host Responder
      BRIDGE_TO_EXTENSION_APPLICATION_TYPES Peer_Extension = Some (nr_extension r)"
    by (auto simp: new_relay_def split: option.splits)
  moreover from host have "ln_local (nr_extension r) = Peer_Native_Host" "ln_remote (nr_extension r) = Peer_Extension"
      "ln_incoming (nr_extension r) = EXTENSION_TO_BRIDGE_APPLICATION_TYPES"
      "ln_outgoing (nr_extension r) = BRIDGE_TO_EXTENSION_APPLICATION_TYPES"
    using new_link_parts [OF host] by simp_all
  ultimately show ?thesis
    unfolding matching_ends_def by (simp only: as_link_simps) blast
qed

text \<open>
  C40. The extension and the native host never break their link: in every state they can reach, the next value on
  either channel is accepted by the end it is for, unless that end has used up its sequence numbers; and
  what one has sent is, frame for frame and in order, what the other was handed and what is on the way.
\<close>

theorem extension_host_link_sound:
  assumes "opaque_text 64 ver" and "new_relay hv = Some r" and "native_reachable ver (native_joined (nr_extension r)) p"
  shows "(\<forall>v rest. np_out p = v # rest \<longrightarrow>
      exhausted (np_host p) \<or> (\<exists>rx b'. receive_link v (np_host p) = (Inr rx, b')))
    \<and> (\<forall>f rest. np_in p = f # rest \<longrightarrow> max_safe_integer < int (nl_next (np_browser p))
        \<or> (\<exists>rx s'. receive_native (frame_value f) (np_browser p) = (Inr rx, s')))
    \<and> (\<exists>fs. list_all2 denotes (np_out p) fs
        \<and> list_all2 denotes (np_sent_browser p) (np_got_host p @ filter is_application fs))
    \<and> (\<exists>got. list_all2 denotes (np_got_browser p) got
        \<and> np_sent_host p = got @ filter is_application (np_in p))"
proof -
  from native_reachable_simulated [OF assms(3,1)]
  obtain q where reach: "pair_reachable (joined (as_link ver new_native_link) (nr_extension r)) q"
    and sim: "simulates ver p q" by blast
  have inv: "pair_inv q"
    by (rule pair_reachable_inv [OF reach joined_inv [OF extension_host_match [OF assms(1,2)]]])
  have host: "exhausted (np_host p) \<or> (\<exists>rx b'. receive_link v (np_host p) = (Inr rx, b'))"
    if "np_out p = v # rest" for v rest
  proof -
    from sim that obtain f ab where f: "lp_ab q = f # ab" "denotes v f"
      by (auto simp: simulates_def list_all2_Cons1)
    with inv_never_rejects [OF inv] sim show ?thesis
      by (simp add: simulates_def receive_denotes [OF f(2) denotes_ok [OF f(2)]])
  qed
  have browser: "max_safe_integer < int (nl_next (np_browser p))
      \<or> (\<exists>rx s'. receive_native (frame_value f) (np_browser p) = (Inr rx, s'))"
    if "np_in p = f # rest" for f rest
  proof -
    from sim that have "frame_ok f" and "lp_ba q = f # rest" by (auto simp: simulates_def)
    with inv_never_rejects [OF inv] sim receive_as_link [OF frame_value_short, of f ver "np_browser p"]
    show ?thesis
      by (cases "receive_native (frame_value f) (np_browser p)"; cases "fst (receive_native (frame_value f) (np_browser p))")
        (auto simp: simulates_def exhausted_def same_outcome_def elim: rel_sum.cases)
  qed
  from inv sim have sent: "lp_sent_a q = np_got_host p @ filter is_application (lp_ab q)"
    "np_sent_host p = lp_got_a q @ filter is_application (np_in p)"
    unfolding pair_inv_def simulates_def by metis+
  from sim have "list_all2 denotes (np_sent_browser p) (lp_sent_a q)" "list_all2 denotes (np_out p) (lp_ab q)"
    "list_all2 denotes (np_got_browser p) (lp_got_a q)"
    by (simp_all add: simulates_def)
  with sent(1) have "\<exists>fs. list_all2 denotes (np_out p) fs
      \<and> list_all2 denotes (np_sent_browser p) (np_got_host p @ filter is_application fs)"
    by (intro exI [of _ "lp_ab q"]) (simp del: is_application_simps)
  moreover from sent(2) \<open>list_all2 denotes (np_got_browser p) (lp_got_a q)\<close> have "\<exists>got. list_all2 denotes (np_got_browser p) got
      \<and> np_sent_host p = got @ filter is_application (np_in p)"
    by (intro exI [of _ "lp_got_a q"]) (simp del: is_application_simps)
  ultimately show ?thesis using host browser by blast
qed

definition sample_relay :: relay where
  "sample_relay = the (new_relay (js ''1''))"

theorem extension_host_link_sound_witness:
  "\<exists>v rx b'. start_native (js ''r1'') (js ''1'') new_native_link
       = (Inr v, snd (start_native (js ''r1'') (js ''1'') new_native_link))
     \<and> receive_link v (nr_extension sample_relay) = (Inr rx, b')"
proof -
  have ver: "opaque_text 64 (js ''1'')" by code_simp
  have relay: "new_relay (js ''1'') = Some sample_relay" by code_simp
  have "(case fst (start_native (js ''r1'') (js ''1'') new_native_link) of Inr _ \<Rightarrow> True | Inl _ \<Rightarrow> False)" by code_simp
  then obtain v where v: "start_native (js ''r1'') (js ''1'') new_native_link
      = (Inr v, snd (start_native (js ''r1'') (js ''1'') new_native_link))"
    by (cases "start_native (js ''r1'') (js ''1'') new_native_link") (auto split: sum.splits)
  let ?p = "(native_joined (nr_extension sample_relay))
    \<lparr>np_browser := snd (start_native (js ''r1'') (js ''1'') new_native_link), np_out := [v]\<rparr>"
  have "native_step (js ''1'') (native_joined (nr_extension sample_relay)) ?p"
    using native_step.start [of "js ''r1''" "js ''1''" "native_joined (nr_extension sample_relay)"] v
    by (simp add: native_joined_def)
  then have "native_reachable (js ''1'') (native_joined (nr_extension sample_relay)) ?p"
    by (rule native_reachable.move [OF native_reachable.initial])
  from extension_host_link_sound [OF ver relay this]
  have "exhausted (nr_extension sample_relay) \<or> (\<exists>rx b'. receive_link v (nr_extension sample_relay) = (Inr rx, b'))"
    by (simp add: native_joined_def)
  moreover have "\<not> exhausted (nr_extension sample_relay)" by code_simp
  ultimately show ?thesis using v by blast
qed

end
