(* ===== verification/Frame_Acceptance.thy ===== *)
theory Frame_Acceptance
  imports Frame_Facts
begin

text \<open>
  Exactly which values the frame schema accepts: those that spell a well-formed typed frame. Two
  values spell the same when they differ only in what a schema does not look at: the order of an
  object's keys (and shadowed duplicates), the sign of zero, and an optional field that is there but
  undefined. Every schema is shown to read a typed value from exactly the spellings of what its
  writer writes.
\<close>

declare strict_object_value [simp del]

section \<open>Spellings\<close>

inductive spells :: "jval \<Rightarrow> jval \<Rightarrow> bool" where
  same: "spells v v"
| zero: "spells (JNum NNegZero) (num 0)"
| items: "list_all2 spells vs ws \<Longrightarrow> spells (JArr vs) (JArr ws)"
| fields: "fst ` set r \<subseteq> fst ` set w \<Longrightarrow>
    (\<And>k x. map_of w k = Some x \<Longrightarrow> \<exists>y. map_of r k = Some y \<and> spells y x) \<Longrightarrow> spells (JObj r) (JObj w)"

declare spells.same [simp, intro]

inductive_cases spells_strE: "spells v (JStr s)"
inductive_cases spells_boolE: "spells v (JBool b)"
inductive_cases spells_numE: "spells v (JNum n)"
inductive_cases spells_undefE: "spells v JUndef"
inductive_cases spells_arrE: "spells v (JArr ws)"
inductive_cases spells_objE: "spells v (JObj w)"

lemma spells_simps [simp]:
  "spells v (JStr s) \<longleftrightarrow> v = JStr s" "spells v (JBool b) \<longleftrightarrow> v = JBool b"
  "spells v JUndef \<longleftrightarrow> v = JUndef"
  "spells v (num n) \<longleftrightarrow> v = num n \<or> n = 0 \<and> v = JNum NNegZero"
  by (auto intro: spells.intros elim: spells_strE spells_boolE spells_undefE spells_numE)

lemma spells_two [simp]: "spells v (JNum (NInt 2)) \<longleftrightarrow> v = JNum (NInt 2)"
  by (auto elim: spells_numE)

lemma spells_enum [simp]: "spells v (enum_value table x) \<longleftrightarrow> v = enum_value table x"
  by (simp add: enum_value_def)

lemma spells_arr [simp]: "spells v (JArr ws) \<longleftrightarrow> (\<exists>vs. v = JArr vs \<and> list_all2 spells vs ws)"
  by (auto intro: spells.intros elim!: spells_arrE simp: list_all2_same)

text \<open>An object is spelled field by field.\<close>

definition spelled :: "data_record \<Rightarrow> jstr \<Rightarrow> jval \<Rightarrow> bool" where
  "spelled r k x \<longleftrightarrow> (\<exists>y. map_of r k = Some y \<and> spells y x)"

lemma spelled_field: "x \<noteq> JUndef \<Longrightarrow> spelled r (js k) x \<longleftrightarrow> spells (field r k) x"
  by (auto simp: spelled_def field_def split: option.split elim: spells.cases)

lemma spells_obj:
  assumes "distinct (map fst w)"
  shows "spells v (JObj w) \<longleftrightarrow>
    (\<exists>r. v = JObj r \<and> fst ` set r \<subseteq> fst ` set w \<and> list_all (\<lambda>(k, x). spelled r k x) w)"
proof -
  have of: "map_of w k = Some x \<longleftrightarrow> (k, x) \<in> set w" for k x
    using assms by (rule map_of_eq_Some_iff)
  show ?thesis
  proof
    assume "spells v (JObj w)"
    then show "\<exists>r. v = JObj r \<and> fst ` set r \<subseteq> fst ` set w \<and> list_all (\<lambda>(k, x). spelled r k x) w"
      by (cases rule: spells_objE) (auto simp: spelled_def list_all_iff of [symmetric] intro: same)
  next
    assume "\<exists>r. v = JObj r \<and> fst ` set r \<subseteq> fst ` set w \<and> list_all (\<lambda>(k, x). spelled r k x) w"
    then show "spells v (JObj w)"
      by (auto simp: spelled_def list_all_iff of intro!: spells.fields)
  qed
qed

lemma value_defined [simp]:
  "effort_option_value e \<noteq> JUndef" "descriptor_value d \<noteq> JUndef" "capabilities_value c \<noteq> JUndef"
  "active_status_value a \<noteq> JUndef" "agent_status_value s \<noteq> JUndef" "bridge_error_value b \<noteq> JUndef"
  "text_input_value t \<noteq> JUndef"
  by (simp_all add: effort_option_value_def descriptor_value_def capabilities_value_def
      active_status_value_def bridge_error_value_def text_input_value_def) (cases s; simp add: active_status_value_def)

text \<open>The simple readers read exactly the spellings.\<close>

lemma read_sequence_spells: "read_sequence v = Some n \<longleftrightarrow> safe_nat n \<and> spells v (num n)"
  by (auto simp: read_sequence_def split: jval.splits jnum.splits if_splits)

lemma read_positive_spells: "read_positive v = Some n \<longleftrightarrow> (0 < n \<and> safe_nat n) \<and> spells v (num n)"
  by (auto simp: read_positive_def split: jval.splits jnum.splits if_splits)

lemma lookup_text_found: "lookup_text table s = Some x \<Longrightarrow> distinct (map snd table) \<Longrightarrow> text_of table x = s"
proof (induction table s rule: lookup_text.induct)
  case (2 k y table s)
  show ?case
  proof (cases "s = js k")
    case False
    with 2 have "lookup_text table s = Some x" by simp
    then have "x \<in> snd ` set table" by (induction table s rule: lookup_text.induct) (auto split: if_splits)
    with 2 False show ?thesis by auto
  qed (use 2 in simp)
qed simp

lemma read_enum_found: "distinct (map snd table) \<Longrightarrow> read_enum table v = Some x \<Longrightarrow> v = enum_value table x"
  by (auto simp: read_enum_def enum_value_def lookup_text_found split: jval.splits)

lemma tables_distinct:
  "distinct (map snd peer_roles)" "distinct (map snd close_reasons)" "distinct (map snd finish_reasons)"
  "distinct (map snd delta_channels)" "distinct (map snd bridge_error_codes)" "distinct (map snd frame_types)"
  by code_simp+

lemma read_enums_iff:
  "read_enum peer_roles v = Some p \<longleftrightarrow> v = enum_value peer_roles p"
  "read_enum close_reasons v = Some c \<longleftrightarrow> v = enum_value close_reasons c"
  "read_enum finish_reasons v = Some f \<longleftrightarrow> v = enum_value finish_reasons f"
  "read_enum delta_channels v = Some d \<longleftrightarrow> v = enum_value delta_channels d"
  "read_enum bridge_error_codes v = Some e \<longleftrightarrow> v = enum_value bridge_error_codes e"
  "read_enum frame_types v = Some t \<longleftrightarrow> v = enum_value frame_types t"
  by (auto dest: tables_distinct [THEN read_enum_found])

text \<open>Arrays are read element by element.\<close>

lemma read_each_iff: "read_each f vs = Some xs \<longleftrightarrow> list_all2 (\<lambda>v x. f v = Some x) vs xs"
  by (induction vs arbitrary: xs) (auto simp: bind_Some_iff list_all2_Cons1)

lemma read_array_spells:
  assumes "\<And>v x. f v = Some x \<longleftrightarrow> ok x \<and> spells v (w x)"
  shows "read_array lo hi f v = Some xs \<longleftrightarrow>
    lo \<le> length xs \<and> length xs \<le> hi \<and> list_all ok xs \<and> spells v (JArr (map w xs))"
proof -
  have each: "list_all2 (\<lambda>v x. f v = Some x) vs xs \<longleftrightarrow>
      list_all ok xs \<and> list_all2 (\<lambda>v x. spells v (w x)) vs xs" for vs
    unfolding assms by (induction xs arbitrary: vs) (auto simp: list_all2_Cons2)
  show ?thesis
    by (cases v) (auto simp: read_array_def read_each_iff each list_all2_map2 dest: list_all2_lengthD)
qed

lemma spells_text_tuple: "spells v (JArr [JStr s]) \<longleftrightarrow> v = JArr [JStr s]"
  by (auto simp: list_all2_Cons2)

section \<open>Payload data\<close>

lemmas acceptance_simps =
  text_schema_defs bind_Some_iff read_text_iff expect_iff require_iff read_bool_iff read_sequence_spells
  strict_object_iff read_enums_iff spells_obj spelled_field

lemma effort_option_spells:
  "reasoning_effort_option_schema v = Some e \<longleftrightarrow> effort_option_ok e \<and> spells v (effort_option_value e)"
  by (cases e) (auto simp: reasoning_effort_option_schema_def effort_option_ok_def effort_option_value_def
      acceptance_simps)

lemma descriptor_spells:
  "web_model_descriptor_schema v = Some m \<longleftrightarrow> descriptor_ok m \<and> spells v (descriptor_value m)"
  by (cases m) (auto simp: web_model_descriptor_schema_def descriptor_ok_def descriptor_value_def text_modality_def
      read_array_spells [OF effort_option_spells] acceptance_simps spells_text_tuple simp del: spells_arr)

lemma capabilities_spells:
  "browser_capabilities_schema v = Some c \<longleftrightarrow> capabilities_ok c \<and> spells v (capabilities_value c)"
  by (cases c) (auto simp: browser_capabilities_schema_def capabilities_ok_def capabilities_value_def
      read_array_spells [OF descriptor_spells] acceptance_simps simp del: spells_arr)

definition binding_value :: "document_binding \<Rightarrow> jval" where
  "binding_value b =
     JObj [(js ''documentId'', JStr (db_document_id b)), (js ''generation'', num (db_generation b)),
           (js ''tabId'', num (db_tab_id b))]"

lemma active_status_value_binding:
  "active_status_value a =
     JObj [(js ''binding'', binding_value (as_binding a)),
           (js ''conversationOwnershipId'', JStr (as_ownership_id a)),
           (js ''expiresAtMs'', num (as_expires a)), (js ''issuedAtMs'', num (as_issued a)),
           (js ''lastActivityAtMs'', num (as_last_activity a)), (js ''leaseId'', JStr (as_lease_id a)),
           (js ''revision'', num (as_revision a)), (js ''state'', JStr (js ''active''))]"
  by (simp add: active_status_value_def binding_value_def)

lemma binding_value_defined [simp]: "binding_value b \<noteq> JUndef"
  by (simp add: binding_value_def)

lemma binding_spells:
  "document_binding_schema v = Some b \<longleftrightarrow> binding_ok b \<and> spells v (binding_value b)"
  by (cases b) (auto simp: document_binding_schema_def binding_ok_def binding_value_def acceptance_simps)

lemma active_spells:
  "active_status_schema v = Some a \<longleftrightarrow> active_ok a \<and> spells v (active_status_value a)"
  by (cases a) (auto simp: active_status_schema_def active_ok_def active_status_value_binding Let_def
      binding_spells acceptance_simps)

lemma status_spells:
  "agent_status_schema v = Some a \<longleftrightarrow> status_ok a \<and> spells v (agent_status_value a)"
proof (cases a)
  case (Active_Status x)
  have "field r ''state'' = JStr (js ''active'')" if "spells (JObj r) (active_status_value x)" for r
    using that by (auto simp: active_status_value_def spells_obj spelled_field)
  moreover have "\<exists>r. v = JObj r" if "spells v (active_status_value x)"
    using that by (auto simp: active_status_value_def spells_obj)
  ultimately show ?thesis
    by (cases v) (auto simp: agent_status_schema_def Active_Status active_spells)
next
  case (Inactive_Status n)
  have "inactive_status_schema v = Some n \<longleftrightarrow> safe_nat n
      \<and> spells v (JObj [(js ''revision'', num n), (js ''state'', JStr (js ''inactive''))])"
    by (auto simp: inactive_status_schema_def acceptance_simps)
  then show ?thesis
    by (cases v) (auto simp: agent_status_schema_def Inactive_Status spells_obj spelled_field)
qed

lemma error_spells:
  "bridge_error_schema v = Some e \<longleftrightarrow> error_ok e \<and> spells v (bridge_error_value e)"
  by (cases e) (auto simp: bridge_error_schema_def error_ok_def bridge_error_value_def acceptance_simps)

lemma text_input_spells:
  "text_input_schema v = Some s \<longleftrightarrow> any_text 65536 s \<and> spells v (text_input_value s)"
  by (auto simp: text_input_schema_def text_input_value_def MAX_TURN_INPUT_TEXT_CHARACTERS_def acceptance_simps)

lemma turn_input_spells:
  "turn_input_schema v = Some xs \<longleftrightarrow>
     (1 \<le> length xs \<and> length xs \<le> 16 \<and> list_all (any_text 65536) xs \<and> sum_list (map length xs) \<le> 262144)
     \<and> spells v (JArr (map text_input_value xs))"
  by (auto simp: turn_input_schema_def MAX_TURN_INPUT_ITEMS_def MAX_TURN_INPUT_TOTAL_CHARACTERS_def
      read_array_spells [OF text_input_spells] acceptance_simps simp del: spells_arr)

lemma agent_input_spells:
  "agent_turn_input_schema v = Some s \<longleftrightarrow> any_text 65536 s \<and> spells v (JArr [text_input_value s])"
proof -
  have "agent_turn_input_schema v = Some s \<longleftrightarrow> read_array 1 1 text_input_schema v = Some [s]"
  proof
    assume "agent_turn_input_schema v = Some s"
    then obtain items where items: "read_array 1 1 text_input_schema v = Some items"
      and s: "(case items of [item] \<Rightarrow> Some item | _ \<Rightarrow> None) = Some s"
      unfolding agent_turn_input_schema_def bind_Some_iff by blast
    from s have "items = [s]" by (auto split: list.splits)
    with items show "read_array 1 1 text_input_schema v = Some [s]" by simp
  qed (simp add: agent_turn_input_schema_def)
  then show ?thesis
    using read_array_spells [OF text_input_spells, of 1 1 v "[s]"] by simp
qed

lemma versions_spells:
  "supported_protocol_versions_schema v = Some ns \<longleftrightarrow>
     (1 \<le> length ns \<and> length ns \<le> 16 \<and> list_all (\<lambda>n. 0 < n \<and> safe_nat n) ns \<and> distinct ns \<and> 2 \<in> set ns)
     \<and> spells v (JArr (map num ns))"
  by (auto simp: supported_protocol_versions_schema_def NATIVE_MESSAGING_PROTOCOL_VERSION_def
      read_array_spells [OF read_positive_spells] acceptance_simps simp del: spells_arr)

section \<open>Payloads\<close>

text \<open>
  What can be written for a body: its value, and for a disconnection without a reason also the
  object whose reason is there and undefined.
\<close>

definition body_values :: "frame_body \<Rightarrow> jval list" where
  "body_values b =
     body_value b #
       (case b of Session_Disconnect s None \<Rightarrow> [JObj [session_entry s, (js ''reason'', JUndef)]] | _ \<Rightarrow> [])"

lemma body_values_other:
  "(\<And>s. b \<noteq> Session_Disconnect s None) \<Longrightarrow> body_values b = [body_value b]"
  by (auto simp: body_values_def split: frame_body.split option.split)

lemmas payload_spells =
  capabilities_spells active_spells status_spells error_spells turn_input_spells agent_input_spells
  versions_spells

lemma disconnect_spells:
  "session_disconnect_schema v = Some b \<longleftrightarrow>
     type_of_body b = T_Session_Disconnect \<and> body_ok b \<and> (\<exists>w \<in> set (body_values b). spells v w)"
proof (cases b)
  case (Session_Disconnect s c)
  have undef: "spelled r k JUndef \<longleftrightarrow> map_of r k = Some JUndef" for r k
    by (auto simp: spelled_def)
  have field: "field r k = JUndef \<longleftrightarrow> js k \<notin> fst ` set r \<or> map_of r (js k) = Some JUndef" for r k
    using map_of_eq_None_iff [of r "js k"] by (cases "map_of r (js k)") (simp_all add: field_def)
  show ?thesis
  proof (cases c)
    case None
    let ?ok = "\<lambda>r. v = JObj r \<and> field r ''sessionId'' = JStr s"
    let ?both = "\<lambda>r. fst ` set r \<subseteq> {js ''sessionId'', js ''reason''}"
    have "session_disconnect_schema v = Some b \<longleftrightarrow>
        (\<exists>r. ?ok r \<and> ?both r \<and> opaque_text 128 s
          \<and> (js ''reason'' \<notin> fst ` set r \<or> map_of r (js ''reason'') = Some JUndef))"
      unfolding session_disconnect_schema_def Session_Disconnect None field [symmetric]
      by (auto simp: acceptance_simps split: if_splits)
    also have "\<dots> \<longleftrightarrow> opaque_text 128 s
        \<and> ((\<exists>r. ?ok r \<and> fst ` set r \<subseteq> {js ''sessionId''})
          \<or> (\<exists>r. ?ok r \<and> ?both r \<and> map_of r (js ''reason'') = Some JUndef))"
    proof -
      have "X \<subseteq> {a, b} \<and> (b \<notin> X \<or> Q) \<longleftrightarrow> X \<subseteq> {a} \<or> X \<subseteq> {a, b} \<and> Q"
        if "a \<noteq> b" for X :: "jstr set" and a b Q
        using that by blast
      from this [of "js ''sessionId''" "js ''reason''"]
      have keys: "?both r \<and> (js ''reason'' \<notin> fst ` set r \<or> map_of r (js ''reason'') = Some JUndef) \<longleftrightarrow>
          fst ` set r \<subseteq> {js ''sessionId''} \<or> ?both r \<and> map_of r (js ''reason'') = Some JUndef" for r
        by simp
      show ?thesis
      proof (cases v)
        case (JObj r)
        show ?thesis using keys [of r] by (simp add: JObj) metis
      qed simp_all
    qed
    also have "\<dots> \<longleftrightarrow> type_of_body b = T_Session_Disconnect \<and> body_ok b \<and> (\<exists>w \<in> set (body_values b). spells v w)"
      by (auto simp: Session_Disconnect None body_values_def spells_obj spelled_field undef)
    finally show ?thesis .
  next
    case (Some reason)
    then show ?thesis
      by (auto simp: session_disconnect_schema_def Session_Disconnect body_values_def acceptance_simps
          split: if_splits)
  qed
qed (auto simp: session_disconnect_schema_def bind_Some_iff split: if_splits)

lemma hello_spells:
  "hello_schema v = Some b \<longleftrightarrow>
     type_of_body b = T_Hello \<and> body_ok b \<and> (\<exists>w \<in> set (body_values b). spells v w)"
  by (cases b) (auto simp: hello_schema_def body_values_other versions_spells acceptance_simps simp del: spells_arr)

lemma agent_turn_spells:
  "agent_turn_start_schema v = Some b \<longleftrightarrow>
     type_of_body b = T_Agent_Turn_Start \<and> body_ok b \<and> (\<exists>w \<in> set (body_values b). spells v w)"
proof (cases b)
  case (Agent_Turn_Start a)
  then show ?thesis
    by (cases a) (auto simp: agent_turn_start_schema_def AGENT_WORKFLOW_PROTOCOL_VERSION_def agent_turn_ok_def
        body_values_other active_spells agent_input_spells acceptance_simps simp del: spells_arr)
qed (auto simp: agent_turn_start_schema_def bind_Some_iff)

lemma turn_start_spells:
  "turn_start_schema v = Some b \<longleftrightarrow>
     type_of_body b = T_Turn_Start \<and> body_ok b \<and> (\<exists>w \<in> set (body_values b). spells v w)"
proof (cases b)
  case (Turn_Start a)
  then show ?thesis
    by (cases a) (auto simp: turn_start_schema_def browser_turn_ok_def
        body_values_other turn_input_spells acceptance_simps simp del: spells_arr)
qed (auto simp: turn_start_schema_def bind_Some_iff)

lemma own_body_spells:
  "payload_schema (type_of_body b) v = Some b \<longleftrightarrow> body_ok b \<and> (\<exists>w \<in> set (body_values b). spells v w)"
proof (cases b)
  case (Session_Disconnect s c)
  then show ?thesis using disconnect_spells [of v b] by simp
next
  case (Hello p n vs)
  then show ?thesis using hello_spells [of v b] by simp
next
  case (Agent_Turn_Start a)
  then show ?thesis using agent_turn_spells [of v b] by simp
next
  case (Turn_Start a)
  then show ?thesis using turn_start_spells [of v b] by simp
qed (auto simp: payload_defs body_values_other payload_spells acceptance_simps simp del: spells_arr)

lemma body_spells:
  "payload_schema t v = Some b \<longleftrightarrow>
     type_of_body b = t \<and> body_ok b \<and> (\<exists>w \<in> set (body_values b). spells v w)"
  using own_body_spells body_read_ok by blast

section \<open>Frames\<close>

definition frame_values :: "frame \<Rightarrow> jval list" where
  "frame_values f =
     map (\<lambda>p. JObj [(js ''protocolVersion'', num NATIVE_MESSAGING_PROTOCOL_VERSION),
                  (js ''requestId'', JStr (nf_request_id f)), (js ''sequence'', num (nf_sequence f)),
                  (js ''type'', enum_value frame_types (type_of_body (nf_body f))), (js ''payload'', p)])
       (body_values (nf_body f))"

lemma frame_values_defined: "w \<in> set (body_values b) \<Longrightarrow> w \<noteq> JUndef"
  by (cases b rule: body_value.cases) (auto simp: body_values_def)

lemma frame_spells:
  "frame_schema v = Some f \<longleftrightarrow> frame_ok f \<and> (\<exists>w \<in> set (frame_values f). spells v w)"
proof -
  have object: "spells v (JObj [(js ''protocolVersion'', num NATIVE_MESSAGING_PROTOCOL_VERSION),
        (js ''requestId'', JStr (nf_request_id f)), (js ''sequence'', num (nf_sequence f)),
        (js ''type'', enum_value frame_types (type_of_body (nf_body f))), (js ''payload'', p)])
    \<longleftrightarrow> (\<exists>r. v = JObj r
        \<and> fst ` set r \<subseteq> set (map js [''protocolVersion'', ''requestId'', ''sequence'', ''type'', ''payload''])
        \<and> field r ''protocolVersion'' = num NATIVE_MESSAGING_PROTOCOL_VERSION
        \<and> field r ''requestId'' = JStr (nf_request_id f) \<and> spells (field r ''sequence'') (num (nf_sequence f))
        \<and> field r ''type'' = enum_value frame_types (type_of_body (nf_body f)) \<and> spells (field r ''payload'') p)"
    if "p \<noteq> JUndef" for p
    using that by (simp add: spells_obj spelled_field NATIVE_MESSAGING_PROTOCOL_VERSION_def)
  have eq: "\<lparr>nf_request_id = a, nf_sequence = n, nf_body = b\<rparr> = f
      \<longleftrightarrow> a = nf_request_id f \<and> n = nf_sequence f \<and> b = nf_body f" for a n b
    by (cases f) auto
  show ?thesis
    by (auto simp: frame_values_def object frame_values_defined frame_schema_def frame_ok_def eq
        request_id_schema_def strict_object_iff bind_Some_iff read_text_iff expect_iff read_enums_iff
        read_sequence_spells body_spells simp del: spells_simps)
qed

section \<open>Properties\<close>

text \<open>
  C10. The frame schema accepts exactly the well-formed frames: a value is read as the typed frame
  f precisely when f satisfies the documented limits on its texts, numbers, lists and
  timestamps and the value spells f: protocol version 2, the request id, sequence, type and
  payload of f and no other key, where only the order of keys, the sign of a zero and an
  undefined reason of a disconnection are left open. In particular writing a typed frame and
  reading it back gives the same frame precisely when it is well formed.
\<close>

theorem frame_schema_round_trip:
  "(frame_schema v = Some f \<longleftrightarrow> frame_ok f \<and> (\<exists>w \<in> set (frame_values f). spells v w))
    \<and> frame_value f \<in> set (frame_values f)
    \<and> (frame_schema (frame_value f) = Some f \<longleftrightarrow> frame_ok f)"
  using frame_spells frame_value_read frame_read_ok
  by (auto simp: frame_values_def frame_value_def body_values_def)

theorem frame_schema_round_trip_witness:
  "frame_schema (JObj [(js ''payload'', JObj [(js ''acknowledgedSequence'', num 2)]),
       (js ''type'', JStr (js ''ack'')), (js ''sequence'', num 3), (js ''requestId'', JStr (js ''r1'')),
       (js ''protocolVersion'', num 2)]) = Some sample_frame
   \<and> \<not> (\<exists>w \<in> set (frame_values sample_frame). spells (JObj []) w)"
proof -
  let ?v = "JObj [(js ''payload'', JObj [(js ''acknowledgedSequence'', num 2)]),
       (js ''type'', JStr (js ''ack'')), (js ''sequence'', num 3), (js ''requestId'', JStr (js ''r1'')),
       (js ''protocolVersion'', num 2)]"
  have "frame_schema ?v = Some sample_frame" and "frame_schema (JObj []) = None" by code_simp+
  with frame_schema_round_trip [of ?v sample_frame] frame_schema_round_trip [of "JObj []" sample_frame]
  show ?thesis by auto
qed

end
