(* ===== verification/Spec2Isabelle.thy ===== *)
theory Spec2Isabelle
  imports Router_Properties Catalog_Properties Native_Host_Relay Transport_Properties Line_Properties
    Facade_Properties Tool_Workflow_Properties Certified_Tool_Properties Agent_Properties Browser_Session_Properties
    Browser_Host_Link Frame_Acceptance Link_Properties
begin

text \<open>
  A verification library for GPTSessionBridge, a local bridge that lets a Codex client run chosen
  threads on a ChatGPT Web model of the user's own browser. Paths below are relative to \<open>src/\<close>.

  Parts and how they interact. The Codex client and the official app server speak newline-delimited
  JSON through the facade (\<open>apps/bridge/src/facade/app-server-router.ts\<close>). The facade asks the model
  catalog (\<open>packages/core/src/catalog\<close>) to add the browser's models to the native model list, and the
  thread router (\<open>packages/core/src/routing\<close>) to decide for each lifecycle request whether its thread is
  native or Web, to rewrite it for the private provider, and to check what comes back. Towards the browser,
  frames (\<open>packages/protocol/src/native-messaging.ts\<close>) travel through length-prefixed byte streams, one
  link session per hop (\<open>packages/native-messaging/src\<close>) and the relay of the native host
  (\<open>apps/native-host/src/protocol/native-host-relay.ts\<close>). A thread that uses tools is driven by the agent
  session coordinator (\<open>apps/bridge/src/browser/agent-session-coordinator.ts\<close>): it submits prompts to the
  browser, reads the answers with the tool workflow codec (\<open>packages/protocol/src/tool-workflow-v2.ts\<close>),
  checks proposed arguments against certified schemas (\<open>apps/bridge/src/tooling/certified-tool-schema.ts\<close>)
  and commits at most one tool call per round.

  Foundations. \<open>Prelude\<close> has the results of code that can throw (\<open>return\<close>, \<open>throw\<close>, \<open>and_then\<close>,
  \<open>reject_if\<close>, with the collection \<open>outcome_simps\<close> that reads a chain of guards backwards) and the
  insertion-ordered \<open>Map\<close> of JavaScript as an association list with the contract \<open>keyed_store\<close>.
  \<open>Js_Value\<close> has strings of UTF-16 code units, numbers (safe integers, decimals kept as text, the negative
  zero, the non-finite ones) and values probed with \<open>typeof\<close>. \<open>Json_Text\<close> has \<open>JSON.parse\<close> and
  \<open>JSON.stringify\<close>.

  Routing. \<open>Web_Namespace\<close> (\<open>model-namespace.ts\<close>), \<open>Model_Registry\<close> (\<open>model-registry.ts\<close>, \<open>errors.ts\<close>; locale
  \<open>model_directory\<close>, interpreted on the registry), \<open>Capability_Token\<close>, \<open>Thread_Router\<close> with its facts,
  \<open>Router_Steps\<close> (the operations as a labelled step relation, with the bookkeeping invariant over every
  history) and \<open>Router_Properties\<close>: the capacities and counters are exact, pinned threads keep their route,
  blocked threads stay excluded from every operation that can name them, a prepared Web request is isolated
  and carries exactly the route that was decided, a native one is untouched,
  discarding undoes preparing, and the explicit-stack scan for private material is exact.

  Catalog. \<open>Cursor_Store\<close>, \<open>Virtual_Model\<close>, \<open>Model_Catalog\<close>, \<open>Catalog_Properties\<close>: cursors read back until
  they expire and the store is bounded, pages are free of collisions, and over every history of the catalog
  (\<open>catalog_run\<close>) a page names a Web model once and leaves the rest behind its cursor; a client that follows
  the cursors, each in time, sees every Web model once.

  Frames and links. \<open>Bridge_Frames\<close> and \<open>Frame_Schema\<close> (the 25 frames and their schemas), \<open>Frame_Facts\<close> (written
  frames are read back, accepted frames are well formed and closed), \<open>Frame_Acceptance\<close> (exactly which values are
  read as which frame, by the relation \<open>spells\<close> that leaves the order of keys and the sign of a zero open), \<open>Link_Session\<close> (one end of a link), \<open>Link_Pair\<close> and \<open>Link_Properties\<close> (two ends over
  ordered channels never reject each other, deliver in order, hand on only valid frames),
  \<open>Native_Host_Relay\<close>.

  Byte streams. \<open>Chunk_Scanner\<close> is the contract both decoders provide (locale \<open>chunk_scanner\<close>, interpreted
  in \<open>Frame_Decoder\<close> and \<open>Line_Decoder\<close>): chunk boundaries do not matter and an error is final. \<open>Write_Queue\<close>
  is the queue both writers share (locale \<open>queued_writer\<close>, interpreted in \<open>Frame_Writer\<close> and \<open>Line_Writer\<close>).
  \<open>Transport_Properties\<close> and \<open>Line_Properties\<close> compose a writer with a decoder: what was written is read, in
  order, however it is cut, but for a chunk too large for the buffer of the frame decoder, which ends the run with
  an error after a first part; and every write is settled once.

  Facade. \<open>App_Server_Envelope\<close> (\<open>json.ts\<close>, \<open>app-server.ts\<close>), \<open>Facade_Router\<close>, \<open>Facade_Facts\<close>,
  \<open>Facade_Properties\<close>: the facade composed with the thread router and the catalog agrees with them in
  every reachable state, owns or answers every request, frees what a response answers, and lets no
  private name out.

  Tool workflow. \<open>Tool_Json\<close> (canonical text and the structure scanner), \<open>Tool_Workflow\<close> (envelopes),
  \<open>Tool_Json_Facts\<close>, \<open>Tool_Workflow_Properties\<close>: canonical text reads back, a response is accepted only in its
  exact form, every outcome for the canonical text of a valid envelope (an unescaped U+FEFF is refused), a result is written so that it is read back.
  \<open>Certified_Tool_Schema\<close> and \<open>Certified_Tool_Properties\<close>: which schemas are certified and that a match
  holds arguments to their declared keys at every depth.

  Agent sessions. \<open>Agent_Binding\<close> (browser binding and lease, child binding, manifest, visible request),
  \<open>Agent_Coordinator\<close> (workflows as steps between the \<open>await\<close>s of the code: the calls of the class, and
  the settling of the promises it waits for, each with the answers of boundary, clock and entropy source
  as arguments), \<open>Agent_Facts\<close> (the invariant over reachable states), \<open>Agent_Samples\<close> (a concrete run),
  \<open>Agent_Properties\<close>: consistent published states, bounded workflows
  (\<open>agent_run\<close> keeps beside the state the results it was given, to which the counters are tied), refinement of an abstract protocol of
  alternating proposals and results, exact commits and continuations, final failures.

  Browser session. The coordinator of the authenticated browser session
  (\<open>apps/bridge/src/browser/browser-session-coordinator.ts\<close>) stands between the agent coordinator and the
  frames. \<open>Stateful\<close> has operations that change an object and may throw, keeping what was changed before the
  throw, with their weakest preconditions (\<open>ensures_simps\<close>). \<open>Browser_Session\<close> has the fields and the
  shared operations, \<open>Browser_Session_Steps\<close> the public methods and timers, \<open>Browser_Session_Receive\<close> one handler
  per frame. A promise is a number with the list of its outcomes. \<open>receive\<close> is three steps, at its
  awaits: dispatching a frame, the sink settling, and the end of the call. \<open>Browser_Session_Facts\<close> has the
  invariant, \<open>Browser_Session_Kept\<close> that every operation keeps it, \<open>Browser_Session_History\<close> what is only ever
  added to (locale \<open>session_relation\<close>, interpreted on \<open>grown\<close>) and the reachable states,
  \<open>Browser_Session_Promises\<close> which steps lose a promise, \<open>Browser_Session_Samples\<close> concrete runs,
  \<open>Browser_Session_Properties\<close> (interpretation \<open>silence\<close>): promises settle once and permanently, published
  state is consistent, turns start only under the current selection and lease, a sink is called with
  exactly the deltas of its acknowledged turn, a rejected frame tears the transport down and settles what was owed
  before it was handled, and no promise is lost but for the answers the code does not handle (a refused status or
  renewal, and a refused cancellation of an expired turn), for which \<open>taken_back\<close> names the promise. Three
  closed runs show the first, a wrong published phase and a cancellation that crosses the end of its turn.

  Extension link. The extension does not share code with the packages. \<open>Native_Frame_Check\<close> is its own frame
  validator (\<open>apps/browser-extension/src/protocol/browser-native-link.ts\<close>), one predicate per function;
  \<open>Native_Frame_Equivalence\<close> shows that it accepts the values the schemas accept, apart from the length
  of one text. \<open>Browser_Native_Link\<close> is the class \<open>BrowserNativeLink\<close>, which refines \<open>Link_Session\<close> as an
  initiator whose peer is the native host. \<open>Browser_Host_Link\<close> joins it with the session the relay of the
  native host keeps for it: each step of the two is a step of the pair of \<open>Link_Properties\<close>, so they never
  reject each other and deliver in order.

  Bounds and fuel. Loops are structural, or recursions with a measure (the number of nodes of a value, the
  length of what is left); nothing runs out of fuel silently. Retries for a fresh cursor or identifier have
  the number of attempts of the code, and giving up is an error of the code.

  Parameters. What the code takes from its platform is an argument: bytes of entropy, the clock, the reading
  of a decimal number (\<open>Number(text)\<close>), the order, quotient and rounding of doubles that are not integers,
  SHA-256, \<open>URL\<close> parsing, and in the stream components the JSON parser and printer with the one
  law that printing reads back. Laws are named premises and every property that has one has an instance.

  Modelling notes. Objects keep their keys in insertion order. Getters, proxies, symbol keys and sparse arrays
  are outside the values; objects are plain records. Freezing has no effect on values that cannot change.
  A negative zero cannot reach \<open>read_round\<close>, as the scanner rejects its text. A delta that arrives after
  its turn has ended is ignored, and none arrives before \<open>startBoundTurn\<close> has returned; the
  boundary and the sink do not call back into the coordinator while they answer. The end of a renewal, a callback
  and the resumption of the round that awaits it a microtask later, is one step (\<open>activity_settled\<close>). Arguments
  that cannot be written canonically give \<open>Tool_Loop_Incomplete\<close> in \<open>read_proposed_call\<close> in every round; validated
  arguments can always be written. In the facade, \<open>handle_server\<close> leaves out the limit of the platform on
  the arguments of one \<open>push\<close>, an \<open>onInitializeComplete\<close> that throws, and the dropping of a \<open>__proto__\<close> key by
  the schema library. The casts of
  \<open>matchesSchemaNode\<close> are only modelled on certified nodes, the only ones it is called with.

  Not modelled. The HTTP side (\<open>apps/bridge/src/http\<close>), whose servers rest on the event order of the platform's
  streams; the agent boundary and the model route of the browser session, which forward between modelled parts; the
  process plumbing (\<open>cli.ts\<close>, \<open>runtime\<close>, \<open>bidirectional-proxy.ts\<close>, \<open>windows-ipc-helper.ts\<close>); the policies,
  diagnostics and redaction of \<open>packages/core/src/security\<close>, whose inputs have getters and cycles; of the browser
  extension the session broker, the page protocol, the activation lease and the code that drives the page,
  a document that is not under \<open>src/\<close>; the Windows setup, the scripts and the C# helper.
\<close>

end
